(* ===== verification/Prelude.thy ===== *)
theory Prelude
  imports Main "HOL-Library.Word"
begin

text \<open>
  Prelude of the development: the vocabulary of Rust and of its standard library that every
  component uses.

  \<^item> \<open>byte\<close> is \<open>u8\<close>; a byte slice or buffer is a \<open>byte list\<close>. \<open>usize\<close> values are \<open>nat\<close>, and the
    saturating and checked operations of the source are written out against \<open>usize_max\<close>.
  \<^item> \<open>poll\<close> is \<open>std::task::Poll\<close>; \<open>'e + 'a\<close> is \<open>Result<'a, 'e>\<close> with \<open>Inl\<close> for \<open>Err\<close>.
  \<^item> \<open>outcome\<close> is a call that either returns or unwinds with a panic message.
  \<^item> \<open>comp\<close> is a call that may also loop for ever: \<open>None\<close> is "does not return".
  \<^item> \<open>bytevec\<close> is \<open>Vec<u8>\<close> with its capacity, because the source decides on it.
\<close>

section \<open>Machine sizes\<close>

type_synonym byte = "8 word"

text \<open>\<open>usize::MAX\<close> and \<open>c_int::MAX\<close> of a 64-bit target.\<close>

definition usize_max :: nat where
  "usize_max = 2 ^ 64 - 1"

definition c_int_max :: nat where
  "c_int_max = 2 ^ 31 - 1"

text \<open>\<open>usize::saturating_add\<close>, \<open>saturating_mul\<close>; \<open>saturating_sub\<close> is \<open>nat\<close> subtraction.\<close>

definition sat_add :: "nat \<Rightarrow> nat \<Rightarrow> nat" where
  "sat_add a b = min usize_max (a + b)"

definition sat_mul :: "nat \<Rightarrow> nat \<Rightarrow> nat" where
  "sat_mul a b = min usize_max (a * b)"

text \<open>\<open>usize::checked_add\<close>, \<open>checked_mul\<close>.\<close>

definition checked_add :: "nat \<Rightarrow> nat \<Rightarrow> nat option" where
  "checked_add a b = (if a + b \<le> usize_max then Some (a + b) else None)"

definition checked_mul :: "nat \<Rightarrow> nat \<Rightarrow> nat option" where
  "checked_mul a b = (if a * b \<le> usize_max then Some (a * b) else None)"

text \<open>\<open>usize::div_ceil\<close> for a divisor that is not 0 (0 panics in Rust).\<close>

definition div_ceil :: "nat \<Rightarrow> nat \<Rightarrow> nat" where
  "div_ceil a b = (if a mod b = 0 then a div b else a div b + 1)"

text \<open>The cast \<open>n as c_int\<close> of a length: reduction modulo \<open>2 ^ 32\<close>, read as two's complement.\<close>

definition as_c_int :: "nat \<Rightarrow> int" where
  "as_c_int n = sint (of_nat n :: 32 word)"

section \<open>Poll, panics and non-termination\<close>

datatype 'a poll = Pending | Ready 'a

text \<open>A call that returns a value or unwinds.\<close>

datatype 'a outcome = Ret 'a | Panic string

text \<open>A call that may also not return at all.\<close>

type_synonym 'a comp = "'a outcome option"

definition ret :: "'a \<Rightarrow> 'a comp" where
  "ret x = Some (Ret x)"

definition panic :: "string \<Rightarrow> 'a comp" where
  "panic m = Some (Panic m)"

definition bindc :: "'a comp \<Rightarrow> ('a \<Rightarrow> 'b comp) \<Rightarrow> 'b comp" where
  "bindc m f = Option.bind m (\<lambda>r. case r of Ret x \<Rightarrow> f x | Panic e \<Rightarrow> Some (Panic e))"

text \<open>An \<open>option\<close> whose \<open>None\<close> is an out-of-range index, as the panic it is.\<close>

definition indexed :: "'a option \<Rightarrow> 'a comp" where
  "indexed v = (case v of None \<Rightarrow> panic ''index out of bounds'' | Some x \<Rightarrow> ret x)"

section \<open>Vec<u8>\<close>

record bytevec =
  contents :: "byte list"
  capacity :: nat

definition vec_new :: bytevec where
  "vec_new = \<lparr>contents = [], capacity = 0\<rparr>"

abbreviation vec_len :: "bytevec \<Rightarrow> nat" where
  "vec_len v \<equiv> length (contents v)"

text \<open>
  \<open>Vec::reserve\<close>: nothing if the spare room is enough; otherwise the amortised growth of the
  standard library, which takes the larger of twice the capacity and what is required, and
  at least 8 for one-byte elements.
\<close>

definition vec_reserve :: "bytevec \<Rightarrow> nat \<Rightarrow> bytevec" where
  "vec_reserve v extra =
     (if capacity v - vec_len v < extra
      then v\<lparr>capacity := max 8 (max (2 * capacity v) (vec_len v + extra))\<rparr>
      else v)"

text \<open>\<open>Vec::extend_from_slice\<close>, and \<open>set_len\<close> after the spare room was written.\<close>

definition vec_extend :: "bytevec \<Rightarrow> byte list \<Rightarrow> bytevec" where
  "vec_extend v bs = (let w = vec_reserve v (length bs) in w\<lparr>contents := contents w @ bs\<rparr>)"

definition vec_set_filled :: "bytevec \<Rightarrow> byte list \<Rightarrow> bytevec" where
  "vec_set_filled v bs = v\<lparr>contents := contents v @ bs\<rparr>"

definition vec_clear :: "bytevec \<Rightarrow> bytevec" where
  "vec_clear v = v\<lparr>contents := []\<rparr>"

definition vec_ok :: "bytevec \<Rightarrow> bool" where
  "vec_ok v \<longleftrightarrow> vec_len v \<le> capacity v"

section \<open>Facts about the vocabulary\<close>

named_theorems frame "what an operation leaves unchanged"

lemma bindc_ret [simp]: "bindc (ret x) f = f x"
  by (simp add: bindc_def ret_def)

lemma bindc_panic [simp]: "bindc (panic m) f = panic m"
  by (simp add: bindc_def panic_def)

lemma bindc_None [simp]: "bindc None f = None"
  by (simp add: bindc_def)

lemma bindc_Some_Ret [simp]: "bindc (Some (Ret x)) f = f x"
  by (simp add: bindc_def)

lemma bindc_Some_Panic [simp]: "bindc (Some (Panic e)) f = Some (Panic e)"
  by (simp add: bindc_def)

lemma ret_eq_iff [simp]: "ret x = Some r \<longleftrightarrow> r = Ret x" "ret x = ret y \<longleftrightarrow> x = y"
  "ret x = panic m \<longleftrightarrow> False" "panic m = ret x \<longleftrightarrow> False" "ret x = None \<longleftrightarrow> False"
  by (auto simp: ret_def panic_def)

lemma bindc_eq_ret:
  "bindc m f = ret y \<longleftrightarrow> (\<exists>x. m = ret x \<and> f x = ret y)"
  by (cases m) (auto simp: bindc_def ret_def split: outcome.splits)

lemma bindc_eq_panic:
  "bindc m f = panic e \<longleftrightarrow> m = panic e \<or> (\<exists>x. m = ret x \<and> f x = panic e)"
  by (cases m) (auto simp: bindc_def ret_def panic_def split: outcome.splits)

lemma comp_cases [case_names None Panic Done, cases type: option]:
  obtains "m = None" | e where "m = panic e" | x where "m = ret x"
proof (cases m)
  case (Some r)
  with that show thesis by (cases r) (auto simp: ret_def panic_def)
qed (use that in simp)

lemma bindc_mono [partial_function_mono]:
  assumes "mono_option B" and "\<And>y. mono_option (\<lambda>f. C y f)"
  shows "mono_option (\<lambda>f. bindc (B f) (\<lambda>y. C y f))"
  unfolding bindc_def
proof (rule bind_mono [OF assms(1)])
  fix r
  show "mono_option (\<lambda>f. case r of Ret y \<Rightarrow> C y f | Panic e \<Rightarrow> Some (Panic e))"
    by (cases r) (simp_all add: assms(2) option.const_mono)
qed

lemma indexed_simps [simp]:
  "indexed (Some x) = ret x" "indexed None = panic ''index out of bounds''"
  by (simp_all add: indexed_def)

lemma unat_of_nat_small: "n < 2 ^ LENGTH('a) \<Longrightarrow> unat (of_nat n :: 'a::len word) = n"
  by (simp add: unsigned_of_nat take_bit_nat_eq_self)

lemma as_c_int_small: "n \<le> c_int_max \<Longrightarrow> as_c_int n = int n"
  by (simp add: as_c_int_def c_int_max_def signed_of_nat signed_take_bit_int_eq_self)

lemma div_ceil_bounds:
  assumes "0 < b"
  shows "a \<le> div_ceil a b * b" and "div_ceil a b * b < a + b"
proof -
  define q r where "q = a div b" and "r = a mod b"
  have a: "a = q * b + r" by (simp add: q_def r_def)
  have m: "r < b" using assms by (simp add: r_def)
  have d: "div_ceil a b = (if r = 0 then q else q + 1)" by (simp add: div_ceil_def q_def r_def)
  show "a \<le> div_ceil a b * b" unfolding d using a m by (simp add: add_mult_distrib)
  show "div_ceil a b * b < a + b" unfolding d using a m assms by (simp add: add_mult_distrib)
qed

lemma div_ceil_le_iff: "0 < b \<Longrightarrow> div_ceil a b \<le> k \<longleftrightarrow> a \<le> k * b"
proof -
  assume b: "0 < b"
  show ?thesis
  proof
    assume "div_ceil a b \<le> k"
    then have "div_ceil a b * b \<le> k * b" by simp
    with div_ceil_bounds(1) [OF b, of a] show "a \<le> k * b" by linarith
  next
    assume "a \<le> k * b"
    with div_ceil_bounds(2) [OF b, of a] have "div_ceil a b * b < (k + 1) * b" by simp
    with b have "div_ceil a b < k + 1" by (metis mult_less_cancel2)
    then show "div_ceil a b \<le> k" by simp
  qed
qed

lemma vec_len_new [simp]: "contents vec_new = []" "capacity vec_new = 0"
  by (simp_all add: vec_new_def)

lemma contents_reserve [simp]: "contents (vec_reserve v n) = contents v"
  by (simp add: vec_reserve_def)

lemma contents_extend [simp]: "contents (vec_extend v bs) = contents v @ bs"
  by (simp add: vec_extend_def Let_def)

lemma contents_set_filled [simp]: "contents (vec_set_filled v bs) = contents v @ bs"
  by (simp add: vec_set_filled_def)

lemma contents_clear [simp]: "contents (vec_clear v) = []" "capacity (vec_clear v) = capacity v"
  by (simp_all add: vec_clear_def)

lemma capacity_reserve: "vec_ok v \<Longrightarrow> vec_len v + n \<le> capacity (vec_reserve v n)"
  by (auto simp: vec_reserve_def vec_ok_def)

lemma vec_ok_intros [intro, simp]:
  "vec_ok vec_new" "vec_ok (vec_clear v)"
  "vec_ok v \<Longrightarrow> vec_ok (vec_reserve v n)" "vec_ok v \<Longrightarrow> vec_ok (vec_extend v bs)"
  by (auto simp: vec_ok_def vec_reserve_def vec_extend_def Let_def)

end
