(* ===== verification/Errors.thy ===== *)
theory Errors
  imports Prelude
begin

text \<open>
  Errors: \<open>btls/src/error.rs\<close> (the error queue of the TLS library and the stack popped from it),
  \<open>btls/src/ssl/error.rs\<close> (\<open>ssl::Error\<close> and its codes), the packed error codes of
  \<open>btls-sys/src/lib.rs\<close>, and the \<open>cvt\<close> family of \<open>btls/src/lib.rs\<close> that turns C return values
  into results. \<open>std::io::Error\<close> is a kind and a payload.

  The error queue of the current thread is the argument \<open>q\<close>: a list of entries, oldest first, which
  the library fills and these functions empty.
\<close>

unbundle bit_operations_syntax

section \<open>Packed error codes (\<open>btls-sys/src/lib.rs\<close>)\<close>

text \<open>\<open>c_int\<close> and \<open>c_uint\<close> are 32-bit words, \<open>c_ulong\<close> a 64-bit one; \<open>as c_ulong\<close> extends the sign.\<close>

definition ERR_PACK :: "32 word \<Rightarrow> 32 word \<Rightarrow> 32 word \<Rightarrow> 64 word" where
  "ERR_PACK l f r =
     (push_bit 24 (scast l AND 0x0FF)) OR (push_bit 12 (scast f AND 0xFFF)) OR (scast r AND 0xFFF)"

definition ERR_GET_LIB :: "32 word \<Rightarrow> 32 word" where
  "ERR_GET_LIB l = drop_bit 24 l AND 0x0FF"

definition ERR_GET_FUNC :: "32 word \<Rightarrow> 32 word" where
  "ERR_GET_FUNC l = drop_bit 12 l AND 0xFFF"

definition ERR_GET_REASON :: "32 word \<Rightarrow> 32 word" where
  "ERR_GET_REASON l = l AND 0xFFF"

section \<open>The error stack (\<open>btls/src/error.rs\<close>)\<close>

text \<open>The \<open>file\<close> pointer: null, the address of \<open>BORING_INTERNAL\<close>, or a string of the library.\<close>

datatype src_file = Null_File | Boring_Internal | C_File string

datatype err_data = Data_None | Data_CString string | Data_String string | Data_Static string

record boring_error =
  e_code :: "32 word"
  e_file :: src_file
  e_line :: nat
  e_data :: err_data

type_synonym error_stack = "boring_error list"

text \<open>
  One entry of the queue, as \<open>ERR_get_error_line_data\<close> reports it; the data is there when its flags
  have \<open>ERR_FLAG_STRING\<close>.
\<close>

record queued_error =
  q_code :: "32 word"
  q_file :: src_file
  q_line :: nat
  q_data :: "string option"

type_synonym err_queue = "queued_error list"

text \<open>\<open>Error::get\<close>: pops the oldest entry; the library reports an empty queue as code 0.\<close>

fun error_get :: "err_queue \<Rightarrow> boring_error option \<times> err_queue" where
  "error_get [] = (None, [])"
| "error_get (e # q) =
     (if q_code e = 0 then (None, q)
      else (Some \<lparr>e_code = q_code e, e_file = q_file e, e_line = q_line e,
                  e_data = (case q_data e of Some s \<Rightarrow> Data_CString s | None \<Rightarrow> Data_None)\<rparr>, q))"

lemma error_get_shrinks: "error_get q = (Some e, q') \<Longrightarrow> length q' < length q"
  by (cases q) (auto split: if_splits)

text \<open>\<open>ErrorStack::get\<close>: pops until the queue reports no more.\<close>

function error_stack_get :: "err_queue \<Rightarrow> error_stack \<times> err_queue" where
  "error_stack_get q =
     (case error_get q of
        (None, q') \<Rightarrow> ([], q')
      | (Some e, q') \<Rightarrow> (case error_stack_get q' of (es, q'') \<Rightarrow> (e # es, q'')))"
  by pat_completeness auto
termination
  by (relation "measure length") (auto dest: error_get_shrinks [OF sym])

declare error_stack_get.simps [simp del]

definition library_code :: "boring_error \<Rightarrow> 32 word" where
  "library_code e = ERR_GET_LIB (e_code e)"

definition reason_code :: "boring_error \<Rightarrow> 32 word" where
  "reason_code e = ERR_GET_REASON (e_code e)"

text \<open>\<open>Error::library_reason\<close>: the reason, for an error of the given library.\<close>

definition library_reason :: "boring_error \<Rightarrow> 32 word \<Rightarrow> 32 word option" where
  "library_reason e lib = (if library_code e = lib then Some (reason_code e) else None)"

definition is_internal :: "boring_error \<Rightarrow> bool" where
  "is_internal e \<longleftrightarrow> e_file e = Boring_Internal"

text \<open>\<open>Error::new_internal\<close>; \<open>ERR_LIB_NONE\<close> is a constant of the library.\<close>

definition new_internal :: "32 word \<Rightarrow> err_data \<Rightarrow> boring_error" where
  "new_internal err_lib_none msg =
     \<lparr>e_code = ucast (ERR_PACK err_lib_none 0 0), e_file = Boring_Internal, e_line = 0, e_data = msg\<rparr>"

definition internal_error_str :: "32 word \<Rightarrow> string \<Rightarrow> error_stack" where
  "internal_error_str err_lib_none message = [new_internal err_lib_none (Data_Static message)]"

text \<open>
  \<open>Error::data\<close>; \<open>utf8\<close> is \<open>CStr::to_str\<close>, which fails on bytes that are not UTF-8.
\<close>

definition error_data :: "(string \<Rightarrow> string option) \<Rightarrow> boring_error \<Rightarrow> string option" where
  "error_data utf8 e =
     (case e_data e of
        Data_None \<Rightarrow> None
      | Data_CString s \<Rightarrow> utf8 s
      | Data_String s \<Rightarrow> Some s
      | Data_Static s \<Rightarrow> Some s)"

text \<open>\<open>Error::data_cstr\<close>: \<open>CString::new\<close> fails on an interior NUL.\<close>

definition error_data_cstr :: "boring_error \<Rightarrow> string option" where
  "error_data_cstr e =
     (case e_data e of
        Data_None \<Rightarrow> None
      | Data_CString s \<Rightarrow> Some s
      | Data_String s \<Rightarrow> (if CHR 0x00 \<in> set s then None else Some s)
      | Data_Static s \<Rightarrow> (if CHR 0x00 \<in> set s then None else Some s))"

text \<open>
  \<open>Error::reason\<close> and \<open>Error::library\<close>; \<open>reason_string\<close> and \<open>lib_string\<close> are
  \<open>ERR_reason_error_string\<close> and \<open>ERR_lib_error_string\<close>, null as \<open>None\<close>.
\<close>

definition error_reason ::
    "(32 word \<Rightarrow> string option) \<Rightarrow> (string \<Rightarrow> string option) \<Rightarrow> boring_error \<Rightarrow> string option" where
  "error_reason reason_string utf8 e =
     (if is_internal e then error_data utf8 e
      else (case reason_string (e_code e) of None \<Rightarrow> None | Some s \<Rightarrow> utf8 s))"

definition error_library ::
    "(32 word \<Rightarrow> string option) \<Rightarrow> (string \<Rightarrow> string option) \<Rightarrow> boring_error \<Rightarrow> string option" where
  "error_library lib_string utf8 e =
     (if is_internal e then None
      else (case lib_string (e_code e) of
              None \<Rightarrow> None
            | Some s \<Rightarrow> (case utf8 s of
                  None \<Rightarrow> None
                | Some msg \<Rightarrow> if msg \<noteq> ''unknown library'' then Some msg else None)))"

section \<open>Return values (\<open>btls/src/lib.rs\<close>)\<close>

text \<open>
  \<open>cvt_p\<close>, \<open>cvt_0\<close>, \<open>cvt_0i\<close>, \<open>cvt\<close>, \<open>cvt_nz\<close> and \<open>cvt_n\<close>: a failing value pops the error stack, so
  each takes the queue and returns what is left of it.
\<close>

definition fail_stack :: "err_queue \<Rightarrow> (error_stack + 'a) \<times> err_queue" where
  "fail_stack q = (case error_stack_get q of (es, q') \<Rightarrow> (Inl es, q'))"

definition cvt_p :: "'p option \<Rightarrow> err_queue \<Rightarrow> (error_stack + 'p) \<times> err_queue" where
  "cvt_p r q = (case r of None \<Rightarrow> fail_stack q | Some p \<Rightarrow> (Inr p, q))"

definition cvt_0 :: "nat \<Rightarrow> err_queue \<Rightarrow> (error_stack + unit) \<times> err_queue" where
  "cvt_0 r q = (if r = 0 then fail_stack q else (Inr (), q))"

definition cvt_0i :: "int \<Rightarrow> err_queue \<Rightarrow> (error_stack + int) \<times> err_queue" where
  "cvt_0i r q = (if r = 0 then fail_stack q else (Inr r, q))"

definition cvt :: "int \<Rightarrow> err_queue \<Rightarrow> (error_stack + unit) \<times> err_queue" where
  "cvt r q = (if r \<le> 0 then fail_stack q else (Inr (), q))"

definition cvt_nz :: "int \<Rightarrow> err_queue \<Rightarrow> (error_stack + nat) \<times> err_queue" where
  "cvt_nz r q = (if 0 \<le> r \<and> nat r \<noteq> 0 then (Inr (nat r), q) else fail_stack q)"

definition cvt_n :: "int \<Rightarrow> err_queue \<Rightarrow> (error_stack + int) \<times> err_queue" where
  "cvt_n r q = (if r < 0 then fail_stack q else (Inr r, q))"

section \<open>\<open>ssl::Error\<close> and \<open>io::Error\<close> (\<open>btls/src/ssl/error.rs\<close>)\<close>

text \<open>The \<open>SSL_ERROR_*\<close> codes the source names; \<open>Code n\<close> is any other.\<close>

datatype error_code =
    NONE | ZERO_RETURN | WANT_READ | WANT_WRITE | WANT_X509_LOOKUP | PENDING_SESSION
  | PENDING_CERTIFICATE | WANT_CERTIFICATE_VERIFY | WANT_PRIVATE_KEY_OPERATION | PENDING_TICKET
  | EARLY_DATA_REJECTED | SYSCALL | SSL | Code int

text \<open>The \<open>io::ErrorKind\<close>s the source names; \<open>Kind n\<close> is any other.\<close>

datatype error_kind = WouldBlock | NotConnected | WriteZero | OtherKind | Kind nat

text \<open>
  \<open>io::Error\<close> is a kind with, for custom errors, the value it wraps; \<open>ssl::Error\<close> and
  \<open>InnerError\<close> are mutually recursive with it.
\<close>

datatype io_error = Io_Error (io_kind: error_kind) (io_payload: payload)
  and payload = Simple | Message string | Ssl_Payload ssl_error | Stack_Payload error_stack
  and ssl_error = Ssl_Error (ssl_code: error_code) (ssl_cause: "inner_error option")
  and inner_error = Inner_Io io_error | Inner_Ssl error_stack

type_synonym 'a io_result = "io_error + 'a"

text \<open>\<open>io::Error::from(kind)\<close> and \<open>io::Error::other\<close>.\<close>

definition io_from :: "error_kind \<Rightarrow> io_error" where
  "io_from k = Io_Error k Simple"

definition io_other :: "ssl_error \<Rightarrow> io_error" where
  "io_other e = Io_Error OtherKind (Ssl_Payload e)"

definition ssl_io_error :: "ssl_error \<Rightarrow> io_error option" where
  "ssl_io_error e = (case ssl_cause e of Some (Inner_Io i) \<Rightarrow> Some i | _ \<Rightarrow> None)"

definition into_io_error :: "ssl_error \<Rightarrow> ssl_error + io_error" where
  "into_io_error e = (case ssl_cause e of Some (Inner_Io i) \<Rightarrow> Inr i | _ \<Rightarrow> Inl e)"

definition ssl_stack :: "ssl_error \<Rightarrow> error_stack option" where
  "ssl_stack e = (case ssl_cause e of Some (Inner_Ssl s) \<Rightarrow> Some s | _ \<Rightarrow> None)"

definition would_block :: "ssl_error \<Rightarrow> bool" where
  "would_block e \<longleftrightarrow>
     ssl_code e \<in> {WANT_READ, WANT_WRITE, WANT_X509_LOOKUP, PENDING_SESSION, PENDING_CERTIFICATE,
                   WANT_PRIVATE_KEY_OPERATION, WANT_CERTIFICATE_VERIFY, PENDING_TICKET}"

text \<open>\<open>impl From<ErrorStack> for Error\<close>.\<close>

definition ssl_from_stack :: "error_stack \<Rightarrow> ssl_error" where
  "ssl_from_stack es = Ssl_Error SSL (Some (Inner_Ssl es))"

text \<open>\<open>e.into_io_error().unwrap_or_else(io::Error::other)\<close>.\<close>

definition io_of_ssl :: "ssl_error \<Rightarrow> io_error" where
  "io_of_ssl e = (case into_io_error e of Inr i \<Rightarrow> i | Inl e' \<Rightarrow> io_other e')"

text \<open>
  \<open>impl Display for Error\<close>; \<open>show_io\<close>, \<open>show_stack\<close> and \<open>show_code\<close> are the \<open>Display\<close> instances it
  delegates to.
\<close>

definition ssl_error_display ::
    "(io_error \<Rightarrow> string) \<Rightarrow> (error_stack \<Rightarrow> string) \<Rightarrow> (error_code \<Rightarrow> string) \<Rightarrow> ssl_error \<Rightarrow> string"
  where
  "ssl_error_display show_io show_stack show_code e =
     (case ssl_code e of
        ZERO_RETURN \<Rightarrow> ''the SSL session has been shut down''
      | WANT_READ \<Rightarrow> (case ssl_io_error e of
            Some _ \<Rightarrow> ''a nonblocking read call would have blocked''
          | None \<Rightarrow> ''the operation should be retried'')
      | WANT_WRITE \<Rightarrow> (case ssl_io_error e of
            Some _ \<Rightarrow> ''a nonblocking write call would have blocked''
          | None \<Rightarrow> ''the operation should be retried'')
      | SYSCALL \<Rightarrow> (case ssl_io_error e of Some i \<Rightarrow> show_io i | None \<Rightarrow> ''unexpected EOF'')
      | SSL \<Rightarrow> (case ssl_stack e of Some s \<Rightarrow> show_stack s | None \<Rightarrow> ''unknown BoringSSL error'')
      | c \<Rightarrow> show_code c)"

text \<open>\<open>HandshakeError<S>\<close>, over the mid-handshake stream it carries.\<close>

datatype 'm handshake_error = Setup_Failure error_stack | Failure 'm | Would_Block 'm

section \<open>Facts\<close>

lemma error_stack_get_simps [simp]:
  "error_stack_get [] = ([], [])"
  "q_code e = 0 \<Longrightarrow> error_stack_get (e # q) = ([], q)"
  "q_code e \<noteq> 0 \<Longrightarrow> error_stack_get (e # q) =
     (\<lparr>e_code = q_code e, e_file = q_file e, e_line = q_line e,
       e_data = (case q_data e of Some s \<Rightarrow> Data_CString s | None \<Rightarrow> Data_None)\<rparr>
      # fst (error_stack_get q), snd (error_stack_get q))"
  by (subst error_stack_get.simps; simp split: prod.split)+

lemma io_kind_simps [simp]:
  "io_kind (io_from k) = k" "io_kind (io_other e) = OtherKind"
  by (simp_all add: io_from_def io_other_def)

end
