(* ===== verification/Transport.thy ===== *)
theory Transport
  imports Errors
begin

text \<open>
  The transport under a TLS stream: any type that implements tokio's \<open>AsyncRead\<close> and \<open>AsyncWrite\<close>,
  as the record of its operations, and what those traits promise, as locales. The transports of the
  unit tests of \<open>tokio-btls/src/lib.rs\<close>, \<open>Sink\<close> and \<open>Once\<close>, are interpretations.

  A task context is the number under which \<open>SslStream::with_context\<close> installs it; it is never 0.
\<close>

section \<open>AsyncRead and AsyncWrite\<close>

record 't async_ops =
  a_poll_read :: "'t \<Rightarrow> nat \<Rightarrow> nat \<Rightarrow> 't \<times> byte list io_result poll"
  a_poll_write :: "'t \<Rightarrow> nat \<Rightarrow> byte list \<Rightarrow> 't \<times> nat io_result poll"
  a_poll_write_vectored :: "'t \<Rightarrow> nat \<Rightarrow> byte list list \<Rightarrow> 't \<times> nat io_result poll"
  a_is_write_vectored :: "'t \<Rightarrow> bool"
  a_poll_flush :: "'t \<Rightarrow> nat \<Rightarrow> 't \<times> unit io_result poll"
  a_poll_shutdown :: "'t \<Rightarrow> nat \<Rightarrow> 't \<times> unit io_result poll"

text \<open>What one write poll of \<open>data\<close> does to the bytes a transport has taken.\<close>

definition write_effect ::
    "('t \<Rightarrow> byte list) \<Rightarrow> 't \<Rightarrow> byte list \<Rightarrow> 't \<times> nat io_result poll \<Rightarrow> bool" where
  "write_effect sent t data res \<longleftrightarrow>
     (case snd res of
        Ready (Inr n) \<Rightarrow> n \<le> length data \<and> sent (fst res) = sent t @ take n data
      | _ \<Rightarrow> sent (fst res) = sent t)"

text \<open>
  The write half: \<open>sent t\<close> is everything the transport has taken. A write takes a prefix of what it
  is offered and returns its length, or takes nothing; flushing and closing take nothing.
\<close>

locale async_writer =
  fixes T :: "'t async_ops" and sent :: "'t \<Rightarrow> byte list"
  assumes write_law: "write_effect sent t b (a_poll_write T t cx b)"
    and vectored_law: "write_effect sent t (concat bs) (a_poll_write_vectored T t cx bs)"
    and flush_law: "sent (fst (a_poll_flush T t cx)) = sent t"
    and shutdown_law: "sent (fst (a_poll_shutdown T t cx)) = sent t"
begin

lemma write_Ready:
  assumes "a_poll_write T t cx b = (t', Ready (Inr n))"
  shows "n \<le> length b" and "sent t' = sent t @ take n b"
  using write_law [of t b cx] assms by (simp_all add: write_effect_def)

lemma write_not_taken:
  assumes "a_poll_write T t cx b = (t', r)" and "\<And>n. r \<noteq> Ready (Inr n)"
  shows "sent t' = sent t"
  using write_law [of t b cx] assms by (auto simp: write_effect_def split: poll.splits sum.splits)

lemma write_vectored_Ready:
  assumes "a_poll_write_vectored T t cx bs = (t', Ready (Inr n))"
  shows "n \<le> length (concat bs)" and "sent t' = sent t @ take n (concat bs)"
  using vectored_law [of t bs cx] assms by (simp_all add: write_effect_def)

lemma write_vectored_not_taken:
  assumes "a_poll_write_vectored T t cx bs = (t', r)" and "\<And>n. r \<noteq> Ready (Inr n)"
  shows "sent t' = sent t"
  using vectored_law [of t bs cx] assms
  by (auto simp: write_effect_def split: poll.splits sum.splits)

end

text \<open>What one read poll with room for \<open>cap\<close> bytes does to the bytes a transport has handed out.\<close>

definition read_effect ::
    "('t \<Rightarrow> byte list) \<Rightarrow> 't \<Rightarrow> nat \<Rightarrow> 't \<times> byte list io_result poll \<Rightarrow> bool" where
  "read_effect got t cap res \<longleftrightarrow>
     (case snd res of
        Ready (Inr d) \<Rightarrow> length d \<le> cap \<and> got (fst res) = got t @ d
      | _ \<Rightarrow> got (fst res) = got t)"

text \<open>
  The read half: \<open>got t\<close> is everything the transport has handed out. A read with room for \<open>cap\<close>
  bytes hands out at most \<open>cap\<close> bytes, and none unless it is ready.
\<close>

locale async_reader =
  fixes T :: "'t async_ops" and got :: "'t \<Rightarrow> byte list"
  assumes read_law: "read_effect got t cap (a_poll_read T t cx cap)"
begin

lemma read_Ready:
  assumes "a_poll_read T t cx cap = (t', Ready (Inr d))"
  shows "length d \<le> cap" and "got t' = got t @ d"
  using read_law [of t cap cx] assms by (simp_all add: read_effect_def)

lemma read_not_taken:
  assumes "a_poll_read T t cx cap = (t', r)" and "\<And>d. r \<noteq> Ready (Inr d)"
  shows "got t' = got t"
  using read_law [of t cap cx] assms by (auto simp: read_effect_def split: poll.splits sum.splits)

end

text \<open>A transport with both halves, which do not touch each other.\<close>

locale async_duplex = async_writer T sent + async_reader T got
  for T :: "'t async_ops" and sent got +
  assumes got_write: "got (fst (a_poll_write T t cx b)) = got t"
    and got_write_vectored: "got (fst (a_poll_write_vectored T t cx bs)) = got t"
    and got_flush: "got (fst (a_poll_flush T t cx)) = got t"
    and got_shutdown: "got (fst (a_poll_shutdown T t cx)) = got t"
    and sent_read: "sent (fst (a_poll_read T t cx cap)) = sent t"

section \<open>The transports of the unit tests\<close>

text \<open>
  \<open>Once\<close>: yields the given bytes in one read, then stays pending. \<open>once_log\<close> keeps what was handed
  out, for the laws only. (\<open>put_slice\<close> panics when the bytes do not fit; here the read stays pending.)
\<close>

record once =
  once_bytes :: "byte list"
  once_log :: "byte list"

definition once_poll_read :: "once \<Rightarrow> nat \<Rightarrow> nat \<Rightarrow> once \<times> byte list io_result poll" where
  "once_poll_read s cx cap =
     (if once_bytes s = [] \<or> cap < length (once_bytes s) then (s, Pending)
      else (\<lparr>once_bytes = [], once_log = once_log s @ once_bytes s\<rparr>,
            Ready (Inr (once_bytes s))))"

text \<open>\<open>Sink\<close>: takes up to \<open>budget\<close> bytes, then stays pending.\<close>

record sink =
  budget :: nat
  sink_data :: "byte list"

definition sink_poll_write :: "sink \<Rightarrow> nat \<Rightarrow> byte list \<Rightarrow> sink \<times> nat io_result poll" where
  "sink_poll_write s cx buf =
     (if budget s = 0 then (s, Pending)
      else let n = min (length buf) (budget s)
           in (s\<lparr>budget := budget s - n, sink_data := sink_data s @ take n buf\<rparr>, Ready (Inr n)))"

text \<open>The loop of \<open>Sink::poll_write_vectored\<close>, which stops at the first buffer that is not ready.\<close>

fun sink_write_bufs :: "sink \<Rightarrow> nat \<Rightarrow> byte list list \<Rightarrow> nat \<Rightarrow> sink \<times> nat" where
  "sink_write_bufs s cx [] written = (s, written)"
| "sink_write_bufs s cx (buf # bufs) written =
     (case sink_poll_write s cx buf of
        (s', Ready (Inr n)) \<Rightarrow> sink_write_bufs s' cx bufs (written + n)
      | (s', _) \<Rightarrow> (s', written))"

definition sink_poll_write_vectored ::
    "sink \<Rightarrow> nat \<Rightarrow> byte list list \<Rightarrow> sink \<times> nat io_result poll" where
  "sink_poll_write_vectored s cx bufs =
     (case sink_write_bufs s cx bufs 0 of
        (s', written) \<Rightarrow> if written = 0 then (s', Pending) else (s', Ready (Inr written)))"

text \<open>
  A transport that reads from a \<open>Once\<close> and writes to a \<open>Sink\<close>, for whole-stream examples. A
  \<open>poll_flush\<close> or \<open>poll_shutdown\<close> of \<open>Sink\<close> is always ready.
\<close>

definition once_sink :: "(once \<times> sink) async_ops" where
  "once_sink = \<lparr>
     a_poll_read = (\<lambda>(o', s) cx cap. case once_poll_read o' cx cap of (o2, r) \<Rightarrow> ((o2, s), r)),
     a_poll_write = (\<lambda>(o', s) cx b. case sink_poll_write s cx b of (s2, r) \<Rightarrow> ((o', s2), r)),
     a_poll_write_vectored =
       (\<lambda>(o', s) cx bs. case sink_poll_write_vectored s cx bs of (s2, r) \<Rightarrow> ((o', s2), r)),
     a_is_write_vectored = (\<lambda>_. True),
     a_poll_flush = (\<lambda>t cx. (t, Ready (Inr ()))),
     a_poll_shutdown = (\<lambda>t cx. (t, Ready (Inr ())))\<rparr>"

lemma sink_write_bufs_effect:
  "sink_write_bufs s cx bufs w = (s', w') \<Longrightarrow>
     w \<le> w' \<and> w' - w \<le> length (concat bufs) \<and>
     sink_data s' = sink_data s @ take (w' - w) (concat bufs)"
proof (induction bufs arbitrary: s w)
  case Nil
  then show ?case by simp
next
  case (Cons b bufs)
  show ?case
  proof (cases "budget s = 0")
    case True
    with Cons.prems show ?thesis by (simp add: sink_poll_write_def)
  next
    case False
    define n where "n = min (length b) (budget s)"
    define s1 where "s1 = s\<lparr>budget := budget s - n, sink_data := sink_data s @ take n b\<rparr>"
    have *: "sink_write_bufs s1 cx bufs (w + n) = (s', w')"
      using Cons.prems False by (simp add: sink_poll_write_def Let_def n_def s1_def)
    note IH = Cons.IH [OF *]
    have s1: "sink_data s1 = sink_data s @ take n b" by (simp add: s1_def)
    show ?thesis
    proof (cases "n = length b")
      case True
      then have "take (w' - w) (concat (b # bufs)) = b @ take (w' - (w + n)) (concat bufs)"
        using IH by auto
      moreover have "w' - w \<le> length (concat (b # bufs))" "w \<le> w'"
        using IH True by auto
      ultimately show ?thesis using IH s1 True by simp
    next
      case less: False
      then have "budget s1 = 0" by (simp add: s1_def n_def)
      then have "w' = w + n" "s' = s1"
        using * by (cases bufs; simp add: sink_poll_write_def)+
      with less s1 show ?thesis by (simp add: n_def)
    qed
  qed
qed

lemma sink_write_effect: "write_effect sink_data s b (sink_poll_write s cx b)"
  by (auto simp: write_effect_def sink_poll_write_def Let_def)

lemma sink_write_vectored_effect:
  "write_effect sink_data s (concat bs) (sink_poll_write_vectored s cx bs)"
  by (cases "sink_write_bufs s cx bs 0")
    (auto simp: write_effect_def sink_poll_write_vectored_def dest!: sink_write_bufs_effect)

interpretation os: async_duplex once_sink "\<lambda>t. sink_data (snd t)" "\<lambda>t. once_log (fst t)"
proof
  fix t :: "once \<times> sink" and cx cap b bs
  obtain o1 s1 where t: "t = (o1, s1)" by (cases t)
  show "write_effect (\<lambda>t. sink_data (snd t)) t b (a_poll_write once_sink t cx b)"
    using sink_write_effect [of s1 b cx]
    by (cases "sink_poll_write s1 cx b") (auto simp: once_sink_def t write_effect_def split: poll.splits sum.splits)
  show "write_effect (\<lambda>t. sink_data (snd t)) t (concat bs) (a_poll_write_vectored once_sink t cx bs)"
    using sink_write_vectored_effect [of s1 bs cx]
    by (cases "sink_poll_write_vectored s1 cx bs") (auto simp: once_sink_def t write_effect_def split: poll.splits sum.splits)
  show "read_effect (\<lambda>t. once_log (fst t)) t cap (a_poll_read once_sink t cx cap)"
    by (auto simp: once_sink_def t once_poll_read_def read_effect_def)
qed (auto simp: once_sink_def split: prod.splits)

end
