(* ===== verification/Buffers.thy ===== *)
theory Buffers
  imports Transport
begin

text \<open>
  The ciphertext buffers of \<open>tokio-btls/src/lib.rs\<close>: \<open>Transport\<close>, \<open>ReadBuffer\<close> and \<open>WriteBuffer\<close>.

  An operation on a buffer and the transport returns both, and the result or the panic. Under the
  laws of the transport (\<open>async_writer\<close>, \<open>async_reader\<close>) none of them panics, and the queue of sealed
  records neither loses nor repeats nor reorders a byte.
\<close>

section \<open>State\<close>

definition READ_BUF_CAPACITY :: nat where "READ_BUF_CAPACITY = 17 * 1024"
definition WRITE_BUF_CAPACITY :: nat where "WRITE_BUF_CAPACITY = 64 * 1024"
definition MAX_RECORD :: nat where "MAX_RECORD = 16 * 1024"
definition RECORD_OVERHEAD :: nat where "RECORD_OVERHEAD = 64"
definition SEAL_STACK_LEN :: nat where "SEAL_STACK_LEN = 17 * 1024"

text \<open>\<open>Transport\<close>: the stream, and the address of the task context or 0.\<close>

record 't transport =
  tr_stream :: 't
  tr_context :: nat

record read_buffer =
  rb_bytes :: bytevec
  rb_pos :: nat

record write_buffer =
  wb_bytes :: bytevec
  wb_pos :: nat
  wb_blocked :: bool

definition rb_default :: read_buffer where
  "rb_default = \<lparr>rb_bytes = vec_new, rb_pos = 0\<rparr>"

definition wb_default :: write_buffer where
  "wb_default = \<lparr>wb_bytes = vec_new, wb_pos = 0, wb_blocked = False\<rparr>"

section \<open>ReadBuffer\<close>

definition rb_is_empty :: "read_buffer \<Rightarrow> bool" where
  "rb_is_empty rb \<longleftrightarrow> contents (rb_bytes rb) = []"

text \<open>
  \<open>ReadBuffer::fill\<close>: one read of the transport into a fresh vector of \<open>READ_BUF_CAPACITY\<close>. The vector
  is taken out first, so an error or a pending read leaves the buffer empty.
\<close>

definition rb_fill ::
    "'t async_ops \<Rightarrow> read_buffer \<Rightarrow> 't transport
     \<Rightarrow> read_buffer \<times> 't transport \<times> unit io_result outcome" where
  "rb_fill T rb tr =
     (let bytes = vec_reserve (rb_bytes rb) READ_BUF_CAPACITY;
          taken = rb\<lparr>rb_bytes := vec_new, rb_pos := 0\<rparr>
      in if tr_context tr = 0 then (taken, tr, Panic ''no task context'')
         else case a_poll_read T (tr_stream tr) (tr_context tr) (capacity bytes - vec_len bytes) of
             (s, Ready (Inr d)) \<Rightarrow>
               (taken\<lparr>rb_bytes := bytes\<lparr>contents := d\<rparr>\<rparr>, tr\<lparr>tr_stream := s\<rparr>, Ret (Inr ()))
           | (s, Ready (Inl e)) \<Rightarrow> (taken, tr\<lparr>tr_stream := s\<rparr>, Ret (Inl e))
           | (s, Pending) \<Rightarrow> (taken, tr\<lparr>tr_stream := s\<rparr>, Ret (Inl (io_from WouldBlock))))"

text \<open>The copy and release at the end of \<open>ReadBuffer::read\<close>, for a destination of \<open>len\<close> bytes.\<close>

definition rb_take :: "read_buffer \<Rightarrow> nat \<Rightarrow> read_buffer \<times> byte list io_result outcome" where
  "rb_take rb len =
     (if vec_len (rb_bytes rb) < rb_pos rb then (rb, Panic ''range start index out of range'')
      else let buffered = drop (rb_pos rb) (contents (rb_bytes rb));
               n = min (length buffered) len;
               pos = rb_pos rb + n
           in (if pos = vec_len (rb_bytes rb) then rb\<lparr>rb_bytes := vec_new, rb_pos := 0\<rparr>
               else rb\<lparr>rb_pos := pos\<rparr>,
               Ret (Inr (take n buffered))))"

definition rb_read ::
    "'t async_ops \<Rightarrow> read_buffer \<Rightarrow> 't transport \<Rightarrow> nat
     \<Rightarrow> read_buffer \<times> 't transport \<times> byte list io_result outcome" where
  "rb_read T rb tr len =
     (case (if rb_is_empty rb then rb_fill T rb tr else (rb, tr, Ret (Inr ()))) of
        (rb1, tr1, Panic m) \<Rightarrow> (rb1, tr1, Panic m)
      | (rb1, tr1, Ret (Inl e)) \<Rightarrow> (rb1, tr1, Ret (Inl e))
      | (rb1, tr1, Ret (Inr _)) \<Rightarrow> (case rb_take rb1 len of (rb2, r) \<Rightarrow> (rb2, tr1, r)))"

section \<open>WriteBuffer\<close>

definition wb_buffered :: "write_buffer \<Rightarrow> byte list" where
  "wb_buffered wb = drop (wb_pos wb) (contents (wb_bytes wb))"

definition wb_len :: "write_buffer \<Rightarrow> nat" where
  "wb_len wb = vec_len (wb_bytes wb) - wb_pos wb"

definition wb_is_empty :: "write_buffer \<Rightarrow> bool" where
  "wb_is_empty wb \<longleftrightarrow> contents (wb_bytes wb) = []"

definition wb_is_full :: "write_buffer \<Rightarrow> bool" where
  "wb_is_full wb \<longleftrightarrow> WRITE_BUF_CAPACITY \<le> wb_len wb"

text \<open>\<open>WriteBuffer::make_room\<close>: compacts when the written prefix is long enough, then reserves.\<close>

definition wb_make_room :: "write_buffer \<Rightarrow> nat \<Rightarrow> write_buffer" where
  "wb_make_room wb extra =
     (let v = wb_bytes wb;
          compact = 0 < wb_pos wb \<and> (wb_len wb \<le> wb_pos wb \<or> capacity v - vec_len v < extra);
          wb1 = (if compact then wb\<lparr>wb_bytes := v\<lparr>contents := wb_buffered wb\<rparr>, wb_pos := 0\<rparr> else wb)
      in wb1\<lparr>wb_bytes := vec_reserve (wb_bytes wb1) extra\<rparr>)"

definition wb_push :: "write_buffer \<Rightarrow> byte list \<Rightarrow> write_buffer" where
  "wb_push wb rec =
     (let wb1 = wb_make_room wb (length rec) in wb1\<lparr>wb_bytes := vec_extend (wb_bytes wb1) rec\<rparr>)"

text \<open>\<open>WriteBuffer::reserve\<close>, for the records sealed from \<open>total_len\<close> bytes.\<close>

definition wb_reserve :: "write_buffer \<Rightarrow> nat \<Rightarrow> write_buffer" where
  "wb_reserve wb total_len =
     (if MAX_RECORD < total_len
      then let sealed = min total_len WRITE_BUF_CAPACITY
           in wb_make_room wb (sealed + div_ceil sealed MAX_RECORD * RECORD_OVERHEAD)
      else wb)"

text \<open>The loop of \<open>WriteBuffer::drain\<close>, one \<open>poll_write\<close> of the transport per turn.\<close>

function wb_drain_loop ::
    "'t async_ops \<Rightarrow> 't transport \<Rightarrow> write_buffer
     \<Rightarrow> 't transport \<times> write_buffer \<times> unit io_result outcome" where
  "wb_drain_loop T tr wb =
     (if wb_pos wb = vec_len (wb_bytes wb) then (tr, wb, Ret (Inr ()))
      else if tr_context tr = 0 then (tr, wb, Panic ''no task context'')
      else if vec_len (wb_bytes wb) < wb_pos wb
      then (tr, wb, Panic ''range start index out of range'')
      else case a_poll_write T (tr_stream tr) (tr_context tr) (wb_buffered wb) of
          (s, Ready (Inr n)) \<Rightarrow>
            if n = 0 then (tr\<lparr>tr_stream := s\<rparr>, wb, Ret (Inl (io_from WriteZero)))
            else wb_drain_loop T (tr\<lparr>tr_stream := s\<rparr>) (wb\<lparr>wb_pos := wb_pos wb + n\<rparr>)
        | (s, Ready (Inl e)) \<Rightarrow> (tr\<lparr>tr_stream := s\<rparr>, wb, Ret (Inl e))
        | (s, Pending) \<Rightarrow> (tr\<lparr>tr_stream := s\<rparr>, wb, Ret (Inl (io_from WouldBlock))))"
  by pat_completeness auto
termination
  by (relation "measure (\<lambda>(T, tr, wb). vec_len (wb_bytes wb) - wb_pos wb)") auto

declare wb_drain_loop.simps [simp del]

definition wb_drain ::
    "'t async_ops \<Rightarrow> 't transport \<Rightarrow> write_buffer
     \<Rightarrow> 't transport \<times> write_buffer \<times> unit io_result outcome" where
  "wb_drain T tr wb =
     (case wb_drain_loop T tr wb of
        (tr1, wb1, Panic m) \<Rightarrow> (tr1, wb1, Panic m)
      | (tr1, wb1, Ret r) \<Rightarrow>
          (tr1,
           if wb_pos wb1 = vec_len (wb_bytes wb1) then wb1\<lparr>wb_bytes := vec_new, wb_pos := 0\<rparr> else wb1,
           Ret r))"

text \<open>\<open>WriteBuffer::retry\<close>: as a write starts. Backpressure fails it only once the buffer is full.\<close>

definition wb_retry ::
    "'t async_ops \<Rightarrow> 't transport \<Rightarrow> write_buffer
     \<Rightarrow> 't transport \<times> write_buffer \<times> unit io_result outcome" where
  "wb_retry T tr wb =
     (case (if \<not> wb_is_empty wb then wb_drain T tr wb else (tr, wb, Ret (Inr ()))) of
        (tr1, wb1, Panic m) \<Rightarrow> (tr1, wb1, Panic m)
      | (tr1, wb1, Ret r) \<Rightarrow>
          (case r of
             Inl e \<Rightarrow>
               if io_kind e \<noteq> WouldBlock \<or> wb_is_full wb1 then (tr1, wb1, Ret (Inl e))
               else (tr1, wb1\<lparr>wb_blocked := \<not> wb_is_empty wb1\<rparr>, Ret (Inr ()))
           | Inr _ \<Rightarrow> (tr1, wb1\<lparr>wb_blocked := \<not> wb_is_empty wb1\<rparr>, Ret (Inr ()))))"

text \<open>\<open>WriteBuffer::drain_unless_blocked\<close>: the error is dropped, a panic is not.\<close>

definition wb_drain_unless_blocked ::
    "'t async_ops \<Rightarrow> 't transport \<Rightarrow> write_buffer
     \<Rightarrow> 't transport \<times> write_buffer \<times> unit outcome" where
  "wb_drain_unless_blocked T tr wb =
     (if \<not> wb_blocked wb
      then (case wb_drain T tr wb of
              (tr1, wb1, Panic m) \<Rightarrow> (tr1, wb1, Panic m)
            | (tr1, wb1, Ret _) \<Rightarrow> (tr1, wb1, Ret ()))
      else (tr, wb, Ret ()))"

text \<open>\<open>WriteBuffer::write_last\<close>: the buffered records and \<open>rec\<close> in one transport write.\<close>

definition wb_write_last ::
    "'t async_ops \<Rightarrow> 't transport \<Rightarrow> write_buffer \<Rightarrow> byte list
     \<Rightarrow> 't transport \<times> write_buffer \<times> unit outcome" where
  "wb_write_last T tr wb rec =
     (if tr_context tr = 0 then (tr, wb, Panic ''no task context'')
      else
        let pending = wb_len wb;
            (s, res) =
              (if pending = 0 then a_poll_write T (tr_stream tr) (tr_context tr) rec
               else if a_is_write_vectored T (tr_stream tr)
               then a_poll_write_vectored T (tr_stream tr) (tr_context tr) [wb_buffered wb, rec]
               else (tr_stream tr, Ready (Inr 0)));
            (wb1, n) =
              (case res of
                 Ready (Inr n) \<Rightarrow> (wb, n)
               | _ \<Rightarrow> (wb\<lparr>wb_blocked := True\<rparr>, 0));
            tr1 = tr\<lparr>tr_stream := s\<rparr>
        in if n < pending then (tr1, wb_push (wb1\<lparr>wb_pos := wb_pos wb1 + n\<rparr>) rec, Ret ())
           else let wb2 = wb1\<lparr>wb_bytes := vec_clear (wb_bytes wb1), wb_pos := 0\<rparr>
                in if length rec < n - pending
                   then (tr1, wb2, Panic ''range start index out of range'')
                   else (tr1, wb2\<lparr>wb_bytes := vec_extend (wb_bytes wb2) (drop (n - pending) rec)\<rparr>,
                         Ret ()))"

section \<open>The queue of sealed records\<close>

text \<open>
  The invariant of \<open>WriteBuffer\<close> that its comment states (\<open>pos < bytes.len()\<close> unless both are 0), and
  the abstract queue \<open>wb_buffered\<close>.
\<close>

definition wb_ok :: "write_buffer \<Rightarrow> bool" where
  "wb_ok wb \<longleftrightarrow> vec_ok (wb_bytes wb) \<and>
     (wb_pos wb < vec_len (wb_bytes wb) \<or> wb_pos wb = 0 \<and> contents (wb_bytes wb) = [])"

lemma wb_ok_default [simp]: "wb_ok wb_default" "wb_buffered wb_default = []"
  by (simp_all add: wb_ok_def wb_default_def wb_buffered_def)

lemma length_wb_buffered [simp]: "length (wb_buffered wb) = wb_len wb"
  by (simp add: wb_buffered_def wb_len_def)

lemma wb_is_empty_iff: "wb_ok wb \<Longrightarrow> wb_is_empty wb \<longleftrightarrow> wb_buffered wb = []"
  by (auto simp: wb_ok_def wb_is_empty_def wb_buffered_def)

lemma wb_len_0_iff: "wb_ok wb \<Longrightarrow> wb_len wb = 0 \<longleftrightarrow> contents (wb_bytes wb) = []"
  by (auto simp: wb_ok_def wb_len_def)

lemma wb_make_room_pending:
  "wb_buffered (wb_make_room wb n) = wb_buffered wb" "wb_len (wb_make_room wb n) = wb_len wb"
  by (auto simp: wb_make_room_def wb_buffered_def wb_len_def Let_def)

lemma wb_make_room_blocked [frame]: "wb_blocked (wb_make_room wb n) = wb_blocked wb"
  by (simp add: wb_make_room_def Let_def)

lemma wb_make_room_ok: "wb_ok wb \<Longrightarrow> wb_ok (wb_make_room wb n)"
  by (auto simp: wb_make_room_def wb_ok_def vec_ok_def Let_def vec_reserve_def wb_buffered_def)

text \<open>\<open>make_room\<close> really makes the room that is written into it.\<close>

lemma wb_make_room_capacity:
  "wb_ok wb \<Longrightarrow>
     vec_len (wb_bytes (wb_make_room wb n)) + n \<le> capacity (wb_bytes (wb_make_room wb n))"
  by (auto simp: wb_make_room_def wb_ok_def vec_ok_def Let_def vec_reserve_def wb_buffered_def)

lemma wb_push_pending: "wb_ok wb \<Longrightarrow> wb_buffered (wb_push wb rec) = wb_buffered wb @ rec"
proof -
  assume "wb_ok wb"
  then have "wb_ok (wb_make_room wb (length rec))" by (rule wb_make_room_ok)
  then have "wb_pos (wb_make_room wb (length rec)) \<le> vec_len (wb_bytes (wb_make_room wb (length rec)))"
    by (auto simp: wb_ok_def)
  then have "wb_buffered (wb_push wb rec) = wb_buffered (wb_make_room wb (length rec)) @ rec"
    by (simp add: wb_push_def Let_def wb_buffered_def)
  then show ?thesis by (simp add: wb_make_room_pending)
qed

lemma wb_push_ok: "wb_ok wb \<Longrightarrow> wb_ok (wb_push wb rec)"
  using wb_make_room_ok [of wb "length rec"]
  by (auto simp: wb_push_def wb_ok_def Let_def)

lemma wb_push_blocked [frame]: "wb_blocked (wb_push wb rec) = wb_blocked wb"
  by (simp add: wb_push_def Let_def frame)

lemma wb_reserve_ok:
  "wb_ok wb \<Longrightarrow> wb_ok (wb_reserve wb n)" "wb_buffered (wb_reserve wb n) = wb_buffered wb"
  "wb_blocked (wb_reserve wb n) = wb_blocked wb"
  by (simp_all add: wb_reserve_def Let_def wb_make_room_ok wb_make_room_pending frame)

text \<open>
  One turn of the drain loop under the transport's contract: it is done, it stops without progress, or
  it advances by the bytes the transport took.
\<close>

lemma wb_drain_loop_step [consumes 2, case_names Done Stop Again]:
  assumes "wb_pos wb \<le> vec_len (wb_bytes wb)" and "tr_context tr \<noteq> 0"
  obtains "wb_pos wb = vec_len (wb_bytes wb)" and "wb_drain_loop T tr wb = (tr, wb, Ret (Inr ()))"
  | s r e where "wb_pos wb < vec_len (wb_bytes wb)"
      and "a_poll_write T (tr_stream tr) (tr_context tr) (wb_buffered wb) = (s, r)"
      and "r = Ready (Inr 0) \<and> e = io_from WriteZero \<or> r = Ready (Inl e)
           \<or> r = Pending \<and> e = io_from WouldBlock"
      and "wb_drain_loop T tr wb = (tr\<lparr>tr_stream := s\<rparr>, wb, Ret (Inl e))"
  | s n where "wb_pos wb < vec_len (wb_bytes wb)" and "0 < n"
      and "a_poll_write T (tr_stream tr) (tr_context tr) (wb_buffered wb) = (s, Ready (Inr n))"
      and "wb_drain_loop T tr wb =
             wb_drain_loop T (tr\<lparr>tr_stream := s\<rparr>) (wb\<lparr>wb_pos := wb_pos wb + n\<rparr>)"
proof -
  obtain s r where sr: "a_poll_write T (tr_stream tr) (tr_context tr) (wb_buffered wb) = (s, r)"
    by (cases "a_poll_write T (tr_stream tr) (tr_context tr) (wb_buffered wb)")
  show thesis
  proof (cases "wb_pos wb = vec_len (wb_bytes wb)")
    case True
    then show thesis by (intro that(1)) (simp_all add: wb_drain_loop.simps [of T tr wb])
  next
    case False
    with assms(1) have lt: "wb_pos wb < vec_len (wb_bytes wb)" by simp
    show thesis
    proof (cases "\<exists>n. r = Ready (Inr n) \<and> 0 < n")
      case True
      then obtain n where "r = Ready (Inr n)" "0 < n" by blast
      with lt sr assms show thesis
        by (intro that(3) [of n s]) (simp_all add: wb_drain_loop.simps [of T tr wb])
    next
      case False
      define e where "e = (case r of Ready (Inr n) \<Rightarrow> io_from WriteZero | Ready (Inl e) \<Rightarrow> e
                           | Pending \<Rightarrow> io_from WouldBlock)"
      from False lt sr assms show thesis
        by (intro that(2) [of s r e])
          (auto simp: wb_drain_loop.simps [of T tr wb] e_def split: poll.splits sum.splits)
    qed
  qed
qed

text \<open>Draining leaves alone whatever \<open>poll_write\<close> leaves alone.\<close>

lemma wb_drain_loop_frame:
  assumes "\<And>t cx b. f (fst (a_poll_write T t cx b)) = f t"
  shows "f (tr_stream (fst (wb_drain_loop T tr wb))) = f (tr_stream tr)"
proof (induction "vec_len (wb_bytes wb) - wb_pos wb" arbitrary: tr wb rule: less_induct)
  case less
  have s: "f s = f t" if "a_poll_write T t cx b = (s, r)" for s t cx b r
    using assms [of t cx b] that by simp
  show ?case
  proof (cases "tr_context tr \<noteq> 0 \<and> wb_pos wb \<le> vec_len (wb_bytes wb)")
    case True
    then have "wb_pos wb \<le> vec_len (wb_bytes wb)" "tr_context tr \<noteq> 0" by auto
    then show ?thesis
      by (cases rule: wb_drain_loop_step [where T = T]) (use less s in auto)
  next
    case False
    then show ?thesis by (auto simp: wb_drain_loop.simps [of T tr wb])
  qed
qed

lemma wb_drain_frame:
  assumes "\<And>t cx b. f (fst (a_poll_write T t cx b)) = f t"
  shows "f (tr_stream (fst (wb_drain T tr wb))) = f (tr_stream tr)"
  using wb_drain_loop_frame [of f T tr wb, OF assms]
  by (auto simp: wb_drain_def split: prod.splits outcome.splits)

lemma wb_write_last_frame:
  assumes "\<And>t cx b. f (fst (a_poll_write T t cx b)) = f t"
    and "\<And>t cx bs. f (fst (a_poll_write_vectored T t cx bs)) = f t"
  shows "f (tr_stream (fst (wb_write_last T tr wb rec))) = f (tr_stream tr)"
  using assms(1) [of "tr_stream tr" "tr_context tr" rec]
    assms(2) [of "tr_stream tr" "tr_context tr" "[wb_buffered wb, rec]"]
  by (auto simp: wb_write_last_def Let_def split: prod.splits poll.splits sum.splits if_splits)

context async_writer
begin

lemma drain_loop:
  assumes "wb_drain_loop T tr wb = (tr', wb', res)"
    and "tr_context tr \<noteq> 0" and "wb_pos wb \<le> vec_len (wb_bytes wb)"
  shows "\<exists>r. res = Ret r \<and> (r = Inr () \<longleftrightarrow> wb_pos wb' = vec_len (wb_bytes wb')) \<and>
           sent (tr_stream tr') @ wb_buffered wb' = sent (tr_stream tr) @ wb_buffered wb \<and>
           wb_bytes wb' = wb_bytes wb \<and> wb_pos wb' \<le> vec_len (wb_bytes wb) \<and>
           wb_blocked wb' = wb_blocked wb \<and> tr_context tr' = tr_context tr"
  using assms
proof (induction "vec_len (wb_bytes wb) - wb_pos wb" arbitrary: tr wb rule: less_induct)
  case less
  from less.prems(3,2) show ?case
  proof (cases rule: wb_drain_loop_step [where T = T])
    case Done
    with less.prems show ?thesis by simp
  next
    case (Stop s r e)
    have "sent s = sent (tr_stream tr)"
    proof (cases "r = Ready (Inr 0)")
      case True
      with Stop(2) write_Ready [of "tr_stream tr"] show ?thesis by fastforce
    next
      case False
      with Stop(3) write_not_taken [OF Stop(2)] show ?thesis by auto
    qed
    with Stop less.prems show ?thesis by simp
  next
    case (Again s n)
    from write_Ready [OF Again(3)]
    have n: "n \<le> wb_len wb" and s: "sent s = sent (tr_stream tr) @ take n (wb_buffered wb)"
      by simp_all
    let ?wb = "wb\<lparr>wb_pos := wb_pos wb + n\<rparr>"
    have "wb_buffered ?wb = drop n (wb_buffered wb)" by (simp add: wb_buffered_def add.commute)
    with s have "sent s @ wb_buffered ?wb = sent (tr_stream tr) @ wb_buffered wb" by simp
    then show ?thesis
      using less.hyps [of ?wb "tr\<lparr>tr_stream := s\<rparr>"] Again n less.prems
      by (auto simp: wb_len_def)
  qed
qed

text \<open>\<open>drain\<close> succeeds exactly when nothing is left, and moves a prefix of the queue to the wire.\<close>

lemma drain:
  assumes "wb_drain T tr wb = (tr', wb', res)" and "tr_context tr \<noteq> 0" and "wb_ok wb"
  shows "\<exists>r. res = Ret r \<and> (r = Inr () \<longleftrightarrow> wb_buffered wb' = []) \<and> wb_ok wb' \<and>
           sent (tr_stream tr') @ wb_buffered wb' = sent (tr_stream tr) @ wb_buffered wb \<and>
           wb_blocked wb' = wb_blocked wb \<and> tr_context tr' = tr_context tr"
proof -
  obtain tr1 wb1 res1 where l: "wb_drain_loop T tr wb = (tr1, wb1, res1)"
    by (cases "wb_drain_loop T tr wb")
  have "wb_pos wb \<le> vec_len (wb_bytes wb)" using assms(3) by (auto simp: wb_ok_def)
  from drain_loop [OF l assms(2) this] assms(1,3) l show ?thesis
    by (auto simp: wb_drain_def wb_ok_def wb_buffered_def)
qed

lemma retry:
  assumes "wb_retry T tr wb = (tr', wb', res)" and "tr_context tr \<noteq> 0" and "wb_ok wb"
  shows "\<exists>r. res = Ret r \<and> wb_ok wb' \<and>
           sent (tr_stream tr') @ wb_buffered wb' = sent (tr_stream tr) @ wb_buffered wb \<and>
           tr_context tr' = tr_context tr \<and>
           (r = Inr () \<longrightarrow> wb_blocked wb' = (wb_buffered wb' \<noteq> []) \<and>
                           (wb_buffered wb' = [] \<or> wb_len wb' < WRITE_BUF_CAPACITY))"
proof (cases "wb_is_empty wb")
  case True
  with assms show ?thesis
    by (auto simp: wb_retry_def wb_is_empty_iff wb_ok_def wb_buffered_def)
next
  case False
  obtain tr1 wb1 res1 where d: "wb_drain T tr wb = (tr1, wb1, res1)" by (cases "wb_drain T tr wb")
  from drain [OF d assms(2,3)] obtain r where r: "res1 = Ret r" "r = Inr () \<longleftrightarrow> wb_buffered wb1 = []"
    "wb_ok wb1" "sent (tr_stream tr1) @ wb_buffered wb1 = sent (tr_stream tr) @ wb_buffered wb"
    "tr_context tr1 = tr_context tr" by blast
  have ok: "wb_ok (wb1\<lparr>wb_blocked := b\<rparr>)" "wb_buffered (wb1\<lparr>wb_blocked := b\<rparr>) = wb_buffered wb1"
    "wb_len (wb1\<lparr>wb_blocked := b\<rparr>) = wb_len wb1" for b
    using r(3) by (simp_all add: wb_ok_def wb_buffered_def wb_len_def)
  from assms(1) False d r ok show ?thesis
    by (auto simp: wb_retry_def wb_is_empty_iff wb_is_full_def split: sum.splits if_splits)
qed

lemma drain_unless_blocked:
  assumes "wb_drain_unless_blocked T tr wb = (tr', wb', res)" and "tr_context tr \<noteq> 0" and "wb_ok wb"
  shows "res = Ret () \<and> wb_ok wb' \<and>
           sent (tr_stream tr') @ wb_buffered wb' = sent (tr_stream tr) @ wb_buffered wb \<and>
           tr_context tr' = tr_context tr \<and> (wb_blocked wb \<longrightarrow> tr' = tr \<and> wb' = wb)"
proof (cases "wb_blocked wb")
  case True
  with assms show ?thesis by (simp add: wb_drain_unless_blocked_def)
next
  case False
  obtain tr1 wb1 res1 where d: "wb_drain T tr wb = (tr1, wb1, res1)" by (cases "wb_drain T tr wb")
  from drain [OF d assms(2,3)] assms(1) False d show ?thesis
    by (auto simp: wb_drain_unless_blocked_def)
qed

text \<open>\<open>write_last\<close> queues its record behind what is buffered, whatever the transport does.\<close>

lemma write_last:
  assumes "wb_write_last T tr wb rec = (tr', wb', res)" and "tr_context tr \<noteq> 0" and "wb_ok wb"
  shows "res = Ret () \<and> wb_ok wb' \<and>
           sent (tr_stream tr') @ wb_buffered wb' = sent (tr_stream tr) @ wb_buffered wb @ rec \<and>
           tr_context tr' = tr_context tr"
proof -
  define poll where "poll =
    (if wb_len wb = 0 then a_poll_write T (tr_stream tr) (tr_context tr) rec
     else if a_is_write_vectored T (tr_stream tr)
     then a_poll_write_vectored T (tr_stream tr) (tr_context tr) [wb_buffered wb, rec]
     else (tr_stream tr, Ready (Inr 0)))"
  obtain s r where sr: "poll = (s, r)" by (cases poll)
  define n where "n = (case r of Ready (Inr n) \<Rightarrow> n | _ \<Rightarrow> 0)"
  define wb1 where "wb1 = (case r of Ready (Inr n) \<Rightarrow> wb | _ \<Rightarrow> wb\<lparr>wb_blocked := True\<rparr>)"
  have wb1: "wb_ok wb1" "wb_buffered wb1 = wb_buffered wb" "wb_pos wb1 = wb_pos wb"
      "wb_bytes wb1 = wb_bytes wb"
    using assms(3) by (auto simp: wb1_def wb_ok_def wb_buffered_def split: poll.split sum.split)
  have nr: "(case r of Ready (Inr n) \<Rightarrow> (wb, n) | _ \<Rightarrow> (wb\<lparr>wb_blocked := True\<rparr>, 0)) = (wb1, n)"
    by (simp add: n_def wb1_def split: poll.split sum.split)
  have take: "n \<le> wb_len wb + length rec" "sent s = sent (tr_stream tr) @ take n (wb_buffered wb @ rec)"
  proof -
    have "write_effect sent (tr_stream tr) (wb_buffered wb @ rec) poll"
    proof (cases "wb_len wb = 0")
      case True
      then have "wb_buffered wb = []" by (simp flip: length_wb_buffered)
      with True show ?thesis by (simp add: poll_def write_law)
    next
      case False
      then show ?thesis
        using vectored_law [of "tr_stream tr" "[wb_buffered wb, rec]" "tr_context tr"]
        by (auto simp: poll_def write_effect_def)
    qed
    then show "n \<le> wb_len wb + length rec"
        "sent s = sent (tr_stream tr) @ take n (wb_buffered wb @ rec)"
      by (auto simp: sr n_def write_effect_def split: poll.splits sum.splits)
  qed
  have unfold: "wb_write_last T tr wb rec =
    (if n < wb_len wb
     then (tr\<lparr>tr_stream := s\<rparr>, wb_push (wb1\<lparr>wb_pos := wb_pos wb1 + n\<rparr>) rec, Ret ())
     else let wb2 = wb1\<lparr>wb_bytes := vec_clear (wb_bytes wb1), wb_pos := 0\<rparr>
          in if length rec < n - wb_len wb
             then (tr\<lparr>tr_stream := s\<rparr>, wb2, Panic ''range start index out of range'')
             else (tr\<lparr>tr_stream := s\<rparr>,
                   wb2\<lparr>wb_bytes := vec_extend (wb_bytes wb2) (drop (n - wb_len wb) rec)\<rparr>, Ret ()))"
    using assms(2) by (simp add: wb_write_last_def Let_def poll_def [symmetric] sr nr)
  show ?thesis
  proof (cases "n < wb_len wb")
    case True
    let ?wb = "wb1\<lparr>wb_pos := wb_pos wb1 + n\<rparr>"
    have "wb_ok ?wb" "wb_buffered ?wb = drop n (wb_buffered wb)"
      using True wb1 by (auto simp: wb_ok_def wb_len_def wb_buffered_def add.commute)
    with True take assms(1) show ?thesis
      by (auto simp: unfold wb_push_ok wb_push_pending)
  next
    case False
    with take have le: "\<not> length rec < n - wb_len wb" by arith
    have "sent s @ drop (n - wb_len wb) rec = sent (tr_stream tr) @ wb_buffered wb @ rec"
      using take(2) False by simp
    moreover have "tr' = tr\<lparr>tr_stream := s\<rparr>" "res = Ret ()"
      "wb_bytes wb' = vec_extend (vec_clear (wb_bytes wb)) (drop (n - wb_len wb) rec)" "wb_pos wb' = 0"
      using assms(1) False le wb1 by (auto simp: unfold Let_def)
    ultimately show ?thesis by (auto simp: wb_ok_def wb_buffered_def)
  qed
qed

end

section \<open>The queue of received ciphertext\<close>

definition rb_unread :: "read_buffer \<Rightarrow> byte list" where
  "rb_unread rb = drop (rb_pos rb) (contents (rb_bytes rb))"

definition rb_ok :: "read_buffer \<Rightarrow> bool" where
  "rb_ok rb \<longleftrightarrow>
     rb_pos rb < vec_len (rb_bytes rb) \<or> rb_pos rb = 0 \<and> rb_bytes rb = vec_new"

lemma rb_ok_default [simp]: "rb_ok rb_default" "rb_unread rb_default = []"
  by (simp_all add: rb_ok_def rb_default_def rb_unread_def)

lemma rb_is_empty_iff: "rb_ok rb \<Longrightarrow> rb_is_empty rb \<longleftrightarrow> rb_unread rb = []"
  by (auto simp: rb_ok_def rb_is_empty_def rb_unread_def)

lemma rb_take:
  assumes "rb_pos rb \<le> vec_len (rb_bytes rb)"
  obtains rb' d where "rb_take rb len = (rb', Ret (Inr d))" and "rb_ok rb'"
    and "length d \<le> len" and "rb_unread rb = d @ rb_unread rb'"
proof -
  let ?n = "min (length (rb_unread rb)) len"
  define rb' where "rb' = (if rb_pos rb + ?n = vec_len (rb_bytes rb)
     then rb\<lparr>rb_bytes := vec_new, rb_pos := 0\<rparr> else rb\<lparr>rb_pos := rb_pos rb + ?n\<rparr>)"
  note eq = rb'_def
  have rb': "rb_take rb len = (rb', Ret (Inr (take ?n (rb_unread rb))))"
    using assms by (simp add: rb_take_def Let_def rb_unread_def rb'_def)
  have "rb_unread rb' = drop ?n (rb_unread rb)"
    using assms by (auto simp: eq rb_unread_def add.commute min_def split: if_splits)
  moreover have "rb_ok rb'"
    using assms by (auto simp: eq rb_unread_def rb_ok_def)
  ultimately show thesis
    by (intro that [OF rb']) simp_all
qed

text \<open>Reading leaves alone whatever \<open>poll_read\<close> leaves alone.\<close>

lemma rb_read_frame:
  assumes "\<And>t cx cap. f (fst (a_poll_read T t cx cap)) = f t"
  shows "f (tr_stream (fst (snd (rb_read T rb tr len)))) = f (tr_stream tr)"
  using assms [of "tr_stream tr" "tr_context tr"
      "capacity (vec_reserve (rb_bytes rb) READ_BUF_CAPACITY) -
       vec_len (vec_reserve (rb_bytes rb) READ_BUF_CAPACITY)"]
  by (auto simp: rb_read_def rb_fill_def Let_def
      split: prod.splits poll.splits sum.splits if_splits outcome.splits)

context async_reader
begin

text \<open>What the transport hands out reaches the reader in order: read, or still unread.\<close>

lemma read_buffer:
  assumes "rb_read T rb tr len = (rb', tr', res)" and "tr_context tr \<noteq> 0" and "rb_ok rb"
  shows "\<exists>r fresh. res = Ret r \<and> rb_ok rb' \<and> tr_context tr' = tr_context tr \<and>
           got (tr_stream tr') = got (tr_stream tr) @ fresh \<and>
           (case r of
              Inr d \<Rightarrow> length d \<le> len \<and> rb_unread rb @ fresh = d @ rb_unread rb'
            | Inl e \<Rightarrow> rb_unread rb @ fresh = rb_unread rb')"
proof (cases "rb_is_empty rb")
  case False
  have "rb_pos rb \<le> vec_len (rb_bytes rb)" using assms(3) by (auto simp: rb_ok_def)
  then obtain rb1 d where "rb_take rb len = (rb1, Ret (Inr d))" "rb_ok rb1" "length d \<le> len"
    "rb_unread rb = d @ rb_unread rb1" by (rule rb_take)
  with False assms(1) show ?thesis by (auto simp: rb_read_def)
next
  case True
  let ?bytes = "vec_reserve (rb_bytes rb) READ_BUF_CAPACITY"
  let ?taken = "rb\<lparr>rb_bytes := vec_new, rb_pos := 0\<rparr>"
  obtain s r where sr:
    "a_poll_read T (tr_stream tr) (tr_context tr) (capacity ?bytes - vec_len ?bytes) = (s, r)"
    by (cases "a_poll_read T (tr_stream tr) (tr_context tr) (capacity ?bytes - vec_len ?bytes)")
  show ?thesis
  proof (cases "\<exists>d. r = Ready (Inr d)")
    case False
    then have "got s = got (tr_stream tr)" using read_not_taken [OF sr] by blast
    with False True assms(1,2) sr show ?thesis
      by (cases r) (auto simp: rb_read_def rb_fill_def Let_def rb_ok_def rb_unread_def rb_is_empty_def
          split: sum.splits)
  next
    case data: True
    then obtain d0 where d0: "r = Ready (Inr d0)" by blast
    with read_Ready [OF sr [unfolded d0]] have g: "got s = got (tr_stream tr) @ d0" by simp
    let ?rb1 = "?taken\<lparr>rb_bytes := ?bytes\<lparr>contents := d0\<rparr>\<rparr>"
    have "rb_pos ?rb1 \<le> vec_len (rb_bytes ?rb1)" by simp
    then obtain rb1 d where t: "rb_take ?rb1 len = (rb1, Ret (Inr d))" "rb_ok rb1" "length d \<le> len"
      "rb_unread ?rb1 = d @ rb_unread rb1" by (rule rb_take)
    have "rb_unread rb = []" using True assms(3) by (simp add: rb_is_empty_iff)
    moreover have "rb_unread ?rb1 = d0" by (simp add: rb_unread_def)
    ultimately show ?thesis
      using t g True assms(1,2) sr d0 by (auto simp: rb_read_def rb_fill_def Let_def)
  qed
qed

end

end
