(* ===== verification/Packer.thy ===== *)
theory Packer
  imports Buffers
begin

text \<open>
  \<open>Packer\<close> of \<open>tokio-btls/src/lib.rs\<close>: cuts the slices of one vectored write into the plaintext of
  successive records. An operation that would index out of bounds, and so panic, is \<open>None\<close>; the
  lemmas show that none does.
\<close>

section \<open>State and operations\<close>

record packer =
  pk_bufs :: "byte list list"
  pk_i :: nat
  pk_off :: nat
  pk_limit :: nat
  pk_scratch :: "byte list"

definition packer_new :: "byte list list \<Rightarrow> packer" where
  "packer_new bufs =
     \<lparr>pk_bufs = bufs, pk_i = 0, pk_off = 0, pk_limit = MAX_RECORD, pk_scratch = []\<rparr>"

text \<open>
  The first loop of \<open>next_record\<close>: skips empty slices; the head is the rest of the current slice,
  or \<open>None\<close> when every slice is used up.
\<close>

function packer_head :: "packer \<Rightarrow> (packer \<times> byte list option) option" where
  "packer_head p =
     (if length (pk_bufs p) \<le> pk_i p then Some (p, None)
      else let slice = pk_bufs p ! pk_i p
           in if length slice < pk_off p then None
              else let head = drop (pk_off p) slice
                   in if head \<noteq> [] then Some (p, Some head)
                      else packer_head (p\<lparr>pk_i := pk_i p + 1, pk_off := 0\<rparr>))"
  by pat_completeness auto
termination
  by (relation "measure (\<lambda>p. length (pk_bufs p) - pk_i p)") auto

declare packer_head.simps [simp del]

text \<open>The loop of \<open>pack\<close>: groups whole slices from \<open>stop\<close> on, and may split the first that does not fit.\<close>

function pack_loop :: "byte list list \<Rightarrow> nat \<Rightarrow> nat \<Rightarrow> nat \<Rightarrow> nat \<Rightarrow> nat \<times> nat \<times> nat" where
  "pack_loop bufs limit head_len len stop =
     (if stop < length bufs \<and> len < limit
      then let next_len = length (bufs ! stop)
           in if len + next_len \<le> limit
              then pack_loop bufs limit head_len (len + next_len) (stop + 1)
              else if next_len \<le> limit div 2 \<and>
                      (head_len < len \<or> (\<exists>b \<in> set (drop (stop + 1) bufs). b \<noteq> []))
              then (limit, stop, limit - len)
              else (len, stop, 0)
      else (len, stop, 0))"
  by pat_completeness auto
termination
  by (relation "measure (\<lambda>(bufs, limit, head_len, len, stop). length bufs - stop)") auto

declare pack_loop.simps [simp del]

definition packer_pack :: "packer \<Rightarrow> (nat \<times> nat \<times> nat) option" where
  "packer_pack p =
     (if length (pk_bufs p) \<le> pk_i p \<or> length (pk_bufs p ! pk_i p) < pk_off p then None
      else let head_len = min (length (pk_bufs p ! pk_i p) - pk_off p) (pk_limit p)
           in Some (pack_loop (pk_bufs p) (pk_limit p) head_len head_len (pk_i p + 1)))"

text \<open>\<open>gather\<close>: the record is copied into \<open>scratch\<close>, which replaces what was there.\<close>

definition packer_gather ::
    "packer \<Rightarrow> byte list \<Rightarrow> nat \<Rightarrow> nat \<Rightarrow> (packer \<times> byte list) option" where
  "packer_gather p head stop tail =
     (if stop < pk_i p + 1 \<or> length (pk_bufs p) < stop \<or>
         0 < tail \<and> (length (pk_bufs p) \<le> stop \<or> length (pk_bufs p ! stop) < tail) then None
      else let scratch = head @ concat (take (stop - (pk_i p + 1)) (drop (pk_i p + 1) (pk_bufs p))) @
                         (if 0 < tail then take tail (pk_bufs p ! stop) else [])
           in Some (p\<lparr>pk_scratch := scratch\<rparr>, scratch))"

text \<open>\<open>next_record\<close>: the plaintext of the next record, in place when it lies within the head.\<close>

definition packer_next_record :: "packer \<Rightarrow> (packer \<times> byte list option) option" where
  "packer_next_record p =
     (case packer_head p of
        None \<Rightarrow> None
      | Some (p1, None) \<Rightarrow> Some (p1, None)
      | Some (p1, Some head) \<Rightarrow>
          (case packer_pack p1 of
             None \<Rightarrow> None
           | Some (len, stop, tail) \<Rightarrow>
               if len = min (length head) (pk_limit p1) then Some (p1, Some (take len head))
               else (case packer_gather p1 head stop tail of
                       None \<Rightarrow> None
                     | Some (p2, rec) \<Rightarrow> Some (p2, Some rec))))"

text \<open>\<open>advance\<close>: moves past \<open>n\<close> sealed bytes.\<close>

function packer_advance :: "packer \<Rightarrow> nat \<Rightarrow> packer option" where
  "packer_advance p n =
     (if n = 0 then Some p
      else if length (pk_bufs p) \<le> pk_i p \<or> length (pk_bufs p ! pk_i p) < pk_off p then None
      else let left = length (pk_bufs p ! pk_i p) - pk_off p
           in if n < left then Some (p\<lparr>pk_off := pk_off p + n\<rparr>)
              else packer_advance (p\<lparr>pk_i := pk_i p + 1, pk_off := 0\<rparr>) (n - left))"
  by pat_completeness auto
termination
  by (relation "measure (\<lambda>(p, n). length (pk_bufs p) - pk_i p)") auto

declare packer_advance.simps [simp del]

text \<open>
  The whole run of a write in which every record is sealed in full, as in the unit test
  \<open>packing_preserves_in_place_heads_and_fills_longer_inputs\<close>.
\<close>

partial_function (option) pack_all :: "packer \<Rightarrow> byte list list comp" where
  "pack_all p =
     bindc (indexed (packer_next_record p))
       (\<lambda>(p1, rec). case rec of
          None \<Rightarrow> ret []
        | Some r \<Rightarrow>
            bindc (indexed (packer_advance p1 (length r)))
              (\<lambda>p2. bindc (pack_all p2) (\<lambda>rs. ret (r # rs))))"

section \<open>What is left to seal\<close>

definition packer_rest :: "packer \<Rightarrow> byte list" where
  "packer_rest p =
     (if pk_i p < length (pk_bufs p)
      then drop (pk_off p) (pk_bufs p ! pk_i p) @ concat (drop (Suc (pk_i p)) (pk_bufs p)) else [])"

definition packer_ok :: "packer \<Rightarrow> bool" where
  "packer_ok p \<longleftrightarrow>
     0 < pk_limit p \<and> (pk_i p < length (pk_bufs p) \<longrightarrow> pk_off p \<le> length (pk_bufs p ! pk_i p)) \<and>
     (length (pk_bufs p) \<le> pk_i p \<longrightarrow> pk_off p = 0)"

lemma packer_new_ok [simp]: "packer_ok (packer_new bufs)" "packer_rest (packer_new bufs) = concat bufs"
  by (cases bufs; auto simp: packer_new_def packer_ok_def packer_rest_def MAX_RECORD_def)+

lemma packer_rest_next_slice:
  "pk_i p < length (pk_bufs p) \<Longrightarrow> pk_off p = length (pk_bufs p ! pk_i p) \<Longrightarrow>
     packer_rest (p\<lparr>pk_i := pk_i p + 1, pk_off := 0\<rparr>) = packer_rest p"
  by (auto simp: packer_rest_def Cons_nth_drop_Suc [symmetric])

lemma concat_drop_Suc:
  "i < length xs \<Longrightarrow> concat (drop i xs) = xs ! i @ concat (drop (Suc i) xs)"
  by (simp flip: Cons_nth_drop_Suc)

lemma packer_head_ok:
  "packer_ok p \<Longrightarrow>
     \<exists>p' h. packer_head p = Some (p', h) \<and> packer_ok p' \<and> packer_rest p' = packer_rest p \<and>
       pk_bufs p' = pk_bufs p \<and> pk_limit p' = pk_limit p \<and> pk_scratch p' = pk_scratch p \<and>
       (case h of
          None \<Rightarrow> packer_rest p = []
        | Some head \<Rightarrow> pk_i p' < length (pk_bufs p) \<and>
            head = drop (pk_off p') (pk_bufs p ! pk_i p') \<and> head \<noteq> [])"
proof (induction p rule: packer_head.induct)
  case (1 p)
  show ?case
  proof (cases "pk_i p < length (pk_bufs p)")
    case False
    with "1.prems" show ?thesis by (simp add: packer_head.simps [of p] packer_rest_def)
  next
    case in_range: True
    with "1.prems" have off: "pk_off p \<le> length (pk_bufs p ! pk_i p)" by (simp add: packer_ok_def)
    show ?thesis
    proof (cases "drop (pk_off p) (pk_bufs p ! pk_i p) = []")
      case False
      with in_range off "1.prems" show ?thesis
        by (simp add: packer_head.simps [of p] Let_def)
    next
      case True
      let ?q = "p\<lparr>pk_i := pk_i p + 1, pk_off := 0\<rparr>"
      from True off have "pk_off p = length (pk_bufs p ! pk_i p)" by simp
      with in_range have rest: "packer_rest ?q = packer_rest p" by (rule packer_rest_next_slice)
      have step: "packer_head p = packer_head ?q"
        using in_range off True by (simp add: packer_head.simps [of p] Let_def)
      have "packer_ok ?q" using "1.prems" by (simp add: packer_ok_def)
      with "1.IH" [OF _ refl _ refl] in_range off True rest step show ?thesis
        by (simp cong: option.case_cong)
    qed
  qed
qed

text \<open>What \<open>pack_loop\<close> chooses: a prefix of the slices behind the head that fits the limit.\<close>

lemma pack_loop_ok:
  assumes "pack_loop bufs limit head_len len stop = (len', stop', tail)"
    and "len \<le> limit" and "stop \<le> length bufs"
  shows "stop \<le> stop' \<and> stop' \<le> length bufs \<and> len' \<le> limit \<and>
         len' = len + length (concat (take (stop' - stop) (drop stop bufs))) + tail \<and>
         (0 < tail \<longrightarrow> stop' < length bufs \<and> tail \<le> length (bufs ! stop'))"
  using assms
proof (induction bufs limit head_len len stop rule: pack_loop.induct)
  case (1 bufs limit head_len len stop)
  let ?next = "length (bufs ! stop)"
  consider (finish) "\<not> (stop < length bufs \<and> len < limit)"
    | (whole) "stop < length bufs" "len < limit" "len + ?next \<le> limit"
    | (split) "stop < length bufs" "len < limit" "limit < len + ?next"
    by linarith
  then show ?case
  proof cases
    case whole
    then have "pack_loop bufs limit head_len (len + ?next) (stop + 1) = (len', stop', tail)"
      using "1.prems"(1) by (simp add: pack_loop.simps [of bufs limit head_len len stop] Let_def)
    from "1.IH" [OF _ refl _ this] whole
    have IH: "stop + 1 \<le> stop'" "stop' \<le> length bufs" "len' \<le> limit"
      "len' = len + ?next + length (concat (take (stop' - (stop + 1)) (drop (stop + 1) bufs))) + tail"
      "0 < tail \<longrightarrow> stop' < length bufs \<and> tail \<le> length (bufs ! stop')"
      by auto
    have "take (stop' - stop) (drop stop bufs) =
        bufs ! stop # take (stop' - (stop + 1)) (drop (stop + 1) bufs)"
      using IH(1) whole(1) by (simp add: Cons_nth_drop_Suc [symmetric] take_Cons' )
    with IH show ?thesis by simp
  qed (use "1.prems" in \<open>auto simp: pack_loop.simps [of bufs limit head_len len stop] Let_def
         split: if_splits\<close>)
qed

text \<open>
  \<open>next_record\<close> never panics. It returns no record exactly when nothing is left; otherwise a
  nonempty prefix of what is left, of at most \<open>limit\<close> bytes, and moves nothing itself.
\<close>

lemma packer_next_record_ok:
  assumes "packer_ok p"
  shows "\<exists>p' rec. packer_next_record p = Some (p', rec) \<and> packer_ok p' \<and>
           packer_rest p' = packer_rest p \<and> pk_bufs p' = pk_bufs p \<and> pk_limit p' = pk_limit p \<and>
           (case rec of
              None \<Rightarrow> packer_rest p = []
            | Some r \<Rightarrow> r \<noteq> [] \<and> length r \<le> pk_limit p \<and> r = take (length r) (packer_rest p))"
proof -
  from packer_head_ok [OF assms] obtain p1 h where h: "packer_head p = Some (p1, h)" "packer_ok p1"
    "packer_rest p1 = packer_rest p" "pk_bufs p1 = pk_bufs p" "pk_limit p1 = pk_limit p"
    and head: "case h of None \<Rightarrow> packer_rest p = []
        | Some head \<Rightarrow> pk_i p1 < length (pk_bufs p) \<and>
            head = drop (pk_off p1) (pk_bufs p ! pk_i p1) \<and> head \<noteq> []"
    by blast
  show ?thesis
  proof (cases h)
    case None
    with h head show ?thesis by (simp add: packer_next_record_def)
  next
    case (Some hd)
    with head have i: "pk_i p1 < length (pk_bufs p)" and hd: "hd = drop (pk_off p1) (pk_bufs p ! pk_i p1)"
      and ne: "hd \<noteq> []" by auto
    have rest: "packer_rest p = hd @ concat (drop (Suc (pk_i p1)) (pk_bufs p))"
      using h(3,4) i hd by (simp add: packer_rest_def)
    have pos: "0 < pk_limit p" using assms by (simp add: packer_ok_def)
    let ?head_len = "min (length hd) (pk_limit p)"
    obtain len stop tail where l:
      "pack_loop (pk_bufs p) (pk_limit p) ?head_len ?head_len (pk_i p1 + 1) = (len, stop, tail)"
      by (metis prod_cases3)
    from pack_loop_ok [OF l] i
    have ok: "pk_i p1 + 1 \<le> stop" "stop \<le> length (pk_bufs p)" "len \<le> pk_limit p"
      "len = ?head_len +
         length (concat (take (stop - (pk_i p1 + 1)) (drop (pk_i p1 + 1) (pk_bufs p)))) + tail"
      "0 < tail \<longrightarrow> stop < length (pk_bufs p) \<and> tail \<le> length (pk_bufs p ! stop)"
      by auto
    have pk: "packer_pack p1 = Some (len, stop, tail)"
      using h(4,5) i hd ne l by (auto simp: packer_pack_def Let_def)
    show ?thesis
    proof (cases "len = ?head_len")
      case True
      with h Some pk ne pos show ?thesis
        by (auto simp: packer_next_record_def rest)
    next
      case False
      define mid where "mid = take (stop - (pk_i p1 + 1)) (drop (pk_i p1 + 1) (pk_bufs p))"
      define tl where "tl = (if 0 < tail then take tail (pk_bufs p ! stop) else [])"
      define x where
        "x = length (concat (take (stop - (pk_i p1 + 1)) (drop (pk_i p1 + 1) (pk_bufs p))))"
      have "len = ?head_len + x + tail" "len \<le> pk_limit p" "len \<noteq> ?head_len"
        using False ok(3,4) unfolding x_def by blast+
      then have "length hd \<le> pk_limit p" by linarith
      moreover have "length tl = tail" using ok(5) by (auto simp: tl_def)
      ultimately have len: "len = length (hd @ concat mid @ tl)"
        using ok(4) by (simp add: mid_def)
      have g: "packer_gather p1 hd stop tail =
          Some (p1\<lparr>pk_scratch := hd @ concat mid @ tl\<rparr>, hd @ concat mid @ tl)"
        using ok h(4) by (auto simp: packer_gather_def mid_def tl_def Let_def)
      have "drop (Suc (pk_i p1)) (pk_bufs p) = mid @ drop stop (pk_bufs p)"
        using ok(1) by (simp add: mid_def append_take_drop_id [symmetric] del: append_take_drop_id)
          (metis add_diff_inverse_nat append_take_drop_id drop_drop not_less_eq_eq
            linorder_not_less add.commute Suc_eq_plus1)
      moreover have "concat (drop stop (pk_bufs p)) = tl @ drop (length tl) (concat (drop stop (pk_bufs p)))"
        using ok(5) by (auto simp: tl_def concat_drop_Suc)
      ultimately have "packer_rest p = (hd @ concat mid @ tl) @ drop (length tl) (concat (drop stop (pk_bufs p)))"
        by (simp add: rest)
      then have pre: "hd @ concat mid @ tl = take (length (hd @ concat mid @ tl)) (packer_rest p)"
        by (metis append_eq_conv_conj)
      have ok': "packer_ok (p1\<lparr>pk_scratch := r\<rparr>)" "packer_rest (p1\<lparr>pk_scratch := r\<rparr>) = packer_rest p1" for r
        using h(2) by (simp_all add: packer_ok_def packer_rest_def)
      define rec where "rec = hd @ concat mid @ tl"
      have "packer_next_record p = Some (p1\<lparr>pk_scratch := rec\<rparr>, Some rec)"
        using h Some pk False g by (simp add: packer_next_record_def rec_def)
      moreover have "rec \<noteq> []" using ne by (simp add: rec_def)
      moreover have "length rec \<le> pk_limit p" using ok(3) len by (simp add: rec_def)
      moreover have "rec = take (length rec) (packer_rest p)" using pre by (simp only: rec_def)
      ultimately show ?thesis using h ok' by simp
    qed
  qed
qed

text \<open>\<open>advance\<close> never panics within what is left, and drops exactly \<open>n\<close> bytes of it.\<close>

lemma packer_advance_ok:
  "packer_ok p \<Longrightarrow> n \<le> length (packer_rest p) \<Longrightarrow>
     \<exists>p'. packer_advance p n = Some p' \<and> packer_ok p' \<and> packer_rest p' = drop n (packer_rest p) \<and>
          pk_bufs p' = pk_bufs p \<and> pk_limit p' = pk_limit p"
proof (induction p n rule: packer_advance.induct)
  case (1 p n)
  show ?case
  proof (cases "n = 0")
    case True
    with "1.prems" show ?thesis by (simp add: packer_advance.simps [of p 0])
  next
    case False
    with "1.prems" have i: "pk_i p < length (pk_bufs p)"
      by (auto simp: packer_rest_def split: if_splits)
    with "1.prems" have off: "pk_off p \<le> length (pk_bufs p ! pk_i p)" by (simp add: packer_ok_def)
    let ?left = "length (pk_bufs p ! pk_i p) - pk_off p"
    have rest: "packer_rest p = drop (pk_off p) (pk_bufs p ! pk_i p) @ concat (drop (Suc (pk_i p)) (pk_bufs p))"
      using i by (simp add: packer_rest_def)
    show ?thesis
    proof (cases "n < ?left")
      case True
      with False i off "1.prems" show ?thesis
        by (simp add: packer_advance.simps [of p n] packer_rest_def packer_ok_def add.commute)
    next
      case adv: False
      let ?q = "p\<lparr>pk_i := pk_i p + 1, pk_off := 0\<rparr>"
      have q: "packer_ok ?q" using "1.prems"(1) by (simp add: packer_ok_def)
      have qr: "packer_rest ?q = drop ?left (packer_rest p)"
        using i by (auto simp: packer_rest_def concat_drop_Suc)
      have "n - ?left \<le> length (packer_rest ?q)" unfolding qr using "1.prems"(2) by simp
      with "1.IH" [OF False _ refl _ q] i off adv
      obtain p' where p': "packer_advance ?q (n - ?left) = Some p'" "packer_ok p'"
        "packer_rest p' = drop (n - ?left) (packer_rest ?q)" "pk_bufs p' = pk_bufs p"
        "pk_limit p' = pk_limit p" by auto
      moreover have "packer_advance p n = packer_advance ?q (n - ?left)"
        using False i off adv by (simp add: packer_advance.simps [of p n] Let_def)
      moreover have "packer_rest p' = drop n (packer_rest p)"
        using p'(3) adv unfolding qr by simp
      ultimately show ?thesis by auto
    qed
  qed
qed
lemma take_prefix_length: "r = take (length r) xs \<Longrightarrow> length r \<le> length xs"
  by (metis length_take min.bounded_iff order_refl)

lemma pack_all_ok:
  "packer_ok p \<Longrightarrow>
     \<exists>rs. pack_all p = ret rs \<and> concat rs = packer_rest p \<and>
          (\<forall>r \<in> set rs. r \<noteq> [] \<and> length r \<le> pk_limit p)"
proof (induction "length (packer_rest p)" arbitrary: p rule: less_induct)
  case less
  from packer_next_record_ok [OF less.prems] obtain p1 rec where
    n: "packer_next_record p = Some (p1, rec)" "packer_ok p1" "packer_rest p1 = packer_rest p"
      "pk_limit p1 = pk_limit p"
    and rec: "case rec of None \<Rightarrow> packer_rest p = []
        | Some r \<Rightarrow> r \<noteq> [] \<and> length r \<le> pk_limit p \<and> r = take (length r) (packer_rest p)"
    by blast
  show ?case
  proof (cases rec)
    case None
    with n rec show ?thesis by (simp add: pack_all.simps [of p])
  next
    case (Some r)
    with rec have r: "r \<noteq> []" "length r \<le> pk_limit p" "r = take (length r) (packer_rest p)" by auto
    from take_prefix_length [OF r(3)] packer_advance_ok [OF n(2), of "length r"] n
    obtain p2 where p2: "packer_advance p1 (length r) = Some p2" "packer_ok p2"
      "packer_rest p2 = drop (length r) (packer_rest p)" "pk_limit p2 = pk_limit p" by auto
    have "length (packer_rest p2) < length (packer_rest p)"
      using r(1) take_prefix_length [OF r(3)] by (cases r) (auto simp: p2(3))
    from less.hyps [OF this p2(2)] obtain rs where rs: "pack_all p2 = ret rs"
      "concat rs = packer_rest p2" "\<forall>r \<in> set rs. r \<noteq> [] \<and> length r \<le> pk_limit p"
      unfolding p2(4) by blast
    have "concat (r # rs) = packer_rest p"
      using r(3) rs(2) p2(3) by (metis append_take_drop_id concat.simps(2))
    moreover have "pack_all p = ret (r # rs)"
      using n Some p2(1) rs(1) by (simp add: pack_all.simps [of p])
    ultimately show ?thesis using r rs(3) by auto
  qed
qed

section \<open>Properties\<close>

text \<open>
  C6: Packing the slices of a vectored write, each record sealed in full, always returns and never
  indexes out of bounds. The records, joined, are exactly the slices joined; none is empty and none
  is longer than \<open>MAX_RECORD\<close>.
\<close>

theorem packing_preserves_input:
  "\<exists>rs. pack_all (packer_new bufs) = ret rs \<and> concat rs = concat bufs \<and>
        list_all (\<lambda>r. r \<noteq> [] \<and> length r \<le> MAX_RECORD) rs"
  using pack_all_ok [OF packer_new_ok(1), of bufs] unfolding packer_new_ok(2)
  by (simp add: list_all_iff) (simp add: packer_new_def)

text \<open>
  Whatever part of its record each seal takes, \<open>next_record\<close> and \<open>advance\<close> stay in bounds: the next
  record is a nonempty prefix, of at most \<open>limit\<close> bytes, of what is left (none when nothing is), and
  advancing by \<open>n\<close> sealed bytes of it leaves what follows them.
\<close>

lemma next_record_then_advance:
  assumes "packer_ok p"
  shows "\<exists>p1 rec. packer_next_record p = Some (p1, rec) \<and>
           (case rec of
              None \<Rightarrow> packer_rest p = []
            | Some r \<Rightarrow> r \<noteq> [] \<and> length r \<le> pk_limit p \<and> r = take (length r) (packer_rest p) \<and>
                (n \<le> length r \<longrightarrow>
                   (\<exists>p2. packer_advance p1 n = Some p2 \<and> packer_ok p2 \<and>
                         packer_rest p2 = drop n (packer_rest p))))"
proof -
  from packer_next_record_ok [OF assms] obtain p1 rec where
    n: "packer_next_record p = Some (p1, rec)" "packer_ok p1" "packer_rest p1 = packer_rest p"
    and rec: "case rec of None \<Rightarrow> packer_rest p = []
        | Some r \<Rightarrow> r \<noteq> [] \<and> length r \<le> pk_limit p \<and> r = take (length r) (packer_rest p)"
    by blast
  have "\<exists>p2. packer_advance p1 n = Some p2 \<and> packer_ok p2 \<and> packer_rest p2 = drop n (packer_rest p)"
    if "rec = Some r" "n \<le> length r" for r
  proof -
    have "length r \<le> length (packer_rest p)" using rec that(1) take_prefix_length by auto
    with that(2) packer_advance_ok [OF n(2), of n] n(3) show ?thesis by auto
  qed
  with n(1) rec show ?thesis by (auto split: option.splits)
qed

end
