(* ===== verification/Bio.thy ===== *)
theory Bio
  imports Transport
begin

text \<open>
  The custom BIO of \<open>btls/src/ssl/bio.rs\<close>, through which BoringSSL reads and writes a Rust stream:
  the callbacks, which classify the errors of the stream and catch its panics, and the life of the
  stream behind the BIO's data pointer.

  What BoringSSL does inside one call is a \<open>bio_prog\<close>: the BIO calls it makes one after the other,
  each continuing with what the callback returned. \<open>run_bio\<close> runs one against the callbacks.
\<close>

section \<open>Streams and the state behind a BIO\<close>

text \<open>
  A type with \<open>std::io::Read\<close> and \<open>Write\<close>: \<open>s_read w n\<close> reads into a buffer of \<open>n\<close> bytes and returns
  what it put there. Each call may panic.
\<close>

record 'w stream_ops =
  s_read :: "'w \<Rightarrow> nat \<Rightarrow> 'w \<times> byte list io_result outcome"
  s_write :: "'w \<Rightarrow> byte list \<Rightarrow> 'w \<times> nat io_result outcome"
  s_flush :: "'w \<Rightarrow> 'w \<times> unit io_result outcome"

text \<open>\<open>StreamState\<close>, with the retry flags that the callbacks keep in the BIO itself.\<close>

record 'w bio =
  b_stream :: 'w
  b_error :: "io_error option"
  b_panic :: "string option"
  b_dtls_mtu_size :: int
  b_retry_read :: bool
  b_retry_write :: bool

definition bio_state :: "'w \<Rightarrow> 'w bio" where
  "bio_state w = \<lparr>b_stream = w, b_error = None, b_panic = None, b_dtls_mtu_size = 0,
                  b_retry_read = False, b_retry_write = False\<rparr>"

definition clear_retry_flags :: "'w bio \<Rightarrow> 'w bio" where
  "clear_retry_flags b = b\<lparr>b_retry_read := False, b_retry_write := False\<rparr>"

definition retriable_error :: "io_error \<Rightarrow> bool" where
  "retriable_error e = (case io_kind e of WouldBlock \<Rightarrow> True | NotConnected \<Rightarrow> True | _ \<Rightarrow> False)"

section \<open>Callbacks\<close>

text \<open>\<open>bwrite\<close>: \<open>len\<close> is the \<open>c_int\<close> BoringSSL passes, \<open>buf\<close> the memory it points to.\<close>

definition bwrite :: "'w stream_ops \<Rightarrow> 'w bio \<Rightarrow> byte list \<Rightarrow> int \<Rightarrow> 'w bio \<times> int" where
  "bwrite W b0 buf len =
     (let b = clear_retry_flags b0
      in if len < 0 then (b, -1)
         else case s_write W (b_stream b) (take (nat len) buf) of
             (w, Ret (Inr n)) \<Rightarrow> (b\<lparr>b_stream := w\<rparr>, as_c_int n)
           | (w, Ret (Inl e)) \<Rightarrow>
               (b\<lparr>b_stream := w, b_retry_write := retriable_error e, b_error := Some e\<rparr>, -1)
           | (w, Panic p) \<Rightarrow> (b\<lparr>b_stream := w, b_panic := Some p\<rparr>, -1))"

text \<open>\<open>bread\<close>: also returns what the stream put into the buffer.\<close>

definition bread :: "'w stream_ops \<Rightarrow> 'w bio \<Rightarrow> int \<Rightarrow> 'w bio \<times> int \<times> byte list" where
  "bread W b0 len =
     (let b = clear_retry_flags b0
      in if len < 0 then (b, -1, [])
         else case s_read W (b_stream b) (nat len) of
             (w, Ret (Inr d)) \<Rightarrow> (b\<lparr>b_stream := w\<rparr>, as_c_int (length d), d)
           | (w, Ret (Inl e)) \<Rightarrow>
               (b\<lparr>b_stream := w, b_retry_read := retriable_error e, b_error := Some e\<rparr>, -1, [])
           | (w, Panic p) \<Rightarrow> (b\<lparr>b_stream := w, b_panic := Some p\<rparr>, -1, []))"

text \<open>\<open>bputs\<close>: \<open>s\<close> is the string without its NUL.\<close>

definition bputs :: "'w stream_ops \<Rightarrow> 'w bio \<Rightarrow> byte list \<Rightarrow> 'w bio \<times> int" where
  "bputs W b s = bwrite W b s (as_c_int (length s))"

text \<open>\<open>ctrl\<close>: flushes, or reports the MTU.\<close>

datatype ctrl_cmd = BIO_CTRL_FLUSH | BIO_CTRL_DGRAM_QUERY_MTU | Other_Ctrl int

definition ctrl :: "'w stream_ops \<Rightarrow> 'w bio \<Rightarrow> ctrl_cmd \<Rightarrow> 'w bio \<times> int" where
  "ctrl W b0 cmd =
     (case cmd of
        BIO_CTRL_FLUSH \<Rightarrow>
          (let b = clear_retry_flags b0
           in case s_flush W (b_stream b) of
                (w, Ret (Inr _)) \<Rightarrow> (b\<lparr>b_stream := w\<rparr>, 1)
              | (w, Ret (Inl e)) \<Rightarrow>
                  (b\<lparr>b_stream := w, b_retry_write := retriable_error e, b_error := Some e\<rparr>, 0)
              | (w, Panic p) \<Rightarrow> (b\<lparr>b_stream := w, b_panic := Some p\<rparr>, 0))
      | BIO_CTRL_DGRAM_QUERY_MTU \<Rightarrow> (b0, b_dtls_mtu_size b0)
      | Other_Ctrl _ \<Rightarrow> (b0, 0))"

text \<open>\<open>take_error\<close>, \<open>take_panic\<close> and \<open>set_dtls_mtu_size\<close> (\<open>c_long\<close> has 64 bits).\<close>

definition take_error :: "'w bio \<Rightarrow> 'w bio \<times> io_error option" where
  "take_error b = (b\<lparr>b_error := None\<rparr>, b_error b)"

definition take_panic :: "'w bio \<Rightarrow> 'w bio \<times> string option" where
  "take_panic b = (b\<lparr>b_panic := None\<rparr>, b_panic b)"

definition set_dtls_mtu_size :: "'w bio \<Rightarrow> nat \<Rightarrow> 'w bio outcome" where
  "set_dtls_mtu_size b n =
     (if 2 ^ 63 - 1 < n
      then Panic ''Given MTU size can't be represented in a positive `c_long` range''
      else Ret (b\<lparr>b_dtls_mtu_size := int n\<rparr>))"

section \<open>The life of a BIO\<close>

text \<open>
  \<open>raw_data\<close> is the boxed state behind \<open>BIO_get_data\<close>, \<open>None\<close> for null; \<open>dropped\<close> collects the streams
  that \<open>drop\<close> ran on.
\<close>

record 'w raw_bio =
  raw_init :: int
  raw_data :: "'w bio option"
  dropped :: "'w list"

definition bio_create :: "'w raw_bio \<times> int" where
  "bio_create = (\<lparr>raw_init = 0, raw_data = None, dropped = []\<rparr>, 1)"

text \<open>\<open>bio::new\<close>: \<open>alloc\<close> tells whether \<open>BIO_new\<close> succeeds; if not, the boxed state is dropped.\<close>

definition bio_new ::
    "bool \<Rightarrow> 'w \<Rightarrow> err_queue \<Rightarrow> (error_stack + 'w raw_bio) \<times> err_queue" where
  "bio_new alloc w q =
     (case cvt_p (if alloc then Some (fst bio_create) else None) q of
        (Inl es, q') \<Rightarrow> (Inl es, q')
      | (Inr raw, q') \<Rightarrow> (Inr (raw\<lparr>raw_data := Some (bio_state w), raw_init := 1\<rparr>), q'))"

definition take_stream :: "'w raw_bio \<Rightarrow> ('w raw_bio \<times> 'w) outcome" where
  "take_stream raw =
     (case raw_data raw of
        None \<Rightarrow> Panic ''assertion failed: !data.is_null()''
      | Some b \<Rightarrow> Ret (raw\<lparr>raw_data := None\<rparr>, b_stream b))"

definition bio_destroy :: "'w raw_bio option \<Rightarrow> 'w raw_bio option \<times> int" where
  "bio_destroy p =
     (case p of
        None \<Rightarrow> (None, 0)
      | Some raw \<Rightarrow>
          (let raw1 = (case raw_data raw of
                         None \<Rightarrow> raw
                       | Some b \<Rightarrow> raw\<lparr>dropped := dropped raw @ [b_stream b], raw_data := None\<rparr>)
           in (Some (raw1\<lparr>raw_init := 0\<rparr>), 1)))"

section \<open>Calls into BoringSSL\<close>

text \<open>
  One call: \<open>Done r d s q\<close> returns \<open>r\<close>, has written \<open>d\<close> to the caller's memory and leaves BoringSSL
  in the state \<open>s\<close> with the error queue \<open>q\<close>.
\<close>

datatype 's bio_prog =
    Done int "byte list" 's err_queue
  | Bio_Write "byte list" "int \<Rightarrow> 's bio_prog"
  | Bio_Read nat "int \<Rightarrow> byte list \<Rightarrow> 's bio_prog"
  | Bio_Ctrl ctrl_cmd "int \<Rightarrow> 's bio_prog"

primrec run_bio ::
    "'w stream_ops \<Rightarrow> 's bio_prog \<Rightarrow> 'w bio \<Rightarrow> 'w bio \<times> int \<times> byte list \<times> 's \<times> err_queue" where
  "run_bio W (Done r d s q) b = (b, r, d, s, q)"
| "run_bio W (Bio_Write bs k) b =
     (let res = bwrite W b bs (int (length bs)) in run_bio W (k (snd res)) (fst res))"
| "run_bio W (Bio_Read n k) b =
     (let res = bread W b (int n) in run_bio W (k (fst (snd res)) (snd (snd res))) (fst res))"
| "run_bio W (Bio_Ctrl c k) b =
     (let res = ctrl W b c in run_bio W (k (snd res)) (fst res))"

section \<open>The contract of a stream behind a BIO\<close>

text \<open>
  What the streams of \<open>tokio-btls\<close> promise to the BIO: a write is taken whole, a read hands out the
  next bytes or fails, no call panics. \<open>outbox\<close> is everything written to the stream, \<open>inbox\<close>
  everything read from it, \<open>keep\<close> what the BIO calls leave alone.
\<close>

locale bio_stream =
  fixes W :: "'w stream_ops" and live :: "'w \<Rightarrow> bool" and outbox inbox :: "'w \<Rightarrow> byte list"
    and keep :: "'w \<Rightarrow> 'k"
  assumes s_write_law:
      "live w \<Longrightarrow> s_write W w d = (w', r) \<Longrightarrow>
         r = Ret (Inr (length d)) \<and> live w' \<and> outbox w' = outbox w @ d \<and> inbox w' = inbox w \<and>
         keep w' = keep w"
    and s_read_law:
      "live w \<Longrightarrow> s_read W w n = (w', res) \<Longrightarrow>
         live w' \<and> outbox w' = outbox w \<and> keep w' = keep w \<and>
         (\<exists>x. res = Ret x \<and> (case x of Inr d \<Rightarrow> length d \<le> n \<and> inbox w' = inbox w @ d
                                  | Inl _ \<Rightarrow> inbox w' = inbox w))"
    and s_flush_law:
      "live w \<Longrightarrow> s_flush W w = (w', u) \<Longrightarrow>
         live w' \<and> outbox w' = outbox w \<and> inbox w' = inbox w \<and> keep w' = keep w \<and> (\<exists>x. u = Ret x)"

text \<open>
  A history of a BoringSSL connection: all it has handed to its BIO or sealed into caller memory,
  all the plaintext it has taken, all the ciphertext it has read and the plaintext it has returned.
\<close>

record 's view =
  v_sealed :: "'s \<Rightarrow> byte list"
  v_taken :: "'s \<Rightarrow> byte list"
  v_ingested :: "'s \<Rightarrow> byte list"
  v_opened :: "'s \<Rightarrow> byte list"

text \<open>
  A call keeps the history, whatever a stream of that kind answers, and ends with \<open>Q\<close>; \<open>stuck\<close> tells
  whether one of its reads has failed. Lengths fit \<open>c_int\<close>.
\<close>

primrec prog_ok ::
    "'s view \<Rightarrow> (bool \<Rightarrow> int \<Rightarrow> byte list \<Rightarrow> 's \<Rightarrow> err_queue \<Rightarrow> bool) \<Rightarrow> 's bio_prog
     \<Rightarrow> byte list \<Rightarrow> byte list \<Rightarrow> bool \<Rightarrow> bool" where
  "prog_ok V Q (Done r d s q) out inp stuck \<longleftrightarrow>
     v_sealed V s = out \<and> v_ingested V s = inp \<and> Q stuck r d s q"
| "prog_ok V Q (Bio_Write bs k) out inp stuck \<longleftrightarrow>
     length bs \<le> c_int_max \<and> prog_ok V Q (k (int (length bs))) (out @ bs) inp stuck"
| "prog_ok V Q (Bio_Read n k) out inp stuck \<longleftrightarrow>
     n \<le> c_int_max \<and> prog_ok V Q (k (-1) []) out inp True \<and>
     (\<forall>d. length d \<le> n \<longrightarrow> prog_ok V Q (k (int (length d)) d) out (inp @ d) stuck)"
| "prog_ok V Q (Bio_Ctrl c k) out inp stuck \<longleftrightarrow> (\<forall>r. prog_ok V Q (k r) out inp stuck)"

lemma clear_retry_flags_simps [simp]:
  "b_stream (clear_retry_flags b) = b_stream b" "b_error (clear_retry_flags b) = b_error b"
  "b_panic (clear_retry_flags b) = b_panic b"
  "b_dtls_mtu_size (clear_retry_flags b) = b_dtls_mtu_size b"
  by (simp_all add: clear_retry_flags_def)

lemma bio_state_simps [simp]:
  "b_stream (bio_state w) = w" "b_error (bio_state w) = None" "b_panic (bio_state w) = None"
  by (simp_all add: bio_state_def)

context bio_stream
begin

lemma bwrite:
  assumes "live (b_stream b)" and "length bs \<le> c_int_max"
  obtains w where "bwrite W b bs (int (length bs)) = (clear_retry_flags b\<lparr>b_stream := w\<rparr>, int (length bs))"
    and "live w" and "outbox w = outbox (b_stream b) @ bs" and "inbox w = inbox (b_stream b)"
    and "keep w = keep (b_stream b)"
proof -
  obtain w r where wr: "s_write W (b_stream b) bs = (w, r)" by (cases "s_write W (b_stream b) bs")
  from s_write_law [OF assms(1) wr] wr assms(2) show thesis
    by (intro that [of w]) (simp_all add: bwrite_def Let_def as_c_int_small)
qed

lemma bread:
  assumes "live (b_stream b)" and "n \<le> c_int_max"
  obtains b' d where "bread W b (int n) = (b', int (length d), d)" and "length d \<le> n"
    and "live (b_stream b')" and "outbox (b_stream b') = outbox (b_stream b)"
    and "inbox (b_stream b') = inbox (b_stream b) @ d" and "keep (b_stream b') = keep (b_stream b)"
    and "b_panic b' = b_panic b" and "b_error b' = b_error b"
  | b' where "bread W b (int n) = (b', -1, [])" and "b_error b' \<noteq> None"
    and "live (b_stream b')" and "outbox (b_stream b') = outbox (b_stream b)"
    and "inbox (b_stream b') = inbox (b_stream b)" and "keep (b_stream b') = keep (b_stream b)"
    and "b_panic b' = b_panic b"
proof -
  obtain w r where wr: "s_read W (b_stream b) n = (w, r)" by (cases "s_read W (b_stream b) n")
  from s_read_law [OF assms(1) wr] obtain x where x: "r = Ret x" "live w"
    "outbox w = outbox (b_stream b)" "keep w = keep (b_stream b)"
    "case x of Inr d \<Rightarrow> length d \<le> n \<and> inbox w = inbox (b_stream b) @ d
             | Inl _ \<Rightarrow> inbox w = inbox (b_stream b)" by blast
  show thesis
  proof (cases x)
    case (Inl e)
    with x wr show thesis by (intro that(2) [of "clear_retry_flags b\<lparr>b_stream := w,
        b_retry_read := retriable_error e, b_error := Some e\<rparr>"]) (simp_all add: bread_def Let_def)
  next
    case (Inr d)
    with x wr assms(2) show thesis
      by (intro that(1) [of "clear_retry_flags b\<lparr>b_stream := w\<rparr>" d]) (simp_all add: bread_def Let_def as_c_int_small)
  qed
qed

lemma ctrl:
  assumes "live (b_stream b)"
  obtains b' r where "ctrl W b c = (b', r)" and "live (b_stream b')"
    and "outbox (b_stream b') = outbox (b_stream b)" and "inbox (b_stream b') = inbox (b_stream b)"
    and "keep (b_stream b') = keep (b_stream b)" and "b_panic b' = b_panic b"
    and "b_error b \<noteq> None \<longrightarrow> b_error b' \<noteq> None"
proof -
  obtain w r where wr: "s_flush W (b_stream b) = (w, r)" by (cases "s_flush W (b_stream b)")
  from s_flush_law [OF assms wr] obtain x where x: "r = Ret x" "live w" "outbox w = outbox (b_stream b)"
    "inbox w = inbox (b_stream b)" "keep w = keep (b_stream b)" by blast
  obtain b' r' where c: "ctrl W b c = (b', r')" by (cases "ctrl W b c")
  from c wr x assms that [OF c] show thesis
    by (cases c; cases x) (auto simp: ctrl_def Let_def)
qed

text \<open>A call keeps history and streams together, panics nowhere, and ends as its contract says.\<close>

lemma run:
  assumes "run_bio W p b = (b', r, d, s, q)" and "live (b_stream b)"
    and "prog_ok V Q p (outbox (b_stream b)) (inbox (b_stream b)) stuck"
    and "stuck \<longrightarrow> b_error b \<noteq> None"
  shows "live (b_stream b') \<and> v_sealed V s = outbox (b_stream b') \<and>
         v_ingested V s = inbox (b_stream b') \<and> keep (b_stream b') = keep (b_stream b) \<and>
         b_panic b' = b_panic b \<and> (\<exists>stuck'. (stuck' \<longrightarrow> b_error b' \<noteq> None) \<and> Q stuck' r d s q)"
  using assms
proof (induction p arbitrary: b stuck)
  case (Bio_Write bs k)
  then have "length bs \<le> c_int_max" by simp
  from bwrite [OF Bio_Write.prems(2) this] obtain w where
    "bwrite W b bs (int (length bs)) = (clear_retry_flags b\<lparr>b_stream := w\<rparr>, int (length bs))"
    "live w" "outbox w = outbox (b_stream b) @ bs" "inbox w = inbox (b_stream b)"
    "keep w = keep (b_stream b)" .
  with Bio_Write.prems Bio_Write.IH [OF rangeI, of "int (length bs)" "clear_retry_flags b\<lparr>b_stream := w\<rparr>" stuck]
  show ?case by simp
next
  case (Bio_Read n k)
  then have "n \<le> c_int_max" by simp
  from Bio_Read.prems(2) this show ?case
  proof (cases rule: bread)
    case (1 b1 d1)
    with Bio_Read.prems Bio_Read.IH [OF rangeI rangeI, of "int (length d1)" d1 b1 stuck]
    show ?thesis by simp
  next
    case (2 b1)
    with Bio_Read.prems Bio_Read.IH [OF rangeI rangeI, of "-1" "[]" b1 True]
    show ?thesis by simp
  qed
next
  case (Bio_Ctrl c k)
  from ctrl [OF Bio_Ctrl.prems(2), of c] obtain b1 r1 where "ctrl W b c = (b1, r1)" "live (b_stream b1)"
    "outbox (b_stream b1) = outbox (b_stream b)" "inbox (b_stream b1) = inbox (b_stream b)"
    "keep (b_stream b1) = keep (b_stream b)" "b_panic b1 = b_panic b"
    "b_error b \<noteq> None \<longrightarrow> b_error b1 \<noteq> None" .
  with Bio_Ctrl.prems Bio_Ctrl.IH [OF rangeI, of r1 b1 stuck] show ?case by simp
qed auto

end

section \<open>Classification of errors, and ownership of the stream\<close>

text \<open>A failed callback returns -1, keeps the error and asks for a retry exactly when it is retriable.\<close>

lemma bwrite_error:
  assumes "s_write W (b_stream b) buf = (w, Ret (Inl e))"
  shows "bwrite W b buf (int (length buf)) =
           (b\<lparr>b_stream := w, b_error := Some e, b_retry_read := False,
              b_retry_write := (io_kind e = WouldBlock \<or> io_kind e = NotConnected)\<rparr>, -1)"
  using assms by (simp add: bwrite_def Let_def clear_retry_flags_def retriable_error_def
      split: error_kind.split)

text \<open>Taking the stream out means that freeing the BIO drops nothing; else it drops it once.\<close>

lemma stream_owned_once:
  assumes "bio_new True w q = (Inr raw, q')"
  shows "case take_stream raw of
           Panic _ \<Rightarrow> False
         | Ret (raw', w') \<Rightarrow> w' = w \<and> (\<exists>r. bio_destroy (Some raw') = (Some r, 1) \<and> dropped r = [])"
    and "\<exists>r. bio_destroy (Some raw) = (Some r, 1) \<and> dropped r = [w] \<and>
             bio_destroy (Some r) = (Some r, 1)"
  using assms
  by (auto simp: bio_new_def cvt_p_def bio_create_def take_stream_def bio_destroy_def Let_def)

end
