(* ===== verification/Wrapper.thy ===== *)
theory Wrapper
  imports Buffers Bio
begin

text \<open>
  \<open>StreamWrapper\<close> of \<open>tokio-btls/src/lib.rs\<close>: the stream handed to BoringSSL's BIO, which buffers
  ciphertext in both directions over a \<open>Transport\<close>. Over any transport that keeps its laws it keeps
  the contract \<open>bio_stream\<close>.
\<close>

section \<open>State and operations\<close>

record 't wrapper =
  sw_transport :: "'t transport"
  sw_read_buf :: read_buffer
  sw_write_buf :: write_buffer
  sw_write_through :: bool
  sw_shutdown_sent :: bool
  sw_read_end :: "unit io_result option"

definition wrapper_new :: "'t \<Rightarrow> 't wrapper" where
  "wrapper_new t =
     \<lparr>sw_transport = \<lparr>tr_stream = t, tr_context = 0\<rparr>, sw_read_buf = rb_default,
      sw_write_buf = wb_default, sw_write_through = False, sw_shutdown_sent = False,
      sw_read_end = None\<rparr>"

definition sw_read ::
    "'t async_ops \<Rightarrow> 't wrapper \<Rightarrow> nat \<Rightarrow> 't wrapper \<times> byte list io_result outcome" where
  "sw_read T w n =
     (case rb_read T (sw_read_buf w) (sw_transport w) n of
        (rb, tr, r) \<Rightarrow> (w\<lparr>sw_read_buf := rb, sw_transport := tr\<rparr>, r))"

definition sw_write ::
    "'t async_ops \<Rightarrow> 't wrapper \<Rightarrow> byte list \<Rightarrow> 't wrapper \<times> nat io_result outcome" where
  "sw_write T w buf =
     (if sw_write_through w \<and> \<not> wb_blocked (sw_write_buf w)
      then case wb_write_last T (sw_transport w) (sw_write_buf w) buf of
             (tr, wb, Ret _) \<Rightarrow>
               (w\<lparr>sw_transport := tr, sw_write_buf := wb\<rparr>, Ret (Inr (length buf)))
           | (tr, wb, Panic p) \<Rightarrow> (w\<lparr>sw_transport := tr, sw_write_buf := wb\<rparr>, Panic p)
      else (w\<lparr>sw_write_buf := wb_push (sw_write_buf w) buf\<rparr>, Ret (Inr (length buf))))"

definition sw_flush :: "'t async_ops \<Rightarrow> 't wrapper \<Rightarrow> 't wrapper \<times> unit io_result outcome" where
  "sw_flush T w =
     (case wb_drain T (sw_transport w) (sw_write_buf w) of
        (tr, wb, Panic p) \<Rightarrow> (w\<lparr>sw_transport := tr, sw_write_buf := wb\<rparr>, Panic p)
      | (tr, wb, Ret (Inl e)) \<Rightarrow> (w\<lparr>sw_transport := tr, sw_write_buf := wb\<rparr>, Ret (Inl e))
      | (tr, wb, Ret (Inr _)) \<Rightarrow>
          (let w1 = w\<lparr>sw_transport := tr, sw_write_buf := wb\<rparr>
           in if tr_context tr = 0 then (w1, Panic ''no task context'')
              else case a_poll_flush T (tr_stream tr) (tr_context tr) of
                  (t, Ready r) \<Rightarrow> (w1\<lparr>sw_transport := tr\<lparr>tr_stream := t\<rparr>\<rparr>, Ret r)
                | (t, Pending) \<Rightarrow>
                    (w1\<lparr>sw_transport := tr\<lparr>tr_stream := t\<rparr>\<rparr>, Ret (Inl (io_from WouldBlock)))))"

definition wrapper_ops :: "'t async_ops \<Rightarrow> 't wrapper stream_ops" where
  "wrapper_ops T = \<lparr>s_read = sw_read T, s_write = sw_write T, s_flush = sw_flush T\<rparr>"

section \<open>What the wrapper holds\<close>

abbreviation sw_stream :: "'t wrapper \<Rightarrow> 't" where
  "sw_stream w \<equiv> tr_stream (sw_transport w)"

definition sw_outbox :: "('t \<Rightarrow> byte list) \<Rightarrow> 't wrapper \<Rightarrow> byte list" where
  "sw_outbox sent w = sent (sw_stream w) @ wb_buffered (sw_write_buf w)"

definition sw_inbox :: "('t \<Rightarrow> byte list) \<Rightarrow> 't wrapper \<Rightarrow> byte list" where
  "sw_inbox got w =
     take (length (got (sw_stream w)) - length (rb_unread (sw_read_buf w))) (got (sw_stream w))"

text \<open>Well-formedness, and the same while a task context is installed.\<close>

definition sw_wf :: "('t \<Rightarrow> byte list) \<Rightarrow> 't wrapper \<Rightarrow> bool" where
  "sw_wf got w \<longleftrightarrow>
     wb_ok (sw_write_buf w) \<and> rb_ok (sw_read_buf w) \<and>
     (\<exists>x. got (sw_stream w) = x @ rb_unread (sw_read_buf w))"

definition sw_live :: "('t \<Rightarrow> byte list) \<Rightarrow> 't wrapper \<Rightarrow> bool" where
  "sw_live got w \<longleftrightarrow> sw_wf got w \<and> tr_context (sw_transport w) \<noteq> 0"

definition sw_keep :: "'t wrapper \<Rightarrow> bool \<times> unit io_result option \<times> bool \<times> nat" where
  "sw_keep w = (sw_shutdown_sent w, sw_read_end w, sw_write_through w, tr_context (sw_transport w))"

lemma sw_inbox_eq:
  "got (sw_stream w) = x @ rb_unread (sw_read_buf w) \<Longrightarrow> sw_inbox got w = x"
  by (simp add: sw_inbox_def)

lemma wrapper_new_wf: "sw_wf got (wrapper_new t)"
  "sw_outbox sent (wrapper_new t) = sent t" "sw_inbox got (wrapper_new t) = got t"
  by (simp_all add: sw_wf_def wrapper_new_def sw_outbox_def sw_inbox_def)

section \<open>Over a transport that keeps its laws\<close>

context async_duplex
begin

lemma sw_write:
  assumes "sw_live got w" and "sw_write T w b = (w', r)"
  shows "r = Ret (Inr (length b)) \<and> sw_live got w' \<and> sw_outbox sent w' = sw_outbox sent w @ b \<and>
         sw_inbox got w' = sw_inbox got w \<and> sw_keep w' = sw_keep w"
proof (cases "sw_write_through w \<and> \<not> wb_blocked (sw_write_buf w)")
  case False
  with assms show ?thesis
    by (auto simp: sw_write_def sw_live_def sw_wf_def sw_outbox_def sw_inbox_def sw_keep_def
        wb_push_ok wb_push_pending)
next
  case True
  obtain tr wb res where l: "wb_write_last T (sw_transport w) (sw_write_buf w) b = (tr, wb, res)"
    by (cases "wb_write_last T (sw_transport w) (sw_write_buf w) b")
  have "tr_context (sw_transport w) \<noteq> 0" "wb_ok (sw_write_buf w)"
    using assms(1) by (simp_all add: sw_live_def sw_wf_def)
  note wl = write_last [OF l this]
  have "got (tr_stream tr) = got (sw_stream w)"
    using wb_write_last_frame [of got T "sw_transport w" "sw_write_buf w" b, OF got_write got_write_vectored]
    by (simp add: l)
  with True l wl assms show ?thesis
    by (auto simp: sw_write_def sw_live_def sw_wf_def sw_outbox_def sw_inbox_def sw_keep_def)
qed

lemma sw_read:
  assumes "sw_live got w" and "sw_read T w n = (w', r)"
  shows "sw_live got w' \<and> sw_outbox sent w' = sw_outbox sent w \<and> sw_keep w' = sw_keep w \<and>
         (\<exists>x. r = Ret x \<and> (case x of Inr d \<Rightarrow> length d \<le> n \<and> sw_inbox got w' = sw_inbox got w @ d
                                  | Inl _ \<Rightarrow> sw_inbox got w' = sw_inbox got w))"
proof -
  obtain rb tr res where l: "rb_read T (sw_read_buf w) (sw_transport w) n = (rb, tr, res)"
    by (cases "rb_read T (sw_read_buf w) (sw_transport w) n")
  have w': "w' = w\<lparr>sw_read_buf := rb, sw_transport := tr\<rparr>" and r: "r = res"
    using assms(2) l by (simp_all add: sw_read_def)
  have live: "tr_context (sw_transport w) \<noteq> 0" "rb_ok (sw_read_buf w)" "wb_ok (sw_write_buf w)"
    and "\<exists>x. got (sw_stream w) = x @ rb_unread (sw_read_buf w)"
    using assms(1) by (simp_all add: sw_live_def sw_wf_def)
  then obtain x where x: "got (sw_stream w) = x @ rb_unread (sw_read_buf w)" by blast
  from read_buffer [OF l live(1,2)] obtain res' fresh where f: "res = Ret res'" "rb_ok rb"
    "tr_context tr = tr_context (sw_transport w)" "got (tr_stream tr) = got (sw_stream w) @ fresh"
    "case res' of Inr d \<Rightarrow> length d \<le> n \<and> rb_unread (sw_read_buf w) @ fresh = d @ rb_unread rb
       | Inl e \<Rightarrow> rb_unread (sw_read_buf w) @ fresh = rb_unread rb" by blast
  have s: "sent (tr_stream tr) = sent (sw_stream w)"
    using rb_read_frame [of sent T "sw_read_buf w" "sw_transport w" n, OF sent_read]
    by (simp add: l)
  define d where "d = (case res' of Inr d \<Rightarrow> d | Inl _ \<Rightarrow> [])"
  have g: "got (tr_stream tr) = (x @ d) @ rb_unread rb"
    using f(4,5) x by (auto simp: d_def split: sum.splits)
  then have "sw_inbox got w' = sw_inbox got w @ d"
    using sw_inbox_eq [of got w', of "x @ d"] sw_inbox_eq [of got w, OF x] by (simp add: w')
  moreover have "sw_live got w'" using g f(2,3) live by (auto simp: sw_live_def sw_wf_def w')
  moreover have "sw_outbox sent w' = sw_outbox sent w" "sw_keep w' = sw_keep w"
    using s f(3) by (simp_all add: sw_outbox_def sw_keep_def w')
  ultimately show ?thesis using f(1,5) r by (auto simp: d_def split: sum.splits)
qed

text \<open>A flush that succeeds has handed over everything.\<close>

lemma sw_flush:
  assumes "sw_live got w" and "sw_flush T w = (w', r)"
  shows "sw_live got w' \<and> sw_outbox sent w' = sw_outbox sent w \<and> sw_inbox got w' = sw_inbox got w \<and>
         sw_keep w' = sw_keep w \<and>
         (\<exists>x. r = Ret x \<and> (x = Inr () \<longrightarrow> wb_buffered (sw_write_buf w') = []))"
proof -
  obtain tr wb res where l: "wb_drain T (sw_transport w) (sw_write_buf w) = (tr, wb, res)"
    by (cases "wb_drain T (sw_transport w) (sw_write_buf w)")
  have live: "tr_context (sw_transport w) \<noteq> 0" "wb_ok (sw_write_buf w)"
    using assms(1) by (simp_all add: sw_live_def sw_wf_def)
  from drain [OF l live] obtain dr where d: "res = Ret dr" "dr = Inr () \<longleftrightarrow> wb_buffered wb = []"
    "wb_ok wb" "sent (tr_stream tr) @ wb_buffered wb = sw_outbox sent w"
    "tr_context tr = tr_context (sw_transport w)" unfolding sw_outbox_def by blast
  have g: "got (tr_stream tr) = got (sw_stream w)"
    using wb_drain_frame [of got T "sw_transport w" "sw_write_buf w", OF got_write] by (simp add: l)
  obtain t p where fl: "a_poll_flush T (tr_stream tr) (tr_context tr) = (t, p)"
    by (cases "a_poll_flush T (tr_stream tr) (tr_context tr)")
  have t: "sent t = sent (tr_stream tr)" "got t = got (tr_stream tr)"
    using flush_law [of "tr_stream tr" "tr_context tr"] got_flush [of "tr_stream tr" "tr_context tr"]
    by (simp_all add: fl)
  let ?w1 = "w\<lparr>sw_transport := tr, sw_write_buf := wb\<rparr>"
  have w1: "sw_live got (?w1\<lparr>sw_transport := tr\<lparr>tr_stream := u\<rparr>\<rparr>)"
    "sw_outbox sent (?w1\<lparr>sw_transport := tr\<lparr>tr_stream := u\<rparr>\<rparr>) = sw_outbox sent w"
    "sw_inbox got (?w1\<lparr>sw_transport := tr\<lparr>tr_stream := u\<rparr>\<rparr>) = sw_inbox got w"
    "sw_keep (?w1\<lparr>sw_transport := tr\<lparr>tr_stream := u\<rparr>\<rparr>) = sw_keep w"
    if "sent u = sent (tr_stream tr)" "got u = got (tr_stream tr)" for u
    using assms(1) d g that by (simp_all add: sw_live_def sw_wf_def sw_outbox_def sw_inbox_def sw_keep_def)
  show ?thesis
  proof (cases dr)
    case (Inl e)
    then have "w' = ?w1" "r = Ret (Inl e)" using l d(1) assms(2) by (auto simp: sw_flush_def)
    with assms(1) d g show ?thesis
      by (simp add: sw_live_def sw_wf_def sw_outbox_def sw_inbox_def sw_keep_def)
  next
    case (Inr u)
    then have "wb_buffered wb = []" using d(2) by simp
    with Inr show ?thesis
      using l d(1,5) live(1) assms(2) fl w1 [OF t] by (cases p) (auto simp: sw_flush_def Let_def)
  qed
qed

end

sublocale async_duplex \<subseteq> sw: bio_stream "wrapper_ops T" "sw_live got" "sw_outbox sent"
  "sw_inbox got" sw_keep
  by unfold_locales (auto simp: wrapper_ops_def dest: sw_write sw_read sw_flush)

end
