(* ===== verification/Ssl_Stream.thy ===== *)
theory Ssl_Stream
  imports Bio
begin

text \<open>
  \<open>SslStream<S>\<close> of \<open>btls/src/ssl/mod.rs\<close>: a BoringSSL connection over a blocking-style stream \<open>S\<close>, with
  its handshakes, and the sealing of application data into caller memory.

  BoringSSL is the record \<open>ssl_api\<close>: one field per function that the source calls. Its contract,
  \<open>engine_ok\<close>, restates the documentation of the functions (\<open>btls-sys/patches/0011-...\<close> for sealing)
  over a history of the connection.
\<close>

section \<open>BoringSSL\<close>

datatype seal_result = Seal_Success | Seal_Declined | Seal_Error

text \<open>
  \<open>e_seal\<close> takes the \<open>CRYPTO_IVEC\<close>s, \<open>max_in\<close> and the room in \<open>out\<close>, and returns its result, the bytes
  consumed and the bytes written. \<open>e_get_error\<close> also sees the error queue and the retry flags of the
  BIO. \<open>e_limits\<close> returns 0 or 1 and its three out-parameters. \<open>e_unix\<close> and \<open>e_fips\<close> are the build.
\<close>

record 's ssl_api =
  e_connect :: "'s \<Rightarrow> err_queue \<Rightarrow> 's bio_prog"
  e_accept :: "'s \<Rightarrow> err_queue \<Rightarrow> 's bio_prog"
  e_do_handshake :: "'s \<Rightarrow> err_queue \<Rightarrow> 's bio_prog"
  e_read :: "'s \<Rightarrow> err_queue \<Rightarrow> nat \<Rightarrow> 's bio_prog"
  e_write :: "'s \<Rightarrow> err_queue \<Rightarrow> byte list \<Rightarrow> 's bio_prog"
  e_shutdown :: "'s \<Rightarrow> err_queue \<Rightarrow> 's bio_prog"
  e_get_error :: "'s \<Rightarrow> err_queue \<Rightarrow> bool \<Rightarrow> bool \<Rightarrow> int \<Rightarrow> error_code"
  e_set_mode :: "'s \<Rightarrow> 32 word \<Rightarrow> 's"
  e_set_connect_state :: "'s \<Rightarrow> 's"
  e_set_accept_state :: "'s \<Rightarrow> 's"
  e_limits :: "'s \<Rightarrow> int \<times> nat \<times> nat \<times> nat"
  e_seal :: "'s \<Rightarrow> err_queue \<Rightarrow> byte list list \<Rightarrow> nat \<Rightarrow> nat
             \<Rightarrow> seal_result \<times> nat \<times> byte list \<times> 's \<times> err_queue"
  e_unix :: bool
  e_fips :: bool
  ERR_LIB_NONE :: "32 word"
  ERR_LIB_SSL :: "32 word"
  SSL_R_PROTOCOL_IS_SHUTDOWN :: "32 word"
  ENABLE_PARTIAL_WRITE :: "32 word"

section \<open>Sealing into caller memory\<close>

record seal_limits =
  max_fragment :: nat
  record_overhead :: nat
  pending_len :: nat

record sealed =
  consumed :: nat
  written :: nat

text \<open>\<open>SealLimits::sealed_len\<close>; a division by zero panics, which the limits of a success exclude.\<close>

definition sealed_len :: "seal_limits \<Rightarrow> nat \<Rightarrow> nat option" where
  "sealed_len l len =
     Option.bind (checked_mul (div_ceil len (max_fragment l)) (record_overhead l)) (\<lambda>a.
       Option.bind (checked_add a len) (\<lambda>b. checked_add b (pending_len l)))"

definition seal_app_data_limits :: "'s ssl_api \<Rightarrow> 's \<Rightarrow> seal_limits option" where
  "seal_app_data_limits E s =
     (if e_fips E then None
      else case e_limits E s of
          (ok, frag, over, pending) \<Rightarrow>
            if ok = 1 \<and> 0 < frag
            then Some \<lparr>max_fragment = frag, record_overhead = over, pending_len = pending\<rparr> else None)"

text \<open>
  \<open>with_ivecs\<close>: the slices themselves on Unix; elsewhere copies of the slices that cover \<open>max_in\<close>
  bytes, on the stack or the heap.
\<close>

fun take_covering :: "nat \<Rightarrow> byte list list \<Rightarrow> byte list list" where
  "take_covering left [] = []"
| "take_covering left (b # bs) = (if 0 < left then b # take_covering (left - length b) bs else [])"

definition with_ivecs :: "'s ssl_api \<Rightarrow> byte list list \<Rightarrow> nat \<Rightarrow> byte list list" where
  "with_ivecs E bufs max_in = (if e_unix E then bufs else take_covering max_in bufs)"

text \<open>\<open>SslRef::seal_app_data\<close>: also returns the first \<open>written\<close> bytes of \<open>out\<close>, of \<open>room\<close> bytes.\<close>

definition seal_app_data ::
    "'s ssl_api \<Rightarrow> 's \<Rightarrow> err_queue \<Rightarrow> byte list list \<Rightarrow> nat \<Rightarrow> nat
     \<Rightarrow> 's \<times> err_queue \<times> (error_stack + (sealed \<times> byte list) option)" where
  "seal_app_data E s q bufs max_in room =
     (if e_fips E then (s, q, Inr None)
      else case e_seal E s q (with_ivecs E bufs max_in) max_in room of
          (Seal_Declined, _, _, s', q') \<Rightarrow> (s', q', Inr None)
        | (Seal_Error, _, _, s', q') \<Rightarrow>
            (case error_stack_get q' of (es, q2) \<Rightarrow> (s', q2, Inl es))
        | (Seal_Success, n, out, s', q') \<Rightarrow>
            if room < length out \<or> max_in < n
            then (s', q', Inl (internal_error_str (ERR_LIB_NONE E)
                                 ''SSL_seal_app_data reported more than it was given''))
            else (s', q', Inr (Some (\<lparr>consumed = n, written = length out\<rparr>, out))))"

section \<open>SslStream\<close>

text \<open>The connection, its thread's error queue and the BIO with the stream.\<close>

record ('s, 'w) ssl_stream =
  ss_ssl :: 's
  ss_queue :: err_queue
  ss_bio :: "'w bio"

text \<open>\<open>SslStream::new\<close>: \<open>alloc\<close> tells whether \<open>BIO_new\<close> succeeds. The data of a new BIO is not null.\<close>

definition ssl_stream_new ::
    "bool \<Rightarrow> 's \<Rightarrow> 'w \<Rightarrow> err_queue \<Rightarrow> (error_stack + ('s, 'w) ssl_stream) \<times> err_queue" where
  "ssl_stream_new alloc s w q =
     (case bio_new alloc w q of
        (Inl es, q') \<Rightarrow> (Inl es, q')
      | (Inr raw, q') \<Rightarrow>
          (case raw_data raw of
             None \<Rightarrow> (Inl [], q')
           | Some b \<Rightarrow> (Inr \<lparr>ss_ssl = s, ss_queue = q', ss_bio = b\<rparr>, q')))"

abbreviation ss_get :: "('s, 'w) ssl_stream \<Rightarrow> 'w" where
  "ss_get st \<equiv> b_stream (ss_bio st)"

text \<open>\<open>get_mut\<close>: an update of the stream behind the BIO.\<close>

definition ss_with :: "('w \<Rightarrow> 'w) \<Rightarrow> ('s, 'w) ssl_stream \<Rightarrow> ('s, 'w) ssl_stream" where
  "ss_with f st = st\<lparr>ss_bio := (ss_bio st)\<lparr>b_stream := f (ss_get st)\<rparr>\<rparr>"

text \<open>One call of BoringSSL on the stream.\<close>

definition ss_call ::
    "'w stream_ops \<Rightarrow> ('s, 'w) ssl_stream \<Rightarrow> 's bio_prog \<Rightarrow> ('s, 'w) ssl_stream \<times> int \<times> byte list" where
  "ss_call W st p =
     (case run_bio W p (ss_bio st) of
        (b, r, d, s, q) \<Rightarrow> (st\<lparr>ss_ssl := s, ss_queue := q, ss_bio := b\<rparr>, r, d))"

definition ss_error_code :: "'s ssl_api \<Rightarrow> ('s, 'w) ssl_stream \<Rightarrow> int \<Rightarrow> error_code" where
  "ss_error_code E st r =
     e_get_error E (ss_ssl st) (ss_queue st) (b_retry_read (ss_bio st)) (b_retry_write (ss_bio st)) r"

definition get_bio_error :: "('s, 'w) ssl_stream \<Rightarrow> ('s, 'w) ssl_stream \<times> io_error option" where
  "get_bio_error st = (case take_error (ss_bio st) of (b, e) \<Rightarrow> (st\<lparr>ss_bio := b\<rparr>, e))"

text \<open>\<open>make_error\<close>: resumes a panic caught in a callback, else classifies the failure.\<close>

definition make_error ::
    "'s ssl_api \<Rightarrow> ('s, 'w) ssl_stream \<Rightarrow> int \<Rightarrow> (('s, 'w) ssl_stream \<times> ssl_error) comp" where
  "make_error E st0 r =
     (case take_panic (ss_bio st0) of
        (_, Some p) \<Rightarrow> panic p
      | (b, None) \<Rightarrow>
          (let st = st0\<lparr>ss_bio := b\<rparr>;
               code = ss_error_code E st r;
               from_bio = (case get_bio_error st of
                             (st1, e) \<Rightarrow> (st1, Ssl_Error code (map_option Inner_Io e)))
           in ret (case code of
                SSL \<Rightarrow> (case error_stack_get (ss_queue st) of
                          (es, q) \<Rightarrow> (st\<lparr>ss_queue := q\<rparr>, Ssl_Error code (Some (Inner_Ssl es))))
              | SYSCALL \<Rightarrow>
                  (case error_stack_get (ss_queue st) of
                     (es, q) \<Rightarrow>
                       if es = []
                       then (case get_bio_error (st\<lparr>ss_queue := q\<rparr>) of
                               (st1, e) \<Rightarrow> (st1, Ssl_Error code (map_option Inner_Io e)))
                       else (st\<lparr>ss_queue := q\<rparr>, Ssl_Error code (Some (Inner_Ssl es))))
              | WANT_READ \<Rightarrow> from_bio
              | WANT_WRITE \<Rightarrow> from_bio
              | _ \<Rightarrow> (st, Ssl_Error code None))))"

text \<open>The result of a call: its positive return value, or the error.\<close>

definition ss_finish ::
    "'s ssl_api \<Rightarrow> (int \<Rightarrow> 'a) \<Rightarrow> ('s, 'w) ssl_stream \<times> int
     \<Rightarrow> (('s, 'w) ssl_stream \<times> (ssl_error + 'a)) comp" where
  "ss_finish E f res =
     (case res of
        (st, r) \<Rightarrow>
          if 0 < r then ret (st, Inr (f r))
          else bindc (make_error E st r) (\<lambda>(st', e). ret (st', Inl e)))"

definition ssl_read_uninit ::
    "'s ssl_api \<Rightarrow> 'w stream_ops \<Rightarrow> ('s, 'w) ssl_stream \<Rightarrow> nat
     \<Rightarrow> (('s, 'w) ssl_stream \<times> (ssl_error + byte list)) comp" where
  "ssl_read_uninit E W st len =
     (if len = 0 then ret (st, Inr [])
      else case ss_call W st (e_read E (ss_ssl st) (ss_queue st) (min c_int_max len)) of
          (st', r, d) \<Rightarrow> ss_finish E (\<lambda>r. take (nat r) d) (st', r))"

definition ssl_write ::
    "'s ssl_api \<Rightarrow> 'w stream_ops \<Rightarrow> ('s, 'w) ssl_stream \<Rightarrow> byte list
     \<Rightarrow> (('s, 'w) ssl_stream \<times> (ssl_error + nat)) comp" where
  "ssl_write E W st buf =
     (if buf = [] then ret (st, Inr 0)
      else case ss_call W st (e_write E (ss_ssl st) (ss_queue st) (take c_int_max buf)) of
          (st', r, _) \<Rightarrow> ss_finish E nat (st', r))"

text \<open>\<open>read_uninit\<close> and \<open>Write::write\<close>, which retry a \<open>WANT_READ\<close> that no I/O error explains.\<close>

partial_function (option) read_uninit ::
    "'s ssl_api \<Rightarrow> 'w stream_ops \<Rightarrow> nat \<Rightarrow> ('s, 'w) ssl_stream
     \<Rightarrow> (('s, 'w) ssl_stream \<times> byte list io_result) comp" where
  "read_uninit E W len st =
     bindc (ssl_read_uninit E W st len)
       (\<lambda>(st', res). case res of
          Inr d \<Rightarrow> ret (st', Inr d)
        | Inl e \<Rightarrow>
            if ssl_code e = ZERO_RETURN then ret (st', Inr [])
            else if ssl_code e = SYSCALL \<and> ssl_io_error e = None then ret (st', Inr [])
            else if ssl_code e = WANT_READ \<and> ssl_io_error e = None then read_uninit E W len st'
            else ret (st', Inl (io_of_ssl e)))"

partial_function (option) ssl_stream_write ::
    "'s ssl_api \<Rightarrow> 'w stream_ops \<Rightarrow> byte list \<Rightarrow> ('s, 'w) ssl_stream
     \<Rightarrow> (('s, 'w) ssl_stream \<times> nat io_result) comp" where
  "ssl_stream_write E W buf st =
     bindc (ssl_write E W st buf)
       (\<lambda>(st', res). case res of
          Inr n \<Rightarrow> ret (st', Inr n)
        | Inl e \<Rightarrow>
            if ssl_code e = WANT_READ \<and> ssl_io_error e = None then ssl_stream_write E W buf st'
            else ret (st', Inl (io_of_ssl e)))"

text \<open>\<open>flush\<close> goes to the stream and not through BoringSSL.\<close>

definition ssl_stream_flush ::
    "'w stream_ops \<Rightarrow> ('s, 'w) ssl_stream \<Rightarrow> (('s, 'w) ssl_stream \<times> unit io_result) comp" where
  "ssl_stream_flush W st =
     (case s_flush W (ss_get st) of
        (w, Ret r) \<Rightarrow> ret (ss_with (\<lambda>_. w) st, r)
      | (_, Panic p) \<Rightarrow> panic p)"

datatype shutdown_result = Sent | Received

definition ssl_shutdown ::
    "'s ssl_api \<Rightarrow> 'w stream_ops \<Rightarrow> ('s, 'w) ssl_stream
     \<Rightarrow> (('s, 'w) ssl_stream \<times> (ssl_error + shutdown_result)) comp" where
  "ssl_shutdown E W st =
     (case ss_call W st (e_shutdown E (ss_ssl st) (ss_queue st)) of
        (st', r, _) \<Rightarrow>
          if r = 0 then ret (st', Inr Sent)
          else if r = 1 then ret (st', Inr Received)
          else bindc (make_error E st' r) (\<lambda>(st2, e). ret (st2, Inl e)))"

definition ssl_connect ::
    "'s ssl_api \<Rightarrow> 'w stream_ops \<Rightarrow> ('s, 'w) ssl_stream
     \<Rightarrow> (('s, 'w) ssl_stream \<times> (ssl_error + unit)) comp" where
  "ssl_connect E W st =
     (case ss_call W st (e_connect E (ss_ssl st) (ss_queue st)) of
        (st', r, _) \<Rightarrow> ss_finish E (\<lambda>_. ()) (st', r))"

definition ssl_accept ::
    "'s ssl_api \<Rightarrow> 'w stream_ops \<Rightarrow> ('s, 'w) ssl_stream
     \<Rightarrow> (('s, 'w) ssl_stream \<times> (ssl_error + unit)) comp" where
  "ssl_accept E W st =
     (case ss_call W st (e_accept E (ss_ssl st) (ss_queue st)) of
        (st', r, _) \<Rightarrow> ss_finish E (\<lambda>_. ()) (st', r))"

definition ssl_do_handshake ::
    "'s ssl_api \<Rightarrow> 'w stream_ops \<Rightarrow> ('s, 'w) ssl_stream
     \<Rightarrow> (('s, 'w) ssl_stream \<times> (ssl_error + unit)) comp" where
  "ssl_do_handshake E W st =
     (case ss_call W st (e_do_handshake E (ss_ssl st) (ss_queue st)) of
        (st', r, _) \<Rightarrow> ss_finish E (\<lambda>_. ()) (st', r))"

section \<open>Handshakes that may be interrupted\<close>

record ('s, 'w) mid_handshake =
  mh_stream :: "('s, 'w) ssl_stream"
  mh_error :: ssl_error

text \<open>
  \<open>MidHandshakeSslStream::handshake\<close> and \<open>SslStreamBuilder::handshake\<close>; the first replaces the error of
  the interrupted handshake, the second makes a new one.
\<close>

definition builder_handshake ::
    "'s ssl_api \<Rightarrow> 'w stream_ops \<Rightarrow> ('s, 'w) ssl_stream
     \<Rightarrow> (('s, 'w) mid_handshake handshake_error + ('s, 'w) ssl_stream) comp" where
  "builder_handshake E W st =
     (case ss_call W st (e_do_handshake E (ss_ssl st) (ss_queue st)) of
        (st', r, _) \<Rightarrow>
          if 0 < r then ret (Inr st')
          else bindc (make_error E st' r) (\<lambda>(st2, e).
            let m = \<lparr>mh_stream = st2, mh_error = e\<rparr>
            in ret (Inl (if would_block e then Would_Block m else Failure m))))"

definition mid_handshake ::
    "'s ssl_api \<Rightarrow> 'w stream_ops \<Rightarrow> ('s, 'w) mid_handshake
     \<Rightarrow> (('s, 'w) mid_handshake handshake_error + ('s, 'w) ssl_stream) comp" where
  "mid_handshake E W m =
     (case ss_call W (mh_stream m) (e_do_handshake E (ss_ssl (mh_stream m)) (ss_queue (mh_stream m))) of
        (st', r, _) \<Rightarrow>
          if 0 < r then ret (Inr st')
          else bindc (make_error E st' r) (\<lambda>(st2, e).
            let m' = m\<lparr>mh_stream := st2, mh_error := e\<rparr>
            in ret (Inl (if would_block (mh_error m') then Would_Block m' else Failure m'))))"

text \<open>\<open>SslStreamBuilder::new\<close> unwraps; \<open>setup_connect\<close> and \<open>setup_accept\<close> do not start the handshake.\<close>

definition builder_new ::
    "bool \<Rightarrow> 's \<Rightarrow> 'w \<Rightarrow> err_queue \<Rightarrow> ('s, 'w) ssl_stream comp" where
  "builder_new alloc s w q =
     (case fst (ssl_stream_new alloc s w q) of
        Inl _ \<Rightarrow> panic ''called `Result::unwrap()` on an `Err` value''
      | Inr st \<Rightarrow> ret st)"

definition not_started :: "error_code \<Rightarrow> string \<Rightarrow> ssl_error" where
  "not_started code msg = Ssl_Error code (Some (Inner_Io (Io_Error WouldBlock (Message msg))))"

definition setup_connect :: "'s ssl_api \<Rightarrow> ('s, 'w) ssl_stream \<Rightarrow> ('s, 'w) mid_handshake" where
  "setup_connect E st =
     \<lparr>mh_stream = st\<lparr>ss_ssl := e_set_connect_state E (ss_ssl st)\<rparr>,
      mh_error = not_started WANT_WRITE ''connect handshake has not started yet''\<rparr>"

definition setup_accept :: "'s ssl_api \<Rightarrow> ('s, 'w) ssl_stream \<Rightarrow> ('s, 'w) mid_handshake" where
  "setup_accept E st =
     \<lparr>mh_stream = st\<lparr>ss_ssl := e_set_accept_state E (ss_ssl st)\<rparr>,
      mh_error = not_started WANT_READ ''accept handshake has not started yet''\<rparr>"

text \<open>\<open>Ssl::connect\<close> and \<open>Ssl::accept\<close>.\<close>

definition connect ::
    "'s ssl_api \<Rightarrow> 'w stream_ops \<Rightarrow> bool \<Rightarrow> 's \<Rightarrow> 'w \<Rightarrow> err_queue
     \<Rightarrow> (('s, 'w) mid_handshake handshake_error + ('s, 'w) ssl_stream) comp" where
  "connect E W alloc s w q =
     bindc (builder_new alloc s w q) (\<lambda>st. mid_handshake E W (setup_connect E st))"

definition accept ::
    "'s ssl_api \<Rightarrow> 'w stream_ops \<Rightarrow> bool \<Rightarrow> 's \<Rightarrow> 'w \<Rightarrow> err_queue
     \<Rightarrow> (('s, 'w) mid_handshake handshake_error + ('s, 'w) ssl_stream) comp" where
  "accept E W alloc s w q =
     bindc (builder_new alloc s w q) (\<lambda>st. mid_handshake E W (setup_accept E st))"

section \<open>The contract of BoringSSL\<close>

text \<open>
  A call with a \<open>c_int\<close> result: the history stays true (\<open>prog_ok\<close>), a call that fails takes and
  returns no plaintext, and one that wants to read says so because a read failed. Without that, it
  is a retry of which the engine has finitely many left, \<open>v_retries\<close>.
\<close>

record 's engine_view = "'s view" +
  v_retries :: "'s \<Rightarrow> nat"

definition call_end ::
    "'s ssl_api \<Rightarrow> 's engine_view \<Rightarrow> 's \<Rightarrow> (int \<Rightarrow> byte list \<Rightarrow> 's \<Rightarrow> bool)
     \<Rightarrow> bool \<Rightarrow> int \<Rightarrow> byte list \<Rightarrow> 's \<Rightarrow> err_queue \<Rightarrow> bool" where
  "call_end E V s P stuck r d s' q' \<longleftrightarrow>
     (if 0 < r then P r d s'
      else v_taken V s' = v_taken V s \<and> v_opened V s' = v_opened V s \<and>
           ((\<exists>rr rw. e_get_error E s' q' rr rw r = WANT_READ) \<longrightarrow>
              stuck \<or> v_retries V s' < v_retries V s))"

definition call_ok ::
    "'s ssl_api \<Rightarrow> 's engine_view \<Rightarrow> 's \<Rightarrow> (int \<Rightarrow> byte list \<Rightarrow> 's \<Rightarrow> bool) \<Rightarrow> 's bio_prog \<Rightarrow> bool" where
  "call_ok E V s P p \<longleftrightarrow>
     prog_ok (view.truncate V) (call_end E V s P) p (v_sealed V s) (v_ingested V s) False"

definition no_plaintext :: "'s engine_view \<Rightarrow> 's \<Rightarrow> int \<Rightarrow> byte list \<Rightarrow> 's \<Rightarrow> bool" where
  "no_plaintext V s r d s' \<longleftrightarrow> v_taken V s' = v_taken V s \<and> v_opened V s' = v_opened V s"

definition same_history :: "'s engine_view \<Rightarrow> 's \<Rightarrow> 's \<Rightarrow> bool" where
  "same_history V s s' \<longleftrightarrow>
     v_sealed V s' = v_sealed V s \<and> v_taken V s' = v_taken V s \<and>
     v_ingested V s' = v_ingested V s \<and> v_opened V s' = v_opened V s"

text \<open>\<open>SSL_seal_app_data\<close>: see the header of the patch. Declining and failing hand out nothing.\<close>

definition seal_ok ::
    "'s engine_view \<Rightarrow> 's \<Rightarrow> byte list list \<Rightarrow> nat \<Rightarrow> nat
     \<Rightarrow> seal_result \<times> nat \<times> byte list \<times> 's \<times> err_queue \<Rightarrow> bool" where
  "seal_ok V s ivecs max_in room res \<longleftrightarrow>
     (case res of (result, n, out, s', q') \<Rightarrow>
        (case result of
           Seal_Success \<Rightarrow>
             n \<le> max_in \<and> n \<le> length (concat ivecs) \<and> length out \<le> room \<and>
             (0 < max_in \<and> concat ivecs \<noteq> [] \<longrightarrow> 0 < n) \<and>
             v_sealed V s' = v_sealed V s @ out \<and>
             v_taken V s' = v_taken V s @ take n (concat ivecs) \<and>
             v_ingested V s' = v_ingested V s \<and> v_opened V s' = v_opened V s
         | _ \<Rightarrow> same_history V s s'))"

definition engine_ok :: "'s ssl_api \<Rightarrow> 's engine_view \<Rightarrow> bool" where
  "engine_ok E V \<longleftrightarrow>
     (\<forall>s q. call_ok E V s (no_plaintext V s) (e_connect E s q) \<and>
            call_ok E V s (no_plaintext V s) (e_accept E s q) \<and>
            call_ok E V s (no_plaintext V s) (e_do_handshake E s q) \<and>
            call_ok E V s (no_plaintext V s) (e_shutdown E s q)) \<and>
     (\<forall>s q n. 0 < n \<and> n \<le> c_int_max \<longrightarrow>
        call_ok E V s
          (\<lambda>r d s'. int (length d) = r \<and> length d \<le> n \<and> v_taken V s' = v_taken V s \<and>
                    v_opened V s' = v_opened V s @ d)
          (e_read E s q n)) \<and>
     (\<forall>s q buf. buf \<noteq> [] \<and> length buf \<le> c_int_max \<longrightarrow>
        call_ok E V s
          (\<lambda>r d s'. nat r \<le> length buf \<and> v_opened V s' = v_opened V s \<and>
                    v_taken V s' = v_taken V s @ take (nat r) buf)
          (e_write E s q buf)) \<and>
     (\<forall>s q ivecs max_in room. seal_ok V s ivecs max_in room (e_seal E s q ivecs max_in room)) \<and>
     (\<forall>s m. same_history V s (e_set_mode E s m)) \<and>
     (\<forall>s. same_history V s (e_set_connect_state E s) \<and> same_history V s (e_set_accept_state E s))"

section \<open>Lemmas\<close>

lemma truncate_view_simps [simp]:
  "v_sealed (view.truncate V) = v_sealed V" "v_ingested (view.truncate V) = v_ingested V"
  by (simp_all add: view.truncate_def)

lemma ss_with_simps [simp]:
  "ss_get (ss_with f st) = f (ss_get st)" "ss_ssl (ss_with f st) = ss_ssl st"
  "b_panic (ss_bio (ss_with f st)) = b_panic (ss_bio st)" "ss_queue (ss_with f st) = ss_queue st"
  by (simp_all add: ss_with_def)

text \<open>\<open>make_error\<close> touches only the error queue and the stored error, and reports the latter.\<close>

lemma make_error:
  assumes "b_panic (ss_bio st) = None"
  obtains st' e where "make_error E st r = ret (st', e)" and "ss_ssl st' = ss_ssl st"
    and "ss_get st' = ss_get st" and "b_panic (ss_bio st') = None"
    and "ssl_code e = ss_error_code E st r"
    and "ssl_code e = WANT_READ \<or> ssl_code e = WANT_WRITE \<longrightarrow> ssl_io_error e = b_error (ss_bio st)"
    and "\<forall>i. ssl_io_error e = Some i \<longrightarrow> b_error (ss_bio st) = Some i"
proof -
  have b: "take_panic (ss_bio st) = (ss_bio st, None)"
    using assms by (simp add: take_panic_def)
  have "\<exists>st' e. make_error E st r = ret (st', e) \<and> ss_ssl st' = ss_ssl st \<and> ss_get st' = ss_get st \<and>
      b_panic (ss_bio st') = None \<and> ssl_code e = ss_error_code E st r \<and>
      (ssl_code e = WANT_READ \<or> ssl_code e = WANT_WRITE \<longrightarrow> ssl_io_error e = b_error (ss_bio st)) \<and>
      (\<forall>i. ssl_io_error e = Some i \<longrightarrow> b_error (ss_bio st) = Some i)"
    by (cases "ss_error_code E st r")
      (auto simp: make_error_def b Let_def get_bio_error_def take_error_def ssl_io_error_def assms
        split: prod.splits option.splits)
  with that show thesis by blast
qed

text \<open>The invariant of a live stream: history and streams agree, and no panic is pending.\<close>

definition ss_ok ::
    "('w \<Rightarrow> bool) \<Rightarrow> ('w \<Rightarrow> byte list) \<Rightarrow> ('w \<Rightarrow> byte list) \<Rightarrow> 's engine_view \<Rightarrow> ('s, 'w) ssl_stream \<Rightarrow> bool"
  where
  "ss_ok live outbox inbox V st \<longleftrightarrow>
     live (ss_get st) \<and> v_sealed V (ss_ssl st) = outbox (ss_get st) \<and>
     v_ingested V (ss_ssl st) = inbox (ss_get st) \<and> b_panic (ss_bio st) = None"

lemma engine_okD:
  assumes "engine_ok E V"
  shows "call_ok E V s (no_plaintext V s) (e_connect E s q)"
    and "call_ok E V s (no_plaintext V s) (e_accept E s q)"
    and "call_ok E V s (no_plaintext V s) (e_do_handshake E s q)"
    and "call_ok E V s (no_plaintext V s) (e_shutdown E s q)"
    and "0 < n \<Longrightarrow> n \<le> c_int_max \<Longrightarrow>
        call_ok E V s
          (\<lambda>r d s'. int (length d) = r \<and> length d \<le> n \<and> v_taken V s' = v_taken V s \<and>
                    v_opened V s' = v_opened V s @ d)
          (e_read E s q n)"
    and "buf \<noteq> [] \<Longrightarrow> length buf \<le> c_int_max \<Longrightarrow>
        call_ok E V s
          (\<lambda>r d s'. nat r \<le> length buf \<and> v_opened V s' = v_opened V s \<and>
                    v_taken V s' = v_taken V s @ take (nat r) buf)
          (e_write E s q buf)"
    and "seal_ok V s ivecs max_in room (e_seal E s q ivecs max_in room)"
  using assms unfolding engine_ok_def by blast+

context bio_stream
begin

lemma call:
  assumes "ss_ok live outbox inbox V st" and "call_ok E V (ss_ssl st) P p" and "ss_call W st p = (st', r, d)"
  shows "ss_ok live outbox inbox V st' \<and> keep (ss_get st') = keep (ss_get st) \<and>
         (\<exists>stuck. (stuck \<longrightarrow> b_error (ss_bio st') \<noteq> None) \<and>
                  call_end E V (ss_ssl st) P stuck r d (ss_ssl st') (ss_queue st'))"
proof -
  obtain b s q where run: "run_bio W p (ss_bio st) = (b, r, d, s, q)"
    and st': "st' = st\<lparr>ss_ssl := s, ss_queue := q, ss_bio := b\<rparr>"
    using assms(3) by (auto simp: ss_call_def split: prod.splits)
  have "prog_ok (view.truncate V) (call_end E V (ss_ssl st) P) p
          (outbox (ss_get st)) (inbox (ss_get st)) False" and "live (ss_get st)"
    using assms(1,2) by (simp_all add: call_ok_def ss_ok_def)
  from bio_stream.run [OF bio_stream_axioms run this(2,1)] assms(1) show ?thesis
    by (simp add: st' ss_ok_def)
qed

lemma finish:
  assumes "ss_ok live outbox inbox V st" and "call_ok E V (ss_ssl st) P p" and "ss_call W st p = (st', r, d)"
  obtains st2 res where "ss_finish E f (st', r) = ret (st2, res)" and "ss_ok live outbox inbox V st2"
    and "keep (ss_get st2) = keep (ss_get st)"
    and "case res of
           Inr x \<Rightarrow> 0 < r \<and> x = f r \<and> P r d (ss_ssl st2)
         | Inl e \<Rightarrow> no_plaintext V (ss_ssl st) 0 [] (ss_ssl st2) \<and>
             (ssl_code e = WANT_READ \<and> ssl_io_error e = None \<longrightarrow>
                v_retries V (ss_ssl st2) < v_retries V (ss_ssl st))"
proof -
  from call [OF assms] obtain stuck where ok: "ss_ok live outbox inbox V st'"
    "keep (ss_get st') = keep (ss_get st)" "stuck \<longrightarrow> b_error (ss_bio st') \<noteq> None"
    "call_end E V (ss_ssl st) P stuck r d (ss_ssl st') (ss_queue st')" by blast
  show thesis
  proof (cases "0 < r")
    case True
    with ok that [of st' "Inr (f r)"] show thesis by (simp add: ss_finish_def call_end_def)
  next
    case False
    from ok(1) have "b_panic (ss_bio st') = None" by (simp add: ss_ok_def)
    then obtain st2 e where e: "make_error E st' r = ret (st2, e)" "ss_ssl st2 = ss_ssl st'"
      "ss_get st2 = ss_get st'" "b_panic (ss_bio st2) = None" "ssl_code e = ss_error_code E st' r"
      "ssl_code e = WANT_READ \<or> ssl_code e = WANT_WRITE \<longrightarrow> ssl_io_error e = b_error (ss_bio st')"
      "\<forall>i. ssl_io_error e = Some i \<longrightarrow> b_error (ss_bio st') = Some i"
      by (rule make_error [where E = E and r = r])
    have failed: "v_taken V (ss_ssl st') = v_taken V (ss_ssl st)"
      "v_opened V (ss_ssl st') = v_opened V (ss_ssl st)"
      "(\<exists>rr rw. e_get_error E (ss_ssl st') (ss_queue st') rr rw r = WANT_READ) \<longrightarrow>
         stuck \<or> v_retries V (ss_ssl st') < v_retries V (ss_ssl st)"
      using ok(4) False by (simp_all add: call_end_def)
    have retry: "v_retries V (ss_ssl st') < v_retries V (ss_ssl st)"
      if code: "ssl_code e = WANT_READ" "ssl_io_error e = None"
    proof -
      have "\<exists>rr rw. e_get_error E (ss_ssl st') (ss_queue st') rr rw r = WANT_READ"
        using code(1) e(5) unfolding ss_error_code_def by metis
      moreover have "\<not> stuck" using code e(6) ok(3) by simp
      ultimately show ?thesis using failed(3) by blast
    qed
    have "ss_finish E f (st', r) = ret (st2, Inl e)" using e(1) False by (simp add: ss_finish_def)
    moreover have "ss_ok live outbox inbox V st2" using ok(1) e(2-4) by (simp add: ss_ok_def)
    ultimately show thesis
      using that [of st2 "Inl e"] e(2,3) ok(2) failed(1,2) retry by (simp add: no_plaintext_def)
  qed
qed

lemma handshake_call:
  assumes "ss_ok live outbox inbox V st" and "call_ok E V (ss_ssl st) (no_plaintext V (ss_ssl st)) p"
  obtains st2 res where
    "(case ss_call W st p of (st', r, d) \<Rightarrow> ss_finish E f (st', r)) = ret (st2, res)"
    and "ss_ok live outbox inbox V st2" and "keep (ss_get st2) = keep (ss_get st)"
    and "no_plaintext V (ss_ssl st) 0 [] (ss_ssl st2)"
proof -
  obtain st' r d where c: "ss_call W st p = (st', r, d)" by (cases "ss_call W st p")
  from finish [OF assms c, of f] obtain st2 res where
    "ss_finish E f (st', r) = ret (st2, res)" "ss_ok live outbox inbox V st2"
    "keep (ss_get st2) = keep (ss_get st)"
    "case res of Inr x \<Rightarrow> 0 < r \<and> x = f r \<and> no_plaintext V (ss_ssl st) r d (ss_ssl st2)
       | Inl e \<Rightarrow> no_plaintext V (ss_ssl st) 0 [] (ss_ssl st2) \<and>
           (ssl_code e = WANT_READ \<and> ssl_io_error e = None \<longrightarrow>
              v_retries V (ss_ssl st2) < v_retries V (ss_ssl st))" .
  moreover from this(4) have "no_plaintext V (ss_ssl st) 0 [] (ss_ssl st2)"
    by (cases res) (simp_all add: no_plaintext_def)
  ultimately show thesis using c that by simp
qed

lemma read_once:
  assumes "ss_ok live outbox inbox V st" and "engine_ok E V"
  obtains st2 res where "ssl_read_uninit E W st len = ret (st2, res)" and "ss_ok live outbox inbox V st2"
    and "keep (ss_get st2) = keep (ss_get st)" and "v_taken V (ss_ssl st2) = v_taken V (ss_ssl st)"
    and "case res of
           Inr d \<Rightarrow> length d \<le> len \<and> (0 < len \<longrightarrow> d \<noteq> []) \<and>
                    v_opened V (ss_ssl st2) = v_opened V (ss_ssl st) @ d
         | Inl e \<Rightarrow> v_opened V (ss_ssl st2) = v_opened V (ss_ssl st) \<and>
             (ssl_code e = WANT_READ \<and> ssl_io_error e = None \<longrightarrow>
                v_retries V (ss_ssl st2) < v_retries V (ss_ssl st))"
proof (cases "len = 0")
  case True
  with assms that [of st "Inr []"] show thesis by (simp add: ssl_read_uninit_def)
next
  case False
  let ?p = "e_read E (ss_ssl st) (ss_queue st) (min c_int_max len)"
  have "0 < min c_int_max len" using False by (simp add: c_int_max_def)
  note p = engine_okD(5) [OF assms(2) this, of "ss_ssl st" "ss_queue st"]
  obtain st' r d where c: "ss_call W st ?p = (st', r, d)" by (cases "ss_call W st ?p")
  from finish [OF assms(1) p c, of "\<lambda>r. take (nat r) d"] obtain st2 res where
    res: "ss_finish E (\<lambda>r. take (nat r) d) (st', r) = ret (st2, res)" "ss_ok live outbox inbox V st2"
    "keep (ss_get st2) = keep (ss_get st)"
    "case res of
       Inr x \<Rightarrow> 0 < r \<and> x = take (nat r) d \<and> int (length d) = r \<and> length d \<le> min c_int_max len \<and>
          v_taken V (ss_ssl st2) = v_taken V (ss_ssl st) \<and>
          v_opened V (ss_ssl st2) = v_opened V (ss_ssl st) @ d
     | Inl e \<Rightarrow> no_plaintext V (ss_ssl st) 0 [] (ss_ssl st2) \<and>
         (ssl_code e = WANT_READ \<and> ssl_io_error e = None \<longrightarrow>
            v_retries V (ss_ssl st2) < v_retries V (ss_ssl st))"
    by auto
  then show thesis
    using c False by (intro that [of st2 res])
      (auto simp: ssl_read_uninit_def no_plaintext_def split: sum.splits)
qed

lemma write_once:
  assumes "ss_ok live outbox inbox V st" and "engine_ok E V"
  obtains st2 res where "ssl_write E W st buf = ret (st2, res)" and "ss_ok live outbox inbox V st2"
    and "keep (ss_get st2) = keep (ss_get st)" and "v_opened V (ss_ssl st2) = v_opened V (ss_ssl st)"
    and "case res of
           Inr n \<Rightarrow> n \<le> length buf \<and> (buf \<noteq> [] \<longrightarrow> 0 < n) \<and>
                    v_taken V (ss_ssl st2) = v_taken V (ss_ssl st) @ take n buf
         | Inl e \<Rightarrow> v_taken V (ss_ssl st2) = v_taken V (ss_ssl st) \<and>
             (ssl_code e = WANT_READ \<and> ssl_io_error e = None \<longrightarrow>
                v_retries V (ss_ssl st2) < v_retries V (ss_ssl st))"
proof (cases "buf = []")
  case True
  with assms that [of st "Inr 0"] show thesis by (simp add: ssl_write_def)
next
  case False
  let ?b = "take c_int_max buf"
  let ?p = "e_write E (ss_ssl st) (ss_queue st) ?b"
  have "?b \<noteq> []" "length ?b \<le> c_int_max" using False by (auto simp: c_int_max_def)
  note p = engine_okD(6) [OF assms(2) this, of "ss_ssl st" "ss_queue st"]
  obtain st' r d where c: "ss_call W st ?p = (st', r, d)" by (cases "ss_call W st ?p")
  from finish [OF assms(1) p c, of nat] obtain st2 res where
    res: "ss_finish E nat (st', r) = ret (st2, res)" "ss_ok live outbox inbox V st2"
    "keep (ss_get st2) = keep (ss_get st)"
    "case res of
       Inr x \<Rightarrow> 0 < r \<and> x = nat r \<and> nat r \<le> length ?b \<and>
          v_opened V (ss_ssl st2) = v_opened V (ss_ssl st) \<and>
          v_taken V (ss_ssl st2) = v_taken V (ss_ssl st) @ take (nat r) ?b
     | Inl e \<Rightarrow> no_plaintext V (ss_ssl st) 0 [] (ss_ssl st2) \<and>
         (ssl_code e = WANT_READ \<and> ssl_io_error e = None \<longrightarrow>
            v_retries V (ss_ssl st2) < v_retries V (ss_ssl st))"
    by auto
  then show thesis
    using c False by (intro that [of st2 res])
      (auto simp: ssl_write_def no_plaintext_def min_absorb1 split: sum.splits)
qed

text \<open>The retry loops return: each pass uses up one of the engine's retries.\<close>

lemma read_uninit_ok:
  assumes "ss_ok live outbox inbox V st" and "engine_ok E V"
  shows "\<exists>st2 res. read_uninit E W len st = ret (st2, res) \<and> ss_ok live outbox inbox V st2 \<and>
           keep (ss_get st2) = keep (ss_get st) \<and> v_taken V (ss_ssl st2) = v_taken V (ss_ssl st) \<and>
           (case res of
              Inr d \<Rightarrow> length d \<le> len \<and> v_opened V (ss_ssl st2) = v_opened V (ss_ssl st) @ d
            | Inl e \<Rightarrow> v_opened V (ss_ssl st2) = v_opened V (ss_ssl st))"
  using assms(1)
proof (induction "v_retries V (ss_ssl st)" arbitrary: st rule: less_induct)
  case less
  from read_once [OF less.prems assms(2), of len] obtain st1 r where
    one: "ssl_read_uninit E W st len = ret (st1, r)" "ss_ok live outbox inbox V st1"
    "keep (ss_get st1) = keep (ss_get st)" "v_taken V (ss_ssl st1) = v_taken V (ss_ssl st)"
    and r: "case r of
       Inr d \<Rightarrow> length d \<le> len \<and> (0 < len \<longrightarrow> d \<noteq> []) \<and>
                v_opened V (ss_ssl st1) = v_opened V (ss_ssl st) @ d
     | Inl e \<Rightarrow> v_opened V (ss_ssl st1) = v_opened V (ss_ssl st) \<and>
         (ssl_code e = WANT_READ \<and> ssl_io_error e = None \<longrightarrow>
            v_retries V (ss_ssl st1) < v_retries V (ss_ssl st))" .
  show ?case
  proof (cases "\<exists>e. r = Inl e \<and> ssl_code e = WANT_READ \<and> ssl_io_error e = None")
    case True
    with r have "v_retries V (ss_ssl st1) < v_retries V (ss_ssl st)"
      and same: "v_opened V (ss_ssl st1) = v_opened V (ss_ssl st)" by auto
    from less.hyps [OF this(1) one(2), unfolded same one(3,4)] True one(1) show ?thesis
      by (auto simp: read_uninit.simps [of E W len st])
  next
    case False
    with one r show ?thesis
      by (cases r) (auto simp: read_uninit.simps [of E W len st])
  qed
qed

lemma write_ok:
  assumes "ss_ok live outbox inbox V st" and "engine_ok E V"
  shows "\<exists>st2 res. ssl_stream_write E W buf st = ret (st2, res) \<and> ss_ok live outbox inbox V st2 \<and>
           keep (ss_get st2) = keep (ss_get st) \<and> v_opened V (ss_ssl st2) = v_opened V (ss_ssl st) \<and>
           (case res of
              Inr n \<Rightarrow> n \<le> length buf \<and> (buf \<noteq> [] \<longrightarrow> 0 < n) \<and>
                       v_taken V (ss_ssl st2) = v_taken V (ss_ssl st) @ take n buf
            | Inl e \<Rightarrow> v_taken V (ss_ssl st2) = v_taken V (ss_ssl st))"
  using assms(1)
proof (induction "v_retries V (ss_ssl st)" arbitrary: st rule: less_induct)
  case less
  from write_once [OF less.prems assms(2), of buf] obtain st1 r where
    one: "ssl_write E W st buf = ret (st1, r)" "ss_ok live outbox inbox V st1"
    "keep (ss_get st1) = keep (ss_get st)" "v_opened V (ss_ssl st1) = v_opened V (ss_ssl st)"
    and r: "case r of
       Inr n \<Rightarrow> n \<le> length buf \<and> (buf \<noteq> [] \<longrightarrow> 0 < n) \<and>
                v_taken V (ss_ssl st1) = v_taken V (ss_ssl st) @ take n buf
     | Inl e \<Rightarrow> v_taken V (ss_ssl st1) = v_taken V (ss_ssl st) \<and>
         (ssl_code e = WANT_READ \<and> ssl_io_error e = None \<longrightarrow>
            v_retries V (ss_ssl st1) < v_retries V (ss_ssl st))" .
  show ?case
  proof (cases "\<exists>e. r = Inl e \<and> ssl_code e = WANT_READ \<and> ssl_io_error e = None")
    case True
    with r have "v_retries V (ss_ssl st1) < v_retries V (ss_ssl st)"
      and same: "v_taken V (ss_ssl st1) = v_taken V (ss_ssl st)" by auto
    from less.hyps [OF this(1) one(2), unfolded same one(3,4)] True one(1) show ?thesis
      by (auto simp: ssl_stream_write.simps [of E W buf st])
  next
    case False
    with one r show ?thesis
      by (cases r) (auto simp: ssl_stream_write.simps [of E W buf st])
  qed
qed

lemma flush_ok:
  assumes "ss_ok live outbox inbox V st"
  shows "\<exists>w x. s_flush W (ss_get st) = (w, Ret x) \<and>
           ssl_stream_flush W st = ret (ss_with (\<lambda>_. w) st, x) \<and>
           ss_ok live outbox inbox V (ss_with (\<lambda>_. w) st) \<and> keep w = keep (ss_get st)"
proof -
  obtain w r where f: "s_flush W (ss_get st) = (w, r)" by (cases "s_flush W (ss_get st)")
  have "live (ss_get st)" using assms by (simp add: ss_ok_def)
  from s_flush_law [OF this f] f assms show ?thesis
    by (auto simp: ssl_stream_flush_def ss_ok_def)
qed

lemma shutdown_ok:
  assumes "ss_ok live outbox inbox V st" and "engine_ok E V"
  obtains st2 res where "ssl_shutdown E W st = ret (st2, res)" and "ss_ok live outbox inbox V st2"
    and "keep (ss_get st2) = keep (ss_get st)" and "no_plaintext V (ss_ssl st) 0 [] (ss_ssl st2)"
proof -
  let ?p = "e_shutdown E (ss_ssl st) (ss_queue st)"
  obtain st' r d where c: "ss_call W st ?p = (st', r, d)" by (cases "ss_call W st ?p")
  from call [OF assms(1) engine_okD(4) [OF assms(2)] c] obtain stuck where
    ok: "ss_ok live outbox inbox V st'" "keep (ss_get st') = keep (ss_get st)"
    and "call_end E V (ss_ssl st) (no_plaintext V (ss_ssl st)) stuck r d (ss_ssl st') (ss_queue st')"
    by blast
  then have n: "no_plaintext V (ss_ssl st) 0 [] (ss_ssl st')"
    by (auto simp: call_end_def no_plaintext_def split: if_splits)
  show thesis
  proof (cases "r = 0 \<or> r = 1")
    case True
    with ok n c that [of st' "Inr (if r = 0 then Sent else Received)"] show thesis
      by (auto simp: ssl_shutdown_def)
  next
    case False
    from ok(1) have "b_panic (ss_bio st') = None" by (simp add: ss_ok_def)
    then obtain st2 e where e: "make_error E st' r = ret (st2, e)" "ss_ssl st2 = ss_ssl st'"
      "ss_get st2 = ss_get st'" "b_panic (ss_bio st2) = None" "ssl_code e = ss_error_code E st' r"
      "ssl_code e = WANT_READ \<or> ssl_code e = WANT_WRITE \<longrightarrow> ssl_io_error e = b_error (ss_bio st')"
      "\<forall>i. ssl_io_error e = Some i \<longrightarrow> b_error (ss_bio st') = Some i"
      by (rule make_error [where E = E and r = r])
    with ok n c False that [of st2 "Inl e"] show thesis
      by (simp add: ssl_shutdown_def ss_ok_def)
  qed
qed

end

end
