(* ===== verification/Tls_Stream.thy ===== *)
theory Tls_Stream
  imports Packer Wrapper Ssl_Stream
begin

text \<open>
  The asynchronous \<open>SslStream<S>\<close> of \<open>tokio-btls/src/lib.rs\<close>: polls of a connection whose BIO stream is a
  \<open>StreamWrapper\<close>, and the three ways a write seals its plaintext.

  A poll that panics is \<open>panic\<close>, without the state it leaves behind.
\<close>

section \<open>Helpers\<close>

type_synonym ('s, 't) tls = "('s, 't wrapper) ssl_stream"

text \<open>\<open>cvt\<close> and \<open>cvt_ossl\<close>: errors that mean "later" become \<open>Pending\<close>.\<close>

definition cvt_io :: "'a io_result \<Rightarrow> 'a io_result poll" where
  "cvt_io r =
     (case r of
        Inr v \<Rightarrow> Ready (Inr v)
      | Inl e \<Rightarrow> if io_kind e = WouldBlock then Pending else Ready (Inl e))"

definition cvt_ossl :: "(ssl_error + 'a) \<Rightarrow> (ssl_error + 'a) poll" where
  "cvt_ossl r =
     (case r of
        Inr v \<Rightarrow> Ready (Inr v)
      | Inl e \<Rightarrow> if ssl_code e = WANT_READ \<or> ssl_code e = WANT_WRITE then Pending else Ready (Inl e))"

definition closed_by_alert :: "'s ssl_api \<Rightarrow> ssl_error \<Rightarrow> bool" where
  "closed_by_alert E e =
     (case ssl_stack e of
        None \<Rightarrow> False
      | Some errs \<Rightarrow>
          list_ex (\<lambda>err. library_reason err (ERR_LIB_SSL E) = Some (SSL_R_PROTOCOL_IS_SHUTDOWN E)) errs)"

definition seal_budget :: "nat \<Rightarrow> nat \<Rightarrow> nat \<Rightarrow> nat \<Rightarrow> nat \<Rightarrow> nat" where
  "seal_budget fragment overhead pending buffered total_len =
     (let room = (WRITE_BUF_CAPACITY - buffered) - pending;
          records = max (div_ceil room (max (sat_add fragment overhead) 1)) 1;
          cap = sat_mul records fragment
      in if total_len - cap \<le> MAX_RECORD then total_len else cap)"

definition set_context :: "nat \<Rightarrow> ('s, 't) tls \<Rightarrow> ('s, 't) tls" where
  "set_context cx = ss_with (\<lambda>w. w\<lparr>sw_transport := (sw_transport w)\<lparr>tr_context := cx\<rparr>\<rparr>)"

definition with_context ::
    "nat \<Rightarrow> (('s, 't) tls \<Rightarrow> (('s, 't) tls \<times> 'r) comp) \<Rightarrow> ('s, 't) tls \<Rightarrow> (('s, 't) tls \<times> 'r) comp" where
  "with_context cx f st =
     bindc (f (set_context cx st)) (\<lambda>(st', r). ret (set_context 0 st', r))"

definition set_write_buf :: "write_buffer \<Rightarrow> ('s, 't) tls \<Rightarrow> ('s, 't) tls" where
  "set_write_buf wb = ss_with (\<lambda>w. w\<lparr>sw_write_buf := wb\<rparr>)"

definition set_io :: "'t transport \<Rightarrow> write_buffer \<Rightarrow> ('s, 't) tls \<Rightarrow> ('s, 't) tls" where
  "set_io tr wb = ss_with (\<lambda>w. w\<lparr>sw_transport := tr, sw_write_buf := wb\<rparr>)"

definition set_ssl :: "'s \<Rightarrow> err_queue \<Rightarrow> ('s, 't) tls \<Rightarrow> ('s, 't) tls" where
  "set_ssl s q st = st\<lparr>ss_ssl := s, ss_queue := q\<rparr>"

abbreviation tls_transport :: "('s, 't) tls \<Rightarrow> 't transport" where
  "tls_transport st \<equiv> sw_transport (ss_get st)"

abbreviation tls_write_buf :: "('s, 't) tls \<Rightarrow> write_buffer" where
  "tls_write_buf st \<equiv> sw_write_buf (ss_get st)"

text \<open>\<open>SslStream::new\<close> of \<open>tokio-btls\<close>.\<close>

definition tls_new ::
    "'s ssl_api \<Rightarrow> bool \<Rightarrow> 's \<Rightarrow> 't \<Rightarrow> err_queue \<Rightarrow> (error_stack + ('s, 't) tls) \<times> err_queue" where
  "tls_new E alloc s t q =
     ssl_stream_new alloc (e_set_mode E s (ENABLE_PARTIAL_WRITE E)) (wrapper_new t) q"

section \<open>Sealing a write\<close>

text \<open>\<open>WriteBuffer::seal\<close>; the slice \<open>[..max_out]\<close> of the spare capacity panics if it is too short.\<close>

definition wb_seal ::
    "'s ssl_api \<Rightarrow> 's \<Rightarrow> err_queue \<Rightarrow> write_buffer \<Rightarrow> seal_limits \<Rightarrow> byte list list \<Rightarrow> nat
     \<Rightarrow> write_buffer \<times> 's \<times> err_queue \<times> nat option io_result outcome" where
  "wb_seal E s q wb limits bufs total_len =
     (let budget = seal_budget (max_fragment limits) (record_overhead limits) (pending_len limits)
                     (wb_len wb) total_len
      in case sealed_len limits budget of
           None \<Rightarrow> (wb, s, q, Ret (Inr None))
         | Some max_out \<Rightarrow>
             (let wb1 = wb_make_room wb max_out;
                  v = wb_bytes wb1
              in if capacity v - vec_len v < max_out
                 then (wb1, s, q, Panic ''range end index out of range'')
                 else case seal_app_data E s q bufs budget max_out of
                     (s', q', Inl es) \<Rightarrow> (wb1, s', q', Ret (Inl (io_other (ssl_from_stack es))))
                   | (s', q', Inr None) \<Rightarrow> (wb1, s', q', Ret (Inr None))
                   | (s', q', Inr (Some (sl, out))) \<Rightarrow>
                       (wb1\<lparr>wb_bytes := vec_set_filled v out\<rparr>, s', q', Ret (Inr (Some (consumed sl))))))"

text \<open>\<open>seal_on_stack\<close>: at most one record and the pending flight, sealed into a stack buffer.\<close>

definition seal_on_stack ::
    "'s ssl_api \<Rightarrow> 't async_ops \<Rightarrow> byte list list \<Rightarrow> nat \<Rightarrow> ('s, 't) tls
     \<Rightarrow> (('s, 't) tls \<times> nat option io_result) comp" where
  "seal_on_stack E T bufs total_len st =
     (case seal_app_data E (ss_ssl st) (ss_queue st) bufs total_len SEAL_STACK_LEN of
        (s, q, Inl es) \<Rightarrow> ret (set_ssl s q st, Inl (io_other (ssl_from_stack es)))
      | (s, q, Inr None) \<Rightarrow> ret (set_ssl s q st, Inr None)
      | (s, q, Inr (Some (sl, records))) \<Rightarrow>
          (let st1 = set_ssl s q st;
               wb = tls_write_buf st1
           in if consumed sl < total_len
              then ret (set_write_buf (wb_push wb records) st1, Inr (Some (consumed sl)))
              else case wb_write_last T (tls_transport st1) wb records of
                  (tr, wb', Ret _) \<Rightarrow> ret (set_io tr wb' st1, Inr (Some (consumed sl)))
                | (_, _, Panic p) \<Rightarrow> panic p))"

text \<open>
  The loop of \<open>ssl_write_records\<close>: one \<open>SSL_write\<close> per packed record. Returns what was written and the
  error that ended it, if one did.
\<close>

partial_function (option) seal_records ::
    "'s ssl_api \<Rightarrow> 't async_ops \<Rightarrow> nat \<Rightarrow> packer \<Rightarrow> bool \<Rightarrow> nat \<Rightarrow> ('s, 't) tls
     \<Rightarrow> (('s, 't) tls \<times> nat \<times> io_error option) comp" where
  "seal_records E T total_len p through already st =
     bindc (indexed (packer_next_record p))
       (\<lambda>(p1, rec). case rec of
          None \<Rightarrow> ret (st, already, None)
        | Some plaintext \<Rightarrow>
            bindc (ssl_stream_write E (wrapper_ops T) plaintext
                     (ss_with (\<lambda>w. w\<lparr>sw_write_through :=
                        through \<and> total_len \<le> sat_add already (length plaintext)\<rparr>) st))
              (\<lambda>(st1, r). case r of
                 Inl e \<Rightarrow> ret (st1, already, Some e)
               | Inr n \<Rightarrow>
                   bindc (indexed (packer_advance (if n < length plaintext then p1\<lparr>pk_limit := n\<rparr> else p1) n))
                     (\<lambda>p2. if wb_is_full (tls_write_buf st1) \<and> MAX_RECORD < total_len - (already + n)
                       then ret (st1, already + n, None)
                       else seal_records E T total_len p2
                              (if n < length plaintext then False else through) (already + n) st1)))"

text \<open>\<open>drain_unless_blocked\<close> on the stream.\<close>

definition tls_drain_unless_blocked ::
    "'t async_ops \<Rightarrow> ('s, 't) tls \<Rightarrow> ('s, 't) tls comp" where
  "tls_drain_unless_blocked T st =
     (case wb_drain_unless_blocked T (tls_transport st) (tls_write_buf st) of
        (tr, wb, Ret _) \<Rightarrow> ret (set_io tr wb st)
      | (_, _, Panic p) \<Rightarrow> panic p)"

definition ssl_write_records ::
    "'s ssl_api \<Rightarrow> 't async_ops \<Rightarrow> byte list list \<Rightarrow> nat \<Rightarrow> ('s, 't) tls
     \<Rightarrow> (('s, 't) tls \<times> nat io_result) comp" where
  "ssl_write_records E T bufs total_len st =
     bindc (seal_records E T total_len (packer_new bufs) True 0
              (set_write_buf (wb_reserve (tls_write_buf st) total_len) st))
       (\<lambda>(st1, n, err).
          bindc (tls_drain_unless_blocked T (ss_with (\<lambda>w. w\<lparr>sw_write_through := False\<rparr>) st1))
            (\<lambda>st2. ret (st2, case err of Some e \<Rightarrow> if n = 0 then Inl e else Inr n | None \<Rightarrow> Inr n)))"

text \<open>\<open>write_buffered\<close>: the buffer is moved out of the stream while BoringSSL seals into it.\<close>

definition write_buffered ::
    "'s ssl_api \<Rightarrow> 't async_ops \<Rightarrow> byte list list \<Rightarrow> nat \<Rightarrow> ('s, 't) tls
     \<Rightarrow> (('s, 't) tls \<times> nat io_result) comp" where
  "write_buffered E T bufs total_len st =
     (case seal_app_data_limits E (ss_ssl st) of
        None \<Rightarrow> ssl_write_records E T bufs total_len st
      | Some limits \<Rightarrow>
          (let wb = tls_write_buf st;
               st0 = set_write_buf wb_default st
           in case wb_seal E (ss_ssl st0) (ss_queue st0) wb limits bufs total_len of
                (_, _, _, Panic p) \<Rightarrow> panic p
              | (wb', s, q, Ret (Inl e)) \<Rightarrow> ret (set_write_buf wb' (set_ssl s q st0), Inl e)
              | (wb', s, q, Ret (Inr None)) \<Rightarrow>
                  ssl_write_records E T bufs total_len (set_write_buf wb' (set_ssl s q st0))
              | (wb', s, q, Ret (Inr (Some n))) \<Rightarrow>
                  bindc (tls_drain_unless_blocked T (set_write_buf wb' (set_ssl s q st0)))
                    (\<lambda>st1. ret (st1, Inr n))))"

text \<open>\<open>IoSlice::advance_slices\<close>, which panics beyond the end of the slices.\<close>

fun advance_slices :: "nat \<Rightarrow> byte list list \<Rightarrow> byte list list option" where
  "advance_slices n [] = (if n = 0 then Some [] else None)"
| "advance_slices n (b # bs) =
     (if length b \<le> n then advance_slices (n - length b) bs else Some (drop n b # bs))"

definition slices_len :: "byte list list \<Rightarrow> nat" where
  "slices_len bufs = foldl (\<lambda>n b. sat_add n (length b)) 0 bufs"

definition write_records ::
    "'s ssl_api \<Rightarrow> 't async_ops \<Rightarrow> byte list list \<Rightarrow> ('s, 't) tls
     \<Rightarrow> (('s, 't) tls \<times> nat io_result) comp" where
  "write_records E T bufs st =
     (case wb_retry T (tls_transport st) (tls_write_buf st) of
        (_, _, Panic p) \<Rightarrow> panic p
      | (tr, wb, Ret (Inl e)) \<Rightarrow> ret (set_io tr wb st, Inl e)
      | (tr, wb, Ret (Inr _)) \<Rightarrow>
          (let st1 = set_io tr wb st;
               total_len = slices_len bufs
           in if total_len = 0 then ret (st1, Inr 0)
              else if total_len \<le> MAX_RECORD \<and> wb_is_empty wb
              then bindc (seal_on_stack E T bufs total_len st1) (\<lambda>(st2, r). case r of
                  Inl e \<Rightarrow> ret (st2, Inl e)
                | Inr (Some n) \<Rightarrow>
                    if n < total_len
                    then bindc (indexed (advance_slices n bufs)) (\<lambda>rest.
                           bindc (write_buffered E T rest (total_len - n) st2) (\<lambda>(st3, r3).
                             ret (st3, Inr (n + (case r3 of Inr m \<Rightarrow> m | Inl _ \<Rightarrow> 0)))))
                    else ret (st2, Inr n)
                | Inr None \<Rightarrow> write_buffered E T bufs total_len st2)
              else write_buffered E T bufs total_len st1))"

section \<open>Polls\<close>

definition poll_connect ::
    "'s ssl_api \<Rightarrow> 't async_ops \<Rightarrow> nat \<Rightarrow> ('s, 't) tls \<Rightarrow> (('s, 't) tls \<times> (ssl_error + unit) poll) comp" where
  "poll_connect E T cx =
     with_context cx (\<lambda>s. bindc (ssl_connect E (wrapper_ops T) s) (\<lambda>(s', r). ret (s', cvt_ossl r)))"

definition poll_accept ::
    "'s ssl_api \<Rightarrow> 't async_ops \<Rightarrow> nat \<Rightarrow> ('s, 't) tls \<Rightarrow> (('s, 't) tls \<times> (ssl_error + unit) poll) comp" where
  "poll_accept E T cx =
     with_context cx (\<lambda>s. bindc (ssl_accept E (wrapper_ops T) s) (\<lambda>(s', r). ret (s', cvt_ossl r)))"

definition poll_do_handshake ::
    "'s ssl_api \<Rightarrow> 't async_ops \<Rightarrow> nat \<Rightarrow> ('s, 't) tls \<Rightarrow> (('s, 't) tls \<times> (ssl_error + unit) poll) comp" where
  "poll_do_handshake E T cx =
     with_context cx (\<lambda>s. bindc (ssl_do_handshake E (wrapper_ops T) s) (\<lambda>(s', r). ret (s', cvt_ossl r)))"

text \<open>
  The loop of \<open>poll_read\<close> into a buffer with room for \<open>cap\<close> bytes, of which \<open>acc\<close> is filled; it ends
  with the end or the error it met, if any.
\<close>

partial_function (option) read_records ::
    "'s ssl_api \<Rightarrow> 't async_ops \<Rightarrow> nat \<Rightarrow> byte list \<Rightarrow> ('s, 't) tls
     \<Rightarrow> (('s, 't) tls \<times> byte list \<times> unit io_result option) comp" where
  "read_records E T cap acc st =
     bindc (read_uninit E (wrapper_ops T) (cap - length acc) st)
       (\<lambda>(st1, r). case cvt_io r of
          Ready (Inr d) \<Rightarrow>
            if d = [] then ret (st1, acc, Some (Inr ()))
            else if cap - length (acc @ d) = 0 \<or> rb_is_empty (sw_read_buf (ss_get st1))
            then ret (st1, acc @ d, None)
            else read_records E T cap (acc @ d) st1
        | Ready (Inl e) \<Rightarrow> ret (st1, acc, Some (Inl e))
        | Pending \<Rightarrow> ret (st1, acc, None))"

definition set_read_end :: "unit io_result option \<Rightarrow> ('s, 't) tls \<Rightarrow> ('s, 't) tls" where
  "set_read_end e = ss_with (\<lambda>w. w\<lparr>sw_read_end := e\<rparr>)"

text \<open>\<open>poll_read\<close>: also returns the bytes put into the buffer.\<close>

definition poll_read ::
    "'s ssl_api \<Rightarrow> 't async_ops \<Rightarrow> nat \<Rightarrow> nat \<Rightarrow> ('s, 't) tls
     \<Rightarrow> (('s, 't) tls \<times> byte list \<times> unit io_result poll) comp" where
  "poll_read E T cx cap =
     with_context cx (\<lambda>s.
       if cap = 0 then ret (s, [], Ready (Inr ()))
       else case sw_read_end (ss_get s) of
           Some end_result \<Rightarrow> ret (set_read_end None s, [], Ready end_result)
         | None \<Rightarrow>
             bindc (read_records E T cap [] s) (\<lambda>(s1, d, end_result).
               if d = []
               then ret (s1, [], case end_result of None \<Rightarrow> Pending | Some e \<Rightarrow> Ready e)
               else ret (set_read_end end_result s1, d, Ready (Inr ()))))"

definition poll_write_vectored ::
    "'s ssl_api \<Rightarrow> 't async_ops \<Rightarrow> nat \<Rightarrow> byte list list \<Rightarrow> ('s, 't) tls
     \<Rightarrow> (('s, 't) tls \<times> nat io_result poll) comp" where
  "poll_write_vectored E T cx bufs =
     with_context cx (\<lambda>s. bindc (write_records E T bufs s) (\<lambda>(s', r). ret (s', cvt_io r)))"

definition poll_write ::
    "'s ssl_api \<Rightarrow> 't async_ops \<Rightarrow> nat \<Rightarrow> byte list \<Rightarrow> ('s, 't) tls
     \<Rightarrow> (('s, 't) tls \<times> nat io_result poll) comp" where
  "poll_write E T cx buf =
     with_context cx (\<lambda>s. bindc (write_records E T [buf] s) (\<lambda>(s', r). ret (s', cvt_io r)))"

definition poll_flush ::
    "'t async_ops \<Rightarrow> nat \<Rightarrow> ('s, 't) tls \<Rightarrow> (('s, 't) tls \<times> unit io_result poll) comp" where
  "poll_flush T cx =
     with_context cx (\<lambda>s. bindc (ssl_stream_flush (wrapper_ops T) s) (\<lambda>(s', r). ret (s', cvt_io r)))"

text \<open>The first step of \<open>poll_shutdown\<close>, skipped once \<open>shutdown_sent\<close> is set.\<close>

definition send_shutdown ::
    "'s ssl_api \<Rightarrow> 't async_ops \<Rightarrow> ('s, 't) tls \<Rightarrow> (('s, 't) tls \<times> unit io_result poll) comp" where
  "send_shutdown E T st =
     bindc (ssl_shutdown E (wrapper_ops T) st) (\<lambda>(s, r).
       let closed = ret (ss_with (\<lambda>w. w\<lparr>sw_shutdown_sent := True\<rparr>) s, Ready (Inr ()))
       in case r of
            Inr _ \<Rightarrow> closed
          | Inl e \<Rightarrow>
              if ssl_code e = ZERO_RETURN then closed
              else if closed_by_alert E e then closed
              else if ssl_code e = WANT_READ \<or> ssl_code e = WANT_WRITE then ret (s, Pending)
              else ret (s, Ready (Inl (io_of_ssl e))))"

definition poll_shutdown ::
    "'s ssl_api \<Rightarrow> 't async_ops \<Rightarrow> nat \<Rightarrow> ('s, 't) tls \<Rightarrow> (('s, 't) tls \<times> unit io_result poll) comp" where
  "poll_shutdown E T cx st =
     bindc (if sw_shutdown_sent (ss_get st) then ret (st, Ready (Inr ()))
            else with_context cx (send_shutdown E T) st)
       (\<lambda>(st1, r1). case r1 of
          Pending \<Rightarrow> ret (st1, Pending)
        | Ready (Inl e) \<Rightarrow> ret (st1, Ready (Inl e))
        | Ready (Inr _) \<Rightarrow>
            bindc (poll_flush T cx st1) (\<lambda>(st2, r2). case r2 of
              Pending \<Rightarrow> ret (st2, Pending)
            | Ready (Inl e) \<Rightarrow> ret (st2, Ready (Inl e))
            | Ready (Inr _) \<Rightarrow>
                (case a_poll_shutdown T (tr_stream (tls_transport st2)) cx of
                   (t, r3) \<Rightarrow>
                     ret (ss_with (\<lambda>w. w\<lparr>sw_transport := (sw_transport w)\<lparr>tr_stream := t\<rparr>\<rparr>) st2, r3))))"

end
