(* ===== verification/Tls_Write.thy ===== *)
theory Tls_Write
  imports Tls_Stream
begin

text \<open>
  The write side of the asynchronous stream: what each way of sealing does to the history of the
  connection and the queue of records, up to \<open>write_records\<close>.
\<close>

section \<open>Well-formed streams\<close>

text \<open>Between polls, and while a task context is installed.\<close>

definition tls_wf ::
    "('t \<Rightarrow> byte list) \<Rightarrow> ('t \<Rightarrow> byte list) \<Rightarrow> 's engine_view \<Rightarrow> ('s, 't) tls \<Rightarrow> bool" where
  "tls_wf sent got V st \<longleftrightarrow>
     sw_wf got (ss_get st) \<and> v_sealed V (ss_ssl st) = sw_outbox sent (ss_get st) \<and>
     v_ingested V (ss_ssl st) = sw_inbox got (ss_get st) \<and> b_panic (ss_bio st) = None"

abbreviation tls_live ::
    "('t \<Rightarrow> byte list) \<Rightarrow> ('t \<Rightarrow> byte list) \<Rightarrow> 's engine_view \<Rightarrow> ('s, 't) tls \<Rightarrow> bool" where
  "tls_live sent got \<equiv> ss_ok (sw_live got) (sw_outbox sent) (sw_inbox got)"

abbreviation tls_keep :: "('s, 't) tls \<Rightarrow> bool \<times> unit io_result option \<times> bool \<times> nat" where
  "tls_keep st \<equiv> sw_keep (ss_get st)"

lemma tls_live_iff:
  "tls_live sent got V st \<longleftrightarrow> tls_wf sent got V st \<and> tr_context (tls_transport st) \<noteq> 0"
  by (auto simp: ss_ok_def tls_wf_def sw_live_def)

lemma tls_setters [simp]:
  "ss_ssl (set_context cx st) = ss_ssl st" "ss_ssl (set_write_buf wb st) = ss_ssl st"
  "ss_ssl (set_io tr wb st) = ss_ssl st" "ss_ssl (set_ssl s q st) = s"
  "ss_ssl (set_read_end e st) = ss_ssl st"
  "ss_get (set_ssl s q st) = ss_get st" "ss_bio (set_ssl s q st) = ss_bio st"
  "tls_write_buf (set_write_buf wb st) = wb" "tls_transport (set_write_buf wb st) = tls_transport st"
  "tls_write_buf (set_io tr wb st) = wb" "tls_transport (set_io tr wb st) = tr"
  "tr_context (tls_transport (set_context cx st)) = cx"
  "tr_stream (tls_transport (set_context cx st)) = tr_stream (tls_transport st)"
  "tls_write_buf (set_context cx st) = tls_write_buf st"
  "sw_write_through (ss_get (set_context cx st)) = sw_write_through (ss_get st)"
  "sw_shutdown_sent (ss_get (set_context cx st)) = sw_shutdown_sent (ss_get st)"
  "sw_read_end (ss_get (set_context cx st)) = sw_read_end (ss_get st)"
  by (simp_all add: set_context_def set_write_buf_def set_io_def set_ssl_def set_read_end_def ss_with_def)

lemma tls_wf_set_context [simp]:
  "tls_wf sent got V (set_context cx st) \<longleftrightarrow> tls_wf sent got V st"
  by (simp add: tls_wf_def set_context_def ss_with_def sw_wf_def sw_outbox_def sw_inbox_def)

lemma tls_keep_set_context [simp]:
  "tls_keep st = (a, b, c, d) \<Longrightarrow> tls_keep (set_context cx st) = (a, b, c, cx)"
  by (simp add: set_context_def ss_with_def sw_keep_def)

lemma tls_live_keep:
  "tls_live sent got V st \<Longrightarrow> tls_keep st = (a, b, c, cx) \<Longrightarrow> cx \<noteq> 0"
  by (auto simp: tls_live_iff sw_keep_def)

text \<open>Replacing the write buffer, the transport and the connection, when the queue agrees.\<close>

lemma tls_live_update:
  assumes "tls_live sent got V st" and "wb_ok wb" and "tr_context tr = tr_context (tls_transport st)"
    and "got (tr_stream tr) = got (tr_stream (tls_transport st))"
    and "v_sealed V s = sent (tr_stream tr) @ wb_buffered wb" and "v_ingested V s = v_ingested V (ss_ssl st)"
  shows "tls_live sent got V (set_io tr wb (set_ssl s q st))"
    and "tls_keep (set_io tr wb (set_ssl s q st)) = tls_keep st"
  using assms
  by (simp_all add: tls_live_iff tls_wf_def set_io_def set_ssl_def ss_with_def sw_wf_def sw_outbox_def
      sw_inbox_def sw_keep_def)

lemma set_write_buf_set_io:
  "set_write_buf wb st = set_io (tls_transport st) wb (set_ssl (ss_ssl st) (ss_queue st) st)"
  by (simp add: set_write_buf_def set_io_def set_ssl_def ss_with_def)

lemma set_io_set_ssl: "set_io tr wb st = set_io tr wb (set_ssl (ss_ssl st) (ss_queue st) st)"
  by (simp add: set_io_def set_ssl_def ss_with_def)

lemma tls_live_outbox:
  "tls_live sent got V st \<Longrightarrow>
     v_sealed V (ss_ssl st) = sent (tr_stream (tls_transport st)) @ wb_buffered (tls_write_buf st)"
  "tls_live sent got V st \<Longrightarrow> wb_ok (tls_write_buf st)"
  "tls_live sent got V st \<Longrightarrow> tr_context (tls_transport st) \<noteq> 0"
  by (simp_all add: tls_live_iff tls_wf_def sw_wf_def sw_outbox_def)

section \<open>Sealing into caller memory\<close>

lemma take_covering_prefix: "\<exists>ys. concat bs = concat (take_covering n bs) @ ys"
  by (induction n bs rule: take_covering.induct) auto

lemma take_covering_covers: "min n (length (concat bs)) \<le> length (concat (take_covering n bs))"
  by (induction n bs rule: take_covering.induct) auto

lemma with_ivecs_prefix:
  "k \<le> length (concat (with_ivecs E bs n)) \<Longrightarrow> take k (concat (with_ivecs E bs n)) = take k (concat bs)"
  using take_covering_prefix [of bs n] by (auto simp: with_ivecs_def)

lemma with_ivecs_length:
  "length (concat (with_ivecs E bs n)) \<le> length (concat bs)"
  "min n (length (concat bs)) \<le> length (concat (with_ivecs E bs n))"
proof -
  obtain ys where "concat bs = concat (take_covering n bs) @ ys" using take_covering_prefix by blast
  then have "length (concat (take_covering n bs)) \<le> length (concat bs)" by simp
  then show "length (concat (with_ivecs E bs n)) \<le> length (concat bs)" by (simp add: with_ivecs_def)
  show "min n (length (concat bs)) \<le> length (concat (with_ivecs E bs n))"
    using take_covering_covers [of n bs] by (simp add: with_ivecs_def)
qed

text \<open>\<open>seal_app_data\<close>, over the slices themselves: what it takes, what it adds to the wire.\<close>

lemma seal_app_data_ok:
  assumes "engine_ok E V" and "seal_app_data E s q bufs max_in room = (s', q', r)"
  shows "case r of
      Inr (Some (sl, out)) \<Rightarrow>
        consumed sl \<le> max_in \<and> consumed sl \<le> length (concat bufs) \<and> length out \<le> room \<and>
        written sl = length out \<and> (0 < max_in \<and> concat bufs \<noteq> [] \<longrightarrow> 0 < consumed sl) \<and>
        v_sealed V s' = v_sealed V s @ out \<and>
        v_taken V s' = v_taken V s @ take (consumed sl) (concat bufs) \<and>
        v_ingested V s' = v_ingested V s \<and> v_opened V s' = v_opened V s
    | _ \<Rightarrow> same_history V s s'"
proof (cases "e_fips E")
  case True
  with assms(2) show ?thesis by (auto simp: seal_app_data_def same_history_def)
next
  case False
  let ?iv = "with_ivecs E bufs max_in"
  obtain res n out s1 q1 where e: "e_seal E s q ?iv max_in room = (res, n, out, s1, q1)"
    by (cases "e_seal E s q ?iv max_in room")
  have ok: "seal_ok V s ?iv max_in room (res, n, out, s1, q1)"
    using engine_okD(7) [OF assms(1), of s ?iv max_in room q] by (simp add: e)
  show ?thesis
  proof (cases res)
    case Seal_Success
    with ok have n: "n \<le> max_in" "n \<le> length (concat ?iv)" "length out \<le> room"
      "0 < max_in \<and> concat ?iv \<noteq> [] \<longrightarrow> 0 < n" "v_sealed V s1 = v_sealed V s @ out"
      "v_taken V s1 = v_taken V s @ take n (concat ?iv)" "v_ingested V s1 = v_ingested V s"
      "v_opened V s1 = v_opened V s" by (simp_all add: seal_ok_def)
    have "concat ?iv \<noteq> []" if "0 < max_in" "concat bufs \<noteq> []"
    proof -
      have "0 < length (concat bufs)" using that(2) by blast
      with that(1) with_ivecs_length(2) [of max_in bufs E] have "0 < length (concat ?iv)" by linarith
      then show ?thesis by blast
    qed
    moreover have "s' = s1" "r = Inr (Some (\<lparr>consumed = n, written = length out\<rparr>, out))"
      using assms(2) False e Seal_Success n(1,3) by (auto simp: seal_app_data_def)
    ultimately show ?thesis
      using n with_ivecs_prefix [OF n(2)] le_trans [OF n(2) with_ivecs_length(1)] by simp
  qed (use assms(2) False e ok in \<open>auto simp: seal_app_data_def seal_ok_def split: prod.splits\<close>)
qed

text \<open>The budget never exceeds the write, and lets every write seal something.\<close>

lemma seal_budget_le: "seal_budget f ov pend buf n \<le> n"
  by (auto simp: seal_budget_def Let_def)

lemma seal_budget_pos:
  assumes "0 < f" and "0 < n"
  shows "0 < seal_budget f ov pend buf n"
proof -
  have "0 < sat_mul (max k 1) f" for k
    using assms(1) by (simp add: sat_mul_def usize_max_def)
  with assms(2) show ?thesis by (simp add: seal_budget_def Let_def)
qed

lemma wb_seal_ok:
  assumes "engine_ok E V" and "wb_ok wb" and "0 < max_fragment limits" and "0 < total_len"
    and "wb_seal E s q wb limits bufs total_len = (wb', s', q', res)"
  shows "\<exists>r. res = Ret r \<and> wb_ok wb' \<and> wb_blocked wb' = wb_blocked wb \<and>
           (case r of
              Inr (Some n) \<Rightarrow>
                n \<le> length (concat bufs) \<and> (concat bufs \<noteq> [] \<longrightarrow> 0 < n) \<and>
                (\<exists>out. v_sealed V s' = v_sealed V s @ out \<and> wb_buffered wb' = wb_buffered wb @ out) \<and>
                v_taken V s' = v_taken V s @ take n (concat bufs) \<and>
                v_ingested V s' = v_ingested V s \<and> v_opened V s' = v_opened V s
            | _ \<Rightarrow> same_history V s s' \<and> wb_buffered wb' = wb_buffered wb)"
proof -
  define budget where "budget = seal_budget (max_fragment limits) (record_overhead limits)
    (pending_len limits) (wb_len wb) total_len"
  have pos: "0 < budget" using assms(3,4) by (simp add: budget_def seal_budget_pos)
  show ?thesis
  proof (cases "sealed_len limits budget")
    case None
    with assms show ?thesis
      by (auto simp: wb_seal_def Let_def budget_def same_history_def)
  next
    case (Some max_out)
    let ?wb1 = "wb_make_room wb max_out"
    obtain s1 q1 r where sa: "seal_app_data E s q bufs budget max_out = (s1, q1, r)"
      by (cases "seal_app_data E s q bufs budget max_out")
    note ok = seal_app_data_ok [OF assms(1) sa]
    have room: "vec_len (wb_bytes ?wb1) + max_out \<le> capacity (wb_bytes ?wb1)"
      by (rule wb_make_room_capacity [OF assms(2)])
    then have fits: "\<not> capacity (wb_bytes ?wb1) - vec_len (wb_bytes ?wb1) < max_out" by simp
    have wb1: "wb_ok ?wb1" "wb_buffered ?wb1 = wb_buffered wb" "wb_blocked ?wb1 = wb_blocked wb"
      by (simp_all add: wb_make_room_ok assms(2) wb_make_room_pending frame)
    show ?thesis
    proof (cases "\<exists>sl out. r = Inr (Some (sl, out))")
      case True
      then obtain sl out where r: "r = Inr (Some (sl, out))" by blast
      define wb2 where "wb2 = ?wb1\<lparr>wb_bytes := vec_set_filled (wb_bytes ?wb1) out\<rparr>"
      have "wb_pos ?wb1 \<le> vec_len (wb_bytes ?wb1)" using wb1(1) by (auto simp: wb_ok_def)
      then have "wb_buffered wb2 = wb_buffered wb @ out"
        using wb1(2) by (simp add: wb2_def wb_buffered_def)
      moreover have "length out \<le> max_out" using ok r by simp
      then have "wb_ok wb2"
        using wb1(1) room by (auto simp: wb2_def wb_ok_def vec_ok_def vec_set_filled_def)
      moreover have "wb_blocked wb2 = wb_blocked wb" using wb1(3) by (simp add: wb2_def)
      moreover have "wb' = wb2" "s' = s1" "res = Ret (Inr (Some (consumed sl)))"
        using assms(5) Some sa r fits
        unfolding wb_seal_def Let_def budget_def [symmetric] wb2_def by auto
      ultimately show ?thesis using ok r pos by auto
    next
      case False
      with ok have "same_history V s s1" by (auto split: sum.splits option.splits)
      moreover have "wb' = ?wb1" "s' = s1" "\<exists>x. res = Ret x \<and> (\<forall>n. x \<noteq> Inr (Some n))"
        using assms(5) Some sa False fits unfolding wb_seal_def Let_def budget_def [symmetric]
        by (auto split: sum.splits option.splits)
      ultimately show ?thesis using wb1 by (auto split: sum.splits option.splits)
    qed
  qed
qed

section \<open>The ways of writing\<close>

text \<open>What a write of the plaintext \<open>data\<close> does, whatever the transport answers.\<close>

definition wrote ::
    "('t \<Rightarrow> byte list) \<Rightarrow> ('t \<Rightarrow> byte list) \<Rightarrow> 's engine_view \<Rightarrow> byte list \<Rightarrow> ('s, 't) tls \<Rightarrow> ('s, 't) tls
     \<Rightarrow> nat option \<Rightarrow> bool" where
  "wrote sent got V data st st' res \<longleftrightarrow>
     tls_live sent got V st' \<and> tls_keep st' = tls_keep st \<and>
     v_opened V (ss_ssl st') = v_opened V (ss_ssl st) \<and>
     (case res of
        Some n \<Rightarrow> n \<le> length data \<and> (data \<noteq> [] \<longrightarrow> 0 < n) \<and>
                  v_taken V (ss_ssl st') = v_taken V (ss_ssl st) @ take n data
      | None \<Rightarrow> v_taken V (ss_ssl st') = v_taken V (ss_ssl st))"

lemma wrote_from:
  assumes "wrote sent got V data st1 st' res" and "tls_keep st1 = tls_keep st"
    and "v_taken V (ss_ssl st1) = v_taken V (ss_ssl st)"
    and "v_opened V (ss_ssl st1) = v_opened V (ss_ssl st)"
  shows "wrote sent got V data st st' res"
  using assms by (auto simp: wrote_def split: option.splits)

definition ok_some :: "'e + 'a \<Rightarrow> 'a option" where
  "ok_some r = (case r of Inr x \<Rightarrow> Some x | Inl _ \<Rightarrow> None)"

lemma ok_some_simps [simp]: "ok_some (Inr x) = Some x" "ok_some (Inl e) = None"
  by (simp_all add: ok_some_def)

lemma slices_len_foldl:
  "foldl (\<lambda>n b. sat_add n (length b)) k bufs =
     (if bufs = [] then k else min usize_max (k + length (concat bufs)))"
proof (induction bufs arbitrary: k)
  case (Cons b bs)
  show ?case
    unfolding foldl_Cons Cons.IH by (auto simp: sat_add_def)
qed simp

lemma slices_len: "slices_len bufs = min usize_max (length (concat bufs))"
  by (simp only: slices_len_def slices_len_foldl) simp

lemma advance_slices:
  "n \<le> length (concat bufs) \<Longrightarrow>
     \<exists>rest. advance_slices n bufs = Some rest \<and> concat rest = drop n (concat bufs)"
  by (induction n bufs rule: advance_slices.induct) auto

context async_duplex
begin

lemma tls_drain_unless_blocked_ok:
  assumes "tls_live sent got V st"
  obtains st' where "tls_drain_unless_blocked T st = ret st'" and "tls_live sent got V st'"
    and "ss_ssl st' = ss_ssl st" and "tls_keep st' = tls_keep st"
proof -
  obtain tr wb r where d:
    "wb_drain_unless_blocked T (tls_transport st) (tls_write_buf st) = (tr, wb, r)"
    by (cases "wb_drain_unless_blocked T (tls_transport st) (tls_write_buf st)")
  note live = tls_live_outbox [OF assms]
  from drain_unless_blocked [OF d live(3,2)] have r: "r = Ret ()" "wb_ok wb"
    "sent (tr_stream tr) @ wb_buffered wb = v_sealed V (ss_ssl st)"
    "tr_context tr = tr_context (tls_transport st)" by (simp_all add: live(1))
  have "got (tr_stream tr) = got (tr_stream (tls_transport st))"
    using wb_drain_frame [of got T "tls_transport st" "tls_write_buf st", OF got_write] d
    by (auto simp: wb_drain_unless_blocked_def split: if_splits prod.splits outcome.splits)
  from tls_live_update [OF assms r(2,4) this, of "ss_ssl st" "ss_queue st"] r(3)
  show thesis
    by (intro that [of "set_io tr wb st"])
      (simp_all add: tls_drain_unless_blocked_def d r(1) set_io_set_ssl [symmetric])
qed

lemma seal_on_stack_ok:
  assumes "engine_ok E V" and "tls_live sent got V st" and "0 < total_len"
  obtains st' r where "seal_on_stack E T bufs total_len st = ret (st', r)"
    and "case r of Inr None \<Rightarrow> wrote sent got V (concat bufs) st st' None
                 | Inr (Some n) \<Rightarrow> wrote sent got V (concat bufs) st st' (Some n)
                 | Inl _ \<Rightarrow> wrote sent got V (concat bufs) st st' None"
proof -
  obtain s q r where sa:
    "seal_app_data E (ss_ssl st) (ss_queue st) bufs total_len SEAL_STACK_LEN = (s, q, r)"
    by (cases "seal_app_data E (ss_ssl st) (ss_queue st) bufs total_len SEAL_STACK_LEN")
  note ok = seal_app_data_ok [OF assms(1) sa]
  note live = tls_live_outbox [OF assms(2)]
  have same: "wrote sent got V (concat bufs) st (set_ssl s q st) None" if "same_history V (ss_ssl st) s"
    using that assms(2) by (simp add: wrote_def same_history_def ss_ok_def)
  show thesis
  proof (cases "\<exists>sl out. r = Inr (Some (sl, out))")
    case False
    with ok have "same_history V (ss_ssl st) s" by (auto split: sum.splits option.splits)
    note st = same [OF this]
    from False consider es where "r = Inl es" | "r = Inr None"
      by (metis not_None_eq old.prod.exhaust sum.exhaust)
    then show thesis
    proof cases
      case 1
      with st sa that [of _ "Inl (io_other (ssl_from_stack es))"] show thesis
        by (simp add: seal_on_stack_def)
    next
      case 2
      with st sa that [of _ "Inr None"] show thesis by (simp add: seal_on_stack_def)
    qed
  next
    case True
    then obtain sl out where r: "r = Inr (Some (sl, out))" by blast
    with ok assms(3) have sl: "consumed sl \<le> length (concat bufs)" "concat bufs \<noteq> [] \<longrightarrow> 0 < consumed sl"
      "v_sealed V s = v_sealed V (ss_ssl st) @ out"
      "v_taken V s = v_taken V (ss_ssl st) @ take (consumed sl) (concat bufs)"
      "v_ingested V s = v_ingested V (ss_ssl st)" "v_opened V s = v_opened V (ss_ssl st)" by auto
    have done_by: "wrote sent got V (concat bufs) st (set_io tr wb (set_ssl s q st)) (Some (consumed sl))"
      if "wb_ok wb" "tr_context tr = tr_context (tls_transport st)"
        "got (tr_stream tr) = got (tr_stream (tls_transport st))"
        "sent (tr_stream tr) @ wb_buffered wb = v_sealed V (ss_ssl st) @ out" for tr wb
      using tls_live_update [OF assms(2) that(1-3), of s q] that(4) sl by (simp add: wrote_def)
    show thesis
    proof (cases "consumed sl < total_len")
      case True
      let ?wb = "wb_push (tls_write_buf st) out"
      have "wrote sent got V (concat bufs) st (set_io (tls_transport st) ?wb (set_ssl s q st))
          (Some (consumed sl))"
        using live by (intro done_by) (simp_all add: wb_push_ok wb_push_pending)
      with sa r True that [of "set_write_buf ?wb (set_ssl s q st)" "Inr (Some (consumed sl))"]
      show thesis
        by (simp add: seal_on_stack_def set_write_buf_def set_io_def set_ssl_def ss_with_def)
    next
      case False
      obtain tr wb res where wl:
        "wb_write_last T (tls_transport st) (tls_write_buf st) out = (tr, wb, res)"
        by (cases "wb_write_last T (tls_transport st) (tls_write_buf st) out")
      from write_last [OF wl live(3,2)] live(1) have w: "res = Ret ()" "wb_ok wb"
        "sent (tr_stream tr) @ wb_buffered wb = v_sealed V (ss_ssl st) @ out"
        "tr_context tr = tr_context (tls_transport st)" by simp_all
      have "got (tr_stream tr) = got (tr_stream (tls_transport st))"
        using wb_write_last_frame [of got T "tls_transport st" "tls_write_buf st" out,
            OF got_write got_write_vectored] by (simp add: wl)
      from done_by [OF w(2,4) this w(3)] sa r False wl w(1)
        that [of "set_io tr wb (set_ssl s q st)" "Inr (Some (consumed sl))"]
      show thesis by (simp add: seal_on_stack_def)
    qed
  qed
qed

end

lemma set_write_through_live:
  "tls_live sent got V (ss_with (\<lambda>w. w\<lparr>sw_write_through := x\<rparr>) st) \<longleftrightarrow> tls_live sent got V st"
  "tls_keep st = (a, b, c, cx) \<Longrightarrow> tls_keep (ss_with (\<lambda>w. w\<lparr>sw_write_through := x\<rparr>) st) = (a, b, x, cx)"
  by (simp_all add: ss_ok_def ss_with_def sw_live_def sw_wf_def sw_outbox_def sw_inbox_def sw_keep_def)

text \<open>The limit follows a short seal; what is left does not change.\<close>

lemma packer_shrink:
  "packer_ok p \<Longrightarrow> 0 < n \<Longrightarrow>
     packer_ok (if n < m then p\<lparr>pk_limit := n\<rparr> else p) \<and>
     packer_rest (if n < m then p\<lparr>pk_limit := n\<rparr> else p) = packer_rest p"
  by (simp add: packer_ok_def packer_rest_def)

context async_duplex
begin

lemma seal_records_ok:
  assumes E: "engine_ok E V"
  shows "tls_live sent got V st \<Longrightarrow> packer_ok p \<Longrightarrow> tls_keep st = (a, b, c, cx) \<Longrightarrow>
    \<exists>st' n err c'. seal_records E T total_len p through already st = ret (st', already + n, err) \<and>
      tls_live sent got V st' \<and> tls_keep st' = (a, b, c', cx) \<and>
      v_opened V (ss_ssl st') = v_opened V (ss_ssl st) \<and> n \<le> length (packer_rest p) \<and>
      v_taken V (ss_ssl st') = v_taken V (ss_ssl st) @ take n (packer_rest p) \<and>
      (packer_rest p \<noteq> [] \<and> err = None \<longrightarrow> 0 < n)"
proof (induction "length (packer_rest p)" arbitrary: p through already st c rule: less_induct)
  case less
  from packer_next_record_ok [OF less.prems(2)] obtain p1 rec where
    n: "packer_next_record p = Some (p1, rec)" "packer_ok p1" "packer_rest p1 = packer_rest p"
    and rec: "case rec of None \<Rightarrow> packer_rest p = []
        | Some r \<Rightarrow> r \<noteq> [] \<and> length r \<le> pk_limit p \<and> r = take (length r) (packer_rest p)"
    by blast
  show ?case
  proof (cases rec)
    case None
    with n rec less.prems show ?thesis
      by (intro exI [of _ st] exI [of _ 0] exI [of _ None] exI [of _ c])
        (simp add: seal_records.simps [of E T total_len p])
  next
    case (Some r)
    with rec have r: "r \<noteq> []" "r = take (length r) (packer_rest p)" by auto
    let ?wt = "through \<and> total_len \<le> sat_add already (length r)"
    let ?st0 = "ss_with (\<lambda>w. w\<lparr>sw_write_through := ?wt\<rparr>) st"
    have live0: "tls_live sent got V ?st0" "tls_keep ?st0 = (a, b, ?wt, cx)"
      by (simp only: set_write_through_live(1) less.prems(1),
          rule set_write_through_live(2) [OF less.prems(3)])
    from sw.write_ok [OF live0(1) E, of r, unfolded live0(2), unfolded ss_with_simps(2)] obtain st1 res where
      w: "ssl_stream_write E (wrapper_ops T) r ?st0 = ret (st1, res)" "tls_live sent got V st1"
      "tls_keep st1 = (a, b, ?wt, cx)" "v_opened V (ss_ssl st1) = v_opened V (ss_ssl st)"
      and res: "case res of
          Inr k \<Rightarrow> k \<le> length r \<and> (r \<noteq> [] \<longrightarrow> 0 < k) \<and>
                   v_taken V (ss_ssl st1) = v_taken V (ss_ssl st) @ take k r
        | Inl e \<Rightarrow> v_taken V (ss_ssl st1) = v_taken V (ss_ssl st)"
      by blast
    show ?thesis
    proof (cases res)
      case (Inl e)
      with n Some w res show ?thesis
        by (intro exI [of _ st1] exI [of _ 0] exI [of _ "Some e"] exI [of _ ?wt])
          (simp add: seal_records.simps [of E T total_len p])
    next
      case (Inr k)
      with res r(1) have k: "0 < k" "k \<le> length r"
        "v_taken V (ss_ssl st1) = v_taken V (ss_ssl st) @ take k r" by auto
      have le: "length r \<le> length (packer_rest p)" by (rule take_prefix_length [OF r(2)])
      have tk: "take k r = take k (packer_rest p)"
        using k(2) by (subst r(2)) (simp add: min_absorb1)
      let ?p1 = "if k < length r then p1\<lparr>pk_limit := k\<rparr> else p1"
      from packer_shrink [OF n(2) k(1), of "length r"] n(3)
      have p1: "packer_ok ?p1" "packer_rest ?p1 = packer_rest p" by simp_all
      from packer_advance_ok [OF p1(1), of k] k(2) le p1(2) obtain p2 where
        p2: "packer_advance ?p1 k = Some p2" "packer_ok p2" "packer_rest p2 = drop k (packer_rest p)"
        by auto
      define full where
        "full \<longleftrightarrow> wb_is_full (tls_write_buf st1) \<and> MAX_RECORD < total_len - (already + k)"
      have step: "seal_records E T total_len p through already st =
          (if full then ret (st1, already + k, None)
           else seal_records E T total_len p2 (if k < length r then False else through) (already + k) st1)"
        using n(1) Some w(1) Inr p2(1)
        by (simp add: seal_records.simps [of E T total_len p] full_def)
      show ?thesis
      proof (cases full)
        case True
        with step w k tk le show ?thesis
          by (intro exI [of _ st1] exI [of _ k] exI [of _ None] exI [of _ ?wt]) simp
      next
        case False
        have "length (packer_rest p2) < length (packer_rest p)" using k le by (simp add: p2(3))
        from less.hyps [OF this w(2) p2(2) w(3), of "if k < length r then False else through" "already + k"]
        obtain st' m err c' where m:
          "seal_records E T total_len p2 (if k < length r then False else through) (already + k) st1 =
             ret (st', already + k + m, err)" "tls_live sent got V st'" "tls_keep st' = (a, b, c', cx)"
          "v_opened V (ss_ssl st') = v_opened V (ss_ssl st1)" "m \<le> length (packer_rest p2)"
          "v_taken V (ss_ssl st') = v_taken V (ss_ssl st1) @ take m (packer_rest p2)"
          by blast
        have "v_taken V (ss_ssl st') = v_taken V (ss_ssl st) @ take (k + m) (packer_rest p)"
          by (simp add: m(6) k(3) tk p2(3) take_add)
        moreover have "k + m \<le> length (packer_rest p)" using m(5) k(2) le by (simp add: p2(3))
        ultimately show ?thesis using step False m w(4) k(1)
          by (intro exI [of _ st'] exI [of _ "k + m"] exI [of _ err] exI [of _ c'])
            (simp add: add.assoc)
      qed
    qed
  qed
qed

lemma ssl_write_records_ok:
  assumes "engine_ok E V" and "tls_live sent got V st" and "tls_keep st = (a, b, False, cx)"
  obtains st' r where "ssl_write_records E T bufs total_len st = ret (st', r)"
    and "wrote sent got V (concat bufs) st st' (ok_some r)"
proof -
  let ?wb = "wb_reserve (tls_write_buf st) total_len"
  let ?st0 = "set_write_buf ?wb st"
  note live = tls_live_outbox [OF assms(2)]
  have l0: "tls_live sent got V ?st0" "tls_keep ?st0 = (a, b, False, cx)"
    using tls_live_update [OF assms(2), of ?wb "tls_transport st" "ss_ssl st" "ss_queue st"] live assms(3)
    by (simp_all add: set_write_buf_set_io wb_reserve_ok)
  from seal_records_ok [OF assms(1) l0(1) packer_new_ok(1) l0(2), of total_len bufs True 0,
      unfolded packer_new_ok(2) tls_setters add_0]
  obtain st1 n err c' where s: "seal_records E T total_len (packer_new bufs) True 0 ?st0 = ret (st1, n, err)"
    "tls_live sent got V st1" "tls_keep st1 = (a, b, c', cx)"
    "v_opened V (ss_ssl st1) = v_opened V (ss_ssl st)" "n \<le> length (concat bufs)"
    "v_taken V (ss_ssl st1) = v_taken V (ss_ssl st) @ take n (concat bufs)"
    "concat bufs \<noteq> [] \<and> err = None \<longrightarrow> 0 < n" by blast
  let ?st2 = "ss_with (\<lambda>w. w\<lparr>sw_write_through := False\<rparr>) st1"
  have "tls_live sent got V ?st2" by (simp add: set_write_through_live s(2))
  then obtain st' where d: "tls_drain_unless_blocked T ?st2 = ret st'" "tls_live sent got V st'"
    "ss_ssl st' = ss_ssl ?st2" "tls_keep st' = tls_keep ?st2" by (rule tls_drain_unless_blocked_ok)
  have keep: "tls_keep st' = tls_keep st"
    by (simp only: d(4) set_write_through_live(2) [OF s(3)] assms(3))
  let ?r = "case err of Some e \<Rightarrow> if n = 0 then Inl e else Inr n | None \<Rightarrow> Inr n"
  have "ssl_write_records E T bufs total_len st = ret (st', ?r)"
    by (simp add: ssl_write_records_def s(1) d(1))
  moreover have "wrote sent got V (concat bufs) st st' (ok_some ?r)"
    using d(2,3) keep s(4-7) by (auto simp: wrote_def split: option.splits)
  ultimately show thesis by (rule that)
qed

lemma write_buffered_ok:
  assumes "engine_ok E V" and "tls_live sent got V st" and "tls_keep st = (a, b, False, cx)"
    and "0 < total_len"
  obtains st' r where "write_buffered E T bufs total_len st = ret (st', r)"
    and "wrote sent got V (concat bufs) st st' (ok_some r)"
proof (cases "seal_app_data_limits E (ss_ssl st)")
  case None
  from ssl_write_records_ok [OF assms(1-3), of bufs total_len] None that show thesis
    by (auto simp: write_buffered_def)
next
  case (Some limits)
  then have lim: "0 < max_fragment limits"
    by (auto simp: seal_app_data_limits_def split: if_splits prod.splits)
  note live = tls_live_outbox [OF assms(2)]
  let ?st0 = "set_write_buf wb_default st"
  obtain wb s q res where ws: "wb_seal E (ss_ssl ?st0) (ss_queue ?st0) (tls_write_buf st) limits bufs
      total_len = (wb, s, q, res)"
    by (cases "wb_seal E (ss_ssl ?st0) (ss_queue ?st0) (tls_write_buf st) limits bufs total_len")
  from wb_seal_ok [OF assms(1) live(2) lim assms(4) ws, unfolded tls_setters] obtain r where
    r: "res = Ret r" "wb_ok wb"
    and c: "case r of
        Inr (Some n) \<Rightarrow> n \<le> length (concat bufs) \<and> (concat bufs \<noteq> [] \<longrightarrow> 0 < n) \<and>
          (\<exists>out. v_sealed V s = v_sealed V (ss_ssl st) @ out \<and>
                 wb_buffered wb = wb_buffered (tls_write_buf st) @ out) \<and>
          v_taken V s = v_taken V (ss_ssl st) @ take n (concat bufs) \<and>
          v_ingested V s = v_ingested V (ss_ssl st) \<and> v_opened V s = v_opened V (ss_ssl st)
      | _ \<Rightarrow> same_history V (ss_ssl st) s \<and> wb_buffered wb = wb_buffered (tls_write_buf st)"
    by blast
  let ?st1 = "set_write_buf wb (set_ssl s q ?st0)"
  have st1: "?st1 = set_io (tls_transport st) wb (set_ssl s q st)"
    by (simp add: set_write_buf_def set_io_def set_ssl_def ss_with_def)
  have "v_sealed V s = sent (tr_stream (tls_transport st)) @ wb_buffered wb"
    "v_ingested V s = v_ingested V (ss_ssl st)"
    using c live(1) by (auto simp: same_history_def split: sum.splits option.splits)
  note l1 = tls_live_update [OF assms(2) r(2) refl refl this, where q = q, folded st1]
  from r(1) consider (err) e where "r = Inl e" | (declined) "r = Inr None" | (sealed) n where "r = Inr (Some n)"
    by (metis not_None_eq sum.exhaust)
  then show thesis
  proof cases
    case err
    then have "wrote sent got V (concat bufs) st ?st1 (ok_some (Inl e))"
      using c l1 by (simp add: wrote_def same_history_def)
    with err Some ws r(1) that show thesis by (simp add: write_buffered_def Let_def)
  next
    case declined
    from ssl_write_records_ok [OF assms(1) l1(1) l1(2) [unfolded assms(3)], of bufs total_len]
    obtain st' r' where w: "ssl_write_records E T bufs total_len ?st1 = ret (st', r')"
      "wrote sent got V (concat bufs) ?st1 st' (ok_some r')" .
    have "wrote sent got V (concat bufs) st st' (ok_some r')"
      using c l1(2) declined by (intro wrote_from [OF w(2)]) (simp_all add: same_history_def)
    with declined Some ws r(1) w(1) that show thesis by (simp add: write_buffered_def Let_def)
  next
    case sealed
    from tls_drain_unless_blocked_ok [OF l1(1)] obtain st' where
      d: "tls_drain_unless_blocked T ?st1 = ret st'" "tls_live sent got V st'"
      "ss_ssl st' = ss_ssl ?st1" "tls_keep st' = tls_keep ?st1" .
    have "wrote sent got V (concat bufs) st st' (ok_some (Inr n))"
      using c sealed d(2-4) l1(2) by (simp add: wrote_def)
    with sealed Some ws r(1) d(1) that show thesis by (simp add: write_buffered_def Let_def)
  qed
qed

end

end
