(* ===== verification/Tls_Polls.thy ===== *)
theory Tls_Polls
  imports Tls_Write
begin

text \<open>
  Whole polls: \<open>write_records\<close>, reading, flushing, shutting down and handshaking, each from a
  well-formed stream to a well-formed stream, whatever the transport answers.
\<close>

section \<open>write_records\<close>

lemma wrote_append:
  assumes "wrote sent got V data st st2 (Some n)" and "wrote sent got V (drop n data) st2 st3 res"
    and "data \<noteq> []"
  shows "wrote sent got V data st st3 (Some (n + (case res of Some m \<Rightarrow> m | None \<Rightarrow> 0)))"
  using assms by (cases res) (auto simp: wrote_def take_add)

lemma wb_retry_frame:
  assumes "\<And>t cx b. f (fst (a_poll_write T t cx b)) = f t"
  shows "f (tr_stream (fst (wb_retry T tr wb))) = f (tr_stream tr)"
  using wb_drain_frame [of f T tr wb, OF assms]
  by (auto simp: wb_retry_def split: prod.splits outcome.splits sum.splits if_splits)

context async_duplex
begin

lemma retry_ok:
  assumes "tls_live sent got V st"
  obtains tr wb r where "wb_retry T (tls_transport st) (tls_write_buf st) = (tr, wb, Ret r)"
    and "wb_ok wb" and "tls_live sent got V (set_io tr wb st)"
    and "tls_keep (set_io tr wb st) = tls_keep st"
proof -
  obtain tr wb res where d: "wb_retry T (tls_transport st) (tls_write_buf st) = (tr, wb, res)"
    by (cases "wb_retry T (tls_transport st) (tls_write_buf st)")
  note live = tls_live_outbox [OF assms]
  from retry [OF d live(3,2)] obtain r where r: "res = Ret r" "wb_ok wb"
    "sent (tr_stream tr) @ wb_buffered wb = v_sealed V (ss_ssl st)"
    "tr_context tr = tr_context (tls_transport st)" unfolding live(1) by blast
  have "got (tr_stream tr) = got (tr_stream (tls_transport st))"
    using wb_retry_frame [of got T "tls_transport st" "tls_write_buf st", OF got_write] by (simp add: d)
  from tls_live_update [OF assms r(2,4) this, of "ss_ssl st" "ss_queue st"] r d show thesis
    by (intro that [of tr wb r]) (simp_all add: set_io_set_ssl [symmetric])
qed

lemma write_records_ok:
  assumes "engine_ok E V" and "tls_live sent got V st" and "tls_keep st = (a, b, False, cx)"
  obtains st' r where "write_records E T bufs st = ret (st', r)"
    and "wrote sent got V (concat bufs) st st' (ok_some r)"
proof -
  from retry_ok [OF assms(2)] obtain tr wb r0 where
    rt: "wb_retry T (tls_transport st) (tls_write_buf st) = (tr, wb, Ret r0)" "wb_ok wb"
    "tls_live sent got V (set_io tr wb st)" "tls_keep (set_io tr wb st) = tls_keep st" .
  let ?st1 = "set_io tr wb st"
  let ?n = "slices_len bufs"
  have keep1: "tls_keep ?st1 = (a, b, False, cx)" using rt(4) assms(3) by simp
  have from_st: "wrote sent got V (concat bufs) st st' res"
    if "wrote sent got V (concat bufs) ?st1 st' res" for st' res
    by (rule wrote_from [OF that rt(4)]) simp_all
  show thesis
  proof (cases r0)
    case (Inl e)
    have "wrote sent got V (concat bufs) ?st1 ?st1 None" using rt(3) by (simp add: wrote_def)
    from from_st [OF this] Inl rt(1) that [of ?st1 "Inl e"] show thesis by (simp add: write_records_def)
  next
    case (Inr u)
    consider (empty) "?n = 0" | (stack) "0 < ?n" "?n \<le> MAX_RECORD \<and> wb_is_empty wb"
      | (buffered) "0 < ?n" "\<not> (?n \<le> MAX_RECORD \<and> wb_is_empty wb)" by blast
    then show thesis
    proof cases
      case empty
      then have "concat bufs = []" by (simp add: slices_len usize_max_def min_def split: if_splits)
      then have "wrote sent got V (concat bufs) ?st1 ?st1 (Some 0)" using rt(3) by (simp add: wrote_def)
      from from_st [OF this] Inr rt(1) empty that [of ?st1 "Inr 0"] show thesis
        by (simp add: write_records_def)
    next
      case buffered
      from write_buffered_ok [OF assms(1) rt(3) keep1 buffered(1), of bufs] obtain st' r where
        w: "write_buffered E T bufs ?n ?st1 = ret (st', r)"
        "wrote sent got V (concat bufs) ?st1 st' (ok_some r)" .
      have "write_records E T bufs st = ret (st', r)"
        using w(1) Inr rt(1) buffered by (auto simp: write_records_def Let_def)
      from that [OF this from_st [OF w(2)]] show thesis .
    next
      case stack
      have ne: "concat bufs \<noteq> []" using stack(1) by (auto simp: slices_len)
      have enter: "write_records E T bufs st =
          bindc (seal_on_stack E T bufs ?n ?st1) (\<lambda>(st2, r). case r of
                  Inl e \<Rightarrow> ret (st2, Inl e)
                | Inr (Some n) \<Rightarrow>
                    if n < ?n
                    then bindc (indexed (advance_slices n bufs)) (\<lambda>rest.
                           bindc (write_buffered E T rest (?n - n) st2) (\<lambda>(st3, r3).
                             ret (st3, Inr (n + (case r3 of Inr m \<Rightarrow> m | Inl _ \<Rightarrow> 0)))))
                    else ret (st2, Inr n)
                | Inr None \<Rightarrow> write_buffered E T bufs ?n st2)"
        using Inr rt(1) stack by (simp add: write_records_def Let_def)
      from seal_on_stack_ok [OF assms(1) rt(3) stack(1), of bufs] obtain st2 r2 where
        s: "seal_on_stack E T bufs ?n ?st1 = ret (st2, r2)"
        and w: "case r2 of Inr None \<Rightarrow> wrote sent got V (concat bufs) ?st1 st2 None
                 | Inr (Some n) \<Rightarrow> wrote sent got V (concat bufs) ?st1 st2 (Some n)
                 | Inl _ \<Rightarrow> wrote sent got V (concat bufs) ?st1 st2 None" .
      have live2: "tls_live sent got V st2" "tls_keep st2 = (a, b, False, cx)"
        using w keep1 by (auto simp: wrote_def split: sum.splits option.splits)
      consider (err) e where "r2 = Inl e" | (declined) "r2 = Inr None" | (sealed) n where "r2 = Inr (Some n)"
        by (metis not_None_eq sum.exhaust)
      then show thesis
      proof cases
        case err
        with w have "wrote sent got V (concat bufs) ?st1 st2 (ok_some (Inl e))" by simp
        from that [OF _ from_st [OF this]] err enter s show thesis by simp
      next
        case declined
        with w have w2: "wrote sent got V (concat bufs) ?st1 st2 None" by simp
        from write_buffered_ok [OF assms(1) live2 stack(1), of bufs] obtain st' r where
          wb: "write_buffered E T bufs ?n st2 = ret (st', r)"
          "wrote sent got V (concat bufs) st2 st' (ok_some r)" .
        have "wrote sent got V (concat bufs) ?st1 st' (ok_some r)"
          using w2 by (intro wrote_from [OF wb(2)]) (simp_all add: wrote_def)
        from that [OF _ from_st [OF this]] declined enter s wb(1) show thesis by simp
      next
        case (sealed n)
        with w have w2: "wrote sent got V (concat bufs) ?st1 st2 (Some n)" by simp
        then have le: "n \<le> length (concat bufs)" by (simp add: wrote_def)
        show thesis
        proof (cases "n < ?n")
          case False
          with that [of st2 "Inr n"] from_st [OF w2] sealed enter s show thesis by simp
        next
          case True
          from advance_slices [OF le] obtain rest where
            rest: "advance_slices n bufs = Some rest" "concat rest = drop n (concat bufs)" by blast
          have "0 < ?n - n" using True by simp
          from write_buffered_ok [OF assms(1) live2 this, of rest] obtain st3 r3 where
            wb: "write_buffered E T rest (?n - n) st2 = ret (st3, r3)"
            "wrote sent got V (concat rest) st2 st3 (ok_some r3)" .
          have w3: "wrote sent got V (concat bufs) ?st1 st3
              (Some (n + (case ok_some r3 of Some m \<Rightarrow> m | None \<Rightarrow> 0)))"
            by (rule wrote_append [OF w2 wb(2) [unfolded rest(2)] ne])
          have "write_records E T bufs st = ret (st3, Inr (n + (case r3 of Inr m \<Rightarrow> m | Inl _ \<Rightarrow> 0)))"
            using sealed enter s True rest(1) wb(1) by simp
          from that [OF this] from_st [OF w3] show thesis by (cases r3) simp_all
        qed
      qed
    qed
  qed
qed

end

section \<open>Idle streams\<close>

text \<open>The state between polls: no task context and no write in progress.\<close>

definition tls_idle ::
    "('t \<Rightarrow> byte list) \<Rightarrow> ('t \<Rightarrow> byte list) \<Rightarrow> 's engine_view \<Rightarrow> ('s, 't) tls \<Rightarrow> bool" where
  "tls_idle sent got V st \<longleftrightarrow>
     tls_wf sent got V st \<and> tr_context (tls_transport st) = 0 \<and> \<not> sw_write_through (ss_get st)"

lemma tls_idle_enter:
  assumes "tls_idle sent got V st" and "cx \<noteq> 0"
  shows "tls_live sent got V (set_context cx st)"
    and "tls_keep (set_context cx st) = (sw_shutdown_sent (ss_get st), sw_read_end (ss_get st), False, cx)"
  using assms by (simp_all add: tls_idle_def tls_live_iff sw_keep_def)

lemma tls_idle_leave:
  assumes "tls_live sent got V st1" and "tls_keep st1 = (a, b, False, cx)"
  shows "tls_idle sent got V (set_context 0 st1)"
    and "sw_shutdown_sent (ss_get (set_context 0 st1)) = a" "sw_read_end (ss_get (set_context 0 st1)) = b"
  using assms by (simp_all add: tls_idle_def tls_live_iff sw_keep_def)

lemma with_context_eq:
  "f (set_context cx st) = ret (st1, r) \<Longrightarrow> with_context cx f st = ret (set_context 0 st1, r)"
  by (simp add: with_context_def)

lemma tls_idle_history:
  assumes "tls_idle sent got V st"
  shows "v_sealed V (ss_ssl st) = sent (tr_stream (tls_transport st)) @ wb_buffered (tls_write_buf st)"
    and "got (tr_stream (tls_transport st)) =
           v_ingested V (ss_ssl st) @ rb_unread (sw_read_buf (ss_get st))"
  using assms sw_inbox_eq [of got "ss_get st"]
  by (auto simp: tls_idle_def tls_wf_def sw_wf_def sw_outbox_def)

text \<open>\<open>SslStream::new\<close> leaves an idle stream; nothing is sealed, read or buffered by it.\<close>

lemma tls_new_idle:
  assumes "tls_new E alloc s t q = (Inr st, q')" and "engine_ok E V"
    and "v_sealed V s = sent t" and "v_ingested V s = got t"
  shows "tls_idle sent got V st" and "v_taken V (ss_ssl st) = v_taken V s"
    and "v_opened V (ss_ssl st) = v_opened V s"
proof -
  have "same_history V s (e_set_mode E s (ENABLE_PARTIAL_WRITE E))"
    using assms(2) by (simp add: engine_ok_def)
  moreover have "alloc" "st = \<lparr>ss_ssl = e_set_mode E s (ENABLE_PARTIAL_WRITE E), ss_queue = q',
      ss_bio = bio_state (wrapper_new t)\<rparr>"
    using assms(1)
    by (auto simp: tls_new_def ssl_stream_new_def bio_new_def cvt_p_def fail_stack_def bio_create_def
        split: if_splits prod.splits)
  ultimately show "tls_idle sent got V st" "v_taken V (ss_ssl st) = v_taken V s"
    "v_opened V (ss_ssl st) = v_opened V s"
    using assms(3,4)
    by (simp_all add: same_history_def tls_idle_def tls_wf_def wrapper_new_wf)
      (simp_all add: wrapper_new_def)
qed

section \<open>What a read meets\<close>

text \<open>
  The records a read into \<open>room\<close> bytes goes through: the data it puts together and the end or error it
  meets, if any. Once it has data (\<open>some\<close>) it stops when the room is used up or nothing that the
  transport has handed out is left unread. Otherwise it goes on until BoringSSL reports the end of the
  data, an error, or that it must wait. One rule per way a round ends.
\<close>

inductive reads ::
    "'s ssl_api \<Rightarrow> 't async_ops \<Rightarrow> bool \<Rightarrow> nat \<Rightarrow> ('s, 't) tls
     \<Rightarrow> byte list \<Rightarrow> unit io_result option \<Rightarrow> ('s, 't) tls \<Rightarrow> bool"
  for E :: "'s ssl_api" and T :: "'t async_ops" where
  reads_enough: "room = 0 \<or> rb_is_empty (sw_read_buf (ss_get st)) \<Longrightarrow> reads E T True room st [] None st"
| reads_data: "\<lbrakk>some \<longrightarrow> 0 < room \<and> \<not> rb_is_empty (sw_read_buf (ss_get st));
     read_uninit E (wrapper_ops T) room st = ret (st1, Inr d); d \<noteq> [];
     reads E T True (room - length d) st1 d2 e st2\<rbrakk>
   \<Longrightarrow> reads E T some room st (d @ d2) e st2"
| reads_end: "\<lbrakk>some \<longrightarrow> 0 < room \<and> \<not> rb_is_empty (sw_read_buf (ss_get st));
     read_uninit E (wrapper_ops T) room st = ret (st1, Inr [])\<rbrakk>
   \<Longrightarrow> reads E T some room st [] (Some (Inr ())) st1"
| reads_error: "\<lbrakk>some \<longrightarrow> 0 < room \<and> \<not> rb_is_empty (sw_read_buf (ss_get st));
     read_uninit E (wrapper_ops T) room st = ret (st1, Inl err); io_kind err \<noteq> WouldBlock\<rbrakk>
   \<Longrightarrow> reads E T some room st [] (Some (Inl err)) st1"
| reads_block: "\<lbrakk>some \<longrightarrow> 0 < room \<and> \<not> rb_is_empty (sw_read_buf (ss_get st));
     read_uninit E (wrapper_ops T) room st = ret (st1, Inl err); io_kind err = WouldBlock\<rbrakk>
   \<Longrightarrow> reads E T some room st [] None st1"

text \<open>The relation leaves no choice, so what it says of a read is all there is to say.\<close>

lemma reads_unique:
  "reads E T some room st d e st1 \<Longrightarrow> reads E T some room st d' e' st1' \<Longrightarrow> d' = d \<and> e' = e \<and> st1' = st1"
proof (induction arbitrary: d' e' st1' rule: reads.induct)
  case (reads_data some room st st1 d d2 e st2)
  from reads_data.prems show ?case
    by cases (use reads_data.hyps(1,2,3) reads_data.IH in auto)
qed (erule reads.cases; auto)+

section \<open>Polls\<close>

context async_duplex
begin

lemma poll_write_vectored_ok:
  assumes "engine_ok E V" and "tls_idle sent got V st" and "cx \<noteq> 0"
  obtains st' r where "poll_write_vectored E T cx bufs st = ret (st', r)"
    and "tls_idle sent got V st'"
    and "sw_shutdown_sent (ss_get st') = sw_shutdown_sent (ss_get st)"
    and "sw_read_end (ss_get st') = sw_read_end (ss_get st)"
    and "v_opened V (ss_ssl st') = v_opened V (ss_ssl st)"
    and "case r of
           Ready (Inr n) \<Rightarrow>
             n \<le> length (concat bufs) \<and> (concat bufs \<noteq> [] \<longrightarrow> 0 < n) \<and>
             v_taken V (ss_ssl st') = v_taken V (ss_ssl st) @ take n (concat bufs)
         | _ \<Rightarrow> v_taken V (ss_ssl st') = v_taken V (ss_ssl st)"
proof -
  note enter = tls_idle_enter [OF assms(2,3)]
  from write_records_ok [OF assms(1) enter, of bufs] obtain st1 r where
    w: "write_records E T bufs (set_context cx st) = ret (st1, r)"
    and "wrote sent got V (concat bufs) (set_context cx st) st1 (ok_some r)" .
  then have live: "tls_live sent got V st1"
    "tls_keep st1 = (sw_shutdown_sent (ss_get st), sw_read_end (ss_get st), False, cx)"
    "v_opened V (ss_ssl st1) = v_opened V (ss_ssl st)"
    and res: "case ok_some r of
        Some n \<Rightarrow> n \<le> length (concat bufs) \<and> (concat bufs \<noteq> [] \<longrightarrow> 0 < n) \<and>
                  v_taken V (ss_ssl st1) = v_taken V (ss_ssl st) @ take n (concat bufs)
      | None \<Rightarrow> v_taken V (ss_ssl st1) = v_taken V (ss_ssl st)"
    unfolding wrote_def enter(2) tls_setters by blast+
  have p: "poll_write_vectored E T cx bufs st = ret (set_context 0 st1, cvt_io r)"
    unfolding poll_write_vectored_def by (rule with_context_eq) (simp add: w)
  note leave = tls_idle_leave [OF live(1,2)]
  show thesis
    by (rule that [OF p leave])
      (use live(3) res in \<open>auto simp: cvt_io_def split: sum.splits\<close>)
qed

lemma poll_write_single: "poll_write E T cx buf st = poll_write_vectored E T cx [buf] st"
  by (simp add: poll_write_def poll_write_vectored_def)

lemma read_records_ok:
  assumes E: "engine_ok E V"
  shows "tls_live sent got V st \<Longrightarrow> length acc \<le> cap \<Longrightarrow>
    \<exists>st' d e. read_records E T cap acc st = ret (st', acc @ d, e) \<and> tls_live sent got V st' \<and>
      tls_keep st' = tls_keep st \<and> v_taken V (ss_ssl st') = v_taken V (ss_ssl st) \<and>
      length (acc @ d) \<le> cap \<and> v_opened V (ss_ssl st') = v_opened V (ss_ssl st) @ d \<and>
      ((some \<longrightarrow> 0 < cap - length acc \<and> \<not> rb_is_empty (sw_read_buf (ss_get st))) \<longrightarrow>
         reads E T some (cap - length acc) st d e st')"
proof (induction "cap - length acc" arbitrary: acc st some rule: less_induct)
  case less
  from sw.read_uninit_ok [OF less.prems(1) E, of "cap - length acc"] obtain st1 r where
    one: "read_uninit E (wrapper_ops T) (cap - length acc) st = ret (st1, r)" "tls_live sent got V st1"
      "tls_keep st1 = tls_keep st" "v_taken V (ss_ssl st1) = v_taken V (ss_ssl st)"
    and r: "case r of
         Inr d \<Rightarrow> length d \<le> cap - length acc \<and> v_opened V (ss_ssl st1) = v_opened V (ss_ssl st) @ d
       | Inl e \<Rightarrow> v_opened V (ss_ssl st1) = v_opened V (ss_ssl st)" by blast
  consider (data) d where "r = Inr d" "d \<noteq> []" | (finish) "r = Inr []" | (err) e where "r = Inl e"
    by (metis sum.exhaust)
  then show ?case
  proof cases
    case finish
    with one r less.prems(2) show ?thesis
      by (intro exI [of _ st1] exI [of _ "[]"] exI [of _ "Some (Inr ())"])
        (simp add: read_records.simps [of E T cap acc] cvt_io_def reads_end)
  next
    case err
    with one r less.prems(2) show ?thesis
      by (intro exI [of _ st1] exI [of _ "[]"] exI [of _ "if io_kind e = WouldBlock then None else Some (Inl e)"])
        (simp add: read_records.simps [of E T cap acc] cvt_io_def reads_error reads_block)
  next
    case data
    with r less.prems(2) have d: "length (acc @ d) \<le> cap"
      "v_opened V (ss_ssl st1) = v_opened V (ss_ssl st) @ d" by auto
    show ?thesis
    proof (cases "cap - length (acc @ d) = 0 \<or> rb_is_empty (sw_read_buf (ss_get st1))")
      case True
      then have "reads E T True (cap - length acc - length d) st1 [] None st1"
        by (intro reads_enough) auto
      from reads_data [OF _ one(1) [unfolded data(1)] data(2) this, of some] True one d data show ?thesis
        by (intro exI [of _ st1] exI [of _ d] exI [of _ None])
          (simp add: read_records.simps [of E T cap acc] cvt_io_def)
    next
      case False
      with data(2) have "cap - length (acc @ d) < cap - length acc" by (cases d) auto
      from less.hyps [OF this one(2) d(1), of True] obtain st' d2 e where
        rec: "read_records E T cap (acc @ d) st1 = ret (st', (acc @ d) @ d2, e)" "tls_live sent got V st'"
        "tls_keep st' = tls_keep st1" "v_taken V (ss_ssl st') = v_taken V (ss_ssl st1)"
        "length ((acc @ d) @ d2) \<le> cap" "v_opened V (ss_ssl st') = v_opened V (ss_ssl st1) @ d2"
        "reads E T True (cap - length acc - length d) st1 d2 e st'"
        using False by auto
      have "read_records E T cap acc st = read_records E T cap (acc @ d) st1"
        using one(1) data False by (simp add: read_records.simps [of E T cap acc] cvt_io_def)
      with rec one d(2) reads_data [OF _ one(1) [unfolded data(1)] data(2) rec(7), of some] show ?thesis
        by (intro exI [of _ st'] exI [of _ "d @ d2"] exI [of _ e]) simp
    qed
  qed
qed

lemma set_read_end_live:
  "tls_live sent got V st \<Longrightarrow> tls_live sent got V (set_read_end e st)"
  "tls_keep st = (a, b, c, cx) \<Longrightarrow> tls_keep (set_read_end e st) = (a, e, c, cx)"
  by (simp_all add: ss_ok_def set_read_end_def ss_with_def sw_live_def sw_wf_def sw_outbox_def
      sw_inbox_def sw_keep_def)

text \<open>
  \<open>poll_read\<close> hands out exactly what the engine returned; an end met after data is kept for the next
  read, which reports it without touching the connection.
\<close>

lemma poll_read_kept:
  assumes "sw_read_end (ss_get st) = Some x" and "0 < cap"
  shows "\<exists>st'. poll_read E T cx cap st = ret (st', [], Ready x) \<and> ss_ssl st' = ss_ssl st"
proof -
  have "poll_read E T cx cap st = ret (set_context 0 (set_read_end None (set_context cx st)), [], Ready x)"
    unfolding poll_read_def by (rule with_context_eq) (use assms in \<open>simp add: set_context_def ss_with_def\<close>)
  then show ?thesis by (simp add: set_read_end_def)
qed

lemma poll_read_ok:
  assumes "engine_ok E V" and "tls_idle sent got V st" and "cx \<noteq> 0"
  obtains st' d r where "poll_read E T cx cap st = ret (st', d, r)"
    and "tls_idle sent got V st'"
    and "sw_shutdown_sent (ss_get st') = sw_shutdown_sent (ss_get st)"
    and "v_taken V (ss_ssl st') = v_taken V (ss_ssl st)"
    and "v_opened V (ss_ssl st') = v_opened V (ss_ssl st) @ d" and "length d \<le> cap"
    and "d \<noteq> [] \<longrightarrow> r = Ready (Inr ())"
    and "0 < cap \<longrightarrow>
           (case sw_read_end (ss_get st) of
              Some e \<Rightarrow> d = [] \<and> r = Ready e \<and> ss_ssl st' = ss_ssl st \<and> sw_read_end (ss_get st') = None
            | None \<Rightarrow>
                \<exists>e s1. reads E T False cap (set_context cx st) d e s1 \<and> ss_ssl st' = ss_ssl s1 \<and>
                  (d = [] \<longrightarrow> r = (case e of None \<Rightarrow> Pending | Some x \<Rightarrow> Ready x) \<and>
                             sw_read_end (ss_get st') = None) \<and>
                  (d \<noteq> [] \<longrightarrow> sw_read_end (ss_get st') = e))"
proof -
  note enter = tls_idle_enter [OF assms(2,3)]
  let ?s = "set_context cx st"
  have re: "sw_read_end (ss_get ?s) = sw_read_end (ss_get st)" using enter(2) by (simp add: sw_keep_def)
  consider (none) "cap = 0" | (kept) e where "0 < cap" "sw_read_end (ss_get st) = Some e"
    | (more) "0 < cap" "sw_read_end (ss_get st) = None" by (cases "cap = 0") auto
  then show thesis
  proof cases
    case none
    note leave = tls_idle_leave [OF enter]
    have "poll_read E T cx cap st = ret (set_context 0 ?s, [], Ready (Inr ()))"
      unfolding poll_read_def by (rule with_context_eq) (simp add: none)
    then show thesis by (rule that [OF _ leave(1,2)]) (simp_all add: none)
  next
    case kept
    note leave = tls_idle_leave [OF set_read_end_live(1) [OF enter(1)] set_read_end_live(2) [OF enter(2)], of None]
    have "poll_read E T cx cap st = ret (set_context 0 (set_read_end None ?s), [], Ready e)"
      unfolding poll_read_def by (rule with_context_eq) (use kept re in simp)
    then show thesis by (rule that [OF _ leave(1,2)]) (use leave(3) kept in simp_all)
  next
    case more
    from read_records_ok [OF assms(1) enter(1), of "[]" cap False] obtain s1 d e where
      rr: "read_records E T cap [] ?s = ret (s1, d, e)" "tls_live sent got V s1"
      "tls_keep s1 = tls_keep ?s" "v_taken V (ss_ssl s1) = v_taken V (ss_ssl st)"
      "length d \<le> cap" "v_opened V (ss_ssl s1) = v_opened V (ss_ssl st) @ d"
      "reads E T False cap ?s d e s1" by auto
    note keep = rr(3) [unfolded enter(2)]
    show thesis
    proof (cases "d = []")
      case True
      note leave = tls_idle_leave [OF rr(2) keep]
      have "poll_read E T cx cap st =
          ret (set_context 0 s1, [], case e of None \<Rightarrow> Pending | Some e \<Rightarrow> Ready e)"
        unfolding poll_read_def by (rule with_context_eq) (use more re rr(1) True in simp)
      then show thesis
        by (rule that [OF _ leave(1,2)])
          (use rr True leave(3) more in \<open>auto intro!: exI [of _ e] exI [of _ s1]\<close>)
    next
      case False
      note leave = tls_idle_leave [OF set_read_end_live(1) [OF rr(2)] set_read_end_live(2) [OF keep], of e]
      have "poll_read E T cx cap st = ret (set_context 0 (set_read_end e s1), d, Ready (Inr ()))"
        unfolding poll_read_def by (rule with_context_eq) (use more re rr(1) False in simp)
      then show thesis
        by (rule that [OF _ leave(1,2)])
          (use rr False more leave(3) in \<open>auto simp: set_read_end_def intro!: exI [of _ e] exI [of _ s1]\<close>)
    qed
  qed
qed

end

text \<open>
  What the return value of \<open>SSL_shutdown\<close> means: the alert counts as sent if it is 0 or 1, or if the
  call fails because the connection is closed already; any other failure is the answer of the poll.
\<close>

definition shutdown_verdict ::
    "'s ssl_api \<Rightarrow> ('s, 't) tls \<Rightarrow> int \<Rightarrow> bool \<Rightarrow> unit io_result poll \<Rightarrow> bool" where
  "shutdown_verdict E s0 rc alert_sent r \<longleftrightarrow>
     (if rc = 0 \<or> rc = 1 then alert_sent
      else \<exists>s1 e. make_error E s0 rc = ret (s1, e) \<and>
        (if ssl_code e = ZERO_RETURN \<or> closed_by_alert E e then alert_sent
         else \<not> alert_sent \<and>
           r = (if ssl_code e = WANT_READ \<or> ssl_code e = WANT_WRITE then Pending
                else Ready (Inl (io_of_ssl e)))))"

text \<open>The one call of \<open>SSL_shutdown\<close> a poll makes in \<open>st\<close>; \<open>st'\<close> has BoringSSL as that call left it.\<close>

definition shutdown_called ::
    "'s ssl_api \<Rightarrow> 't async_ops \<Rightarrow> ('s, 't) tls \<Rightarrow> bool \<Rightarrow> ('s, 't) tls \<Rightarrow> unit io_result poll \<Rightarrow> bool" where
  "shutdown_called E T st alert_sent st' r \<longleftrightarrow>
     (\<exists>s0 rc d. ss_call (wrapper_ops T) st (e_shutdown E (ss_ssl st) (ss_queue st)) = (s0, rc, d) \<and>
        ss_ssl st' = ss_ssl s0 \<and> shutdown_verdict E s0 rc alert_sent r)"

lemma shutdown_verdict_sent:
  "shutdown_verdict E s0 rc True r1 \<Longrightarrow> shutdown_verdict E s0 rc True r2"
  unfolding shutdown_verdict_def by (auto split: if_splits)

lemma shutdown_called_sent:
  assumes "shutdown_called E T st True st1 r1" and "ss_ssl st2 = ss_ssl st1"
  shows "shutdown_called E T st True st2 r2"
  using assms shutdown_verdict_sent unfolding shutdown_called_def by fastforce

lemma shutdown_called_context:
  "shutdown_called E T st a (set_context cx st') r \<longleftrightarrow> shutdown_called E T st a st' r"
  by (simp add: shutdown_called_def)

lemma make_error_ssl:
  "make_error E st r = ret (st', e) \<Longrightarrow> ss_ssl st' = ss_ssl st"
  by (auto simp: make_error_def Let_def get_bio_error_def split: prod.splits option.splits error_code.splits
      if_splits)

lemma ssl_shutdown_called:
  assumes "ssl_shutdown E W st = ret (s, r)"
  obtains s0 rc d where "ss_call W st (e_shutdown E (ss_ssl st) (ss_queue st)) = (s0, rc, d)"
    and "ss_ssl s = ss_ssl s0"
    and "case r of Inr _ \<Rightarrow> rc = 0 \<or> rc = 1 | Inl e \<Rightarrow> rc \<noteq> 0 \<and> rc \<noteq> 1 \<and> make_error E s0 rc = ret (s, e)"
proof -
  obtain s0 rc d where c: "ss_call W st (e_shutdown E (ss_ssl st) (ss_queue st)) = (s0, rc, d)"
    by (cases "ss_call W st (e_shutdown E (ss_ssl st) (ss_queue st))")
  show thesis
  proof (cases "rc = 0 \<or> rc = 1")
    case True
    with assms c that show thesis by (auto simp: ssl_shutdown_def)
  next
    case False
    obtain e where "make_error E s0 rc = ret (s, e)" "r = Inl e"
      using assms c False by (auto simp: ssl_shutdown_def bindc_eq_ret)
    with make_error_ssl [OF this(1)] False c that show thesis by simp
  qed
qed

lemma set_shutdown_sent_live:
  "tls_live sent got V (ss_with (\<lambda>w. w\<lparr>sw_shutdown_sent := x\<rparr>) st) \<longleftrightarrow> tls_live sent got V st"
  "tls_keep st = (a, b, c, cx) \<Longrightarrow> tls_keep (ss_with (\<lambda>w. w\<lparr>sw_shutdown_sent := x\<rparr>) st) = (x, b, c, cx)"
  by (simp_all add: ss_ok_def ss_with_def sw_live_def sw_wf_def sw_outbox_def sw_inbox_def sw_keep_def)

context async_duplex
begin

text \<open>A flush that is ready has handed every sealed byte to the transport, and is no call of the engine.\<close>

lemma poll_flush_ok:
  assumes "tls_idle sent got V st" and "cx \<noteq> 0"
  obtains st' r where "poll_flush T cx st = ret (st', r)" and "tls_idle sent got V st'"
    and "sw_shutdown_sent (ss_get st') = sw_shutdown_sent (ss_get st)"
    and "sw_read_end (ss_get st') = sw_read_end (ss_get st)" and "ss_ssl st' = ss_ssl st"
    and "r = Ready (Inr ()) \<longrightarrow> wb_buffered (tls_write_buf st') = []"
proof -
  note enter = tls_idle_enter [OF assms]
  let ?s = "set_context cx st"
  from sw.flush_ok [OF enter(1)] obtain w x where
    f: "s_flush (wrapper_ops T) (ss_get ?s) = (w, Ret x)"
    "ssl_stream_flush (wrapper_ops T) ?s = ret (ss_with (\<lambda>_. w) ?s, x)"
    "tls_live sent got V (ss_with (\<lambda>_. w) ?s)" "sw_keep w = tls_keep ?s" by blast
  have live: "sw_live got (ss_get ?s)" using enter(1) by (simp add: ss_ok_def)
  have "sw_flush T (ss_get ?s) = (w, Ret x)" using f(1) by (simp add: wrapper_ops_def)
  from sw_flush [OF live this] have e: "x = Inr () \<longrightarrow> wb_buffered (sw_write_buf w) = []" by simp
  have keep: "tls_keep (ss_with (\<lambda>_. w) ?s) =
      (sw_shutdown_sent (ss_get st), sw_read_end (ss_get st), False, cx)"
    using f(4) enter(2) by simp
  note leave = tls_idle_leave [OF f(3) keep]
  have p: "poll_flush T cx st = ret (set_context 0 (ss_with (\<lambda>_. w) ?s), cvt_io x)"
    unfolding poll_flush_def by (rule with_context_eq) (simp add: f(2))
  show thesis
    by (rule that [OF p leave]) (use e in \<open>auto simp: cvt_io_def split: sum.splits if_splits\<close>)
qed

lemma send_shutdown_ok:
  assumes "engine_ok E V" and "tls_live sent got V st" and "tls_keep st = (a, b, False, cx)"
  obtains st' r a' where "send_shutdown E T st = ret (st', r)" and "tls_live sent got V st'"
    and "tls_keep st' = (a', b, False, cx)" and "no_plaintext V (ss_ssl st) 0 [] (ss_ssl st')"
    and "r = Ready (Inr ()) \<longrightarrow> a'" and "\<not> a' \<longrightarrow> r \<noteq> Ready (Inr ())"
    and "\<not> a \<longrightarrow> shutdown_called E T st a' st' r"
proof -
  from sw.shutdown_ok [OF assms(2,1)] obtain s r where
    sh: "ssl_shutdown E (wrapper_ops T) st = ret (s, r)" "tls_live sent got V s"
    "tls_keep s = tls_keep st" "no_plaintext V (ss_ssl st) 0 [] (ss_ssl s)" .
  from ssl_shutdown_called [OF sh(1)] obtain s0 rc d where
    c: "ss_call (wrapper_ops T) st (e_shutdown E (ss_ssl st) (ss_queue st)) = (s0, rc, d)"
    "ss_ssl s = ss_ssl s0"
    "case r of Inr _ \<Rightarrow> rc = 0 \<or> rc = 1 | Inl e \<Rightarrow> rc \<noteq> 0 \<and> rc \<noteq> 1 \<and> make_error E s0 rc = ret (s, e)" .
  define closed where "closed \<longleftrightarrow> (case r of Inr _ \<Rightarrow> True
      | Inl e \<Rightarrow> ssl_code e = ZERO_RETURN \<or> closed_by_alert E e)"
  note keep = sh(3) [unfolded assms(3)]
  show thesis
  proof (cases closed)
    case True
    let ?s = "ss_with (\<lambda>w. w\<lparr>sw_shutdown_sent := True\<rparr>) s"
    have "send_shutdown E T st = ret (?s, Ready (Inr ()))"
      using sh(1) True by (auto simp: send_shutdown_def closed_def Let_def split: sum.splits)
    moreover have "tls_live sent got V ?s" by (simp add: set_shutdown_sent_live sh(2))
    moreover note set_shutdown_sent_live(2) [OF keep, of True]
    moreover have "no_plaintext V (ss_ssl st) 0 [] (ss_ssl ?s)" using sh(4) by simp
    moreover have "shutdown_called E T st True ?s (Ready (Inr ()))"
      unfolding shutdown_called_def shutdown_verdict_def using c True by (cases r) (auto simp: closed_def)
    ultimately show thesis using that by blast
  next
    case False
    then obtain e where e: "r = Inl e" "ssl_code e \<noteq> ZERO_RETURN" "\<not> closed_by_alert E e"
      by (cases r) (auto simp: closed_def)
    define pr where "pr = (if ssl_code e = WANT_READ \<or> ssl_code e = WANT_WRITE then Pending
        else Ready (Inl (io_of_ssl e)) :: unit io_result poll)"
    have "send_shutdown E T st = ret (s, pr)"
      using sh(1) e by (simp add: send_shutdown_def pr_def)
    moreover have "pr \<noteq> Ready (Inr ())" by (simp add: pr_def)
    moreover have "shutdown_called E T st False s pr"
      unfolding shutdown_called_def shutdown_verdict_def using c e by (auto simp: pr_def)
    ultimately show thesis using that [of s pr a] sh(2,4) keep by (cases a) simp_all
  qed
qed

text \<open>
  Shutting down: \<open>SSL_shutdown\<close> until it has nothing left to send, then a flush, then the transport.
  Once it is ready everything sealed, the close_notify included, is with the transport.
\<close>

lemma poll_shutdown_ok:
  assumes "engine_ok E V" and "tls_idle sent got V st" and "cx \<noteq> 0"
  obtains st' r where "poll_shutdown E T cx st = ret (st', r)" and "tls_idle sent got V st'"
    and "sw_read_end (ss_get st') = sw_read_end (ss_get st)"
    and "no_plaintext V (ss_ssl st) 0 [] (ss_ssl st')"
    and "sw_shutdown_sent (ss_get st) \<longrightarrow> ss_ssl st' = ss_ssl st \<and> sw_shutdown_sent (ss_get st')"
    and "r = Ready (Inr ()) \<longrightarrow> sw_shutdown_sent (ss_get st') \<and> wb_buffered (tls_write_buf st') = [] \<and>
           (\<exists>t. sent t = sent (tr_stream (tls_transport st')) \<and>
                a_poll_shutdown T t cx = (tr_stream (tls_transport st'), Ready (Inr ())))"
    and "\<not> sw_shutdown_sent (ss_get st) \<longrightarrow>
           shutdown_called E T (set_context cx st) (sw_shutdown_sent (ss_get st')) st' r"
proof -
  obtain st1 r1 where one: "(if sw_shutdown_sent (ss_get st) then ret (st, Ready (Inr ()))
            else with_context cx (send_shutdown E T) st) = ret (st1, r1)"
    and st1: "tls_idle sent got V st1" "sw_read_end (ss_get st1) = sw_read_end (ss_get st)"
    "no_plaintext V (ss_ssl st) 0 [] (ss_ssl st1)" "r1 = Ready (Inr ()) \<longrightarrow> sw_shutdown_sent (ss_get st1)"
    "sw_shutdown_sent (ss_get st) \<longrightarrow> st1 = st"
    "\<not> sw_shutdown_sent (ss_get st1) \<longrightarrow> r1 \<noteq> Ready (Inr ())"
    "\<not> sw_shutdown_sent (ss_get st) \<longrightarrow>
       shutdown_called E T (set_context cx st) (sw_shutdown_sent (ss_get st1)) st1 r1"
  proof (cases "sw_shutdown_sent (ss_get st)")
    case True
    with that [of st "Ready (Inr ())"] assms(2) show thesis by (simp add: no_plaintext_def)
  next
    case False
    note enter = tls_idle_enter [OF assms(2,3)]
    from send_shutdown_ok [OF assms(1) enter] obtain s r a where
      sd: "send_shutdown E T (set_context cx st) = ret (s, r)" "tls_live sent got V s"
      "tls_keep s = (a, sw_read_end (ss_get st), False, cx)"
      "no_plaintext V (ss_ssl (set_context cx st)) 0 [] (ss_ssl s)" "r = Ready (Inr ()) \<longrightarrow> a"
      "\<not> a \<longrightarrow> r \<noteq> Ready (Inr ())"
      "\<not> sw_shutdown_sent (ss_get st) \<longrightarrow> shutdown_called E T (set_context cx st) a s r" .
    note leave = tls_idle_leave [OF sd(2,3)]
    have "no_plaintext V (ss_ssl st) 0 [] (ss_ssl (set_context 0 s))" using sd(4) by simp
    then show thesis
      by (rule that [of "set_context 0 s" r, rotated 3])
        (use with_context_eq [of "send_shutdown E T", OF sd(1)] leave sd(5-7) False in
          \<open>simp_all add: shutdown_called_context\<close>)
  qed
  have called: "shutdown_called E T (set_context cx st) (sw_shutdown_sent (ss_get st2)) st2 r"
    if "r1 = Ready (Inr ())" "\<not> sw_shutdown_sent (ss_get st)" "ss_ssl st2 = ss_ssl st1"
      "sw_shutdown_sent (ss_get st2) = sw_shutdown_sent (ss_get st1)" for st2 r
    using shutdown_called_sent [of E T "set_context cx st" st1 r1 st2 r] st1(4,7) that by simp
  show thesis
  proof (cases "r1 = Ready (Inr ())")
    case False
    have "poll_shutdown E T cx st = ret (st1, r1)"
      using one False by (auto simp: poll_shutdown_def split: poll.splits sum.splits)
    then show thesis by (rule that) (use st1 False in auto)
  next
    case True
    from poll_flush_ok [OF st1(1) assms(3)] obtain st2 r2 where
      fl: "poll_flush T cx st1 = ret (st2, r2)" "tls_idle sent got V st2"
      "sw_shutdown_sent (ss_get st2) = sw_shutdown_sent (ss_get st1)"
      "sw_read_end (ss_get st2) = sw_read_end (ss_get st1)" "ss_ssl st2 = ss_ssl st1"
      "r2 = Ready (Inr ()) \<longrightarrow> wb_buffered (tls_write_buf st2) = []" .
    show thesis
    proof (cases "r2 = Ready (Inr ())")
      case r2: False
      have "poll_shutdown E T cx st = ret (st2, r2)"
        using one True fl(1) r2 by (auto simp: poll_shutdown_def split: poll.splits sum.splits)
      then show thesis by (rule that) (use fl st1(1-5) True r2 called [of st2 r2] in auto)
    next
      case r2: True
      obtain t r3 where t: "a_poll_shutdown T (tr_stream (tls_transport st2)) cx = (t, r3)"
        by (cases "a_poll_shutdown T (tr_stream (tls_transport st2)) cx")
      let ?st3 = "ss_with (\<lambda>w. w\<lparr>sw_transport := (sw_transport w)\<lparr>tr_stream := t\<rparr>\<rparr>) st2"
      have keep: "sent t = sent (tr_stream (tls_transport st2))" "got t = got (tr_stream (tls_transport st2))"
        using shutdown_law [of "tr_stream (tls_transport st2)" cx]
          got_shutdown [of "tr_stream (tls_transport st2)" cx] by (simp_all add: t)
      with fl(2) have idle: "tls_idle sent got V ?st3"
        by (simp add: tls_idle_def tls_wf_def ss_with_def sw_wf_def sw_outbox_def sw_inbox_def)
      have "r3 = Ready (Inr ()) \<longrightarrow> (\<exists>t'. sent t' = sent (tr_stream (tls_transport ?st3)) \<and>
          a_poll_shutdown T t' cx = (tr_stream (tls_transport ?st3), Ready (Inr ())))"
        by (intro impI exI [of _ "tr_stream (tls_transport st2)"]) (simp add: keep t ss_with_def)
      moreover have "poll_shutdown E T cx st = ret (?st3, r3)"
        using one True fl(1) r2 t by (simp add: poll_shutdown_def)
      ultimately show thesis
        using that [OF _ idle] fl st1(1-5) True r2 called [of ?st3 r3] by simp
    qed
  qed
qed

lemma handshake_poll_ok:
  assumes "\<And>s q. call_ok E V s (no_plaintext V s) (c s q)"
    and "tls_idle sent got V st" and "cx \<noteq> 0"
  obtains st' r where
    "with_context cx (\<lambda>s. bindc (case ss_call (wrapper_ops T) s (c (ss_ssl s) (ss_queue s)) of
         (st', r, _) \<Rightarrow> ss_finish E (\<lambda>_. ()) (st', r)) (\<lambda>(s', r). ret (s', cvt_ossl r))) st = ret (st', r)"
    and "tls_idle sent got V st'"
    and "sw_read_end (ss_get st') = sw_read_end (ss_get st)"
    and "sw_shutdown_sent (ss_get st') = sw_shutdown_sent (ss_get st)"
    and "no_plaintext V (ss_ssl st) 0 [] (ss_ssl st')"
proof -
  note enter = tls_idle_enter [OF assms(2,3)]
  let ?s = "set_context cx st"
  from sw.handshake_call [OF enter(1) assms(1) [of "ss_ssl ?s" "ss_queue ?s"], of "\<lambda>_. ()"] obtain s r where
    h: "(case ss_call (wrapper_ops T) ?s (c (ss_ssl ?s) (ss_queue ?s)) of
           (st', r, d) \<Rightarrow> ss_finish E (\<lambda>_. ()) (st', r)) = ret (s, r)"
    "tls_live sent got V s" "tls_keep s = tls_keep ?s" "no_plaintext V (ss_ssl ?s) 0 [] (ss_ssl s)" .
  note leave = tls_idle_leave [OF h(2) h(3) [unfolded enter(2)]]
  show thesis
    by (rule that [OF with_context_eq leave(1,3,2)]) (use h(1,4) in \<open>simp_all add: no_plaintext_def\<close>)
qed

lemmas poll_connect_ok =
  handshake_poll_ok [where c = "e_connect E", OF engine_okD(1), folded ssl_connect_def, folded poll_connect_def]
  for E
lemmas poll_accept_ok =
  handshake_poll_ok [where c = "e_accept E", OF engine_okD(2), folded ssl_accept_def, folded poll_accept_def]
  for E
lemmas poll_do_handshake_ok =
  handshake_poll_ok [where c = "e_do_handshake E", OF engine_okD(3), folded ssl_do_handshake_def, folded poll_do_handshake_def]
  for E

end

end
