(* ===== verification/Null_Engine.thy ===== *)
theory Null_Engine
  imports Tls_Polls
begin

text \<open>
  A connection without encryption, which shows that the contract \<open>engine_ok\<close> can be kept: it writes
  each plaintext to the BIO as it is, reads plaintext from it, and sends one byte to shut down. Its
  state is its own history.
\<close>

record null_conn =
  n_sealed :: "byte list"
  n_taken :: "byte list"
  n_ingested :: "byte list"
  n_opened :: "byte list"

definition null_start :: null_conn where
  "null_start = \<lparr>n_sealed = [], n_taken = [], n_ingested = [], n_opened = []\<rparr>"

definition null_write :: "null_conn \<Rightarrow> err_queue \<Rightarrow> byte list \<Rightarrow> null_conn bio_prog" where
  "null_write s q b =
     Bio_Write b (\<lambda>r. Done (int (length b)) []
       (s\<lparr>n_sealed := n_sealed s @ b, n_taken := n_taken s @ b\<rparr>) q)"

definition null_read :: "null_conn \<Rightarrow> err_queue \<Rightarrow> nat \<Rightarrow> null_conn bio_prog" where
  "null_read s q n =
     Bio_Read n (\<lambda>r d. Done r d (s\<lparr>n_ingested := n_ingested s @ d, n_opened := n_opened s @ d\<rparr>) q)"

definition null_shutdown :: "null_conn \<Rightarrow> err_queue \<Rightarrow> null_conn bio_prog" where
  "null_shutdown s q =
     Bio_Write [0x15] (\<lambda>r. Done 0 [] (s\<lparr>n_sealed := n_sealed s @ [0x15]\<rparr>) q)"

definition null_seal ::
    "null_conn \<Rightarrow> err_queue \<Rightarrow> byte list list \<Rightarrow> nat \<Rightarrow> nat
     \<Rightarrow> seal_result \<times> nat \<times> byte list \<times> null_conn \<times> err_queue" where
  "null_seal s q ivecs max_in room =
     (let out = take (min max_in room) (concat ivecs)
      in if out = [] then (Seal_Declined, 0, [], s, q)
         else (Seal_Success, length out, out,
               s\<lparr>n_sealed := n_sealed s @ out, n_taken := n_taken s @ out\<rparr>, q))"

definition null_engine :: "null_conn ssl_api" where
  "null_engine =
     \<lparr>e_connect = (\<lambda>s q. Done 1 [] s q), e_accept = (\<lambda>s q. Done 1 [] s q),
      e_do_handshake = (\<lambda>s q. Done 1 [] s q), e_read = null_read, e_write = null_write,
      e_shutdown = null_shutdown,
      e_get_error = (\<lambda>s q rr rw r. if r = 0 then ZERO_RETURN else if rr then WANT_READ else SYSCALL),
      e_set_mode = (\<lambda>s m. s), e_set_connect_state = (\<lambda>s. s), e_set_accept_state = (\<lambda>s. s),
      e_limits = (\<lambda>s. (1, MAX_RECORD, 0, 0)), e_seal = null_seal, e_unix = True, e_fips = False,
      ERR_LIB_NONE = 1, ERR_LIB_SSL = 16, SSL_R_PROTOCOL_IS_SHUTDOWN = 207, ENABLE_PARTIAL_WRITE = 1\<rparr>"

definition null_view :: "null_conn engine_view" where
  "null_view = \<lparr>v_sealed = n_sealed, v_taken = n_taken, v_ingested = n_ingested,
                v_opened = n_opened, v_retries = (\<lambda>_. 0)\<rparr>"

lemmas null_defs = null_engine_def null_view_def null_write_def null_read_def null_shutdown_def
  null_seal_def

lemma null_engine_ok: "engine_ok null_engine null_view"
  unfolding engine_ok_def
proof (intro conjI allI impI)
  fix s q n buf ivecs max_in room m
  show "call_ok null_engine null_view s (no_plaintext null_view s) (e_connect null_engine s q)"
    "call_ok null_engine null_view s (no_plaintext null_view s) (e_accept null_engine s q)"
    "call_ok null_engine null_view s (no_plaintext null_view s) (e_do_handshake null_engine s q)"
    by (simp_all add: null_defs call_ok_def call_end_def no_plaintext_def)
  show "call_ok null_engine null_view s (no_plaintext null_view s) (e_shutdown null_engine s q)"
    by (simp add: null_defs call_ok_def call_end_def no_plaintext_def c_int_max_def)
  show "same_history null_view s (e_set_mode null_engine s m)"
    "same_history null_view s (e_set_connect_state null_engine s)"
    "same_history null_view s (e_set_accept_state null_engine s)"
    by (simp_all add: null_defs same_history_def)
  show "seal_ok null_view s ivecs max_in room (e_seal null_engine s q ivecs max_in room)"
    by (auto simp: null_defs seal_ok_def same_history_def Let_def min_def)
next
  fix s q n
  assume "0 < n \<and> n \<le> c_int_max"
  then show "call_ok null_engine null_view s
      (\<lambda>r d s'. int (length d) = r \<and> length d \<le> n \<and> v_taken null_view s' = v_taken null_view s \<and>
                v_opened null_view s' = v_opened null_view s @ d) (e_read null_engine s q n)"
    by (auto simp: null_defs call_ok_def call_end_def)
next
  fix s q buf
  assume "buf \<noteq> [] \<and> length (buf :: byte list) \<le> c_int_max"
  then show "call_ok null_engine null_view s
      (\<lambda>r d s'. nat r \<le> length buf \<and> v_opened null_view s' = v_opened null_view s \<and>
                v_taken null_view s' = v_taken null_view s @ take (nat r) buf) (e_write null_engine s q buf)"
    by (auto simp: null_defs call_ok_def call_end_def)
qed

text \<open>A fresh stream over the test transport, with what its peer has sent and how much it takes.\<close>

definition null_tls :: "byte list \<Rightarrow> nat \<Rightarrow> (null_conn, once \<times> sink) tls" where
  "null_tls incoming room =
     \<lparr>ss_ssl = null_start, ss_queue = [],
      ss_bio = bio_state (wrapper_new
        (\<lparr>once_bytes = incoming, once_log = []\<rparr>, \<lparr>budget = room, sink_data = []\<rparr>))\<rparr>"

lemma null_tls_new:
  "tls_new null_engine True null_start
     (\<lparr>once_bytes = incoming, once_log = []\<rparr>, \<lparr>budget = room, sink_data = []\<rparr>) [] =
   (Inr (null_tls incoming room), [])"
  by (simp add: tls_new_def ssl_stream_new_def bio_new_def cvt_p_def bio_create_def null_tls_def
      null_engine_def)

lemma null_tls_idle:
  "tls_idle (\<lambda>t. sink_data (snd t)) (\<lambda>t. once_log (fst t)) null_view (null_tls incoming room)"
  by (rule tls_new_idle(1) [OF null_tls_new null_engine_ok])
    (simp_all add: null_view_def null_start_def)

end
