(* ===== verification/Tls_Run.thy ===== *)
theory Tls_Run
  imports Null_Engine
begin

text \<open>
  Any use of a stream: sequences of polls, each with the address of its task context, as a function
  that runs them and as a step relation with its reachable states.
\<close>

section \<open>Runs\<close>

datatype tls_op =
    Op_Connect nat | Op_Accept nat | Op_Handshake nat | Op_Read nat nat | Op_Write nat "byte list"
  | Op_Write_Vectored nat "byte list list" | Op_Flush nat | Op_Shutdown nat

primrec op_context :: "tls_op \<Rightarrow> nat" where
  "op_context (Op_Connect cx) = cx"
| "op_context (Op_Accept cx) = cx"
| "op_context (Op_Handshake cx) = cx"
| "op_context (Op_Read cx cap) = cx"
| "op_context (Op_Write cx b) = cx"
| "op_context (Op_Write_Vectored cx bs) = cx"
| "op_context (Op_Flush cx) = cx"
| "op_context (Op_Shutdown cx) = cx"

text \<open>The prefix of the data that a write reports as written.\<close>

definition reported :: "byte list \<Rightarrow> nat io_result poll \<Rightarrow> byte list" where
  "reported b r = (case r of Ready (Inr n) \<Rightarrow> take n b | _ \<Rightarrow> [])"

text \<open>One poll: the stream after it, the plaintext it reported as written and the one it read.\<close>

definition exec_op ::
    "'s ssl_api \<Rightarrow> 't async_ops \<Rightarrow> tls_op \<Rightarrow> ('s, 't) tls \<Rightarrow> (('s, 't) tls \<times> byte list \<times> byte list) comp" where
  "exec_op E T op st =
     (case op of
        Op_Connect cx \<Rightarrow> bindc (poll_connect E T cx st) (\<lambda>(st', _). ret (st', [], []))
      | Op_Accept cx \<Rightarrow> bindc (poll_accept E T cx st) (\<lambda>(st', _). ret (st', [], []))
      | Op_Handshake cx \<Rightarrow> bindc (poll_do_handshake E T cx st) (\<lambda>(st', _). ret (st', [], []))
      | Op_Read cx cap \<Rightarrow> bindc (poll_read E T cx cap st) (\<lambda>(st', d, _). ret (st', [], d))
      | Op_Write cx b \<Rightarrow> bindc (poll_write E T cx b st) (\<lambda>(st', r). ret (st', reported b r, []))
      | Op_Write_Vectored cx bs \<Rightarrow>
          bindc (poll_write_vectored E T cx bs st) (\<lambda>(st', r). ret (st', reported (concat bs) r, []))
      | Op_Flush cx \<Rightarrow> bindc (poll_flush T cx st) (\<lambda>(st', _). ret (st', [], []))
      | Op_Shutdown cx \<Rightarrow> bindc (poll_shutdown E T cx st) (\<lambda>(st', _). ret (st', [], [])))"

fun exec_ops ::
    "'s ssl_api \<Rightarrow> 't async_ops \<Rightarrow> tls_op list \<Rightarrow> ('s, 't) tls
     \<Rightarrow> (('s, 't) tls \<times> byte list \<times> byte list) comp" where
  "exec_ops E T [] st = ret (st, [], [])"
| "exec_ops E T (op # ops) st =
     bindc (exec_op E T op st) (\<lambda>(st1, w1, r1).
       bindc (exec_ops E T ops st1) (\<lambda>(st2, w2, r2). ret (st2, w1 @ w2, r1 @ r2)))"

section \<open>Steps\<close>

text \<open>The states a stream can be in, as a task polls it: a step is one poll with a live context.\<close>

inductive tls_step ::
    "'s ssl_api \<Rightarrow> 't async_ops \<Rightarrow> ('s, 't) tls \<Rightarrow> tls_op \<Rightarrow> ('s, 't) tls \<Rightarrow> bool"
  for E T where
  poll: "op_context op \<noteq> 0 \<Longrightarrow> exec_op E T op st = ret (st', w, r) \<Longrightarrow> tls_step E T st op st'"

inductive tls_reachable :: "'s ssl_api \<Rightarrow> 't async_ops \<Rightarrow> 's \<Rightarrow> 't \<Rightarrow> ('s, 't) tls \<Rightarrow> bool"
  for E T s t where
  new: "tls_new E alloc s t q = (Inr st, q') \<Longrightarrow> tls_reachable E T s t st"
| step: "tls_reachable E T s t st \<Longrightarrow> tls_step E T st op st' \<Longrightarrow> tls_reachable E T s t st'"

inductive_cases tls_stepE: "tls_step E T st op st'"
inductive_simps tls_step_iff: "tls_step E T st op st'"

section \<open>Lemmas\<close>

context async_duplex
begin

lemma exec_op_ok:
  assumes "engine_ok E V" and "tls_idle sent got V st" and "op_context op \<noteq> 0"
  obtains st' w r where "exec_op E T op st = ret (st', w, r)" and "tls_idle sent got V st'"
    and "v_taken V (ss_ssl st') = v_taken V (ss_ssl st) @ w"
    and "v_opened V (ss_ssl st') = v_opened V (ss_ssl st) @ r"
    and "sw_shutdown_sent (ss_get st) \<longrightarrow> sw_shutdown_sent (ss_get st')"
proof (cases op)
  case (Op_Connect cx)
  with assms(3) have "cx \<noteq> 0" by simp
  from poll_connect_ok [OF assms(1,2) this] obtain st' r where
    "poll_connect E T cx st = ret (st', r)" "tls_idle sent got V st'"
    "sw_shutdown_sent (ss_get st') = sw_shutdown_sent (ss_get st)"
    "no_plaintext V (ss_ssl st) 0 [] (ss_ssl st')" by blast
  with that [of st' "[]" "[]"] show thesis by (simp add: exec_op_def Op_Connect no_plaintext_def)
next
  case (Op_Accept cx)
  with assms(3) have "cx \<noteq> 0" by simp
  from poll_accept_ok [OF assms(1,2) this] obtain st' r where
    "poll_accept E T cx st = ret (st', r)" "tls_idle sent got V st'"
    "sw_shutdown_sent (ss_get st') = sw_shutdown_sent (ss_get st)"
    "no_plaintext V (ss_ssl st) 0 [] (ss_ssl st')" by blast
  with that [of st' "[]" "[]"] show thesis by (simp add: exec_op_def Op_Accept no_plaintext_def)
next
  case (Op_Handshake cx)
  with assms(3) have "cx \<noteq> 0" by simp
  from poll_do_handshake_ok [OF assms(1,2) this] obtain st' r where
    "poll_do_handshake E T cx st = ret (st', r)" "tls_idle sent got V st'"
    "sw_shutdown_sent (ss_get st') = sw_shutdown_sent (ss_get st)"
    "no_plaintext V (ss_ssl st) 0 [] (ss_ssl st')" by blast
  with that [of st' "[]" "[]"] show thesis by (simp add: exec_op_def Op_Handshake no_plaintext_def)
next
  case (Op_Read cx cap)
  with assms(3) have "cx \<noteq> 0" by simp
  from poll_read_ok [OF assms(1,2) this, of cap] obtain st' d r where
    "poll_read E T cx cap st = ret (st', d, r)" "tls_idle sent got V st'"
    "sw_shutdown_sent (ss_get st') = sw_shutdown_sent (ss_get st)"
    "v_taken V (ss_ssl st') = v_taken V (ss_ssl st)"
    "v_opened V (ss_ssl st') = v_opened V (ss_ssl st) @ d" by blast
  with that [of st' "[]" d] show thesis by (simp add: exec_op_def Op_Read)
next
  case (Op_Write cx b)
  with assms(3) have "cx \<noteq> 0" by simp
  from poll_write_vectored_ok [OF assms(1,2) this, of "[b]"] obtain st' r where
    "poll_write_vectored E T cx [b] st = ret (st', r)" "tls_idle sent got V st'"
    "sw_shutdown_sent (ss_get st') = sw_shutdown_sent (ss_get st)"
    "sw_read_end (ss_get st') = sw_read_end (ss_get st)"
    "v_opened V (ss_ssl st') = v_opened V (ss_ssl st)"
    "case r of
       Ready (Inr n) \<Rightarrow>
         n \<le> length (concat [b]) \<and> (concat [b] \<noteq> [] \<longrightarrow> 0 < n) \<and>
         v_taken V (ss_ssl st') = v_taken V (ss_ssl st) @ take n (concat [b])
     | _ \<Rightarrow> v_taken V (ss_ssl st') = v_taken V (ss_ssl st)" .
  with that [of st' "reported b r" "[]"] show thesis
    by (auto simp: exec_op_def Op_Write poll_write_single reported_def split: poll.splits sum.splits)
next
  case (Op_Write_Vectored cx bs)
  with assms(3) have "cx \<noteq> 0" by simp
  from poll_write_vectored_ok [OF assms(1,2) this, of bs] obtain st' r where
    "poll_write_vectored E T cx bs st = ret (st', r)" "tls_idle sent got V st'"
    "sw_shutdown_sent (ss_get st') = sw_shutdown_sent (ss_get st)"
    "sw_read_end (ss_get st') = sw_read_end (ss_get st)"
    "v_opened V (ss_ssl st') = v_opened V (ss_ssl st)"
    "case r of
       Ready (Inr n) \<Rightarrow>
         n \<le> length (concat bs) \<and> (concat bs \<noteq> [] \<longrightarrow> 0 < n) \<and>
         v_taken V (ss_ssl st') = v_taken V (ss_ssl st) @ take n (concat bs)
     | _ \<Rightarrow> v_taken V (ss_ssl st') = v_taken V (ss_ssl st)" .
  with that [of st' "reported (concat bs) r" "[]"] show thesis
    by (auto simp: exec_op_def Op_Write_Vectored reported_def split: poll.splits sum.splits)
next
  case (Op_Flush cx)
  with assms(3) have "cx \<noteq> 0" by simp
  from poll_flush_ok [OF assms(2) this] obtain st' r where
    "poll_flush T cx st = ret (st', r)" "tls_idle sent got V st'"
    "sw_shutdown_sent (ss_get st') = sw_shutdown_sent (ss_get st)" "ss_ssl st' = ss_ssl st" by blast
  with that [of st' "[]" "[]"] show thesis by (simp add: exec_op_def Op_Flush)
next
  case (Op_Shutdown cx)
  with assms(3) have "cx \<noteq> 0" by simp
  from poll_shutdown_ok [OF assms(1,2) this] obtain st' r where
    "poll_shutdown E T cx st = ret (st', r)" "tls_idle sent got V st'"
    "no_plaintext V (ss_ssl st) 0 [] (ss_ssl st')"
    "sw_shutdown_sent (ss_get st) \<longrightarrow> ss_ssl st' = ss_ssl st \<and> sw_shutdown_sent (ss_get st')" by blast
  with that [of st' "[]" "[]"] show thesis by (simp add: exec_op_def Op_Shutdown no_plaintext_def)
qed

lemma exec_ops_ok:
  assumes "engine_ok E V" and "tls_idle sent got V st" and "list_all (\<lambda>op. op_context op \<noteq> 0) ops"
  shows "\<exists>st' w r. exec_ops E T ops st = ret (st', w, r) \<and> tls_idle sent got V st' \<and>
           v_taken V (ss_ssl st') = v_taken V (ss_ssl st) @ w \<and>
           v_opened V (ss_ssl st') = v_opened V (ss_ssl st) @ r"
  using assms(2,3)
proof (induction ops arbitrary: st)
  case (Cons op ops)
  from Cons.prems(2) have cx: "op_context op \<noteq> 0" "list_all (\<lambda>op. op_context op \<noteq> 0) ops" by simp_all
  from exec_op_ok [OF assms(1) Cons.prems(1) cx(1)] obtain st1 w1 r1 where
    one: "exec_op E T op st = ret (st1, w1, r1)" "tls_idle sent got V st1"
    "v_taken V (ss_ssl st1) = v_taken V (ss_ssl st) @ w1"
    "v_opened V (ss_ssl st1) = v_opened V (ss_ssl st) @ r1" by blast
  from Cons.IH [OF one(2) cx(2)] one show ?case by auto
qed simp

lemma reachable_idle:
  assumes "engine_ok E V" and "v_sealed V s = sent t" and "v_ingested V s = got t"
    and "tls_reachable E T s t st"
  shows "tls_idle sent got V st"
  using assms(4)
proof (induction rule: tls_reachable.induct)
  case (new alloc q st q')
  then show ?case by (rule tls_new_idle(1) [where sent = sent and got = got, OF _ assms(1-3)])
next
  case (step st op st')
  from step.hyps(2) obtain w r where "op_context op \<noteq> 0" "exec_op E T op st = ret (st', w, r)"
    by (auto elim: tls_stepE)
  with exec_op_ok [OF assms(1) step.IH] show ?case by (metis Pair_inject ret_eq_iff(2))
qed

end

end
