(* ===== verification/Ex_Data.thy ===== *)
theory Ex_Data
  imports Errors
begin

text \<open>
  The extra data of \<open>SSL\<close> and \<open>SSL_CTX\<close> objects (\<open>btls/src/ssl/mod.rs\<close>): a boxed value per index, null
  when it was never set. \<open>lost\<close> collects the boxes that a raw overwrite makes unreachable.
\<close>

record 'v ex_data =
  ex_slots :: "nat \<Rightarrow> 'v option"
  ex_lost :: "'v list"

definition ex_empty :: "'v ex_data" where
  "ex_empty = \<lparr>ex_slots = (\<lambda>_. None), ex_lost = []\<rparr>"

text \<open>\<open>SslContextRef::ex_data\<close> and \<open>SslRef::ex_data\<close>, and the \<open>_mut\<close> variants.\<close>

definition ex_get :: "'v ex_data \<Rightarrow> nat \<Rightarrow> 'v option" where
  "ex_get d i = ex_slots d i"

text \<open>\<open>SslContextRef::set_ex_data\<close>, the raw store of a new box.\<close>

definition ctx_set_ex_data :: "'v ex_data \<Rightarrow> nat \<Rightarrow> 'v \<Rightarrow> 'v ex_data" where
  "ctx_set_ex_data d i v =
     d\<lparr>ex_slots := (ex_slots d)(i := Some v),
       ex_lost := (case ex_slots d i of None \<Rightarrow> ex_lost d | Some old \<Rightarrow> ex_lost d @ [old])\<rparr>"

text \<open>\<open>SslContextRef::replace_ex_data\<close>: swaps in place if the box is there.\<close>

definition ctx_replace_ex_data :: "'v ex_data \<Rightarrow> nat \<Rightarrow> 'v \<Rightarrow> 'v ex_data \<times> 'v option" where
  "ctx_replace_ex_data d i v =
     (case ex_get d i of
        Some old \<Rightarrow> (d\<lparr>ex_slots := (ex_slots d)(i := Some v)\<rparr>, Some old)
      | None \<Rightarrow> (ctx_set_ex_data d i v, None))"

text \<open>\<open>SslRef::set_ex_data\<close> and \<open>SslRef::replace_ex_data\<close>; the first drops an old value in place.\<close>

definition ssl_set_ex_data :: "'v ex_data \<Rightarrow> nat \<Rightarrow> 'v \<Rightarrow> 'v ex_data" where
  "ssl_set_ex_data d i v =
     (case ex_get d i of
        Some _ \<Rightarrow> d\<lparr>ex_slots := (ex_slots d)(i := Some v)\<rparr>
      | None \<Rightarrow> d\<lparr>ex_slots := (ex_slots d)(i := Some v)\<rparr>)"

definition ssl_replace_ex_data :: "'v ex_data \<Rightarrow> nat \<Rightarrow> 'v \<Rightarrow> 'v ex_data \<times> 'v option" where
  "ssl_replace_ex_data d i v =
     (case ex_get d i of
        Some old \<Rightarrow> (d\<lparr>ex_slots := (ex_slots d)(i := Some v)\<rparr>, Some old)
      | None \<Rightarrow> (ssl_set_ex_data d i v, None))"

lemma ex_get_ops [simp]:
  "ex_get (ctx_set_ex_data d i v) j = (if j = i then Some v else ex_get d j)"
  "ex_get (fst (ctx_replace_ex_data d i v)) j = (if j = i then Some v else ex_get d j)"
  "ex_get (ssl_set_ex_data d i v) j = (if j = i then Some v else ex_get d j)"
  "ex_get (fst (ssl_replace_ex_data d i v)) j = (if j = i then Some v else ex_get d j)"
  "snd (ctx_replace_ex_data d i v) = ex_get d i" "snd (ssl_replace_ex_data d i v) = ex_get d i"
  "ex_get ex_empty j = None"
  by (auto simp: ex_get_def ctx_set_ex_data_def ctx_replace_ex_data_def ssl_set_ex_data_def
      ssl_replace_ex_data_def ex_empty_def split: option.splits)

text \<open>Only the raw store can lose a box; replacing never does.\<close>

lemma ex_lost_ops [simp]:
  "ex_lost (fst (ctx_replace_ex_data d i v)) = ex_lost d"
  "ex_lost (ssl_set_ex_data d i v) = ex_lost d"
  "ex_lost (fst (ssl_replace_ex_data d i v)) = ex_lost d"
  by (auto simp: ctx_replace_ex_data_def ctx_set_ex_data_def ssl_set_ex_data_def
      ssl_replace_ex_data_def ex_get_def split: option.splits)

end
