(* ===== verification/Ech_Grease.thy ===== *)
theory Ech_Grease
  imports Prelude Ex_Data
begin

text \<open>
  ECH GREASE (\<open>btls/src/ssl/ech_grease.rs\<close>): the sizes of the fake extension, drawn as BoringSSL or
  computed as NSS does, and the policies installed on contexts and connections.

  Extension numbers come from the bindings and are a parameter; so are the random bytes.
\<close>

section \<open>Parameters\<close>

definition TLS_EXTENSION_HEADER_LEN :: nat where "TLS_EXTENSION_HEADER_LEN = 4"

text \<open>The numbers of the bindings: the extensions the rule names, and the two HPKE AEADs.\<close>

record ech_numbers =
  SERVER_NAME :: "16 word"
  SUPPORTED_VERSIONS :: "16 word"
  EC_POINT_FORMATS :: "16 word"
  EXTENDED_MASTER_SECRET :: "16 word"
  SESSION_TICKET :: "16 word"
  RENEGOTIATE :: "16 word"
  AES_128_GCM :: "16 word"
  CHACHA20_POLY1305 :: "16 word"

definition NSS_TICKET_EARLY_DATA_INFO :: "16 word" where "NSS_TICKET_EARLY_DATA_INFO = 46"

text \<open>\<open>ExtensionType::is_grease\<close>.\<close>

definition is_grease :: "16 word \<Rightarrow> bool" where
  "is_grease v \<longleftrightarrow> v AND 0x0f0f = 0x0a0a \<and> drop_bit 8 v = v AND 0xff"

text \<open>\<open>EchGreaseAead\<close>, by its \<open>id\<close>.\<close>

type_synonym grease_aead = "16 word"

datatype grease_rounding = Nss_Pre_3127 | Nss_3127

record grease_parameters =
  g_aead :: grease_aead
  g_payload_length :: "16 word"
  g_random_enc :: bool

definition grease_parameters_new :: "grease_aead \<Rightarrow> 16 word \<Rightarrow> grease_parameters" where
  "grease_parameters_new aead n = \<lparr>g_aead = aead, g_payload_length = n, g_random_enc = False\<rparr>"

text \<open>\<open>EchGreaseSizeInfo\<close>: what the first ClientHello holds.\<close>

record size_info =
  cipher_suites :: "byte list"
  extensions :: "(16 word \<times> nat) list"
  preamble_length :: nat
  psk_extension_length :: nat
  server_name_length :: "nat option"
  default_aead :: grease_aead
  aead_overhead :: nat
  max_payload_length :: nat
  message_length :: nat
  is_dtls :: bool
  is_quic :: bool

section \<open>Payload lengths\<close>

definition checked_payload_length :: "32 word \<Rightarrow> size_info \<Rightarrow> nat \<Rightarrow> error_stack + 16 word" where
  "checked_payload_length err_lib_none info len =
     (if len < 2 ^ 16 \<and> len \<le> max_payload_length info \<and> len \<noteq> 0
      then Inr (of_nat len)
      else Inl (internal_error_str err_lib_none ''ECH GREASE payload exceeds budget''))"

text \<open>\<open>boringssl_parameters\<close>; \<open>draw\<close> is the result of \<open>rand_bytes\<close> on one byte.\<close>

definition boringssl_parameters ::
    "32 word \<Rightarrow> size_info \<Rightarrow> grease_aead \<Rightarrow> error_stack + byte \<Rightarrow> error_stack + grease_parameters" where
  "boringssl_parameters err_lib_none info aead draw =
     (case draw of
        Inl es \<Rightarrow> Inl es
      | Inr d \<Rightarrow>
          (case checked_payload_length err_lib_none info
                  (32 * (4 + unat (d mod 4)) + aead_overhead info) of
             Inl es \<Rightarrow> Inl es
           | Inr n \<Rightarrow> Inr (grease_parameters_new aead n)))"

text \<open>The extensions that the NSS inner hello compresses.\<close>

definition nss_compresses :: "ech_numbers \<Rightarrow> 16 word \<Rightarrow> bool" where
  "nss_compresses X kind \<longleftrightarrow>
     kind \<notin> {SERVER_NAME X, SUPPORTED_VERSIONS X, EC_POINT_FORMATS X, EXTENDED_MASTER_SECRET X,
              SESSION_TICKET X, NSS_TICKET_EARLY_DATA_INFO, RENEGOTIATE X}"

text \<open>\<open>nss_payload_length\<close>, before the rounding and the tag.\<close>

definition nss_inner_length :: "ech_numbers \<Rightarrow> size_info \<Rightarrow> 8 word \<Rightarrow> nat \<Rightarrow> nat" where
  "nss_inner_length X info max_name_len host_len =
     (let compressed = length (filter (\<lambda>(kind, _). nss_compresses X kind) (extensions info));
          grease_version = list_ex (\<lambda>(kind, _). is_grease kind) (extensions info);
          len = 2 + 32 + 1 + 2 + length (cipher_suites info) + 1 + 1 + 2
                + (TLS_EXTENSION_HEADER_LEN + 1)
                + (case server_name_length info of
                     None \<Rightarrow> 0 | Some sni \<Rightarrow> TLS_EXTENSION_HEADER_LEN + 5 + sni)
                + (TLS_EXTENSION_HEADER_LEN + 3 + (if grease_version then 2 else 0))
                + (if psk_extension_length info \<noteq> 0
                   then TLS_EXTENSION_HEADER_LEN + psk_extension_length info else 0)
                + (if compressed \<noteq> 0 then TLS_EXTENSION_HEADER_LEN + 1 + 2 * compressed else 0)
      in len + (unat max_name_len - unat (of_nat host_len :: 8 word)))"

definition nss_payload_length ::
    "ech_numbers \<Rightarrow> size_info \<Rightarrow> 8 word \<Rightarrow> nat \<Rightarrow> grease_rounding \<Rightarrow> nat" where
  "nss_payload_length X info max_name_len host_len rounding =
     (let len = nss_inner_length X info max_name_len host_len;
          remainder = (case rounding of Nss_Pre_3127 \<Rightarrow> len mod 32 | Nss_3127 \<Rightarrow> (len - 1) mod 32)
      in len + (31 - remainder) + aead_overhead info)"

definition nss_parameters ::
    "ech_numbers \<Rightarrow> 32 word \<Rightarrow> size_info \<Rightarrow> 8 word \<Rightarrow> nat \<Rightarrow> grease_rounding \<Rightarrow> error_stack + byte
     \<Rightarrow> error_stack + grease_parameters" where
  "nss_parameters X err_lib_none info max_name_len host_len rounding draw =
     (case checked_payload_length err_lib_none info
             (nss_payload_length X info max_name_len host_len rounding) of
        Inl es \<Rightarrow> Inl es
      | Inr n \<Rightarrow>
          (case draw of
             Inl es \<Rightarrow> Inl es
           | Inr coin \<Rightarrow>
               Inr \<lparr>g_aead = (if coin AND 1 = 1 then AES_128_GCM X else CHACHA20_POLY1305 X),
                    g_payload_length = n, g_random_enc = True\<rparr>))"

section \<open>Policies\<close>

text \<open>
  A policy is a closure. Closures of one type share an index of extra data, where the slot is there
  or not and holds a closure or \<open>None\<close>; \<open>g_native\<close> is the type whose \<open>parameter_callback\<close> BoringSSL calls.
\<close>

type_synonym policy = "size_info \<Rightarrow> error_stack + grease_parameters"

record grease_slots =
  g_slots :: "policy option ex_data"
  g_native :: "nat option"

text \<open>\<open>SslContextBuilder::set_ech_grease_callback\<close> and \<open>clear_ech_grease_callback\<close>.\<close>

definition ctx_set_ech_grease :: "grease_slots \<Rightarrow> nat \<Rightarrow> policy \<Rightarrow> grease_slots" where
  "ctx_set_ech_grease g i f =
     g\<lparr>g_slots := fst (ctx_replace_ex_data (g_slots g) i (Some f)), g_native := Some i\<rparr>"

definition ctx_clear_ech_grease :: "grease_slots \<Rightarrow> grease_slots" where
  "ctx_clear_ech_grease g = g\<lparr>g_native := None\<rparr>"

text \<open>
  \<open>SslRef::set_ech_grease_callback\<close> and \<open>clear_ech_grease_callback\<close>; \<open>r\<close> is what the FFI call returns,
  0 once the handshake no longer allows it.
\<close>

definition ssl_set_ech_grease ::
    "32 word \<Rightarrow> grease_slots \<Rightarrow> nat \<Rightarrow> policy \<Rightarrow> int \<Rightarrow> err_queue
     \<Rightarrow> grease_slots \<times> (error_stack + unit) \<times> err_queue" where
  "ssl_set_ech_grease err_lib_none g0 i f r q =
     (let g = (if ex_get (g_slots g0) i = None
               then g0\<lparr>g_slots := ssl_set_ex_data (g_slots g0) i None\<rparr> else g0)
      in case ex_get (g_slots g) i of
           None \<Rightarrow> (g, Inl (internal_error_str err_lib_none ''missing ECH GREASE callback slot''), q)
         | Some _ \<Rightarrow>
             (case cvt_0i r q of
                (Inl es, q') \<Rightarrow> (g, Inl es, q')
              | (Inr _, q') \<Rightarrow>
                  (g\<lparr>g_native := Some i,
                     g_slots := (g_slots g)\<lparr>ex_slots := (ex_slots (g_slots g))(i := Some (Some f))\<rparr>\<rparr>,
                   Inr (), q')))"

definition ssl_clear_ech_grease ::
    "grease_slots \<Rightarrow> int \<Rightarrow> err_queue \<Rightarrow> grease_slots \<times> (error_stack + unit) \<times> err_queue" where
  "ssl_clear_ech_grease g r q =
     (case cvt_0i r q of
        (Inl es, q') \<Rightarrow> (g, Inl es, q')
      | (Inr _, q') \<Rightarrow> (g\<lparr>g_native := None\<rparr>, Inr (), q'))"

text \<open>
  \<open>parameter_callback\<close> of the closure type \<open>i\<close>: what it writes to \<open>out\<close> and its return value; an error is
  put on the queue, oldest first.
\<close>

definition parameter_callback ::
    "policy option ex_data \<Rightarrow> nat \<Rightarrow> size_info
     \<Rightarrow> (16 word \<times> nat \<times> int) option \<times> int \<times> error_stack" where
  "parameter_callback slots i info =
     (case ex_get slots i of
        Some (Some f) \<Rightarrow>
          (case f info of
             Inr p \<Rightarrow>
               (Some (g_aead p, unat (g_payload_length p),
                      if g_random_enc p then 1 else 0), 1, [])
           | Inl error \<Rightarrow> (None, 0, error))
      | _ \<Rightarrow> (None, 0, []))"

section \<open>Properties\<close>

text \<open>
  The NSS rule rounds as documented: without the tag, the old rounding gives \<open>32 k + 31\<close>, the new
  one a multiple of 32, and each adds fewer than 32 bytes to the inner ClientHello.
\<close>

lemma nss_payload_rounding:
  "(nss_payload_length X info m h Nss_Pre_3127 - aead_overhead info) mod 32 = 31 \<and>
   (nss_payload_length X info m h Nss_3127 - aead_overhead info) mod 32 = 0 \<and>
   nss_inner_length X info m h + aead_overhead info \<le> nss_payload_length X info m h rounding \<and>
   nss_payload_length X info m h rounding < nss_inner_length X info m h + 32 + aead_overhead info"
proof -
  have pos: "0 < nss_inner_length X info m h" by (simp add: nss_inner_length_def Let_def)
  have fill: "(n + (31 - n mod 32)) mod 32 = 31" for n :: nat
  proof -
    have "n + (31 - n mod 32) = 31 + 32 * (n div 32)"
      using div_mult_mod_eq [of n 32] mod_less_divisor [of 32 n] by linarith
    then show ?thesis by simp
  qed
  have "(n + (31 - (n - 1) mod 32)) mod 32 = 0" if "0 < n" for n :: nat
  proof -
    from that obtain m where n: "n = Suc m" by (cases n) auto
    have "n + (31 - (n - 1) mod 32) = Suc (m + (31 - m mod 32))" by (simp add: n)
    then show ?thesis by (simp only: mod_Suc fill) simp
  qed
  note exact = fill this
  have "k mod 32 < 32" for k :: nat by simp
  note less = this [of "nss_inner_length X info m h"] this [of "nss_inner_length X info m h - 1"]
  have "nss_inner_length X info m h + aead_overhead info \<le> nss_payload_length X info m h rounding"
    "nss_payload_length X info m h rounding < nss_inner_length X info m h + 32 + aead_overhead info"
    using less by (cases rounding; simp add: nss_payload_length_def Let_def; linarith)+
  then show ?thesis using pos exact by (simp add: nss_payload_length_def Let_def)
qed

text \<open>The two built-in rules, exactly: the parameters, or the error that there is no room for them.\<close>

lemma coin_is_odd: "d AND 1 = (1 :: byte) \<longleftrightarrow> odd d"
  by (simp add: and_one_eq odd_iff_mod_2_eq_one)

abbreviation "fits info n \<equiv> 0 < n \<and> n \<le> max_payload_length info \<and> n < 2 ^ 16"

lemma checked_payload_length_cases:
  "checked_payload_length e info n =
     (if fits info n then Inr (of_nat n) else Inl (internal_error_str e ''ECH GREASE payload exceeds budget''))"
  "fits info n \<Longrightarrow> unat (of_nat n :: 16 word) = n"
  by (auto simp: checked_payload_length_def unat_of_nat_small)

definition draws_boringssl :: "size_info \<Rightarrow> byte \<Rightarrow> nat" where
  "draws_boringssl info d = 128 + 32 * (unat d mod 4) + aead_overhead info"

lemma boringssl_parameters_cases:
  "boringssl_parameters e info aead (Inr d) =
     (if fits info (draws_boringssl info d)
      then Inr (grease_parameters_new aead (of_nat (draws_boringssl info d)))
      else Inl (internal_error_str e ''ECH GREASE payload exceeds budget''))"
proof -
  have "32 * (4 + unat (d mod 4)) + aead_overhead info = draws_boringssl info d"
    by (simp add: draws_boringssl_def unat_mod_distrib)
  then show ?thesis
    by (simp add: boringssl_parameters_def checked_payload_length_cases(1) del: distrib_left_numeral)
qed

text \<open>
  C16: What \<open>parameter_callback\<close> hands to BoringSSL. An installed policy of the application is asked once;
  its parameters are handed over exactly as it returned them, unchecked, and its error goes on the queue
  with nothing written. A policy that answers with \<open>boringssl_parameters\<close> therefore hands over the AEAD it
  named and 128, 160, 192 or 224 bytes plus the tag, by the byte drawn, and one that answers with
  \<open>nss_parameters\<close> one of the two AEADs and the length of the NSS rule, untruncated; each exactly if that
  length is positive and within the budget of the ClientHello, and else an error and nothing.
\<close>

theorem grease_parameters_within_budget:
  assumes "ex_get slots i = Some (Some f)"
  shows "parameter_callback slots i info =
      (case f info of
         Inr p \<Rightarrow> (Some (g_aead p, unat (g_payload_length p), of_bool (g_random_enc p)), 1, [])
       | Inl es \<Rightarrow> (None, 0, es)) \<and>
    (\<forall>e aead d. f info = boringssl_parameters e info aead (Inr d) \<longrightarrow>
       parameter_callback slots i info =
         (let n = 128 + 32 * (unat d mod 4) + aead_overhead info
          in if n \<le> max_payload_length info \<and> n < 2 ^ 16 then (Some (aead, n, 0), 1, [])
             else (None, 0, internal_error_str e ''ECH GREASE payload exceeds budget''))) \<and>
    (\<forall>e X m host rounding d. f info = nss_parameters X e info m host rounding (Inr d) \<longrightarrow>
       parameter_callback slots i info =
         (let n = nss_payload_length X info m host rounding
          in if 0 < n \<and> n \<le> max_payload_length info \<and> n < 2 ^ 16
             then (Some (if odd d then AES_128_GCM X else CHACHA20_POLY1305 X, n, 1), 1, [])
             else (None, 0, internal_error_str e ''ECH GREASE payload exceeds budget'')))"
proof (intro conjI allI impI)
  show any: "parameter_callback slots i info =
      (case f info of
         Inr p \<Rightarrow> (Some (g_aead p, unat (g_payload_length p), of_bool (g_random_enc p)), 1, [])
       | Inl es \<Rightarrow> (None, 0, es))"
    using assms by (simp add: parameter_callback_def split: sum.splits)
  show "parameter_callback slots i info =
      (let n = 128 + 32 * (unat d mod 4) + aead_overhead info
       in if n \<le> max_payload_length info \<and> n < 2 ^ 16 then (Some (aead, n, 0), 1, [])
          else (None, 0, internal_error_str e ''ECH GREASE payload exceeds budget''))"
    if "f info = boringssl_parameters e info aead (Inr d)" for e aead d
  proof -
    have "0 < draws_boringssl info d" by (simp add: draws_boringssl_def)
    then show ?thesis
      unfolding any that boringssl_parameters_cases draws_boringssl_def [symmetric]
      using checked_payload_length_cases(2) [of "draws_boringssl info d" info]
      by (simp add: Let_def grease_parameters_new_def)
  qed
  show "parameter_callback slots i info =
      (let n = nss_payload_length X info m host rounding
       in if 0 < n \<and> n \<le> max_payload_length info \<and> n < 2 ^ 16
          then (Some (if odd d then AES_128_GCM X else CHACHA20_POLY1305 X, n, 1), 1, [])
          else (None, 0, internal_error_str e ''ECH GREASE payload exceeds budget''))"
    if "f info = nss_parameters X e info m host rounding (Inr d)" for e X m host rounding d
    unfolding any that nss_parameters_def checked_payload_length_cases(1)
    using checked_payload_length_cases(2) [of "nss_payload_length X info m host rounding" info]
    by (simp add: Let_def coin_is_odd)
qed

definition sample_info :: size_info where
  "sample_info = \<lparr>cipher_suites = [], extensions = [], preamble_length = 0, psk_extension_length = 0,
     server_name_length = None, default_aead = 1, aead_overhead = 16, max_payload_length = 1000,
     message_length = 0, is_dtls = False, is_quic = False\<rparr>"

definition sample_numbers :: ech_numbers where
  "sample_numbers = \<lparr>SERVER_NAME = 0, SUPPORTED_VERSIONS = 43, EC_POINT_FORMATS = 11,
     EXTENDED_MASTER_SECRET = 23, SESSION_TICKET = 35, RENEGOTIATE = 0xff01, AES_128_GCM = 1,
     CHACHA20_POLY1305 = 3\<rparr>"

theorem grease_parameters_within_budget_witness:
  "parameter_callback
     (g_slots (ctx_set_ech_grease \<lparr>g_slots = ex_empty, g_native = None\<rparr> 3
        (\<lambda>info. boringssl_parameters 1 info 1 (Inr 7)))) 3 sample_info = (Some (1, 240, 0), 1, [])"
  (is "parameter_callback ?slots 3 sample_info = _")
proof -
  have "ex_get ?slots 3 = Some (Some (\<lambda>info. boringssl_parameters 1 info 1 (Inr 7)))"
    by (simp add: ctx_set_ech_grease_def)
  from grease_parameters_within_budget [OF this, of sample_info, THEN conjunct2, THEN conjunct1,
      rule_format, OF refl]
  show ?thesis by (simp add: sample_info_def)
qed

lemma byte_class_card:
  assumes "k < 4"
  shows "card {d :: byte. unat d mod 4 = k} = 64"
proof -
  have "bij_betw unat {d :: byte. unat d mod 4 = k} {n. n < 256 \<and> n mod 4 = k}"
    by (rule bij_betw_byWitness [where f' = of_nat])
      (use unsigned_less [where 'a = nat and 'b = 8] in \<open>auto simp: unat_of_nat_small\<close>)
  then have "card {d :: byte. unat d mod 4 = k} = card {n. n < 256 \<and> n mod 4 = k}"
    by (rule bij_betw_same_card)
  also have "{n. n < 256 \<and> n mod 4 = k} = (\<lambda>i. 4 * i + k) ` {..<64}"
  proof (intro equalityI subsetI)
    fix n assume n: "n \<in> {n. n < 256 \<and> n mod 4 = k}"
    then have "n = 4 * (n div 4) + k" "n div 4 < 64" by auto
    then show "n \<in> (\<lambda>i. 4 * i + k) ` {..<64}" by blast
  qed (use assms in auto)
  also have "card \<dots> = 64" by (simp add: card_image inj_on_def)
  finally show ?thesis .
qed

text \<open>
  The four payload sizes are equally likely: each is drawn by 64 of the 256 random bytes.\<close>

lemma boringssl_draw_uniform:
  assumes "k < 4" and "224 + aead_overhead info \<le> max_payload_length info"
    and "224 + aead_overhead info < 2 ^ 16"
  shows "card {d. \<exists>p. boringssl_parameters e info aead (Inr d) = Inr p \<and>
                      unat (g_payload_length p) = 32 * (4 + k) + aead_overhead info} = 64"
proof -
  have lt: "unat (d mod 4) < 4" for d :: byte by (simp add: unat_mod_distrib)
  have "boringssl_parameters e info aead (Inr d) = Inr (grease_parameters_new aead
      (of_nat (32 * (4 + unat (d mod 4)) + aead_overhead info)))" for d
    using lt [of d] assms(2,3) by (simp add: boringssl_parameters_def checked_payload_length_def)
  moreover have "unat (of_nat (32 * (4 + unat (d mod 4)) + aead_overhead info) :: 16 word) =
      32 * (4 + unat (d mod 4)) + aead_overhead info" for d :: byte
    using lt [of d] assms(3) by (intro unat_of_nat_small) simp
  ultimately have "{d. \<exists>p. boringssl_parameters e info aead (Inr d) = Inr p \<and>
      unat (g_payload_length p) = 32 * (4 + k) + aead_overhead info} = {d. unat d mod 4 = k}"
    by (auto simp: grease_parameters_new_def unat_mod_distrib)
  then show ?thesis using byte_class_card [OF assms(1)] by simp
qed

text \<open>
  Installing a policy on a connection. If BoringSSL accepts it, the native callback now runs the
  new closure. If BoringSSL rejects it, the native callback is the one before and every callback
  still answers as before, although the slot of the closure's type may be there now.
\<close>

lemma ssl_policy_installed_or_unchanged:
  "case ssl_set_ech_grease e g i f r q of
     (g', res, q') \<Rightarrow>
       if r = 0
       then isl res \<and> g_native g' = g_native g \<and>
            (\<forall>j info. parameter_callback (g_slots g') j info = parameter_callback (g_slots g) j info)
       else res = Inr () \<and> q' = q \<and> g_native g' = Some i \<and>
            (\<forall>info. parameter_callback (g_slots g') i info =
               (case f info of
                  Inr p \<Rightarrow> (Some (g_aead p, unat (g_payload_length p), if g_random_enc p then 1 else 0), 1, [])
                | Inl es \<Rightarrow> (None, 0, es))) \<and>
            (\<forall>j info. j = i \<or>
               parameter_callback (g_slots g') j info = parameter_callback (g_slots g) j info)"
proof -
  have "ex_get (if ex_get d i = None then ssl_set_ex_data d i None else d) j =
      (if j = i \<and> ex_get d i = None then Some None else ex_get d j)" for d j by simp
  then show ?thesis
    by (auto simp: ssl_set_ech_grease_def Let_def cvt_0i_def fail_stack_def parameter_callback_def
        ex_get_def ssl_set_ex_data_def split: prod.splits option.splits)
qed

end
