(* ===== verification/Effects.thy ===== *)
theory Effects
  imports Errors Prelude
begin

text \<open>
  Methods on \<open>&mut self\<close> that call BoringSSL and return \<open>Result<_, ErrorStack>\<close>: functions of the object
  and the thread's error queue. They return, fail with an error stack, or panic; an object keeps what
  was done to it before an error or a panic. \<open>ebind\<close> is the \<open>?\<close> operator; \<open>ecvt\<close> wraps a call whose
  return value \<open>cvt\<close> checks.
\<close>

datatype 'a eresult = Ok 'a | Err error_stack | Panicked string

type_synonym ('s, 'a) eff = "'s \<Rightarrow> err_queue \<Rightarrow> 'a eresult \<times> 's \<times> err_queue"

definition eret :: "'a \<Rightarrow> ('s, 'a) eff" where
  "eret x s q = (Ok x, s, q)"

definition efail :: "error_stack \<Rightarrow> ('s, 'a) eff" where
  "efail es s q = (Err es, s, q)"

definition epanic :: "string \<Rightarrow> ('s, 'a) eff" where
  "epanic p s q = (Panicked p, s, q)"

definition ebind :: "('s, 'a) eff \<Rightarrow> ('a \<Rightarrow> ('s, 'b) eff) \<Rightarrow> ('s, 'b) eff" where
  "ebind m f s q =
     (case m s q of
        (Ok x, s', q') \<Rightarrow> f x s' q'
      | (Err es, s', q') \<Rightarrow> (Err es, s', q')
      | (Panicked p, s', q') \<Rightarrow> (Panicked p, s', q'))"

definition ethen :: "('s, 'a) eff \<Rightarrow> ('s, 'b) eff \<Rightarrow> ('s, 'b) eff" where
  "ethen m n = ebind m (\<lambda>_. n)"

definition eget :: "('s \<Rightarrow> 'a) \<Rightarrow> ('s, 'a) eff" where
  "eget f s q = (Ok (f s), s, q)"

definition eput :: "('s \<Rightarrow> 's) \<Rightarrow> ('s, unit) eff" where
  "eput f s q = (Ok (), f s, q)"

definition eassert :: "bool \<Rightarrow> string \<Rightarrow> ('s, unit) eff" where
  "eassert b p = (if b then eret () else epanic p)"

text \<open>A call that returns an int, perhaps with an output, checked by \<open>cvt\<close>.\<close>

definition ecvt :: "('s \<Rightarrow> err_queue \<Rightarrow> (int \<times> 'a) \<times> 's \<times> err_queue) \<Rightarrow> ('s, 'a) eff" where
  "ecvt f s q =
     (case f s q of
        ((r, x), s', q') \<Rightarrow>
          (case cvt r q' of
             (Inl es, q2) \<Rightarrow> (Err es, s', q2)
           | (Inr _, q2) \<Rightarrow> (Ok x, s', q2)))"

text \<open>A call that returns a pointer, checked by \<open>cvt_p\<close>.\<close>

definition ecvt_p :: "(err_queue \<Rightarrow> 'a option \<times> err_queue) \<Rightarrow> ('s, 'a) eff" where
  "ecvt_p f s q =
     (case f q of (p, q1) \<Rightarrow>
        case cvt_p p q1 of (Inl es, q') \<Rightarrow> (Err es, s, q') | (Inr x, q') \<Rightarrow> (Ok x, s, q'))"

text \<open>\<open>try_int\<close> of \<open>btls/src/lib.rs\<close>, from \<open>usize\<close> to an integer type with the given maximum.\<close>

definition etry_int :: "nat \<Rightarrow> 32 word \<Rightarrow> nat \<Rightarrow> ('s, nat) eff" where
  "etry_int mx err_lib_none n =
     (if n \<le> mx then eret n else efail (internal_error_str err_lib_none ''int overflow''))"

text \<open>\<open>Result::unwrap\<close>.\<close>

definition eunwrap :: "('r, 'a) eff \<Rightarrow> ('r, 'a) eff" where
  "eunwrap m r q =
     (case m r q of
        (Err _, r', q') \<Rightarrow> (Panicked ''called `Result::unwrap()` on an `Err` value'', r', q')
      | res \<Rightarrow> res)"

text \<open>The decimal digits of a number, and the text of a \<open>NulError\<close>.\<close>

fun show_nat :: "nat \<Rightarrow> string" where
  "show_nat n = (if n < 10 then [char_of (48 + n)] else show_nat (n div 10) @ [char_of (48 + n mod 10)])"

declare show_nat.simps [simp del]

definition nul_error :: "nat \<Rightarrow> string" where
  "nul_error n = ''nul byte found in provided data at position: '' @ show_nat n"

text \<open>\<open>CString::new(s).map_err(ErrorStack::internal_error)?\<close>\<close>

definition ecstring :: "32 word \<Rightarrow> string \<Rightarrow> ('s, string) eff" where
  "ecstring e s =
     (if CHR 0x00 \<in> set s
      then efail [new_internal e (Data_String (nul_error (length (takeWhile (\<lambda>c. c \<noteq> CHR 0x00) s))))]
      else eret s)"

text \<open>\<open>IpAddr\<close>, by its octets.\<close>

datatype ip_addr = V4 "byte list" | V6 "byte list"

definition octets :: "ip_addr \<Rightarrow> byte list" where
  "octets ip = (case ip of V4 os \<Rightarrow> os | V6 os \<Rightarrow> os)"

text \<open>Running an effect on an object that is created on the way and then returned or dropped.\<close>

definition erun :: "('s, 'a) eff \<Rightarrow> 's \<Rightarrow> err_queue \<Rightarrow> 'a eresult \<times> err_queue" where
  "erun m s q = (case m s q of (r, _, q') \<Rightarrow> (r, q'))"

text \<open>A C function wrote \<open>bs\<close> from the start of the slice \<open>out\<close>.\<close>

definition overwrite :: "byte list \<Rightarrow> byte list \<Rightarrow> byte list" where
  "overwrite bs out = bs @ drop (length bs) out"

text \<open>\<open>&mut out[n..]\<close> was changed to \<open>rest\<close>.\<close>

definition splice :: "nat \<Rightarrow> byte list \<Rightarrow> byte list \<Rightarrow> byte list" where
  "splice n rest out = take n out @ rest"

lemma eff_simps [simp]:
  "eret x s q = (Ok x, s, q)" "efail es s q = (Err es, s, q)" "epanic p s q = (Panicked p, s, q)"
  "eget f s q = (Ok (f s), s, q)" "eput g s q = (Ok (), g s, q)"
  by (simp_all add: eret_def efail_def epanic_def eget_def eput_def)

lemma ebind_simps [simp]:
  "m s q = (Ok x, s', q') \<Longrightarrow> ebind m f s q = f x s' q'"
  "m s q = (Err es, s', q') \<Longrightarrow> ebind m f s q = (Err es, s', q')"
  "m s q = (Panicked p, s', q') \<Longrightarrow> ebind m f s q = (Panicked p, s', q')"
  by (simp_all add: ebind_def)

lemma ethen_simps [simp]:
  "m s q = (Ok x, s', q') \<Longrightarrow> ethen m n s q = n s' q'"
  "m s q = (Err es, s', q') \<Longrightarrow> ethen m n s q = (Err es, s', q')"
  "m s q = (Panicked p, s', q') \<Longrightarrow> ethen m n s q = (Panicked p, s', q')"
  by (simp_all add: ethen_def)

lemma ebind_eq_ok:
  "ebind m f s q = (Ok y, s', q') \<longleftrightarrow> (\<exists>x s1 q1. m s q = (Ok x, s1, q1) \<and> f x s1 q1 = (Ok y, s', q'))"
  by (auto simp: ebind_def split: prod.splits eresult.splits)

lemma ethen_eq_ok:
  "ethen m n s q = (Ok y, s', q') \<longleftrightarrow> (\<exists>x s1 q1. m s q = (Ok x, s1, q1) \<and> n s1 q1 = (Ok y, s', q'))"
  by (simp add: ethen_def ebind_eq_ok)

lemma eassert_eq_ok: "eassert b p s q = (Ok y, s', q') \<longleftrightarrow> b \<and> s' = s \<and> q' = q"
  by (auto simp: eassert_def)

lemma ecvt_eq_ok:
  "ecvt f s q = (Ok x, s', q') \<longleftrightarrow> (\<exists>r. 0 < r \<and> f s q = ((r, x), s', q'))"
  by (auto simp: ecvt_def cvt_def fail_stack_def split: prod.splits sum.splits if_splits)

lemma etry_int_eq_ok:
  "etry_int mx e n s q = (Ok k, s', q') \<longleftrightarrow> n \<le> mx \<and> k = n \<and> s' = s \<and> q' = q"
  by (auto simp: etry_int_def)

text \<open>Nothing panics but an assertion.\<close>

lemma ebind_eq_panic:
  "ebind m f s q = (Panicked p, s', q') \<longleftrightarrow>
     m s q = (Panicked p, s', q') \<or> (\<exists>x s1 q1. m s q = (Ok x, s1, q1) \<and> f x s1 q1 = (Panicked p, s', q'))"
  by (auto simp: ebind_def split: prod.splits eresult.splits)

lemma ethen_eq_panic:
  "ethen m n s q = (Panicked p, s', q') \<longleftrightarrow>
     m s q = (Panicked p, s', q') \<or> (\<exists>x s1 q1. m s q = (Ok x, s1, q1) \<and> n s1 q1 = (Panicked p, s', q'))"
  by (simp add: ethen_def ebind_eq_panic)

lemma no_panic [simp]:
  "eret x s q \<noteq> (Panicked p, s', q')" "eget g s q \<noteq> (Panicked p, s', q')" "eput h s q \<noteq> (Panicked p, s', q')"
  "ecvt f s q \<noteq> (Panicked p, s', q')" "etry_int mx e n s q \<noteq> (Panicked p, s', q')"
  by (auto simp: ecvt_def etry_int_def split: prod.splits sum.splits)

lemma no_panic_pure [simp]:
  "ecvt_p f s q \<noteq> (Panicked p, s', q')" "ecstring e x s q \<noteq> (Panicked p, s', q')"
  by (auto simp: ecvt_p_def ecstring_def split: prod.splits sum.splits)

lemmas eff_ok = ebind_eq_ok ethen_eq_ok eassert_eq_ok ecvt_eq_ok etry_int_eq_ok
lemmas eff_panic = ebind_eq_panic ethen_eq_panic

end
