(* ===== verification/Hash.thy ===== *)
theory Hash
  imports Effects Prelude
begin

text \<open>
  \<open>Hasher\<close> of \<open>btls/src/hash.rs\<close>: a digest context with the state machine \<open>Reset\<close>, \<open>Updated\<close>,
  \<open>Finalized\<close> around the \<open>EVP_Digest*\<close> functions, which are the record \<open>md_api\<close>.
\<close>

section \<open>State and operations\<close>

datatype hash_state = Reset | Updated | Finalized

record ('c, 'm) md_api =
  EVP_MD_CTX_new :: "'c option"
  EVP_MD_CTX_copy_ex :: "'c \<Rightarrow> 'c \<times> int"
  EVP_DigestInit_ex :: "'m \<Rightarrow> 'c \<Rightarrow> err_queue \<Rightarrow> (int \<times> unit) \<times> 'c \<times> err_queue"
  EVP_DigestUpdate :: "byte list \<Rightarrow> 'c \<Rightarrow> err_queue \<Rightarrow> (int \<times> unit) \<times> 'c \<times> err_queue"
  EVP_DigestFinal_ex :: "'c \<Rightarrow> err_queue \<Rightarrow> (int \<times> byte list) \<times> 'c \<times> err_queue"
  EVP_DigestFinalXOF :: "nat \<Rightarrow> 'c \<Rightarrow> err_queue \<Rightarrow> (int \<times> byte list) \<times> 'c \<times> err_queue"

record ('c, 'm) hasher =
  h_ctx :: 'c
  h_md :: 'm
  h_state :: hash_state

text \<open>A call on the digest context of the hasher.\<close>

definition on_ctx ::
    "('c \<Rightarrow> err_queue \<Rightarrow> (int \<times> 'a) \<times> 'c \<times> err_queue)
     \<Rightarrow> ('c, 'm) hasher \<Rightarrow> err_queue \<Rightarrow> (int \<times> 'a) \<times> ('c, 'm) hasher \<times> err_queue" where
  "on_ctx f h q = (case f (h_ctx h) q of (r, c, q') \<Rightarrow> (r, h\<lparr>h_ctx := c\<rparr>, q'))"

definition set_state :: "hash_state \<Rightarrow> (('c, 'm) hasher, unit) eff" where
  "set_state st = eput (\<lambda>h. h\<lparr>h_state := st\<rparr>)"

text \<open>The last part of \<open>Hasher::init\<close>, reached in the states \<open>Updated\<close> and \<open>Finalized\<close>.\<close>

definition digest_init :: "('c, 'm) md_api \<Rightarrow> (('c, 'm) hasher, unit) eff" where
  "digest_init D =
     ebind (eget h_md) (\<lambda>md. ethen (ecvt (on_ctx (EVP_DigestInit_ex D md))) (set_state Reset))"

text \<open>
  \<open>Hasher::finish\<close> and \<open>Hasher::init\<close> call each other, but \<open>finish\<close> calls \<open>init\<close> only when \<open>Finalized\<close>,
  where \<open>init\<close> does not call \<open>finish\<close>: \<open>finish\<close> is written with that branch of \<open>init\<close>.
\<close>

definition hasher_finish :: "('c, 'm) md_api \<Rightarrow> (('c, 'm) hasher, byte list) eff" where
  "hasher_finish D =
     ebind (eget h_state) (\<lambda>st.
       ethen (if st = Finalized then digest_init D else eret ())
         (ebind (ecvt (on_ctx (EVP_DigestFinal_ex D)))
           (\<lambda>out. ethen (set_state Finalized) (eret out))))"

definition hasher_init :: "('c, 'm) md_api \<Rightarrow> (('c, 'm) hasher, unit) eff" where
  "hasher_init D =
     ebind (eget h_state) (\<lambda>st.
       case st of
         Reset \<Rightarrow> eret ()
       | Updated \<Rightarrow> ethen (hasher_finish D) (digest_init D)
       | Finalized \<Rightarrow> digest_init D)"

definition hasher_update :: "('c, 'm) md_api \<Rightarrow> byte list \<Rightarrow> (('c, 'm) hasher, unit) eff" where
  "hasher_update D d =
     ebind (eget h_state) (\<lambda>st.
       ethen (if st = Finalized then hasher_init D else eret ())
         (ethen (ecvt (on_ctx (EVP_DigestUpdate D d))) (set_state Updated)))"

definition hasher_finish_xof :: "('c, 'm) md_api \<Rightarrow> nat \<Rightarrow> (('c, 'm) hasher, byte list) eff" where
  "hasher_finish_xof D n =
     ebind (eget h_state) (\<lambda>st.
       ethen (if st = Finalized then hasher_init D else eret ())
         (ebind (ecvt (on_ctx (EVP_DigestFinalXOF D n)))
           (\<lambda>out. ethen (set_state Finalized) (eret out))))"

definition hasher_new ::
    "('c, 'm) md_api \<Rightarrow> 'm \<Rightarrow> err_queue \<Rightarrow> ('c, 'm) hasher eresult \<times> err_queue" where
  "hasher_new D md q =
     (case cvt_p (EVP_MD_CTX_new D) q of
        (Inl es, q') \<Rightarrow> (Err es, q')
      | (Inr c, q') \<Rightarrow>
          erun (ethen (hasher_init D) (eget (\<lambda>h. h))) \<lparr>h_ctx = c, h_md = md, h_state = Finalized\<rparr> q')"

text \<open>\<open>Write for Hasher\<close>: all of the buffer, or the error.\<close>

definition hasher_write :: "('c, 'm) md_api \<Rightarrow> byte list \<Rightarrow> (('c, 'm) hasher, nat) eff" where
  "hasher_write D d = ethen (hasher_update D d) (eret (length d))"

text \<open>\<open>Clone for Hasher\<close>, whose assertions panic.\<close>

definition hasher_clone :: "('c, 'm) md_api \<Rightarrow> ('c, 'm) hasher \<Rightarrow> ('c, 'm) hasher outcome" where
  "hasher_clone D h =
     (case EVP_MD_CTX_new D of
        None \<Rightarrow> Panic ''assertion failed: !ctx.is_null()''
      | Some _ \<Rightarrow>
          (case EVP_MD_CTX_copy_ex D (h_ctx h) of
             (c, r) \<Rightarrow> if r = 1 then Ret (h\<lparr>h_ctx := c\<rparr>) else Panic ''assertion `left == right` failed''))"

text \<open>The one-shot functions \<open>hash\<close> and \<open>hash_xof\<close>.\<close>

definition hash_with ::
    "('c, 'm) md_api \<Rightarrow> 'm \<Rightarrow> byte list \<Rightarrow> (('c, 'm) hasher, byte list) eff \<Rightarrow> err_queue
     \<Rightarrow> byte list eresult \<times> err_queue" where
  "hash_with D md d fin q =
     (case hasher_new D md q of
        (Ok h, q') \<Rightarrow> erun (ethen (hasher_update D d) fin) h q'
      | (Err es, q') \<Rightarrow> (Err es, q')
      | (Panicked p, q') \<Rightarrow> (Panicked p, q'))"

definition hash ::
    "('c, 'm) md_api \<Rightarrow> 'm \<Rightarrow> byte list \<Rightarrow> err_queue \<Rightarrow> byte list eresult \<times> err_queue" where
  "hash D md d = hash_with D md d (hasher_finish D)"

definition hash_xof ::
    "('c, 'm) md_api \<Rightarrow> 'm \<Rightarrow> byte list \<Rightarrow> nat \<Rightarrow> err_queue \<Rightarrow> byte list eresult \<times> err_queue" where
  "hash_xof D md d n = hash_with D md d (hasher_finish_xof D n)"

section \<open>Specification\<close>

text \<open>
  What the digest functions promise when they succeed: \<open>absorbed\<close> is the input since the last
  initialisation, \<open>H\<close> the hash function and \<open>X\<close> its extendable output.
\<close>

definition md_ok ::
    "('c, 'm) md_api \<Rightarrow> ('c \<Rightarrow> ('m \<times> byte list)) \<Rightarrow> ('m \<Rightarrow> byte list \<Rightarrow> byte list)
     \<Rightarrow> ('m \<Rightarrow> byte list \<Rightarrow> nat \<Rightarrow> byte list) \<Rightarrow> bool" where
  "md_ok D absorbed H X \<longleftrightarrow>
     (\<forall>m c q. case EVP_DigestInit_ex D m c q of ((r, _), c', _) \<Rightarrow>
        0 < r \<longrightarrow> absorbed c' = (m, [])) \<and>
     (\<forall>d c q. case EVP_DigestUpdate D d c q of ((r, _), c', _) \<Rightarrow>
        0 < r \<longrightarrow> absorbed c' = (fst (absorbed c), snd (absorbed c) @ d)) \<and>
     (\<forall>c q. case EVP_DigestFinal_ex D c q of ((r, out), _) \<Rightarrow>
        0 < r \<longrightarrow> out = H (fst (absorbed c)) (snd (absorbed c))) \<and>
     (\<forall>n c q. case EVP_DigestFinalXOF D n c q of ((r, out), _) \<Rightarrow>
        0 < r \<longrightarrow> out = X (fst (absorbed c)) (snd (absorbed c)) n) \<and>
     (\<forall>c. case EVP_MD_CTX_copy_ex D c of (c', r) \<Rightarrow> r = 1 \<longrightarrow> absorbed c' = absorbed c)"

text \<open>The abstract hasher: the data that the next \<open>finish\<close> hashes. A finished one starts over.\<close>

definition hashed :: "('c \<Rightarrow> ('m \<times> byte list)) \<Rightarrow> ('c, 'm) hasher \<Rightarrow> byte list" where
  "hashed absorbed h = (if h_state h = Finalized then [] else snd (absorbed (h_ctx h)))"

definition hasher_ok :: "('c \<Rightarrow> ('m \<times> byte list)) \<Rightarrow> ('c, 'm) hasher \<Rightarrow> bool" where
  "hasher_ok absorbed h \<longleftrightarrow>
     h_state h \<noteq> Finalized \<longrightarrow>
       fst (absorbed (h_ctx h)) = h_md h \<and> (h_state h = Reset \<longrightarrow> snd (absorbed (h_ctx h)) = [])"

lemma on_ctx_eq: "on_ctx f h q = (r, h', q') \<longleftrightarrow> (\<exists>c. f (h_ctx h) q = (r, c, q') \<and> h' = h\<lparr>h_ctx := c\<rparr>)"
  by (auto simp: on_ctx_def split: prod.splits)

lemma md_okD:
  assumes "md_ok D absorbed H X" and "0 < r"
  shows "EVP_DigestInit_ex D m c q = ((r, u), c', q') \<Longrightarrow> absorbed c' = (m, [])"
    and "EVP_DigestUpdate D d c q = ((r, u), c', q') \<Longrightarrow>
           absorbed c' = (fst (absorbed c), snd (absorbed c) @ d)"
    and "EVP_DigestFinal_ex D c q = ((r, out), c', q') \<Longrightarrow> out = H (fst (absorbed c)) (snd (absorbed c))"
    and "EVP_DigestFinalXOF D n c q = ((r, out), c', q') \<Longrightarrow>
           out = X (fst (absorbed c)) (snd (absorbed c)) n"
proof -
  have "case EVP_DigestInit_ex D m c q of ((r, _), c', _) \<Rightarrow> 0 < r \<longrightarrow> absorbed c' = (m, [])"
    "case EVP_DigestUpdate D d c q of ((r, _), c', _) \<Rightarrow>
       0 < r \<longrightarrow> absorbed c' = (fst (absorbed c), snd (absorbed c) @ d)"
    "case EVP_DigestFinal_ex D c q of ((r, out), _) \<Rightarrow>
       0 < r \<longrightarrow> out = H (fst (absorbed c)) (snd (absorbed c))"
    "case EVP_DigestFinalXOF D n c q of ((r, out), _) \<Rightarrow>
       0 < r \<longrightarrow> out = X (fst (absorbed c)) (snd (absorbed c)) n"
    using assms(1) [unfolded md_ok_def, THEN conjunct1]
      assms(1) [unfolded md_ok_def, THEN conjunct2, THEN conjunct1]
      assms(1) [unfolded md_ok_def, THEN conjunct2, THEN conjunct2, THEN conjunct1]
      assms(1) [unfolded md_ok_def, THEN conjunct2, THEN conjunct2, THEN conjunct2, THEN conjunct1]
    by simp_all
  with assms(2) show "EVP_DigestInit_ex D m c q = ((r, u), c', q') \<Longrightarrow> absorbed c' = (m, [])"
    "EVP_DigestUpdate D d c q = ((r, u), c', q') \<Longrightarrow>
       absorbed c' = (fst (absorbed c), snd (absorbed c) @ d)"
    "EVP_DigestFinal_ex D c q = ((r, out), c', q') \<Longrightarrow> out = H (fst (absorbed c)) (snd (absorbed c))"
    "EVP_DigestFinalXOF D n c q = ((r, out), c', q') \<Longrightarrow>
       out = X (fst (absorbed c)) (snd (absorbed c)) n"
    by simp_all
qed

text \<open>A successful call on the context, followed by the change of state.\<close>

lemma call_then_state:
  assumes "ebind (ecvt (on_ctx f)) (\<lambda>x. ethen (set_state st) (eret (g x))) h q = (Ok y, h', q')"
  obtains r x c where "0 < r" and "f (h_ctx h) q = ((r, x), c, q')" and "y = g x"
    and "h' = h\<lparr>h_ctx := c, h_state := st\<rparr>"
  using assms by (auto simp: ebind_eq_ok ethen_eq_ok ecvt_eq_ok on_ctx_eq set_state_def)

lemma set_state_ret: "ethen m (set_state st) = ebind m (\<lambda>_. ethen (set_state st) (eret ()))"
  by (intro ext) (auto simp: ethen_def ebind_def set_state_def split: prod.splits eresult.splits sum.splits)

lemma digest_init_ok:
  assumes "md_ok D absorbed H X" and "digest_init D h q = (Ok u, h', q')"
  shows "h_state h' = Reset \<and> h_md h' = h_md h \<and> absorbed (h_ctx h') = (h_md h, [])"
proof -
  have "ebind (ecvt (on_ctx (EVP_DigestInit_ex D (h_md h)))) (\<lambda>_. ethen (set_state Reset) (eret ())) h q =
      (Ok u, h', q')"
    using assms(2) by (simp add: digest_init_def ebind_eq_ok set_state_ret)
  then show ?thesis by (rule call_then_state) (simp add: md_okD(1) [OF assms(1)])
qed

text \<open>After the optional initialisation the context holds exactly \<open>hashed\<close>.\<close>

lemma entered:
  assumes "md_ok D absorbed H X" and "hasher_ok absorbed h" and "i = digest_init D \<or> i = hasher_init D"
    and "(if h_state h = Finalized then i else eret ()) h q = (Ok u, h1, q1)"
  shows "h_md h1 = h_md h \<and> absorbed (h_ctx h1) = (h_md h, hashed absorbed h)"
proof (cases "h_state h = Finalized")
  case True
  with assms(3,4) have "digest_init D h q = (Ok u, h1, q1)"
    by (auto simp: hasher_init_def ebind_eq_ok)
  from digest_init_ok [OF assms(1) this] True show ?thesis by (simp add: hashed_def)
next
  case False
  with assms(2,4) show ?thesis by (auto simp: hasher_ok_def hashed_def intro!: prod_eqI)
qed

lemma hasher_update_ok:
  assumes "md_ok D absorbed H X" and "hasher_ok absorbed h" and "hasher_update D d h q = (Ok u, h', q')"
  shows "hasher_ok absorbed h' \<and> h_md h' = h_md h \<and> hashed absorbed h' = hashed absorbed h @ d"
proof -
  from assms(3) obtain u h1 q1 where "(if h_state h = Finalized then hasher_init D else eret ()) h q = (Ok u, h1, q1)"
    and c: "ebind (ecvt (on_ctx (EVP_DigestUpdate D d))) (\<lambda>_. ethen (set_state Updated) (eret ())) h1 q1 =
      (Ok (), h', q')"
    by (auto simp: hasher_update_def ebind_eq_ok [of "eget h_state"] ethen_eq_ok set_state_ret)
  note h1 = entered [OF assms(1,2) disjI2 [OF refl] this(1)]
  from c obtain r x c1 where "0 < r" "EVP_DigestUpdate D d (h_ctx h1) q1 = ((r, x), c1, q')" "() = ()"
    "h' = h1\<lparr>h_ctx := c1, h_state := Updated\<rparr>" by (rule call_then_state)
  with md_okD(2) [OF assms(1) this(1,2)] h1 show ?thesis by (simp add: hasher_ok_def hashed_def)
qed

lemma hasher_finish_ok:
  assumes "md_ok D absorbed H X" and "hasher_ok absorbed h" and "hasher_finish D h q = (Ok out, h', q')"
  shows "hasher_ok absorbed h' \<and> h_md h' = h_md h \<and> hashed absorbed h' = [] \<and>
         out = H (h_md h) (hashed absorbed h)"
proof -
  from assms(3) obtain u h1 q1 where "(if h_state h = Finalized then digest_init D else eret ()) h q = (Ok u, h1, q1)"
    and c: "ebind (ecvt (on_ctx (EVP_DigestFinal_ex D))) (\<lambda>out. ethen (set_state Finalized) (eret out)) h1 q1 =
       (Ok out, h', q')"
    by (auto simp: hasher_finish_def ebind_eq_ok [of "eget h_state"] ethen_eq_ok)
  note h1 = entered [OF assms(1,2) disjI1 [OF refl] this(1)]
  from c obtain r x c1 where "0 < r" "EVP_DigestFinal_ex D (h_ctx h1) q1 = ((r, x), c1, q')" "out = x"
    "h' = h1\<lparr>h_ctx := c1, h_state := Finalized\<rparr>" by (rule call_then_state)
  with md_okD(3) [OF assms(1) this(1,2)] h1 show ?thesis by (simp add: hasher_ok_def hashed_def)
qed

lemma hasher_finish_xof_ok:
  assumes "md_ok D absorbed H X" and "hasher_ok absorbed h" and "hasher_finish_xof D n h q = (Ok out, h', q')"
  shows "hasher_ok absorbed h' \<and> h_md h' = h_md h \<and> hashed absorbed h' = [] \<and>
         out = X (h_md h) (hashed absorbed h) n"
proof -
  from assms(3) obtain u h1 q1 where "(if h_state h = Finalized then hasher_init D else eret ()) h q = (Ok u, h1, q1)"
    and c: "ebind (ecvt (on_ctx (EVP_DigestFinalXOF D n))) (\<lambda>out. ethen (set_state Finalized) (eret out)) h1 q1 =
       (Ok out, h', q')"
    by (auto simp: hasher_finish_xof_def ebind_eq_ok [of "eget h_state"] ethen_eq_ok)
  note h1 = entered [OF assms(1,2) disjI2 [OF refl] this(1)]
  from c obtain r x c1 where "0 < r" "EVP_DigestFinalXOF D n (h_ctx h1) q1 = ((r, x), c1, q')" "out = x"
    "h' = h1\<lparr>h_ctx := c1, h_state := Finalized\<rparr>" by (rule call_then_state)
  with md_okD(4) [OF assms(1) this(1,2)] h1 show ?thesis by (simp add: hasher_ok_def hashed_def)
qed

section \<open>Properties\<close>

text \<open>
  C17: A hasher refines "the data fed since it was last finished": feeding appends to it, also after a
  finish; finishing returns its hash and starts over; so does the extendable output. The state machine
  never finishes a context that was not initialised.
\<close>

theorem hasher_refines_data:
  assumes "md_ok D absorbed H X" and "hasher_ok absorbed h"
  shows "(hasher_update D d h q = (Ok (), h', q') \<longrightarrow>
            hasher_ok absorbed h' \<and> h_md h' = h_md h \<and> hashed absorbed h' = hashed absorbed h @ d) \<and>
         (hasher_finish D h q = (Ok out, h', q') \<longrightarrow>
            hasher_ok absorbed h' \<and> h_md h' = h_md h \<and> hashed absorbed h' = [] \<and>
            out = H (h_md h) (hashed absorbed h)) \<and>
         (hasher_finish_xof D n h q = (Ok out, h', q') \<longrightarrow>
            hasher_ok absorbed h' \<and> h_md h' = h_md h \<and> hashed absorbed h' = [] \<and>
            out = X (h_md h) (hashed absorbed h) n)"
  using hasher_update_ok [OF assms] hasher_finish_ok [OF assms] hasher_finish_xof_ok [OF assms] by blast

text \<open>A digest that returns its input, to show that the contract can be kept.\<close>

definition sample_md :: "(nat \<times> byte list, nat) md_api" where
  "sample_md =
     \<lparr>EVP_MD_CTX_new = Some (0, []), EVP_MD_CTX_copy_ex = (\<lambda>c. (c, 1)),
      EVP_DigestInit_ex = (\<lambda>m c q. ((1, ()), (m, []), q)),
      EVP_DigestUpdate = (\<lambda>d c q. ((1, ()), (fst c, snd c @ d), q)),
      EVP_DigestFinal_ex = (\<lambda>c q. ((1, snd c), c, q)),
      EVP_DigestFinalXOF = (\<lambda>n c q. ((1, take n (snd c)), c, q))\<rparr>"

lemma sample_md_ok: "md_ok sample_md (\<lambda>c. c) (\<lambda>m d. d) (\<lambda>m d n. take n d)"
  by (simp add: md_ok_def sample_md_def)

definition sample_hasher :: "(nat \<times> byte list, nat) hasher" where
  "sample_hasher = \<lparr>h_ctx = (5, [9]), h_md = 4, h_state = Finalized\<rparr>"

theorem hasher_refines_data_witness:
  "(\<exists>h'. hasher_update sample_md [1, 2] sample_hasher [] = (Ok (), h', []) \<and>
         hasher_ok (\<lambda>c. c) h' \<and> hashed (\<lambda>c. c) h' = [1, 2]) \<and>
   (\<exists>h'. hasher_finish sample_md sample_hasher [] = (Ok [], h', []) \<and> hashed (\<lambda>c. c) h' = [])"
proof -
  have ok: "hasher_ok (\<lambda>c. c) sample_hasher" by (simp add: hasher_ok_def sample_hasher_def)
  have empty: "hashed (\<lambda>c. c) sample_hasher = []" by (simp add: hashed_def sample_hasher_def)
  have "\<exists>h'. hasher_update sample_md [1, 2] sample_hasher [] = (Ok (), h', [])"
    "\<exists>h'. hasher_finish sample_md sample_hasher [] = (Ok [], h', [])"
    by (simp_all add: hasher_update_def hasher_finish_def hasher_init_def digest_init_def ebind_def
        ethen_def ecvt_def on_ctx_def set_state_def cvt_def sample_md_def sample_hasher_def)
  then obtain h1 h2 where
    *: "hasher_update sample_md [1, 2] sample_hasher [] = (Ok (), h1, [])"
      "hasher_finish sample_md sample_hasher [] = (Ok [], h2, [])" by blast
  from hasher_refines_data [OF sample_md_ok ok, of "[1, 2]" "[]" h1 "[]" "[]" 0] *
    hasher_refines_data [OF sample_md_ok ok, of "[1, 2]" "[]" h2 "[]" "[]" 0]
  show ?thesis unfolding empty by auto
qed

lemma hasher_new_ok:
  assumes "md_ok D absorbed H X" and "hasher_new D md q = (Ok h, q')"
  shows "hasher_ok absorbed h \<and> h_md h = md \<and> hashed absorbed h = []"
proof -
  obtain c q1 u where "hasher_init D \<lparr>h_ctx = c, h_md = md, h_state = Finalized\<rparr> q1 = (Ok u, h, q')"
    using assms(2) by (auto simp: hasher_new_def erun_def ethen_eq_ok split: prod.splits eresult.splits sum.splits)
  then have "digest_init D \<lparr>h_ctx = c, h_md = md, h_state = Finalized\<rparr> q1 = (Ok u, h, q')"
    by (simp add: hasher_init_def ebind_eq_ok)
  from digest_init_ok [OF assms(1) this] show ?thesis by (simp add: hasher_ok_def hashed_def)
qed

text \<open>
  The one-shot functions hash their input, all of it and nothing else.
\<close>

lemma hash_is_hash:
  assumes "md_ok D absorbed H X"
  shows "(fst (hash D md d q) = Ok out \<longrightarrow> out = H md d) \<and>
         (fst (hash_xof D md d n q) = Ok out \<longrightarrow> out = X md d n)"
proof -
  have step: "\<exists>h h1 q1 q2 h2 q3. hasher_new D md q = (Ok h, q1) \<and> hasher_update D d h q1 = (Ok (), h1, q2) \<and>
      fin h1 q2 = (Ok out, h2, q3)" if "fst (hash_with D md d fin q) = Ok out" for fin
    using that by (auto simp: hash_with_def erun_def ethen_eq_ok split: prod.splits eresult.splits sum.splits)
  show ?thesis
  proof (intro conjI impI)
    assume "fst (hash D md d q) = Ok out"
    then obtain h h1 q1 q2 h2 q3 where r: "hasher_new D md q = (Ok h, q1)"
      "hasher_update D d h q1 = (Ok (), h1, q2)" "hasher_finish D h1 q2 = (Ok out, h2, q3)"
      unfolding hash_def using step by blast
    from hasher_new_ok [OF assms r(1)] have h: "hasher_ok absorbed h" "h_md h = md" "hashed absorbed h = []"
      by simp_all
    from hasher_update_ok [OF assms h(1) r(2)] h(2,3) have h1: "hasher_ok absorbed h1" "h_md h1 = md"
      "hashed absorbed h1 = d" by simp_all
    from hasher_finish_ok [OF assms h1(1) r(3)] h1(2,3) show "out = H md d" by simp
  next
    assume "fst (hash_xof D md d n q) = Ok out"
    then obtain h h1 q1 q2 h2 q3 where r: "hasher_new D md q = (Ok h, q1)"
      "hasher_update D d h q1 = (Ok (), h1, q2)" "hasher_finish_xof D n h1 q2 = (Ok out, h2, q3)"
      unfolding hash_xof_def using step by blast
    from hasher_new_ok [OF assms r(1)] have h: "hasher_ok absorbed h" "h_md h = md" "hashed absorbed h = []"
      by simp_all
    from hasher_update_ok [OF assms h(1) r(2)] h(2,3) have h1: "hasher_ok absorbed h1" "h_md h1 = md"
      "hashed absorbed h1 = d" by simp_all
    from hasher_finish_xof_ok [OF assms h1(1) r(3)] h1(2,3) show "out = X md d n" by simp
  qed
qed

end
