(* ===== verification/Symm.thy ===== *)
theory Symm
  imports Effects
begin

text \<open>
  \<open>btls/src/symm.rs\<close>: \<open>Crypter\<close>, \<open>CipherCtxRef\<close> and the one-shot functions, around the \<open>EVP_Cipher*\<close>
  functions of BoringSSL, which are the record \<open>cipher_api\<close>. A C function that writes to a slice reports
  the bytes it wrote from its start; the length it stores in \<open>outl\<close> is an int of its own.
\<close>

section \<open>State and operations\<close>

datatype mode = Encrypt | Decrypt

text \<open>\<open>'t\<close> is \<open>*const EVP_CIPHER\<close>, \<open>'c\<close> the cipher context; a null key or iv is \<open>None\<close>.
  \<open>set_key_length_max\<close> is the largest value of the C type of a key length.\<close>

record ('c, 't) cipher_api =
  EVP_CIPHER_key_length :: "'t \<Rightarrow> nat"
  EVP_CIPHER_iv_length :: "'t \<Rightarrow> nat"
  EVP_CIPHER_block_size :: "'t \<Rightarrow> nat"
  EVP_CIPHER_CTX_new :: "'c option"
  EVP_CipherInit_ex :: "'t option \<Rightarrow> byte list option \<Rightarrow> byte list option \<Rightarrow> int \<Rightarrow> 'c \<Rightarrow> err_queue
                          \<Rightarrow> (int \<times> unit) \<times> 'c \<times> err_queue"
  EVP_CIPHER_CTX_set_key_length :: "nat \<Rightarrow> 'c \<Rightarrow> err_queue \<Rightarrow> (int \<times> unit) \<times> 'c \<times> err_queue"
  EVP_CIPHER_CTX_set_padding :: "int \<Rightarrow> 'c \<Rightarrow> 'c"
  EVP_CTRL_GCM_SET_IVLEN :: "nat \<Rightarrow> 'c \<Rightarrow> err_queue \<Rightarrow> (int \<times> unit) \<times> 'c \<times> err_queue"
  EVP_CTRL_GCM_SET_TAG :: "nat \<Rightarrow> byte list option \<Rightarrow> 'c \<Rightarrow> err_queue \<Rightarrow> (int \<times> unit) \<times> 'c \<times> err_queue"
  EVP_CTRL_GCM_GET_TAG :: "nat \<Rightarrow> 'c \<Rightarrow> err_queue \<Rightarrow> (int \<times> byte list) \<times> 'c \<times> err_queue"
  EVP_CipherUpdate :: "byte list \<Rightarrow> 'c \<Rightarrow> err_queue \<Rightarrow> (int \<times> int \<times> byte list) \<times> 'c \<times> err_queue"
  EVP_CipherUpdate_aad :: "byte list \<Rightarrow> 'c \<Rightarrow> err_queue \<Rightarrow> (int \<times> unit) \<times> 'c \<times> err_queue"
  EVP_CipherUpdate_len :: "nat \<Rightarrow> 'c \<Rightarrow> err_queue \<Rightarrow> (int \<times> unit) \<times> 'c \<times> err_queue"
  EVP_CipherFinal_ex :: "'c \<Rightarrow> err_queue \<Rightarrow> (int \<times> int \<times> byte list) \<times> 'c \<times> err_queue"
  EVP_EncryptInit_ex :: "'t \<Rightarrow> byte list \<Rightarrow> byte list \<Rightarrow> 'c \<Rightarrow> err_queue \<Rightarrow> (int \<times> unit) \<times> 'c \<times> err_queue"
  EVP_DecryptInit_ex :: "'t \<Rightarrow> byte list \<Rightarrow> byte list \<Rightarrow> 'c \<Rightarrow> err_queue \<Rightarrow> (int \<times> unit) \<times> 'c \<times> err_queue"
  set_key_length_max :: nat
  cipher_err_lib_none :: "32 word"

text \<open>\<open>Cipher::iv_len\<close>.\<close>

definition iv_len :: "('c, 't) cipher_api \<Rightarrow> 't \<Rightarrow> nat option" where
  "iv_len C t = (let len = EVP_CIPHER_iv_length C t in if len = 0 then None else Some len)"

text \<open>\<open>CipherCtxRef::init_encrypt\<close> and \<open>init_decrypt\<close>.\<close>

definition init_encrypt :: "('c, 't) cipher_api \<Rightarrow> 't \<Rightarrow> byte list \<Rightarrow> byte list \<Rightarrow> ('c, unit) eff" where
  "init_encrypt C t key iv =
     (if length key \<noteq> EVP_CIPHER_key_length C t
      then efail (internal_error_str (cipher_err_lib_none C) ''invalid key size'')
      else ecvt (EVP_EncryptInit_ex C t key iv))"

definition init_decrypt :: "('c, 't) cipher_api \<Rightarrow> 't \<Rightarrow> byte list \<Rightarrow> byte list \<Rightarrow> ('c, unit) eff" where
  "init_decrypt C t key iv =
     (if length key \<noteq> EVP_CIPHER_key_length C t
      then efail (internal_error_str (cipher_err_lib_none C) ''invalid key size'')
      else ecvt (EVP_DecryptInit_ex C t key iv))"

record 'c crypter =
  cr_ctx :: 'c
  cr_block_size :: nat

definition on_cipher ::
    "('c \<Rightarrow> err_queue \<Rightarrow> (int \<times> 'a) \<times> 'c \<times> err_queue)
     \<Rightarrow> 'c crypter \<Rightarrow> err_queue \<Rightarrow> (int \<times> 'a) \<times> 'c crypter \<times> err_queue" where
  "on_cipher f cr q = (case f (cr_ctx cr) q of (r, c, q') \<Rightarrow> (r, cr\<lparr>cr_ctx := c\<rparr>, q'))"

definition mode_int :: "mode \<Rightarrow> int" where
  "mode_int m = (case m of Encrypt \<Rightarrow> 1 | Decrypt \<Rightarrow> 0)"

text \<open>The match on \<open>(iv, t.iv_len())\<close> in \<open>Crypter::new\<close>.\<close>

definition choose_iv ::
    "('c, 't) cipher_api \<Rightarrow> 't \<Rightarrow> byte list option \<Rightarrow> ('c crypter, byte list option) eff" where
  "choose_iv C t iv =
     (case (iv, iv_len C t) of
        (Some v, Some len) \<Rightarrow>
          ethen (if length v \<noteq> len
                 then ebind (etry_int c_int_max (cipher_err_lib_none C) (length v))
                        (\<lambda>n. ecvt (on_cipher (EVP_CTRL_GCM_SET_IVLEN C n)))
                 else eret ())
            (eret (Some v))
      | (_, None) \<Rightarrow> eret None
      | (None, Some _) \<Rightarrow> epanic ''an IV is required for this cipher'')"

text \<open>\<open>Crypter::new\<close> after the context was allocated.\<close>

definition crypter_setup ::
    "('c, 't) cipher_api \<Rightarrow> 't \<Rightarrow> mode \<Rightarrow> byte list \<Rightarrow> byte list option \<Rightarrow> ('c crypter, unit) eff" where
  "crypter_setup C t mode key iv =
     ethen (ecvt (on_cipher (EVP_CipherInit_ex C (Some t) None None (mode_int mode))))
       (ethen (ebind (etry_int (set_key_length_max C) (cipher_err_lib_none C) (length key))
                 (\<lambda>n. ecvt (on_cipher (EVP_CIPHER_CTX_set_key_length C n))))
         (ebind (choose_iv C t iv) (\<lambda>iv'.
           ecvt (on_cipher (EVP_CipherInit_ex C None (Some key) iv' (mode_int mode))))))"

definition crypter_new ::
    "('c, 't) cipher_api \<Rightarrow> 't \<Rightarrow> mode \<Rightarrow> byte list \<Rightarrow> byte list option \<Rightarrow> err_queue
     \<Rightarrow> 'c crypter eresult \<times> err_queue" where
  "crypter_new C t mode key iv q =
     (case cvt_p (EVP_CIPHER_CTX_new C) q of
        (Inl es, q') \<Rightarrow> (Err es, q')
      | (Inr c, q') \<Rightarrow>
          erun (ethen (crypter_setup C t mode key iv) (eget (\<lambda>cr. cr)))
            \<lparr>cr_ctx = c, cr_block_size = EVP_CIPHER_block_size C t\<rparr> q')"

definition crypter_pad :: "('c, 't) cipher_api \<Rightarrow> bool \<Rightarrow> ('c crypter, unit) eff" where
  "crypter_pad C padding =
     eput (\<lambda>cr. cr\<lparr>cr_ctx := EVP_CIPHER_CTX_set_padding C (if padding then 1 else 0) (cr_ctx cr)\<rparr>)"

definition set_tag :: "('c, 't) cipher_api \<Rightarrow> byte list \<Rightarrow> ('c crypter, unit) eff" where
  "set_tag C tag =
     ebind (etry_int c_int_max (cipher_err_lib_none C) (length tag))
       (\<lambda>n. ecvt (on_cipher (EVP_CTRL_GCM_SET_TAG C n (Some tag))))"

definition set_tag_len :: "('c, 't) cipher_api \<Rightarrow> nat \<Rightarrow> ('c crypter, unit) eff" where
  "set_tag_len C tag_len =
     ebind (etry_int c_int_max (cipher_err_lib_none C) tag_len)
       (\<lambda>n. ecvt (on_cipher (EVP_CTRL_GCM_SET_TAG C n None)))"

definition set_data_len :: "('c, 't) cipher_api \<Rightarrow> nat \<Rightarrow> ('c crypter, unit) eff" where
  "set_data_len C data_len =
     ebind (etry_int c_int_max (cipher_err_lib_none C) data_len) (\<lambda>n. ecvt (on_cipher (EVP_CipherUpdate_len C n)))"

definition aad_update :: "('c, 't) cipher_api \<Rightarrow> byte list \<Rightarrow> ('c crypter, unit) eff" where
  "aad_update C input =
     ethen (etry_int c_int_max (cipher_err_lib_none C) (length input))
       (ecvt (on_cipher (EVP_CipherUpdate_aad C input)))"

text \<open>\<open>Crypter::update\<close> and \<open>finalize\<close>: the count and what the slice \<open>output\<close> holds when they succeed.\<close>

definition crypter_update ::
    "('c, 't) cipher_api \<Rightarrow> byte list \<Rightarrow> byte list \<Rightarrow> ('c crypter, nat \<times> byte list) eff" where
  "crypter_update C input out =
     ebind (eget cr_block_size) (\<lambda>b.
       let block_size = (if b > 1 then b else 0) in
       ethen (eassert (length out \<ge> length input + block_size)
               ''assertion failed: output.len() >= input.len() + block_size'')
         (ethen (etry_int c_int_max (cipher_err_lib_none C) (length out))
           (ethen (etry_int c_int_max (cipher_err_lib_none C) (length input))
             (ebind (ecvt (on_cipher (EVP_CipherUpdate C input)))
               (\<lambda>(outl, bs). eret (nat outl, overwrite bs out))))))"

definition crypter_finalize ::
    "('c, 't) cipher_api \<Rightarrow> byte list \<Rightarrow> ('c crypter, nat \<times> byte list) eff" where
  "crypter_finalize C out =
     ebind (eget cr_block_size) (\<lambda>b.
       ethen (if b > 1 then eassert (length out \<ge> b) ''assertion failed: output.len() >= self.block_size''
              else eret ())
         (ebind (ecvt (on_cipher (EVP_CipherFinal_ex C)))
           (\<lambda>(outl, bs). eret (nat outl, overwrite bs out))))"

text \<open>The tag buffer after \<open>Crypter::get_tag\<close>.\<close>

definition get_tag :: "('c, 't) cipher_api \<Rightarrow> byte list \<Rightarrow> ('c crypter, byte list) eff" where
  "get_tag C tag =
     ebind (etry_int c_int_max (cipher_err_lib_none C) (length tag))
       (\<lambda>n. ebind (ecvt (on_cipher (EVP_CTRL_GCM_GET_TAG C n))) (\<lambda>bs. eret (overwrite bs tag)))"

text \<open>\<open>let rest = c.finalize(&mut out[count..])?\<close>\<close>

definition finalize_rest ::
    "('c, 't) cipher_api \<Rightarrow> nat \<Rightarrow> byte list \<Rightarrow> ('c crypter, nat \<times> byte list) eff" where
  "finalize_rest C count out =
     ethen (eassert (count \<le> length out) ''range start index out of range for slice'')
       (ebind (crypter_finalize C (drop count out)) (\<lambda>(rest, o2). eret (rest, splice count o2 out)))"

definition cipher_buffer :: "('c, 't) cipher_api \<Rightarrow> 't \<Rightarrow> byte list \<Rightarrow> byte list" where
  "cipher_buffer C t data = replicate (length data + EVP_CIPHER_block_size C t) 0"

text \<open>A new crypter for the rest of a one-shot function.\<close>

definition with_crypter ::
    "('c, 't) cipher_api \<Rightarrow> 't \<Rightarrow> mode \<Rightarrow> byte list \<Rightarrow> byte list option \<Rightarrow> ('c crypter, 'a) eff \<Rightarrow> err_queue
     \<Rightarrow> 'a eresult \<times> err_queue" where
  "with_crypter C t mode key iv body q =
     (case crypter_new C t mode key iv q of
        (Ok cr, q') \<Rightarrow> erun body cr q'
      | (Err es, q') \<Rightarrow> (Err es, q')
      | (Panicked p, q') \<Rightarrow> (Panicked p, q'))"

definition cipher ::
    "('c, 't) cipher_api \<Rightarrow> 't \<Rightarrow> mode \<Rightarrow> byte list \<Rightarrow> byte list option \<Rightarrow> byte list \<Rightarrow> err_queue
     \<Rightarrow> byte list eresult \<times> err_queue" where
  "cipher C t mode key iv data =
     with_crypter C t mode key iv
       (ebind (crypter_update C data (cipher_buffer C t data)) (\<lambda>(count, out).
          ebind (finalize_rest C count out) (\<lambda>(rest, out). eret (take (count + rest) out))))"

definition encrypt ::
    "('c, 't) cipher_api \<Rightarrow> 't \<Rightarrow> byte list \<Rightarrow> byte list option \<Rightarrow> byte list \<Rightarrow> err_queue
     \<Rightarrow> byte list eresult \<times> err_queue" where
  "encrypt C t key iv data = cipher C t Encrypt key iv data"

definition decrypt ::
    "('c, 't) cipher_api \<Rightarrow> 't \<Rightarrow> byte list \<Rightarrow> byte list option \<Rightarrow> byte list \<Rightarrow> err_queue
     \<Rightarrow> byte list eresult \<times> err_queue" where
  "decrypt C t key iv data = cipher C t Decrypt key iv data"

text \<open>\<open>encrypt_aead\<close> returns the ciphertext and what is left in \<open>tag\<close>.\<close>

definition encrypt_aead ::
    "('c, 't) cipher_api \<Rightarrow> 't \<Rightarrow> byte list \<Rightarrow> byte list option \<Rightarrow> byte list \<Rightarrow> byte list \<Rightarrow> byte list
     \<Rightarrow> err_queue \<Rightarrow> (byte list \<times> byte list) eresult \<times> err_queue" where
  "encrypt_aead C t key iv aad data tag =
     with_crypter C t Encrypt key iv
       (ethen (aad_update C aad)
         (ebind (crypter_update C data (cipher_buffer C t data)) (\<lambda>(count, out).
            ebind (finalize_rest C count out) (\<lambda>(rest, out).
              ebind (get_tag C tag) (\<lambda>tag'. eret (take (count + rest) out, tag'))))))"

definition decrypt_aead ::
    "('c, 't) cipher_api \<Rightarrow> 't \<Rightarrow> byte list \<Rightarrow> byte list option \<Rightarrow> byte list \<Rightarrow> byte list \<Rightarrow> byte list
     \<Rightarrow> err_queue \<Rightarrow> byte list eresult \<times> err_queue" where
  "decrypt_aead C t key iv aad data tag =
     with_crypter C t Decrypt key iv
       (ethen (aad_update C aad)
         (ebind (crypter_update C data (cipher_buffer C t data)) (\<lambda>(count, out).
            ethen (set_tag C tag)
              (ebind (finalize_rest C count out) (\<lambda>(rest, out). eret (take (count + rest) out))))))"

section \<open>Specification\<close>

text \<open>
  What a cipher context stands for: the cipher and mode, the key and iv lengths it will read, the key and
  iv it was given, what was fed to it and what it has put out.
\<close>

record 't cipher_view =
  cv_alg :: 't
  cv_mode :: int
  cv_klen :: nat
  cv_ivlen :: nat
  cv_key :: "byte list"
  cv_iv :: "byte list option"
  cv_aad :: "byte list"
  cv_fed :: "byte list"
  cv_out :: "byte list"
  cv_tag :: "byte list option"

text \<open>What the output and the tag depend on.\<close>

definition core :: "'t cipher_view \<Rightarrow> 't cipher_view" where
  "core v = v\<lparr>cv_out := [], cv_tag := None\<rparr>"

definition spare_block :: "('c, 't) cipher_api \<Rightarrow> 't \<Rightarrow> nat" where
  "spare_block C t = (if EVP_CIPHER_block_size C t > 1 then EVP_CIPHER_block_size C t else 0)"

definition iv_fits :: "'t cipher_view \<Rightarrow> byte list option \<Rightarrow> bool" where
  "iv_fits v iv = (case iv of Some x \<Rightarrow> cv_ivlen v = length x | None \<Rightarrow> cv_ivlen v = 0)"

text \<open>
  The documented behaviour of successful calls. \<open>E\<close> is the whole output for a view, \<open>T\<close> its tag of
  a length. The key and iv are read up to the configured lengths, so a call with other lengths promises
  nothing. No more is put out than was fed until the end, and the end adds at most a block. Decryption with an
  authenticated cipher ends well only if the tag that was set is right.
\<close>

definition init_spec :: "('c, 't) cipher_api \<Rightarrow> ('c \<Rightarrow> 't cipher_view) \<Rightarrow> bool" where
  "init_spec C V \<longleftrightarrow>
     (\<forall>t m c q r u c' q'. EVP_CipherInit_ex C (Some t) None None m c q = ((r, u), c', q') \<longrightarrow> 0 < r \<longrightarrow>
        cv_alg (V c') = t \<and> cv_mode (V c') = m \<and> cv_klen (V c') = EVP_CIPHER_key_length C t \<and>
        cv_ivlen (V c') = EVP_CIPHER_iv_length C t) \<and>
     (\<forall>n c q r u c' q'. EVP_CIPHER_CTX_set_key_length C n c q = ((r, u), c', q') \<longrightarrow> 0 < r \<longrightarrow>
        V c' = V c\<lparr>cv_klen := n\<rparr>) \<and>
     (\<forall>n c q r u c' q'. EVP_CTRL_GCM_SET_IVLEN C n c q = ((r, u), c', q') \<longrightarrow> 0 < r \<longrightarrow>
        V c' = V c\<lparr>cv_ivlen := n\<rparr>) \<and>
     (\<forall>key iv m c q r u c' q'. EVP_CipherInit_ex C None (Some key) iv m c q = ((r, u), c', q') \<longrightarrow> 0 < r \<longrightarrow>
        cv_klen (V c) = length key \<longrightarrow> iv_fits (V c) iv \<longrightarrow>
        V c' = V c\<lparr>cv_mode := m, cv_key := key, cv_iv := iv, cv_aad := [], cv_fed := [], cv_out := [], cv_tag := None\<rparr>)"

definition data_spec ::
    "('c, 't) cipher_api \<Rightarrow> ('c \<Rightarrow> 't cipher_view) \<Rightarrow> ('t cipher_view \<Rightarrow> byte list) \<Rightarrow> bool" where
  "data_spec C V E \<longleftrightarrow>
     (\<forall>d c q r n bs c' q'. EVP_CipherUpdate C d c q = ((r, n, bs), c', q') \<longrightarrow> 0 < r \<longrightarrow>
        n = int (length bs) \<and> V c' = V c\<lparr>cv_fed := cv_fed (V c) @ d, cv_out := cv_out (V c) @ bs\<rparr> \<and>
        length bs \<le> length d + spare_block C (cv_alg (V c)) \<and>
        length (cv_out (V c')) \<le> length (cv_fed (V c'))) \<and>
     (\<forall>c q r n bs c' q'. EVP_CipherFinal_ex C c q = ((r, n, bs), c', q') \<longrightarrow> 0 < r \<longrightarrow>
        n = int (length bs) \<and> V c' = V c\<lparr>cv_out := cv_out (V c) @ bs\<rparr> \<and>
        length bs \<le> spare_block C (cv_alg (V c)) \<and> cv_out (V c') = E (core (V c)))"

definition tag_spec ::
    "('c, 't) cipher_api \<Rightarrow> ('c \<Rightarrow> 't cipher_view) \<Rightarrow> ('t cipher_view \<Rightarrow> nat \<Rightarrow> byte list) \<Rightarrow> ('t \<Rightarrow> bool)
     \<Rightarrow> bool" where
  "tag_spec C V T aead \<longleftrightarrow>
     (\<forall>a c q r u c' q'. EVP_CipherUpdate_aad C a c q = ((r, u), c', q') \<longrightarrow> 0 < r \<longrightarrow>
        V c' = V c\<lparr>cv_aad := cv_aad (V c) @ a\<rparr>) \<and>
     (\<forall>n tag c q r u c' q'. EVP_CTRL_GCM_SET_TAG C n (Some tag) c q = ((r, u), c', q') \<longrightarrow> 0 < r \<longrightarrow>
        n = length tag \<longrightarrow> V c' = V c\<lparr>cv_tag := Some tag\<rparr>) \<and>
     (\<forall>n c q r bs c' q'. EVP_CTRL_GCM_GET_TAG C n c q = ((r, bs), c', q') \<longrightarrow> 0 < r \<longrightarrow>
        length bs = n \<and> bs = T (core (V c)) n) \<and>
     (\<forall>c q r out c' q'. EVP_CipherFinal_ex C c q = ((r, out), c', q') \<longrightarrow> 0 < r \<longrightarrow>
        aead (cv_alg (V c)) \<longrightarrow> cv_mode (V c) = mode_int Decrypt \<longrightarrow>
        (\<exists>tag. cv_tag (V c) = Some tag \<and> tag = T (core (V c)) (length tag)))"

text \<open>The view of a context that was set up for a key and iv and fed \<open>aad\<close> and \<open>d\<close>, output left out.\<close>

definition keyed ::
    "('c, 't) cipher_api \<Rightarrow> 't \<Rightarrow> mode \<Rightarrow> byte list \<Rightarrow> byte list option \<Rightarrow> byte list \<Rightarrow> byte list
     \<Rightarrow> 't cipher_view" where
  "keyed C t mode key iv aad d =
     (let iv' = (if EVP_CIPHER_iv_length C t = 0 then None else iv) in
      \<lparr>cv_alg = t, cv_mode = mode_int mode, cv_klen = length key,
       cv_ivlen = (case iv' of None \<Rightarrow> 0 | Some v \<Rightarrow> length v), cv_key = key, cv_iv = iv', cv_aad = aad,
       cv_fed = d, cv_out = [], cv_tag = None\<rparr>)"

lemma on_cipher_eq:
  "on_cipher f cr q = (r, cr', q') \<longleftrightarrow> (\<exists>c. f (cr_ctx cr) q = (r, c, q') \<and> cr' = cr\<lparr>cr_ctx := c\<rparr>)"
  by (auto simp: on_cipher_def split: prod.splits)

lemma call_on_cipher:
  "ecvt (on_cipher f) cr q = (Ok x, cr', q') \<longleftrightarrow>
     (\<exists>r c. 0 < r \<and> f (cr_ctx cr) q = ((r, x), c, q') \<and> cr' = cr\<lparr>cr_ctx := c\<rparr>)"
  by (auto simp: ecvt_eq_ok on_cipher_eq)

lemma length_overwrite: "length bs \<le> length out \<Longrightarrow> length (overwrite bs out) = length out"
  by (simp add: overwrite_def)

lemma take_overwrite: "take (length bs) (overwrite bs out) = bs"
  by (simp add: overwrite_def)

text \<open>The setup ends in the view that the key, the iv and the mode determine.\<close>

lemma choose_iv_ok:
  assumes "init_spec C V" and "choose_iv C t iv cr q = (Ok iv', cr', q')"
    and "cv_ivlen (V (cr_ctx cr)) = EVP_CIPHER_iv_length C t"
  shows "iv_fits (V (cr_ctx cr')) iv' \<and> iv' = (if EVP_CIPHER_iv_length C t = 0 then None else iv) \<and>
     cr_block_size cr' = cr_block_size cr \<and>
     V (cr_ctx cr') = V (cr_ctx cr)\<lparr>cv_ivlen := (case iv' of None \<Rightarrow> 0 | Some v \<Rightarrow> length v)\<rparr>"
proof (cases "EVP_CIPHER_iv_length C t = 0")
  case True
  with assms(2,3) show ?thesis
    by (cases iv) (auto simp: choose_iv_def iv_len_def Let_def iv_fits_def)
next
  case False
  with assms(2) obtain v where v: "iv = Some v" "iv' = Some v"
    by (cases iv) (auto simp: choose_iv_def iv_len_def Let_def ethen_eq_ok)
  show ?thesis
  proof (cases "length v = EVP_CIPHER_iv_length C t")
    case True
    with assms(2,3) False v show ?thesis by (simp add: choose_iv_def iv_len_def Let_def iv_fits_def)
  next
    case F: False
    with assms(2) False v obtain r c where r: "0 < r"
      "EVP_CTRL_GCM_SET_IVLEN C (length v) (cr_ctx cr) q = ((r, ()), c, q')" "cr' = cr\<lparr>cr_ctx := c\<rparr>"
      by (auto simp: choose_iv_def iv_len_def Let_def ethen_eq_ok ebind_eq_ok etry_int_eq_ok call_on_cipher)
    from assms(1) [unfolded init_spec_def, THEN conjunct2, THEN conjunct2, THEN conjunct1] r(1,2)
    have "V c = V (cr_ctx cr)\<lparr>cv_ivlen := length v\<rparr>" by blast
    with r v False show ?thesis by (simp add: iv_fits_def)
  qed
qed

lemma crypter_setup_ok:
  assumes "init_spec C V" and "crypter_setup C t mode key iv cr q = (Ok u, cr', q')"
  shows "V (cr_ctx cr') = keyed C t mode key iv [] [] \<and> cr_block_size cr' = cr_block_size cr"
proof -
  from assms(2) obtain r1 c1 q1 r2 c2 q2 iv' cr3 q3 r4 c4 where
    1: "0 < r1" "EVP_CipherInit_ex C (Some t) None None (mode_int mode) (cr_ctx cr) q = ((r1, ()), c1, q1)" and
    2: "0 < r2" "EVP_CIPHER_CTX_set_key_length C (length key) c1 q1 = ((r2, ()), c2, q2)" and
    3: "choose_iv C t iv (cr\<lparr>cr_ctx := c2\<rparr>) q2 = (Ok iv', cr3, q3)" and
    4: "0 < r4" "EVP_CipherInit_ex C None (Some key) iv' (mode_int mode) (cr_ctx cr3) q3 = ((r4, ()), c4, q')"
      "cr' = cr3\<lparr>cr_ctx := c4\<rparr>"
    by (auto simp: crypter_setup_def ethen_eq_ok ebind_eq_ok etry_int_eq_ok call_on_cipher)
  from assms(1) [unfolded init_spec_def, THEN conjunct1] 1 have v1: "cv_alg (V c1) = t \<and> cv_ivlen (V c1) = EVP_CIPHER_iv_length C t"
    by blast
  from assms(1) [unfolded init_spec_def, THEN conjunct2, THEN conjunct1] 2 have v2: "V c2 = V c1\<lparr>cv_klen := length key\<rparr>"
    by blast
  have "cv_ivlen (V (cr_ctx (cr\<lparr>cr_ctx := c2\<rparr>))) = EVP_CIPHER_iv_length C t" by (simp add: v1 v2)
  note iv_ok = choose_iv_ok [OF assms(1) 3 this]
  note v3 = iv_ok [THEN conjunct1] iv_ok [THEN conjunct2, THEN conjunct1]
    iv_ok [THEN conjunct2, THEN conjunct2, THEN conjunct1, simplified]
    iv_ok [THEN conjunct2, THEN conjunct2, THEN conjunct2, simplified]
  have "cv_klen (V (cr_ctx cr3)) = length key" by (simp add: v3(4) v2)
  with assms(1) [unfolded init_spec_def, THEN conjunct2, THEN conjunct2, THEN conjunct2] 4(1,2) v3(1)
  have "V c4 = V (cr_ctx cr3)\<lparr>cv_mode := mode_int mode, cv_key := key, cv_iv := iv',
      cv_aad := [], cv_fed := [], cv_out := [], cv_tag := None\<rparr>" by blast
  with 4(3) v1 v2 v3(2,3,4) show ?thesis by (simp add: keyed_def Let_def)
qed

text \<open>One call of \<open>update\<close> and of \<open>finalize\<close>, with the bytes written.\<close>

lemma crypter_update_ok:
  assumes "data_spec C V E" and "crypter_update C d out cr q = (Ok (n, out'), cr', q')"
    and "cr_block_size cr = EVP_CIPHER_block_size C (cv_alg (V (cr_ctx cr)))"
  obtains bs where "n = length bs" "out' = overwrite bs out" "length bs \<le> length out"
    "V (cr_ctx cr') = V (cr_ctx cr)\<lparr>cv_fed := cv_fed (V (cr_ctx cr)) @ d, cv_out := cv_out (V (cr_ctx cr)) @ bs\<rparr>"
    "length (cv_out (V (cr_ctx cr'))) \<le> length (cv_fed (V (cr_ctx cr')))" "cr_block_size cr' = cr_block_size cr"
    "length bs \<le> length d + spare_block C (cv_alg (V (cr_ctx cr)))"
proof -
  from assms(2) obtain r k bs c where
    1: "length out \<ge> length d + (if cr_block_size cr > 1 then cr_block_size cr else 0)" and
    2: "0 < r" "EVP_CipherUpdate C d (cr_ctx cr) q = ((r, k, bs), c, q')" and
    3: "cr' = cr\<lparr>cr_ctx := c\<rparr>" "n = nat k" "out' = overwrite bs out"
    by (auto simp: crypter_update_def Let_def ebind_eq_ok ethen_eq_ok eassert_eq_ok etry_int_eq_ok call_on_cipher)
  from assms(1) [unfolded data_spec_def, THEN conjunct1] 2 have
    "k = int (length bs) \<and>
     V c = V (cr_ctx cr)\<lparr>cv_fed := cv_fed (V (cr_ctx cr)) @ d, cv_out := cv_out (V (cr_ctx cr)) @ bs\<rparr> \<and>
     length bs \<le> length d + spare_block C (cv_alg (V (cr_ctx cr))) \<and> length (cv_out (V c)) \<le> length (cv_fed (V c))"
    by blast
  with 1 3 assms(3) that [of bs] show thesis by (auto simp: spare_block_def split: if_splits)
qed

lemma crypter_finalize_eq_ok:
  "crypter_finalize C out cr q = (Ok (n, out'), cr', q') \<longleftrightarrow>
     (cr_block_size cr > 1 \<longrightarrow> length out \<ge> cr_block_size cr) \<and>
     (\<exists>r k bs c. 0 < r \<and> EVP_CipherFinal_ex C (cr_ctx cr) q = ((r, k, bs), c, q') \<and>
        cr' = cr\<lparr>cr_ctx := c\<rparr> \<and> n = nat k \<and> out' = overwrite bs out)"
  by (cases "cr_block_size cr > 1")
    (auto simp: crypter_finalize_def ebind_eq_ok ethen_eq_ok eassert_eq_ok call_on_cipher)

lemma crypter_finalize_ok:
  assumes "data_spec C V E" and "crypter_finalize C out cr q = (Ok (n, out'), cr', q')"
    and "cr_block_size cr = EVP_CIPHER_block_size C (cv_alg (V (cr_ctx cr)))"
  obtains bs where "n = length bs" "out' = overwrite bs out" "length bs \<le> length out"
    "V (cr_ctx cr') = V (cr_ctx cr)\<lparr>cv_out := cv_out (V (cr_ctx cr)) @ bs\<rparr>"
    "cv_out (V (cr_ctx cr')) = E (core (V (cr_ctx cr)))" "cr_block_size cr' = cr_block_size cr"
proof -
  from assms(2) obtain r k bs c where
    1: "cr_block_size cr > 1 \<longrightarrow> length out \<ge> cr_block_size cr" and
    2: "0 < r" "EVP_CipherFinal_ex C (cr_ctx cr) q = ((r, k, bs), c, q')" and
    3: "cr' = cr\<lparr>cr_ctx := c\<rparr>" "n = nat k" "out' = overwrite bs out"
    unfolding crypter_finalize_eq_ok by blast
  from assms(1) [unfolded data_spec_def, THEN conjunct2] 2 have
    "k = int (length bs) \<and> V c = V (cr_ctx cr)\<lparr>cv_out := cv_out (V (cr_ctx cr)) @ bs\<rparr> \<and>
     length bs \<le> spare_block C (cv_alg (V (cr_ctx cr))) \<and> cv_out (V c) = E (core (V (cr_ctx cr)))" by blast
  with 1 3 assms(3) that [of bs] show thesis by (auto simp: spare_block_def split: if_splits)
qed

text \<open>The middle of every one-shot function: the buffer it allocates is always large enough.\<close>

definition one_shot_ready :: "('c, 't) cipher_api \<Rightarrow> ('c \<Rightarrow> 't cipher_view) \<Rightarrow> 't cipher_view \<Rightarrow> 'c crypter \<Rightarrow> bool"
  where
  "one_shot_ready C V v cr \<longleftrightarrow>
     core (V (cr_ctx cr)) = v \<and> cr_block_size cr = EVP_CIPHER_block_size C (cv_alg v)"

lemma one_shot_update:
  assumes "data_spec C V E" and "one_shot_ready C V v cr" and "cv_fed v = []" and "cv_out (V (cr_ctx cr)) = []"
    and "crypter_update C d (cipher_buffer C (cv_alg v) d) cr q = (Ok (count, out), cr', q')"
  shows "one_shot_ready C V (v\<lparr>cv_fed := d\<rparr>) cr' \<and> count \<le> length d \<and>
     length out = length d + EVP_CIPHER_block_size C (cv_alg v) \<and> take count out = cv_out (V (cr_ctx cr'))"
proof -
  from assms(2) have a: "cv_alg (V (cr_ctx cr)) = cv_alg v" "cv_fed (V (cr_ctx cr)) = cv_fed v" 
    by (auto simp: one_shot_ready_def core_def)
  with assms(2) have "cr_block_size cr = EVP_CIPHER_block_size C (cv_alg (V (cr_ctx cr)))"
    by (simp add: one_shot_ready_def)
  from crypter_update_ok [OF assms(1,5) this] obtain bs where u: "count = length bs"
    "out = overwrite bs (cipher_buffer C (cv_alg v) d)" "length bs \<le> length (cipher_buffer C (cv_alg v) d)"
    "V (cr_ctx cr') = V (cr_ctx cr)\<lparr>cv_fed := cv_fed (V (cr_ctx cr)) @ d, cv_out := cv_out (V (cr_ctx cr)) @ bs\<rparr>"
    "length (cv_out (V (cr_ctx cr'))) \<le> length (cv_fed (V (cr_ctx cr')))" "cr_block_size cr' = cr_block_size cr"
    by blast
  have "length bs \<le> length d" using u(5) by (simp add: u(4) assms(3,4) a)
  moreover have "length out = length d + EVP_CIPHER_block_size C (cv_alg v)"
    using length_overwrite [OF u(3)] by (simp add: u(2) cipher_buffer_def)
  moreover have "take count out = cv_out (V (cr_ctx cr'))"
    by (simp add: u(1,2,4) take_overwrite assms(4))
  moreover have "one_shot_ready C V (v\<lparr>cv_fed := d\<rparr>) cr'"
    using assms(2,3) by (auto simp: one_shot_ready_def core_def u(4,6))
  ultimately show ?thesis by (simp add: u(1))
qed

lemma one_shot_finalize:
  assumes "data_spec C V E" and "one_shot_ready C V v cr" and "take count out = cv_out (V (cr_ctx cr))"
    and "count \<le> length out" and "finalize_rest C count out cr q = (Ok (rest, out'), cr', q')"
  shows "take (count + rest) out' = E v \<and> length out' = length out \<and> count + rest \<le> length out \<and>
         one_shot_ready C V v cr'"
proof -
  from assms(2) have "cr_block_size cr = EVP_CIPHER_block_size C (cv_alg (V (cr_ctx cr)))"
    by (auto simp: one_shot_ready_def core_def)
  moreover from assms(5) obtain o2 where f: "crypter_finalize C (drop count out) cr q = (Ok (rest, o2), cr', q')"
    "out' = splice count o2 out"
    by (auto simp: finalize_rest_def ethen_eq_ok ebind_eq_ok eassert_eq_ok)
  ultimately obtain bs where u: "rest = length bs" "o2 = overwrite bs (drop count out)"
    "length bs \<le> length (drop count out)"
    "V (cr_ctx cr') = V (cr_ctx cr)\<lparr>cv_out := cv_out (V (cr_ctx cr)) @ bs\<rparr>"
    "cv_out (V (cr_ctx cr')) = E (core (V (cr_ctx cr)))" "cr_block_size cr' = cr_block_size cr"
    using crypter_finalize_ok [OF assms(1)] by blast
  have "take (count + rest) out' = take count out @ bs"
    using assms(4) by (simp add: f(2) u(1,2) splice_def overwrite_def)
  also have "\<dots> = E v" using u(4,5) assms(2,3) by (simp add: one_shot_ready_def)
  finally show ?thesis using assms(2,4) u(3)
    by (auto simp: f(2) splice_def u(1,2,4,6) length_overwrite one_shot_ready_def core_def)
qed

text \<open>No assertion fails and no range is out of bounds in the middle of a one-shot function.\<close>

lemma one_shot_update_no_panic:
  assumes "cr_block_size cr = EVP_CIPHER_block_size C t"
  shows "crypter_update C d (cipher_buffer C t d) cr q \<noteq> (Panicked p, cr', q')"
  using assms by (auto simp: crypter_update_def Let_def eff_panic eassert_def cipher_buffer_def)

lemma one_shot_finalize_no_panic:
  assumes "one_shot_ready C V v cr" and "count \<le> length d" and "length out = length d + EVP_CIPHER_block_size C (cv_alg v)"
  shows "finalize_rest C count out cr q \<noteq> (Panicked p, cr', q')"
  using assms
  by (auto simp: one_shot_ready_def finalize_rest_def crypter_finalize_def eff_panic eassert_def split: if_splits)

lemma keyed_simps [simp]:
  "cv_alg (keyed C t mode key iv aad d) = t" "cv_fed (keyed C t mode key iv aad d) = d"
  "cv_out (keyed C t mode key iv aad d) = []" "cv_mode (keyed C t mode key iv aad d) = mode_int mode"
  "keyed C t mode key iv aad d\<lparr>cv_fed := d'\<rparr> = keyed C t mode key iv aad d'"
  "keyed C t mode key iv aad d\<lparr>cv_aad := a'\<rparr> = keyed C t mode key iv a' d"
  "cv_aad (keyed C t mode key iv aad d) = aad" "core (keyed C t mode key iv aad d) = keyed C t mode key iv aad d"
  by (simp_all add: keyed_def Let_def core_def)

lemma crypter_new_ok:
  assumes "init_spec C V" and "crypter_new C t mode key iv q = (Ok cr, q')"
  shows "V (cr_ctx cr) = keyed C t mode key iv [] [] \<and> cr_block_size cr = EVP_CIPHER_block_size C t"
proof -
  obtain c q1 u where "crypter_setup C t mode key iv \<lparr>cr_ctx = c, cr_block_size = EVP_CIPHER_block_size C t\<rparr> q1 =
      (Ok u, cr, q')"
    using assms(2) by (auto simp: crypter_new_def erun_def ethen_eq_ok split: prod.splits eresult.splits sum.splits)
  from crypter_setup_ok [OF assms(1) this] show ?thesis by simp
qed

lemma crypter_new_panic:
  assumes "crypter_new C t mode key iv q = (Panicked p, q')"
  shows "iv = None \<and> EVP_CIPHER_iv_length C t \<noteq> 0 \<and> p = ''an IV is required for this cipher''"
  using assms
  by (auto simp: crypter_new_def crypter_setup_def choose_iv_def iv_len_def Let_def erun_def eff_panic
      split: prod.splits eresult.splits sum.splits option.splits if_splits)

lemma with_crypter_eq_ok:
  "fst (with_crypter C t mode key iv body q) = Ok x \<longleftrightarrow>
     (\<exists>cr q1 cr' q'. crypter_new C t mode key iv q = (Ok cr, q1) \<and> body cr q1 = (Ok x, cr', q'))"
  by (auto simp: with_crypter_def erun_def split: prod.splits eresult.splits)

lemma with_crypter_eq_panic:
  "fst (with_crypter C t mode key iv body q) = Panicked p \<longleftrightarrow>
     (\<exists>q'. crypter_new C t mode key iv q = (Panicked p, q')) \<or>
     (\<exists>cr q1 cr' q'. crypter_new C t mode key iv q = (Ok cr, q1) \<and> body cr q1 = (Panicked p, cr', q'))"
  by (auto simp: with_crypter_def erun_def split: prod.splits eresult.splits)

section \<open>Properties\<close>

text \<open>
  C18: \<open>encrypt\<close> and \<open>decrypt\<close> return the whole output of the cipher for the key, the iv and the data, at
  most a block longer than the data. The buffer they allocate is always large enough: no assertion of
  \<open>update\<close> or \<open>finalize\<close> and no range fails, so they panic only when an iv is required and missing.
\<close>

theorem cipher_returns_whole_output:
  assumes "init_spec C V" and "data_spec C V E"
  shows "(fst (cipher C t mode key iv data q) = Ok out \<longrightarrow>
            out = E (keyed C t mode key iv [] data) \<and> length out \<le> length data + EVP_CIPHER_block_size C t) \<and>
         (fst (cipher C t mode key iv data q) = Panicked p \<longrightarrow>
            iv = None \<and> iv_len C t \<noteq> None \<and> p = ''an IV is required for this cipher'')"
proof (intro conjI impI)
  let ?v = "keyed C t mode key iv [] []"
  have ready: "one_shot_ready C V ?v cr" "cv_out (V (cr_ctx cr)) = []" "cr_block_size cr = EVP_CIPHER_block_size C t"
    if "crypter_new C t mode key iv q = (Ok cr, q1)" for cr q1
    using crypter_new_ok [OF assms(1) that] by (simp_all add: one_shot_ready_def)
  note up = one_shot_update [OF assms(2) ready(1) keyed_simps(2) ready(2), simplified]
  {
    assume "fst (cipher C t mode key iv data q) = Ok out"
    then obtain cr q1 count o1 cr2 q2 rest o2 cr3 q3 where n: "crypter_new C t mode key iv q = (Ok cr, q1)" and
      u: "crypter_update C data (cipher_buffer C t data) cr q1 = (Ok (count, o1), cr2, q2)" and
      f: "finalize_rest C count o1 cr2 q2 = (Ok (rest, o2), cr3, q3)" "out = take (count + rest) o2"
      by (auto simp: cipher_def with_crypter_eq_ok ebind_eq_ok)
    from up [OF n n] u have r: "one_shot_ready C V (keyed C t mode key iv [] data) cr2" "count \<le> length data"
      "length o1 = length data + EVP_CIPHER_block_size C t" "take count o1 = cv_out (V (cr_ctx cr2))" by simp_all
    from f(2) have "length out \<le> length o2" by simp
    with one_shot_finalize [OF assms(2) r(1,4) _ f(1)] r(2,3) f(2)
    show "out = E (keyed C t mode key iv [] data)" "length out \<le> length data + EVP_CIPHER_block_size C t"
      by simp_all
  }
  assume p: "fst (cipher C t mode key iv data q) = Panicked p"
  have "\<exists>q'. crypter_new C t mode key iv q = (Panicked p, q')"
  proof (rule ccontr)
    assume "\<nexists>q'. crypter_new C t mode key iv q = (Panicked p, q')"
    with p obtain cr q1 cr' q' where n: "crypter_new C t mode key iv q = (Ok cr, q1)" and
      b: "ebind (crypter_update C data (cipher_buffer C t data)) (\<lambda>(count, out).
          ebind (finalize_rest C count out) (\<lambda>(rest, out). eret (take (count + rest) out))) cr q1 = (Panicked p, cr', q')"
      unfolding cipher_def with_crypter_eq_panic by blast
    then obtain count o1 cr2 q2 where u: "crypter_update C data (cipher_buffer C t data) cr q1 = (Ok (count, o1), cr2, q2)"
      and f: "finalize_rest C count o1 cr2 q2 = (Panicked p, cr', q')"
      using one_shot_update_no_panic [OF ready(3) [OF n]] by (auto simp: eff_panic)
    from up [OF n n] u have "one_shot_ready C V (keyed C t mode key iv [] data) cr2" "count \<le> length data"
      "length o1 = length data + EVP_CIPHER_block_size C t" by simp_all
    with one_shot_finalize_no_panic f show False by fastforce
  qed
  then show "iv = None" "iv_len C t \<noteq> None" "p = ''an IV is required for this cipher''"
    by (auto simp: iv_len_def Let_def dest!: crypter_new_panic)
qed

lemma aad_update_ok:
  assumes "tag_spec C V T aead" and "aad_update C a cr q = (Ok u, cr', q')"
  shows "V (cr_ctx cr') = V (cr_ctx cr)\<lparr>cv_aad := cv_aad (V (cr_ctx cr)) @ a\<rparr> \<and> cr_block_size cr' = cr_block_size cr"
proof -
  from assms(2) obtain r c where r: "0 < r" "EVP_CipherUpdate_aad C a (cr_ctx cr) q = ((r, ()), c, q')"
    "cr' = cr\<lparr>cr_ctx := c\<rparr>"
    by (auto simp: aad_update_def ethen_eq_ok etry_int_eq_ok call_on_cipher)
  with assms(1) [unfolded tag_spec_def, THEN conjunct1]
  have "V c = V (cr_ctx cr)\<lparr>cv_aad := cv_aad (V (cr_ctx cr)) @ a\<rparr>" by blast
  with r(3) show ?thesis by simp
qed

lemma set_tag_ok:
  assumes "tag_spec C V T aead" and "set_tag C tag cr q = (Ok u, cr', q')"
  shows "V (cr_ctx cr') = V (cr_ctx cr)\<lparr>cv_tag := Some tag\<rparr> \<and> cr_block_size cr' = cr_block_size cr"
proof -
  from assms(2) obtain r c where r: "0 < r"
    "EVP_CTRL_GCM_SET_TAG C (length tag) (Some tag) (cr_ctx cr) q = ((r, ()), c, q')" "cr' = cr\<lparr>cr_ctx := c\<rparr>"
    by (auto simp: set_tag_def ebind_eq_ok etry_int_eq_ok call_on_cipher)
  with assms(1) [unfolded tag_spec_def, THEN conjunct2, THEN conjunct1]
  have "V c = V (cr_ctx cr)\<lparr>cv_tag := Some tag\<rparr>" by blast
  with r(3) show ?thesis by simp
qed

lemma get_tag_ok:
  assumes "tag_spec C V T aead" and "get_tag C tag cr q = (Ok tag', cr', q')"
  shows "tag' = T (core (V (cr_ctx cr))) (length tag) \<and> length tag' = length tag"
proof -
  from assms(2) obtain r bs c where r: "0 < r" "EVP_CTRL_GCM_GET_TAG C (length tag) (cr_ctx cr) q = ((r, bs), c, q')"
    "tag' = overwrite bs tag"
    by (auto simp: get_tag_def ebind_eq_ok etry_int_eq_ok call_on_cipher)
  with assms(1) [unfolded tag_spec_def, THEN conjunct2, THEN conjunct2, THEN conjunct1]
  have "length bs = length tag \<and> bs = T (core (V (cr_ctx cr))) (length tag)" by blast
  then show ?thesis unfolding r(3) overwrite_def by auto
qed

lemma finalize_checks_tag:
  assumes "tag_spec C V T aead" and "finalize_rest C count out cr q = (Ok (rest, out'), cr', q')"
    and "aead (cv_alg (V (cr_ctx cr)))" and "cv_mode (V (cr_ctx cr)) = mode_int Decrypt"
  shows "\<exists>tag. cv_tag (V (cr_ctx cr)) = Some tag \<and> tag = T (core (V (cr_ctx cr))) (length tag)"
proof -
  from assms(2) obtain n o2 where "crypter_finalize C (drop count out) cr q = (Ok (n, o2), cr', q')"
    by (auto simp: finalize_rest_def ethen_eq_ok ebind_eq_ok eassert_eq_ok)
  then obtain r k bs c where f: "0 < r" "EVP_CipherFinal_ex C (cr_ctx cr) q = ((r, k, bs), c, q')"
    unfolding crypter_finalize_eq_ok by blast
  note final = assms(1) [unfolded tag_spec_def, THEN conjunct2, THEN conjunct2, THEN conjunct2, rule_format]
  from final [OF f(2,1) assms(3,4)] show ?thesis .
qed

text \<open>The opening of both authenticated functions.\<close>

lemma aead_start:
  assumes "init_spec C V" and "data_spec C V E" and "tag_spec C V T aead"
    and "crypter_new C t mode key iv q = (Ok cr, q1)" and "aad_update C aad cr q1 = (Ok u, cr1, q2)"
    and "crypter_update C data (cipher_buffer C t data) cr1 q2 = (Ok (count, o1), cr2, q3)"
  shows "one_shot_ready C V (keyed C t mode key iv aad data) cr2 \<and> count \<le> length o1 \<and>
         take count o1 = cv_out (V (cr_ctx cr2))"
proof -
  let ?v = "keyed C t mode key iv aad []"
  from crypter_new_ok [OF assms(1,4)] aad_update_ok [OF assms(3,5)]
  have "V (cr_ctx cr1) = ?v" "cr_block_size cr1 = EVP_CIPHER_block_size C t" by simp_all
  then have "one_shot_ready C V ?v cr1" "cv_out (V (cr_ctx cr1)) = []" by (simp_all add: one_shot_ready_def)
  from one_shot_update [OF assms(2) this(1) keyed_simps(2) this(2), of data q2 count o1 cr2 q3] assms(6)
  show ?thesis by simp
qed

text \<open>
  C19: What \<open>encrypt_aead\<close> returns is the cipher's whole output with its tag of the requested length.
  What \<open>decrypt_aead\<close> returns is the whole output for a tag that is right: a wrong tag is an error, and
  no plaintext is returned. So decrypting what was encrypted returns the data.
\<close>

theorem aead_authenticates:
  assumes "init_spec C V" and "data_spec C V E" and "tag_spec C V T aead" and "aead t"
  shows "(fst (encrypt_aead C t key iv aad data tag q) = Ok (ct, tag') \<longrightarrow>
            ct = E (keyed C t Encrypt key iv aad data) \<and>
            tag' = T (keyed C t Encrypt key iv aad data) (length tag) \<and> length tag' = length tag) \<and>
         (fst (decrypt_aead C t key iv aad ct2 tag2 q2) = Ok pt \<longrightarrow>
            pt = E (keyed C t Decrypt key iv aad ct2) \<and>
            tag2 = T (keyed C t Decrypt key iv aad ct2) (length tag2))"
proof (rule conjI; rule impI)
  assume "fst (encrypt_aead C t key iv aad data tag q) = Ok (ct, tag')"
  then obtain cr q1 u cr1 q2 count o1 cr2 q3 rest o2 cr3 q4 cr4 q5 where
    s: "crypter_new C t Encrypt key iv q = (Ok cr, q1)" "aad_update C aad cr q1 = (Ok u, cr1, q2)"
      "crypter_update C data (cipher_buffer C t data) cr1 q2 = (Ok (count, o1), cr2, q3)" and
    f: "finalize_rest C count o1 cr2 q3 = (Ok (rest, o2), cr3, q4)" "ct = take (count + rest) o2" and
    g: "get_tag C tag cr3 q4 = (Ok tag', cr4, q5)"
    by (auto simp: encrypt_aead_def with_crypter_eq_ok ebind_eq_ok ethen_eq_ok)
  note r = aead_start [OF assms(1-3) s]
  from one_shot_finalize [OF assms(2) r [THEN conjunct1] r [THEN conjunct2, THEN conjunct2]
      r [THEN conjunct2, THEN conjunct1] f(1)] f(2)
  have e: "ct = E (keyed C t Encrypt key iv aad data)" "one_shot_ready C V (keyed C t Encrypt key iv aad data) cr3"
    by simp_all
  have "core (V (cr_ctx cr3)) = keyed C t Encrypt key iv aad data" using e(2) by (simp add: one_shot_ready_def)
  with get_tag_ok [OF assms(3) g] e(1) show "ct = E (keyed C t Encrypt key iv aad data) \<and>
            tag' = T (keyed C t Encrypt key iv aad data) (length tag) \<and> length tag' = length tag"
    by metis
next
  assume "fst (decrypt_aead C t key iv aad ct2 tag2 q2) = Ok pt"
  then obtain cr q1 u cr1 qb count o1 cr2 q3 w cr3 q4 rest o2 cr4 q5 where
    s: "crypter_new C t Decrypt key iv q2 = (Ok cr, q1)" "aad_update C aad cr q1 = (Ok u, cr1, qb)"
      "crypter_update C ct2 (cipher_buffer C t ct2) cr1 qb = (Ok (count, o1), cr2, q3)" and
    g: "set_tag C tag2 cr2 q3 = (Ok w, cr3, q4)" and
    f: "finalize_rest C count o1 cr3 q4 = (Ok (rest, o2), cr4, q5)" "pt = take (count + rest) o2"
    by (auto simp: decrypt_aead_def with_crypter_eq_ok ebind_eq_ok ethen_eq_ok)
  note r = aead_start [OF assms(1-3) s]
  from set_tag_ok [OF assms(3) g] r [THEN conjunct1] have r3: "V (cr_ctx cr3) = V (cr_ctx cr2)\<lparr>cv_tag := Some tag2\<rparr>"
    "one_shot_ready C V (keyed C t Decrypt key iv aad ct2) cr3" "take count o1 = cv_out (V (cr_ctx cr3))"
    using r [THEN conjunct2, THEN conjunct2] by (simp_all add: one_shot_ready_def core_def)
  from one_shot_finalize [OF assms(2) r3(2,3) r [THEN conjunct2, THEN conjunct1] f(1)] f(2)
  have "pt = E (keyed C t Decrypt key iv aad ct2)" by simp
  moreover from r3(2) have k: "core (V (cr_ctx cr3)) = keyed C t Decrypt key iv aad ct2"
    by (simp add: one_shot_ready_def)
  moreover from arg_cong [OF k, of cv_alg] arg_cong [OF k, of cv_mode]
  have "cv_alg (V (cr_ctx cr3)) = t" "cv_mode (V (cr_ctx cr3)) = mode_int Decrypt" by (simp_all add: core_def)
  with finalize_checks_tag [OF assms(3) f(1)] assms(4) k r3(1)
  have "tag2 = T (keyed C t Decrypt key iv aad ct2) (length tag2)" by simp
  ultimately show "pt = E (keyed C t Decrypt key iv aad ct2) \<and>
            tag2 = T (keyed C t Decrypt key iv aad ct2) (length tag2)" by simp
qed

section \<open>A sample cipher\<close>

text \<open>
  A cipher that adds 1 or subtracts it, with the byte 7 as its tag, to show that the contract can be kept:
  key of 2 bytes, iv of 1, authenticated.
\<close>

definition sample_tag :: "nat cipher_view \<Rightarrow> nat \<Rightarrow> byte list" where
  "sample_tag v n = replicate n 7"

definition sample_out :: "int \<Rightarrow> byte list \<Rightarrow> byte list" where
  "sample_out m d = map (\<lambda>b. if m = 1 then b + 1 else b - 1) d"

definition sample_cipher :: "(nat cipher_view, nat) cipher_api" where
  "sample_cipher =
     \<lparr>EVP_CIPHER_key_length = (\<lambda>_. 2), EVP_CIPHER_iv_length = (\<lambda>_. 1), EVP_CIPHER_block_size = (\<lambda>_. 1),
      EVP_CIPHER_CTX_new = Some \<lparr>cv_alg = 0, cv_mode = 0, cv_klen = 0, cv_ivlen = 0, cv_key = [], cv_iv = None,
        cv_aad = [], cv_fed = [], cv_out = [], cv_tag = None\<rparr>,
      EVP_CipherInit_ex = (\<lambda>t key iv m c q.
        case (t, key) of
          (Some t, None) \<Rightarrow> ((1, ()), c\<lparr>cv_alg := t, cv_mode := m, cv_klen := 2, cv_ivlen := 1\<rparr>, q)
        | (None, Some k) \<Rightarrow> ((1, ()), c\<lparr>cv_mode := m, cv_key := k, cv_iv := iv, cv_aad := [], cv_fed := [],
            cv_out := [], cv_tag := None\<rparr>, q)
        | _ \<Rightarrow> ((0, ()), c, q)),
      EVP_CIPHER_CTX_set_key_length = (\<lambda>n c q. if n = 2 then ((1, ()), c\<lparr>cv_klen := n\<rparr>, q) else ((0, ()), c, q)),
      EVP_CIPHER_CTX_set_padding = (\<lambda>_ c. c),
      EVP_CTRL_GCM_SET_IVLEN = (\<lambda>n c q. ((1, ()), c\<lparr>cv_ivlen := n\<rparr>, q)),
      EVP_CTRL_GCM_SET_TAG = (\<lambda>n tag c q. ((1, ()), c\<lparr>cv_tag := tag\<rparr>, q)),
      EVP_CTRL_GCM_GET_TAG = (\<lambda>n c q. ((1, replicate n 7), c, q)),
      EVP_CipherUpdate = (\<lambda>d c q. let bs = sample_out (cv_mode c) d in
        if cv_out c = sample_out (cv_mode c) (cv_fed c)
        then ((1, int (length bs), bs), c\<lparr>cv_fed := cv_fed c @ d, cv_out := cv_out c @ bs\<rparr>, q)
        else ((0, 0, []), c, q)),
      EVP_CipherUpdate_aad = (\<lambda>a c q. ((1, ()), c\<lparr>cv_aad := cv_aad c @ a\<rparr>, q)),
      EVP_CipherUpdate_len = (\<lambda>n c q. ((1, ()), c, q)),
      EVP_CipherFinal_ex = (\<lambda>c q.
        if cv_out c = sample_out (cv_mode c) (cv_fed c) \<and>
           (cv_mode c = 0 \<longrightarrow> (case cv_tag c of Some tag \<Rightarrow> tag = replicate (length tag) 7 | None \<Rightarrow> False))
        then ((1, 0, []), c, q) else ((0, 0, []), c, q)),
      EVP_EncryptInit_ex = (\<lambda>t k iv c q. ((1, ()), c, q)), EVP_DecryptInit_ex = (\<lambda>t k iv c q. ((1, ()), c, q)),
      set_key_length_max = 2 ^ 32 - 1, cipher_err_lib_none = 1\<rparr>"

lemma sample_cipher_ok:
  "init_spec sample_cipher (\<lambda>c. c)" "data_spec sample_cipher (\<lambda>c. c) (\<lambda>v. sample_out (cv_mode v) (cv_fed v))"
  "tag_spec sample_cipher (\<lambda>c. c) sample_tag (\<lambda>_. True)"
  unfolding init_spec_def data_spec_def tag_spec_def
  by (auto simp: sample_cipher_def sample_out_def sample_tag_def core_def mode_int_def spare_block_def Let_def
      split: option.splits if_splits)

lemmas symm_eval = encrypt_def cipher_def encrypt_aead_def decrypt_aead_def with_crypter_def crypter_new_def
  crypter_setup_def choose_iv_def iv_len_def crypter_update_def finalize_rest_def crypter_finalize_def get_tag_def
  set_tag_def aad_update_def cipher_buffer_def mode_int_def etry_int_def eassert_def erun_def ebind_def ethen_def
  ecvt_def on_cipher_def cvt_def cvt_p_def fail_stack_def c_int_max_def overwrite_def splice_def Let_def sample_cipher_def
  sample_out_def

theorem cipher_returns_whole_output_witness:
  "fst (cipher sample_cipher 3 Encrypt [1, 2] (Some [5]) [8, 9] []) = Ok [9, 10] \<and>
   [9 :: byte, 10] = sample_out 1 [8, 9] \<and>
   fst (cipher sample_cipher 3 Encrypt [1, 2] None [8, 9] []) = Panicked ''an IV is required for this cipher''"
proof -
  have 1: "fst (cipher sample_cipher 3 Encrypt [1, 2] (Some [5]) [8, 9] []) = Ok [9, 10]"
    by (simp add: symm_eval)
  have 2: "fst (cipher sample_cipher 3 Encrypt [1, 2] None [8, 9] []) = Panicked ''an IV is required for this cipher''"
    by (simp add: symm_eval)
  from cipher_returns_whole_output [OF sample_cipher_ok(1,2), of 3 Encrypt "[1, 2]" "Some [5]" "[8, 9]" "[]" "[9, 10]"]
  have "[9 :: byte, 10] = sample_out 1 [8, 9]" using 1 by (simp add: mode_int_def)
  with 1 2 show ?thesis by blast
qed

theorem aead_authenticates_witness:
  "fst (encrypt_aead sample_cipher 3 [1, 2] (Some [5]) [6] [8, 9] [0, 0] []) = Ok ([9, 10], [7, 7]) \<and>
   fst (decrypt_aead sample_cipher 3 [1, 2] (Some [5]) [6] [9, 10] [7, 7] []) = Ok [8, 9] \<and>
   (\<exists>es. fst (decrypt_aead sample_cipher 3 [1, 2] (Some [5]) [6] [9, 10] [7, 6] []) = Err es)"
proof -
  have 1: "fst (encrypt_aead sample_cipher 3 [1, 2] (Some [5]) [6] [8, 9] [0, 0] []) = Ok ([9, 10], [7, 7])"
    by (simp add: symm_eval)
  have 2: "fst (decrypt_aead sample_cipher 3 [1, 2] (Some [5]) [6] [9, 10] [7, 7] []) = Ok [8, 9]"
    by (simp add: symm_eval)
  have 3: "\<exists>es. fst (decrypt_aead sample_cipher 3 [1, 2] (Some [5]) [6] [9, 10] [7, 6] []) = Err es"
    by (simp add: symm_eval)
  from aead_authenticates [OF sample_cipher_ok TrueI, of 3 "[1, 2]" "Some [5]" "[6]" "[8, 9]" "[0, 0]" "[]" "[9, 10]" "[7, 7]"
      "[9, 10]" "[7, 7]" "[]" "[8, 9]"] 1 2 3
  show ?thesis by blast
qed

end
