(* ===== verification/Aead.thy ===== *)
theory Aead
  imports Effects
begin

text \<open>
  \<open>btls/src/aead.rs\<close>: \<open>AeadCtx\<close>, which seals and opens in place, and \<open>StatelessAeadCtx\<close>, which shares a
  context between threads and so accepts only algorithms that keep no state. The \<open>EVP_AEAD*\<close> functions
  of BoringSSL are the record \<open>aead_api\<close>.
\<close>

section \<open>State and operations\<close>

text \<open>\<open>'t\<close> is \<open>*const EVP_AEAD\<close> and \<open>'c\<close> the context.\<close>

record ('c, 't) aead_api =
  EVP_aead_aes_128_gcm :: 't
  EVP_aead_aes_256_gcm :: 't
  EVP_aead_chacha20_poly1305 :: 't
  EVP_aead_xchacha20_poly1305 :: 't
  EVP_AEAD_key_length :: "'t \<Rightarrow> nat"
  EVP_AEAD_DEFAULT_TAG_LENGTH :: nat
  EVP_AEAD_CTX_new :: "'t \<Rightarrow> byte list \<Rightarrow> nat \<Rightarrow> err_queue \<Rightarrow> 'c option \<times> err_queue"
  EVP_AEAD_CTX_tag_len :: "nat \<Rightarrow> nat \<Rightarrow> 'c \<Rightarrow> err_queue \<Rightarrow> (int \<times> nat) \<times> 'c \<times> err_queue"
  EVP_AEAD_CTX_seal_scatter ::
    "byte list \<Rightarrow> byte list option \<Rightarrow> byte list \<Rightarrow> nat \<Rightarrow> byte list \<Rightarrow> 'c \<Rightarrow> err_queue
     \<Rightarrow> (int \<times> byte list \<times> nat \<times> byte list) \<times> 'c \<times> err_queue"
  EVP_AEAD_CTX_open_gather ::
    "byte list \<Rightarrow> byte list \<Rightarrow> byte list \<Rightarrow> byte list \<Rightarrow> 'c \<Rightarrow> err_queue
     \<Rightarrow> (int \<times> byte list) \<times> 'c \<times> err_queue"
  aead_err_lib_none :: "32 word"

text \<open>
  The arguments of \<open>seal_scatter\<close> are the nonce, the extra input, the associated data, the room for the
  tag and the buffer; it reports what it left in the buffer, the length of the tag and the tag bytes it
  wrote. Those of \<open>open_gather\<close> are the nonce, the tag, the associated data and the buffer.

  A call borrows the context, the buffer and, when it seals, the tag buffer.
\<close>

record 'c aead_io =
  io_ctx :: 'c
  io_buffer :: "byte list"
  io_tag :: "byte list"

definition aead_ctx_new ::
    "('c, 't) aead_api \<Rightarrow> 't \<Rightarrow> byte list \<Rightarrow> nat \<Rightarrow> err_queue \<Rightarrow> (error_stack + 'c) \<times> err_queue" where
  "aead_ctx_new A t key tag_len q =
     (if length key \<noteq> EVP_AEAD_key_length A t
      then (Inl (internal_error_str (aead_err_lib_none A) ''invalid key size''), q)
      else case EVP_AEAD_CTX_new A t key tag_len q of (p, q') \<Rightarrow> cvt_p p q')"

definition aead_ctx_new_default_tag ::
    "('c, 't) aead_api \<Rightarrow> 't \<Rightarrow> byte list \<Rightarrow> err_queue \<Rightarrow> (error_stack + 'c) \<times> err_queue" where
  "aead_ctx_new_default_tag A t key = aead_ctx_new A t key (EVP_AEAD_DEFAULT_TAG_LENGTH A)"

definition aead_tag_len :: "('c, 't) aead_api \<Rightarrow> nat \<Rightarrow> nat \<Rightarrow> ('c, nat) eff" where
  "aead_tag_len A in_len extra_in_len = ecvt (EVP_AEAD_CTX_tag_len A in_len extra_in_len)"

text \<open>
  \<open>raw_seal_scatter\<close> returns the front of the tag buffer that was written.
\<close>

definition raw_seal_scatter ::
    "('c, 't) aead_api \<Rightarrow> byte list \<Rightarrow> byte list option \<Rightarrow> byte list \<Rightarrow> ('c aead_io, byte list) eff" where
  "raw_seal_scatter A nonce extra_in ad =
     ebind (ecvt (\<lambda>s q.
         case EVP_AEAD_CTX_seal_scatter A nonce extra_in ad (length (io_tag s)) (io_buffer s) (io_ctx s) q of
           ((r, buf, n, bs), c, q') \<Rightarrow>
             ((r, n), \<lparr>io_ctx = c, io_buffer = buf, io_tag = overwrite bs (io_tag s)\<rparr>, q')))
       (\<lambda>out_tag_len. ebind (eget io_tag) (\<lambda>tag.
          ethen (eassert (out_tag_len \<le> length tag) ''range end index out of range for slice'')
            (eret (take out_tag_len tag))))"

definition raw_open_gather ::
    "('c, 't) aead_api \<Rightarrow> byte list \<Rightarrow> byte list \<Rightarrow> byte list \<Rightarrow> ('c aead_io, unit) eff" where
  "raw_open_gather A nonce in_tag ad =
     ecvt (\<lambda>s q.
       case EVP_AEAD_CTX_open_gather A nonce in_tag ad (io_buffer s) (io_ctx s) q of
         ((r, buf), c, q') \<Rightarrow> ((r, ()), s\<lparr>io_ctx := c, io_buffer := buf\<rparr>, q'))"

definition seal_scatter_mut ::
    "('c, 't) aead_api \<Rightarrow> byte list \<Rightarrow> byte list option \<Rightarrow> byte list \<Rightarrow> ('c aead_io, byte list) eff" where
  "seal_scatter_mut A nonce extra_in ad = raw_seal_scatter A nonce extra_in ad"

definition open_gather_mut ::
    "('c, 't) aead_api \<Rightarrow> byte list \<Rightarrow> byte list \<Rightarrow> byte list \<Rightarrow> ('c aead_io, unit) eff" where
  "open_gather_mut A nonce in_tag ad = raw_open_gather A nonce in_tag ad"

definition seal_in_place_mut ::
    "('c, 't) aead_api \<Rightarrow> byte list \<Rightarrow> byte list \<Rightarrow> ('c aead_io, byte list) eff" where
  "seal_in_place_mut A nonce ad = seal_scatter_mut A nonce None ad"

definition open_in_place_mut ::
    "('c, 't) aead_api \<Rightarrow> byte list \<Rightarrow> byte list \<Rightarrow> byte list \<Rightarrow> ('c aead_io, unit) eff" where
  "open_in_place_mut A nonce tag ad = open_gather_mut A nonce tag ad"

text \<open>\<open>StatelessAeadCtx\<close>.\<close>

definition stateless :: "('c, 't) aead_api \<Rightarrow> 't list" where
  "stateless A =
     [EVP_aead_aes_128_gcm A, EVP_aead_aes_256_gcm A, EVP_aead_chacha20_poly1305 A, EVP_aead_xchacha20_poly1305 A]"

definition stateless_aead_ctx_new ::
    "('c, 't) aead_api \<Rightarrow> 't \<Rightarrow> byte list \<Rightarrow> nat \<Rightarrow> err_queue \<Rightarrow> (error_stack + 'c) \<times> err_queue" where
  "stateless_aead_ctx_new A t key tag_len q =
     (if t \<notin> set (stateless A)
      then (Inl (internal_error_str (aead_err_lib_none A) ''AEAD keeps state between operations''), q)
      else aead_ctx_new A t key tag_len q)"

definition stateless_aead_ctx_new_default_tag ::
    "('c, 't) aead_api \<Rightarrow> 't \<Rightarrow> byte list \<Rightarrow> err_queue \<Rightarrow> (error_stack + 'c) \<times> err_queue" where
  "stateless_aead_ctx_new_default_tag A t key = stateless_aead_ctx_new A t key (EVP_AEAD_DEFAULT_TAG_LENGTH A)"

definition stateless_seal_in_place ::
    "('c, 't) aead_api \<Rightarrow> byte list \<Rightarrow> byte list \<Rightarrow> ('c aead_io, byte list) eff" where
  "stateless_seal_in_place A nonce ad = raw_seal_scatter A nonce None ad"

definition stateless_open_in_place ::
    "('c, 't) aead_api \<Rightarrow> byte list \<Rightarrow> byte list \<Rightarrow> byte list \<Rightarrow> ('c aead_io, unit) eff" where
  "stateless_open_in_place A nonce tag ad = raw_open_gather A nonce tag ad"

text \<open>
  Calls on one shared context, each with its own buffers, in the order the threads make them: sealing
  with a nonce and associated data, or opening with a tag.
\<close>

datatype aead_call =
  Seal (call_nonce: "byte list") (call_ad: "byte list") (call_buffer: "byte list") (call_tag: "byte list")
| Open (call_nonce: "byte list") (call_ad: "byte list") (call_buffer: "byte list") (call_tag: "byte list")

text \<open>The result of a call: the tag that sealing returns, and the buffer left behind.\<close>

type_synonym aead_answer = "byte list option eresult \<times> byte list"

definition stateless_call ::
    "('c, 't) aead_api \<Rightarrow> aead_call \<Rightarrow> 'c \<Rightarrow> err_queue \<Rightarrow> aead_answer \<times> 'c \<times> err_queue" where
  "stateless_call A k c q =
     (let s = \<lparr>io_ctx = c, io_buffer = call_buffer k, io_tag = call_tag k\<rparr> in
      case (case k of
              Seal n ad _ _ \<Rightarrow> ebind (stateless_seal_in_place A n ad) (\<lambda>t. eret (Some t))
            | Open n ad _ tag \<Rightarrow> ethen (stateless_open_in_place A n tag ad) (eret None)) s q of
        (r, s', q') \<Rightarrow> ((r, io_buffer s'), io_ctx s', q'))"

fun stateless_calls ::
    "('c, 't) aead_api \<Rightarrow> aead_call list \<Rightarrow> 'c \<Rightarrow> err_queue \<Rightarrow> aead_answer list \<times> 'c \<times> err_queue" where
  "stateless_calls A [] c q = ([], c, q)"
| "stateless_calls A (k # ks) c q =
     (case stateless_call A k c q of
        (a, c', q') \<Rightarrow> (case stateless_calls A ks c' q' of (as, c'', q'') \<Rightarrow> (a # as, c'', q'')))"

section \<open>Specification\<close>

text \<open>
  The documented behaviour of successful calls. \<open>key_of\<close> is the algorithm, key and tag length of a
  context; \<open>S\<close> seals: it gives the ciphertext, as long as the plaintext, and the tag, which starts with
  the extra ciphertext. Opening succeeds only for what sealing gives.
\<close>

definition aead_spec ::
    "('c, 't) aead_api \<Rightarrow> ('c \<Rightarrow> 't \<times> byte list \<times> nat)
     \<Rightarrow> ('t \<times> byte list \<times> nat \<Rightarrow> byte list \<Rightarrow> byte list option \<Rightarrow> byte list \<Rightarrow> byte list \<Rightarrow> byte list \<times> byte list)
     \<Rightarrow> bool" where
  "aead_spec A key_of S \<longleftrightarrow>
     (\<forall>t key n q c q'. EVP_AEAD_CTX_new A t key n q = (Some c, q') \<longrightarrow> key_of c = (t, key, n)) \<and>
     (\<forall>nonce x ad room p c q r buf n bs c' q'.
        EVP_AEAD_CTX_seal_scatter A nonce x ad room p c q = ((r, buf, n, bs), c', q') \<longrightarrow>
        key_of c' = key_of c \<and>
        (0 < r \<longrightarrow> n = length bs \<and> n \<le> room \<and> (buf, bs) = S (key_of c) nonce x ad p \<and> length buf = length p)) \<and>
     (\<forall>nonce tag ad ct c q r buf c' q'.
        EVP_AEAD_CTX_open_gather A nonce tag ad ct c q = ((r, buf), c', q') \<longrightarrow>
        key_of c' = key_of c \<and>
        (0 < r \<longrightarrow> (ct, tag) = S (key_of c) nonce None ad buf))"

text \<open>
  A context of a stateless algorithm is never changed, and what a call does depends on nothing else,
  in particular not on the error queue.
\<close>

definition stateless_spec :: "('c, 't) aead_api \<Rightarrow> ('c \<Rightarrow> 't \<times> byte list \<times> nat) \<Rightarrow> bool" where
  "stateless_spec A key_of \<longleftrightarrow>
     (\<forall>c. fst (key_of c) \<in> set (stateless A) \<longrightarrow>
        (\<forall>nonce x ad room p q q2.
           fst (EVP_AEAD_CTX_seal_scatter A nonce x ad room p c q) = fst (EVP_AEAD_CTX_seal_scatter A nonce x ad room p c q2) \<and>
           fst (snd (EVP_AEAD_CTX_seal_scatter A nonce x ad room p c q)) = c) \<and>
        (\<forall>nonce tag ad ct q q2.
           fst (EVP_AEAD_CTX_open_gather A nonce tag ad ct c q) = fst (EVP_AEAD_CTX_open_gather A nonce tag ad ct c q2) \<and>
           fst (snd (EVP_AEAD_CTX_open_gather A nonce tag ad ct c q)) = c))"

lemma raw_seal_ok:
  assumes "aead_spec A key_of S" and "raw_seal_scatter A nonce x ad s q = (Ok tag, s', q')"
  shows "(io_buffer s', tag) = S (key_of (io_ctx s)) nonce x ad (io_buffer s) \<and> length tag \<le> length (io_tag s) \<and>
         length (io_buffer s') = length (io_buffer s) \<and> key_of (io_ctx s') = key_of (io_ctx s) \<and>
         length (io_tag s') = length (io_tag s)"
proof -
  from assms(2) obtain r buf n bs c where
    1: "0 < r" "EVP_AEAD_CTX_seal_scatter A nonce x ad (length (io_tag s)) (io_buffer s) (io_ctx s) q =
      ((r, buf, n, bs), c, q')" and
    2: "s' = \<lparr>io_ctx = c, io_buffer = buf, io_tag = overwrite bs (io_tag s)\<rparr>" "tag = take n (overwrite bs (io_tag s))"
    by (auto simp: raw_seal_scatter_def ebind_eq_ok ethen_eq_ok eassert_eq_ok ecvt_eq_ok split: prod.splits)
  note seal = assms(1) [unfolded aead_spec_def, THEN conjunct2, THEN conjunct1, rule_format]
  from seal [OF 1(2)] 1(1) have "n = length bs" "n \<le> length (io_tag s)"
    "(buf, bs) = S (key_of (io_ctx s)) nonce x ad (io_buffer s)" "length buf = length (io_buffer s)"
    "key_of c = key_of (io_ctx s)" by blast+
  then show ?thesis by (simp add: 2 overwrite_def)
qed

lemma raw_open_ok:
  assumes "aead_spec A key_of S" and "raw_open_gather A nonce tag ad s q = (Ok u, s', q')"
  shows "(io_buffer s, tag) = S (key_of (io_ctx s)) nonce None ad (io_buffer s') \<and> key_of (io_ctx s') = key_of (io_ctx s)"
proof -
  from assms(2) obtain r buf c where
    1: "0 < r" "EVP_AEAD_CTX_open_gather A nonce tag ad (io_buffer s) (io_ctx s) q = ((r, buf), c, q')" and
    2: "s' = s\<lparr>io_ctx := c, io_buffer := buf\<rparr>"
    by (auto simp: raw_open_gather_def ecvt_eq_ok split: prod.splits)
  note open_ok = assms(1) [unfolded aead_spec_def, THEN conjunct2, THEN conjunct2, rule_format]
  from open_ok [OF 1(2)] 1(1) show ?thesis by (simp add: 2)
qed

section \<open>Properties\<close>

text \<open>
  Sealing in place returns the tag, the front of the tag buffer, and leaves the ciphertext in the
  buffer, whose length it keeps. Opening what was sealed, in any context with the same key, gives the
  plaintext back, and opening anything else fails.
\<close>

lemma seal_open_round_trip:
  assumes "aead_spec A key_of S" and "\<And>k n x a p p'. S k n x a p = S k n x a p' \<Longrightarrow> p = p'"
    and "seal_in_place_mut A nonce ad s q = (Ok tag, s1, q1)"
    and "key_of (io_ctx s2) = key_of (io_ctx s)" and "io_buffer s2 = io_buffer s1"
    and "open_in_place_mut A nonce tag ad s2 q2 = (Ok (), s3, q3)"
  shows "io_buffer s3 = io_buffer s \<and> length (io_buffer s1) = length (io_buffer s) \<and>
         length tag \<le> length (io_tag s)"
proof -
  from raw_seal_ok [OF assms(1)] assms(3)
  have 1: "(io_buffer s1, tag) = S (key_of (io_ctx s)) nonce None ad (io_buffer s)"
    "length tag \<le> length (io_tag s)" "length (io_buffer s1) = length (io_buffer s)"
    unfolding seal_in_place_mut_def seal_scatter_mut_def by blast+
  from raw_open_ok [OF assms(1)] assms(6)
  have "(io_buffer s2, tag) = S (key_of (io_ctx s2)) nonce None ad (io_buffer s3)"
    unfolding open_in_place_mut_def open_gather_mut_def by blast
  with 1(1) assms(4,5) have "S (key_of (io_ctx s)) nonce None ad (io_buffer s) =
    S (key_of (io_ctx s)) nonce None ad (io_buffer s3)" by simp
  from assms(2) [OF this] 1(2,3) show ?thesis by simp
qed

text \<open>An answer without the errors that were queued.\<close>

definition unqueued :: "aead_answer \<Rightarrow> byte list option eresult \<times> byte list" where
  "unqueued a = (case fst a of Err es \<Rightarrow> Err [] | r \<Rightarrow> r, snd a)"

lemma stateless_specD:
  assumes "stateless_spec A key_of" and "fst (key_of c) \<in> set (stateless A)"
  shows "fst (EVP_AEAD_CTX_seal_scatter A nonce x ad room p c q) =
           fst (EVP_AEAD_CTX_seal_scatter A nonce x ad room p c q2) \<and>
         fst (snd (EVP_AEAD_CTX_seal_scatter A nonce x ad room p c q)) = c"
    and "fst (EVP_AEAD_CTX_open_gather A nonce tag ad ct c q) =
           fst (EVP_AEAD_CTX_open_gather A nonce tag ad ct c q2) \<and>
         fst (snd (EVP_AEAD_CTX_open_gather A nonce tag ad ct c q)) = c"
  using assms unfolding stateless_spec_def by blast+

lemma stateless_call_pure:
  assumes "stateless_spec A key_of" and "fst (key_of c) \<in> set (stateless A)"
  shows "\<exists>a q'. stateless_call A k c q = (a, c, q') \<and> unqueued a = unqueued (fst (stateless_call A k c q2))"
proof (cases k)
  case (Seal n ad buf tag)
  obtain r qa qb where
    "EVP_AEAD_CTX_seal_scatter A n None ad (length tag) buf c q = (r, c, qa)"
    "EVP_AEAD_CTX_seal_scatter A n None ad (length tag) buf c q2 = (r, c, qb)"
    using stateless_specD(1) [OF assms] by (metis prod.collapse)
  then show ?thesis
    by (auto simp: Seal stateless_call_def stateless_seal_in_place_def raw_seal_scatter_def ebind_def ethen_def
        ecvt_def cvt_def fail_stack_def eassert_def unqueued_def Let_def split: prod.splits if_splits)
next
  case (Open n ad buf tag)
  obtain r qa qb where
    "EVP_AEAD_CTX_open_gather A n tag ad buf c q = (r, c, qa)"
    "EVP_AEAD_CTX_open_gather A n tag ad buf c q2 = (r, c, qb)"
    using stateless_specD(2) [OF assms] by (metis prod.collapse)
  then show ?thesis
    by (auto simp: Open stateless_call_def stateless_open_in_place_def raw_open_gather_def ebind_def ethen_def
        ecvt_def cvt_def fail_stack_def unqueued_def Let_def split: prod.splits if_splits)
qed

lemma stateless_calls_pure:
  assumes "stateless_spec A key_of" and "fst (key_of c) \<in> set (stateless A)"
  shows "\<exists>as q'. stateless_calls A ks c q = (as, c, q') \<and>
           map unqueued as = map (\<lambda>k. unqueued (fst (stateless_call A k c []))) ks"
proof (induction ks arbitrary: q)
  case (Cons k ks)
  from stateless_call_pure [OF assms] obtain a q1 where
    1: "stateless_call A k c q = (a, c, q1)" "unqueued a = unqueued (fst (stateless_call A k c []))" by blast
  from Cons obtain as q2 where "stateless_calls A ks c q1 = (as, c, q2)"
    "map unqueued as = map (\<lambda>k. unqueued (fst (stateless_call A k c []))) ks" by blast
  with 1 show ?case by simp
qed simp

lemma stateless_new_ok:
  assumes "aead_spec A key_of S" and "stateless_aead_ctx_new A t key n q = (Inr c, q')"
  shows "fst (key_of c) \<in> set (stateless A) \<and> key_of c = (t, key, n) \<and> length key = EVP_AEAD_key_length A t"
proof -
  from assms(2) have m: "t \<in> set (stateless A)" "length key = EVP_AEAD_key_length A t"
    by (auto simp: stateless_aead_ctx_new_def aead_ctx_new_def split: if_splits)
  moreover from assms(2) m obtain q1 where "EVP_AEAD_CTX_new A t key n q = (Some c, q1)"
    by (auto simp: stateless_aead_ctx_new_def aead_ctx_new_def cvt_p_def fail_stack_def
        split: prod.splits option.splits if_splits)
  from assms(1) [unfolded aead_spec_def, THEN conjunct1, rule_format, OF this] have "key_of c = (t, key, n)" .
  ultimately show ?thesis by simp
qed

text \<open>
  A context of \<open>StatelessAeadCtx\<close> can be shared: whatever calls are made on it, in whatever order, it
  stays as it was created, and each call returns what it would return alone.
\<close>

lemma stateless_calls_independent:
  assumes "aead_spec A key_of S" and "stateless_spec A key_of"
    and "stateless_aead_ctx_new A t key n q = (Inr c, q1)"
    and "stateless_calls A ks c q2 = (as, c', q3)"
  shows "c' = c \<and> map unqueued as = map (\<lambda>k. unqueued (fst (stateless_call A k c []))) ks"
  using stateless_calls_pure [OF assms(2), of c ks q2] stateless_new_ok [OF assms(1,3)] assms(4) by auto

section \<open>A sample AEAD\<close>

text \<open>It leaves the plaintext as it is; the tag is the associated data and the nonce.\<close>

definition sample_seal ::
    "nat \<times> byte list \<times> nat \<Rightarrow> byte list \<Rightarrow> byte list option \<Rightarrow> byte list \<Rightarrow> byte list \<Rightarrow> byte list \<times> byte list" where
  "sample_seal k nonce x ad p = (p, (case x of Some e \<Rightarrow> e | None \<Rightarrow> []) @ ad @ nonce)"

definition sample_aead :: "(nat \<times> byte list \<times> nat, nat) aead_api" where
  "sample_aead =
     \<lparr>EVP_aead_aes_128_gcm = 1, EVP_aead_aes_256_gcm = 2, EVP_aead_chacha20_poly1305 = 3,
      EVP_aead_xchacha20_poly1305 = 4, EVP_AEAD_key_length = (\<lambda>_. 2), EVP_AEAD_DEFAULT_TAG_LENGTH = 0,
      EVP_AEAD_CTX_new = (\<lambda>t key n q. (Some (t, key, n), q)),
      EVP_AEAD_CTX_tag_len = (\<lambda>n x c q. ((1, x), c, q)),
      EVP_AEAD_CTX_seal_scatter = (\<lambda>nonce x ad room p c q.
        let t = snd (sample_seal c nonce x ad p) in
        if length t \<le> room then ((1, p, length t, t), c, q) else ((0, p, 0, []), c, q)),
      EVP_AEAD_CTX_open_gather = (\<lambda>nonce tag ad ct c q.
        if tag = ad @ nonce then ((1, ct), c, q) else ((0, ct), c, q)),
      aead_err_lib_none = 1\<rparr>"

lemma sample_aead_ok: "aead_spec sample_aead (\<lambda>c. c) sample_seal" "stateless_spec sample_aead (\<lambda>c. c)"
  unfolding aead_spec_def stateless_spec_def
  by (auto simp: sample_aead_def sample_seal_def Let_def split: if_splits option.splits)

lemma sample_seal_inj: "sample_seal k n x a p = sample_seal k n x a p' \<Longrightarrow> p = p'"
  by (simp add: sample_seal_def)

lemmas aead_eval = seal_in_place_mut_def seal_scatter_mut_def open_in_place_mut_def open_gather_mut_def
  raw_seal_scatter_def raw_open_gather_def stateless_seal_in_place_def stateless_open_in_place_def
  stateless_call_def stateless_aead_ctx_new_def aead_ctx_new_def stateless_def ebind_def ethen_def
  ecvt_def cvt_def cvt_p_def fail_stack_def eassert_def overwrite_def unqueued_def Let_def sample_aead_def
  sample_seal_def

end
