(* ===== verification/Client_Session.thy ===== *)
theory Client_Session
  imports Effects
begin

text \<open>
  Client sessions of \<open>btls/src/ssl/connector.rs\<close>: \<open>ConnectConfiguration::into_ssl\<close>, which prepares a
  connection and offers it a session, \<open>raw_client_session\<close> of \<open>btls/src/ssl/callbacks.rs\<close>, which reports
  the sessions that a connection is issued, and the verify parameters of \<open>btls/src/x509/verify.rs\<close> that a
  connection needs. The functions of BoringSSL, and \<open>str::parse::<IpAddr>\<close>, are the record \<open>conn_api\<close>.
\<close>

unbundle bit_operations_syntax

section \<open>State\<close>

text \<open>\<open>'s\<close> is \<open>SSL\<close>, \<open>'n\<close> \<open>SSL_SESSION\<close>, \<open>'x\<close> a certificate. A string is the list of its UTF-8 bytes.\<close>

record ('s, 'n, 'x) conn_api =
  parse_ip :: "string \<Rightarrow> ip_addr option"
  SSL_set_tlsext_host_name :: "string \<Rightarrow> 's \<Rightarrow> err_queue \<Rightarrow> (int \<times> unit) \<times> 's \<times> err_queue"
  X509_CHECK_FLAG_NO_PARTIAL_WILDCARDS :: nat
  X509_VERIFY_PARAM_set_hostflags :: "nat \<Rightarrow> 's \<Rightarrow> 's"
  X509_VERIFY_PARAM_set1_host :: "string \<Rightarrow> nat \<Rightarrow> 's \<Rightarrow> err_queue \<Rightarrow> (int \<times> unit) \<times> 's \<times> err_queue"
  X509_VERIFY_PARAM_set1_ip :: "byte list \<Rightarrow> nat \<Rightarrow> 's \<Rightarrow> err_queue \<Rightarrow> (int \<times> unit) \<times> 's \<times> err_queue"
  SSL_set_session :: "'n \<Rightarrow> 's \<Rightarrow> err_queue \<Rightarrow> (int \<times> unit) \<times> 's \<times> err_queue"
  SSL_get0_session_id_context :: "'s \<Rightarrow> byte list option"
  SSL_SESSION_get0_id_context :: "'n \<Rightarrow> byte list option"
  SSL_get_verify_mode :: "'s \<Rightarrow> int"
  SSL_VERIFY_PEER :: int
  SSL_get_peer_full_cert_chain :: "'s \<Rightarrow> 'x list option"
  ASN1_TIME_to_posix :: "'x \<Rightarrow> int \<times> int"
  conn_err_lib_none :: "32 word"

text \<open>
  What a context holds at \<open>X509_FLAG_INDEX\<close> and at \<open>CLIENT_SESSION_INDEX\<close>, where the callback, a value of
  type \<open>'f\<close>, is with its issuer.
\<close>

record 'f ctx_data =
  cd_x509 :: bool
  cd_client_session :: "(64 word \<times> 'f) option"

record session_peer =
  sp_domain :: string
  sp_sni :: bool
  sp_verify_hostname :: bool

record 'n client_session =
  cs_session :: 'n
  cs_peer :: session_peer
  cs_verify_peer :: bool
  cs_not_after :: "int option"
  cs_issuer :: "64 word option"

text \<open>A connection: BoringSSL's, its context, and its extra data at \<open>SESSION_CTX_INDEX\<close> and \<open>SESSION_PEER_INDEX\<close>.\<close>

record ('s, 'f) ssl_conn =
  sl_raw :: 's
  sl_ctx :: "'f ctx_data"
  sl_session_ctx :: "'f ctx_data option"
  sl_peer :: "session_peer option"

record ('s, 'f, 'n) connect_configuration =
  cc_ssl :: "('s, 'f) ssl_conn"
  cc_sni :: bool
  cc_verify_hostname :: bool
  cc_session :: "'n client_session option"

section \<open>Operations\<close>

definition on_raw ::
    "('s \<Rightarrow> err_queue \<Rightarrow> (int \<times> 'a) \<times> 's \<times> err_queue)
     \<Rightarrow> ('s, 'f) ssl_conn \<Rightarrow> err_queue \<Rightarrow> (int \<times> 'a) \<times> ('s, 'f) ssl_conn \<times> err_queue" where
  "on_raw f sl q = (case f (sl_raw sl) q of (r, s, q') \<Rightarrow> (r, sl\<lparr>sl_raw := s\<rparr>, q'))"

text \<open>\<open>SslContextRef::check_x509\<close>, on the connection's context.\<close>

definition check_x509 :: "(('s, 'f) ssl_conn, unit) eff" where
  "check_x509 =
     ebind (eget (\<lambda>sl. cd_x509 (sl_ctx sl)))
       (\<lambda>b. eassert b ''This context is not configured for X.509 certificates'')"

definition set_hostname :: "('s, 'n, 'x) conn_api \<Rightarrow> string \<Rightarrow> (('s, 'f) ssl_conn, unit) eff" where
  "set_hostname K hostname =
     ebind (ecstring (conn_err_lib_none K) hostname) (\<lambda>c. ecvt (on_raw (SSL_set_tlsext_host_name K c)))"

text \<open>\<open>X509VerifyParamRef::set_hostflags\<close>, \<open>set_host\<close> and \<open>set_ip\<close>.\<close>

definition set_hostflags :: "('s, 'n, 'x) conn_api \<Rightarrow> nat \<Rightarrow> (('s, 'f) ssl_conn, unit) eff" where
  "set_hostflags K flags = eput (\<lambda>sl. sl\<lparr>sl_raw := X509_VERIFY_PARAM_set_hostflags K flags (sl_raw sl)\<rparr>)"

definition set_host :: "('s, 'n, 'x) conn_api \<Rightarrow> string \<Rightarrow> (('s, 'f) ssl_conn, unit) eff" where
  "set_host K host =
     (let raw_host = (if host = [] then [CHR 0x00] else host)
      in ecvt (on_raw (X509_VERIFY_PARAM_set1_host K raw_host (length host))))"

definition set_ip :: "('s, 'n, 'x) conn_api \<Rightarrow> ip_addr \<Rightarrow> (('s, 'f) ssl_conn, unit) eff" where
  "set_ip K ip =
     (let buf = replicate 16 0;
          (buf, len) = (case ip of V4 bs \<Rightarrow> (overwrite bs buf, 4) | V6 bs \<Rightarrow> (bs, 16))
      in ecvt (on_raw (X509_VERIFY_PARAM_set1_ip K buf len)))"

definition setup_verify_hostname :: "('s, 'n, 'x) conn_api \<Rightarrow> string \<Rightarrow> (('s, 'f) ssl_conn, unit) eff" where
  "setup_verify_hostname K domain =
     ethen check_x509
       (ethen (set_hostflags K (X509_CHECK_FLAG_NO_PARTIAL_WILDCARDS K))
         (case parse_ip K domain of Some ip \<Rightarrow> set_ip K ip | None \<Rightarrow> set_host K domain))"

definition verifies_peer :: "('s, 'n, 'x) conn_api \<Rightarrow> ('s, 'f) ssl_conn \<Rightarrow> bool" where
  "verifies_peer K sl =
     (let mode = SSL_get_verify_mode K (sl_raw sl)
      in mode \<ge> 0 \<and> mode AND SSL_VERIFY_PEER K = SSL_VERIFY_PEER K)"

definition issuer :: "'f ctx_data \<Rightarrow> 64 word option" where
  "issuer c = map_option fst (cd_client_session c)"

text \<open>\<open>earliest_not_after\<close>: the least of the times that convert.\<close>

definition earliest_not_after :: "('s, 'n, 'x) conn_api \<Rightarrow> 'x list \<Rightarrow> int option" where
  "earliest_not_after K certs =
     (let ts = List.map_filter
                 (\<lambda>c. case ASN1_TIME_to_posix K c of (ok, t) \<Rightarrow> if ok = 1 then Some t else None) certs
      in case ts of [] \<Rightarrow> None | t # ts \<Rightarrow> Some (foldl min t ts))"

definition chain_not_after :: "('s, 'n, 'x) conn_api \<Rightarrow> ('s, 'f) ssl_conn \<Rightarrow> int option" where
  "chain_not_after K sl =
     (if \<not> cd_x509 (sl_ctx sl) then None
      else case SSL_get_peer_full_cert_chain K (sl_raw sl) of
             None \<Rightarrow> None
           | Some chain \<Rightarrow> earliest_not_after K chain)"

definition client_session_new ::
    "('s, 'n, 'x) conn_api \<Rightarrow> 'n \<Rightarrow> session_peer \<Rightarrow> ('s, 'f) ssl_conn \<Rightarrow> 'n client_session" where
  "client_session_new K session peer sl =
     \<lparr>cs_session = session, cs_peer = peer, cs_verify_peer = verifies_peer K sl,
      cs_not_after = chain_not_after K sl, cs_issuer = issuer (sl_ctx sl)\<rparr>"

text \<open>\<open>str::eq_ignore_ascii_case\<close>.\<close>

definition ascii_lower :: "char \<Rightarrow> char" where
  "ascii_lower c = (let n = of_char c :: nat in if 65 \<le> n \<and> n \<le> 90 then char_of (n + 32) else c)"

definition eq_ignore_ascii_case :: "string \<Rightarrow> string \<Rightarrow> bool" where
  "eq_ignore_ascii_case a b \<longleftrightarrow> map ascii_lower a = map ascii_lower b"

text \<open>
  \<open>ClientSession::chain_expired\<close>; \<open>now\<close> is the clock in whole seconds since the epoch, negative before it.
\<close>

definition unix_now :: "int \<Rightarrow> int option" where
  "unix_now now = (if 0 \<le> now \<and> now < 2 ^ 63 then Some now else None)"

definition chain_expired :: "'n client_session \<Rightarrow> int \<Rightarrow> bool" where
  "chain_expired cs now =
     (case (cs_not_after cs, unix_now now) of (Some t, Some n) \<Rightarrow> n \<ge> t | _ \<Rightarrow> False)"

definition id_context :: "('s, 'n, 'x) conn_api \<Rightarrow> 'n \<Rightarrow> byte list" where
  "id_context K n = (case SSL_SESSION_get0_id_context K n of None \<Rightarrow> [] | Some p \<Rightarrow> p)"

definition resumes ::
    "('s, 'n, 'x) conn_api \<Rightarrow> 'n client_session \<Rightarrow> int \<Rightarrow> ('s, 'f) ssl_conn \<Rightarrow> string \<Rightarrow> bool \<Rightarrow> bool \<Rightarrow> bool" where
  "resumes K cs now sl domain sni verify_hostname =
     (let scope = id_context K (cs_session cs); verify_peer = verifies_peer K sl in
        SSL_get0_session_id_context K (sl_raw sl) = Some scope
        \<and> (scope \<noteq> [] \<or> cs_issuer cs \<noteq> None \<and> cs_issuer cs = issuer (sl_ctx sl))
        \<and> eq_ignore_ascii_case (sp_domain (cs_peer cs)) domain
        \<and> sp_sni (cs_peer cs) = sni
        \<and> (sp_verify_hostname (cs_peer cs) \<or> \<not> verify_hostname)
        \<and> (cs_verify_peer cs \<or> \<not> verify_peer)
        \<and> \<not> (verify_peer \<and> chain_expired cs now))"

definition effective_sni :: "('s, 'n, 'x) conn_api \<Rightarrow> ('s, 'f, 'n) connect_configuration \<Rightarrow> string \<Rightarrow> bool" where
  "effective_sni K cfg domain \<longleftrightarrow> cc_sni cfg \<and> parse_ip K domain = None"

definition reports_sessions :: "('s, 'f) ssl_conn \<Rightarrow> bool" where
  "reports_sessions sl = (case sl_session_ctx sl of None \<Rightarrow> False | Some c \<Rightarrow> cd_client_session c \<noteq> None)"

text \<open>The four steps of \<open>ConnectConfiguration::into_ssl\<close>.\<close>

definition into_ssl_steps ::
    "('s, 'n, 'x) conn_api \<Rightarrow> ('s, 'f, 'n) connect_configuration \<Rightarrow> string \<Rightarrow> int \<Rightarrow> (('s, 'f) ssl_conn, unit) eff"
  where
  "into_ssl_steps K cfg domain now =
     (let sni = effective_sni K cfg domain; vh = cc_verify_hostname cfg in
      ethen (if sni then set_hostname K domain else eret ())
        (ethen (if vh then setup_verify_hostname K domain else eret ())
          (ethen (eput (\<lambda>sl. if reports_sessions sl
                   then sl\<lparr>sl_peer := Some \<lparr>sp_domain = domain, sp_sni = sni, sp_verify_hostname = vh\<rparr>\<rparr>
                   else sl))
            (case cc_session cfg of
               None \<Rightarrow> eret ()
             | Some cs \<Rightarrow>
                 ebind (eget (\<lambda>sl. resumes K cs now sl domain sni vh))
                   (\<lambda>b. if b then ecvt (on_raw (SSL_set_session K (cs_session cs))) else eret ())))))"

definition into_ssl ::
    "('s, 'n, 'x) conn_api \<Rightarrow> ('s, 'f, 'n) connect_configuration \<Rightarrow> string \<Rightarrow> int \<Rightarrow> err_queue
     \<Rightarrow> ('s, 'f) ssl_conn eresult \<times> err_queue" where
  "into_ssl K cfg domain now q =
     erun (ethen (into_ssl_steps K cfg domain now) (eget (\<lambda>sl. sl))) (cc_ssl cfg) q"

text \<open>
  \<open>raw_client_session\<close>: the callback to call, if any, and the session it is called with. It always
  returns 1, so BoringSSL gives the reference up.
\<close>

definition raw_client_session ::
    "('s, 'n, 'x) conn_api \<Rightarrow> ('s, 'f) ssl_conn \<Rightarrow> 'n \<Rightarrow> ('f \<times> 'n client_session) option" where
  "raw_client_session K sl session =
     (case sl_peer sl of
        None \<Rightarrow> None
      | Some peer \<Rightarrow>
          (case sl_session_ctx sl of
             None \<Rightarrow> None
           | Some c \<Rightarrow>
               (case cd_client_session c of
                  None \<Rightarrow> None
                | Some (_, callback) \<Rightarrow> Some (callback, client_session_new K session peer sl))))"

text \<open>The setters of \<open>ConnectConfiguration\<close>; the methods that consume and return it are the same.\<close>

definition set_use_server_name_indication ::
    "bool \<Rightarrow> ('s, 'f, 'n) connect_configuration \<Rightarrow> ('s, 'f, 'n) connect_configuration" where
  "set_use_server_name_indication use_sni cfg = cfg\<lparr>cc_sni := use_sni\<rparr>"

definition set_verify_hostname ::
    "bool \<Rightarrow> ('s, 'f, 'n) connect_configuration \<Rightarrow> ('s, 'f, 'n) connect_configuration" where
  "set_verify_hostname verify_hostname cfg = cfg\<lparr>cc_verify_hostname := verify_hostname\<rparr>"

definition set_client_session ::
    "'n client_session \<Rightarrow> ('s, 'f, 'n) connect_configuration \<Rightarrow> ('s, 'f, 'n) connect_configuration" where
  "set_client_session session cfg = cfg\<lparr>cc_session := Some session\<rparr>"

text \<open>
  \<open>set_client_session_callback\<close>: the context of a builder, its session cache mode, whether the new
  session callback is \<open>raw_client_session\<close>, and the next value of \<open>NEXT_ISSUER\<close>, which wraps.
\<close>

record 'f session_builder =
  sb_ctx :: "'f ctx_data"
  sb_cache_mode :: int
  sb_client_cb :: bool

definition set_client_session_callback ::
    "int \<Rightarrow> 'f \<Rightarrow> 'f session_builder \<Rightarrow> 64 word \<Rightarrow> 'f session_builder \<times> 64 word" where
  "set_client_session_callback sess_cache_client callback b next =
     (b\<lparr>sb_ctx := sb_ctx b\<lparr>cd_client_session := Some (next, callback)\<rparr>,
        sb_cache_mode := sb_cache_mode b OR sess_cache_client, sb_client_cb := True\<rparr>, next + 1)"

section \<open>Specification\<close>

text \<open>
  What a connection has been told, as far as sessions and names go: the session offered, the settings
  that \<open>resumes\<close> reads, the server name to send and the name to verify.
\<close>

record 'n conn_view =
  cv_offer :: "'n option"
  cv_settings :: "byte list option \<times> int"
  cv_sni :: "string option"
  cv_verify :: "(string + byte list) option"

text \<open>
  The documented behaviour: each call changes only what it is for, a failing call changes nothing of it.
  \<open>set1_ip\<close> reads as many bytes as its length says.
\<close>

definition conn_spec :: "('s, 'n, 'x) conn_api \<Rightarrow> ('s \<Rightarrow> 'n conn_view) \<Rightarrow> bool" where
  "conn_spec K V \<longleftrightarrow>
     (\<forall>s. cv_settings (V s) = (SSL_get0_session_id_context K s, SSL_get_verify_mode K s)) \<and>
     (\<forall>n s q r u s' q'. SSL_set_session K n s q = ((r, u), s', q') \<longrightarrow>
        V s' = (if 0 < r then V s\<lparr>cv_offer := Some n\<rparr> else V s)) \<and>
     (\<forall>h s q r u s' q'. SSL_set_tlsext_host_name K h s q = ((r, u), s', q') \<longrightarrow>
        V s' = (if 0 < r then V s\<lparr>cv_sni := Some h\<rparr> else V s)) \<and>
     (\<forall>f s. V (X509_VERIFY_PARAM_set_hostflags K f s) = V s) \<and>
     (\<forall>b n s q r u s' q'. X509_VERIFY_PARAM_set1_ip K b n s q = ((r, u), s', q') \<longrightarrow>
        V s' = (if 0 < r then V s\<lparr>cv_verify := Some (Inr (take n b))\<rparr> else V s)) \<and>
     (\<forall>h n s q r u s' q'. X509_VERIFY_PARAM_set1_host K h n s q = ((r, u), s', q') \<longrightarrow>
        V s' = (if 0 < r then V s\<lparr>cv_verify := Some (Inl (if n = 0 then takeWhile (\<lambda>c. c \<noteq> CHR 0x00) h else take n h))\<rparr>
                else V s))"

text \<open>An address has the octets of its version.\<close>

definition ip_ok :: "ip_addr \<Rightarrow> bool" where
  "ip_ok ip = (case ip of V4 os \<Rightarrow> length os = 4 | V6 os \<Rightarrow> length os = 16)"

lemma on_raw_eq: "on_raw f sl q = (r, sl', q') \<longleftrightarrow> (\<exists>s. f (sl_raw sl) q = (r, s, q') \<and> sl' = sl\<lparr>sl_raw := s\<rparr>)"
  by (auto simp: on_raw_def split: prod.splits)

lemma call_on_raw:
  "ecvt (on_raw f) sl q = (Ok x, sl', q') \<longleftrightarrow>
     (\<exists>r s. 0 < r \<and> f (sl_raw sl) q = ((r, x), s, q') \<and> sl' = sl\<lparr>sl_raw := s\<rparr>)"
  by (auto simp: ecvt_eq_ok on_raw_eq)

text \<open>The laws of \<open>conn_spec\<close> for successful calls.\<close>

lemma conn_specD:
  assumes "conn_spec K V"
  shows "cv_settings (V s) = (SSL_get0_session_id_context K s, SSL_get_verify_mode K s)"
    and "SSL_set_session K n s q = ((r, u), s', q') \<Longrightarrow> 0 < r \<Longrightarrow> V s' = V s\<lparr>cv_offer := Some n\<rparr>"
    and "SSL_set_tlsext_host_name K h s q = ((r, u), s', q') \<Longrightarrow> 0 < r \<Longrightarrow> V s' = V s\<lparr>cv_sni := Some h\<rparr>"
    and "V (X509_VERIFY_PARAM_set_hostflags K f s) = V s"
    and "X509_VERIFY_PARAM_set1_ip K b m s q = ((r, u), s', q') \<Longrightarrow> 0 < r \<Longrightarrow>
           V s' = V s\<lparr>cv_verify := Some (Inr (take m b))\<rparr>"
    and "X509_VERIFY_PARAM_set1_host K h m s q = ((r, u), s', q') \<Longrightarrow> 0 < r \<Longrightarrow>
           V s' = V s\<lparr>cv_verify := Some (Inl (if m = 0 then takeWhile (\<lambda>c. c \<noteq> CHR 0x00) h else take m h))\<rparr>"
proof -
  note c = assms [unfolded conn_spec_def]
  show "cv_settings (V s) = (SSL_get0_session_id_context K s, SSL_get_verify_mode K s)"
    by (rule c [THEN conjunct1, rule_format])
  show "V s' = V s\<lparr>cv_offer := Some n\<rparr>" if "SSL_set_session K n s q = ((r, u), s', q')" and "0 < r"
    using c [THEN conjunct2, THEN conjunct1, rule_format, OF that(1)] that(2) by simp
  show "V s' = V s\<lparr>cv_sni := Some h\<rparr>" if "SSL_set_tlsext_host_name K h s q = ((r, u), s', q')" and "0 < r"
    using c [THEN conjunct2, THEN conjunct2, THEN conjunct1, rule_format, OF that(1)] that(2) by simp
  show "V (X509_VERIFY_PARAM_set_hostflags K f s) = V s"
    by (rule c [THEN conjunct2, THEN conjunct2, THEN conjunct2, THEN conjunct1, rule_format])
  show "V s' = V s\<lparr>cv_verify := Some (Inr (take m b))\<rparr>"
    if "X509_VERIFY_PARAM_set1_ip K b m s q = ((r, u), s', q')" and "0 < r"
    using c [THEN conjunct2, THEN conjunct2, THEN conjunct2, THEN conjunct2, THEN conjunct1, rule_format, OF that(1)]
      that(2) by simp
  show "V s' = V s\<lparr>cv_verify := Some (Inl (if m = 0 then takeWhile (\<lambda>c. c \<noteq> CHR 0x00) h else take m h))\<rparr>"
    if "X509_VERIFY_PARAM_set1_host K h m s q = ((r, u), s', q')" and "0 < r"
    using c [THEN conjunct2, THEN conjunct2, THEN conjunct2, THEN conjunct2, THEN conjunct2, rule_format, OF that(1)]
      that(2) by simp
qed

text \<open>The steps of \<open>into_ssl\<close>, each with what it changes.\<close>

lemma set_hostname_ok:
  assumes "conn_spec K V" and "set_hostname K d sl q = (Ok u, sl', q')"
  shows "\<exists>s. sl' = sl\<lparr>sl_raw := s\<rparr> \<and> V s = V (sl_raw sl)\<lparr>cv_sni := Some d\<rparr>"
proof -
  from assms(2) obtain r s where "0 < r" "SSL_set_tlsext_host_name K d (sl_raw sl) q = ((r, ()), s, q')"
    "sl' = sl\<lparr>sl_raw := s\<rparr>"
    by (auto simp: set_hostname_def ecstring_def ebind_eq_ok call_on_raw split: if_splits)
  with conn_specD(3) [OF assms(1) this(2,1)] show ?thesis by blast
qed

lemma set_ip_ok:
  assumes "conn_spec K V" and "ip_ok ip" and "set_ip K ip sl q = (Ok u, sl', q')"
  shows "\<exists>s. sl' = sl\<lparr>sl_raw := s\<rparr> \<and> V s = V (sl_raw sl)\<lparr>cv_verify := Some (Inr (octets ip))\<rparr>"
proof -
  let ?b = "case ip of V4 os \<Rightarrow> (overwrite os (replicate 16 0), 4) | V6 os \<Rightarrow> (os, 16)"
  from assms(3) obtain r s where "0 < r" and
    s: "X509_VERIFY_PARAM_set1_ip K (fst ?b) (snd ?b) (sl_raw sl) q = ((r, ()), s, q')" "sl' = sl\<lparr>sl_raw := s\<rparr>"
    by (auto simp: set_ip_def call_on_raw Let_def split: ip_addr.splits)
  from conn_specD(5) [OF assms(1) s(1) \<open>0 < r\<close>] s(2) assms(2) show ?thesis
    by (auto simp: ip_ok_def octets_def overwrite_def split: ip_addr.splits)
qed

lemma set_host_ok:
  assumes "conn_spec K V" and "set_host K d sl q = (Ok u, sl', q')"
  shows "\<exists>s. sl' = sl\<lparr>sl_raw := s\<rparr> \<and> V s = V (sl_raw sl)\<lparr>cv_verify := Some (Inl d)\<rparr>"
proof -
  let ?h = "if d = [] then [CHR 0x00] else d"
  from assms(2) obtain r s where "0 < r" and
    s: "X509_VERIFY_PARAM_set1_host K ?h (length d) (sl_raw sl) q = ((r, ()), s, q')" "sl' = sl\<lparr>sl_raw := s\<rparr>"
    by (auto simp: set_host_def call_on_raw Let_def)
  from conn_specD(6) [OF assms(1) s(1) \<open>0 < r\<close>] s(2) show ?thesis by auto
qed

text \<open>The name that a connection with these settings verifies.\<close>

definition verified_name :: "('s, 'n, 'x) conn_api \<Rightarrow> string \<Rightarrow> string + byte list" where
  "verified_name K domain = (case parse_ip K domain of None \<Rightarrow> Inl domain | Some ip \<Rightarrow> Inr (octets ip))"

lemma setup_verify_hostname_ok:
  assumes "conn_spec K V" and "\<And>ip. parse_ip K d = Some ip \<Longrightarrow> ip_ok ip"
    and "setup_verify_hostname K d sl q = (Ok u, sl', q')"
  shows "cd_x509 (sl_ctx sl) \<and>
         (\<exists>s. sl' = sl\<lparr>sl_raw := s\<rparr> \<and> V s = V (sl_raw sl)\<lparr>cv_verify := Some (verified_name K d)\<rparr>)"
proof -
  let ?sl = "sl\<lparr>sl_raw := X509_VERIFY_PARAM_set_hostflags K (X509_CHECK_FLAG_NO_PARTIAL_WILDCARDS K) (sl_raw sl)\<rparr>"
  from assms(3) have x: "cd_x509 (sl_ctx sl)" and
    r: "(case parse_ip K d of Some ip \<Rightarrow> set_ip K ip | None \<Rightarrow> set_host K d) ?sl q = (Ok u, sl', q')"
    by (auto simp: setup_verify_hostname_def check_x509_def set_hostflags_def ethen_eq_ok ebind_eq_ok eassert_eq_ok)
  have v: "V (sl_raw ?sl) = V (sl_raw sl)" by (simp add: conn_specD(4) [OF assms(1)])
  have "\<exists>s. sl' = ?sl\<lparr>sl_raw := s\<rparr> \<and> V s = V (sl_raw ?sl)\<lparr>cv_verify := Some (verified_name K d)\<rparr>"
  proof (cases "parse_ip K d")
    case None
    with r have "set_host K d ?sl q = (Ok u, sl', q')" by simp
    from set_host_ok [OF assms(1) this] None show ?thesis by (simp only: verified_name_def option.case)
  next
    case (Some ip)
    with r have "set_ip K ip ?sl q = (Ok u, sl', q')" by simp
    from set_ip_ok [OF assms(1) assms(2) [OF Some] this] Some show ?thesis
      by (simp only: verified_name_def option.case)
  qed
  with x v show ?thesis by auto
qed

text \<open>What \<open>into_ssl\<close> has done when it succeeds.\<close>

definition prepared ::
    "('s, 'n, 'x) conn_api \<Rightarrow> ('s, 'f, 'n) connect_configuration \<Rightarrow> string \<Rightarrow> int \<Rightarrow> 'n conn_view \<Rightarrow> 'n conn_view" where
  "prepared K cfg domain now v =
     (let sni = effective_sni K cfg domain; vh = cc_verify_hostname cfg in
      v\<lparr>cv_sni := (if sni then Some domain else cv_sni v),
        cv_verify := (if vh then Some (verified_name K domain) else cv_verify v),
        cv_offer := (case cc_session cfg of
            Some cs \<Rightarrow> if resumes K cs now (cc_ssl cfg) domain sni vh then Some (cs_session cs) else cv_offer v
          | None \<Rightarrow> cv_offer v)\<rparr>)"

lemma resumes_cong:
  assumes "conn_spec K V" and "cv_settings (V s) = cv_settings (V (sl_raw sl))" and "sl_ctx sl' = sl_ctx sl"
    and "sl_raw sl' = s"
  shows "verifies_peer K sl' = verifies_peer K sl" and "resumes K cs now sl' d sni vh = resumes K cs now sl d sni vh"
proof -
  from assms have a: "SSL_get0_session_id_context K (sl_raw sl') = SSL_get0_session_id_context K (sl_raw sl)"
    "SSL_get_verify_mode K (sl_raw sl') = SSL_get_verify_mode K (sl_raw sl)"
    by (simp_all add: conn_specD(1) [OF assms(1)])
  then show "verifies_peer K sl' = verifies_peer K sl" by (simp add: verifies_peer_def)
  with a assms(3) show "resumes K cs now sl' d sni vh = resumes K cs now sl d sni vh"
    by (simp add: resumes_def Let_def)
qed

lemma offer_step_ok:
  assumes "conn_spec K V"
    and "(case ses of None \<Rightarrow> eret ()
          | Some cs \<Rightarrow> ebind (eget (\<lambda>sl. resumes K cs now sl d sni vh))
              (\<lambda>b. if b then ecvt (on_raw (SSL_set_session K (cs_session cs))) else eret ())) sl q = (Ok u, sl', q')"
  shows "\<exists>s. sl' = sl\<lparr>sl_raw := s\<rparr> \<and>
     V s = V (sl_raw sl)\<lparr>cv_offer := (case ses of
            Some cs \<Rightarrow> if resumes K cs now sl d sni vh then Some (cs_session cs) else cv_offer (V (sl_raw sl))
          | None \<Rightarrow> cv_offer (V (sl_raw sl)))\<rparr>"
proof (cases ses)
  case None
  with assms(2) show ?thesis by (auto intro: exI [of _ "sl_raw sl"])
next
  case (Some cs)
  show ?thesis
  proof (cases "resumes K cs now sl d sni vh")
    case True
    with assms(2) Some obtain r s where s: "0 < r"
      "SSL_set_session K (cs_session cs) (sl_raw sl) q = ((r, ()), s, q')" "sl' = sl\<lparr>sl_raw := s\<rparr>"
      by (auto simp: ebind_eq_ok call_on_raw)
    from conn_specD(2) [OF assms(1) s(2,1)] s(3) Some True show ?thesis by auto
  next
    case False
    with assms(2) Some show ?thesis by (auto simp: ebind_eq_ok intro: exI [of _ "sl_raw sl"])
  qed
qed

lemma into_ssl_ok:
  assumes "conn_spec K V" and "\<And>ip. parse_ip K d = Some ip \<Longrightarrow> ip_ok ip"
    and "into_ssl K cfg d now q = (Ok sl', q')"
  shows "V (sl_raw sl') = prepared K cfg d now (V (sl_raw (cc_ssl cfg))) \<and>
     sl_ctx sl' = sl_ctx (cc_ssl cfg) \<and> sl_session_ctx sl' = sl_session_ctx (cc_ssl cfg) \<and>
     sl_peer sl' = (if reports_sessions (cc_ssl cfg)
       then Some \<lparr>sp_domain = d, sp_sni = effective_sni K cfg d, sp_verify_hostname = cc_verify_hostname cfg\<rparr>
       else sl_peer (cc_ssl cfg)) \<and>
     verifies_peer K sl' = verifies_peer K (cc_ssl cfg)"
proof -
  let ?sl = "cc_ssl cfg" let ?sni = "effective_sni K cfg d" let ?vh = "cc_verify_hostname cfg"
  let ?peer = "\<lambda>sl. if reports_sessions sl
    then sl\<lparr>sl_peer := Some \<lparr>sp_domain = d, sp_sni = ?sni, sp_verify_hostname = ?vh\<rparr>\<rparr> else sl"
  from assms(3) have "into_ssl_steps K cfg d now ?sl q = (Ok (), sl', q')"
    by (auto simp: into_ssl_def erun_def ethen_eq_ok split: prod.splits)
  then obtain sl1 q1 sl2 q2 where
    1: "(if ?sni then set_hostname K d else eret ()) ?sl q = (Ok (), sl1, q1)" and
    2: "(if ?vh then setup_verify_hostname K d else eret ()) sl1 q1 = (Ok (), sl2, q2)" and
    3: "(case cc_session cfg of None \<Rightarrow> eret ()
          | Some cs \<Rightarrow> ebind (eget (\<lambda>sl. resumes K cs now sl d ?sni ?vh))
              (\<lambda>b. if b then ecvt (on_raw (SSL_set_session K (cs_session cs))) else eret ())) (?peer sl2) q2 = (Ok (), sl', q')"
    by (auto simp: into_ssl_steps_def Let_def ethen_eq_ok)
  have "\<exists>s. sl1 = ?sl\<lparr>sl_raw := s\<rparr> \<and>
    V s = V (sl_raw ?sl)\<lparr>cv_sni := (if ?sni then Some d else cv_sni (V (sl_raw ?sl)))\<rparr>"
  proof (cases ?sni)
    case True
    with set_hostname_ok [OF assms(1)] 1 show ?thesis by simp
  next
    case False
    with 1 show ?thesis by (auto intro: exI [of _ "sl_raw ?sl"])
  qed
  then obtain s1 where s1: "sl1 = ?sl\<lparr>sl_raw := s1\<rparr>"
    "V s1 = V (sl_raw ?sl)\<lparr>cv_sni := (if ?sni then Some d else cv_sni (V (sl_raw ?sl)))\<rparr>" by blast
  have "\<exists>s. sl2 = sl1\<lparr>sl_raw := s\<rparr> \<and>
    V s = V s1\<lparr>cv_verify := (if ?vh then Some (verified_name K d) else cv_verify (V s1))\<rparr>"
  proof (cases ?vh)
    case True
    with setup_verify_hostname_ok [OF assms(1,2)] 2 s1(1) show ?thesis by fastforce
  next
    case False
    with 2 s1(1) show ?thesis by (auto intro: exI [of _ s1])
  qed
  then obtain s2 where s2: "sl2 = ?sl\<lparr>sl_raw := s2\<rparr>"
    "V s2 = V s1\<lparr>cv_verify := (if ?vh then Some (verified_name K d) else cv_verify (V s1))\<rparr>"
    using s1(1) by auto
  have peer: "sl_raw (?peer sl2) = s2" "sl_ctx (?peer sl2) = sl_ctx ?sl" by (simp_all add: s2(1))
  have set: "cv_settings (V s2) = cv_settings (V (sl_raw ?sl))" by (simp add: s1(2) s2(2))
  note same = resumes_cong [OF assms(1) set peer(2,1)]
  from offer_step_ok [OF assms(1) 3, unfolded same peer(1)] obtain s3 where
    s3: "sl' = (?peer sl2)\<lparr>sl_raw := s3\<rparr>"
    "V s3 = V s2\<lparr>cv_offer := (case cc_session cfg of
            Some cs \<Rightarrow> if resumes K cs now ?sl d ?sni ?vh then Some (cs_session cs) else cv_offer (V s2)
          | None \<Rightarrow> cv_offer (V s2))\<rparr>" by blast
  have offer: "cv_offer (V s2) = cv_offer (V (sl_raw ?sl))" by (simp add: s1(2) s2(2))
  have "cv_settings (V s3) = cv_settings (V (sl_raw ?sl))" by (simp add: s3(2) set)
  from resumes_cong(1) [OF assms(1) this, of sl'] s3(1) peer(2)
  have "verifies_peer K sl' = verifies_peer K ?sl" by simp
  moreover have "V (sl_raw sl') = prepared K cfg d now (V (sl_raw ?sl))"
    by (simp add: s3(1) s3(2) [unfolded offer] s2(2) s1(2) prepared_def Let_def)
  moreover have "reports_sessions sl2 = reports_sessions ?sl" by (simp add: s2(1) reports_sessions_def)
  ultimately show ?thesis by (simp add: s3(1) s2(1))
qed

section \<open>Properties\<close>

text \<open>
  A prepared connection sends the domain as its server name exactly when that is enabled and the domain
  is not an IP address; when it verifies the hostname, the name it verifies is the domain, or the address
  if it parses as one, and its context supports X.509.
\<close>

lemma into_ssl_names:
  assumes "conn_spec K V" and "\<And>ip. parse_ip K d = Some ip \<Longrightarrow> ip_ok ip"
    and "into_ssl K cfg d now q = (Ok sl', q')"
    and "cv_sni (V (sl_raw (cc_ssl cfg))) = None"
  shows "cv_sni (V (sl_raw sl')) = (if cc_sni cfg \<and> parse_ip K d = None then Some d else None) \<and>
         (cc_verify_hostname cfg \<longrightarrow>
            cv_verify (V (sl_raw sl')) =
              Some (case parse_ip K d of None \<Rightarrow> Inl d | Some ip \<Rightarrow> Inr (octets ip)))"
  using into_ssl_ok [OF assms(1-3)] assms(4)
  by (simp add: prepared_def effective_sni_def verified_name_def Let_def)

text \<open>
  C9: A session is offered exactly where it belongs. Let a connection prepared for one domain be issued a
  session, and let that session be given to the configuration of another connection. The second connection
  offers it if and only if it has the same domain, up to the case of ASCII letters, and the same use of
  SNI, it does not verify the hostname or the peer when the first did not, its session id context is the
  session's, which is either not empty or the contexts have the same session callback, and, if it verifies
  the peer, no certificate of the chain of the first has expired.
\<close>

theorem session_offered_iff_it_matches:
  assumes "conn_spec K V" and "\<And>d ip. parse_ip K d = Some ip \<Longrightarrow> ip_ok ip"
    and "into_ssl K cfg1 d1 now1 q1 = (Ok sl1, q1')" and "sl_peer (cc_ssl cfg1) = None"
    and "sl_peer est = sl_peer sl1" and "raw_client_session K est n = Some (cb, cs)"
    and "into_ssl K (set_client_session cs cfg2) d2 now2 q2 = (Ok sl2, q2')"
    and "cv_offer (V (sl_raw (cc_ssl cfg2))) = None"
  shows "(cv_offer (V (sl_raw sl2)) = Some n \<longleftrightarrow>
     eq_ignore_ascii_case d1 d2 \<and> effective_sni K cfg1 d1 = effective_sni K cfg2 d2 \<and>
     (cc_verify_hostname cfg2 \<longrightarrow> cc_verify_hostname cfg1) \<and>
     (verifies_peer K sl2 \<longrightarrow> verifies_peer K est \<and> \<not> chain_expired cs now2) \<and>
     SSL_get0_session_id_context K (sl_raw (cc_ssl cfg2)) = Some (id_context K n) \<and>
     (id_context K n \<noteq> [] \<or> issuer (sl_ctx est) \<noteq> None \<and> issuer (sl_ctx est) = issuer (sl_ctx sl2))) \<and>
     cv_offer (V (sl_raw sl2)) \<in> {None, Some n}"
proof -
  from into_ssl_ok [OF assms(1,2,3)] assms(4) have p1: "sl_peer sl1 =
    (if reports_sessions (cc_ssl cfg1)
     then Some \<lparr>sp_domain = d1, sp_sni = effective_sni K cfg1 d1, sp_verify_hostname = cc_verify_hostname cfg1\<rparr>
     else None)" by simp
  from assms(5,6) p1 have cs: "cs = client_session_new K n
      \<lparr>sp_domain = d1, sp_sni = effective_sni K cfg1 d1, sp_verify_hostname = cc_verify_hostname cfg1\<rparr> est"
    by (auto simp: raw_client_session_def split: option.splits if_splits)
  note ok2 = into_ssl_ok [OF assms(1,2,7)]
  have sni: "effective_sni K (set_client_session cs cfg2) d2 = effective_sni K cfg2 d2"
    by (simp add: set_client_session_def effective_sni_def)
  from ok2 assms(8) have off: "cv_offer (V (sl_raw sl2)) =
      (if resumes K cs now2 (cc_ssl cfg2) d2 (effective_sni K cfg2 d2) (cc_verify_hostname cfg2)
       then Some (cs_session cs) else None)"
    by (simp add: prepared_def Let_def set_client_session_def effective_sni_def)
  from ok2 have "verifies_peer K sl2 = verifies_peer K (cc_ssl cfg2)" "sl_ctx sl2 = sl_ctx (cc_ssl cfg2)"
    by (simp_all add: set_client_session_def)
  moreover have field: "cs_session cs = n" "sp_domain (cs_peer cs) = d1" "sp_sni (cs_peer cs) = effective_sni K cfg1 d1"
    "sp_verify_hostname (cs_peer cs) = cc_verify_hostname cfg1" "cs_verify_peer cs = verifies_peer K est"
    "cs_issuer cs = issuer (sl_ctx est)"
    by (simp_all add: cs client_session_new_def)
  moreover have "cv_offer (V (sl_raw sl2)) = Some n \<longleftrightarrow>
     eq_ignore_ascii_case d1 d2 \<and> effective_sni K cfg1 d1 = effective_sni K cfg2 d2 \<and>
     (cc_verify_hostname cfg2 \<longrightarrow> cc_verify_hostname cfg1) \<and>
     (verifies_peer K sl2 \<longrightarrow> verifies_peer K est \<and> \<not> chain_expired cs now2) \<and>
     SSL_get0_session_id_context K (sl_raw (cc_ssl cfg2)) = Some (id_context K n) \<and>
     (id_context K n \<noteq> [] \<or> issuer (sl_ctx est) \<noteq> None \<and> issuer (sl_ctx est) = issuer (sl_ctx sl2))"
    unfolding off resumes_def Let_def field calculation
    by (cases "issuer (sl_ctx (cc_ssl cfg2))") auto
  moreover from off cs have "cv_offer (V (sl_raw sl2)) \<in> {None, Some n}" by (simp add: client_session_new_def)
  ultimately show ?thesis by blast
qed

text \<open>The expiry that is recorded with a session.\<close>

lemma foldl_min_le: "foldl min (t :: int) ts \<le> n \<longleftrightarrow> (\<exists>x \<in> set (t # ts). x \<le> n)"
  by (induction ts arbitrary: t) (auto simp: min_le_iff_disj)

definition cert_times :: "('s, 'n, 'x) conn_api \<Rightarrow> 'x list \<Rightarrow> int set" where
  "cert_times K certs = {t. \<exists>c \<in> set certs. ASN1_TIME_to_posix K c = (1, t)}"

lemma earliest_not_after_le:
  "(\<exists>t. earliest_not_after K certs = Some t \<and> t \<le> n) \<longleftrightarrow> (\<exists>t \<in> cert_times K certs. t \<le> n)"
proof -
  let ?f = "\<lambda>c. case ASN1_TIME_to_posix K c of (ok, t) \<Rightarrow> if ok = 1 then Some t else None"
  have set: "set (List.map_filter ?f certs) = cert_times K certs"
    by (force simp: List.map_filter_def cert_times_def split: prod.splits if_splits)
  show ?thesis
  proof (cases "List.map_filter ?f certs")
    case Nil
    with set show ?thesis by (simp add: earliest_not_after_def)
  next
    case (Cons t ts)
    with set have "set (t # ts) = cert_times K certs" by simp
    moreover from Cons have "earliest_not_after K certs = Some (foldl min t ts)"
      by (simp add: earliest_not_after_def)
    ultimately show ?thesis by (simp add: foldl_min_le [of t ts n])
  qed
qed

text \<open>
  A session counts as expired when a certificate of the chain it was issued with has expired: its time
  converts and is not after the clock. Without X.509 support, without a chain, or with a clock before the
  epoch it never does.
\<close>

lemma chain_expired_iff_certificate_expired:
  "chain_expired (client_session_new K n peer sl) now \<longleftrightarrow>
     cd_x509 (sl_ctx sl) \<and> 0 \<le> now \<and> now < 2 ^ 63 \<and>
     (\<exists>chain. SSL_get_peer_full_cert_chain K (sl_raw sl) = Some chain \<and> (\<exists>t \<in> cert_times K chain. t \<le> now))"
proof (cases "cd_x509 (sl_ctx sl)")
  case x: True
  show ?thesis
  proof (cases "SSL_get_peer_full_cert_chain K (sl_raw sl)")
    case None
    with x show ?thesis by (simp add: chain_expired_def client_session_new_def chain_not_after_def)
  next
    case (Some chain)
    with x have c: "cs_not_after (client_session_new K n peer sl) = earliest_not_after K chain"
      by (simp add: client_session_new_def chain_not_after_def)
    show ?thesis
      using earliest_not_after_le [of K chain now] x Some
      by (auto simp: chain_expired_def c unix_now_def split: option.splits)
  qed
next
  case False
  then show ?thesis by (simp add: chain_expired_def client_session_new_def chain_not_after_def)
qed

text \<open>Registrations of session callbacks, one after the other, each on its own builder.\<close>

fun register_all ::
    "int \<Rightarrow> ('f \<times> 'f session_builder) list \<Rightarrow> 64 word \<Rightarrow> 'f session_builder list" where
  "register_all client [] next = []"
| "register_all client ((callback, b) # bs) next =
     (case set_client_session_callback client callback b next of
        (b', next') \<Rightarrow> b' # register_all client bs next')"

lemma register_all_issuers:
  "map (\<lambda>b. issuer (sb_ctx b)) (register_all client bs next) =
     map (\<lambda>i. Some (next + of_nat i)) [0..<length bs]"
proof (induction bs arbitrary: "next")
  case (Cons cb bs)
  obtain c b where [simp]: "cb = (c, b)" by (cases cb)
  have "map (\<lambda>i. Some (next + of_nat i)) [0..<length (cb # bs)] =
      Some next # map (\<lambda>i. Some (next + 1 + of_nat i)) [0..<length bs]"
    by (simp add: upt_conv_Cons map_Suc_upt [symmetric] add.assoc del: upt_Suc)
  with Cons.IH [of "next + 1"] show ?case
    by (simp add: set_client_session_callback_def issuer_def del: upt_Suc)
qed simp

text \<open>
  Contexts with session callbacks have distinct issuers, until \<open>2 ^ 64\<close> callbacks were registered: a
  session without a session id context is never offered to a connection of another context.
\<close>

lemma issuers_distinct:
  assumes "length bs \<le> 2 ^ 64"
  shows "distinct (map (\<lambda>b. issuer (sb_ctx b)) (register_all client bs next))"
proof -
  have "inj_on (\<lambda>i. next + (of_nat i :: 64 word)) {0..<length bs}"
  proof (rule inj_onI)
    fix i j
    assume "i \<in> {0..<length bs}" "j \<in> {0..<length bs}" "next + (of_nat i :: 64 word) = next + of_nat j"
    then have "unat (of_nat i :: 64 word) = unat (of_nat j :: 64 word)" "i < 2 ^ 64" "j < 2 ^ 64"
      using assms by simp_all
    then show "i = j" by (simp add: unat_of_nat_small)
  qed
  then show ?thesis
    by (simp add: register_all_issuers distinct_map inj_on_def)
qed

section \<open>A sample connection\<close>

text \<open>
  The library is its own view; a session is a number, its id context that number; a certificate is its
  expiry. The peer shows one that expires at 100. Only \<open>1.2.3.4\<close> parses as an address.
\<close>

definition sample_conn :: "(nat conn_view, nat, int) conn_api" where
  "sample_conn =
     \<lparr>parse_ip = (\<lambda>d. if d = ''1.2.3.4'' then Some (V4 [1, 2, 3, 4]) else None),
      SSL_set_tlsext_host_name = (\<lambda>h s q. ((1, ()), s\<lparr>cv_sni := Some h\<rparr>, q)),
      X509_CHECK_FLAG_NO_PARTIAL_WILDCARDS = 4,
      X509_VERIFY_PARAM_set_hostflags = (\<lambda>f s. s),
      X509_VERIFY_PARAM_set1_host = (\<lambda>h n s q. ((1, ()), s\<lparr>cv_verify := Some (Inl
        (if n = 0 then takeWhile (\<lambda>c. c \<noteq> CHR 0x00) h else take n h))\<rparr>, q)),
      X509_VERIFY_PARAM_set1_ip = (\<lambda>b n s q. ((1, ()), s\<lparr>cv_verify := Some (Inr (take n b))\<rparr>, q)),
      SSL_set_session = (\<lambda>n s q. ((1, ()), s\<lparr>cv_offer := Some n\<rparr>, q)),
      SSL_get0_session_id_context = (\<lambda>s. fst (cv_settings s)),
      SSL_SESSION_get0_id_context = (\<lambda>n. Some [of_nat n]),
      SSL_get_verify_mode = (\<lambda>s. snd (cv_settings s)), SSL_VERIFY_PEER = 1,
      SSL_get_peer_full_cert_chain = (\<lambda>s. Some [100]), ASN1_TIME_to_posix = (\<lambda>t. (1, t)),
      conn_err_lib_none = 1\<rparr>"

lemma sample_conn_ok: "conn_spec sample_conn (\<lambda>s. s)"
  by (simp add: conn_spec_def sample_conn_def)

lemma sample_ip_ok: "parse_ip sample_conn d = Some ip \<Longrightarrow> ip_ok ip"
  by (auto simp: sample_conn_def ip_ok_def split: if_splits)

text \<open>A new connection whose id context is 7 and that verifies the peer.\<close>

definition sample_config :: "(nat conn_view, string, nat) connect_configuration" where
  "sample_config =
     (let c = \<lparr>cd_x509 = True, cd_client_session = Some (1, ''f'')\<rparr> in
      \<lparr>cc_ssl = \<lparr>sl_raw = \<lparr>cv_offer = None, cv_settings = (Some [7], 1), cv_sni = None, cv_verify = None\<rparr>,
                 sl_ctx = c, sl_session_ctx = Some c, sl_peer = None\<rparr>,
       cc_sni = True, cc_verify_hostname = True, cc_session = None\<rparr>)"

lemmas session_eval = into_ssl_def into_ssl_steps_def effective_sni_def set_hostname_def ecstring_def
  setup_verify_hostname_def check_x509_def set_hostflags_def set_host_def set_ip_def reports_sessions_def
  raw_client_session_def client_session_new_def verifies_peer_def chain_not_after_def earliest_not_after_def
  issuer_def resumes_def id_context_def eq_ignore_ascii_case_def ascii_lower_def chain_expired_def unix_now_def
  set_client_session_def on_raw_def erun_def ebind_def ethen_def ecvt_def cvt_def eassert_def overwrite_def Let_def
  List.map_filter_def sample_conn_def sample_config_def

theorem session_offered_iff_it_matches_witness:
  "\<exists>sl1 cb cs sl2. into_ssl sample_conn sample_config ''ex.org'' 5 [] = (Ok sl1, []) \<and>
     raw_client_session sample_conn sl1 7 = Some (cb, cs) \<and>
     into_ssl sample_conn (set_client_session cs sample_config) ''EX.org'' 6 [] = (Ok sl2, []) \<and>
     cv_offer (sl_raw sl2) = Some 7"
proof -
  have "\<exists>sl1 cb cs. into_ssl sample_conn sample_config ''ex.org'' 5 [] = (Ok sl1, []) \<and>
     raw_client_session sample_conn sl1 7 = Some (cb, cs) \<and> verifies_peer sample_conn sl1 \<and>
     issuer (sl_ctx sl1) = Some 1 \<and> \<not> chain_expired cs 6"
    by (simp add: session_eval)
  then obtain sl1 cb cs where 1: "into_ssl sample_conn sample_config ''ex.org'' 5 [] = (Ok sl1, [])"
    "raw_client_session sample_conn sl1 7 = Some (cb, cs)" and v: "verifies_peer sample_conn sl1"
    "issuer (sl_ctx sl1) = Some 1" "\<not> chain_expired cs 6" by blast
  have "\<exists>sl2. into_ssl sample_conn (set_client_session cs sample_config) ''EX.org'' 6 [] = (Ok sl2, []) \<and>
      issuer (sl_ctx sl2) = Some 1"
    by (simp add: session_eval)
  then obtain sl2 where 2: "into_ssl sample_conn (set_client_session cs sample_config) ''EX.org'' 6 [] = (Ok sl2, [])"
    "issuer (sl_ctx sl2) = Some 1" by blast
  have e1: "eq_ignore_ascii_case ''ex.org'' ''EX.org''" by code_simp
  have e: "effective_sni sample_conn sample_config ''ex.org''"
    "effective_sni sample_conn sample_config ''EX.org''" "cc_verify_hostname sample_config"
    "SSL_get0_session_id_context sample_conn (sl_raw (cc_ssl sample_config)) = Some (id_context sample_conn 7)"
    "sl_peer (cc_ssl sample_config) = None" "cv_offer (sl_raw (cc_ssl sample_config)) = None"
    by (simp_all add: session_eval)
  from session_offered_iff_it_matches [OF sample_conn_ok sample_ip_ok 1(1) e(5) refl 1(2) 2(1) e(6)]
  have "cv_offer (sl_raw sl2) = Some 7" using e e1 v 2(2) by simp
  with 1 2 show ?thesis by blast
qed

end
