(* ===== verification/Connector.thy ===== *)
theory Connector
  imports Client_Session Ssl_Stream
begin

text \<open>
  \<open>SslConnector\<close> and \<open>SslAcceptor\<close> of \<open>btls/src/ssl/connector.rs\<close>: the contexts they configure through
  \<open>SslContextBuilder\<close> (\<open>btls/src/ssl/mod.rs\<close>), and the connections they make. The \<open>SSL_CTX\<close> functions and
  the constants of the bindings are the record \<open>ctx_api\<close>.
\<close>

section \<open>Context builders\<close>

text \<open>The flags of \<open>SslOptions\<close> and \<open>SslMode\<close> that are used, as the bindings number them.\<close>

record ssl_flags =
  OP_ALL :: "32 word"
  OP_NO_COMPRESSION :: "32 word"
  OP_NO_SSLV2 :: "32 word"
  OP_NO_SSLV3 :: "32 word"
  OP_NO_TLSV1 :: "32 word"
  OP_NO_TLSV1_1 :: "32 word"
  OP_NO_TLSV1_3 :: "32 word"
  OP_SINGLE_DH_USE :: "32 word"
  OP_SINGLE_ECDH_USE :: "32 word"
  OP_CIPHER_SERVER_PREFERENCE :: "32 word"
  OP_DONT_INSERT_EMPTY_FRAGMENTS :: "32 word"
  MODE_AUTO_RETRY :: "32 word"
  MODE_ACCEPT_MOVING_WRITE_BUFFER :: "32 word"
  MODE_ENABLE_PARTIAL_WRITE :: "32 word"
  MODE_RELEASE_BUFFERS :: "32 word"

text \<open>\<open>'b\<close> is \<open>SSL_CTX\<close>, \<open>'d\<close> \<open>DH\<close>; \<open>PEM_read_bio_DHparams\<close> reads a memory BIO over the given bytes,
  whose length has a C type with the maximum \<open>mem_buf_len_max\<close>.\<close>

record ('b, 'd) ctx_api =
  flags :: ssl_flags
  SSL_CTX_new :: "nat \<Rightarrow> err_queue \<Rightarrow> 'b option \<times> err_queue"
  SSL_CTX_set_options :: "32 word \<Rightarrow> 'b \<Rightarrow> 32 word \<times> 'b"
  SSL_CTX_set_mode :: "32 word \<Rightarrow> 'b \<Rightarrow> 32 word \<times> 'b"
  SSL_CTX_set_verify :: "int \<Rightarrow> 'b \<Rightarrow> 'b"
  SSL_CTX_set_default_verify_paths :: "'b \<Rightarrow> err_queue \<Rightarrow> (int \<times> unit) \<times> 'b \<times> err_queue"
  SSL_CTX_set_cipher_list :: "string \<Rightarrow> 'b \<Rightarrow> err_queue \<Rightarrow> (int \<times> unit) \<times> 'b \<times> err_queue"
  SSL_CTX_set_tmp_dh :: "'d \<Rightarrow> 'b \<Rightarrow> err_queue \<Rightarrow> (int \<times> unit) \<times> 'b \<times> err_queue"
  BIO_new_mem_buf :: "string \<Rightarrow> nat \<Rightarrow> err_queue \<Rightarrow> string option \<times> err_queue"
  PEM_read_bio_DHparams :: "string \<Rightarrow> err_queue \<Rightarrow> 'd option \<times> err_queue"
  OpenSSL_version_num :: int
  VERIFY_PEER :: int
  mem_buf_len_max :: nat
  ctx_err_lib_none :: "32 word"

text \<open>\<open>SslMethod\<close>: BoringSSL's method, and whether it uses X.509.\<close>

record ssl_method =
  m_ptr :: nat
  m_x509 :: bool

record 'b ctx_builder =
  bd_raw :: 'b
  bd_x509 :: bool

definition on_bd ::
    "('b \<Rightarrow> err_queue \<Rightarrow> (int \<times> 'a) \<times> 'b \<times> err_queue)
     \<Rightarrow> 'b ctx_builder \<Rightarrow> err_queue \<Rightarrow> (int \<times> 'a) \<times> 'b ctx_builder \<times> err_queue" where
  "on_bd f bd q = (case f (bd_raw bd) q of (r, b, q') \<Rightarrow> (r, bd\<lparr>bd_raw := b\<rparr>, q'))"

definition builder_check_x509 :: "('b ctx_builder, unit) eff" where
  "builder_check_x509 =
     ebind (eget bd_x509) (\<lambda>b. eassert b ''This context is not configured for X.509 certificates'')"

text \<open>A constructor: allocate, then configure the new object, which is dropped on an error.\<close>

definition ctx_builder_new ::
    "('b, 'd) ctx_api \<Rightarrow> ssl_method \<Rightarrow> err_queue \<Rightarrow> 'b ctx_builder eresult \<times> err_queue" where
  "ctx_builder_new B m q =
     (case SSL_CTX_new B (m_ptr m) q of (p, q1) \<Rightarrow>
        case cvt_p p q1 of
          (Inl es, q') \<Rightarrow> (Err es, q')
        | (Inr b, q') \<Rightarrow>
            (let bd = \<lparr>bd_raw = b, bd_x509 = False\<rparr> in
             (Ok (if m_x509 m then bd\<lparr>bd_x509 := True\<rparr> else bd), q')))"

definition ctx_set_options :: "('b, 'd) ctx_api \<Rightarrow> 32 word \<Rightarrow> ('b ctx_builder, 32 word) eff" where
  "ctx_set_options B option bd q =
     (case SSL_CTX_set_options B option (bd_raw bd) of (bits, b) \<Rightarrow> (Ok bits, bd\<lparr>bd_raw := b\<rparr>, q))"

definition ctx_set_mode :: "('b, 'd) ctx_api \<Rightarrow> 32 word \<Rightarrow> ('b ctx_builder, 32 word) eff" where
  "ctx_set_mode B mode bd q =
     (case SSL_CTX_set_mode B mode (bd_raw bd) of (bits, b) \<Rightarrow> (Ok bits, bd\<lparr>bd_raw := b\<rparr>, q))"

definition ctx_set_verify :: "('b, 'd) ctx_api \<Rightarrow> int \<Rightarrow> ('b ctx_builder, unit) eff" where
  "ctx_set_verify B mode =
     ethen builder_check_x509 (eput (\<lambda>bd. bd\<lparr>bd_raw := SSL_CTX_set_verify B mode (bd_raw bd)\<rparr>))"

definition ctx_set_default_verify_paths :: "('b, 'd) ctx_api \<Rightarrow> ('b ctx_builder, unit) eff" where
  "ctx_set_default_verify_paths B =
     ethen builder_check_x509 (ecvt (on_bd (SSL_CTX_set_default_verify_paths B)))"

definition ctx_set_cipher_list :: "('b, 'd) ctx_api \<Rightarrow> string \<Rightarrow> ('b ctx_builder, unit) eff" where
  "ctx_set_cipher_list B cipher_list =
     ebind (ecstring (ctx_err_lib_none B) cipher_list) (\<lambda>c. ecvt (on_bd (SSL_CTX_set_cipher_list B c)))"

definition ctx_set_tmp_dh :: "('b, 'd) ctx_api \<Rightarrow> 'd \<Rightarrow> ('b ctx_builder, unit) eff" where
  "ctx_set_tmp_dh B dh = ecvt (on_bd (SSL_CTX_set_tmp_dh B dh))"

text \<open>\<open>MemBioSlice::new\<close> and \<open>Dh::params_from_pem\<close>, an instance of \<open>from_pem!\<close>.\<close>

definition mem_bio_slice_new :: "('b, 'd) ctx_api \<Rightarrow> string \<Rightarrow> ('s, string) eff" where
  "mem_bio_slice_new B buf =
     ebind (etry_int (mem_buf_len_max B) (ctx_err_lib_none B) (length buf)) (\<lambda>n. ecvt_p (BIO_new_mem_buf B buf n))"

definition params_from_pem :: "('b, 'd) ctx_api \<Rightarrow> string \<Rightarrow> ('s, 'd) eff" where
  "params_from_pem B pem = ebind (mem_bio_slice_new B pem) (\<lambda>bio. ecvt_p (PEM_read_bio_DHparams B bio))"

section \<open>The contexts of connectors and acceptors\<close>

definition base_options :: "ssl_flags \<Rightarrow> 32 word" where
  "base_options f =
     (OP_ALL f OR OP_NO_COMPRESSION f OR OP_NO_SSLV2 f OR OP_NO_SSLV3 f OR OP_SINGLE_DH_USE f OR
      OP_SINGLE_ECDH_USE f) AND NOT (OP_DONT_INSERT_EMPTY_FRAGMENTS f)"

definition base_mode :: "ssl_flags \<Rightarrow> int \<Rightarrow> 32 word" where
  "base_mode f version =
     (let mode = MODE_AUTO_RETRY f OR MODE_ACCEPT_MOVING_WRITE_BUFFER f OR MODE_ENABLE_PARTIAL_WRITE f in
      if version \<ge> 0x10001080 then mode OR MODE_RELEASE_BUFFERS f else mode)"

text \<open>\<open>ctx\<close>: a new builder with the options and modes that both sides share.\<close>

definition configure_ctx :: "('b, 'd) ctx_api \<Rightarrow> ('b ctx_builder, unit) eff" where
  "configure_ctx B =
     ethen (ctx_set_options B (base_options (flags B)))
       (ethen (ctx_set_mode B (base_mode (flags B) (OpenSSL_version_num B))) (eret ()))"

text \<open>A new builder, configured by \<open>ctx\<close> and by \<open>rest\<close>.\<close>

definition new_ctx ::
    "('b, 'd) ctx_api \<Rightarrow> ssl_method \<Rightarrow> ('b ctx_builder, unit) eff \<Rightarrow> err_queue
     \<Rightarrow> 'b ctx_builder eresult \<times> err_queue" where
  "new_ctx B m rest q =
     (case ctx_builder_new B m q of
        (Ok bd, q') \<Rightarrow> erun (ethen (configure_ctx B) (ethen rest (eget (\<lambda>bd. bd)))) bd q'
      | (Err es, q') \<Rightarrow> (Err es, q')
      | (Panicked p, q') \<Rightarrow> (Panicked p, q'))"

definition default_ciphers :: string where
  "default_ciphers = ''DEFAULT:!aNULL:!eNULL:!MD5:!3DES:!DES:!RC4:!IDEA:!SEED:!aDSS:!SRP:!PSK''"

definition connector_builder ::
    "('b, 'd) ctx_api \<Rightarrow> ssl_method \<Rightarrow> err_queue \<Rightarrow> 'b ctx_builder eresult \<times> err_queue" where
  "connector_builder B m =
     new_ctx B m
       (ethen (ctx_set_default_verify_paths B)
         (ethen (ctx_set_cipher_list B default_ciphers) (ctx_set_verify B (VERIFY_PEER B))))"

definition connector_bare_builder ::
    "('b, 'd) ctx_api \<Rightarrow> ssl_method \<Rightarrow> err_queue \<Rightarrow> 'b ctx_builder eresult \<times> err_queue" where
  "connector_bare_builder B m = new_ctx B m (ctx_set_cipher_list B default_ciphers)"

definition FFDHE_2048 :: string where
  "FFDHE_2048 = concat (map (\<lambda>l. l @ [CHR 0x0A])
    [[],
     ''-----BEGIN DH PARAMETERS-----'',
     ''MIIBCAKCAQEA//////////+t+FRYortKmq/cViAnPTzx2LnFg84tNpWp4TZBFGQz'',
     ''+8yTnc4kmz75fS/jY2MMddj2gbICrsRhetPfHtXV/WVhJDP1H18GbtCFY2VVPe0a'',
     ''87VXE15/V8k1mE8McODmi3fipona8+/och3xWKE2rec1MKzKT0g6eXq8CrGCsyT7'',
     ''YdEIqUuyyOP7uWrat2DX9GgdT0Kj3jlN9K5W7edjcrsZCwenyO4KbXCeAvzhzffi'',
     ''7MA0BM0oNC9hkXL+nOmFg/+OTxIy7vKBg8P+OxtMb61zO7X8vC7CIAXFjvGDfRaD'',
     ''ssbzSibBsu/6iGtCOGEoXJf//////////wIBAg=='',
     ''-----END DH PARAMETERS-----''])"

definition v5_ciphers :: string where
  "v5_ciphers =
     ''ECDHE-ECDSA-AES128-GCM-SHA256:ECDHE-RSA-AES128-GCM-SHA256:ECDHE-ECDSA-AES256-GCM-SHA384:'' @
     ''ECDHE-RSA-AES256-GCM-SHA384:ECDHE-ECDSA-CHACHA20-POLY1305:ECDHE-RSA-CHACHA20-POLY1305:'' @
     ''DHE-RSA-AES128-GCM-SHA256:DHE-RSA-AES256-GCM-SHA384''"

definition intermediate_ciphers :: string where
  "intermediate_ciphers =
     ''ECDHE-ECDSA-CHACHA20-POLY1305:ECDHE-RSA-CHACHA20-POLY1305:ECDHE-ECDSA-AES128-GCM-SHA256:'' @
     ''ECDHE-RSA-AES128-GCM-SHA256:ECDHE-ECDSA-AES256-GCM-SHA384:ECDHE-RSA-AES256-GCM-SHA384:'' @
     ''DHE-RSA-AES128-GCM-SHA256:DHE-RSA-AES256-GCM-SHA384:ECDHE-ECDSA-AES128-SHA256:ECDHE-RSA-AES128-SHA256:'' @
     ''ECDHE-ECDSA-AES128-SHA:ECDHE-RSA-AES256-SHA384:ECDHE-RSA-AES128-SHA:ECDHE-ECDSA-AES256-SHA384:'' @
     ''ECDHE-ECDSA-AES256-SHA:ECDHE-RSA-AES256-SHA:DHE-RSA-AES128-SHA256:DHE-RSA-AES128-SHA:'' @
     ''DHE-RSA-AES256-SHA256:DHE-RSA-AES256-SHA:ECDHE-ECDSA-DES-CBC3-SHA:ECDHE-RSA-DES-CBC3-SHA:'' @
     ''EDH-RSA-DES-CBC3-SHA:AES128-GCM-SHA256:AES256-GCM-SHA384:AES128-SHA256:AES256-SHA256:AES128-SHA:'' @
     ''AES256-SHA:DES-CBC3-SHA:!DSS''"

definition modern_ciphers :: string where
  "modern_ciphers =
     ''ECDHE-ECDSA-AES256-GCM-SHA384:ECDHE-RSA-AES256-GCM-SHA384:ECDHE-ECDSA-CHACHA20-POLY1305:'' @
     ''ECDHE-RSA-CHACHA20-POLY1305:ECDHE-ECDSA-AES128-GCM-SHA256:ECDHE-RSA-AES128-GCM-SHA256:'' @
     ''ECDHE-ECDSA-AES256-SHA384:ECDHE-RSA-AES256-SHA384:ECDHE-ECDSA-AES128-SHA256:ECDHE-RSA-AES128-SHA256''"

definition mozilla_intermediate_v5 ::
    "('b, 'd) ctx_api \<Rightarrow> ssl_method \<Rightarrow> err_queue \<Rightarrow> 'b ctx_builder eresult \<times> err_queue" where
  "mozilla_intermediate_v5 B m =
     new_ctx B m
       (ethen (ctx_set_options B (OP_NO_TLSV1 (flags B) OR OP_NO_TLSV1_1 (flags B)))
         (ebind (params_from_pem B FFDHE_2048) (\<lambda>dh.
           ethen (ctx_set_tmp_dh B dh) (ctx_set_cipher_list B v5_ciphers))))"

definition mozilla_intermediate ::
    "('b, 'd) ctx_api \<Rightarrow> ssl_method \<Rightarrow> err_queue \<Rightarrow> 'b ctx_builder eresult \<times> err_queue" where
  "mozilla_intermediate B m =
     new_ctx B m
       (ethen (ctx_set_options B (OP_CIPHER_SERVER_PREFERENCE (flags B)))
         (ethen (ctx_set_options B (OP_NO_TLSV1_3 (flags B)))
           (ebind (params_from_pem B FFDHE_2048) (\<lambda>dh.
             ethen (ctx_set_tmp_dh B dh) (ctx_set_cipher_list B intermediate_ciphers)))))"

definition mozilla_modern ::
    "('b, 'd) ctx_api \<Rightarrow> ssl_method \<Rightarrow> err_queue \<Rightarrow> 'b ctx_builder eresult \<times> err_queue" where
  "mozilla_modern B m =
     new_ctx B m
       (ethen (ctx_set_options B
           (OP_CIPHER_SERVER_PREFERENCE (flags B) OR OP_NO_TLSV1 (flags B) OR OP_NO_TLSV1_1 (flags B)))
         (ethen (ctx_set_options B (OP_NO_TLSV1_3 (flags B))) (ctx_set_cipher_list B modern_ciphers)))"

section \<open>Connections\<close>

text \<open>
  A built context: BoringSSL's and its extra data. \<open>SSL_new\<close> is an argument, as the type of connections
  is not that of contexts.
\<close>

record ('b, 'f) ssl_context =
  xc_raw :: 'b
  xc_data :: "'f ctx_data"

definition ssl_new ::
    "('b \<Rightarrow> err_queue \<Rightarrow> 's option \<times> err_queue) \<Rightarrow> ('b, 'f) ssl_context \<Rightarrow> err_queue
     \<Rightarrow> (error_stack + ('s, 'f) ssl_conn) \<times> err_queue" where
  "ssl_new SSL_new ctx q =
     (case SSL_new (xc_raw ctx) q of (p, q1) \<Rightarrow>
        case cvt_p p q1 of
          (Inl es, q') \<Rightarrow> (Inl es, q')
        | (Inr s, q') \<Rightarrow>
            (Inr \<lparr>sl_raw = s, sl_ctx = xc_data ctx, sl_session_ctx = Some (xc_data ctx), sl_peer = None\<rparr>, q'))"

definition connector_configure ::
    "('b \<Rightarrow> err_queue \<Rightarrow> 's option \<times> err_queue) \<Rightarrow> ('b, 'f) ssl_context \<Rightarrow> err_queue
     \<Rightarrow> (error_stack + ('s, 'f, 'n) connect_configuration) \<times> err_queue" where
  "connector_configure SSL_new ctx q =
     (case ssl_new SSL_new ctx q of
        (Inl es, q') \<Rightarrow> (Inl es, q')
      | (Inr ssl, q') \<Rightarrow>
          (Inr \<lparr>cc_ssl = ssl, cc_sni = True, cc_verify_hostname = True, cc_session = None\<rparr>, q'))"

text \<open>
  \<open>ConnectConfiguration::setup_connect\<close> and \<open>connect\<close>; the latter reports an error of the setup as
  \<open>SetupFailure\<close>. \<open>alloc\<close> tells whether the BIO of the stream can be allocated.
\<close>

definition configuration_setup_connect ::
    "('s, 'n, 'x) conn_api \<Rightarrow> 's ssl_api \<Rightarrow> bool \<Rightarrow> ('s, 'f, 'n) connect_configuration \<Rightarrow> string \<Rightarrow> int \<Rightarrow> 'w
     \<Rightarrow> err_queue \<Rightarrow> (error_stack + ('s, 'w) mid_handshake) comp" where
  "configuration_setup_connect K E alloc cfg domain now w q =
     (case into_ssl K cfg domain now q of
        (Err es, _) \<Rightarrow> ret (Inl es)
      | (Panicked p, _) \<Rightarrow> panic p
      | (Ok sl, q') \<Rightarrow> bindc (builder_new alloc (sl_raw sl) w q') (\<lambda>st. ret (Inr (setup_connect E st))))"

definition handshake_after ::
    "'s ssl_api \<Rightarrow> 'w stream_ops \<Rightarrow> (error_stack + ('s, 'w) mid_handshake) comp
     \<Rightarrow> (('s, 'w) mid_handshake handshake_error + ('s, 'w) ssl_stream) comp" where
  "handshake_after E W setup =
     bindc setup (\<lambda>r. case r of Inl es \<Rightarrow> ret (Inl (Setup_Failure es)) | Inr mh \<Rightarrow> mid_handshake E W mh)"

definition configuration_connect ::
    "('s, 'n, 'x) conn_api \<Rightarrow> 's ssl_api \<Rightarrow> 'w stream_ops \<Rightarrow> bool \<Rightarrow> ('s, 'f, 'n) connect_configuration \<Rightarrow> string
     \<Rightarrow> int \<Rightarrow> 'w \<Rightarrow> err_queue \<Rightarrow> (('s, 'w) mid_handshake handshake_error + ('s, 'w) ssl_stream) comp" where
  "configuration_connect K E W alloc cfg domain now w q =
     handshake_after E W (configuration_setup_connect K E alloc cfg domain now w q)"

definition connector_setup_connect ::
    "('s, 'n, 'x) conn_api \<Rightarrow> 's ssl_api \<Rightarrow> ('b \<Rightarrow> err_queue \<Rightarrow> 's option \<times> err_queue) \<Rightarrow> bool
     \<Rightarrow> ('b, 'f) ssl_context \<Rightarrow> string \<Rightarrow> int \<Rightarrow> 'w \<Rightarrow> err_queue \<Rightarrow> (error_stack + ('s, 'w) mid_handshake) comp" where
  "connector_setup_connect K E SSL_new alloc ctx domain now w q =
     (case connector_configure SSL_new ctx q of
        (Inl es, _) \<Rightarrow> ret (Inl es)
      | (Inr cfg, q') \<Rightarrow> configuration_setup_connect K E alloc cfg domain now w q')"

definition connector_connect ::
    "('s, 'n, 'x) conn_api \<Rightarrow> 's ssl_api \<Rightarrow> 'w stream_ops \<Rightarrow> ('b \<Rightarrow> err_queue \<Rightarrow> 's option \<times> err_queue) \<Rightarrow> bool
     \<Rightarrow> ('b, 'f) ssl_context \<Rightarrow> string \<Rightarrow> int \<Rightarrow> 'w \<Rightarrow> err_queue
     \<Rightarrow> (('s, 'w) mid_handshake handshake_error + ('s, 'w) ssl_stream) comp" where
  "connector_connect K E W SSL_new alloc ctx domain now w q =
     handshake_after E W (connector_setup_connect K E SSL_new alloc ctx domain now w q)"

definition acceptor_setup_accept ::
    "'s ssl_api \<Rightarrow> ('b \<Rightarrow> err_queue \<Rightarrow> 's option \<times> err_queue) \<Rightarrow> bool \<Rightarrow> ('b, 'f) ssl_context \<Rightarrow> 'w \<Rightarrow> err_queue
     \<Rightarrow> (error_stack + ('s, 'w) mid_handshake) comp" where
  "acceptor_setup_accept E SSL_new alloc ctx w q =
     (case ssl_new SSL_new ctx q of
        (Inl es, _) \<Rightarrow> ret (Inl es)
      | (Inr sl, q') \<Rightarrow> bindc (builder_new alloc (sl_raw sl) w q') (\<lambda>st. ret (Inr (setup_accept E st))))"

definition acceptor_accept ::
    "'s ssl_api \<Rightarrow> 'w stream_ops \<Rightarrow> ('b \<Rightarrow> err_queue \<Rightarrow> 's option \<times> err_queue) \<Rightarrow> bool \<Rightarrow> ('b, 'f) ssl_context
     \<Rightarrow> 'w \<Rightarrow> err_queue \<Rightarrow> (('s, 'w) mid_handshake handshake_error + ('s, 'w) ssl_stream) comp" where
  "acceptor_accept E W SSL_new alloc ctx w q =
     handshake_after E W (acceptor_setup_accept E SSL_new alloc ctx w q)"

section \<open>Specification\<close>

text \<open>What a context has been configured to.\<close>

record ctx_view =
  xv_options :: "32 word"
  xv_mode :: "32 word"
  xv_verify :: int
  xv_default_paths :: bool
  xv_ciphers :: "string option"
  xv_dh :: bool

text \<open>The documented behaviour: options and modes are added; successful calls do what they say.\<close>

definition ctx_spec :: "('b, 'd) ctx_api \<Rightarrow> ('b \<Rightarrow> ctx_view) \<Rightarrow> bool" where
  "ctx_spec B V \<longleftrightarrow>
     (\<forall>x b bits b'. SSL_CTX_set_options B x b = (bits, b') \<longrightarrow> V b' = V b\<lparr>xv_options := xv_options (V b) OR x\<rparr>) \<and>
     (\<forall>x b bits b'. SSL_CTX_set_mode B x b = (bits, b') \<longrightarrow> V b' = V b\<lparr>xv_mode := xv_mode (V b) OR x\<rparr>) \<and>
     (\<forall>x b. V (SSL_CTX_set_verify B x b) = V b\<lparr>xv_verify := x\<rparr>) \<and>
     (\<forall>b q r u b' q'. SSL_CTX_set_default_verify_paths B b q = ((r, u), b', q') \<longrightarrow> 0 < r \<longrightarrow>
        V b' = V b\<lparr>xv_default_paths := True\<rparr>) \<and>
     (\<forall>c b q r u b' q'. SSL_CTX_set_cipher_list B c b q = ((r, u), b', q') \<longrightarrow> 0 < r \<longrightarrow>
        V b' = V b\<lparr>xv_ciphers := Some c\<rparr>) \<and>
     (\<forall>d b q r u b' q'. SSL_CTX_set_tmp_dh B d b q = ((r, u), b', q') \<longrightarrow> 0 < r \<longrightarrow>
        V b' = V b\<lparr>xv_dh := True\<rparr>)"

text \<open>\<open>configures V m f x\<close>: when \<open>m\<close> succeeds it has changed the view by \<open>f\<close>; with X.509 support it does not panic.\<close>

definition configures ::
    "('b \<Rightarrow> ctx_view) \<Rightarrow> ('b ctx_builder, 'a) eff \<Rightarrow> (ctx_view \<Rightarrow> ctx_view) \<Rightarrow> bool \<Rightarrow> bool" where
  "configures V m f x \<longleftrightarrow>
     (\<forall>bd q. (\<forall>u bd' q'. m bd q = (Ok u, bd', q') \<longrightarrow>
                V (bd_raw bd') = f (V (bd_raw bd)) \<and> bd_x509 bd' = bd_x509 bd \<and> (x \<longrightarrow> bd_x509 bd)) \<and>
             (\<forall>p bd' q'. m bd q = (Panicked p, bd', q') \<longrightarrow> x \<and> \<not> bd_x509 bd))"

named_theorems ctx_laws "how the operations of a builder change its view"

lemma configuresI:
  assumes "\<And>bd q u bd' q'. m bd q = (Ok u, bd', q') \<Longrightarrow>
             V (bd_raw bd') = f (V (bd_raw bd)) \<and> bd_x509 bd' = bd_x509 bd \<and> (x \<longrightarrow> bd_x509 bd)"
    and "\<And>bd q p bd' q'. m bd q = (Panicked p, bd', q') \<Longrightarrow> x \<and> \<not> bd_x509 bd"
  shows "configures V m f x"
  using assms unfolding configures_def by blast

lemma configuresD:
  assumes "configures V m f x"
  shows "m bd q = (Ok u, bd', q') \<Longrightarrow>
           V (bd_raw bd') = f (V (bd_raw bd)) \<and> bd_x509 bd' = bd_x509 bd \<and> (x \<longrightarrow> bd_x509 bd)"
    and "m bd q = (Panicked p, bd', q') \<Longrightarrow> x \<and> \<not> bd_x509 bd"
  using assms unfolding configures_def by blast+

lemma configures_bind [ctx_laws]:
  assumes "configures V m f x" and "\<And>a. configures V (n a) g y"
  shows "configures V (ebind m n) (g \<circ> f) (x \<or> y)"
proof (rule configuresI)
  fix bd q u bd' q'
  assume "ebind m n bd q = (Ok u, bd', q')"
  then obtain v bd1 q1 where "m bd q = (Ok v, bd1, q1)" "n v bd1 q1 = (Ok u, bd', q')" by (auto simp: ebind_eq_ok)
  from configuresD(1) [OF assms(1) this(1)] configuresD(1) [OF assms(2) this(2)]
  show "V (bd_raw bd') = (g \<circ> f) (V (bd_raw bd)) \<and> bd_x509 bd' = bd_x509 bd \<and> (x \<or> y \<longrightarrow> bd_x509 bd)" by auto
next
  fix bd q p bd' q'
  assume "ebind m n bd q = (Panicked p, bd', q')"
  then consider "m bd q = (Panicked p, bd', q')"
    | v bd1 q1 where "m bd q = (Ok v, bd1, q1)" "n v bd1 q1 = (Panicked p, bd', q')"
    by (auto simp: eff_panic)
  then show "(x \<or> y) \<and> \<not> bd_x509 bd"
  proof cases
    case 1
    from configuresD(2) [OF assms(1) 1] show ?thesis by blast
  next
    case 2
    from configuresD(1) [OF assms(1) 2(1)] configuresD(2) [OF assms(2) 2(2)] show ?thesis by auto
  qed
qed

lemma configures_then [ctx_laws]:
  "configures V m f x \<Longrightarrow> configures V n g y \<Longrightarrow> configures V (ethen m n) (g \<circ> f) (x \<or> y)"
  unfolding ethen_def by (rule configures_bind)

lemma configures_pure [ctx_laws]:
  "configures V (eret a) id False" "configures V (ecvt_p f) id False" "configures V (etry_int mx e n) id False"
  "configures V (ecstring e s) id False" "configures V builder_check_x509 id True"
  by (auto simp: configures_def ecvt_p_def cvt_p_def fail_stack_def etry_int_def ecstring_def
      builder_check_x509_def eassert_def ebind_def split: prod.splits option.splits if_splits)

lemma on_bd_eq: "on_bd f bd q = (r, bd', q') \<longleftrightarrow> (\<exists>b. f (bd_raw bd) q = (r, b, q') \<and> bd' = bd\<lparr>bd_raw := b\<rparr>)"
  by (auto simp: on_bd_def split: prod.splits)

lemma configures_call:
  assumes "\<And>b q r u b' q'. f b q = ((r, u), b', q') \<Longrightarrow> 0 < r \<Longrightarrow> V b' = g (V b)"
  shows "configures V (ecvt (on_bd f)) g False"
  using assms by (auto simp: configures_def ecvt_eq_ok on_bd_eq)

lemma configures_ops [ctx_laws]:
  assumes "ctx_spec B V"
  shows "configures V (ctx_set_options B x) (\<lambda>v. v\<lparr>xv_options := xv_options v OR x\<rparr>) False"
    and "configures V (ctx_set_mode B x) (\<lambda>v. v\<lparr>xv_mode := xv_mode v OR x\<rparr>) False"
    and "configures V (ctx_set_verify B y) ((\<lambda>v. v\<lparr>xv_verify := y\<rparr>) \<circ> id) (True \<or> False)"
    and "configures V (ctx_set_default_verify_paths B) ((\<lambda>v. v\<lparr>xv_default_paths := True\<rparr>) \<circ> id) (True \<or> False)"
    and "configures V (ecvt (on_bd (SSL_CTX_set_cipher_list B c))) (\<lambda>v. v\<lparr>xv_ciphers := Some c\<rparr>) False"
    and "configures V (ctx_set_tmp_dh B d) (\<lambda>v. v\<lparr>xv_dh := True\<rparr>) False"
proof -
  note c = assms [unfolded ctx_spec_def]
  show "configures V (ctx_set_options B x) (\<lambda>v. v\<lparr>xv_options := xv_options v OR x\<rparr>) False"
    using c [THEN conjunct1] by (auto simp: configures_def ctx_set_options_def split: prod.splits)
  show "configures V (ctx_set_mode B x) (\<lambda>v. v\<lparr>xv_mode := xv_mode v OR x\<rparr>) False"
    using c [THEN conjunct2, THEN conjunct1] by (auto simp: configures_def ctx_set_mode_def split: prod.splits)
  have "configures V (eput (\<lambda>bd. bd\<lparr>bd_raw := SSL_CTX_set_verify B y (bd_raw bd)\<rparr>)) (\<lambda>v. v\<lparr>xv_verify := y\<rparr>) False"
    using c [THEN conjunct2, THEN conjunct2, THEN conjunct1] by (simp add: configures_def)
  then show "configures V (ctx_set_verify B y) ((\<lambda>v. v\<lparr>xv_verify := y\<rparr>) \<circ> id) (True \<or> False)"
    unfolding ctx_set_verify_def by (intro ctx_laws)
  have "configures V (ecvt (on_bd (SSL_CTX_set_default_verify_paths B))) (\<lambda>v. v\<lparr>xv_default_paths := True\<rparr>) False"
    using c [THEN conjunct2, THEN conjunct2, THEN conjunct2, THEN conjunct1, rule_format] by (rule configures_call)
  then show "configures V (ctx_set_default_verify_paths B) ((\<lambda>v. v\<lparr>xv_default_paths := True\<rparr>) \<circ> id) (True \<or> False)"
    unfolding ctx_set_default_verify_paths_def by (intro ctx_laws)
  show "configures V (ecvt (on_bd (SSL_CTX_set_cipher_list B c))) (\<lambda>v. v\<lparr>xv_ciphers := Some c\<rparr>) False"
    using c [THEN conjunct2, THEN conjunct2, THEN conjunct2, THEN conjunct2, THEN conjunct1, rule_format]
    by (rule configures_call)
  show "configures V (ctx_set_tmp_dh B d) (\<lambda>v. v\<lparr>xv_dh := True\<rparr>) False"
    unfolding ctx_set_tmp_dh_def
    using c [THEN conjunct2, THEN conjunct2, THEN conjunct2, THEN conjunct2, THEN conjunct2, rule_format]
    by (rule configures_call)
qed

lemma configures_derived [ctx_laws]:
  assumes "ctx_spec B V"
  shows "configures V (params_from_pem B pem) id False"
    and "configures V (configure_ctx B)
           (\<lambda>v. v\<lparr>xv_options := xv_options v OR base_options (flags B),
                  xv_mode := xv_mode v OR base_mode (flags B) (OpenSSL_version_num B)\<rparr>) False"
    and "CHR 0x00 \<notin> set c \<Longrightarrow> configures V (ctx_set_cipher_list B c) (\<lambda>v. v\<lparr>xv_ciphers := Some c\<rparr>) False"
proof -
  show "configures V (params_from_pem B pem) id False"
    using configures_bind [OF configures_bind [OF configures_pure(3) configures_pure(2)] configures_pure(2)]
    by (simp add: params_from_pem_def mem_bio_slice_new_def)
  show "configures V (configure_ctx B)
           (\<lambda>v. v\<lparr>xv_options := xv_options v OR base_options (flags B),
                  xv_mode := xv_mode v OR base_mode (flags B) (OpenSSL_version_num B)\<rparr>) False"
    using configures_then [OF configures_ops(1) [OF assms]
        configures_then [OF configures_ops(2) [OF assms] configures_pure(1)]]
    by (simp add: configure_ctx_def comp_def)
  show "configures V (ctx_set_cipher_list B c) (\<lambda>v. v\<lparr>xv_ciphers := Some c\<rparr>) False" if "CHR 0x00 \<notin> set c"
  proof -
    have "ctx_set_cipher_list B c = ecvt (on_bd (SSL_CTX_set_cipher_list B c))"
      using that by (intro ext) (simp add: ctx_set_cipher_list_def ecstring_def)
    with configures_ops(5) [OF assms] show ?thesis by simp
  qed
qed

text \<open>A context that \<open>ctx\<close> and \<open>rest\<close> configured.\<close>

definition base_view :: "('b, 'd) ctx_api \<Rightarrow> ctx_view \<Rightarrow> ctx_view" where
  "base_view B v =
     v\<lparr>xv_options := xv_options v OR base_options (flags B),
       xv_mode := xv_mode v OR base_mode (flags B) (OpenSSL_version_num B)\<rparr>"

lemma new_ctx_ok:
  assumes "ctx_spec B V" and "configures V rest g x" and "new_ctx B m rest q = (r, q')"
  shows "case r of
           Ok bd \<Rightarrow> (\<exists>v. V (bd_raw bd) = g (base_view B v)) \<and> bd_x509 bd = m_x509 m \<and> (x \<longrightarrow> m_x509 m)
         | Err es \<Rightarrow> True
         | Panicked p \<Rightarrow> x \<and> \<not> m_x509 m"
proof (cases "ctx_builder_new B m q")
  case (Pair r0 q0)
  let ?m = "ethen (configure_ctx B) rest"
  from configures_then [OF configures_derived(2) [OF assms(1)] assms(2)]
  have c: "configures V ?m (g \<circ> base_view B) (False \<or> x)" by (simp add: base_view_def comp_def)
  show ?thesis
  proof (cases r0)
    case (Ok bd0)
    with Pair have x0: "bd_x509 bd0 = m_x509 m"
      by (cases "m_x509 m") (auto simp: ctx_builder_new_def Let_def split: prod.splits sum.splits)
    show ?thesis
    proof (cases r)
      case O: (Ok bd)
      with assms(3) Pair Ok obtain u q2 where "?m bd0 q0 = (Ok u, bd, q2)"
        by (auto simp: new_ctx_def erun_def ethen_eq_ok split: prod.splits)
      from configuresD(1) [OF c this] x0 O show ?thesis by auto
    next
      case (Panicked p)
      with assms(3) Pair Ok obtain bd2 q2 where "?m bd0 q0 = (Panicked p, bd2, q2)"
        by (auto simp: new_ctx_def erun_def eff_panic ethen_eq_ok split: prod.splits)
      from configuresD(2) [OF c this] x0 Panicked show ?thesis by simp
    qed simp
  next
    case (Err es)
    with assms(3) Pair show ?thesis by (auto simp: new_ctx_def)
  next
    case (Panicked p)
    with Pair show ?thesis by (auto simp: ctx_builder_new_def Let_def split: prod.splits sum.splits)
  qed
qed

text \<open>Options that were added are there.\<close>

definition has_options :: "32 word \<Rightarrow> ctx_view \<Rightarrow> bool" where
  "has_options x v \<longleftrightarrow> xv_options v AND x = x"

lemma has_options_or [simp]:
  fixes x y z :: "32 word"
  shows "(y OR x) AND x = x" "y AND x = x \<Longrightarrow> (y OR z) AND x = x" "((y OR (z OR x)) AND x) = x"
    "(y OR (x OR z)) AND x = x"
  by (auto simp: bit_eq_iff bit_simps)

lemma ciphers_no_nul:
  "CHR 0x00 \<notin> set default_ciphers" "CHR 0x00 \<notin> set v5_ciphers" "CHR 0x00 \<notin> set intermediate_ciphers"
  "CHR 0x00 \<notin> set modern_ciphers"
  by (simp_all add: default_ciphers_def v5_ciphers_def intermediate_ciphers_def modern_ciphers_def)

section \<open>Properties\<close>

text \<open>
  C20: A connector that \<open>SslConnector::builder\<close> configures verifies the peer against the default paths, uses
  the default cipher list and has the options of \<open>ctx\<close>, among them no SSL 2 and 3, and not the one that
  is taken out. The constructor panics only for a method without X.509; the bare builder never does, and
  sets the cipher list and the options.
\<close>

theorem connector_verifies_peer:
  assumes "ctx_spec B V"
  shows "(case fst (connector_builder B m q) of
            Ok bd \<Rightarrow> xv_verify (V (bd_raw bd)) = VERIFY_PEER B \<and> xv_default_paths (V (bd_raw bd)) \<and>
              xv_ciphers (V (bd_raw bd)) = Some default_ciphers \<and>
              has_options (base_options (flags B)) (V (bd_raw bd)) \<and> bd_x509 bd
          | Err es \<Rightarrow> True
          | Panicked p \<Rightarrow> \<not> m_x509 m) \<and>
         (case fst (connector_bare_builder B m q) of
            Ok bd \<Rightarrow> xv_ciphers (V (bd_raw bd)) = Some default_ciphers \<and>
              has_options (base_options (flags B)) (V (bd_raw bd))
          | Err es \<Rightarrow> True
          | Panicked p \<Rightarrow> False) \<and>
         base_options (flags B) AND OP_DONT_INSERT_EMPTY_FRAGMENTS (flags B) = 0"
proof (intro conjI)
  note list = configures_derived(3) [OF assms ciphers_no_nul(1)]
  note rest = configures_then [OF configures_ops(4) [OF assms] configures_then [OF list configures_ops(3) [OF assms]]]
  obtain r q' where 1: "connector_builder B m q = (r, q')" by fastforce
  from new_ctx_ok [OF assms rest 1 [unfolded connector_builder_def]]
  show "case fst (connector_builder B m q) of
            Ok bd \<Rightarrow> xv_verify (V (bd_raw bd)) = VERIFY_PEER B \<and> xv_default_paths (V (bd_raw bd)) \<and>
              xv_ciphers (V (bd_raw bd)) = Some default_ciphers \<and>
              has_options (base_options (flags B)) (V (bd_raw bd)) \<and> bd_x509 bd
          | Err es \<Rightarrow> True
          | Panicked p \<Rightarrow> \<not> m_x509 m"
    unfolding 1 by (auto simp: base_view_def has_options_def split: eresult.splits)
  obtain r' q'' where 2: "connector_bare_builder B m q = (r', q'')" by fastforce
  from new_ctx_ok [OF assms list 2 [unfolded connector_bare_builder_def]]
  show "case fst (connector_bare_builder B m q) of
            Ok bd \<Rightarrow> xv_ciphers (V (bd_raw bd)) = Some default_ciphers \<and>
              has_options (base_options (flags B)) (V (bd_raw bd))
          | Err es \<Rightarrow> True
          | Panicked p \<Rightarrow> False"
    unfolding 2 by (auto simp: base_view_def has_options_def split: eresult.splits)
  show "base_options (flags B) AND OP_DONT_INSERT_EMPTY_FRAGMENTS (flags B) = 0"
    by (auto simp: base_options_def bit_eq_iff bit_simps)
qed

text \<open>
  The acceptors never panic. The contexts they make have the options of \<open>ctx\<close> and their cipher list;
  the intermediate ones have Diffie-Hellman parameters; version 5 and the modern one refuse TLS 1.0 and 1.1;
  the older two refuse TLS 1.3 and prefer the server's ciphers.
\<close>

lemma acceptors_configured:
  assumes "ctx_spec B V"
  shows "(case fst (mozilla_intermediate_v5 B m q) of
            Ok bd \<Rightarrow> has_options (base_options (flags B)) (V (bd_raw bd)) \<and>
              has_options (OP_NO_TLSV1 (flags B)) (V (bd_raw bd)) \<and> has_options (OP_NO_TLSV1_1 (flags B)) (V (bd_raw bd)) \<and>
              xv_dh (V (bd_raw bd)) \<and> xv_ciphers (V (bd_raw bd)) = Some v5_ciphers
          | Err es \<Rightarrow> True | Panicked p \<Rightarrow> False) \<and>
         (case fst (mozilla_intermediate B m q) of
            Ok bd \<Rightarrow> has_options (base_options (flags B)) (V (bd_raw bd)) \<and>
              has_options (OP_NO_TLSV1_3 (flags B)) (V (bd_raw bd)) \<and>
              has_options (OP_CIPHER_SERVER_PREFERENCE (flags B)) (V (bd_raw bd)) \<and>
              xv_dh (V (bd_raw bd)) \<and> xv_ciphers (V (bd_raw bd)) = Some intermediate_ciphers
          | Err es \<Rightarrow> True | Panicked p \<Rightarrow> False) \<and>
         (case fst (mozilla_modern B m q) of
            Ok bd \<Rightarrow> has_options (base_options (flags B)) (V (bd_raw bd)) \<and>
              has_options (OP_NO_TLSV1 (flags B)) (V (bd_raw bd)) \<and> has_options (OP_NO_TLSV1_1 (flags B)) (V (bd_raw bd)) \<and>
              has_options (OP_NO_TLSV1_3 (flags B)) (V (bd_raw bd)) \<and>
              has_options (OP_CIPHER_SERVER_PREFERENCE (flags B)) (V (bd_raw bd)) \<and>
              xv_ciphers (V (bd_raw bd)) = Some modern_ciphers
          | Err es \<Rightarrow> True | Panicked p \<Rightarrow> False)"
proof (intro conjI)
  note ops = configures_ops [OF assms] configures_derived(1) [OF assms]
  note list = configures_derived(3) [OF assms]
  note v5 = configures_then [OF ops(1) configures_bind [OF ops(7)
      configures_then [OF ops(6) list [OF ciphers_no_nul(2)]]]]
  obtain r q' where 1: "mozilla_intermediate_v5 B m q = (r, q')" by fastforce
  from new_ctx_ok [OF assms v5 1 [unfolded mozilla_intermediate_v5_def]]
  show "case fst (mozilla_intermediate_v5 B m q) of
            Ok bd \<Rightarrow> has_options (base_options (flags B)) (V (bd_raw bd)) \<and>
              has_options (OP_NO_TLSV1 (flags B)) (V (bd_raw bd)) \<and> has_options (OP_NO_TLSV1_1 (flags B)) (V (bd_raw bd)) \<and>
              xv_dh (V (bd_raw bd)) \<and> xv_ciphers (V (bd_raw bd)) = Some v5_ciphers
          | Err es \<Rightarrow> True | Panicked p \<Rightarrow> False"
    unfolding 1 by (auto simp: base_view_def has_options_def split: eresult.splits)
  note im = configures_then [OF ops(1) configures_then [OF ops(1) configures_bind [OF ops(7)
      configures_then [OF ops(6) list [OF ciphers_no_nul(3)]]]]]
  obtain r' q'' where 2: "mozilla_intermediate B m q = (r', q'')" by fastforce
  from new_ctx_ok [OF assms im 2 [unfolded mozilla_intermediate_def]]
  show "case fst (mozilla_intermediate B m q) of
            Ok bd \<Rightarrow> has_options (base_options (flags B)) (V (bd_raw bd)) \<and>
              has_options (OP_NO_TLSV1_3 (flags B)) (V (bd_raw bd)) \<and>
              has_options (OP_CIPHER_SERVER_PREFERENCE (flags B)) (V (bd_raw bd)) \<and>
              xv_dh (V (bd_raw bd)) \<and> xv_ciphers (V (bd_raw bd)) = Some intermediate_ciphers
          | Err es \<Rightarrow> True | Panicked p \<Rightarrow> False"
    unfolding 2 by (auto simp: base_view_def has_options_def split: eresult.splits)
  note mo = configures_then [OF ops(1) configures_then [OF ops(1) list [OF ciphers_no_nul(4)]]]
  obtain r3 q3 where 3: "mozilla_modern B m q = (r3, q3)" by fastforce
  from new_ctx_ok [OF assms mo 3 [unfolded mozilla_modern_def]]
  show "case fst (mozilla_modern B m q) of
            Ok bd \<Rightarrow> has_options (base_options (flags B)) (V (bd_raw bd)) \<and>
              has_options (OP_NO_TLSV1 (flags B)) (V (bd_raw bd)) \<and> has_options (OP_NO_TLSV1_1 (flags B)) (V (bd_raw bd)) \<and>
              has_options (OP_NO_TLSV1_3 (flags B)) (V (bd_raw bd)) \<and>
              has_options (OP_CIPHER_SERVER_PREFERENCE (flags B)) (V (bd_raw bd)) \<and>
              xv_ciphers (V (bd_raw bd)) = Some modern_ciphers
          | Err es \<Rightarrow> True | Panicked p \<Rightarrow> False"
    unfolding 3 by (auto simp: base_view_def has_options_def bit_eq_iff bit_simps split: eresult.splits)
qed

section \<open>A sample context\<close>

text \<open>The context is its own view; every call succeeds; each flag is a bit.\<close>

definition sample_ctx :: "(ctx_view, unit) ctx_api" where
  "sample_ctx =
     \<lparr>flags = \<lparr>OP_ALL = 1, OP_NO_COMPRESSION = 2, OP_NO_SSLV2 = 4, OP_NO_SSLV3 = 8, OP_NO_TLSV1 = 16,
        OP_NO_TLSV1_1 = 32, OP_NO_TLSV1_3 = 64, OP_SINGLE_DH_USE = 128, OP_SINGLE_ECDH_USE = 256,
        OP_CIPHER_SERVER_PREFERENCE = 512, OP_DONT_INSERT_EMPTY_FRAGMENTS = 1024, MODE_AUTO_RETRY = 1,
        MODE_ACCEPT_MOVING_WRITE_BUFFER = 2, MODE_ENABLE_PARTIAL_WRITE = 4, MODE_RELEASE_BUFFERS = 8\<rparr>,
      SSL_CTX_new = (\<lambda>m q. (Some \<lparr>xv_options = 0, xv_mode = 0, xv_verify = 0, xv_default_paths = False,
        xv_ciphers = None, xv_dh = False\<rparr>, q)),
      SSL_CTX_set_options = (\<lambda>x b. (xv_options b OR x, b\<lparr>xv_options := xv_options b OR x\<rparr>)),
      SSL_CTX_set_mode = (\<lambda>x b. (xv_mode b OR x, b\<lparr>xv_mode := xv_mode b OR x\<rparr>)),
      SSL_CTX_set_verify = (\<lambda>x b. b\<lparr>xv_verify := x\<rparr>),
      SSL_CTX_set_default_verify_paths = (\<lambda>b q. ((1, ()), b\<lparr>xv_default_paths := True\<rparr>, q)),
      SSL_CTX_set_cipher_list = (\<lambda>c b q. ((1, ()), b\<lparr>xv_ciphers := Some c\<rparr>, q)),
      SSL_CTX_set_tmp_dh = (\<lambda>d b q. ((1, ()), b\<lparr>xv_dh := True\<rparr>, q)),
      BIO_new_mem_buf = (\<lambda>buf n q. (Some buf, q)), PEM_read_bio_DHparams = (\<lambda>bio q. (Some (), q)),
      OpenSSL_version_num = 0x1010107f, VERIFY_PEER = 1, mem_buf_len_max = 2 ^ 63 - 1, ctx_err_lib_none = 1\<rparr>"

lemma sample_ctx_ok: "ctx_spec sample_ctx (\<lambda>b. b)"
  by (simp add: ctx_spec_def sample_ctx_def)

lemmas ctx_eval = connector_builder_def connector_bare_builder_def mozilla_modern_def new_ctx_def ctx_builder_new_def
  configure_ctx_def ctx_set_options_def ctx_set_mode_def ctx_set_verify_def ctx_set_default_verify_paths_def
  ctx_set_cipher_list_def builder_check_x509_def ecstring_def on_bd_def erun_def ebind_def ethen_def ecvt_def
  cvt_def cvt_p_def eassert_def Let_def sample_ctx_def ciphers_no_nul

theorem connector_verifies_peer_witness:
  "(\<exists>bd. fst (connector_builder sample_ctx \<lparr>m_ptr = 0, m_x509 = True\<rparr> []) = Ok bd \<and> xv_verify (bd_raw bd) = 1) \<and>
   (\<exists>p. fst (connector_builder sample_ctx \<lparr>m_ptr = 0, m_x509 = False\<rparr> []) = Panicked p)"
proof
  have "\<exists>bd. fst (connector_builder sample_ctx \<lparr>m_ptr = 0, m_x509 = True\<rparr> []) = Ok bd"
    by (simp add: ctx_eval)
  then obtain bd where b: "fst (connector_builder sample_ctx \<lparr>m_ptr = 0, m_x509 = True\<rparr> []) = Ok bd" by blast
  from connector_verifies_peer [OF sample_ctx_ok, of "\<lparr>m_ptr = 0, m_x509 = True\<rparr>" "[]"] b
  have "xv_verify (bd_raw bd) = VERIFY_PEER sample_ctx" by simp
  with b show "\<exists>bd. fst (connector_builder sample_ctx \<lparr>m_ptr = 0, m_x509 = True\<rparr> []) = Ok bd \<and> xv_verify (bd_raw bd) = 1"
    by (simp add: sample_ctx_def)
  show "\<exists>p. fst (connector_builder sample_ctx \<lparr>m_ptr = 0, m_x509 = False\<rparr> []) = Panicked p"
    by (simp add: ctx_eval)
qed

section \<open>What a connector connects to\<close>

lemma connector_configure_ok:
  assumes "connector_configure SSL_new ctx q = (Inr cfg, q')"
  shows "cc_sni cfg \<and> cc_verify_hostname cfg \<and> cc_session cfg = None \<and> sl_ctx (cc_ssl cfg) = xc_data ctx \<and>
     sl_session_ctx (cc_ssl cfg) = Some (xc_data ctx) \<and> sl_peer (cc_ssl cfg) = None \<and>
     (\<exists>q1. SSL_new (xc_raw ctx) q = (Some (sl_raw (cc_ssl cfg)), q1))"
  using assms
  by (auto simp: connector_configure_def ssl_new_def cvt_p_def fail_stack_def split: prod.splits sum.splits option.splits)

lemma panic_after:
  assumes "ethen m n s q = (Panicked p, s', q')" and "\<And>s q s' q'. m s q \<noteq> (Panicked p, s', q')"
  obtains u s1 q1 where "m s q = (Ok u, s1, q1)" "n s1 q1 = (Panicked p, s', q')"
  using assms by (auto simp: ethen_eq_panic)

lemma panic_before:
  assumes "ethen m (ethen (eput g) n) s q = (Panicked p, s', q')"
    and "\<And>s q s' q'. n s q \<noteq> (Panicked p, s', q')"
  shows "m s q = (Panicked p, s', q')"
  using assms by (auto simp: ethen_eq_panic)

lemma into_ssl_panic:
  assumes "into_ssl K cfg d now q = (Panicked p, q')"
  shows "cc_verify_hostname cfg \<and> \<not> cd_x509 (sl_ctx (cc_ssl cfg))"
proof -
  let ?s1 = "if effective_sni K cfg d then set_hostname K d else eret ()"
  have q1: "?s1 sl q \<noteq> (Panicked p, sl', q')" for sl q sl' q'
    by (auto simp: set_hostname_def ecstring_def eff_panic)
  have c1: "?s1 sl q = (Ok u, sl1, q') \<Longrightarrow> sl_ctx sl1 = sl_ctx sl" for sl q u sl1 q'
    by (auto simp: set_hostname_def ecstring_def ebind_eq_ok call_on_raw split: if_splits)
  have p2: "setup_verify_hostname K d sl q = (Panicked p, sl', q') \<Longrightarrow> \<not> cd_x509 (sl_ctx sl)" for sl q sl' q'
    by (cases "parse_ip K d")
      (auto simp: setup_verify_hostname_def check_x509_def set_hostflags_def set_ip_def set_host_def eff_panic
        eassert_def Let_def ebind_def split: if_splits ip_addr.splits)
  let ?s2 = "if cc_verify_hostname cfg then setup_verify_hostname K d else eret ()"
  let ?s4 = "case cc_session cfg of None \<Rightarrow> eret () | Some cs \<Rightarrow>
    ebind (eget (\<lambda>sl. resumes K cs now sl d (effective_sni K cfg d) (cc_verify_hostname cfg)))
      (\<lambda>b. if b then ecvt (on_raw (SSL_set_session K (cs_session cs))) else eret ())"
  let ?s3 = "\<lambda>sl. if reports_sessions sl then sl\<lparr>sl_peer := Some \<lparr>sp_domain = d, sp_sni = effective_sni K cfg d,
    sp_verify_hostname = cc_verify_hostname cfg\<rparr>\<rparr> else sl"
  have q4: "?s4 sl q \<noteq> (Panicked p, sl', q')" for sl q sl' q'
    by (auto simp: eff_panic split: option.splits)
  from assms obtain sl' q2 where "into_ssl_steps K cfg d now (cc_ssl cfg) q = (Panicked p, sl', q2)"
    by (auto simp: into_ssl_def erun_def eff_panic split: prod.splits)
  from this [unfolded into_ssl_steps_def Let_def] obtain u sl1 q1' where
    1: "?s1 (cc_ssl cfg) q = (Ok u, sl1, q1')" and 2: "ethen ?s2 (ethen (eput ?s3) ?s4) sl1 q1' = (Panicked p, sl', q2)"
    by (rule panic_after [OF _ q1])
  from 2 have "?s2 sl1 q1' = (Panicked p, sl', q2)" by (rule panic_before) (rule q4)
  then have "cc_verify_hostname cfg" "setup_verify_hostname K d sl1 q1' = (Panicked p, sl', q2)"
    by (simp_all split: if_splits)
  with c1 [OF 1] p2 [OF this(2)] show ?thesis by simp
qed

lemma stream_start:
  "(alloc \<and> (\<exists>st. builder_new alloc s w q = ret st \<and> ss_ssl st = s \<and> ss_get st = w)) \<or>
   (\<not> alloc \<and> (\<exists>p. builder_new alloc s w q = panic p))"
  by (auto simp: builder_new_def ssl_stream_new_def bio_new_def cvt_p_def fail_stack_def bio_state_def
      split: prod.splits option.splits)

text \<open>
  C11: \<open>SslConnector::setup_connect\<close> never starts a handshake without a name to check: the stream it returns
  has the transport it was given, untouched, and a connection that verifies the domain (or the address),
  sends the domain as the server name unless it is an address, and is in client mode. A failure comes
  before the transport is touched; a panic means that the context has no X.509 support or that BoringSSL
  could not allocate the stream.
\<close>

theorem setup_connect_verifies_domain:
  fixes K :: "('s, 'n, 'x) conn_api" and ctx :: "('b, 'f) ssl_context"
  assumes "conn_spec K V" and "\<And>ip. parse_ip K d = Some ip \<Longrightarrow> ip_ok ip"
    and "\<And>b q s q'. SSL_new b q = (Some s, q') \<Longrightarrow> cv_sni (V s) = None"
  shows "case connector_setup_connect K E SSL_new alloc ctx d now w q of
     Some (Ret (Inr mh)) \<Rightarrow>
       ss_get (mh_stream mh) = w \<and>
       (\<exists>s. ss_ssl (mh_stream mh) = e_set_connect_state E s \<and>
          cv_verify (V s) = Some (case parse_ip K d of None \<Rightarrow> Inl d | Some ip \<Rightarrow> Inr (octets ip)) \<and>
          cv_sni (V s) = (if parse_ip K d = None then Some d else None))
   | Some (Ret (Inl es)) \<Rightarrow> True
   | Some (Panic p) \<Rightarrow> \<not> cd_x509 (xc_data ctx) \<or> \<not> alloc
   | None \<Rightarrow> False"
proof (cases "connector_configure SSL_new ctx q :: (error_stack + ('s, 'f, 'n) connect_configuration) \<times> err_queue")
  case (Pair r q1)
  show ?thesis
  proof (cases r)
    case (Inl es)
    with Pair show ?thesis by (simp add: connector_setup_connect_def ret_def)
  next
    case (Inr cfg)
    from connector_configure_ok [OF Pair [unfolded Inr]] have c: "cc_sni cfg" "cc_verify_hostname cfg"
      "sl_ctx (cc_ssl cfg) = xc_data ctx" and "\<exists>q1. SSL_new (xc_raw ctx) q = (Some (sl_raw (cc_ssl cfg)), q1)"
      by simp_all
    with assms(3) have n: "cv_sni (V (sl_raw (cc_ssl cfg))) = None" by blast
    have e: "connector_setup_connect K E SSL_new alloc ctx d now w q = configuration_setup_connect K E alloc cfg d now w q1"
      by (simp add: connector_setup_connect_def Pair Inr)
    obtain r2 q2 where i: "into_ssl K cfg d now q1 = (r2, q2)" by fastforce
    show ?thesis
    proof (cases r2)
      case (Ok sl)
      from into_ssl_ok [OF assms(1,2) i [unfolded Ok]] n c have "cv_verify (V (sl_raw sl)) = Some (verified_name K d) \<and>
          cv_sni (V (sl_raw sl)) = (if parse_ip K d = None then Some d else None)"
        by (simp add: prepared_def Let_def effective_sni_def)
      with stream_start [of alloc "sl_raw sl" w q2] i Ok show ?thesis
        by (auto simp: e configuration_setup_connect_def setup_connect_def verified_name_def ret_def panic_def)
    next
      case (Err es)
      with i show ?thesis by (simp add: e configuration_setup_connect_def ret_def)
    next
      case (Panicked p)
      with into_ssl_panic [OF i [unfolded Panicked]] i c show ?thesis
        by (simp add: e configuration_setup_connect_def panic_def)
    qed
  qed
qed

text \<open>An engine whose calls all succeed at once, over the sample connection.\<close>

definition sample_engine :: "nat conn_view ssl_api" where
  "sample_engine =
     \<lparr>e_connect = Done 1 [], e_accept = Done 1 [], e_do_handshake = Done 1 [],
      e_read = (\<lambda>s q n. Done 0 [] s q), e_write = (\<lambda>s q b. Done 0 [] s q), e_shutdown = Done 1 [],
      e_get_error = (\<lambda>s q rr rw r. ZERO_RETURN), e_set_mode = (\<lambda>s m. s), e_set_connect_state = (\<lambda>s. s),
      e_set_accept_state = (\<lambda>s. s), e_limits = (\<lambda>s. (0, 0, 0, 0)), e_seal = (\<lambda>s q v m r. (Seal_Declined, 0, [], s, q)),
      e_unix = True, e_fips = False, ERR_LIB_NONE = 1, ERR_LIB_SSL = 16, SSL_R_PROTOCOL_IS_SHUTDOWN = 207,
      ENABLE_PARTIAL_WRITE = 1\<rparr>"

definition sample_new :: "unit \<Rightarrow> err_queue \<Rightarrow> nat conn_view option \<times> err_queue" where
  "sample_new c q = (Some \<lparr>cv_offer = None, cv_settings = (None, 1), cv_sni = None, cv_verify = None\<rparr>, q)"

definition sample_ssl_context :: "(unit, string) ssl_context" where
  "sample_ssl_context = \<lparr>xc_raw = (), xc_data = \<lparr>cd_x509 = True, cd_client_session = None\<rparr>\<rparr>"

theorem setup_connect_verifies_domain_witness:
  "\<exists>mh. connector_setup_connect sample_conn sample_engine sample_new True sample_ssl_context ''ex.org'' 0 (7 :: nat) [] =
      Some (Ret (Inr mh)) \<and> ss_get (mh_stream mh) = 7 \<and> cv_verify (ss_ssl (mh_stream mh)) = Some (Inl ''ex.org'')"
proof -
  have "\<exists>mh. connector_setup_connect sample_conn sample_engine sample_new True sample_ssl_context ''ex.org'' 0 (7 :: nat) [] =
      Some (Ret (Inr mh))"
    by (simp add: connector_setup_connect_def connector_configure_def ssl_new_def configuration_setup_connect_def
        builder_new_def ssl_stream_new_def bio_new_def session_eval cvt_p_def ret_def sample_new_def
        sample_ssl_context_def)
  then obtain mh where m: "connector_setup_connect sample_conn sample_engine sample_new True sample_ssl_context
      ''ex.org'' 0 (7 :: nat) [] = Some (Ret (Inr mh))" by blast
  have f: "parse_ip sample_conn ''ex.org'' = None" "e_set_connect_state sample_engine s = s" for s
    by (simp_all add: sample_conn_def sample_engine_def)
  have n: "cv_sni s = None" if "sample_new b q = (Some s, q')" for b q s q'
    using that by (auto simp: sample_new_def)
  from setup_connect_verifies_domain [where SSL_new = sample_new and E = sample_engine and alloc = True
      and ctx = sample_ssl_context and d = "''ex.org''" and now = 0 and w = "7 :: nat" and q = "[]",
      OF sample_conn_ok sample_ip_ok n] m
  have "ss_get (mh_stream mh) = 7 \<and> cv_verify (ss_ssl (mh_stream mh)) = Some (Inl ''ex.org'')"
    by (auto simp: f)
  with m show ?thesis by blast
qed

end
