(* ===== verification/Async_Callbacks.thy ===== *)
theory Async_Callbacks
  imports Prelude
begin

text \<open>
  \<open>btls/src/ssl/async_callbacks.rs\<close>: callbacks whose answer is a future. BoringSSL calls such a callback
  again and again while it asks to retry; between the calls the future lives in the extra data of the
  connection, in the slot of its kind.

  A future is a value of type \<open>'f\<close> with a poll function per kind of output; \<open>'k\<close> is the task's waker and
  \<open>'w\<close> what the future sees of the world when it is polled. The output of a future is a closure, a value
  of type \<open>'g\<close>, which is run on the connection when it is ready.
\<close>

section \<open>State\<close>

text \<open>
  A connection: its extra data at \<open>TASK_WAKER_INDEX\<close> and at the five indexes of futures, each
  null or an option; \<open>as_rest\<close> is all the rest, which the user's closures may change.
\<close>

record ('k, 'f, 's) async_ssl =
  as_waker :: "'k option option"
  as_select :: "'f option option"
  as_select_action :: "'f option option"
  as_key :: "'f option option"
  as_session :: "'f option option"
  as_verify :: "'f option option"
  as_rest :: 's

text \<open>An index of type \<open>Index<Ssl, MutOnly<Option<ExDataFuture<R>>>>\<close>: how its slot is read and replaced.\<close>

record ('k, 'f, 's) future_index =
  slot_get :: "('k, 'f, 's) async_ssl \<Rightarrow> 'f option option"
  slot_put :: "'f option option \<Rightarrow> ('k, 'f, 's) async_ssl \<Rightarrow> ('k, 'f, 's) async_ssl"

definition SELECT_CERT_FUTURE_INDEX :: "('k, 'f, 's) future_index" where
  "SELECT_CERT_FUTURE_INDEX = \<lparr>slot_get = as_select, slot_put = (\<lambda>v c. c\<lparr>as_select := v\<rparr>)\<rparr>"

definition SELECT_CERT_ACTION_FUTURE_INDEX :: "('k, 'f, 's) future_index" where
  "SELECT_CERT_ACTION_FUTURE_INDEX =
     \<lparr>slot_get = as_select_action, slot_put = (\<lambda>v c. c\<lparr>as_select_action := v\<rparr>)\<rparr>"

definition SELECT_PRIVATE_KEY_METHOD_FUTURE_INDEX :: "('k, 'f, 's) future_index" where
  "SELECT_PRIVATE_KEY_METHOD_FUTURE_INDEX = \<lparr>slot_get = as_key, slot_put = (\<lambda>v c. c\<lparr>as_key := v\<rparr>)\<rparr>"

definition SELECT_GET_SESSION_FUTURE_INDEX :: "('k, 'f, 's) future_index" where
  "SELECT_GET_SESSION_FUTURE_INDEX = \<lparr>slot_get = as_session, slot_put = (\<lambda>v c. c\<lparr>as_session := v\<rparr>)\<rparr>"

definition SELECT_CUSTOM_VERIFY_FUTURE_INDEX :: "('k, 'f, 's) future_index" where
  "SELECT_CUSTOM_VERIFY_FUTURE_INDEX = \<lparr>slot_get = as_verify, slot_put = (\<lambda>v c. c\<lparr>as_verify := v\<rparr>)\<rparr>"

type_synonym ('f, 'k, 'w, 'r) poll_fn = "'f \<Rightarrow> 'k \<Rightarrow> 'w \<Rightarrow> 'r poll \<times> 'f"

section \<open>Operations\<close>

definition set_task_waker :: "'k option \<Rightarrow> ('k, 'f, 's) async_ssl \<Rightarrow> ('k, 'f, 's) async_ssl" where
  "set_task_waker waker c = c\<lparr>as_waker := Some waker\<rparr>"

text \<open>
  \<open>with_ex_data_future\<close>; an error of \<open>create_fut\<close> is ready at once. \<open>get_ssl\<close> and \<open>put_ssl\<close> are
  \<open>get_ssl_mut\<close>: they reach the connection in the handle.
\<close>

definition with_ex_data_future ::
    "('f, 'k, 'w, 'r) poll_fn \<Rightarrow> ('k, 'f, 's) future_index \<Rightarrow> ('h \<Rightarrow> ('k, 'f, 's) async_ssl)
     \<Rightarrow> (('k, 'f, 's) async_ssl \<Rightarrow> 'h \<Rightarrow> 'h) \<Rightarrow> ('h \<Rightarrow> ('e + 'f) \<times> 'h) \<Rightarrow> ('r \<Rightarrow> 'e + 't) \<Rightarrow> 'w \<Rightarrow> 'h
     \<Rightarrow> ('e + 't) poll outcome \<times> 'h" where
  "with_ex_data_future pl index get_ssl put_ssl create_fut into_result w h =
     (case as_waker (get_ssl h) of
        Some (Some waker) \<Rightarrow>
          (case slot_get index (get_ssl h) of
             Some (Some fut) \<Rightarrow>
               (case pl fut waker w of
                  (Pending, fut') \<Rightarrow>
                    (Ret Pending, put_ssl (slot_put index (Some (Some fut')) (get_ssl h)) h)
                | (Ready r, _) \<Rightarrow>
                    (Ret (Ready (into_result r)), put_ssl (slot_put index (Some None) (get_ssl h)) h))
           | _ \<Rightarrow>
               (case create_fut h of
                  (Inl e, h') \<Rightarrow> (Ret (Ready (Inl e)), h')
                | (Inr fut, h') \<Rightarrow>
                    (case pl fut waker w of
                       (Ready r, _) \<Rightarrow> (Ret (Ready (into_result r)), h')
                     | (Pending, fut') \<Rightarrow>
                         (Ret Pending, put_ssl (slot_put index (Some (Some fut')) (get_ssl h')) h'))))
      | _ \<Rightarrow> (Panic ''task waker should be set'', h))"

text \<open>The handle that is the connection itself; \<open>ClientHello::ssl_mut\<close> is the same.\<close>

abbreviation on_ssl ::
    "('f, 'k, 'w, 'r) poll_fn \<Rightarrow> ('k, 'f, 's) future_index
     \<Rightarrow> (('k, 'f, 's) async_ssl \<Rightarrow> ('e + 'f) \<times> ('k, 'f, 's) async_ssl) \<Rightarrow> ('r \<Rightarrow> 'e + 't) \<Rightarrow> 'w
     \<Rightarrow> ('k, 'f, 's) async_ssl \<Rightarrow> ('e + 't) poll outcome \<times> ('k, 'f, 's) async_ssl" where
  "on_ssl pl index \<equiv> with_ex_data_future pl index (\<lambda>c. c) (\<lambda>c _. c)"

text \<open>\<open>async_custom_verify_callback\<close>.\<close>

datatype 'a verify_error = Invalid 'a | Retry

definition async_custom_verify_callback ::
    "('f, 'k, 'w, 'a + 'g) poll_fn \<Rightarrow> ('g \<Rightarrow> ('k, 'f, 's) async_ssl \<Rightarrow> ('a + unit) \<times> ('k, 'f, 's) async_ssl)
     \<Rightarrow> (('k, 'f, 's) async_ssl \<Rightarrow> ('a + 'f) \<times> ('k, 'f, 's) async_ssl) \<Rightarrow> 'w \<Rightarrow> ('k, 'f, 's) async_ssl
     \<Rightarrow> ('a verify_error + unit) outcome \<times> ('k, 'f, 's) async_ssl" where
  "async_custom_verify_callback pl run callback w c =
     (case on_ssl pl SELECT_CUSTOM_VERIFY_FUTURE_INDEX callback (\<lambda>r. r) w c of
        (Panic p, c') \<Rightarrow> (Panic p, c')
      | (Ret (Ready (Inl alert)), c') \<Rightarrow> (Ret (Inl (Invalid alert)), c')
      | (Ret (Ready (Inr finish)), c') \<Rightarrow>
          (case run finish c' of
             (Inl alert, c'') \<Rightarrow> (Ret (Inl (Invalid alert)), c'')
           | (Inr u, c'') \<Rightarrow> (Ret (Inr u), c''))
      | (Ret Pending, c') \<Rightarrow> (Ret (Inl Retry), c'))"

text \<open>\<open>Option::ok_or(())\<close>.\<close>

definition ok_or_unit :: "'a option \<Rightarrow> unit + 'a" where
  "ok_or_unit v = (case v of None \<Rightarrow> Inl () | Some x \<Rightarrow> Inr x)"

text \<open>The callback of \<open>set_async_get_session_callback\<close>; \<open>()\<close> on the left is \<open>GetSessionPendingError\<close>.\<close>

definition async_get_session_callback ::
    "('f, 'k, 'w, 'g option) poll_fn
     \<Rightarrow> ('g \<Rightarrow> byte list \<Rightarrow> ('k, 'f, 's) async_ssl \<Rightarrow> 'n option \<times> ('k, 'f, 's) async_ssl)
     \<Rightarrow> (byte list \<Rightarrow> ('k, 'f, 's) async_ssl \<Rightarrow> 'f option \<times> ('k, 'f, 's) async_ssl) \<Rightarrow> byte list \<Rightarrow> 'w
     \<Rightarrow> ('k, 'f, 's) async_ssl \<Rightarrow> (unit + 'n option) outcome \<times> ('k, 'f, 's) async_ssl" where
  "async_get_session_callback pl run callback sid w c =
     (case on_ssl pl SELECT_GET_SESSION_FUTURE_INDEX
             (\<lambda>c. case callback sid c of (f, c') \<Rightarrow> (ok_or_unit f, c')) ok_or_unit w c of
        (Panic p, c') \<Rightarrow> (Panic p, c')
      | (Ret (Ready (Inl _)), c') \<Rightarrow> (Ret (Inr None), c')
      | (Ret (Ready (Inr finish)), c') \<Rightarrow> (case run finish sid c' of (n, c'') \<Rightarrow> (Ret (Inr n), c''))
      | (Ret Pending, c') \<Rightarrow> (Ret (Inl ()), c'))"

text \<open>\<open>async_select_certificate_callback\<close>, and its two instances.\<close>

datatype select_cert_action = Success | DisableEch
datatype select_cert_error = Select_Error | Select_Retry

definition async_select_certificate_callback ::
    "('f, 'k, 'w, unit + 'g) poll_fn \<Rightarrow> ('g \<Rightarrow> ('k, 'f, 's) async_ssl \<Rightarrow> (unit + 't) \<times> ('k, 'f, 's) async_ssl)
     \<Rightarrow> (('k, 'f, 's) async_ssl \<Rightarrow> (unit + 'f) \<times> ('k, 'f, 's) async_ssl) \<Rightarrow> ('k, 'f, 's) future_index
     \<Rightarrow> ('t \<Rightarrow> select_cert_action) \<Rightarrow> 'w \<Rightarrow> ('k, 'f, 's) async_ssl
     \<Rightarrow> (select_cert_error + select_cert_action) outcome \<times> ('k, 'f, 's) async_ssl" where
  "async_select_certificate_callback pl run callback index into_action w c =
     (case on_ssl pl index callback (\<lambda>r. r) w c of
        (Panic p, c') \<Rightarrow> (Panic p, c')
      | (Ret Pending, c') \<Rightarrow> (Ret (Inl Select_Retry), c')
      | (Ret (Ready (Inl _)), c') \<Rightarrow> (Ret (Inl Select_Error), c')
      | (Ret (Ready (Inr finish)), c') \<Rightarrow>
          (case run finish c' of
             (Inr t, c'') \<Rightarrow> (Ret (Inr (into_action t)), c'')
           | (Inl _, c'') \<Rightarrow> (Ret (Inl Select_Error), c'')))"

definition set_async_select_certificate_callback ::
    "('f, 'k, 'w, unit + 'g) poll_fn \<Rightarrow> ('g \<Rightarrow> ('k, 'f, 's) async_ssl \<Rightarrow> (unit + unit) \<times> ('k, 'f, 's) async_ssl)
     \<Rightarrow> (('k, 'f, 's) async_ssl \<Rightarrow> (unit + 'f) \<times> ('k, 'f, 's) async_ssl) \<Rightarrow> 'w \<Rightarrow> ('k, 'f, 's) async_ssl
     \<Rightarrow> (select_cert_error + select_cert_action) outcome \<times> ('k, 'f, 's) async_ssl" where
  "set_async_select_certificate_callback pl run callback =
     async_select_certificate_callback pl run callback SELECT_CERT_FUTURE_INDEX (\<lambda>_. Success)"

definition set_async_select_certificate_callback_with_action ::
    "('f, 'k, 'w, unit + 'g) poll_fn
     \<Rightarrow> ('g \<Rightarrow> ('k, 'f, 's) async_ssl \<Rightarrow> (unit + select_cert_action) \<times> ('k, 'f, 's) async_ssl)
     \<Rightarrow> (('k, 'f, 's) async_ssl \<Rightarrow> (unit + 'f) \<times> ('k, 'f, 's) async_ssl) \<Rightarrow> 'w \<Rightarrow> ('k, 'f, 's) async_ssl
     \<Rightarrow> (select_cert_error + select_cert_action) outcome \<times> ('k, 'f, 's) async_ssl" where
  "set_async_select_certificate_callback_with_action pl run callback =
     async_select_certificate_callback pl run callback SELECT_CERT_ACTION_FUTURE_INDEX (\<lambda>a. a)"

text \<open>
  \<open>with_private_key_method\<close>, whose closures also get the output buffer. \<open>create_fut\<close> may write to the
  buffer as it is called; the finish closure is given what is in it then.
\<close>

datatype private_key_error = Key_Failure | Key_Retry

definition with_private_key_method ::
    "('f, 'k, 'w, unit + 'g) poll_fn
     \<Rightarrow> ('g \<Rightarrow> byte list \<times> ('k, 'f, 's) async_ssl \<Rightarrow> (unit + nat) \<times> byte list \<times> ('k, 'f, 's) async_ssl)
     \<Rightarrow> (byte list \<times> ('k, 'f, 's) async_ssl \<Rightarrow> (unit + 'f) \<times> byte list \<times> ('k, 'f, 's) async_ssl) \<Rightarrow> 'w
     \<Rightarrow> byte list \<times> ('k, 'f, 's) async_ssl
     \<Rightarrow> (private_key_error + nat) outcome \<times> byte list \<times> ('k, 'f, 's) async_ssl" where
  "with_private_key_method pl run create_fut w h =
     (case with_ex_data_future pl SELECT_PRIVATE_KEY_METHOD_FUTURE_INDEX snd (\<lambda>c h. (fst h, c)) create_fut
             (\<lambda>r. r) w h of
        (Panic p, h') \<Rightarrow> (Panic p, h')
      | (Ret Pending, h') \<Rightarrow> (Ret (Inl Key_Retry), h')
      | (Ret (Ready (Inl _)), h') \<Rightarrow> (Ret (Inl Key_Failure), h')
      | (Ret (Ready (Inr finish)), h') \<Rightarrow>
          (case run finish h' of
             (Inr n, h'') \<Rightarrow> (Ret (Inr n), h'')
           | (Inl _, h'') \<Rightarrow> (Ret (Inl Key_Failure), h'')))"

text \<open>
  \<open>AsyncPrivateKeyMethodBridge\<close>: \<open>sign\<close> and \<open>decrypt\<close> create the future of the method; \<open>complete\<close> only
  drives a stored one, and reports a bug if there is none: with a panic in a debug build.
\<close>

record ('f, 'k, 's) async_key_method =
  akm_sign :: "byte list \<Rightarrow> 16 word \<Rightarrow> byte list \<times> ('k, 'f, 's) async_ssl
                 \<Rightarrow> (unit + 'f) \<times> byte list \<times> ('k, 'f, 's) async_ssl"
  akm_decrypt :: "byte list \<Rightarrow> byte list \<times> ('k, 'f, 's) async_ssl
                 \<Rightarrow> (unit + 'f) \<times> byte list \<times> ('k, 'f, 's) async_ssl"

definition bridge_sign where
  "bridge_sign M pl run input alg w h = with_private_key_method pl run (akm_sign M input alg) w h"

definition bridge_decrypt where
  "bridge_decrypt M pl run input w h = with_private_key_method pl run (akm_decrypt M input) w h"

definition bridge_complete ::
    "bool \<Rightarrow> ('f, 'k, 'w, unit + 'g) poll_fn
     \<Rightarrow> ('g \<Rightarrow> byte list \<times> ('k, 'f, 's) async_ssl \<Rightarrow> (unit + nat) \<times> byte list \<times> ('k, 'f, 's) async_ssl) \<Rightarrow> 'w
     \<Rightarrow> byte list \<times> ('k, 'f, 's) async_ssl
     \<Rightarrow> (private_key_error + nat) outcome \<times> byte list \<times> ('k, 'f, 's) async_ssl" where
  "bridge_complete debug_assertions pl run w h =
     (case (as_waker (snd h), slot_get SELECT_PRIVATE_KEY_METHOD_FUTURE_INDEX (snd h)) of
        (Some (Some _), Some (Some _)) \<Rightarrow> with_private_key_method pl run (\<lambda>h. (Inl (), h)) w h
      | (Some (Some _), _) \<Rightarrow>
          if debug_assertions then (Panic ''BUG: btls called complete without a pending operation'', h)
          else with_private_key_method pl run (\<lambda>h. (Inl (), h)) w h
      | _ \<Rightarrow> with_private_key_method pl run (\<lambda>h. (Inl (), h)) w h)"

section \<open>The retries of BoringSSL\<close>

text \<open>
  BoringSSL calls a callback, and as long as it asks to retry calls it, or the one that completes it,
  again from a later poll of the stream; every poll sets its task's waker first. \<open>drive\<close> makes one call
  per poll \<open>(k, w)\<close>, from the second one on with \<open>again\<close>.
\<close>

fun drive_again :: "('k \<Rightarrow> 'h \<Rightarrow> 'h) \<Rightarrow> ('w \<Rightarrow> 'h \<Rightarrow> 'r outcome \<times> 'h) \<Rightarrow> ('k \<times> 'w) list \<Rightarrow> 'h
     \<Rightarrow> 'r outcome list \<times> 'h" where
  "drive_again arm again [] h = ([], h)"
| "drive_again arm again ((k, w) # ps) h =
     (case again w (arm k h) of (r, h') \<Rightarrow> (case drive_again arm again ps h' of (rs, h'') \<Rightarrow> (r # rs, h'')))"

fun drive :: "('k \<Rightarrow> 'h \<Rightarrow> 'h) \<Rightarrow> ('w \<Rightarrow> 'h \<Rightarrow> 'r outcome \<times> 'h) \<Rightarrow> ('w \<Rightarrow> 'h \<Rightarrow> 'r outcome \<times> 'h)
     \<Rightarrow> ('k \<times> 'w) list \<Rightarrow> 'h \<Rightarrow> 'r outcome list \<times> 'h" where
  "drive arm first again [] h = ([], h)"
| "drive arm first again ((k, w) # ps) h =
     (case first w (arm k h) of (r, h') \<Rightarrow> (case drive_again arm again ps h' of (rs, h'') \<Rightarrow> (r # rs, h'')))"

text \<open>What a future is after polls that all leave it pending.\<close>

fun pending_through :: "('f, 'k, 'w, 'r) poll_fn \<Rightarrow> ('k \<times> 'w) list \<Rightarrow> 'f \<Rightarrow> 'f option" where
  "pending_through pl [] f = Some f"
| "pending_through pl ((k, w) # ps) f =
     (case pl f k w of (Pending, f') \<Rightarrow> pending_through pl ps f' | (Ready _, _) \<Rightarrow> None)"

text \<open>An index is good if it is a slot of its own.\<close>

definition good_index :: "('k, 'f, 's) future_index \<Rightarrow> bool" where
  "good_index i \<longleftrightarrow>
     (\<forall>v c. slot_get i (slot_put i v c) = v) \<and> (\<forall>u v c. slot_put i v (slot_put i u c) = slot_put i v c) \<and>
     (\<forall>v x c. slot_put i v (c\<lparr>as_waker := x\<rparr>) = (slot_put i v c)\<lparr>as_waker := x\<rparr>) \<and>
     (\<forall>x c. slot_get i (c\<lparr>as_waker := x\<rparr>) = slot_get i c)"

lemma indexes_good [simp]:
  "good_index SELECT_CERT_FUTURE_INDEX" "good_index SELECT_CERT_ACTION_FUTURE_INDEX"
  "good_index SELECT_PRIVATE_KEY_METHOD_FUTURE_INDEX" "good_index SELECT_GET_SESSION_FUTURE_INDEX"
  "good_index SELECT_CUSTOM_VERIFY_FUTURE_INDEX"
  by (simp_all add: good_index_def SELECT_CERT_FUTURE_INDEX_def SELECT_CERT_ACTION_FUTURE_INDEX_def
      SELECT_PRIVATE_KEY_METHOD_FUTURE_INDEX_def SELECT_GET_SESSION_FUTURE_INDEX_def
      SELECT_CUSTOM_VERIFY_FUTURE_INDEX_def)

lemma good_indexD:
  assumes "good_index i"
  shows "slot_get i (slot_put i v c) = v" "slot_put i v (slot_put i u c) = slot_put i v c"
    "slot_put i v (c\<lparr>as_waker := x\<rparr>) = (slot_put i v c)\<lparr>as_waker := x\<rparr>"
    "slot_get i (c\<lparr>as_waker := x\<rparr>) = slot_get i c"
  using assms by (simp_all add: good_index_def)

text \<open>The answer of a callback to the poll of its future.\<close>

definition answer :: "'t \<Rightarrow> ('v \<Rightarrow> 'h \<Rightarrow> 't outcome \<times> 'h) \<Rightarrow> 'v poll outcome \<times> 'h \<Rightarrow> 't outcome \<times> 'h" where
  "answer retry complete p =
     (case p of
        (Panic m, h) \<Rightarrow> (Panic m, h)
      | (Ret Pending, h) \<Rightarrow> (Ret retry, h)
      | (Ret (Ready v), h) \<Rightarrow> complete v h)"

definition idle :: "('k, 'f, 's) future_index \<Rightarrow> ('k, 'f, 's) async_ssl \<Rightarrow> bool" where
  "idle i c \<longleftrightarrow> (\<forall>f. slot_get i c \<noteq> Some (Some f))"

definition arm_with ::
    "('h \<Rightarrow> ('k, 'f, 's) async_ssl) \<Rightarrow> (('k, 'f, 's) async_ssl \<Rightarrow> 'h \<Rightarrow> 'h) \<Rightarrow> 'k \<Rightarrow> 'h \<Rightarrow> 'h" where
  "arm_with get_ssl put_ssl k h = put_ssl (set_task_waker (Some k) (get_ssl h)) h"

text \<open>The handle when the future is over: its slot is emptied and the waker is that of the last poll.\<close>

definition released ::
    "('k, 'f, 's) future_index \<Rightarrow> ('h \<Rightarrow> ('k, 'f, 's) async_ssl) \<Rightarrow> (('k, 'f, 's) async_ssl \<Rightarrow> 'h \<Rightarrow> 'h)
     \<Rightarrow> 'k \<Rightarrow> 'h \<Rightarrow> 'h" where
  "released i get_ssl put_ssl k h = put_ssl (set_task_waker (Some k) (slot_put i (Some None) (get_ssl h))) h"

text \<open>A callback that drives the future of one index and completes with what the future returned.\<close>

locale future_callback =
  fixes pl :: "('f, 'k, 'w, 'r) poll_fn"
    and index :: "('k, 'f, 's) future_index"
    and get_ssl :: "'h \<Rightarrow> ('k, 'f, 's) async_ssl"
    and put_ssl :: "('k, 'f, 's) async_ssl \<Rightarrow> 'h \<Rightarrow> 'h"
    and create_fut :: "'h \<Rightarrow> ('e + 'f) \<times> 'h"
    and into_result :: "'r \<Rightarrow> 'e + 't"
    and retry :: 'x
    and complete :: "'e + 't \<Rightarrow> 'h \<Rightarrow> 'x outcome \<times> 'h"
    and first :: "'w \<Rightarrow> 'h \<Rightarrow> 'x outcome \<times> 'h"
    and again :: "'w \<Rightarrow> 'h \<Rightarrow> 'x outcome \<times> 'h"
  assumes get_put: "get_ssl (put_ssl c h) = c"
    and put_put: "put_ssl c' (put_ssl c h) = put_ssl c' h"
    and good: "good_index index"
    and first: "first w h =
        answer retry complete (with_ex_data_future pl index get_ssl put_ssl create_fut into_result w h)"
    and again: "\<lbrakk>as_waker (get_ssl h) = Some (Some k); slot_get index (get_ssl h) = Some (Some f)\<rbrakk> \<Longrightarrow>
      again w h = answer retry complete (with_ex_data_future pl index get_ssl put_ssl create_fut into_result w h)"
begin

lemmas laws = get_put put_put good_indexD[OF good] arm_with_def set_task_waker_def

lemma again_pending:
  assumes "pl f k w = (Pending, f')"
  shows "again w (arm_with get_ssl put_ssl k (put_ssl (slot_put index (Some (Some f)) c) h)) =
    (Ret retry, put_ssl (slot_put index (Some (Some f')) (set_task_waker (Some k) c)) h)"
  using assms by (subst again[where k = k and f = f]) (simp_all add: laws with_ex_data_future_def answer_def)

lemma again_ready:
  assumes "pl f k w = (Ready r, f')"
  shows "again w (arm_with get_ssl put_ssl k (put_ssl (slot_put index (Some (Some f)) c) h)) =
    complete (into_result r) (put_ssl (slot_put index (Some None) (set_task_waker (Some k) c)) h)"
  using assms by (subst again[where k = k and f = f]) (simp_all add: laws with_ex_data_future_def answer_def)

lemma drive_stored:
  assumes "pending_through pl ps f = Some f'" "pl f' k w = (Ready r, g)"
    "complete (into_result r) (put_ssl (set_task_waker (Some k) (slot_put index (Some None) c)) h) = (res, h')"
  shows "drive_again (arm_with get_ssl put_ssl) again (ps @ [(k, w)]) (put_ssl (slot_put index (Some (Some f)) c) h) =
    (replicate (length ps) (Ret retry) @ [res], h')"
  using assms
proof (induction ps arbitrary: f c)
  case Nil
  then show ?case by (simp add: again_ready good_indexD[OF good] set_task_waker_def)
next
  case (Cons p ps)
  obtain j u where p: "p = (j, u)" by (cases p)
  with Cons.prems(1) obtain f1 where f1: "pl f j u = (Pending, f1)" "pending_through pl ps f1 = Some f'"
    by (auto split: prod.splits poll.splits)
  have "complete (into_result r) (put_ssl (set_task_waker (Some k) (slot_put index (Some None)
      (set_task_waker (Some j) c))) h) = (res, h')"
    using Cons.prems(3) by (simp add: good_indexD[OF good] set_task_waker_def)
  from Cons.IH[OF f1(2) Cons.prems(2) this] show ?case by (simp add: p again_pending[OF f1(1)])
qed

text \<open>
  The whole run: the future is made once, by the first call; every call before the one that finds it ready
  asks to retry; that one completes with its output and leaves the slot empty.
\<close>

theorem drive_completes:
  assumes "idle index (get_ssl h)" "create_fut (arm_with get_ssl put_ssl k0 h) = (Inr f, h1)"
    "pending_through pl ((k0, w0) # ps) f = Some f'" "pl f' k w = (Ready r, g)"
    "complete (into_result r) (released index get_ssl put_ssl k h1) = (res, h')"
  shows "drive (arm_with get_ssl put_ssl) first again ((k0, w0) # ps @ [(k, w)]) h =
    (replicate (Suc (length ps)) (Ret retry) @ [res], h')"
proof -
  from assms(3) obtain f1 where f1: "pl f k0 w0 = (Pending, f1)" "pending_through pl ps f1 = Some f'"
    by (auto split: prod.splits poll.splits)
  have "first w0 (arm_with get_ssl put_ssl k0 h) =
      (Ret retry, put_ssl (slot_put index (Some (Some f1)) (get_ssl h1)) h1)"
    using assms(1,2) f1(1)
    by (auto simp: first laws idle_def with_ex_data_future_def answer_def split: option.splits)
  with drive_stored[OF f1(2) assms(4) assms(5)[unfolded released_def]] show ?thesis by simp
qed

theorem drive_at_once:
  assumes "idle index (get_ssl h)" "create_fut (arm_with get_ssl put_ssl k h) = (Inr f, h1)"
    "pl f k w = (Ready r, g)"
  shows "first w (arm_with get_ssl put_ssl k h) = complete (into_result r) h1"
  using assms
  by (auto simp: first laws idle_def with_ex_data_future_def answer_def split: option.splits)

theorem drive_refused:
  assumes "idle index (get_ssl h)" "create_fut (arm_with get_ssl put_ssl k h) = (Inl e, h1)"
  shows "first w (arm_with get_ssl put_ssl k h) = complete (Inl e) h1"
  using assms
  by (auto simp: first laws idle_def with_ex_data_future_def answer_def split: option.splits)

end

section \<open>The callbacks\<close>

definition verify_complete where
  "verify_complete run v c =
     (case v of
        Inl alert \<Rightarrow> (Ret (Inl (Invalid alert)), c)
      | Inr finish \<Rightarrow>
          (case run finish c of
             (Inl alert, c') \<Rightarrow> (Ret (Inl (Invalid alert)), c')
           | (Inr u, c') \<Rightarrow> (Ret (Inr u), c')))"

definition session_complete where
  "session_complete run sid v c =
     (case v of
        Inl _ \<Rightarrow> (Ret (Inr None), c)
      | Inr finish \<Rightarrow> (case run finish sid c of (n, c') \<Rightarrow> (Ret (Inr n), c')))"

definition select_complete where
  "select_complete run into_action v c =
     (case v of
        Inl _ \<Rightarrow> (Ret (Inl Select_Error), c)
      | Inr finish \<Rightarrow>
          (case run finish c of
             (Inr t, c') \<Rightarrow> (Ret (Inr (into_action t)), c')
           | (Inl _, c') \<Rightarrow> (Ret (Inl Select_Error), c')))"

definition key_complete where
  "key_complete run v h =
     (case v of
        Inl _ \<Rightarrow> (Ret (Inl Key_Failure), h)
      | Inr finish \<Rightarrow>
          (case run finish h of
             (Inr n, h') \<Rightarrow> (Ret (Inr n), h')
           | (Inl _, h') \<Rightarrow> (Ret (Inl Key_Failure), h')))"

lemma verify_answer:
  "async_custom_verify_callback pl run callback w c =
     answer (Inl Retry) (verify_complete run) (on_ssl pl SELECT_CUSTOM_VERIFY_FUTURE_INDEX callback (\<lambda>r. r) w c)"
  by (simp add: async_custom_verify_callback_def answer_def verify_complete_def
      split: prod.split outcome.split poll.split sum.split)

lemma session_answer:
  "async_get_session_callback pl run callback sid w c =
     answer (Inl ()) (session_complete run sid)
       (on_ssl pl SELECT_GET_SESSION_FUTURE_INDEX
          (\<lambda>c. case callback sid c of (f, c') \<Rightarrow> (ok_or_unit f, c')) ok_or_unit w c)"
  by (simp add: async_get_session_callback_def answer_def session_complete_def
      split: prod.split outcome.split poll.split sum.split)

lemma select_answer:
  "async_select_certificate_callback pl run callback index into_action w c =
     answer (Inl Select_Retry) (select_complete run into_action) (on_ssl pl index callback (\<lambda>r. r) w c)"
  by (simp add: async_select_certificate_callback_def answer_def select_complete_def
      split: prod.split outcome.split poll.split sum.split)

lemma key_answer:
  "with_private_key_method pl run create_fut w h =
     answer (Inl Key_Retry) (key_complete run)
       (with_ex_data_future pl SELECT_PRIVATE_KEY_METHOD_FUTURE_INDEX snd (\<lambda>c h. (fst h, c)) create_fut
          (\<lambda>r. r) w h)"
  by (simp add: with_private_key_method_def answer_def key_complete_def
      split: prod.split outcome.split poll.split sum.split)

text \<open>A stored future is driven, whatever would have created another.\<close>

lemma stored_ignores_create:
  assumes "slot_get i (get_ssl h) = Some (Some f)"
  shows "with_ex_data_future pl i get_ssl put_ssl create_fut into_result w h =
    with_ex_data_future pl i get_ssl put_ssl create_fut' into_result w h"
  using assms by (simp add: with_ex_data_future_def split: option.split)

interpretation verify: future_callback pl SELECT_CUSTOM_VERIFY_FUTURE_INDEX "\<lambda>c. c" "\<lambda>c _. c" callback "\<lambda>r. r"
    "Inl Retry" "verify_complete run" "async_custom_verify_callback pl run callback"
    "async_custom_verify_callback pl run callback"
  for pl :: "('f, 'k, 'w, 'a + 'g) poll_fn" and run callback
  by unfold_locales (simp_all add: verify_answer)

interpretation session: future_callback pl SELECT_GET_SESSION_FUTURE_INDEX "\<lambda>c. c" "\<lambda>c _. c"
    "\<lambda>c. case callback sid c of (f, c') \<Rightarrow> (ok_or_unit f, c')" ok_or_unit "Inl ()" "session_complete run sid"
    "async_get_session_callback pl run callback sid" "async_get_session_callback pl run callback sid"
  for pl :: "('f, 'k, 'w, 'g option) poll_fn" and run callback sid
  by unfold_locales (simp_all add: session_answer)

interpretation select: future_callback pl SELECT_CERT_FUTURE_INDEX "\<lambda>c. c" "\<lambda>c _. c" callback "\<lambda>r. r"
    "Inl Select_Retry" "select_complete run (\<lambda>_. Success)"
    "set_async_select_certificate_callback pl run callback"
    "set_async_select_certificate_callback pl run callback"
  for pl :: "('f, 'k, 'w, unit + 'g) poll_fn" and run callback
  by unfold_locales (simp_all add: set_async_select_certificate_callback_def select_answer)

interpretation action: future_callback pl SELECT_CERT_ACTION_FUTURE_INDEX "\<lambda>c. c" "\<lambda>c _. c" callback "\<lambda>r. r"
    "Inl Select_Retry" "select_complete run (\<lambda>a. a)"
    "set_async_select_certificate_callback_with_action pl run callback"
    "set_async_select_certificate_callback_with_action pl run callback"
  for pl :: "('f, 'k, 'w, unit + 'g) poll_fn" and run callback
  by unfold_locales (simp_all add: set_async_select_certificate_callback_with_action_def select_answer)

lemma bridge_complete_stored:
  assumes "as_waker (snd h) = Some (Some k)"
    "slot_get SELECT_PRIVATE_KEY_METHOD_FUTURE_INDEX (snd h) = Some (Some f)"
  shows "bridge_complete dbg pl run w h = with_private_key_method pl run create_fut w h"
proof -
  have "bridge_complete dbg pl run w h = with_private_key_method pl run (\<lambda>h. (Inl (), h)) w h"
    using assms by (simp add: bridge_complete_def)
  then show ?thesis
    unfolding key_answer by (rule trans) (rule arg_cong[OF stored_ignores_create[where get_ssl = snd, OF assms(2)]])
qed

interpretation sign: future_callback pl SELECT_PRIVATE_KEY_METHOD_FUTURE_INDEX snd "\<lambda>c h. (fst h, c)"
    "akm_sign M input alg" "\<lambda>r. r" "Inl Key_Retry" "key_complete run" "bridge_sign M pl run input alg"
    "bridge_complete dbg pl run"
  for pl :: "('f, 'k, 'w, unit + 'g) poll_fn" and M run input alg dbg
  by unfold_locales (simp_all add: bridge_sign_def key_answer bridge_complete_stored[where create_fut = "akm_sign M input alg"])

interpretation decrypt: future_callback pl SELECT_PRIVATE_KEY_METHOD_FUTURE_INDEX snd "\<lambda>c h. (fst h, c)"
    "akm_decrypt M input" "\<lambda>r. r" "Inl Key_Retry" "key_complete run" "bridge_decrypt M pl run input"
    "bridge_complete dbg pl run"
  for pl :: "('f, 'k, 'w, unit + 'g) poll_fn" and M run input dbg
  by unfold_locales (simp_all add: bridge_decrypt_def key_answer bridge_complete_stored[where create_fut = "akm_decrypt M input"])

section \<open>Properties\<close>

lemma arm_on_ssl: "arm_with (\<lambda>c. c) (\<lambda>c _. c) = (\<lambda>k. set_task_waker (Some k))"
  by (simp add: arm_with_def fun_eq_iff)

text \<open>
  The only panic of driving a future is that of a connection without a task's waker, and it changes
  nothing.
\<close>

lemma future_panics_iff_no_waker:
  "fst (with_ex_data_future pl index get_ssl put_ssl create_fut into_result w h) = Panic m \<longleftrightarrow>
     (\<forall>k. as_waker (get_ssl h) \<noteq> Some (Some k)) \<and> m = ''task waker should be set'' \<and>
     with_ex_data_future pl index get_ssl put_ssl create_fut into_result w h = (Panic m, h)"
  by (auto simp: with_ex_data_future_def split: option.splits prod.splits poll.splits sum.splits)

text \<open>
  An asynchronous verification that BoringSSL retries from poll to poll makes its future once, asks to
  retry as long as it is pending, and then answers with what the future's closure says of the connection;
  its slot is empty again.
\<close>

lemma custom_verify_answers_once_ready:
  assumes "idle SELECT_CUSTOM_VERIFY_FUTURE_INDEX c"
    and "callback (set_task_waker (Some k0) c) = (Inr f, c1)"
    and "pending_through pl ((k0, w0) # ps) f = Some f'" and "pl f' k w = (Ready (Inr finish), g)"
    and "run finish (c1\<lparr>as_verify := Some None, as_waker := Some (Some k)\<rparr>) = (v, c2)"
  shows "drive (\<lambda>k. set_task_waker (Some k)) (async_custom_verify_callback pl run callback)
      (async_custom_verify_callback pl run callback) ((k0, w0) # ps @ [(k, w)]) c =
    (replicate (Suc (length ps)) (Ret (Inl Retry)) @
       [Ret (case v of Inl alert \<Rightarrow> Inl (Invalid alert) | Inr u \<Rightarrow> Inr u)], c2)"
  using verify.drive_completes[OF assms(1) _ assms(3,4), of callback c1 run _ c2] assms(2,5)
  by (simp add: arm_on_ssl released_def verify_complete_def SELECT_CUSTOM_VERIFY_FUTURE_INDEX_def
      set_task_waker_def del: drive.simps split: sum.split)

text \<open>A future that is ready after a number of polls; a connection before its first call.\<close>

definition countdown :: "(nat, unit, unit, 'x + nat) poll_fn" where
  "countdown f k w = (if f = 0 then (Ready (Inr 7), 0) else (Pending, f - 1))"

definition fresh_async :: "(unit, nat, nat) async_ssl" where
  "fresh_async = \<lparr>as_waker = None, as_select = None, as_select_action = None, as_key = None, as_session = None,
     as_verify = None, as_rest = 0\<rparr>"

lemmas async_samples = fresh_async_def countdown_def idle_def set_task_waker_def

text \<open>
  A private key operation makes its future once, in \<open>sign\<close>; \<open>complete\<close> asks to retry as long as it is
  pending, then returns what its closure made of the output buffer, and never reports the bug of a
  missing operation.
\<close>

lemma sign_completes:
  assumes "idle SELECT_PRIVATE_KEY_METHOD_FUTURE_INDEX c"
    and "akm_sign M input alg (out, set_task_waker (Some k0) c) = (Inr f, out1, c1)"
    and "pending_through pl ((k0, w0) # ps) f = Some f'" and "pl f' k w = (Ready (Inr finish), g)"
    and "run finish (out1, c1\<lparr>as_key := Some None, as_waker := Some (Some k)\<rparr>) = (v, out2, c2)"
  shows "drive (arm_with snd (\<lambda>c h. (fst h, c))) (bridge_sign M pl run input alg)
      (bridge_complete debug_assertions pl run) ((k0, w0) # ps @ [(k, w)]) (out, c) =
    (replicate (Suc (length ps)) (Ret (Inl Key_Retry)) @
       [Ret (case v of Inl _ \<Rightarrow> Inl Key_Failure | Inr n \<Rightarrow> Inr n)], out2, c2)"
  using sign.drive_completes[where h = "(out, c)" and M = M, OF _ _ assms(3,4), of input alg "(out1, c1)" run _ "(out2, c2)"]
    assms(1,2,5)
  by (simp add: arm_with_def released_def key_complete_def SELECT_PRIVATE_KEY_METHOD_FUTURE_INDEX_def
      set_task_waker_def del: drive.simps split: sum.split)

definition sample_key_method :: "(nat, unit, nat) async_key_method" where
  "sample_key_method = \<lparr>akm_sign = (\<lambda>input alg h. (Inr (length input), h)), akm_decrypt = (\<lambda>_ h. (Inl (), h))\<rparr>"

end
