(* ===== verification/Error_Put.thy ===== *)
theory Error_Put
  imports Errors
begin

text \<open>
  \<open>ErrorStack::put\<close> and \<open>Error::put\<close> of \<open>btls/src/error.rs\<close>: errors go back onto the queue of the library,
  from where \<open>ErrorStack::get\<close> pops them again. The two functions of the library that add to the queue
  are the parameter \<open>A\<close>.
\<close>

section \<open>Operations\<close>

text \<open>\<open>ERR_put_error\<close> (library, function, reason, file, line) and \<open>ERR_add_error_data\<close> with one string.\<close>

record err_api =
  ea_put :: "32 word \<Rightarrow> 32 word \<Rightarrow> 32 word \<Rightarrow> src_file \<Rightarrow> nat \<Rightarrow> err_queue \<Rightarrow> err_queue"
  ea_add_data :: "string \<Rightarrow> err_queue \<Rightarrow> err_queue"

definition error_put :: "err_api \<Rightarrow> boring_error \<Rightarrow> err_queue \<Rightarrow> err_queue" where
  "error_put A e q =
     (let q1 = ea_put A (ERR_GET_LIB (e_code e)) (ERR_GET_FUNC (e_code e)) (ERR_GET_REASON (e_code e))
                 (e_file e) (e_line e) q
      in case error_data_cstr e of None \<Rightarrow> q1 | Some s \<Rightarrow> ea_add_data A s q1)"

fun error_stack_put :: "err_api \<Rightarrow> error_stack \<Rightarrow> err_queue \<Rightarrow> err_queue" where
  "error_stack_put A [] q = q"
| "error_stack_put A (e # es) q = error_stack_put A es (error_put A e q)"

section \<open>What the library does\<close>

text \<open>
  \<open>openssl/err.h\<close>: \<open>ERR_put_error\<close> pushes an error with the packed library and reason, without data;
  the queue holds 15 errors before it forgets the oldest. \<open>ERR_add_error_data\<close> sets the data of the
  newest error. A reason 0 of \<open>ERR_LIB_SYS\<close>, which is 2, stands for \<open>errno\<close>.
\<close>

definition err_limit :: nat where
  "err_limit = 15"

definition queues_errors :: "err_api \<Rightarrow> bool" where
  "queues_errors A \<longleftrightarrow>
     (\<forall>l f r file line q. length q < err_limit \<longrightarrow> (l, r) \<noteq> (2, 0) \<longrightarrow>
        ea_put A l f r file line q =
          q @ [\<lparr>q_code = ucast (ERR_PACK l 0 r), q_file = file, q_line = line, q_data = None\<rparr>]) \<and>
     (\<forall>s q e. ea_add_data A s (q @ [e]) = q @ [e\<lparr>q_data := Some s\<rparr>])"

definition boringssl_errors :: err_api where
  "boringssl_errors =
     \<lparr>ea_put = (\<lambda>l f r file line q.
        (if length q < err_limit then q else tl q) @
          [\<lparr>q_code = ucast (ERR_PACK l 0 r), q_file = file, q_line = line, q_data = None\<rparr>]),
      ea_add_data = (\<lambda>s q. butlast q @ [(last q)\<lparr>q_data := Some s\<rparr>])\<rparr>"

lemma boringssl_errors_ok: "queues_errors boringssl_errors"
  by (simp add: queues_errors_def boringssl_errors_def)

section \<open>Round trip\<close>

text \<open>What is left of a code: its library and its reason, since BoringSSL has no function codes.\<close>

definition kept_code :: "32 word \<Rightarrow> 32 word" where
  "kept_code c = c AND 0xFF000FFF"

text \<open>An error as the queue gives it back.\<close>

definition requeued :: "boring_error \<Rightarrow> boring_error" where
  "requeued e =
     e\<lparr>e_code := kept_code (e_code e),
       e_data := (case error_data_cstr e of None \<Rightarrow> Data_None | Some s \<Rightarrow> Data_CString s)\<rparr>"

definition requeues :: "boring_error \<Rightarrow> bool" where
  "requeues e \<longleftrightarrow> kept_code (e_code e) \<noteq> 0 \<and> kept_code (e_code e) \<noteq> 0x02000000"

lemma masks:
  "0xFF = (mask 8 :: 32 word)" "0xFFF = (mask 12 :: 32 word)" "0xFF = (mask 8 :: 64 word)"
  "0xFFF = (mask 12 :: 64 word)" "0xFF000FFF = (push_bit 24 (mask 8) OR mask 12 :: 32 word)"
  by (simp_all add: mask_eq_exp_minus_1 push_bit_eq_mult)

text \<open>Packing and taking apart.\<close>

lemma pack_of_parts: "ucast (ERR_PACK (ERR_GET_LIB c) 0 (ERR_GET_REASON c)) = kept_code c"
  unfolding ERR_PACK_def ERR_GET_LIB_def ERR_GET_REASON_def kept_code_def masks
  by (rule bit_word_eqI) (auto simp: bit_simps)

lemma get_of_pack:
  "ERR_GET_LIB (ucast (ERR_PACK l f r)) = l AND 0xFF"
  "ERR_GET_FUNC (ucast (ERR_PACK l f r)) = f AND 0xFFF"
  "ERR_GET_REASON (ucast (ERR_PACK l f r)) = r AND 0xFFF"
  unfolding ERR_PACK_def ERR_GET_LIB_def ERR_GET_FUNC_def ERR_GET_REASON_def masks
  by (rule bit_word_eqI; auto simp: bit_simps)+

lemma not_sys_errno:
  assumes "requeues e"
  shows "(ERR_GET_LIB (e_code e), ERR_GET_REASON (e_code e)) \<noteq> (2, 0)"
proof
  assume "(ERR_GET_LIB (e_code e), ERR_GET_REASON (e_code e)) = (2, 0)"
  with pack_of_parts[of "e_code e"] have "kept_code (e_code e) = ucast (ERR_PACK 2 0 0)" by simp
  moreover have "ucast (ERR_PACK 2 0 0) = (0x02000000 :: 32 word)" by code_simp
  ultimately show False using assms by (simp add: requeues_def)
qed

definition queue_entry :: "boring_error \<Rightarrow> queued_error" where
  "queue_entry e =
     \<lparr>q_code = kept_code (e_code e), q_file = e_file e, q_line = e_line e, q_data = error_data_cstr e\<rparr>"

lemma error_put_appends:
  assumes "queues_errors A" "requeues e" "length q < err_limit"
  shows "error_put A e q = q @ [queue_entry e]"
proof -
  have "ea_put A (ERR_GET_LIB (e_code e)) (ERR_GET_FUNC (e_code e)) (ERR_GET_REASON (e_code e)) (e_file e) (e_line e) q =
      q @ [\<lparr>q_code = kept_code (e_code e), q_file = e_file e, q_line = e_line e, q_data = None\<rparr>]"
    using assms(1,3) not_sys_errno[OF assms(2)] by (simp add: queues_errors_def pack_of_parts)
  then show ?thesis
    using assms(1) by (simp add: error_put_def queue_entry_def queues_errors_def Let_def split: option.split)
qed

lemma error_stack_put_appends:
  assumes "queues_errors A"
  shows "\<lbrakk>list_all requeues es; length q + length es \<le> err_limit\<rbrakk> \<Longrightarrow>
    error_stack_put A es q = q @ map queue_entry es"
  by (induction es arbitrary: q) (simp_all add: error_put_appends[OF assms])

lemma get_entries:
  "list_all requeues es \<Longrightarrow> error_stack_get (map queue_entry es) = (map requeued es, [])"
  by (induction es) (simp_all add: queue_entry_def requeued_def requeues_def)

lemma requeued_parts:
  "library_code (requeued e) = library_code e" "reason_code (requeued e) = reason_code e"
  "is_internal (requeued e) = is_internal e"
  unfolding library_code_def reason_code_def is_internal_def requeued_def ERR_GET_LIB_def ERR_GET_REASON_def
    kept_code_def masks
  by (simp_all, (rule bit_word_eqI; auto simp: bit_simps)+)

section \<open>Properties\<close>

text \<open>
  The parts of a packed code are the library, function and reason it was packed from, cut to their
  widths; packing the library and the reason of a code gives back the code without its function.
\<close>

lemma packed_codes_round_trip:
  "ERR_GET_LIB (ucast (ERR_PACK l f r)) = l AND 0xFF \<and>
   ERR_GET_FUNC (ucast (ERR_PACK l f r)) = f AND 0xFFF \<and>
   ERR_GET_REASON (ucast (ERR_PACK l f r)) = r AND 0xFFF \<and>
   ucast (ERR_PACK (ERR_GET_LIB c) 0 (ERR_GET_REASON c)) = c AND 0xFF000FFF"
  by (simp add: get_of_pack pack_of_parts kept_code_def)

text \<open>
  C21: An error stack put onto an empty queue is popped again in order: each error with its file, line,
  library and reason, and with its data as far as it is a C string; so an error of this crate is still
  known as one of its own.
\<close>

theorem stack_survives_queue:
  assumes "queues_errors A" "list_all requeues es" "length es \<le> err_limit"
  shows "error_stack_get (error_stack_put A es []) = (map requeued es, []) \<and>
    map library_code (map requeued es) = map library_code es \<and>
    map reason_code (map requeued es) = map reason_code es \<and>
    map is_internal (map requeued es) = map is_internal es"
  using assms error_stack_put_appends[OF assms(1,2), of "[]"] by (simp add: get_entries requeued_parts)

theorem stack_survives_queue_witness:
  "error_stack_get (error_stack_put boringssl_errors (internal_error_str 1 ''invalid len'') []) =
     (map requeued (internal_error_str 1 ''invalid len''), []) \<and>
   map requeued (internal_error_str 1 ''invalid len'') =
     [\<lparr>e_code = 0x01000000, e_file = Boring_Internal, e_line = 0, e_data = Data_CString ''invalid len''\<rparr>]"
proof
  have code: "ucast (ERR_PACK 1 0 0) = (0x01000000 :: 32 word)" by code_simp
  have "list_all requeues (internal_error_str 1 ''invalid len'')"
    by (simp add: internal_error_str_def new_internal_def requeues_def kept_code_def code)
  then show "error_stack_get (error_stack_put boringssl_errors (internal_error_str 1 ''invalid len'') []) =
     (map requeued (internal_error_str 1 ''invalid len''), [])"
    using stack_survives_queue[OF boringssl_errors_ok, of "internal_error_str 1 ''invalid len''"]
    by (simp add: internal_error_str_def err_limit_def)
  have "CHR 0x00 \<notin> set ''invalid len''" by code_simp
  then show "map requeued (internal_error_str 1 ''invalid len'') =
     [\<lparr>e_code = 0x01000000, e_file = Boring_Internal, e_line = 0, e_data = Data_CString ''invalid len''\<rparr>]"
    by (simp add: internal_error_str_def new_internal_def requeued_def error_data_cstr_def kept_code_def code)
qed

end
