(* ===== verification/Callbacks.thy ===== *)
theory Callbacks
  imports Async_Callbacks Error_Put
begin

text \<open>
  \<open>btls/src/ssl/callbacks.rs\<close>: the C functions that BoringSSL calls and that find the Rust callback, call
  it, and turn what it returns into C results and out parameters.

  The connection is any type \<open>'c\<close>; \<open>get_cb\<close> looks up the callback, as the code does in the extra data of
  the context, of the session context or of the connection. A panic aborts, because the functions are
  \<open>extern "C"\<close>. Out parameters are passed in with what they hold and returned with what they hold then.
\<close>

section \<open>Finding and calling\<close>

definition with_callback :: "string \<Rightarrow> 'cb option \<Rightarrow> ('cb \<Rightarrow> 'h \<Rightarrow> 'r outcome \<times> 'h) \<Rightarrow> 'h \<Rightarrow> 'r outcome \<times> 'h" where
  "with_callback bug found call h = (case found of None \<Rightarrow> (Panic bug, h) | Some cb \<Rightarrow> call cb h)"

text \<open>A result of a callback, converted; a panic goes on.\<close>

definition returning :: "('a \<Rightarrow> 'h \<Rightarrow> 'r outcome \<times> 'h) \<Rightarrow> 'a outcome \<times> 'h \<Rightarrow> 'r outcome \<times> 'h" where
  "returning conv p = (case p of (Ret v, h) \<Rightarrow> conv v h | (Panic m, h) \<Rightarrow> (Panic m, h))"

section \<open>Verification of a chain by \<open>X509_STORE_CTX\<close>\<close>

text \<open>
  \<open>ssl_idx\<close> is \<open>X509StoreContext::ssl_idx\<close>, \<open>ssl_of\<close> the extra data of the store context at that index.
\<close>

definition store_ssl :: "nat option \<Rightarrow> (nat \<Rightarrow> 'x \<Rightarrow> 'c option) \<Rightarrow> ('c \<Rightarrow> 'x \<Rightarrow> int outcome \<times> 'x) \<Rightarrow> 'x
     \<Rightarrow> int outcome \<times> 'x" where
  "store_ssl ssl_idx ssl_of f x =
     with_callback ''BUG: store context ssl index missing'' ssl_idx
       (\<lambda>i x. with_callback ''BUG: store context missing ssl'' (ssl_of i x) f x) x"

definition raw_verify ::
    "nat option \<Rightarrow> (nat \<Rightarrow> 'x \<Rightarrow> 'c option) \<Rightarrow> ('c \<Rightarrow> (bool \<Rightarrow> 'x \<Rightarrow> bool outcome \<times> 'x) option) \<Rightarrow> int \<Rightarrow> 'x
     \<Rightarrow> int outcome \<times> 'x" where
  "raw_verify ssl_idx ssl_of get_cb preverify_ok =
     store_ssl ssl_idx ssl_of (\<lambda>c. with_callback ''BUG: verify callback missing'' (get_cb c)
       (\<lambda>verify x. returning (\<lambda>b x. (Ret (of_bool b), x)) (verify (preverify_ok \<noteq> 0) x)))"

definition raw_cert_verify ::
    "nat option \<Rightarrow> (nat \<Rightarrow> 'x \<Rightarrow> 'c option) \<Rightarrow> ('c \<Rightarrow> ('x \<Rightarrow> bool outcome \<times> 'x) option) \<Rightarrow> 'x
     \<Rightarrow> int outcome \<times> 'x" where
  "raw_cert_verify ssl_idx ssl_of get_cb =
     store_ssl ssl_idx ssl_of (\<lambda>c. with_callback ''BUG: verify callback missing'' (get_cb c)
       (\<lambda>verify x. returning (\<lambda>b x. (Ret (of_bool b), x)) (verify x)))"

definition ssl_raw_verify ::
    "nat option \<Rightarrow> (nat \<Rightarrow> 'x \<Rightarrow> 'c option) \<Rightarrow> ('c \<Rightarrow> (bool \<Rightarrow> 'x \<Rightarrow> bool outcome \<times> 'x) option) \<Rightarrow> int \<Rightarrow> 'x
     \<Rightarrow> int outcome \<times> 'x" where
  "ssl_raw_verify ssl_idx ssl_of get_cb preverify_ok =
     store_ssl ssl_idx ssl_of (\<lambda>c. with_callback ''BUG: ssl verify callback missing'' (get_cb c)
       (\<lambda>verify x. returning (\<lambda>b x. (Ret (of_bool b), x)) (verify (preverify_ok \<noteq> 0) x)))"

section \<open>Custom verification\<close>

text \<open>An \<open>SslAlert\<close> is a \<open>c_int\<close>; the out parameter is one byte of it.\<close>

datatype ssl_verify_result = Verify_Ok | Verify_Invalid | Verify_Retry

type_synonym ssl_alert = "32 word"

type_synonym 'c verify_callback = "'c \<Rightarrow> (ssl_alert verify_error + unit) outcome \<times> 'c"

definition raw_custom_verify_callback :: "'c verify_callback \<Rightarrow> byte \<times> 'c \<Rightarrow> ssl_verify_result outcome \<times> byte \<times> 'c" where
  "raw_custom_verify_callback callback h =
     (case h of (out_alert, c) \<Rightarrow>
        (case callback c of
           (Panic m, c') \<Rightarrow> (Panic m, out_alert, c')
         | (Ret (Inr ()), c') \<Rightarrow> (Ret Verify_Ok, out_alert, c')
         | (Ret (Inl (Invalid alert)), c') \<Rightarrow> (Ret Verify_Invalid, ucast alert, c')
         | (Ret (Inl Retry), c') \<Rightarrow> (Ret Verify_Retry, out_alert, c')))"

definition raw_custom_verify ::
    "('c \<Rightarrow> 'c verify_callback option) \<Rightarrow> byte \<times> 'c \<Rightarrow> ssl_verify_result outcome \<times> byte \<times> 'c" where
  "raw_custom_verify get_cb =
     raw_custom_verify_callback (\<lambda>c. with_callback ''BUG: custom verify callback missing'' (get_cb c) (\<lambda>cb. cb) c)"

definition ssl_raw_custom_verify ::
    "('c \<Rightarrow> 'c verify_callback option) \<Rightarrow> byte \<times> 'c \<Rightarrow> ssl_verify_result outcome \<times> byte \<times> 'c" where
  "ssl_raw_custom_verify get_cb =
     raw_custom_verify_callback (\<lambda>c. with_callback ''BUG: ssl verify callback missing'' (get_cb c) (\<lambda>cb. cb) c)"

section \<open>Pre-shared keys\<close>

text \<open>
  The callback gets the identity and key buffers and returns the length of the key, cast to \<open>c_uint\<close>; an
  error goes back onto the error queue, which is part of the state here, and the length is 0.
\<close>

definition psk_result :: "err_api \<Rightarrow> error_stack + nat \<Rightarrow> 'h \<times> err_queue \<Rightarrow> 32 word outcome \<times> 'h \<times> err_queue" where
  "psk_result A r p =
     (case r of
        Inr psk_len \<Rightarrow> (Ret (of_nat psk_len), p)
      | Inl e \<Rightarrow> (Ret 0, fst p, error_stack_put A e (snd p)))"

definition raw_client_psk ::
    "err_api
     \<Rightarrow> ('c \<Rightarrow> (byte list option \<Rightarrow> (byte list \<times> byte list \<times> 'c) \<times> err_queue
               \<Rightarrow> (error_stack + nat) outcome \<times> (byte list \<times> byte list \<times> 'c) \<times> err_queue) option)
     \<Rightarrow> byte list option \<Rightarrow> (byte list \<times> byte list \<times> 'c) \<times> err_queue
     \<Rightarrow> 32 word outcome \<times> (byte list \<times> byte list \<times> 'c) \<times> err_queue" where
  "raw_client_psk A get_cb hint p =
     with_callback ''BUG: psk callback missing'' (get_cb (snd (snd (fst p))))
       (\<lambda>callback p. returning (psk_result A) (callback hint p)) p"

definition raw_server_psk ::
    "err_api
     \<Rightarrow> ('c \<Rightarrow> (byte list option \<Rightarrow> (byte list \<times> 'c) \<times> err_queue
               \<Rightarrow> (error_stack + nat) outcome \<times> (byte list \<times> 'c) \<times> err_queue) option)
     \<Rightarrow> byte list option \<Rightarrow> (byte list \<times> 'c) \<times> err_queue
     \<Rightarrow> 32 word outcome \<times> (byte list \<times> 'c) \<times> err_queue" where
  "raw_server_psk A get_cb identity p =
     with_callback ''BUG: psk callback missing'' (get_cb (snd (fst p)))
       (\<lambda>callback p. returning (psk_result A) (callback identity p)) p"

section \<open>Extensions\<close>

text \<open>The codes of the library that the functions compare with or return.\<close>

record tls_codes =
  SSL_TLSEXT_ERR_OK :: int
  SSL_TLSEXT_ERR_ALERT_FATAL :: int
  SSL_TLSEXT_ERR_NOACK :: int
  SSL_CB_READ_ALERT :: int
  SSL_CB_WRITE_ALERT :: int

text \<open>An \<open>SniError\<close> and an \<open>AlpnError\<close> are their codes. The server name callback is found through \<open>arg\<close>.\<close>

definition raw_sni ::
    "tls_codes \<Rightarrow> (ssl_alert \<times> 'c \<Rightarrow> (int + unit) outcome \<times> ssl_alert \<times> 'c) \<Rightarrow> 32 word \<times> 'c
     \<Rightarrow> int outcome \<times> 32 word \<times> 'c" where
  "raw_sni K callback h =
     (case h of (al, c) \<Rightarrow>
        (case callback (al, c) of
           (Panic m, _, c') \<Rightarrow> (Panic m, al, c')
         | (Ret (Inr ()), alert, c') \<Rightarrow> (Ret (SSL_TLSEXT_ERR_OK K), alert, c')
         | (Ret (Inl e), alert, c') \<Rightarrow> (Ret e, alert, c')))"

text \<open>
  \<open>out\<close> and \<open>outlen\<close>: where the protocol begins is modelled by the bytes that the callback returned;
  BoringSSL reads \<open>outlen\<close> of them.
\<close>

definition raw_alpn_select ::
    "tls_codes \<Rightarrow> ('c \<Rightarrow> (byte list \<Rightarrow> 'c \<Rightarrow> (int + byte list) outcome \<times> 'c) option) \<Rightarrow> byte list
     \<Rightarrow> byte list \<times> byte \<times> 'c \<Rightarrow> int outcome \<times> byte list \<times> byte \<times> 'c" where
  "raw_alpn_select K get_cb protos h =
     (case h of (out, outlen, c) \<Rightarrow>
        (case with_callback ''BUG: alpn callback missing'' (get_cb c) (\<lambda>callback. callback protos) c of
           (Panic m, c') \<Rightarrow> (Panic m, out, outlen, c')
         | (Ret (Inr proto), c') \<Rightarrow> (Ret (SSL_TLSEXT_ERR_OK K), proto, of_nat (length proto), c')
         | (Ret (Inl e), c') \<Rightarrow> (Ret e, out, outlen, c')))"

definition raw_tlsext_status ::
    "tls_codes \<Rightarrow> err_api \<Rightarrow> ('c \<Rightarrow> bool)
     \<Rightarrow> ('c \<Rightarrow> ('c \<times> err_queue \<Rightarrow> (error_stack + bool) outcome \<times> 'c \<times> err_queue) option)
     \<Rightarrow> 'c \<times> err_queue \<Rightarrow> int outcome \<times> 'c \<times> err_queue" where
  "raw_tlsext_status K A is_server get_cb h =
     with_callback ''BUG: ocsp callback missing'' (get_cb (fst h))
       (\<lambda>callback h. returning
          (\<lambda>r h. case h of (c, q) \<Rightarrow>
             if is_server c then
               (case r of
                  Inr True \<Rightarrow> (Ret (SSL_TLSEXT_ERR_OK K), c, q)
                | Inr False \<Rightarrow> (Ret (SSL_TLSEXT_ERR_NOACK K), c, q)
                | Inl e \<Rightarrow> (Ret (SSL_TLSEXT_ERR_ALERT_FATAL K), c, error_stack_put A e q))
             else
               (case r of
                  Inr True \<Rightarrow> (Ret 1, c, q)
                | Inr False \<Rightarrow> (Ret 0, c, q)
                | Inl e \<Rightarrow> (Ret (- 1), c, error_stack_put A e q)))
          (callback h)) h"

text \<open>
  Ticket keys: the callback writes the name of the key and the iv, which are zeroed for it when a ticket
  is made, and sets up the cipher and the MAC, of type \<open>'e\<close>.
\<close>

datatype ticket_key_callback_result = Ticket_Error | Ticket_Noop | Ticket_Success | Decrypt_Success_Renew

fun ticket_result_code :: "ticket_key_callback_result \<Rightarrow> int" where
  "ticket_result_code Ticket_Error = - 1"
| "ticket_result_code Ticket_Noop = 0"
| "ticket_result_code Ticket_Success = 1"
| "ticket_result_code Decrypt_Success_Renew = 2"

definition raw_ticket_key ::
    "('c \<Rightarrow> ('c \<Rightarrow> bool \<Rightarrow> byte list \<times> byte list \<times> 'e
              \<Rightarrow> ticket_key_callback_result outcome \<times> byte list \<times> byte list \<times> 'e) option)
     \<Rightarrow> 'c \<Rightarrow> int \<Rightarrow> byte list \<times> byte list \<times> 'e \<Rightarrow> int outcome \<times> byte list \<times> byte list \<times> 'e" where
  "raw_ticket_key get_cb c encrypt h =
     with_callback ''expected session resumption callback'' (get_cb c)
       (\<lambda>callback h. case h of (key_name, iv, e) \<Rightarrow>
          returning (\<lambda>r h. (Ret (ticket_result_code r), h))
            (callback c (encrypt = 1)
               (if encrypt = 1 then (replicate 16 0, replicate 16 0, e) else (key_name, iv, e)))) h"

section \<open>Certificate selection\<close>

datatype ssl_select_cert_result = Select_Cert_Success | Select_Cert_Retry | Select_Cert_Error | Select_Cert_Disable_Ech

definition raw_select_cert ::
    "('c \<Rightarrow> bool) \<Rightarrow> ('c \<Rightarrow> ('c \<Rightarrow> (select_cert_error + select_cert_action) outcome \<times> 'c) option) \<Rightarrow> 'c
     \<Rightarrow> ssl_select_cert_result outcome \<times> 'c" where
  "raw_select_cert ech_accepted get_cb c =
     with_callback ''BUG: select cert callback missing'' (get_cb c)
       (\<lambda>callback c. returning
          (\<lambda>r c'. (Ret (case r of
               Inr Success \<Rightarrow> Select_Cert_Success
             | Inr DisableEch \<Rightarrow> if ech_accepted c then Select_Cert_Disable_Ech else Select_Cert_Error
             | Inl Select_Error \<Rightarrow> Select_Cert_Error
             | Inl Select_Retry \<Rightarrow> Select_Cert_Retry), c'))
          (callback c)) c"

section \<open>Sessions\<close>

text \<open>\<open>get_ctx\<close> is the session context in the extra data of the connection.\<close>

definition raw_new_session ::
    "('c \<Rightarrow> 'x option) \<Rightarrow> ('x \<Rightarrow> ('n \<Rightarrow> 'c \<Rightarrow> unit outcome \<times> 'c) option) \<Rightarrow> 'n \<Rightarrow> 'c \<Rightarrow> int outcome \<times> 'c" where
  "raw_new_session get_ctx get_cb session c =
     with_callback ''BUG: session context missing'' (get_ctx c)
       (\<lambda>x. with_callback ''BUG: new session callback missing'' (get_cb x)
          (\<lambda>callback c. returning (\<lambda>_ c. (Ret 1, c)) (callback session c))) c"

definition raw_remove_session ::
    "('c \<Rightarrow> ('n \<Rightarrow> 'c \<Rightarrow> unit outcome \<times> 'c) option) \<Rightarrow> 'n \<Rightarrow> 'c \<Rightarrow> unit outcome \<times> 'c" where
  "raw_remove_session get_cb session c =
     with_callback ''BUG: remove session callback missing'' (get_cb c) (\<lambda>callback. callback session) c"

text \<open>What \<open>raw_get_session\<close> returns: null, a session that is now the caller's, or the magic pointer.\<close>

datatype 'n session_ptr = Null_Session | Session_Ptr 'n | Magic_Pending_Session

definition raw_get_session ::
    "('c \<Rightarrow> 'x option) \<Rightarrow> ('x \<Rightarrow> (byte list \<Rightarrow> 'c \<Rightarrow> (unit + 'n option) outcome \<times> 'c) option) \<Rightarrow> byte list
     \<Rightarrow> int \<times> 'c \<Rightarrow> 'n session_ptr outcome \<times> int \<times> 'c" where
  "raw_get_session get_ctx get_cb sid h =
     (case h of (copy, c) \<Rightarrow>
        (case with_callback ''BUG: session context missing'' (get_ctx c)
                (\<lambda>x. with_callback ''BUG: get session callback missing'' (get_cb x) (\<lambda>callback. callback sid)) c of
           (Panic m, c') \<Rightarrow> (Panic m, copy, c')
         | (Ret (Inr (Some session)), c') \<Rightarrow> (Ret (Session_Ptr session), 0, c')
         | (Ret (Inr None), c') \<Rightarrow> (Ret Null_Session, copy, c')
         | (Ret (Inl ()), c') \<Rightarrow> (Ret Magic_Pending_Session, copy, c')))"

section \<open>Logging\<close>

text \<open>\<open>lossy\<close> is \<open>CStr::to_string_lossy\<close>.\<close>

definition raw_keylog ::
    "(byte list \<Rightarrow> string) \<Rightarrow> ('c \<Rightarrow> (string \<Rightarrow> 'c \<Rightarrow> unit outcome \<times> 'c) option) \<Rightarrow> byte list \<Rightarrow> 'c
     \<Rightarrow> unit outcome \<times> 'c" where
  "raw_keylog lossy get_cb line c =
     with_callback ''BUG: get session callback missing'' (get_cb c) (\<lambda>callback. callback (lossy line)) c"

datatype ssl_info_callback_value = Info_Unit | Info_Alert "32 word"

text \<open>\<open>SslInfoCallbackAlert::alert_level\<close> and \<open>alert\<close>.\<close>

definition alert_level :: "32 word \<Rightarrow> 32 word" where
  "alert_level v = signed_drop_bit 8 v"

definition alert_value :: "32 word \<Rightarrow> 32 word" where
  "alert_value v = v AND 255"

definition raw_info_callback ::
    "tls_codes \<Rightarrow> ('c \<Rightarrow> (int \<Rightarrow> ssl_info_callback_value \<Rightarrow> 'c \<Rightarrow> unit outcome \<times> 'c) option) \<Rightarrow> int \<Rightarrow> 32 word \<Rightarrow> 'c
     \<Rightarrow> unit outcome \<times> 'c" where
  "raw_info_callback K get_cb mode v c =
     with_callback ''BUG: info callback missing'' (get_cb c)
       (\<lambda>callback. callback mode
          (if mode = SSL_CB_READ_ALERT K \<or> mode = SSL_CB_WRITE_ALERT K then Info_Alert v else Info_Unit)) c"

section \<open>Private keys\<close>

datatype ssl_private_key_result = Private_Key_Success | Private_Key_Retry | Private_Key_Failure

text \<open>\<open>PrivateKeyMethod\<close>; the handle is the output buffer and the connection.\<close>

record 'c private_key_method =
  pkm_sign :: "byte list \<Rightarrow> 16 word \<Rightarrow> byte list \<times> 'c \<Rightarrow> (private_key_error + nat) outcome \<times> byte list \<times> 'c"
  pkm_decrypt :: "byte list \<Rightarrow> byte list \<times> 'c \<Rightarrow> (private_key_error + nat) outcome \<times> byte list \<times> 'c"
  pkm_complete :: "byte list \<times> 'c \<Rightarrow> (private_key_error + nat) outcome \<times> byte list \<times> 'c"

text \<open>The output buffer \<open>out\<close> has \<open>max_out\<close> bytes; \<open>out_len\<close> is set on success only.\<close>

definition raw_private_key_callback ::
    "('c \<Rightarrow> 'c private_key_method option)
     \<Rightarrow> ('c private_key_method \<Rightarrow> byte list \<times> 'c \<Rightarrow> (private_key_error + nat) outcome \<times> byte list \<times> 'c)
     \<Rightarrow> nat \<Rightarrow> nat \<times> byte list \<times> 'c \<Rightarrow> ssl_private_key_result outcome \<times> nat \<times> byte list \<times> 'c" where
  "raw_private_key_callback get_cb callback max_out h =
     (case h of (out_len, out, c) \<Rightarrow>
        (case with_callback ''BUG: private key method missing'' (get_cb c) callback (out, c) of
           (Panic m, h') \<Rightarrow> (Panic m, out_len, h')
         | (Ret (Inr written), h') \<Rightarrow>
             if written \<le> max_out then (Ret Private_Key_Success, written, h')
             else (Panic ''assertion failed: written <= max_out'', out_len, h')
         | (Ret (Inl Key_Failure), h') \<Rightarrow> (Ret Private_Key_Failure, out_len, h')
         | (Ret (Inl Key_Retry), h') \<Rightarrow> (Ret Private_Key_Retry, out_len, h')))"

definition raw_sign where
  "raw_sign get_cb signature_algorithm input =
     raw_private_key_callback get_cb (\<lambda>method. pkm_sign method input signature_algorithm)"

definition raw_decrypt where
  "raw_decrypt get_cb input = raw_private_key_callback get_cb (\<lambda>method. pkm_decrypt method input)"

definition raw_complete where
  "raw_complete get_cb = raw_private_key_callback get_cb pkm_complete"

section \<open>Certificate compression\<close>

text \<open>
  What a \<open>CertificateCompressor\<close> does with the \<open>io::Write\<close> it is given: it writes and flushes as it likes,
  looking at the results, and ends with a result.
\<close>

datatype writing =
    Finished "unit io_result"
  | Write_Bytes "byte list" "nat io_result \<Rightarrow> writing"
  | Flush_Writer "unit io_result \<Rightarrow> writing"

primrec run_writing ::
    "(byte list \<Rightarrow> 's \<Rightarrow> nat io_result \<times> 's) \<Rightarrow> ('s \<Rightarrow> unit io_result \<times> 's) \<Rightarrow> writing \<Rightarrow> 's
     \<Rightarrow> unit io_result \<times> 's" where
  "run_writing wr fl (Finished r) s = (r, s)"
| "run_writing wr fl (Write_Bytes bs k) s = run_writing wr fl (k (fst (wr bs s))) (snd (wr bs s))"
| "run_writing wr fl (Flush_Writer k) s = run_writing wr fl (k (fst (fl s))) (snd (fl s))"

text \<open>\<open>io::Write for CryptoByteBuilder\<close> over \<open>CBB_add_bytes\<close> and \<open>CBB_flush\<close>.\<close>

record 'b cbb_api =
  CBB_add_bytes :: "byte list \<Rightarrow> 'b \<Rightarrow> int \<times> 'b"
  CBB_flush :: "'b \<Rightarrow> int \<times> 'b"

definition cbb_write :: "'b cbb_api \<Rightarrow> byte list \<Rightarrow> 'b \<Rightarrow> nat io_result \<times> 'b" where
  "cbb_write B buf b =
     (case CBB_add_bytes B buf b of
        (r, b') \<Rightarrow> (if r = 1 then Inr (length buf) else Inl (Io_Error OtherKind (Message ''CBB_add_bytes failed'')), b'))"

definition cbb_flush_writer :: "'b cbb_api \<Rightarrow> 'b \<Rightarrow> unit io_result \<times> 'b" where
  "cbb_flush_writer B b =
     (case CBB_flush B b of
        (r, b') \<Rightarrow> (if r = 1 then Inr () else Inl (Io_Error OtherKind (Message ''CBB_flush failed'')), b'))"

definition raw_ssl_cert_compress ::
    "'b cbb_api \<Rightarrow> ('c \<Rightarrow> (byte list \<Rightarrow> writing) option) \<Rightarrow> 'c \<Rightarrow> byte list \<Rightarrow> 'b \<Rightarrow> int outcome \<times> 'b" where
  "raw_ssl_cert_compress B get_cb c input b =
     with_callback ''BUG: certificate compression missed'' (get_cb c)
       (\<lambda>compress b.
          (case run_writing (cbb_write B) (cbb_flush_writer B) (compress input) b of
             (Inl _, b') \<Rightarrow> (Ret 0, b')
           | (Inr _, b') \<Rightarrow> (Ret 1, b'))) b"

text \<open>
  \<open>CryptoBufferBuilder\<close>: the buffer pointer, null as \<open>None\<close>, and a cursor over the bytes of the buffer.
\<close>

record crypto_buffer_builder =
  cb_buffer :: "byte list option"
  cb_position :: nat

text \<open>\<open>io::Write for Cursor<&mut [u8]>\<close>: writes what fits, and flushing does nothing.\<close>

definition cursor_write :: "byte list \<Rightarrow> crypto_buffer_builder \<Rightarrow> nat io_result \<times> crypto_buffer_builder" where
  "cursor_write buf s =
     (case cb_buffer s of
        None \<Rightarrow> (Inr 0, s)
      | Some data \<Rightarrow>
          (let start = min (cb_position s) (length data); n = min (length buf) (length data - start)
           in (Inr n, \<lparr>cb_buffer = Some (take start data @ take n buf @ drop (start + n) data),
                        cb_position = cb_position s + n\<rparr>)))"

text \<open>
  \<open>with_capacity\<close>, \<open>build\<close> and \<open>drop\<close>; \<open>alloc\<close> is \<open>CRYPTO_BUFFER_alloc\<close>, with the bytes it leaves in the
  buffer. \<open>live\<close> counts the crypto buffers that are not freed.
\<close>

definition builder_with_capacity ::
    "(nat \<Rightarrow> byte list option) \<Rightarrow> nat \<Rightarrow> nat \<times> err_queue \<Rightarrow> (error_stack + crypto_buffer_builder) \<times> nat \<times> err_queue"
  where
  "builder_with_capacity alloc cap s =
     (case s of (live, q) \<Rightarrow>
        (case cvt_p (alloc cap) q of
           (Inl es, q') \<Rightarrow> (Inl es, live, q')
         | (Inr data, q') \<Rightarrow> (Inr \<lparr>cb_buffer = Some data, cb_position = 0\<rparr>, live + 1, q')))"

definition builder_drop :: "crypto_buffer_builder \<Rightarrow> nat \<Rightarrow> nat" where
  "builder_drop s live = (case cb_buffer s of None \<Rightarrow> live | Some _ \<Rightarrow> live - 1)"

definition builder_build :: "32 word \<Rightarrow> crypto_buffer_builder \<Rightarrow> nat \<Rightarrow> (error_stack + byte list option) \<times> nat" where
  "builder_build err_lib_none s live =
     (let buffer_capacity = (case cb_buffer s of None \<Rightarrow> 0 | Some data \<Rightarrow> length data)
      in if cb_position s \<noteq> buffer_capacity
         then (Inl (internal_error_str err_lib_none ''invalid len''), builder_drop s live)
         else (Inr (cb_buffer s), builder_drop (s\<lparr>cb_buffer := None\<rparr>) live))"

text \<open>\<open>out\<close> is the buffer handed to BoringSSL, if it was set.\<close>

definition raw_ssl_cert_decompress ::
    "32 word \<Rightarrow> (nat \<Rightarrow> byte list option) \<Rightarrow> ('c \<Rightarrow> (byte list \<Rightarrow> writing) option) \<Rightarrow> 'c \<Rightarrow> nat \<Rightarrow> byte list
     \<Rightarrow> byte list option \<times> nat \<times> err_queue \<Rightarrow> int outcome \<times> byte list option \<times> nat \<times> err_queue" where
  "raw_ssl_cert_decompress err_lib_none alloc get_cb c uncompressed_len input h =
     with_callback ''BUG: certificate compression missed'' (get_cb c)
       (\<lambda>decompress h. case h of (out, live, q) \<Rightarrow>
          (case builder_with_capacity alloc uncompressed_len (live, q) of
             (Inl _, live', q') \<Rightarrow> (Ret 0, out, live', q')
           | (Inr b, live', q') \<Rightarrow>
               (case run_writing cursor_write (\<lambda>s. (Inr (), s)) (decompress input) b of
                  (Inl _, b') \<Rightarrow> (Ret 0, out, builder_drop b' live', q')
                | (Inr _, b') \<Rightarrow>
                    (case builder_build err_lib_none b' live' of
                       (Inl _, live'') \<Rightarrow> (Ret 0, out, live'', q')
                     | (Inr buffer, live'') \<Rightarrow> (Ret 1, buffer, live'', q'))))) h"

section \<open>Decompression\<close>

text \<open>
  What a decompressor writes if there is room for \<open>room\<close> bytes and no write fails: its result and the bytes
  that were accepted.
\<close>

primrec output_of :: "writing \<Rightarrow> nat \<Rightarrow> unit io_result \<times> byte list" where
  "output_of (Finished r) room = (r, [])"
| "output_of (Write_Bytes bs k) room =
     (case output_of (k (Inr (min (length bs) room))) (room - min (length bs) room) of
        (r, out) \<Rightarrow> (r, take (min (length bs) room) bs @ out))"
| "output_of (Flush_Writer k) room = output_of (k (Inr ())) room"

lemma output_fits: "length (snd (output_of w room)) \<le> room"
proof (induction w arbitrary: room)
  case (Write_Bytes bs k)
  have "length (snd (output_of (k (Inr (min (length bs) room))) (room - min (length bs) room)))
      \<le> room - min (length bs) room"
    by (rule Write_Bytes.IH) simp
  then show ?case by (auto split: prod.splits)
qed simp_all

definition cursor_at :: "byte list \<Rightarrow> byte list \<Rightarrow> crypto_buffer_builder" where
  "cursor_at out rest = \<lparr>cb_buffer = Some (out @ rest), cb_position = length out\<rparr>"

lemma cursor_write_at:
  "cursor_write bs (cursor_at out rest) =
     (Inr (min (length bs) (length rest)),
      cursor_at (out @ take (min (length bs) (length rest)) bs) (drop (min (length bs) (length rest)) rest))"
  by (simp add: cursor_write_def cursor_at_def Let_def)

lemma run_cursor:
  "run_writing cursor_write (\<lambda>s. (Inr (), s)) w (cursor_at out rest) =
     (fst (output_of w (length rest)),
      cursor_at (out @ snd (output_of w (length rest))) (drop (length (snd (output_of w (length rest)))) rest))"
proof (induction w arbitrary: out rest)
  case (Write_Bytes bs k)
  let ?n = "min (length bs) (length rest)"
  have "run_writing cursor_write (\<lambda>s. (Inr (), s)) (k (Inr ?n)) (cursor_at (out @ take ?n bs) (drop ?n rest)) =
     (fst (output_of (k (Inr ?n)) (length rest - ?n)),
      cursor_at ((out @ take ?n bs) @ snd (output_of (k (Inr ?n)) (length rest - ?n)))
        (drop (length (snd (output_of (k (Inr ?n)) (length rest - ?n)))) (drop ?n rest)))"
    using Write_Bytes.IH[of "k (Inr ?n)" "out @ take ?n bs" "drop ?n rest"] by simp
  then show ?case
    by (simp add: cursor_write_at split: prod.split) (simp add: add.commute min_def)
qed simp_all

text \<open>
  C14: A decompressed certificate is handed to BoringSSL only if the decompressor succeeded and wrote
  exactly the announced number of bytes, and then it is what it wrote; otherwise the out parameter is
  untouched and the buffer is freed.
\<close>

theorem decompressed_is_complete:
  assumes "\<And>n data. alloc n = Some data \<Longrightarrow> length data = n" "get_cb c = Some decompress"
  shows "raw_ssl_cert_decompress err_lib_none alloc get_cb c n input (out, live, q) =
    (case alloc n of
       None \<Rightarrow> (Ret 0, out, live, snd (error_stack_get q))
     | Some _ \<Rightarrow>
         (case output_of (decompress input) n of
            (Inr _, bs) \<Rightarrow> if length bs = n then (Ret 1, Some bs, live + 1, q) else (Ret 0, out, live, q)
          | (Inl _, _) \<Rightarrow> (Ret 0, out, live, q)))"
proof (cases "alloc n")
  case None
  then show ?thesis
    by (simp add: raw_ssl_cert_decompress_def with_callback_def assms(2) builder_with_capacity_def cvt_p_def
        fail_stack_def split: prod.split)
next
  case (Some data)
  then have len: "length data = n" by (rule assms(1))
  obtain r bs where out: "output_of (decompress input) n = (r, bs)" by fastforce
  have fits: "length bs \<le> n" using output_fits[of "decompress input" n] by (simp add: out)
  have "run_writing cursor_write (\<lambda>s. (Inr (), s)) (decompress input) \<lparr>cb_buffer = Some data, cb_position = 0\<rparr> =
      (r, cursor_at bs (drop (length bs) data))"
    using run_cursor[of "decompress input" "[]" data] by (simp add: len out cursor_at_def)
  note run = this
  have built: "builder_with_capacity alloc n (live, q) =
      (Inr \<lparr>cb_buffer = Some data, cb_position = 0\<rparr>, live + 1, q)"
    by (simp add: builder_with_capacity_def cvt_p_def Some)
  have build: "length bs = n \<Longrightarrow> builder_build err_lib_none (cursor_at bs (drop n data)) (Suc live) =
      (Inr (Some bs), Suc live)"
    "length bs \<noteq> n \<Longrightarrow> builder_build err_lib_none (cursor_at bs (drop (length bs) data)) (Suc live) =
      (Inl (internal_error_str err_lib_none ''invalid len''), live)"
    using fits len by (simp_all add: builder_build_def builder_drop_def cursor_at_def)
  have dropped: "builder_drop (cursor_at bs rest) (Suc live) = live" for rest
    by (simp add: builder_drop_def cursor_at_def)
  show ?thesis
    by (simp add: raw_ssl_cert_decompress_def with_callback_def assms(2) built run build dropped Some out
        split: sum.split)
qed

definition echo_bytes :: "byte list \<Rightarrow> writing" where
  "echo_bytes input = Write_Bytes input (\<lambda>_. Flush_Writer Finished)"

theorem decompressed_is_complete_witness:
  "raw_ssl_cert_decompress 1 (\<lambda>n. Some (replicate n 0)) (\<lambda>_. Some echo_bytes) () 3 [1, 2, 3] (None, 0, []) =
     (Ret 1, Some [1, 2, 3], 1, [])"
  using decompressed_is_complete[where alloc = "\<lambda>n. Some (replicate n 0)" and get_cb = "\<lambda>_. Some echo_bytes" and c = "()"
      and decompress = echo_bytes and n = 3 and input = "[1, 2, 3]" and err_lib_none = 1 and out = None and live = 0 and q = "[]"]
  by (simp add: echo_bytes_def)

section \<open>Asynchronous callbacks as BoringSSL calls them\<close>

text \<open>
  The C functions around the asynchronous callbacks drive their futures too: here the handle has the out
  parameters besides the connection.
\<close>

definition raw_verify_complete where
  "raw_verify_complete run v h =
     (case h of (out_alert, c) \<Rightarrow>
        (case v of
           Inl alert \<Rightarrow> (Ret Verify_Invalid, ucast (alert :: ssl_alert), c)
         | Inr finish \<Rightarrow>
             (case run finish c of
                (Inl alert, c') \<Rightarrow> (Ret Verify_Invalid, ucast (alert :: ssl_alert), c')
              | (Inr _, c') \<Rightarrow> (Ret Verify_Ok, out_alert, c'))))"

definition on_snd :: "('c \<Rightarrow> 'r \<times> 'c) \<Rightarrow> 'a \<times> 'c \<Rightarrow> 'r \<times> 'a \<times> 'c" where
  "on_snd f h = (case f (snd h) of (r, c) \<Rightarrow> (r, fst h, c))"

lemma future_on_snd:
  "with_ex_data_future pl i snd (\<lambda>c h. (fst h, c)) (on_snd create_fut) into_result w h =
     on_snd (with_ex_data_future pl i (\<lambda>c. c) (\<lambda>c _. c) create_fut into_result w) h"
  by (cases h)
    (simp add: with_ex_data_future_def on_snd_def split: option.split prod.split poll.split sum.split)

definition async_verify where
  "async_verify pl run callback w = raw_custom_verify (\<lambda>_. Some (async_custom_verify_callback pl run callback w))"

interpretation raw_verify: future_callback pl SELECT_CUSTOM_VERIFY_FUTURE_INDEX snd "\<lambda>c h. (fst h, c)"
    "on_snd callback" "\<lambda>r. r" Verify_Retry "raw_verify_complete run" "async_verify pl run callback"
    "async_verify pl run callback"
  for pl :: "('f, 'k, 'w, ssl_alert + 'g) poll_fn" and run callback
  by unfold_locales
    (simp_all add: async_verify_def raw_custom_verify_def raw_custom_verify_callback_def with_callback_def
      verify_answer future_on_snd on_snd_def answer_def verify_complete_def raw_verify_complete_def
      split: prod.split outcome.split poll.split sum.split unit.split)

definition raw_key_complete where
  "raw_key_complete max_out run v h =
     (case h of (out_len, out, c) \<Rightarrow>
        (case v of
           Inl (_ :: unit) \<Rightarrow> (Ret Private_Key_Failure, out_len, out, c)
         | Inr finish \<Rightarrow>
             (case run finish (out, c) of
                (Inl (_ :: unit), h') \<Rightarrow> (Ret Private_Key_Failure, out_len, h')
              | (Inr n, h') \<Rightarrow>
                  if n \<le> max_out then (Ret Private_Key_Success, n, h')
                  else (Panic ''assertion failed: written <= max_out'', out_len, h'))))"

text \<open>\<open>AsyncPrivateKeyMethodBridge\<close> as a \<open>PrivateKeyMethod\<close>, when its futures are polled in the world \<open>w\<close>.\<close>

definition bridge :: "('f, 'k, 's) async_key_method \<Rightarrow> bool \<Rightarrow> ('f, 'k, 'w, unit + 'g) poll_fn
     \<Rightarrow> ('g \<Rightarrow> byte list \<times> ('k, 'f, 's) async_ssl \<Rightarrow> (unit + nat) \<times> byte list \<times> ('k, 'f, 's) async_ssl) \<Rightarrow> 'w
     \<Rightarrow> ('k, 'f, 's) async_ssl private_key_method" where
  "bridge M debug_assertions pl run w =
     \<lparr>pkm_sign = (\<lambda>input alg. bridge_sign M pl run input alg w),
      pkm_decrypt = (\<lambda>input. bridge_decrypt M pl run input w),
      pkm_complete = bridge_complete debug_assertions pl run w\<rparr>"

text \<open>The functions that BoringSSL calls for a key with that method.\<close>

definition async_raw_sign where
  "async_raw_sign M dbg pl run input alg max_out w = raw_sign (\<lambda>_. Some (bridge M dbg pl run w)) alg input max_out"

definition async_raw_decrypt where
  "async_raw_decrypt M dbg pl run input max_out w = raw_decrypt (\<lambda>_. Some (bridge M dbg pl run w)) input max_out"

definition async_raw_complete where
  "async_raw_complete M dbg pl run max_out w = raw_complete (\<lambda>_. Some (bridge M dbg pl run w)) max_out"

definition key_ssl :: "nat \<times> byte list \<times> 'c \<Rightarrow> 'c" where
  "key_ssl h = snd (snd h)"

definition key_set_ssl :: "'c \<Rightarrow> nat \<times> byte list \<times> 'c \<Rightarrow> nat \<times> byte list \<times> 'c" where
  "key_set_ssl c h = (fst h, fst (snd h), c)"

lemma key_ssl_laws [simp]:
  "key_ssl (key_set_ssl c h) = c" "key_set_ssl c' (key_set_ssl c h) = key_set_ssl c' h"
  by (simp_all add: key_ssl_def key_set_ssl_def)

lemma future_on_key:
  "with_ex_data_future pl i key_ssl key_set_ssl (on_snd create_fut) into_result w h =
     on_snd (with_ex_data_future pl i snd (\<lambda>c h. (fst h, c)) create_fut into_result w) h"
  by (cases h)
    (simp add: with_ex_data_future_def on_snd_def key_ssl_def key_set_ssl_def
      split: option.split prod.split poll.split sum.split)

lemma raw_key_answer:
  "raw_private_key_callback (\<lambda>_. Some m) (\<lambda>_. with_private_key_method pl run create_fut w) max_out h =
     answer Private_Key_Retry (raw_key_complete max_out run)
       (with_ex_data_future pl SELECT_PRIVATE_KEY_METHOD_FUTURE_INDEX key_ssl key_set_ssl (on_snd create_fut)
          (\<lambda>r. r) w h)"
  by (cases h)
    (simp add: raw_private_key_callback_def with_callback_def key_answer future_on_key on_snd_def answer_def
      key_complete_def raw_key_complete_def
      split: prod.split outcome.split poll.split sum.split)

lemma async_raw_sign_answer:
  "async_raw_sign M dbg pl run input alg max_out w h =
     answer Private_Key_Retry (raw_key_complete max_out run)
       (with_ex_data_future pl SELECT_PRIVATE_KEY_METHOD_FUTURE_INDEX key_ssl key_set_ssl
          (on_snd (akm_sign M input alg)) (\<lambda>r. r) w h)"
  by (simp add: async_raw_sign_def raw_sign_def raw_key_answer[symmetric, where m = "bridge M dbg pl run w"]
      bridge_sign_def raw_private_key_callback_def with_callback_def bridge_def)

lemma async_raw_complete_answer:
  assumes "as_waker (key_ssl h) = Some (Some k)"
    "slot_get SELECT_PRIVATE_KEY_METHOD_FUTURE_INDEX (key_ssl h) = Some (Some f)"
  shows "async_raw_complete M dbg pl run max_out w h =
     answer Private_Key_Retry (raw_key_complete max_out run)
       (with_ex_data_future pl SELECT_PRIVATE_KEY_METHOD_FUTURE_INDEX key_ssl key_set_ssl
          (on_snd create_fut) (\<lambda>r. r) w h)"
proof -
  have "bridge_complete dbg pl run w (snd h) = with_private_key_method pl run create_fut w (snd h)"
    using assms by (intro bridge_complete_stored) (simp_all add: key_ssl_def)
  then have "async_raw_complete M dbg pl run max_out w h =
      raw_private_key_callback (\<lambda>_. Some (bridge M dbg pl run w))
        (\<lambda>_. with_private_key_method pl run create_fut w) max_out h"
    by (cases h)
      (simp add: async_raw_complete_def raw_complete_def raw_private_key_callback_def with_callback_def bridge_def)
  then show ?thesis by (simp add: raw_key_answer)
qed

interpretation raw_key: future_callback pl SELECT_PRIVATE_KEY_METHOD_FUTURE_INDEX key_ssl key_set_ssl
    "on_snd (akm_sign M input alg)" "\<lambda>r. r" Private_Key_Retry "raw_key_complete max_out run"
    "async_raw_sign M dbg pl run input alg max_out" "async_raw_complete M dbg pl run max_out"
  for M :: "('f, 'k, 's) async_key_method" and dbg and pl :: "('f, 'k, 'w, unit + 'g) poll_fn"
    and run input alg max_out
  by unfold_locales
    (simp_all add: async_raw_sign_answer async_raw_complete_answer)

section \<open>Properties of the asynchronous callbacks\<close>

text \<open>
  C12: BoringSSL's calls of the C function for an asynchronous verification get \<open>ssl_verify_retry\<close> as long
  as the future is pending, and then the verdict of its closure on the connection, with the low byte of
  the alert in \<open>out_alert\<close> exactly if the verdict is negative.
\<close>

theorem async_verification_as_called:
  assumes "idle SELECT_CUSTOM_VERIFY_FUTURE_INDEX c"
    and "callback (set_task_waker (Some k0) c) = (Inr f, c1)"
    and "pending_through pl ((k0, w0) # ps) f = Some f'" and "pl f' k w = (Ready (Inr finish), g)"
    and "run finish (c1\<lparr>as_verify := Some None, as_waker := Some (Some k)\<rparr>) = (v, c2)"
  shows "drive (arm_with snd (\<lambda>c h. (fst h, c))) (async_verify pl run callback) (async_verify pl run callback)
      ((k0, w0) # ps @ [(k, w)]) (out_alert, c) =
    (replicate (Suc (length ps)) (Ret Verify_Retry) @
       [Ret (case v of Inl _ \<Rightarrow> Verify_Invalid | Inr _ \<Rightarrow> Verify_Ok)],
     (case v of Inl alert \<Rightarrow> ucast alert | Inr _ \<Rightarrow> out_alert), c2)"
  using raw_verify.drive_completes[where h = "(out_alert, c)" and callback = callback and ?h1.0 = "(out_alert, c1)"
      and ?k0.0 = k0 and ?f = f and run = run and h' = "(case v of Inl alert \<Rightarrow> ucast alert | Inr _ \<Rightarrow> out_alert, c2)"
      and res = "Ret (case v of Inl _ \<Rightarrow> Verify_Invalid | Inr _ \<Rightarrow> Verify_Ok)", OF _ _ assms(3,4)]
    assms(1,2,5)
  by (cases v) (simp_all add: arm_with_def released_def raw_verify_complete_def on_snd_def SELECT_CUSTOM_VERIFY_FUTURE_INDEX_def
      set_task_waker_def del: drive.simps)

theorem async_verification_as_called_witness:
  "drive (arm_with snd (\<lambda>c h. (fst h, c)))
      (async_verify countdown (\<lambda>n c. (Inl 298, c\<lparr>as_rest := n\<rparr>)) (\<lambda>c. (Inr 1, c)))
      (async_verify countdown (\<lambda>n c. (Inl 298, c\<lparr>as_rest := n\<rparr>)) (\<lambda>c. (Inr 1, c)))
      [((), ()), ((), ())] (0, fresh_async) =
    ([Ret Verify_Retry, Ret Verify_Invalid], 42,
     fresh_async\<lparr>as_verify := Some None, as_waker := Some (Some ()), as_rest := 7\<rparr>)"
  using async_verification_as_called[where c = fresh_async and callback = "\<lambda>c. (Inr 1, c)" and ?k0.0 = "()" and f = 1
      and ?c1.0 = "set_task_waker (Some ()) fresh_async" and pl = countdown and ?w0.0 = "()" and ps = "[]" and f' = 0
      and k = "()" and w = "()" and finish = 7 and g = 0 and run = "\<lambda>n c. (Inl 298, c\<lparr>as_rest := n\<rparr>)"
      and v = "Inl 298" and ?c2.0 = "fresh_async\<lparr>as_verify := Some None, as_waker := Some (Some ()), as_rest := 7\<rparr>"
      and out_alert = 0]
  by (simp add: async_samples SELECT_CUSTOM_VERIFY_FUTURE_INDEX_def del: drive.simps)

text \<open>
  C13: BoringSSL's calls of \<open>raw_sign\<close> and then \<open>raw_complete\<close> for an asynchronous key get
  \<open>ssl_private_key_retry\<close> as long as the future is pending; the last one reports success with the length
  its closure wrote, which fits the buffer, or failure; a longer length is a panic, not a success.
\<close>

theorem async_key_operation_as_called:
  assumes "idle SELECT_PRIVATE_KEY_METHOD_FUTURE_INDEX c"
    and "akm_sign M input alg (out, set_task_waker (Some k0) c) = (Inr f, out1, c1)"
    and "pending_through pl ((k0, w0) # ps) f = Some f'" and "pl f' k w = (Ready (Inr finish), g)"
    and "run finish (out1, c1\<lparr>as_key := Some None, as_waker := Some (Some k)\<rparr>) = (v, out2, c2)"
  shows "drive (arm_with key_ssl key_set_ssl) (async_raw_sign M dbg pl run input alg max_out)
      (async_raw_complete M dbg pl run max_out) ((k0, w0) # ps @ [(k, w)]) (out_len, out, c) =
    (replicate (Suc (length ps)) (Ret Private_Key_Retry) @
       [case v of
          Inl _ \<Rightarrow> Ret Private_Key_Failure
        | Inr n \<Rightarrow> if n \<le> max_out then Ret Private_Key_Success
                   else Panic ''assertion failed: written <= max_out''],
     (case v of Inl _ \<Rightarrow> out_len | Inr n \<Rightarrow> if n \<le> max_out then n else out_len), out2, c2)"
  using raw_key.drive_completes[where h = "(out_len, out, c)" and M = M and ?h1.0 = "(out_len, out1, c1)"
      and ?k0.0 = k0 and ?f = f and run = run and input = input and alg = alg and max_out = max_out
      and h' = "((case v of Inl _ \<Rightarrow> out_len | Inr n \<Rightarrow> if n \<le> max_out then n else out_len), out2, c2)",
      OF _ _ assms(3,4)]
    assms(1,2,5)
  by (cases v) (simp_all add: arm_with_def released_def raw_key_complete_def on_snd_def SELECT_PRIVATE_KEY_METHOD_FUTURE_INDEX_def
      set_task_waker_def key_ssl_def key_set_ssl_def del: drive.simps)

definition sample_key_method :: "(nat, unit, nat) async_key_method" where
  "sample_key_method = \<lparr>akm_sign = (\<lambda>input alg h. (Inr (length input), h)), akm_decrypt = (\<lambda>_ h. (Inl (), h))\<rparr>"

theorem async_key_operation_as_called_witness:
  "drive (arm_with key_ssl key_set_ssl)
      (async_raw_sign sample_key_method True countdown (\<lambda>n h. (Inr 2, [1, 2, 0], snd h)) [9] 4 3)
      (async_raw_complete sample_key_method True countdown (\<lambda>n h. (Inr 2, [1, 2, 0], snd h)) 3)
      [((), ()), ((), ())] (0, [0, 0, 0], fresh_async) =
    ([Ret Private_Key_Retry, Ret Private_Key_Success], 2, [1, 2, 0],
     fresh_async\<lparr>as_key := Some None, as_waker := Some (Some ())\<rparr>)"
  using async_key_operation_as_called[where c = fresh_async and M = sample_key_method and input = "[9]" and alg = 4
      and out = "[0, 0, 0]" and ?k0.0 = "()" and f = 1 and ?out1.0 = "[0, 0, 0]"
      and ?c1.0 = "set_task_waker (Some ()) fresh_async" and pl = countdown and ?w0.0 = "()" and ps = "[]" and f' = 0
      and k = "()" and w = "()" and finish = 7 and g = 0 and run = "\<lambda>n h. (Inr 2, [1, 2, 0], snd h)"
      and v = "Inr 2" and ?out2.0 = "[1, 2, 0]" and ?c2.0 = "fresh_async\<lparr>as_key := Some None, as_waker := Some (Some ())\<rparr>"
      and dbg = True and max_out = 3 and out_len = 0]
  by (simp add: async_samples sample_key_method_def SELECT_PRIVATE_KEY_METHOD_FUTURE_INDEX_def del: drive.simps)

text \<open>
  ECH is disabled exactly if the callback asks for it and ECH was accepted; asked for otherwise, the
  handshake fails.
\<close>

lemma ech_disabled_only_if_accepted:
  "(fst (raw_select_cert ech_accepted get_cb c) = Ret Select_Cert_Disable_Ech \<longleftrightarrow>
     ech_accepted c \<and> (\<exists>callback. get_cb c = Some callback \<and> fst (callback c) = Ret (Inr DisableEch))) \<and>
   (fst (raw_select_cert ech_accepted get_cb c) = Ret Select_Cert_Error \<longleftrightarrow>
     (\<exists>callback. get_cb c = Some callback \<and>
        (fst (callback c) = Ret (Inl Select_Error) \<or>
         \<not> ech_accepted c \<and> fst (callback c) = Ret (Inr DisableEch))))"
  by (auto simp: raw_select_cert_def with_callback_def returning_def
      split: option.splits prod.splits outcome.splits sum.splits select_cert_action.splits select_cert_error.splits)

text \<open>
  A pre-shared key callback that fails gives no key, and leaves its errors on the queue, from which
  they are popped in order; one that succeeds gives the length it returned, cut to 32 bits.
\<close>

lemma psk_result_as_called:
  assumes "queues_errors A" "get_cb c = Some callback"
    and "callback hint ((identity, psk, c), []) = (Ret r, (identity', psk', c'), [])"
    and "case r of Inl es \<Rightarrow> list_all requeues es \<and> length es \<le> err_limit | Inr _ \<Rightarrow> True"
  shows "\<exists>q. raw_client_psk A get_cb hint ((identity, psk, c), []) =
      (Ret (case r of Inl _ \<Rightarrow> 0 | Inr n \<Rightarrow> of_nat n), (identity', psk', c'), q) \<and>
    error_stack_get q = (case r of Inl es \<Rightarrow> map requeued es | Inr _ \<Rightarrow> [], [])"
  using assms(2-4)
  by (cases r)
    (simp_all add: raw_client_psk_def with_callback_def returning_def psk_result_def get_entries
      error_stack_put_appends[OF assms(1)])

end
