(* ===== verification/Stack.thy ===== *)
theory Stack
  imports Errors
begin

text \<open>
  \<open>btls/src/stack.rs\<close>: the owned stack of foreign objects, its borrowed view and its iterators.

  The C stack is a value of any type \<open>'s\<close> behind the parameter \<open>K\<close>; an element is a pointer of type \<open>'e\<close>,
  null as \<open>None\<close>. Elements are owned: every element that Rust drops is appended to the list of freed ones,
  which is what the theorems speak of.
\<close>

section \<open>Stacks\<close>

text \<open>\<open>sk_num\<close>, \<open>sk_value\<close>, \<open>sk_push\<close>, \<open>sk_pop\<close> and \<open>sk_new_null\<close>.\<close>

record ('s, 'e) sk_api =
  sk_num :: "'s \<Rightarrow> nat"
  sk_value :: "'s \<Rightarrow> nat \<Rightarrow> 'e option"
  sk_push :: "'s \<Rightarrow> 'e \<Rightarrow> nat \<times> 's"
  sk_pop :: "'s \<Rightarrow> 'e option \<times> 's"
  sk_new_null :: "'s option"

definition stack_new :: "('s, 'e) sk_api \<Rightarrow> err_queue \<Rightarrow> (error_stack + 's) \<times> err_queue" where
  "stack_new K q = cvt_p (sk_new_null K) q"

definition stack_len :: "('s, 'e) sk_api \<Rightarrow> 's \<Rightarrow> nat" where
  "stack_len K s = sk_num K s"

definition stack_is_empty :: "('s, 'e) sk_api \<Rightarrow> 's \<Rightarrow> bool" where
  "stack_is_empty K s \<longleftrightarrow> stack_len K s = 0"

text \<open>\<open>from_ptr\<close> of a value that the caller knows not to be null; null would be undefined behaviour.\<close>

definition stack_get :: "('s, 'e) sk_api \<Rightarrow> 's \<Rightarrow> nat \<Rightarrow> 'e option" where
  "stack_get K s idx = (if stack_len K s \<le> idx then None else sk_value K s idx)"

text \<open>\<open>Index::index\<close> and \<open>IndexMut::index_mut\<close>.\<close>

definition stack_index :: "('s, 'e) sk_api \<Rightarrow> 's \<Rightarrow> nat \<Rightarrow> 'e outcome" where
  "stack_index K s idx =
     (case stack_get K s idx of
        None \<Rightarrow> Panic ''called `Option::unwrap()` on a `None` value''
      | Some e \<Rightarrow> Ret e)"

text \<open>\<open>push\<close>: when it fails, \<open>data\<close> is dropped at the early return.\<close>

definition stack_push ::
    "('s, 'e) sk_api \<Rightarrow> 'e \<Rightarrow> 's \<times> 'e list \<times> err_queue \<Rightarrow> (error_stack + unit) \<times> 's \<times> 'e list \<times> err_queue" where
  "stack_push K data st =
     (case st of (s, freed, q) \<Rightarrow>
        (case sk_push K s data of (n, s') \<Rightarrow>
           (case cvt_0 n q of
              (Inl es, q') \<Rightarrow> (Inl es, s', freed @ [data], q')
            | (Inr _, q') \<Rightarrow> (Inr (), s', freed, q'))))"

definition stack_pop :: "('s, 'e) sk_api \<Rightarrow> 's \<Rightarrow> 'e option \<times> 's" where
  "stack_pop K s = sk_pop K s"

text \<open>\<open>Drop for Stack\<close>: \<open>while self.pop().is_some() {}\<close>; each popped element is dropped. \<open>None\<close> is no end.\<close>

partial_function (option) stack_drop :: "('s, 'e) sk_api \<Rightarrow> 's \<Rightarrow> 'e list \<Rightarrow> 'e list option" where
  "stack_drop K s freed =
     (case stack_pop K s of
        (None, _) \<Rightarrow> Some freed
      | (Some e, s') \<Rightarrow> stack_drop K s' (freed @ [e]))"

section \<open>Iterators\<close>

text \<open>\<open>IntoIter\<close>, \<open>Iter\<close> and \<open>IterMut\<close> are a stack and a range; \<open>next\<close> and \<open>next_back\<close> are those of the range.\<close>

record 's stack_range =
  it_stack :: 's
  it_start :: nat
  it_end :: nat

definition stack_iter :: "('s, 'e) sk_api \<Rightarrow> 's \<Rightarrow> 's stack_range" where
  "stack_iter K s = \<lparr>it_stack = s, it_start = 0, it_end = stack_len K s\<rparr>"

definition stack_into_iter :: "('s, 'e) sk_api \<Rightarrow> 's \<Rightarrow> 's stack_range" where
  "stack_into_iter K s = \<lparr>it_stack = s, it_start = 0, it_end = stack_len K s\<rparr>"

definition iter_next :: "('s, 'e) sk_api \<Rightarrow> 's stack_range \<Rightarrow> 'e option \<times> 's stack_range" where
  "iter_next K it =
     (if it_start it < it_end it
      then (sk_value K (it_stack it) (it_start it), it\<lparr>it_start := it_start it + 1\<rparr>)
      else (None, it))"

definition iter_next_back :: "('s, 'e) sk_api \<Rightarrow> 's stack_range \<Rightarrow> 'e option \<times> 's stack_range" where
  "iter_next_back K it =
     (if it_start it < it_end it
      then (sk_value K (it_stack it) (it_end it - 1), it\<lparr>it_end := it_end it - 1\<rparr>)
      else (None, it))"

definition iter_size_hint :: "'s stack_range \<Rightarrow> nat \<times> nat option" where
  "iter_size_hint it = (it_end it - it_start it, Some (it_end it - it_start it))"

text \<open>\<open>Drop for IntoIter\<close>: \<open>for _ in &mut *self {}\<close>.\<close>

function into_iter_drop :: "('s, 'e) sk_api \<Rightarrow> 's stack_range \<Rightarrow> 'e list \<Rightarrow> 'e list" where
  "into_iter_drop K it freed =
     (if it_start it < it_end it
      then (case iter_next K it of
              (None, _) \<Rightarrow> freed
            | (Some e, it') \<Rightarrow> into_iter_drop K it' (freed @ [e]))
      else freed)"
  by pat_completeness auto
termination
  by (relation "measure (\<lambda>(K, it, freed). it_end it - it_start it)") (auto simp: iter_next_def)

declare into_iter_drop.simps [simp del]

section \<open>What the library does\<close>

text \<open>\<open>openssl/stack.h\<close>: what the functions do with the elements of a stack. A push may fail and then changes nothing.\<close>

definition sk_ok :: "('s, 'e) sk_api \<Rightarrow> ('s \<Rightarrow> 'e list) \<Rightarrow> bool" where
  "sk_ok K elems \<longleftrightarrow>
     (\<forall>s. sk_num K s = length (elems s)) \<and>
     (\<forall>s i. sk_value K s i = (if i < length (elems s) then Some (elems s ! i) else None)) \<and>
     (\<forall>s e. case sk_push K s e of (n, s') \<Rightarrow>
        (n = 0 \<and> elems s' = elems s) \<or> (n = length (elems s) + 1 \<and> elems s' = elems s @ [e])) \<and>
     (\<forall>s. case sk_pop K s of (r, s') \<Rightarrow>
        (if elems s = [] then r = None \<and> elems s' = []
         else r = Some (last (elems s)) \<and> elems s' = butlast (elems s))) \<and>
     (\<forall>s. sk_new_null K = Some s \<longrightarrow> elems s = [])"

lemma sk_okD:
  assumes "sk_ok K elems"
  shows "sk_num K s = length (elems s)"
    "sk_value K s i = (if i < length (elems s) then Some (elems s ! i) else None)"
    "sk_push K s e = (n, s') \<Longrightarrow>
       (n = 0 \<and> elems s' = elems s) \<or> (n = length (elems s) + 1 \<and> elems s' = elems s @ [e])"
    "sk_pop K s = (r, s') \<Longrightarrow> elems s = [] \<Longrightarrow> r = None \<and> elems s' = []"
    "sk_pop K s = (r, s') \<Longrightarrow> elems s \<noteq> [] \<Longrightarrow> r = Some (last (elems s)) \<and> elems s' = butlast (elems s)"
  using assms unfolding sk_ok_def by (auto dest: spec split: prod.splits)

text \<open>Calls of \<open>next\<close> (True) and \<open>next_back\<close> (False) in any order: what each end yielded, and the iterator then.\<close>

fun iter_run :: "('s, 'e) sk_api \<Rightarrow> bool list \<Rightarrow> 's stack_range \<Rightarrow> 'e list \<times> 'e list \<times> 's stack_range" where
  "iter_run K [] it = ([], [], it)"
| "iter_run K (True # bs) it =
     (case iter_next K it of (r, it') \<Rightarrow>
        (case iter_run K bs it' of (fs, rs, it'') \<Rightarrow> ((case r of None \<Rightarrow> fs | Some e \<Rightarrow> e # fs), rs, it'')))"
| "iter_run K (False # bs) it =
     (case iter_next_back K it of (r, it') \<Rightarrow>
        (case iter_run K bs it' of (fs, rs, it'') \<Rightarrow> (fs, (case r of None \<Rightarrow> rs | Some e \<Rightarrow> e # rs), it'')))"

text \<open>What an iterator has not yielded yet.\<close>

definition it_rest :: "('s \<Rightarrow> 'e list) \<Rightarrow> 's stack_range \<Rightarrow> 'e list" where
  "it_rest elems it = take (it_end it - it_start it) (drop (it_start it) (elems (it_stack it)))"

definition it_ok :: "('s \<Rightarrow> 'e list) \<Rightarrow> 's stack_range \<Rightarrow> bool" where
  "it_ok elems it \<longleftrightarrow> it_start it \<le> it_end it \<and> it_end it \<le> length (elems (it_stack it))"

lemma it_rest_length: "it_ok elems it \<Longrightarrow> length (it_rest elems it) = it_end it - it_start it"
  by (auto simp: it_ok_def it_rest_def)

lemma iter_next_ok:
  assumes "sk_ok K elems" "it_ok elems it" "iter_next K it = (r, it')"
  shows "it_ok elems it' \<and> it_rest elems it = (case r of None \<Rightarrow> [] | Some e \<Rightarrow> [e]) @ it_rest elems it'"
proof (cases "it_start it < it_end it")
  case True
  then have "it_start it < length (elems (it_stack it))" using assms(2) by (simp add: it_ok_def)
  then show ?thesis
    using assms True sk_okD(2)[OF assms(1)]
    by (auto simp: iter_next_def it_ok_def it_rest_def take_Cons' Cons_nth_drop_Suc[symmetric] Suc_diff_Suc)
next
  case False
  then show ?thesis using assms by (auto simp: iter_next_def it_rest_def)
qed

lemma iter_next_back_ok:
  assumes "sk_ok K elems" "it_ok elems it" "iter_next_back K it = (r, it')"
  shows "it_ok elems it' \<and> it_rest elems it = it_rest elems it' @ (case r of None \<Rightarrow> [] | Some e \<Rightarrow> [e])"
proof (cases "it_start it < it_end it")
  case True
  let ?xs = "drop (it_start it) (elems (it_stack it))" and ?n = "it_end it - 1 - it_start it"
  have n: "it_end it - it_start it = Suc ?n" "?n < length ?xs" "it_start it + ?n = it_end it - 1"
    using True assms(2) by (auto simp: it_ok_def)
  then have "take (it_end it - it_start it) ?xs = take ?n ?xs @ [elems (it_stack it) ! (it_end it - 1)]"
    by (simp add: take_Suc_conv_app_nth)
  then show ?thesis
    using assms True sk_okD(2)[OF assms(1)] by (auto simp: iter_next_back_def it_ok_def it_rest_def)
next
  case False
  then show ?thesis using assms by (auto simp: iter_next_back_def it_rest_def)
qed

lemma iter_run_ok:
  assumes "sk_ok K elems"
  shows "\<lbrakk>it_ok elems it; iter_run K bs it = (fs, rs, it')\<rbrakk> \<Longrightarrow>
    it_ok elems it' \<and> it_rest elems it = fs @ it_rest elems it' @ rev rs"
proof (induction bs arbitrary: it fs rs it')
  case (Cons b bs)
  show ?case
  proof (cases b)
    case True
    obtain r i where i: "iter_next K it = (r, i)" by (cases "iter_next K it")
    obtain fs1 rs1 i1 where run: "iter_run K bs i = (fs1, rs1, i1)" by (cases "iter_run K bs i")
    show ?thesis
      using iter_next_ok[OF assms Cons.prems(1) i] Cons.IH[OF _ run] Cons.prems(2) i run True
      by (auto split: option.splits)
  next
    case False
    obtain r i where i: "iter_next_back K it = (r, i)" by (cases "iter_next_back K it")
    obtain fs1 rs1 i1 where run: "iter_run K bs i = (fs1, rs1, i1)" by (cases "iter_run K bs i")
    show ?thesis
      using iter_next_back_ok[OF assms Cons.prems(1) i] Cons.IH[OF _ run] Cons.prems(2) i run False
      by (auto split: option.splits)
  qed
qed simp

lemma into_iter_drop_ok:
  assumes "sk_ok K elems"
  shows "it_ok elems it \<Longrightarrow> into_iter_drop K it freed = freed @ it_rest elems it"
proof (induction "it_end it - it_start it" arbitrary: it freed)
  case 0
  then show ?case by (subst into_iter_drop.simps) (simp add: it_ok_def it_rest_def)
next
  case (Suc n)
  obtain r i where i: "iter_next K it = (r, i)" by (cases "iter_next K it")
  have "it_start it < it_end it" using Suc.hyps(2) by simp
  moreover from this have "\<exists>e. r = Some e" "n = it_end i - it_start i"
    using i sk_okD(2)[OF assms] Suc.prems Suc.hyps(2) by (auto simp: iter_next_def it_ok_def)
  ultimately show ?case
    using iter_next_ok[OF assms Suc.prems i] Suc.hyps(1)[of i] i
    by (subst into_iter_drop.simps) (auto split: option.splits)
qed

section \<open>Properties\<close>

text \<open>\<open>list_stack\<close>: a C stack that never runs out of memory.\<close>

definition list_stack :: "('e list, 'e) sk_api" where
  "list_stack =
     \<lparr>sk_num = length, sk_value = (\<lambda>s i. if i < length s then Some (s ! i) else None),
      sk_push = (\<lambda>s e. (length s + 1, s @ [e])),
      sk_pop = (\<lambda>s. if s = [] then (None, []) else (Some (last s), butlast s)), sk_new_null = Some []\<rparr>"

lemma list_stack_ok: "sk_ok list_stack (\<lambda>s. s)"
  by (auto simp: sk_ok_def list_stack_def)

text \<open>
  Dropping a stack ends, and frees each of its elements once, from the top.
\<close>

lemma stack_drop_frees_all:
  assumes "sk_ok K elems"
  shows "stack_drop K s freed = Some (freed @ rev (elems s))"
proof (induction "length (elems s)" arbitrary: s freed)
  case 0
  obtain r s' where pop: "sk_pop K s = (r, s')" by (cases "sk_pop K s")
  with sk_okD(4)[OF assms pop] 0 show ?case by (subst stack_drop.simps) (simp add: stack_pop_def)
next
  case (Suc n)
  then have ne: "elems s \<noteq> []" by auto
  obtain r s' where pop: "sk_pop K s = (r, s')" by (cases "sk_pop K s")
  note popped = sk_okD(5)[OF assms pop ne]
  have "n = length (elems s')" using popped Suc.hyps(2) by simp
  from Suc.hyps(1)[OF this] have "stack_drop K s' (freed @ [last (elems s)]) =
      Some ((freed @ [last (elems s)]) @ rev (elems s'))" .
  moreover obtain ys y where "elems s = ys @ [y]" using ne by (cases "elems s" rule: rev_cases) auto
  ultimately show ?case using popped pop by (subst stack_drop.simps) (simp add: stack_pop_def)
qed

text \<open>
  A stack is a list: an element is found exactly at the indexes below its length, and indexing panics
  at the others; a push that succeeds appends, one that fails frees what it was given, leaves the list and
  returns the errors; a pop takes the last element.
\<close>

lemma stack_refines_list:
  assumes "sk_ok K elems"
  shows "stack_get K s i = (if i < length (elems s) then Some (elems s ! i) else None) \<and>
    (stack_index K s i = (if i < length (elems s) then Ret (elems s ! i)
        else Panic ''called `Option::unwrap()` on a `None` value'')) \<and>
    (case stack_push K e (s, freed, q) of
       (Inr _, s', freed', q') \<Rightarrow> elems s' = elems s @ [e] \<and> freed' = freed \<and> q' = q
     | (Inl es, s', freed', q') \<Rightarrow> elems s' = elems s \<and> freed' = freed @ [e] \<and> (es, q') = error_stack_get q) \<and>
    (case stack_pop K s of
       (r, s') \<Rightarrow> r = (if elems s = [] then None else Some (last (elems s))) \<and> elems s' = butlast (elems s))"
proof -
  obtain n s' where push: "sk_push K s e = (n, s')" by (cases "sk_push K s e")
  obtain r s'' where pop: "sk_pop K s = (r, s'')" by (cases "sk_pop K s")
  show ?thesis
    using sk_okD(3)[OF assms push] sk_okD(4,5)[OF assms pop]
    by (auto simp: stack_get_def stack_index_def stack_len_def sk_okD(1,2)[OF assms] stack_push_def push
        stack_pop_def pop cvt_0_def fail_stack_def split: prod.split)
qed

text \<open>
  C34: Whatever is taken from the two ends of an owning iterator before it is dropped, every element of the
  stack leaves it exactly once: those taken from the front, then those the drop frees, then those taken
  from the back, in the order of the stack; and the size hint is the number of those left.
\<close>

theorem into_iter_each_once:
  assumes "sk_ok K elems" "iter_run K bs (stack_into_iter K s) = (fs, rs, it)"
  shows "elems s = fs @ into_iter_drop K it [] @ rev rs \<and>
    iter_size_hint it = (length (into_iter_drop K it []), Some (length (into_iter_drop K it [])))"
proof -
  have ok: "it_ok elems (stack_into_iter K s)" and rest: "it_rest elems (stack_into_iter K s) = elems s"
    by (simp_all add: it_ok_def it_rest_def stack_into_iter_def stack_len_def sk_okD(1)[OF assms(1)])
  from iter_run_ok[OF assms(1) ok assms(2)] rest show ?thesis
    by (simp add: into_iter_drop_ok[OF assms(1)] iter_size_hint_def it_rest_length)
qed

theorem into_iter_each_once_witness:
  "[1, 2, 3, 4, 5 :: nat] = [1, 2] @ into_iter_drop list_stack \<lparr>it_stack = [1, 2, 3, 4, 5], it_start = 2, it_end = 4\<rparr> [] @ rev [5] \<and>
    iter_size_hint \<lparr>it_stack = [1, 2, 3, 4, 5 :: nat], it_start = 2, it_end = 4\<rparr> =
      (length (into_iter_drop list_stack \<lparr>it_stack = [1, 2, 3, 4, 5 :: nat], it_start = 2, it_end = 4\<rparr> []),
       Some (length (into_iter_drop list_stack \<lparr>it_stack = [1, 2, 3, 4, 5 :: nat], it_start = 2, it_end = 4\<rparr> [])))"
  by (rule into_iter_each_once [OF list_stack_ok, where bs = "[True, False, True]"])
    (simp add: list_stack_def stack_into_iter_def stack_len_def iter_next_def iter_next_back_def)

end
