(* ===== verification/Quic.thy ===== *)
theory Quic
  imports Callbacks
begin

text \<open>
  \<open>btls/src/ssl/quic.rs\<close>: connections without a BIO. BoringSSL hands its secrets and handshake messages to
  the \<open>QuicMethod\<close> of the context, through C functions that look it up; the owner of the connection
  provides the peer's messages and drives the handshake.

  The connection is any type \<open>'c\<close>, with the error queue of the thread beside it. BoringSSL's functions
  that run callbacks are interaction trees: each call of a method goes on with what the C function
  returned.
\<close>

section \<open>The method\<close>

datatype quic_encryption_level = INITIAL | EARLY_DATA | HANDSHAKE | APPLICATION

type_synonym 'c quic_state = "'c \<times> err_queue"

text \<open>\<open>QuicMethod\<close>; \<open>True\<close> is \<open>Ok(())\<close>, \<open>False\<close> is \<open>Err(QuicMethodError)\<close>. A cipher is a value of type \<open>'i\<close>.\<close>

record ('c, 'i) quic_method =
  qm_set_read_secret :: "quic_encryption_level \<Rightarrow> 'i \<Rightarrow> byte list \<Rightarrow> 'c quic_state \<Rightarrow> bool \<times> 'c quic_state"
  qm_set_write_secret :: "quic_encryption_level \<Rightarrow> 'i \<Rightarrow> byte list \<Rightarrow> 'c quic_state \<Rightarrow> bool \<times> 'c quic_state"
  qm_add_handshake_data :: "quic_encryption_level \<Rightarrow> byte list \<Rightarrow> 'c quic_state \<Rightarrow> bool \<times> 'c quic_state"
  qm_flush_flight :: "'c quic_state \<Rightarrow> bool \<times> 'c quic_state"
  qm_send_alert :: "quic_encryption_level \<Rightarrow> ssl_alert \<Rightarrow> 'c quic_state \<Rightarrow> bool \<times> 'c quic_state"

text \<open>
  What the functions of this file use besides: the extra data of the connection's context at the index of
  the method, the error queue, the constants, \<open>file!()\<close> and \<open>line!()\<close> of the call of \<open>ERR_put_error\<close>, and
  \<open>SSL_get_error\<close>.
\<close>

record ('c, 'i) quic_env =
  qe_method :: "'c \<Rightarrow> ('c, 'i) quic_method option"
  qe_errors :: err_api
  qe_lib_ssl :: "32 word"
  qe_internal_error :: "32 word"
  qe_file :: string
  qe_line :: nat
  qe_get_error :: "'c quic_state \<Rightarrow> int \<Rightarrow> error_code"

definition with_method ::
    "('c, 'i) quic_env \<Rightarrow> (('c, 'i) quic_method \<Rightarrow> 'c quic_state \<Rightarrow> bool \<times> 'c quic_state) \<Rightarrow> 'c quic_state
     \<Rightarrow> int \<times> 'c quic_state" where
  "with_method Q f h =
     (case qe_method Q (fst h) of
        None \<Rightarrow> (0, h)
      | Some method \<Rightarrow> (case f method h of (ok, h') \<Rightarrow> (of_bool ok, h')))"

definition secret_result :: "('c, 'i) quic_env \<Rightarrow> int \<times> 'c quic_state \<Rightarrow> int \<times> 'c quic_state" where
  "secret_result Q p =
     (case p of (r, c, q) \<Rightarrow>
        (r, c, if r = 0 then ea_put (qe_errors Q) (qe_lib_ssl Q) 0 (qe_internal_error Q) (C_File (qe_file Q)) (qe_line Q) q
               else q))"

definition raw_set_read_secret where
  "raw_set_read_secret Q level cipher secret h =
     secret_result Q (with_method Q (\<lambda>m. qm_set_read_secret m level cipher secret) h)"

definition raw_set_write_secret where
  "raw_set_write_secret Q level cipher secret h =
     secret_result Q (with_method Q (\<lambda>m. qm_set_write_secret m level cipher secret) h)"

definition raw_add_handshake_data where
  "raw_add_handshake_data Q level data h = with_method Q (\<lambda>m. qm_add_handshake_data m level data) h"

definition raw_flush_flight where
  "raw_flush_flight Q h = with_method Q qm_flush_flight h"

definition raw_send_alert where
  "raw_send_alert Q level (alert :: byte) h = with_method Q (\<lambda>m. qm_send_alert m level (ucast alert)) h"

text \<open>\<open>QuicMethodTable::METHOD\<close>: which C function takes which of BoringSSL's calls.\<close>

datatype 'i quic_call =
    Call_Set_Read_Secret quic_encryption_level 'i "byte list"
  | Call_Set_Write_Secret quic_encryption_level 'i "byte list"
  | Call_Add_Handshake_Data quic_encryption_level "byte list"
  | Call_Flush_Flight
  | Call_Send_Alert quic_encryption_level byte

fun quic_method_table :: "('c, 'i) quic_env \<Rightarrow> 'i quic_call \<Rightarrow> 'c quic_state \<Rightarrow> int \<times> 'c quic_state" where
  "quic_method_table Q (Call_Set_Read_Secret l i s) h = raw_set_read_secret Q l i s h"
| "quic_method_table Q (Call_Set_Write_Secret l i s) h = raw_set_write_secret Q l i s h"
| "quic_method_table Q (Call_Add_Handshake_Data l d) h = raw_add_handshake_data Q l d h"
| "quic_method_table Q Call_Flush_Flight h = raw_flush_flight Q h"
| "quic_method_table Q (Call_Send_Alert l a) h = raw_send_alert Q l a h"

section \<open>Driving the handshake\<close>

text \<open>
  A function of BoringSSL that runs callbacks: it returns, or calls the table and goes on. \<open>run_quic\<close> also
  logs the calls, each with the state it was made in and what the C function returned.
\<close>

datatype ('c, 'i) quic_prog =
    Quic_Return int "'c quic_state"
  | Quic_Call "'i quic_call" "'c quic_state" "int \<Rightarrow> 'c quic_state \<Rightarrow> ('c, 'i) quic_prog"

primrec run_quic ::
    "('c, 'i) quic_env \<Rightarrow> ('c, 'i) quic_prog \<Rightarrow> int \<times> 'c quic_state \<times> ('i quic_call \<times> 'c quic_state \<times> int) list" where
  "run_quic Q (Quic_Return r h) = (r, h, [])"
| "run_quic Q (Quic_Call call h k) =
     (let p = quic_method_table Q call h; out = run_quic Q (k (fst p) (snd p))
      in (fst out, fst (snd out), (call, h, fst p) # snd (snd out)))"

record ('c, 'i) quic_api =
  SSL_do_handshake :: "'c quic_state \<Rightarrow> ('c, 'i) quic_prog"
  SSL_process_quic_post_handshake :: "'c quic_state \<Rightarrow> ('c, 'i) quic_prog"
  SSL_provide_quic_data :: "quic_encryption_level \<Rightarrow> byte list \<Rightarrow> 'c quic_state \<Rightarrow> int \<times> 'c quic_state"
  SSL_set_quic_transport_params :: "byte list \<Rightarrow> 'c quic_state \<Rightarrow> int \<times> 'c quic_state"
  SSL_set_quic_early_data_context :: "byte list \<Rightarrow> 'c quic_state \<Rightarrow> int \<times> 'c quic_state"
  SSL_get_peer_quic_transport_params :: "'c \<Rightarrow> byte list"

text \<open>\<open>if ret == 1 { Ok(()) } else { Err(self.error_code(ret)) }\<close>.\<close>

definition quic_result ::
    "('c, 'i) quic_env \<Rightarrow> int \<times> 'c quic_state \<times> ('i quic_call \<times> 'c quic_state \<times> int) list
     \<Rightarrow> (error_code + unit) \<times> 'c quic_state \<times> ('i quic_call \<times> 'c quic_state \<times> int) list" where
  "quic_result Q out =
     (case out of (r, h, log) \<Rightarrow> (if r = 1 then Inr () else Inl (qe_get_error Q h r), h, log))"


definition process_quic_post_handshake where
  "process_quic_post_handshake Q K h = quic_result Q (run_quic Q (SSL_process_quic_post_handshake K h))"

text \<open>\<open>cvt\<close> of a call that runs no callbacks.\<close>

definition quic_cvt :: "int \<times> 'c quic_state \<Rightarrow> (error_stack + unit) \<times> 'c quic_state" where
  "quic_cvt p = (case p of (r, c, q) \<Rightarrow> (case cvt r q of (v, q') \<Rightarrow> (v, c, q')))"

definition provide_quic_data where
  "provide_quic_data K level data h = quic_cvt (SSL_provide_quic_data K level data h)"

definition set_quic_transport_params where
  "set_quic_transport_params K params h = quic_cvt (SSL_set_quic_transport_params K params h)"

definition set_quic_early_data_context where
  "set_quic_early_data_context K bs h = quic_cvt (SSL_set_quic_early_data_context K bs h)"

definition peer_quic_transport_params :: "('c, 'i) quic_api \<Rightarrow> 'c \<Rightarrow> byte list option" where
  "peer_quic_transport_params K c =
     (let params = SSL_get_peer_quic_transport_params K c in if length params = 0 then None else Some params)"

section \<open>Failed callbacks\<close>








lemma secret_result_value [simp]: "fst (secret_result Q p) = fst p"
  by (simp add: secret_result_def split: prod.splits)








section \<open>Properties\<close>







end
