(* ===== verification/Base64.thy ===== *)
theory Base64
  imports Errors
begin

text \<open>
  \<open>btls/src/base64.rs\<close>: the sizes of the output buffers and the padding are its own; the coding of blocks is
  BoringSSL's, the parameter \<open>A\<close>. A \<open>&str\<close> is a list of code points, a \<open>nat list\<close>.
\<close>

section \<open>Operations\<close>

text \<open>
  \<open>EVP_EncodeBlock\<close>: the characters written before the NUL, whose number it returns. \<open>EVP_DecodeBlock\<close>: what
  it returned, the bytes written, and the error queue then.
\<close>

record b64_api =
  EVP_EncodeBlock :: "byte list \<Rightarrow> byte list"
  EVP_DecodeBlock :: "byte list \<Rightarrow> err_queue \<Rightarrow> int \<times> byte list \<times> err_queue"

definition encoded_len :: "nat \<Rightarrow> nat option" where
  "encoded_len src_len =
     Option.bind (checked_mul (src_len div 3) 4) (\<lambda>len.
       Option.bind (if src_len mod 3 \<noteq> 0 then checked_add len 4 else Some len) (\<lambda>len. checked_add len 1))"

definition decoded_len :: "nat \<Rightarrow> nat option" where
  "decoded_len src_len =
     Option.bind (checked_mul (src_len div 4) 3) (\<lambda>len.
       if src_len mod 4 \<noteq> 0 then checked_add len 3 else Some len)"

text \<open>
  \<open>encode_block\<close>: the capacity of the buffer and the string. Writing beyond the capacity would be
  undefined behaviour; the capacity is part of the result so that the theorems can exclude it.
\<close>

definition encode_block :: "b64_api \<Rightarrow> byte list \<Rightarrow> (nat \<times> nat list) outcome" where
  "encode_block A src =
     (if c_int_max < length src then Panic ''assertion failed: src.len() <= c_int::MAX as usize''
      else case encoded_len (length src) of
          None \<Rightarrow> Panic ''called `Option::unwrap()` on a `None` value''
        | Some len \<Rightarrow> Ret (len, map unat (EVP_EncodeBlock A src)))"

text \<open>\<open>char::is_whitespace\<close> and \<open>str::trim\<close>; the UTF-8 encoding of a string; \<open>String::pop\<close> is \<open>butlast\<close>.\<close>

definition is_whitespace :: "nat \<Rightarrow> bool" where
  "is_whitespace c \<longleftrightarrow>
     9 \<le> c \<and> c \<le> 13 \<or> 8192 \<le> c \<and> c \<le> 8202 \<or>
     c \<in> {32, 133, 160, 5760, 8232, 8233, 8239, 8287, 12288}"

definition trim :: "nat list \<Rightarrow> nat list" where
  "trim s = rev (dropWhile is_whitespace (rev (dropWhile is_whitespace s)))"

definition utf8_char :: "nat \<Rightarrow> byte list" where
  "utf8_char c =
     (if c < 128 then [of_nat c]
      else if c < 2048 then [of_nat (192 + c div 64), of_nat (128 + c mod 64)]
      else if c < 65536 then [of_nat (224 + c div 4096), of_nat (128 + c div 64 mod 64), of_nat (128 + c mod 64)]
      else [of_nat (240 + c div 262144), of_nat (128 + c div 4096 mod 64), of_nat (128 + c div 64 mod 64),
            of_nat (128 + c mod 64)])"

definition as_bytes :: "nat list \<Rightarrow> byte list" where
  "as_bytes s = concat (map utf8_char s)"

text \<open>\<open>str::ends_with\<close> of one and of two equals signs.\<close>

definition ends_with :: "nat list \<Rightarrow> nat list \<Rightarrow> bool" where
  "ends_with s suffix \<longleftrightarrow> length suffix \<le> length s \<and> drop (length s - length suffix) s = suffix"

definition strip_padding :: "nat list \<Rightarrow> byte list \<Rightarrow> byte list" where
  "strip_padding src out =
     (if ends_with src [61]
      then (if ends_with src [61, 61] then butlast (butlast out) else butlast out) else out)"

definition decode_block ::
    "b64_api \<Rightarrow> nat list \<Rightarrow> err_queue \<Rightarrow> (error_stack + nat \<times> byte list) outcome \<times> err_queue" where
  "decode_block A src0 q =
     (let src = trim src0 in
      if src = [] then (Ret (Inr (0, [])), q)
      else if c_int_max < length (as_bytes src)
      then (Panic ''assertion failed: src.len() <= c_int::MAX as usize'', q)
      else case decoded_len (length (as_bytes src)) of
          None \<Rightarrow> (Panic ''called `Option::unwrap()` on a `None` value'', q)
        | Some len \<Rightarrow>
            (case EVP_DecodeBlock A (as_bytes src) q of
               (r, out, q1) \<Rightarrow>
                 (case cvt_n r q1 of
                    (Inl es, q2) \<Rightarrow> (Ret (Inl es), q2)
                  | (Inr n, q2) \<Rightarrow> (Ret (Inr (len, strip_padding src (take (nat n) out))), q2))))"

section \<open>What BoringSSL codes\<close>

text \<open>RFC 4648: three bytes are a number of four digits to the base 64.\<close>

definition b64_char :: "nat \<Rightarrow> byte" where
  "b64_char x =
     (if x < 26 then of_nat (65 + x) else if x < 52 then of_nat (71 + x) else if x < 62 then of_nat (x - 4)
      else if x = 62 then 43 else 47)"

definition b64_value :: "byte \<Rightarrow> nat option" where
  "b64_value c =
     (let n = unat c in
      if 65 \<le> n \<and> n \<le> 90 then Some (n - 65) else if 97 \<le> n \<and> n \<le> 122 then Some (n - 71)
      else if 48 \<le> n \<and> n \<le> 57 then Some (n + 4) else if n = 43 then Some 62 else if n = 47 then Some 63 else None)"

definition b64_number :: "byte \<Rightarrow> byte \<Rightarrow> byte \<Rightarrow> nat" where
  "b64_number a b c = unat a * 65536 + unat b * 256 + unat c"

definition b64_digit :: "nat \<Rightarrow> nat \<Rightarrow> byte" where
  "b64_digit i n = b64_char (n div 64 ^ i mod 64)"

fun b64_encode :: "byte list \<Rightarrow> byte list" where
  "b64_encode [] = []"
| "b64_encode [a] = (let n = b64_number a 0 0 in [b64_digit 3 n, b64_digit 2 n, 61, 61])"
| "b64_encode [a, b] = (let n = b64_number a b 0 in [b64_digit 3 n, b64_digit 2 n, b64_digit 1 n, 61])"
| "b64_encode (a # b # c # bs) =
     (let n = b64_number a b c in
      [b64_digit 3 n, b64_digit 2 n, b64_digit 1 n, b64_digit 0 n] @ b64_encode bs)"

text \<open>
  The value of a group of four, in which \<open>pad\<close> digits are missing, as three bytes with the missing ones 0, as
  \<open>EVP_DecodeBlock\<close> writes them.
\<close>

definition b64_group :: "nat \<Rightarrow> nat \<Rightarrow> nat \<Rightarrow> nat \<Rightarrow> nat \<Rightarrow> byte list" where
  "b64_group pad x y z w =
     (let n = ((x * 64 + y) * 64 + z) * 64 + w in
      [of_nat (n div 65536), if pad < 2 then of_nat (n div 256 mod 256) else 0, if pad < 1 then of_nat (n mod 256) else 0])"

fun b64_decode :: "byte list \<Rightarrow> byte list option" where
  "b64_decode [] = Some []"
| "b64_decode (a # b # c # d # r) =
     (case (b64_value a, b64_value b) of
        (Some x, Some y) \<Rightarrow>
          if r = [] \<and> c = 61 \<and> d = 61 then Some (b64_group 2 x y 0 0)
          else (case b64_value c of
              None \<Rightarrow> None
            | Some z \<Rightarrow>
                if r = [] \<and> d = 61 then Some (b64_group 1 x y z 0)
                else (case (b64_value d, b64_decode r) of
                    (Some w, Some out) \<Rightarrow> Some (b64_group 0 x y z w @ out)
                  | _ \<Rightarrow> None))
      | _ \<Rightarrow> None)"
| "b64_decode _ = None"

text \<open>
  The two functions of BoringSSL: decoding is settled for the well-formed inputs, and never writes more than
  three bytes for four characters.
\<close>

definition codes_base64 :: "b64_api \<Rightarrow> bool" where
  "codes_base64 A \<longleftrightarrow>
     (\<forall>bs. EVP_EncodeBlock A bs = b64_encode bs) \<and>
     (\<forall>bs q out. b64_decode bs = Some out \<longrightarrow> EVP_DecodeBlock A bs q = (int (length out), out, q)) \<and>
     (\<forall>bs q. length (fst (snd (EVP_DecodeBlock A bs q))) \<le> 3 * (length bs div 4))"

section \<open>Round trip\<close>

lemma unat_small: "y < 256 \<Longrightarrow> unat (of_nat y :: byte) = y"
  by (simp add: unat_of_nat)

lemma unat_byte: "unat (a :: byte) < 256"
proof -
  have "unat a < 2 ^ LENGTH(8)" by (rule unsigned_less)
  then show ?thesis by simp
qed

lemma unat_char:
  "x < 64 \<Longrightarrow> unat (b64_char x) =
    (if x < 26 then 65 + x else if x < 52 then 71 + x else if x < 62 then x - 4 else if x = 62 then 43 else 47)"
  by (simp add: b64_char_def unat_small del: of_nat_add of_nat_diff)

lemma value_of_char: "x < 64 \<Longrightarrow> b64_value (b64_char x) = Some x"
  unfolding b64_value_def Let_def by (simp only: unat_char) (simp split: if_split; linarith)

lemma char_not_pad: "x < 64 \<Longrightarrow> b64_char x \<noteq> 61"
  using unat_char[of x] by (intro notI) (simp split: if_splits)

lemma value_of_digit: "b64_value (b64_digit i n) = Some (n div 64 ^ i mod 64)" "b64_digit i n \<noteq> 61"
  by (simp_all add: b64_digit_def value_of_char char_not_pad)

lemma digits_of_number:
  "n < 16777216 \<Longrightarrow>
    ((n div 64 ^ 3 mod 64 * 64 + n div 64 ^ 2 mod 64) * 64 + n div 64 ^ 1 mod 64) * 64 + n div 64 ^ 0 mod 64 = (n :: nat)"
proof -
  assume n: "n < 16777216"
  have shift: "n div 64 ^ 1 = n div 64" "n div 64 ^ 2 = n div 64 div 64" "n div 64 ^ 3 = n div 64 div 64 div 64"
    by (simp_all add: div_mult2_eq[symmetric])
  have "n div 64 div 64 div 64 mod 64 = n div 64 div 64 div 64" using n by (simp add: div_mult2_eq[symmetric])
  then show ?thesis unfolding shift by simp
qed

lemma number_bound: "b64_number a b c < 16777216"
  using unat_byte[of a] unat_byte[of b] unat_byte[of c] by (simp add: b64_number_def)

lemma bytes_of_number:
  "b64_number a b c div 65536 = unat a" "b64_number a b c div 256 mod 256 = unat b"
  "b64_number a b c mod 256 = unat c"
proof -
  have bounds: "unat a < 256" "unat b < 256" "unat c < 256"
    using unat_byte[of a] unat_byte[of b] unat_byte[of c] by simp_all
  define hi where "hi = unat a * 256 + unat b"
  have n: "b64_number a b c = hi * 256 + unat c" by (simp add: b64_number_def hi_def)
  have low: "b64_number a b c mod 256 = unat c" using bounds unfolding n by simp
  have high: "b64_number a b c div 256 = unat a * 256 + unat b"
    using bounds unfolding n by (simp add: hi_def[symmetric])
  have "b64_number a b c div 65536 = b64_number a b c div 256 div 256" by (simp add: div_mult2_eq[symmetric])
  with bounds high low show "b64_number a b c div 65536 = unat a" "b64_number a b c div 256 mod 256 = unat b"
    "b64_number a b c mod 256 = unat c"
    by simp_all
qed

lemma zero_digits:
  "b64_number a 0 0 div 64 ^ 1 mod 64 = 0" "b64_number a b 0 div 64 ^ 0 mod 64 = 0"
proof -
  have "b64_number a 0 0 div 64 = unat a * 1024" by (simp add: b64_number_def)
  then show "b64_number a 0 0 div 64 ^ 1 mod 64 = 0" by simp
  have "b64_number a b 0 = 64 * (unat a * 1024 + unat b * 4)" by (simp add: b64_number_def)
  then show "b64_number a b 0 div 64 ^ 0 mod 64 = 0" by simp
qed

lemma group_of_number:
  assumes "n = b64_number a b c"
  shows "b64_group pad (n div 64 ^ 3 mod 64) (n div 64 ^ 2 mod 64) (n div 64 ^ 1 mod 64) (n div 64 ^ 0 mod 64) =
    [a, if pad < 2 then b else 0, if pad < 1 then c else 0]"
  unfolding b64_group_def Let_def digits_of_number[OF number_bound[of a b c, folded assms]]
  by (simp add: assms bytes_of_number)

definition b64_pad :: "byte list \<Rightarrow> nat" where
  "b64_pad bs = (3 - length bs mod 3) mod 3"

lemma decode_encode: "b64_decode (b64_encode bs) = Some (bs @ replicate (b64_pad bs) 0)"
proof (induction bs rule: b64_encode.induct)
  case (2 a)
  show ?case
    using group_of_number[of _ a 0 0 2] zero_digits(1)[of a] zero_digits(2)[of a 0]
    by (simp add: Let_def value_of_digit b64_pad_def numeral_2_eq_2)
next
  case (3 a b)
  show ?case
    using group_of_number[of _ a b 0 1] zero_digits(2)[of a b]
    by (simp add: Let_def value_of_digit b64_pad_def)
next
  case (4 a b c bs)
  have pad: "b64_pad (a # b # c # bs) = b64_pad bs" by (simp add: b64_pad_def mod_Suc)
  show ?case
    using group_of_number[of _ a b c 0] 4 by (simp add: Let_def value_of_digit pad)
qed (simp add: b64_pad_def)

text \<open>Encoded characters are ASCII and no whitespace.\<close>

definition plain_char :: "byte \<Rightarrow> bool" where
  "plain_char c \<longleftrightarrow> 32 < unat c \<and> unat c < 128"

lemma plain_digit [simp]: "plain_char (b64_digit i n)" "plain_char 61"
  using unat_char[of "n div 64 ^ i mod 64"] by (auto simp: plain_char_def b64_digit_def)

lemma encode_plain: "c \<in> set (b64_encode bs) \<Longrightarrow> plain_char c"
  by (induction bs rule: b64_encode.induct) (auto simp: Let_def)

lemma trim_plain:
  assumes "\<And>c. c \<in> set bs \<Longrightarrow> plain_char c"
  shows "trim (map unat bs) = map unat bs" "as_bytes (map unat bs) = bs"
proof -
  have ws: "dropWhile is_whitespace (map unat cs) = map unat cs" if "set cs \<subseteq> set bs" for cs :: "byte list"
  proof (cases cs)
    case (Cons c cs')
    then have "plain_char c" using that assms by auto
    then have "\<not> is_whitespace (unat c)" by (auto simp: is_whitespace_def plain_char_def)
    then show ?thesis using Cons by simp
  qed simp
  show "trim (map unat bs) = map unat bs"
    using ws[of bs] ws[of "rev bs"] by (simp add: trim_def rev_map)
  show "as_bytes (map unat bs) = bs"
    using assms by (induction bs) (auto simp: as_bytes_def utf8_char_def plain_char_def)
qed

lemma ends_with_append:
  "length t \<le> length ys \<Longrightarrow> ends_with (xs @ ys) t = ends_with ys t"
  by (simp add: ends_with_def)

lemma encode_length: "length (b64_encode bs) = 4 * ((length bs + 2) div 3)"
proof (induction bs rule: b64_encode.induct)
  case (4 a b c bs)
  have "(length bs + 5) div 3 = (length bs + 2) div 3 + 1" by presburger
  with 4 show ?case by (simp add: Let_def add.commute)
qed (simp_all add: Let_def)

lemma digit_code: "unat (b64_digit i n) \<noteq> 61"
proof
  assume "unat (b64_digit i n) = 61"
  then have "b64_digit i n = 61" by (metis of_nat_numeral of_nat_unat ucast_id)
  then show False using value_of_digit(2) by blast
qed

lemma encode_ends:
  "ends_with (map unat (b64_encode bs)) [61] \<longleftrightarrow> 0 < b64_pad bs"
  "ends_with (map unat (b64_encode bs)) [61, 61] \<longleftrightarrow> b64_pad bs = 2"
proof (induction bs rule: b64_encode.induct)
  case (4 a b c bs)
  have pad: "b64_pad (a # b # c # bs) = b64_pad bs" by (simp add: b64_pad_def mod_Suc)
  let ?g = "map unat [b64_digit 3 (b64_number a b c), b64_digit 2 (b64_number a b c), b64_digit 1 (b64_number a b c),
      b64_digit 0 (b64_number a b c)]"
  have enc: "map unat (b64_encode (a # b # c # bs)) = ?g @ map unat (b64_encode bs)" by (simp add: Let_def)
  {
    case 1
    show ?case
    proof (cases "bs = []")
      case True
      then show ?thesis by (simp add: ends_with_def Let_def digit_code b64_pad_def)
    next
      case False
      then have "1 \<le> length (map unat (b64_encode bs))" by (cases bs) (simp_all add: encode_length)
      then show ?thesis using 4 unfolding enc pad by (subst ends_with_append) simp_all
    qed
  next
    case 2
    show ?case
    proof (cases "bs = []")
      case True
      then show ?thesis by (simp add: ends_with_def Let_def digit_code b64_pad_def)
    next
      case False
      then have "2 \<le> length (map unat (b64_encode bs))" by (cases bs) (simp_all add: encode_length)
      then show ?thesis using 4 unfolding enc pad by (subst ends_with_append) simp_all
    qed
  }
qed (simp_all add: ends_with_def Let_def digit_code b64_pad_def)

lemma strip_encoded: "strip_padding (map unat (b64_encode bs)) (bs @ replicate (b64_pad bs) 0) = bs"
proof -
  have "b64_pad bs < 3" by (simp add: b64_pad_def)
  then consider "b64_pad bs = 0" | "b64_pad bs = 1" | "b64_pad bs = 2" by linarith
  then show ?thesis
    by cases (simp_all add: strip_padding_def encode_ends butlast_append numeral_2_eq_2)
qed

lemma encoded_len_small: "n \<le> c_int_max \<Longrightarrow> encoded_len n = Some (4 * ((n + 2) div 3) + 1)"
proof -
  assume n: "n \<le> c_int_max"
  have "n div 3 * 4 + 4 + 1 \<le> usize_max" using n by (simp add: c_int_max_def usize_max_def)
  moreover have "(n + 2) div 3 = (if n mod 3 = 0 then n div 3 else n div 3 + 1)" by presburger
  ultimately show ?thesis by (simp add: encoded_len_def checked_mul_def checked_add_def)
qed

lemma decoded_len_small: "n \<le> c_int_max \<Longrightarrow> decoded_len n = Some (3 * ((n + 3) div 4))"
proof -
  assume n: "n \<le> c_int_max"
  have "n div 4 * 3 + 3 \<le> usize_max" using n by (simp add: c_int_max_def usize_max_def)
  moreover have "(n + 3) div 4 = (if n mod 4 = 0 then n div 4 else n div 4 + 1)" by presburger
  ultimately show ?thesis by (simp add: decoded_len_def checked_mul_def checked_add_def)
qed

section \<open>Properties\<close>

text \<open>\<open>base64\<close>: coding of blocks as specified.\<close>

definition base64 :: b64_api where
  "base64 =
     \<lparr>EVP_EncodeBlock = b64_encode,
      EVP_DecodeBlock = (\<lambda>bs q. case b64_decode bs of Some out \<Rightarrow> (int (length out), out, q) | None \<Rightarrow> (- 1, [], q))\<rparr>"

lemma group_length [simp]: "length (b64_group pad x y z w) = 3"
  by (simp add: b64_group_def Let_def)

lemma decode_length: "b64_decode bs = Some out \<Longrightarrow> length out = 3 * (length bs div 4)"
proof (induction bs arbitrary: out rule: b64_decode.induct)
  case (2 a b c d r)
  from "2.prems" obtain x y where v: "b64_value a = Some x" "b64_value b = Some y"
    by (simp split: option.splits)
  show ?case
  proof (cases "r = [] \<and> d = 61")
    case True
    then show ?thesis using "2.prems" v by (simp split: if_splits option.splits) (metis group_length)+
  next
    case False
    with "2.prems" v obtain z w rest where g: "b64_value c = Some z" "b64_value d = Some w" "b64_decode r = Some rest"
      "out = b64_group 0 x y z w @ rest"
      by (auto split: option.splits)
    have "length rest = 3 * (length r div 4)" using "2.IH" v g False by auto
    moreover have "length (a # b # c # d # r) div 4 = length r div 4 + 1" by simp
    ultimately show ?thesis by (simp only: g length_append group_length) simp
  qed
qed simp_all

lemma base64_ok: "codes_base64 base64"
  by (auto simp: codes_base64_def base64_def decode_length split: option.split)

text \<open>
  Encoding panics only for an input longer than a C integer, and the buffer it allocates has exactly the
  room for what BoringSSL writes, the NUL included; decoding any text never writes beyond its buffer.
\<close>

lemma base64_buffers_suffice:
  assumes "codes_base64 A" "length src \<le> c_int_max" "length (as_bytes (trim text)) \<le> c_int_max"
  shows "(\<exists>s. encode_block A src = Ret (length s + 1, s) \<and> length s = 4 * ((length src + 2) div 3)) \<and>
    (\<exists>len. decoded_len (length (as_bytes (trim text))) = Some len \<and>
       length (fst (snd (EVP_DecodeBlock A (as_bytes (trim text)) q))) \<le> len)"
proof
  show "\<exists>s. encode_block A src = Ret (length s + 1, s) \<and> length s = 4 * ((length src + 2) div 3)"
    using assms(1,2) by (simp add: encode_block_def encoded_len_small codes_base64_def encode_length)
  have "length (fst (snd (EVP_DecodeBlock A (as_bytes (trim text)) q))) \<le> 3 * (length (as_bytes (trim text)) div 4)"
    using assms(1) by (simp add: codes_base64_def)
  also have "\<dots> \<le> 3 * ((length (as_bytes (trim text)) + 3) div 4)" by (intro mult_le_mono2 div_le_mono) simp
  finally show "\<exists>len. decoded_len (length (as_bytes (trim text))) = Some len \<and>
       length (fst (snd (EVP_DecodeBlock A (as_bytes (trim text)) q))) \<le> len"
    by (simp add: decoded_len_small[OF assms(3)])
qed

text \<open>
  C23: Decoding what was encoded gives the bytes back, the padding stripped, for every input whose encoding
  is no longer than a C integer.
\<close>

theorem base64_round_trip:
  assumes "codes_base64 A" "4 * ((length src + 2) div 3) \<le> c_int_max"
  shows "\<exists>s. encode_block A src = Ret (length s + 1, s) \<and>
    (\<exists>cap. decode_block A s q = (Ret (Inr (cap, src)), q))"
proof -
  let ?s = "map unat (b64_encode src)"
  have "length src \<le> 4 * ((length src + 2) div 3)" by presburger
  then have len: "length src \<le> c_int_max" using assms(2) by simp
  have enc: "encode_block A src = Ret (length ?s + 1, ?s)"
    using assms(1) len by (simp add: encode_block_def encoded_len_small codes_base64_def encode_length)
  have bytes: "trim ?s = ?s" "as_bytes ?s = b64_encode src" using trim_plain[OF encode_plain] by simp_all
  have out: "EVP_DecodeBlock A (b64_encode src) q = (int (length src + b64_pad src), src @ replicate (b64_pad src) 0, q)"
    using assms(1) decode_encode[of src] by (simp add: codes_base64_def)
  have "\<exists>cap. decode_block A ?s q = (Ret (Inr (cap, src)), q)"
  proof (cases "src = []")
    case True
    then show ?thesis by (simp add: decode_block_def trim_def)
  next
    case False
    then have "b64_encode src \<noteq> []" using encode_length[of src] by (cases src) auto
    then show ?thesis
      using assms(2) strip_encoded[of src]
      by (simp add: decode_block_def Let_def bytes decoded_len_small encode_length out cvt_n_def nat_add_distrib)
  qed
  with enc show ?thesis by blast
qed

theorem base64_round_trip_witness:
  "\<exists>s. encode_block base64 [0, 255, 16, 7] = Ret (length s + 1, s) \<and>
    (\<exists>cap. decode_block base64 s [] = (Ret (Inr (cap, [0, 255, 16, 7])), []))"
  by (rule base64_round_trip[OF base64_ok]) (simp add: c_int_max_def)

end
