(* ===== verification/Pem.thy ===== *)
theory Pem
  imports Effects Error_Put
begin

text \<open>
  Reading and writing keys: \<open>btls/src/util.rs\<close> (the password callback and its caught panic),
  \<open>btls/src/bio.rs\<close> (memory BIOs), the macros of \<open>btls/src/macros.rs\<close> that define the PEM and DER functions,
  and their instances for private keys in \<open>btls/src/pkey.rs\<close>.

  Bytes are a \<open>string\<close> here. What the library reads and writes is the parameter \<open>P\<close>, with BIOs of type \<open>'b\<close>
  and objects of type \<open>'k\<close>; where the library asks for a password it is an interaction tree.
\<close>

section \<open>The password callback\<close>

text \<open>
  The user's callback gets the buffer and returns the length of the password or an error, or panics; it may
  also use the error queue. \<open>callback_state\<close> is \<open>CallbackState\<close>: the callback is taken out when it is called.
\<close>

type_synonym passwd_cb = "string \<Rightarrow> err_queue \<Rightarrow> (error_stack + nat) outcome \<times> string \<times> err_queue"

record callback_state =
  cs_cb :: "passwd_cb option"
  cs_panic :: "string option"

definition callback_state_new :: "passwd_cb \<Rightarrow> callback_state" where
  "callback_state_new cb = \<lparr>cs_cb = Some cb, cs_panic = None\<rparr>"

text \<open>\<open>invoke_passwd_cb\<close>: a panic is caught, so that it does not unwind through C.\<close>

definition invoke_passwd_cb ::
    "err_api \<Rightarrow> string \<Rightarrow> callback_state \<Rightarrow> err_queue \<Rightarrow> int \<times> string \<times> callback_state \<times> err_queue" where
  "invoke_passwd_cb A buf cs q =
     (case cs_cb cs of
        None \<Rightarrow> (0, buf, cs\<lparr>cs_panic := Some ''called `Option::unwrap()` on a `None` value''\<rparr>, q)
      | Some cb \<Rightarrow>
          (case cb buf q of
             (Ret (Inr len), buf', q') \<Rightarrow> (as_c_int len, buf', cs\<lparr>cs_cb := None\<rparr>, q')
           | (Ret (Inl err), buf', q') \<Rightarrow> (0, buf', cs\<lparr>cs_cb := None\<rparr>, error_stack_put A err q')
           | (Panic p, buf', q') \<Rightarrow> (0, buf', cs\<lparr>cs_cb := None, cs_panic := Some p\<rparr>, q')))"

text \<open>\<open>Drop for CallbackState\<close>, at the end of a function with the given result: it resumes a caught panic.\<close>

definition callback_state_drop :: "callback_state \<Rightarrow> 'a eresult \<Rightarrow> 'a eresult" where
  "callback_state_drop cs r = (case cs_panic cs of Some p \<Rightarrow> Panicked p | None \<Rightarrow> r)"

section \<open>Memory BIOs\<close>

text \<open>
  A function of the library that reads a key and may ask for its password, with the buffer for it and the
  error queue: it goes on with the length returned and what is in the buffer.
\<close>

datatype 'k reading =
    Read_Done "'k option" err_queue
  | Read_Password string err_queue "int \<Rightarrow> string \<Rightarrow> err_queue \<Rightarrow> 'k reading"

text \<open>
  \<open>pm_read\<close> reads without a callback, with a passphrase or none; \<open>pm_read_cb\<close> reads with one. \<open>pm_write\<close>
  takes a cipher with the passphrase and its length. \<open>pm_i2d\<close> returns the length, and what it writes
  into a buffer if it is given one. \<open>pm_d2i\<close> parses at most \<open>pm_len_max\<close> bytes. \<open>mem_bio_len_max\<close> is the largest value of the length's C type.
\<close>

record ('b, 'k, 't) pem_api =
  pm_err_lib_none :: "32 word"
  mem_bio_len_max :: nat
  pm_errors :: err_api
  BIO_new_mem_buf :: "string \<Rightarrow> nat \<Rightarrow> err_queue \<Rightarrow> 'b option \<times> err_queue"
  BIO_new_mem :: "err_queue \<Rightarrow> 'b option \<times> err_queue"
  BIO_get_mem_data :: "'b \<Rightarrow> string option \<times> int"
  pm_read :: "'b \<Rightarrow> string option \<Rightarrow> err_queue \<Rightarrow> 'k option \<times> err_queue"
  pm_read_cb :: "'b \<Rightarrow> err_queue \<Rightarrow> 'k reading"
  pm_write :: "'k \<Rightarrow> ('t \<times> string \<times> nat) option \<Rightarrow> 'b \<Rightarrow> err_queue \<Rightarrow> (int \<times> unit) \<times> 'b \<times> err_queue"
  pm_i2d :: "'k \<Rightarrow> bool \<Rightarrow> err_queue \<Rightarrow> (int \<times> string) \<times> err_queue"
  pm_d2i :: "string \<Rightarrow> nat \<Rightarrow> err_queue \<Rightarrow> 'k option \<times> err_queue"
  pm_len_max :: nat

definition mem_bio_slice_new :: "('b, 'k, 't) pem_api \<Rightarrow> string \<Rightarrow> ('s, 'b) eff" where
  "mem_bio_slice_new P buf =
     ebind (etry_int (mem_bio_len_max P) (pm_err_lib_none P) (length buf)) (\<lambda>n. ecvt_p (BIO_new_mem_buf P buf n))"

definition mem_bio_new :: "('b, 'k, 't) pem_api \<Rightarrow> ('s, 'b) eff" where
  "mem_bio_new P = ecvt_p (BIO_new_mem P)"

definition mem_bio_get_buf :: "('b, 'k, 't) pem_api \<Rightarrow> 'b \<Rightarrow> string" where
  "mem_bio_get_buf P b =
     (case BIO_get_mem_data P b of
        (None, _) \<Rightarrow> []
      | (Some data, len) \<Rightarrow> if len < 0 then [] else take (nat len) data)"

section \<open>The macros\<close>

definition from_pem :: "('b, 'k, 't) pem_api \<Rightarrow> string \<Rightarrow> ('s, 'k) eff" where
  "from_pem P pem = ebind (mem_bio_slice_new P pem) (\<lambda>bio. ecvt_p (pm_read P bio None))"

definition from_pem_passphrase :: "('b, 'k, 't) pem_api \<Rightarrow> string \<Rightarrow> string \<Rightarrow> ('s, 'k) eff" where
  "from_pem_passphrase P pem passphrase =
     ebind (mem_bio_slice_new P pem) (\<lambda>bio.
       ebind (ecstring (pm_err_lib_none P) passphrase) (\<lambda>c. ecvt_p (pm_read P bio (Some c))))"

text \<open>The library runs, and each time it asks for the password the callback is invoked.\<close>

primrec run_reading :: "err_api \<Rightarrow> 'k reading \<Rightarrow> callback_state \<Rightarrow> 'k option \<times> callback_state \<times> err_queue" where
  "run_reading A (Read_Done r q) cs = (r, cs, q)"
| "run_reading A (Read_Password buf q k) cs =
     (let p = invoke_passwd_cb A buf cs q
      in run_reading A (k (fst p) (fst (snd p)) (snd (snd (snd p)))) (fst (snd (snd p))))"

definition from_pem_callback :: "('b, 'k, 't) pem_api \<Rightarrow> string \<Rightarrow> passwd_cb \<Rightarrow> ('s, 'k) eff" where
  "from_pem_callback P pem callback =
     ebind (mem_bio_slice_new P pem) (\<lambda>bio s q.
       case run_reading (pm_errors P) (pm_read_cb P bio q) (callback_state_new callback) of
         (r, cs, q1) \<Rightarrow>
           (case cvt_p r q1 of
              (Inl es, q2) \<Rightarrow> (callback_state_drop cs (Err es), s, q2)
            | (Inr k, q2) \<Rightarrow> (callback_state_drop cs (Ok k), s, q2)))"

text \<open>A function that writes into a new memory BIO, whose content is then copied.\<close>

definition through_mem_bio ::
    "('b, 'k, 't) pem_api \<Rightarrow> ('b \<Rightarrow> err_queue \<Rightarrow> (int \<times> unit) \<times> 'b \<times> err_queue) \<Rightarrow> err_queue
     \<Rightarrow> string eresult \<times> err_queue" where
  "through_mem_bio P f q =
     (case mem_bio_new P () q of
        (Ok bio, _, q1) \<Rightarrow>
          (case ecvt f bio q1 of
             (Ok _, bio', q2) \<Rightarrow> (Ok (mem_bio_get_buf P bio'), q2)
           | (Err es, _, q2) \<Rightarrow> (Err es, q2)
           | (Panicked p, _, q2) \<Rightarrow> (Panicked p, q2))
      | (Err es, _, q1) \<Rightarrow> (Err es, q1)
      | (Panicked p, _, q1) \<Rightarrow> (Panicked p, q1))"

definition to_pem :: "('b, 'k, 't) pem_api \<Rightarrow> 'k \<Rightarrow> err_queue \<Rightarrow> string eresult \<times> err_queue" where
  "to_pem P k = through_mem_bio P (pm_write P k None)"

text \<open>\<open>private_key_to_pem!\<close> with a passphrase, whose length is converted after the BIO was made.\<close>

definition to_pem_passphrase ::
    "('b, 'k, 't) pem_api \<Rightarrow> 'k \<Rightarrow> 't \<Rightarrow> string \<Rightarrow> err_queue \<Rightarrow> string eresult \<times> err_queue" where
  "to_pem_passphrase P k cipher passphrase q =
     (case mem_bio_new P () q of
        (Ok bio, _, q1) \<Rightarrow>
          (case ebind (etry_int c_int_max (pm_err_lib_none P) (length passphrase))
                  (\<lambda>n. ecvt (pm_write P k (Some (cipher, passphrase, n)))) bio q1 of
             (Ok _, bio', q2) \<Rightarrow> (Ok (mem_bio_get_buf P bio'), q2)
           | (Err es, _, q2) \<Rightarrow> (Err es, q2)
           | (Panicked p, _, q2) \<Rightarrow> (Panicked p, q2))
      | (Err es, _, q1) \<Rightarrow> (Err es, q1)
      | (Panicked p, _, q1) \<Rightarrow> (Panicked p, q1))"

definition to_der :: "('b, 'k, 't) pem_api \<Rightarrow> 'k \<Rightarrow> err_queue \<Rightarrow> (error_stack + string) \<times> err_queue" where
  "to_der P k q =
     (case pm_i2d P k False q of ((r, _), q1) \<Rightarrow>
        (case cvt_nz r q1 of
           (Inl es, q2) \<Rightarrow> (Inl es, q2)
         | (Inr len, q2) \<Rightarrow>
             (case pm_i2d P k True q2 of ((r', bs), q3) \<Rightarrow>
                (case cvt r' q3 of
                   (Inl es, q4) \<Rightarrow> (Inl es, q4)
                 | (Inr _, q4) \<Rightarrow> (Inr (bs @ drop (length bs) (replicate len (CHR 0x00))), q4)))))"

definition from_der :: "('b, 'k, 't) pem_api \<Rightarrow> string \<Rightarrow> ('s, 'k) eff" where
  "from_der P der = ecvt_p (pm_d2i P der (min (length der) (pm_len_max P)))"

section \<open>Private keys (\<open>btls/src/pkey.rs\<close>)\<close>

text \<open>The functions for encrypted PKCS#8, with \<open>P\<close> for \<open>d2i_PKCS8PrivateKey_bio\<close>.\<close>

definition private_key_from_pkcs8_callback :: "('b, 'k, 't) pem_api \<Rightarrow> string \<Rightarrow> passwd_cb \<Rightarrow> ('s, 'k) eff" where
  "private_key_from_pkcs8_callback P der callback = from_pem_callback P der callback"

definition private_key_from_pkcs8_passphrase :: "('b, 'k, 't) pem_api \<Rightarrow> string \<Rightarrow> string \<Rightarrow> ('s, 'k) eff" where
  "private_key_from_pkcs8_passphrase P der passphrase = from_pem_passphrase P der passphrase"

text \<open>\<open>private_key_from_pkcs8\<close>: the parsed info is freed on both ways out.\<close>

definition private_key_from_pkcs8 ::
    "(string \<Rightarrow> nat \<Rightarrow> err_queue \<Rightarrow> 'i option \<times> err_queue) \<Rightarrow> ('i \<Rightarrow> err_queue \<Rightarrow> 'k option \<times> err_queue) \<Rightarrow> nat
     \<Rightarrow> string \<Rightarrow> ('i list, 'k) eff" where
  "private_key_from_pkcs8 d2i to_pkey c_long_max der =
     ebind (ecvt_p (d2i der (min (length der) c_long_max))) (\<lambda>p8inf freed q.
       case ecvt_p (to_pkey p8inf) freed q of (res, freed', q') \<Rightarrow> (res, freed' @ [p8inf], q'))"

section \<open>Facts\<close>

text \<open>A reading that asks for the password once, as the functions of the library do.\<close>

definition asks_once :: "'k reading \<Rightarrow> string \<Rightarrow> err_queue \<Rightarrow> (int \<Rightarrow> string \<Rightarrow> err_queue \<Rightarrow> 'k option \<times> err_queue) \<Rightarrow> bool" where
  "asks_once rd buf q k \<longleftrightarrow> rd = Read_Password buf q (\<lambda>n b q. Read_Done (fst (k n b q)) (snd (k n b q)))"

lemma run_asks_once:
  assumes "asks_once rd buf q k"
  shows "run_reading A rd (callback_state_new cb) =
    (case cb buf q of
       (Ret (Inr n), buf', q') \<Rightarrow> (fst (k (as_c_int n) buf' q'), \<lparr>cs_cb = None, cs_panic = None\<rparr>, snd (k (as_c_int n) buf' q'))
     | (Ret (Inl es), buf', q') \<Rightarrow>
         (fst (k 0 buf' (error_stack_put A es q')), \<lparr>cs_cb = None, cs_panic = None\<rparr>, snd (k 0 buf' (error_stack_put A es q')))
     | (Panic p, buf', q') \<Rightarrow> (fst (k 0 buf' q'), \<lparr>cs_cb = None, cs_panic = Some p\<rparr>, snd (k 0 buf' q')))"
  using assms
  by (auto simp: asks_once_def invoke_passwd_cb_def callback_state_new_def Let_def
      split: prod.split outcome.split sum.split)

lemma slice_ok:
  assumes "length pem \<le> mem_bio_len_max P" "BIO_new_mem_buf P pem (length pem) q = (Some bio, q1)"
  shows "mem_bio_slice_new P pem s q = (Ok bio, s, q1)"
  using assms by (simp add: mem_bio_slice_new_def ebind_def etry_int_def ecvt_p_def cvt_p_def)

section \<open>Properties\<close>

text \<open>
  C24: A panic of the password callback never unwinds through C and is never lost: reading the key panics with
  it exactly if the callback panicked. Otherwise the key is what the library read with the bytes and
  the length the callback returned, or with length 0 if it failed, its errors back on the queue.
\<close>

theorem password_callback_outcome:
  assumes "length pem \<le> mem_bio_len_max P" "BIO_new_mem_buf P pem (length pem) q = (Some bio, q1)"
    and "asks_once (pm_read_cb P bio q1) buf q2 k" "callback buf q2 = (res, buf', q3)"
  shows "fst (from_pem_callback P pem callback s q) =
    (case res of
       Panic p \<Rightarrow> Panicked p
     | Ret r \<Rightarrow>
         (case (case r of Inr n \<Rightarrow> k (as_c_int n) buf' q3 | Inl es \<Rightarrow> k 0 buf' (error_stack_put (pm_errors P) es q3)) of
            (Some key, _) \<Rightarrow> Ok key
          | (None, q4) \<Rightarrow> Err (fst (error_stack_get q4))))"
  using run_asks_once[OF assms(3), of "pm_errors P" callback]
  by (auto simp: from_pem_callback_def ebind_def slice_ok[OF assms(1,2)] assms(4) callback_state_drop_def cvt_p_def
      fail_stack_def split: prod.split outcome.split sum.split option.split)

text \<open>A library whose only key is its own text, read with the password "pw".\<close>

definition sample_pem :: "(string, string, unit) pem_api" where
  "sample_pem =
     \<lparr>pm_err_lib_none = 1, mem_bio_len_max = 2 ^ 63 - 1, pm_errors = boringssl_errors, BIO_new_mem_buf = (\<lambda>s n q. (Some s, q)),
      BIO_new_mem = (\<lambda>q. (Some [], q)), BIO_get_mem_data = (\<lambda>b. (Some b, int (length b))),
      pm_read = (\<lambda>b u q. (Some b, q)),
      pm_read_cb = (\<lambda>b q. Read_Password ''....'' q
         (\<lambda>n buf q. Read_Done (if n = 2 \<and> take 2 buf = ''pw'' then Some b else None) q)),
      pm_write = (\<lambda>k c b q. ((1, ()), b @ k, q)), pm_i2d = (\<lambda>k w q. ((int (length k), if w then k else []), q)),
      pm_d2i = (\<lambda>s n q. (Some (take n s), q)), pm_len_max = 1000\<rparr>"

theorem password_callback_outcome_witness:
  "fst (from_pem_callback sample_pem ''key'' (\<lambda>buf q. (Ret (Inr 2), ''pw'' @ drop 2 buf, q)) () []) = Ok ''key'' \<and>
   fst (from_pem_callback sample_pem ''key'' (\<lambda>buf q. (Panic ''oh'', buf, q)) () []) = Panicked ''oh''"
  using password_callback_outcome[where P = sample_pem and pem = "''key''" and bio = "''key''" and q = "[]" and ?q1.0 = "[]"
      and buf = "''....''" and ?q2.0 = "[]" and k = "\<lambda>n buf q. (if n = 2 \<and> take 2 buf = ''pw'' then Some ''key'' else None, q)"
      and callback = "\<lambda>buf q. (Ret (Inr 2), ''pw'' @ drop 2 buf, q)" and res = "Ret (Inr 2)" and buf' = "''pw..''" and ?q3.0 = "[]"
      and s = "()"]
    password_callback_outcome[where P = sample_pem and pem = "''key''" and bio = "''key''" and q = "[]" and ?q1.0 = "[]"
      and buf = "''....''" and ?q2.0 = "[]" and k = "\<lambda>n buf q. (if n = 2 \<and> take 2 buf = ''pw'' then Some ''key'' else None, q)"
      and callback = "\<lambda>buf q. (Panic ''oh'', buf, q)" and res = "Panic ''oh''" and buf' = "''....''" and ?q3.0 = "[]"
      and s = "()"]
  by (simp add: sample_pem_def asks_once_def c_int_max_def as_c_int_small)

text \<open>
  The documentation of \<open>private_key_from_pkcs8_passphrase\<close> announces a panic for a passphrase with a NUL; it
  returns an error.
\<close>

lemma pkcs8_passphrase_nul_is_error:
  assumes "length der \<le> mem_bio_len_max P" "BIO_new_mem_buf P der (length der) q = (Some bio, q1)" "CHR 0x00 \<in> set passphrase"
  shows "\<exists>e. private_key_from_pkcs8_passphrase P der passphrase s q = (Err [e], s, q1)"
  using assms(3)
  by (simp add: private_key_from_pkcs8_passphrase_def from_pem_passphrase_def ebind_def slice_ok[OF assms(1,2)]
      ecstring_def)

text \<open>
  The length that a password callback returns is not checked against the buffer it was given: the library
  can be told of more bytes than the buffer has.
\<close>

lemma password_length_unchecked:
  assumes "length buf < c_int_max"
  shows "\<exists>callback. int (length buf) < fst (invoke_passwd_cb A buf (callback_state_new callback) q)"
proof
  let ?cb = "\<lambda>b q. (Ret (Inr c_int_max), b, q)"
  have "as_c_int c_int_max = int c_int_max" by (simp add: as_c_int_def c_int_max_def)
  then show "int (length buf) < fst (invoke_passwd_cb A buf (callback_state_new ?cb) q)"
    using assms by (simp add: invoke_passwd_cb_def callback_state_new_def)
qed

end
