(* ===== verification/Sign.thy ===== *)
theory Sign
  imports Effects
begin

text \<open>
  \<open>btls/src/sign.rs\<close>: \<open>Signer\<close> and \<open>Verifier\<close>, each a digest context that BoringSSL initialised for a key.
  The functions of BoringSSL are the parameter \<open>A\<close>; a context is a value of type \<open>'c\<close>, a private key of
  type \<open>'k\<close>, a public one of type \<open>'p\<close> and a digest of type \<open>'m\<close>.
\<close>

section \<open>Operations\<close>

text \<open>
  The initialisations also return whether they set the key context; the signing functions return the
  bytes written into a buffer of the given length. \<open>EVP_DigestSign_len\<close> is \<open>EVP_DigestSign\<close> without a buffer.
\<close>

record ('c, 'k, 'p, 'm) sign_api =
  EVP_MD_CTX_new :: "err_queue \<Rightarrow> 'c option \<times> err_queue"
  EVP_DigestSignInit :: "'m option \<Rightarrow> 'k \<Rightarrow> 'c \<Rightarrow> err_queue \<Rightarrow> (int \<times> bool) \<times> 'c \<times> err_queue"
  EVP_DigestVerifyInit :: "'m option \<Rightarrow> 'p \<Rightarrow> 'c \<Rightarrow> err_queue \<Rightarrow> (int \<times> bool) \<times> 'c \<times> err_queue"
  EVP_DigestUpdate :: "byte list \<Rightarrow> 'c \<Rightarrow> err_queue \<Rightarrow> (int \<times> unit) \<times> 'c \<times> err_queue"
  EVP_DigestSign_len :: "'c \<Rightarrow> err_queue \<Rightarrow> (int \<times> nat) \<times> 'c \<times> err_queue"
  EVP_DigestSignFinal :: "nat \<Rightarrow> 'c \<Rightarrow> err_queue \<Rightarrow> (int \<times> byte list) \<times> 'c \<times> err_queue"
  EVP_DigestSign :: "nat \<Rightarrow> byte list \<Rightarrow> 'c \<Rightarrow> err_queue \<Rightarrow> (int \<times> byte list) \<times> 'c \<times> err_queue"
  EVP_DigestVerifyFinal :: "byte list \<Rightarrow> 'c \<Rightarrow> err_queue \<Rightarrow> int \<times> 'c \<times> err_queue"
  EVP_DigestVerify :: "byte list \<Rightarrow> byte list \<Rightarrow> 'c \<Rightarrow> err_queue \<Rightarrow> int \<times> 'c \<times> err_queue"
  EVP_PKEY_CTX_get_rsa_padding :: "'c \<Rightarrow> err_queue \<Rightarrow> (int \<times> int) \<times> 'c \<times> err_queue"
  EVP_PKEY_CTX_set_rsa_padding :: "int \<Rightarrow> 'c \<Rightarrow> err_queue \<Rightarrow> (int \<times> unit) \<times> 'c \<times> err_queue"
  EVP_PKEY_CTX_set_rsa_pss_saltlen :: "int \<Rightarrow> 'c \<Rightarrow> err_queue \<Rightarrow> (int \<times> unit) \<times> 'c \<times> err_queue"
  EVP_PKEY_CTX_set_rsa_mgf1_md :: "'m \<Rightarrow> 'c \<Rightarrow> err_queue \<Rightarrow> (int \<times> unit) \<times> 'c \<times> err_queue"

text \<open>
  \<open>new_intern\<close> of both types: the result, the contexts that were freed on the way, and the error queue.
\<close>

definition new_intern ::
    "('c, 'k, 'p, 'm) sign_api \<Rightarrow> ('c \<Rightarrow> err_queue \<Rightarrow> (int \<times> bool) \<times> 'c \<times> err_queue) \<Rightarrow> err_queue
     \<Rightarrow> 'c eresult \<times> 'c list \<times> err_queue" where
  "new_intern A digest_init q =
     (case EVP_MD_CTX_new A q of (p, q1) \<Rightarrow>
        (case cvt_p p q1 of
           (Inl es, q2) \<Rightarrow> (Err es, [], q2)
         | (Inr ctx, q2) \<Rightarrow>
             (case digest_init ctx q2 of ((r, pctx), ctx', q3) \<Rightarrow>
                if r \<noteq> 1 then (case error_stack_get q3 of (es, q4) \<Rightarrow> (Err es, [ctx'], q4))
                else if \<not> pctx then (Panicked ''assertion failed: !pctx.is_null()'', [], q3)
                else (Ok ctx', [], q3))))"

definition signer_new where
  "signer_new A type pkey = new_intern A (EVP_DigestSignInit A (Some type) pkey)"

definition signer_new_without_digest where
  "signer_new_without_digest A pkey = new_intern A (EVP_DigestSignInit A None pkey)"

definition verifier_new where
  "verifier_new A type pkey = new_intern A (EVP_DigestVerifyInit A (Some type) pkey)"

definition verifier_new_without_digest where
  "verifier_new_without_digest A pkey = new_intern A (EVP_DigestVerifyInit A None pkey)"

text \<open>The settings of RSA keys, which both types have.\<close>

definition rsa_padding :: "('c, 'k, 'p, 'm) sign_api \<Rightarrow> ('c, int) eff" where
  "rsa_padding A = ecvt (EVP_PKEY_CTX_get_rsa_padding A)"

definition set_rsa_padding :: "('c, 'k, 'p, 'm) sign_api \<Rightarrow> int \<Rightarrow> ('c, unit) eff" where
  "set_rsa_padding A padding = ecvt (EVP_PKEY_CTX_set_rsa_padding A padding)"

definition set_rsa_pss_saltlen :: "('c, 'k, 'p, 'm) sign_api \<Rightarrow> int \<Rightarrow> ('c, unit) eff" where
  "set_rsa_pss_saltlen A len = ecvt (EVP_PKEY_CTX_set_rsa_pss_saltlen A len)"

definition set_rsa_mgf1_md :: "('c, 'k, 'p, 'm) sign_api \<Rightarrow> 'm \<Rightarrow> ('c, unit) eff" where
  "set_rsa_mgf1_md A md = ecvt (EVP_PKEY_CTX_set_rsa_mgf1_md A md)"

definition sign_update :: "('c, 'k, 'p, 'm) sign_api \<Rightarrow> byte list \<Rightarrow> ('c, unit) eff" where
  "sign_update A buf = ecvt (EVP_DigestUpdate A buf)"

definition sign_len :: "('c, 'k, 'p, 'm) sign_api \<Rightarrow> ('c, nat) eff" where
  "sign_len A = ecvt (EVP_DigestSign_len A)"

text \<open>\<open>sign\<close> and \<open>sign_oneshot\<close>: the length returned and the buffer then.\<close>

definition sign :: "('c, 'k, 'p, 'm) sign_api \<Rightarrow> byte list \<Rightarrow> ('c, nat \<times> byte list) eff" where
  "sign A buf = ebind (ecvt (EVP_DigestSignFinal A (length buf))) (\<lambda>bs. eret (length bs, overwrite bs buf))"

definition sign_to_vec :: "('c, 'k, 'p, 'm) sign_api \<Rightarrow> ('c, byte list) eff" where
  "sign_to_vec A =
     ebind (sign_len A) (\<lambda>n.
       ebind (sign A (replicate n 0)) (\<lambda>(len, buf). eret (take len buf)))"

definition sign_oneshot :: "('c, 'k, 'p, 'm) sign_api \<Rightarrow> byte list \<Rightarrow> byte list \<Rightarrow> ('c, nat \<times> byte list) eff" where
  "sign_oneshot A sig_buf data_buf =
     ebind (ecvt (EVP_DigestSign A (length sig_buf) data_buf)) (\<lambda>bs. eret (length bs, overwrite bs sig_buf))"

definition sign_oneshot_to_vec :: "('c, 'k, 'p, 'm) sign_api \<Rightarrow> byte list \<Rightarrow> ('c, byte list) eff" where
  "sign_oneshot_to_vec A data_buf =
     ebind (sign_len A) (\<lambda>n.
       ebind (sign_oneshot A (replicate n 0) data_buf) (\<lambda>(len, buf). eret (take len buf)))"

text \<open>\<open>match r\<close> of \<open>verify\<close> and \<open>verify_oneshot\<close>; \<open>ErrorStack::clear\<close> empties the queue.\<close>

definition verify_result :: "int \<times> 'c \<times> err_queue \<Rightarrow> bool eresult \<times> 'c \<times> err_queue" where
  "verify_result p =
     (case p of (r, c, q) \<Rightarrow>
        if r = 1 then (Ok True, c, q)
        else if r = 0 then (Ok False, c, [])
        else (case error_stack_get q of (es, q') \<Rightarrow> (Err es, c, q')))"

definition verify :: "('c, 'k, 'p, 'm) sign_api \<Rightarrow> byte list \<Rightarrow> ('c, bool) eff" where
  "verify A signature c q = verify_result (EVP_DigestVerifyFinal A signature c q)"

definition verify_oneshot :: "('c, 'k, 'p, 'm) sign_api \<Rightarrow> byte list \<Rightarrow> byte list \<Rightarrow> ('c, bool) eff" where
  "verify_oneshot A signature buf c q = verify_result (EVP_DigestVerify A signature buf c q)"

text \<open>\<open>io::Write\<close> for both: the whole buffer is taken, or the error is an \<open>io::Error\<close>.\<close>

definition sign_write ::
    "('c, 'k, 'p, 'm) sign_api \<Rightarrow> byte list \<Rightarrow> 'c \<Rightarrow> err_queue \<Rightarrow> nat io_result outcome \<times> 'c \<times> err_queue" where
  "sign_write A buf c q =
     (case sign_update A buf c q of
        (Ok _, c', q') \<Rightarrow> (Ret (Inr (length buf)), c', q')
      | (Err es, c', q') \<Rightarrow> (Ret (Inl (Io_Error OtherKind (Stack_Payload es))), c', q')
      | (Panicked p, c', q') \<Rightarrow> (Panic p, c', q'))"

section \<open>What BoringSSL promises\<close>

text \<open>
  A view of a context: the digest, the key, private or public, and the data fed to it. \<open>signs k m d\<close> are the
  signatures of \<open>d\<close> with the key and digest, and \<open>pair k p\<close> says that the keys belong together. A verifier
  accepts at least what the other key of its pair signs.
\<close>

record ('k, 'p, 'm) sign_view =
  vw_digest :: "'m option"
  vw_key :: "'k + 'p"
  vw_data :: "byte list"

definition sign_spec ::
    "('c, 'k, 'p, 'm) sign_api \<Rightarrow> ('c \<Rightarrow> ('k, 'p, 'm) sign_view) \<Rightarrow> ('k \<Rightarrow> 'm option \<Rightarrow> byte list \<Rightarrow> byte list set)
     \<Rightarrow> ('k \<Rightarrow> 'p \<Rightarrow> bool) \<Rightarrow> bool" where
  "sign_spec A V signs pair \<longleftrightarrow>
     (\<forall>m k c q r x c' q'. EVP_DigestSignInit A m k c q = ((r, x), c', q') \<longrightarrow> r = 1 \<longrightarrow>
        V c' = \<lparr>vw_digest = m, vw_key = Inl k, vw_data = []\<rparr>) \<and>
     (\<forall>m p c q r x c' q'. EVP_DigestVerifyInit A m p c q = ((r, x), c', q') \<longrightarrow> r = 1 \<longrightarrow>
        V c' = \<lparr>vw_digest = m, vw_key = Inr p, vw_data = []\<rparr>) \<and>
     (\<forall>b c q r u c' q'. EVP_DigestUpdate A b c q = ((r, u), c', q') \<longrightarrow> 0 < r \<longrightarrow>
        V c' = (V c)\<lparr>vw_data := vw_data (V c) @ b\<rparr>) \<and>
     (\<forall>c q r n c' q'. EVP_DigestSign_len A c q = ((r, n), c', q') \<longrightarrow> V c' = V c) \<and>
     (\<forall>n c q r bs c' q' k. EVP_DigestSignFinal A n c q = ((r, bs), c', q') \<longrightarrow> 0 < r \<longrightarrow> vw_key (V c) = Inl k \<longrightarrow>
        length bs \<le> n \<and> bs \<in> signs k (vw_digest (V c)) (vw_data (V c))) \<and>
     (\<forall>sig c q k p. vw_key (V c) = Inr p \<longrightarrow> pair k p \<longrightarrow> sig \<in> signs k (vw_digest (V c)) (vw_data (V c)) \<longrightarrow>
        fst (EVP_DigestVerifyFinal A sig c q) = 1)"

lemma sign_specD:
  assumes "sign_spec A V signs pair"
  shows "EVP_DigestSignInit A m k c q = ((1, x), c', q') \<Longrightarrow> V c' = \<lparr>vw_digest = m, vw_key = Inl k, vw_data = []\<rparr>"
    "EVP_DigestVerifyInit A m p c q = ((1, x), c', q') \<Longrightarrow> V c' = \<lparr>vw_digest = m, vw_key = Inr p, vw_data = []\<rparr>"
    "EVP_DigestUpdate A b c q = ((r, u), c', q') \<Longrightarrow> 0 < r \<Longrightarrow> V c' = (V c)\<lparr>vw_data := vw_data (V c) @ b\<rparr>"
    "EVP_DigestSign_len A c q = ((r, n), c', q') \<Longrightarrow> V c' = V c"
    "\<lbrakk>EVP_DigestSignFinal A n c q = ((r, bs), c', q'); 0 < r; vw_key (V c) = Inl k\<rbrakk> \<Longrightarrow>
       length bs \<le> n \<and> bs \<in> signs k (vw_digest (V c)) (vw_data (V c))"
    "\<lbrakk>vw_key (V c) = Inr p; pair k p; sig \<in> signs k (vw_digest (V c)) (vw_data (V c))\<rbrakk> \<Longrightarrow>
       fst (EVP_DigestVerifyFinal A sig c q) = 1"
  using assms unfolding sign_spec_def by - (elim conjE; (simp only: | metis))+

text \<open>Feeding data in pieces.\<close>

fun sign_updates :: "('c, 'k, 'p, 'm) sign_api \<Rightarrow> byte list list \<Rightarrow> ('c, unit) eff" where
  "sign_updates A [] = eret ()"
| "sign_updates A (b # bs) = ethen (sign_update A b) (sign_updates A bs)"

lemma sign_updates_view:
  assumes "sign_spec A V signs pair"
  shows "sign_updates A bs c q = (Ok u, c', q') \<Longrightarrow> V c' = (V c)\<lparr>vw_data := vw_data (V c) @ concat bs\<rparr>"
proof (induction bs arbitrary: c q)
  case (Cons b bs)
  then obtain c1 q1 r where "0 < r" "EVP_DigestUpdate A b c q = ((r, ()), c1, q1)"
    "sign_updates A bs c1 q1 = (Ok u, c', q')"
    by (auto simp: sign_update_def eff_ok)
  with sign_specD(3)[OF assms this(2,1)] Cons.IH[OF this(3)] show ?case by simp
qed simp

lemma new_intern_ok:
  "new_intern A f q = (Ok c, freed, q') \<Longrightarrow> \<exists>c0 q0 x. f c0 q0 = ((1, x), c, q')"
  by (auto simp: new_intern_def split: prod.splits sum.splits if_splits)

section \<open>Properties\<close>

text \<open>
  C25: A signature of data fed in any pieces is accepted by a verifier for the same digest and the other key,
  fed the same data in whatever pieces; the signature returned is the bytes that were signed, without the
  rest of the buffer, and a negative answer leaves no errors behind.
\<close>

theorem sign_verify_round_trip:
  assumes "sign_spec A V signs pair" "pair k p"
    and "signer_new A m k q0 = (Ok c1, freed, q1)" "sign_updates A bs c1 q1 = (Ok (), c2, q2)"
    and "sign_to_vec A c2 q2 = (Ok sig, c3, q3)"
    and "verifier_new A m p q4 = (Ok d1, freed', q5)" "sign_updates A ds d1 q5 = (Ok (), d2, q6)"
    and "concat ds = concat bs"
  shows "fst (verify A sig d2 q6) = Ok True \<and> sig \<in> signs k (Some m) (concat bs) \<and>
    (\<forall>sig' d q d' q'. verify A sig' d q = (Ok False, d', q') \<longrightarrow> q' = [])"
proof -
  have "V c1 = \<lparr>vw_digest = Some m, vw_key = Inl k, vw_data = []\<rparr>"
    using new_intern_ok[OF assms(3)[unfolded signer_new_def]] sign_specD(1)[OF assms(1)] by blast
  then have c2: "V c2 = \<lparr>vw_digest = Some m, vw_key = Inl k, vw_data = concat bs\<rparr>"
    using sign_updates_view[OF assms(1,4)] by simp
  have "V d1 = \<lparr>vw_digest = Some m, vw_key = Inr p, vw_data = []\<rparr>"
    using new_intern_ok[OF assms(6)[unfolded verifier_new_def]] sign_specD(2)[OF assms(1)] by blast
  then have d2: "V d2 = \<lparr>vw_digest = Some m, vw_key = Inr p, vw_data = concat bs\<rparr>"
    using sign_updates_view[OF assms(1,7)] assms(8) by simp
  from assms(5) obtain n r1 c4 q4' r2 s where len: "EVP_DigestSign_len A c2 q2 = ((r1, n), c4, q4')"
    and fin: "0 < r2" "EVP_DigestSignFinal A n c4 q4' = ((r2, s), c3, q3)"
    and sig: "sig = take (length s) (overwrite s (replicate n 0))"
    by (auto simp: sign_to_vec_def sign_len_def sign_def eff_ok)
  have c4: "V c4 = V c2" by (rule sign_specD(4)[OF assms(1) len])
  have "s \<in> signs k (Some m) (concat bs)" "sig = s"
    using sign_specD(5)[OF assms(1) fin(2,1), of k] by (simp_all add: c4 c2 sig overwrite_def)
  moreover from this have "fst (EVP_DigestVerifyFinal A sig d2 q6) = 1"
    using sign_specD(6)[OF assms(1), of d2 p k sig q6] assms(2) by (simp add: d2)
  ultimately show ?thesis
    by (auto simp: verify_def verify_result_def split: prod.splits if_splits)
qed

text \<open>A scheme in which the signature of data is the data, to show that the contract can be kept.\<close>

definition echo_sign :: "((nat, nat, nat) sign_view, nat, nat, nat) sign_api" where
  "echo_sign =
     \<lparr>EVP_MD_CTX_new = (\<lambda>q. (Some \<lparr>vw_digest = None, vw_key = Inl 0, vw_data = []\<rparr>, q)),
      EVP_DigestSignInit = (\<lambda>m k c q. ((1, True), \<lparr>vw_digest = m, vw_key = Inl k, vw_data = []\<rparr>, q)),
      EVP_DigestVerifyInit = (\<lambda>m p c q. ((1, True), \<lparr>vw_digest = m, vw_key = Inr p, vw_data = []\<rparr>, q)),
      EVP_DigestUpdate = (\<lambda>b c q. ((1, ()), c\<lparr>vw_data := vw_data c @ b\<rparr>, q)),
      EVP_DigestSign_len = (\<lambda>c q. ((1, length (vw_data c) + 1), c, q)),
      EVP_DigestSignFinal = (\<lambda>n c q. (if length (vw_data c) \<le> n then (1, vw_data c) else (0, []), c, q)),
      EVP_DigestSign = (\<lambda>n d c q. (if length d \<le> n then (1, d) else (0, []), c, q)),
      EVP_DigestVerifyFinal = (\<lambda>sig c q. (if sig = vw_data c then 1 else 0, c, q)),
      EVP_DigestVerify = (\<lambda>sig d c q. (if sig = d then 1 else 0, c, q)),
      EVP_PKEY_CTX_get_rsa_padding = (\<lambda>c q. ((0, 0), c, q)),
      EVP_PKEY_CTX_set_rsa_padding = (\<lambda>_ c q. ((0, ()), c, q)),
      EVP_PKEY_CTX_set_rsa_pss_saltlen = (\<lambda>_ c q. ((0, ()), c, q)),
      EVP_PKEY_CTX_set_rsa_mgf1_md = (\<lambda>_ c q. ((0, ()), c, q))\<rparr>"

lemma echo_sign_spec: "sign_spec echo_sign (\<lambda>c. c) (\<lambda>k m d. {d}) (\<lambda>k p. k = p)"
  by (auto simp: sign_spec_def echo_sign_def split: if_splits)

theorem sign_verify_round_trip_witness:
  "\<exists>c1 f1 q1 c2 q2 c3 q3 d1 f2 q5 d2 q6.
    signer_new echo_sign 4 7 [] = (Ok c1, f1, q1) \<and> sign_updates echo_sign [[1], [2, 3]] c1 q1 = (Ok (), c2, q2) \<and>
    sign_to_vec echo_sign c2 q2 = (Ok [1, 2, 3], c3, q3) \<and>
    verifier_new echo_sign 4 7 [] = (Ok d1, f2, q5) \<and> sign_updates echo_sign [[1, 2], [3]] d1 q5 = (Ok (), d2, q6) \<and>
    fst (verify echo_sign [1, 2, 3] d2 q6) = Ok True"
proof -
  let ?s = "\<lparr>vw_digest = Some 4, vw_key = Inl 7, vw_data = []\<rparr> :: (nat, nat, nat) sign_view"
  let ?v = "\<lparr>vw_digest = Some 4, vw_key = Inr 7, vw_data = []\<rparr> :: (nat, nat, nat) sign_view"
  have new: "signer_new echo_sign 4 7 [] = (Ok ?s, [], [])" "verifier_new echo_sign 4 7 [] = (Ok ?v, [], [])"
    by (simp_all add: signer_new_def verifier_new_def new_intern_def echo_sign_def cvt_p_def)
  have fed: "sign_updates echo_sign [[1], [2, 3]] ?s [] = (Ok (), ?s\<lparr>vw_data := [1, 2, 3]\<rparr>, [])"
    "sign_updates echo_sign [[1, 2], [3]] ?v [] = (Ok (), ?v\<lparr>vw_data := [1, 2, 3]\<rparr>, [])"
    by (simp_all add: sign_update_def echo_sign_def ethen_def ebind_def ecvt_def cvt_def)
  have sig: "sign_to_vec echo_sign (?s\<lparr>vw_data := [1, 2, 3]\<rparr>) [] = (Ok [1, 2, 3], ?s\<lparr>vw_data := [1, 2, 3]\<rparr>, [])"
    by (simp add: sign_to_vec_def sign_len_def sign_def echo_sign_def ebind_def ecvt_def cvt_def overwrite_def)
  have "fst (verify echo_sign [1, 2, 3] (?v\<lparr>vw_data := [1, 2, 3]\<rparr>) []) = Ok True"
    using sign_verify_round_trip[OF echo_sign_spec refl new(1) fed(1) sig new(2) fed(2)] by simp
  with new fed sig show ?thesis by (intro exI conjI)
qed

end
