(* ===== verification/Key_Wrap.thy ===== *)
theory Key_Wrap
  imports Prelude
begin

text \<open>
  \<open>btls/src/aes.rs\<close>: AES keys and key wrapping (RFC 3394). The functions of BoringSSL are the parameter \<open>A\<close>;
  they get a pointer to the output, so the model says what they write and whether that goes beyond the
  slice the pointer came from.
\<close>

section \<open>Operations\<close>

text \<open>The two schedules are values of type \<open>'k\<close>. Wrapping and unwrapping return a result and what they write.\<close>

record 'k aes_api =
  AES_set_encrypt_key :: "byte list \<Rightarrow> nat \<Rightarrow> int \<times> 'k"
  AES_set_decrypt_key :: "byte list \<Rightarrow> nat \<Rightarrow> int \<times> 'k"
  AES_encrypt :: "'k \<Rightarrow> byte list \<Rightarrow> byte list"
  AES_decrypt :: "'k \<Rightarrow> byte list \<Rightarrow> byte list"
  AES_wrap_key :: "'k \<Rightarrow> byte list option \<Rightarrow> byte list \<Rightarrow> int \<times> byte list"
  AES_unwrap_key :: "'k \<Rightarrow> byte list option \<Rightarrow> byte list \<Rightarrow> int \<times> byte list"

text \<open>\<open>KeyError\<close> is the unit on the left.\<close>

definition new_encrypt :: "'k aes_api \<Rightarrow> byte list \<Rightarrow> (unit + 'k) outcome" where
  "new_encrypt A key =
     (if c_int_max div 8 < length key then Panic ''assertion failed: key.len() <= c_int::MAX as usize / 8''
      else case AES_set_encrypt_key A key (length key * 8) of (r, k) \<Rightarrow> Ret (if r = 0 then Inr k else Inl ()))"

definition new_decrypt :: "'k aes_api \<Rightarrow> byte list \<Rightarrow> (unit + 'k) outcome" where
  "new_decrypt A key =
     (if c_int_max div 8 < length key then Panic ''assertion failed: key.len() <= c_int::MAX as usize / 8''
      else case AES_set_decrypt_key A key (length key * 8) of (r, k) \<Rightarrow> Ret (if r = 0 then Inr k else Inl ()))"

text \<open>A slice after a C function wrote \<open>bs\<close> from its start, and whether it wrote beyond the end.\<close>

definition written_to :: "byte list \<Rightarrow> byte list \<Rightarrow> byte list \<times> bool" where
  "written_to out bs = (take (length out) bs @ drop (length bs) out, length out < length bs)"

definition key_result :: "byte list \<Rightarrow> int \<times> byte list \<Rightarrow> (unit + nat) outcome \<times> byte list \<times> bool" where
  "key_result out p = (case p of (r, bs) \<Rightarrow> (Ret (if r \<le> 0 then Inl () else Inr (nat r)), written_to out bs))"

definition wrap_key ::
    "'k aes_api \<Rightarrow> 'k \<Rightarrow> byte list option \<Rightarrow> byte list \<Rightarrow> byte list \<Rightarrow> (unit + nat) outcome \<times> byte list \<times> bool" where
  "wrap_key A key iv out inp =
     (if length out < length inp + 8 then (Panic ''assertion failed: out.len() >= in_.len() + 8'', out, False)
      else key_result out (AES_wrap_key A key iv inp))"

definition unwrap_key ::
    "'k aes_api \<Rightarrow> 'k \<Rightarrow> byte list option \<Rightarrow> byte list \<Rightarrow> byte list \<Rightarrow> (unit + nat) outcome \<times> byte list \<times> bool" where
  "unwrap_key A key iv out inp =
     (if length inp < length out + 8 then (Panic ''assertion failed: out.len() + 8 <= in_.len()'', out, False)
      else key_result out (AES_unwrap_key A key iv inp))"

section \<open>What BoringSSL promises\<close>

text \<open>
  \<open>openssl/aes.h\<close>: wrapping writes 8 bytes more than it reads and returns that number, unwrapping 8 bytes
  less; both return -1 on an error, having written no more. Unwrapping with the other schedule of the
  same key and the same iv gives back what was wrapped.
\<close>

definition wraps_keys :: "'k aes_api \<Rightarrow> ('k \<Rightarrow> 'k \<Rightarrow> bool) \<Rightarrow> bool" where
  "wraps_keys A pair \<longleftrightarrow>
     (\<forall>k iv inp. case AES_wrap_key A k iv inp of (r, bs) \<Rightarrow>
        (r = - 1 \<and> length bs \<le> length inp + 8) \<or> (r = int (length inp + 8) \<and> length bs = length inp + 8)) \<and>
     (\<forall>k iv inp. case AES_unwrap_key A k iv inp of (r, bs) \<Rightarrow>
        (r = - 1 \<and> length bs \<le> length inp - 8) \<or>
        (8 < length inp \<and> r = int (length inp - 8) \<and> length bs = length inp - 8)) \<and>
     (\<forall>k k' iv inp bs. pair k k' \<longrightarrow> inp \<noteq> [] \<longrightarrow> AES_wrap_key A k iv inp = (int (length inp + 8), bs) \<longrightarrow>
        AES_unwrap_key A k' iv bs = (int (length inp), inp))"

lemma wraps_keysD:
  assumes "wraps_keys A pair"
  shows "AES_wrap_key A k iv inp = (r, bs) \<Longrightarrow>
      (r = - 1 \<and> length bs \<le> length inp + 8) \<or> (r = int (length inp + 8) \<and> length bs = length inp + 8)"
    "AES_unwrap_key A k iv inp = (r, bs) \<Longrightarrow>
      (r = - 1 \<and> length bs \<le> length inp - 8) \<or>
      (8 < length inp \<and> r = int (length inp - 8) \<and> length bs = length inp - 8)"
    "\<lbrakk>pair k k'; inp \<noteq> []; AES_wrap_key A k iv inp = (int (length inp + 8), bs)\<rbrakk> \<Longrightarrow>
      AES_unwrap_key A k' iv bs = (int (length inp), inp)"
proof -
  note law = assms[unfolded wraps_keys_def]
  show "AES_wrap_key A k iv inp = (r, bs) \<Longrightarrow>
      (r = - 1 \<and> length bs \<le> length inp + 8) \<or> (r = int (length inp + 8) \<and> length bs = length inp + 8)"
    using spec[OF spec[OF spec[OF conjunct1[OF law], of k], of iv], of inp] by simp
  show "AES_unwrap_key A k iv inp = (r, bs) \<Longrightarrow>
      (r = - 1 \<and> length bs \<le> length inp - 8) \<or>
      (8 < length inp \<and> r = int (length inp - 8) \<and> length bs = length inp - 8)"
    using spec[OF spec[OF spec[OF conjunct1[OF conjunct2[OF law]], of k], of iv], of inp] by simp
  show "\<lbrakk>pair k k'; inp \<noteq> []; AES_wrap_key A k iv inp = (int (length inp + 8), bs)\<rbrakk> \<Longrightarrow>
      AES_unwrap_key A k' iv bs = (int (length inp), inp)"
    using conjunct2[OF conjunct2[OF law]] by blast
qed

section \<open>Properties\<close>

text \<open>
  C26: Wrapping never writes beyond its output. Unwrapping, when it succeeds, writes beyond its output unless
  the output is exactly 8 bytes shorter than the input: the assertion accepts every shorter output.
\<close>

theorem unwrap_overruns_unless_exact:
  assumes "wraps_keys A pair"
  shows "\<not> snd (snd (wrap_key A k iv out inp)) \<and>
    (fst (unwrap_key A k iv out inp) = Ret (Inr n) \<longrightarrow>
       n = length inp - 8 \<and> (snd (snd (unwrap_key A k iv out inp)) \<longleftrightarrow> length out \<noteq> length inp - 8))"
proof -
  obtain r bs where w: "AES_wrap_key A k iv inp = (r, bs)" by (cases "AES_wrap_key A k iv inp")
  obtain r' bs' where u: "AES_unwrap_key A k iv inp = (r', bs')" by (cases "AES_unwrap_key A k iv inp")
  show ?thesis
    using wraps_keysD(1)[OF assms w] wraps_keysD(2)[OF assms u]
    by (auto simp: wrap_key_def unwrap_key_def key_result_def written_to_def w u)
qed

text \<open>A wrapping that puts the iv, or zeros, before the key.\<close>

definition plain_wrap :: "unit aes_api" where
  "plain_wrap =
     \<lparr>AES_set_encrypt_key = (\<lambda>_ _. (0, ())), AES_set_decrypt_key = (\<lambda>_ _. (0, ())),
      AES_encrypt = (\<lambda>_ b. b), AES_decrypt = (\<lambda>_ b. b),
      AES_wrap_key = (\<lambda>_ iv inp. (int (length inp + 8), replicate 8 0 @ inp)),
      AES_unwrap_key = (\<lambda>_ iv inp. if 8 < length inp then (int (length inp - 8), drop 8 inp) else (- 1, []))\<rparr>"

lemma plain_wrap_ok: "wraps_keys plain_wrap (\<lambda>_ _. True)"
  by (auto simp: wraps_keys_def plain_wrap_def)

theorem unwrap_overruns_unless_exact_witness:
  "fst (unwrap_key plain_wrap () None (replicate 8 0) (replicate 32 1)) = Ret (Inr 24) \<and>
   snd (snd (unwrap_key plain_wrap () None (replicate 8 0) (replicate 32 1)))"
proof -
  have "fst (unwrap_key plain_wrap () None (replicate 8 0) (replicate 32 1)) = Ret (Inr 24)"
    by (simp add: unwrap_key_def key_result_def plain_wrap_def)
  with unwrap_overruns_unless_exact[OF plain_wrap_ok, where n = 24 and out = "replicate 8 0"
      and inp = "replicate 32 1" and iv = None and k = "()"]
  show ?thesis by simp
qed

text \<open>
  A wrapped key, unwrapped with the other schedule and the same iv into a buffer of its length, is the
  key; nothing is written beyond either buffer.
\<close>

lemma wrap_round_trip:
  assumes "wraps_keys A pair" "pair k k'" "inp \<noteq> []" "length out = length inp + 8" "length out' = length inp"
    and "wrap_key A k iv out inp = (Ret (Inr n), wrapped, over)"
  shows "n = length inp + 8 \<and> \<not> over \<and> unwrap_key A k' iv out' wrapped = (Ret (Inr (length inp)), inp, False)"
proof -
  obtain r bs where w: "AES_wrap_key A k iv inp = (r, bs)" by (cases "AES_wrap_key A k iv inp")
  with assms(4,6) wraps_keysD(1)[OF assms(1) w]
  have "r = int (length inp + 8)" "length bs = length inp + 8" "wrapped = bs" "n = length inp + 8" "\<not> over"
    by (auto simp: wrap_key_def key_result_def written_to_def split: if_splits)
  moreover from this have "AES_unwrap_key A k' iv bs = (int (length inp), inp)"
    using wraps_keysD(3)[OF assms(1-3)] w by simp
  ultimately show ?thesis
    using assms(3,5) by (simp add: unwrap_key_def key_result_def written_to_def)
qed

end
