(* ===== verification/Kdf.thy ===== *)
theory Kdf
  imports Effects Key_Wrap
begin

text \<open>
  Functions that fill a caller's buffer: \<open>btls/src/hkdf.rs\<close>, \<open>derive.rs\<close>, \<open>pkcs5.rs\<close>, \<open>prf.rs\<close> and \<open>rand.rs\<close>,
  and the comparison of \<open>memcmp.rs\<close>. What BoringSSL computes is the parameter \<open>K\<close>, with digests of
  type \<open>'m\<close> and ciphers of type \<open>'t\<close>.

  The state of an operation is the output slice and whether something was written beyond it.
\<close>

section \<open>Writing into slices\<close>

type_synonym 'a filling = "(byte list \<times> bool, 'a) eff"

text \<open>A call checked by \<open>cvt\<close> that is given the slice, writes bytes from its start, and reports their number.\<close>

definition efill :: "(err_queue \<Rightarrow> (int \<times> byte list) \<times> err_queue) \<Rightarrow> nat filling" where
  "efill f =
     ecvt (\<lambda>(out, over) q. case f q of
       ((r, bs), q') \<Rightarrow> ((r, length bs), (fst (written_to out bs), over \<or> snd (written_to out bs)), q'))"

text \<open>A function with a slice of its own that it returns.\<close>

definition own_slice :: "nat \<Rightarrow> nat filling \<Rightarrow> err_queue \<Rightarrow> (nat \<times> byte list \<times> bool) eresult \<times> err_queue" where
  "own_slice n f q =
     (case f (replicate n 0, False) q of
        (Ok k, (out, over), q') \<Rightarrow> (Ok (k, out, over), q')
      | (Err es, _, q') \<Rightarrow> (Err es, q')
      | (Panicked p, _, q') \<Rightarrow> (Panicked p, q'))"

section \<open>The library\<close>

text \<open>Each field returns what the C function returns and what it writes; some are given the length of the slice.\<close>

record ('m, 't, 'd) kdf_api =
  kdf_err_lib_none :: "32 word"
  iterations_max :: nat
  EVP_MD_size :: "'m \<Rightarrow> nat"
  EVP_MAX_MD_SIZE :: nat
  HKDF_extract :: "'m \<Rightarrow> byte list \<Rightarrow> byte list \<Rightarrow> err_queue \<Rightarrow> (int \<times> byte list) \<times> err_queue"
  HKDF_expand :: "nat \<Rightarrow> 'm \<Rightarrow> byte list \<Rightarrow> byte list \<Rightarrow> err_queue \<Rightarrow> (int \<times> byte list) \<times> err_queue"
  CRYPTO_tls1_prf :: "'m \<Rightarrow> nat \<Rightarrow> byte list \<Rightarrow> byte list \<Rightarrow> byte list \<Rightarrow> err_queue \<Rightarrow> (int \<times> byte list) \<times> err_queue"
  PKCS5_PBKDF2_HMAC :: "byte list \<Rightarrow> byte list \<Rightarrow> nat \<Rightarrow> 'm \<Rightarrow> nat \<Rightarrow> err_queue \<Rightarrow> (int \<times> byte list) \<times> err_queue"
  EVP_PBE_scrypt :: "byte list \<Rightarrow> byte list \<Rightarrow> 64 word \<Rightarrow> 64 word \<Rightarrow> 64 word \<Rightarrow> nat \<Rightarrow> nat \<Rightarrow> err_queue
     \<Rightarrow> (int \<times> byte list) \<times> err_queue"
  RAND_bytes :: "nat \<Rightarrow> err_queue \<Rightarrow> (int \<times> byte list) \<times> err_queue"
  CRYPTO_memcmp :: "byte list \<Rightarrow> byte list \<Rightarrow> int"
  cipher_iv_len :: "'t \<Rightarrow> nat option"
  EVP_BytesToKey_len :: "'t \<Rightarrow> 'm \<Rightarrow> byte list option \<Rightarrow> nat \<Rightarrow> 32 word \<Rightarrow> err_queue \<Rightarrow> int \<times> err_queue"
  EVP_BytesToKey :: "'t \<Rightarrow> 'm \<Rightarrow> byte list option \<Rightarrow> byte list \<Rightarrow> 32 word \<Rightarrow> err_queue
     \<Rightarrow> (int \<times> byte list \<times> byte list) \<times> err_queue"
  EVP_PKEY_derive_len :: "'d \<Rightarrow> err_queue \<Rightarrow> (int \<times> nat) \<times> err_queue"
  EVP_PKEY_derive :: "'d \<Rightarrow> nat \<Rightarrow> err_queue \<Rightarrow> (int \<times> byte list) \<times> err_queue"

section \<open>HKDF\<close>

definition prk_size :: "('m, 't, 'd) kdf_api \<Rightarrow> 'm \<Rightarrow> nat" where
  "prk_size K digest = EVP_MD_size K digest"

text \<open>\<open>extract\<close> with its \<open>DigestBytes\<close>, the whole array and the length; the debug assertion is a panic.\<close>

definition hkdf_extract ::
    "bool \<Rightarrow> ('m, 't, 'd) kdf_api \<Rightarrow> 'm \<Rightarrow> byte list \<Rightarrow> byte list \<Rightarrow> err_queue
     \<Rightarrow> (nat \<times> byte list \<times> bool) eresult \<times> err_queue" where
  "hkdf_extract debug_assertions K digest salt ikm =
     own_slice (EVP_MAX_MD_SIZE K)
       (ebind (efill (HKDF_extract K digest ikm salt)) (\<lambda>len.
          ethen (eassert (\<not> debug_assertions \<or> len = prk_size K digest)
                   ''assertion `left == right` failed'') (eret len)))"

definition hkdf_extract_into ::
    "('m, 't, 'd) kdf_api \<Rightarrow> 'm \<Rightarrow> byte list \<Rightarrow> byte list \<Rightarrow> nat filling" where
  "hkdf_extract_into K digest salt ikm =
     ebind (eget (\<lambda>s. length (fst s))) (\<lambda>n.
       if n < prk_size K digest
       then efail (internal_error_str (kdf_err_lib_none K) ''HKDF PRK buffer is shorter than the digest output'')
       else efill (HKDF_extract K digest ikm salt))"

definition hkdf_expand :: "('m, 't, 'd) kdf_api \<Rightarrow> 'm \<Rightarrow> byte list \<Rightarrow> byte list \<Rightarrow> unit filling" where
  "hkdf_expand K digest prk info =
     (if length prk < prk_size K digest
      then efail (internal_error_str (kdf_err_lib_none K) ''HKDF PRK is shorter than the digest output'')
      else ebind (eget (\<lambda>s. length (fst s))) (\<lambda>n. ethen (efill (HKDF_expand K n digest prk info)) (eret ())))"

section \<open>Other derivations\<close>

definition tls1_prf :: "('m, 't, 'd) kdf_api \<Rightarrow> 'm \<Rightarrow> byte list \<Rightarrow> byte list \<Rightarrow> byte list \<Rightarrow> unit filling" where
  "tls1_prf K digest secret label seed =
     ebind (eget (\<lambda>s. length (fst s))) (\<lambda>n. ethen (efill (CRYPTO_tls1_prf K digest n secret label seed)) (eret ()))"

definition pbkdf2_hmac :: "('m, 't, 'd) kdf_api \<Rightarrow> byte list \<Rightarrow> byte list \<Rightarrow> nat \<Rightarrow> 'm \<Rightarrow> unit filling" where
  "pbkdf2_hmac K pass salt iter digest =
     ebind (etry_int (iterations_max K) (kdf_err_lib_none K) iter) (\<lambda>iter.
       ebind (eget (\<lambda>s. length (fst s))) (\<lambda>n.
         ethen (efill (PKCS5_PBKDF2_HMAC K pass salt iter digest n)) (eret ())))"

definition scrypt :: "('m, 't, 'd) kdf_api \<Rightarrow> byte list \<Rightarrow> byte list \<Rightarrow> 64 word \<Rightarrow> 64 word \<Rightarrow> 64 word \<Rightarrow> nat \<Rightarrow> unit filling"
  where
  "scrypt K pass salt n r p maxmem =
     ebind (eget (\<lambda>s. length (fst s))) (\<lambda>len. ethen (efill (EVP_PBE_scrypt K pass salt n r p maxmem len)) (eret ()))"

definition rand_bytes :: "('m, 't, 'd) kdf_api \<Rightarrow> unit filling" where
  "rand_bytes K =
     ebind (eget (\<lambda>s. length (fst s))) (\<lambda>n.
       ethen (eassert (n \<le> c_int_max) ''assertion failed: buf.len() <= c_int::MAX as usize'')
         (ethen (efill (RAND_bytes K n)) (eret ())))"

definition memcmp_eq :: "('m, 't, 'd) kdf_api \<Rightarrow> byte list \<Rightarrow> byte list \<Rightarrow> bool outcome" where
  "memcmp_eq K a b =
     (if length a \<noteq> length b then Panic ''assertion `left == right` failed'' else Ret (CRYPTO_memcmp K a b = 0))"

text \<open>
  \<open>bytes_to_key\<close>: a key and an iv, each in a vector of its own; the flag says whether one was overrun. The
  iv is written if the cipher has one.
\<close>

definition bytes_to_key ::
    "('m, 't, 'd) kdf_api \<Rightarrow> 't \<Rightarrow> 'm \<Rightarrow> byte list \<Rightarrow> byte list option \<Rightarrow> 32 word \<Rightarrow> err_queue
     \<Rightarrow> (byte list \<times> byte list option \<times> bool) eresult \<times> err_queue" where
  "bytes_to_key K t digest data salt count q =
     (if c_int_max < length data then (Panicked ''assertion failed: data.len() <= c_int::MAX as usize'', q)
      else if \<exists>s. salt = Some s \<and> length s \<noteq> 8 then (Panicked ''assertion `left == right` failed'', q)
      else case EVP_BytesToKey_len K t digest salt (length data) count q of (r, q1) \<Rightarrow>
        (case cvt_nz r q1 of
           (Inl es, q2) \<Rightarrow> (Err es, q2)
         | (Inr len, q2) \<Rightarrow>
             (case EVP_BytesToKey K t digest salt data count q2 of ((r', key, iv), q3) \<Rightarrow>
                (case cvt r' q3 of
                   (Inl es, q4) \<Rightarrow> (Err es, q4)
                 | (Inr _, q4) \<Rightarrow>
                     (let kw = written_to (replicate len 0) key;
                          vw = map_option (\<lambda>n. written_to (replicate n 0) iv) (cipher_iv_len K t)
                      in (Ok (fst kw, map_option fst vw, snd kw \<or> (case vw of None \<Rightarrow> False | Some w \<Rightarrow> snd w)), q4))))))"

text \<open>\<open>Deriver::len\<close>, \<open>derive\<close> and \<open>derive_to_vec\<close>.\<close>

definition deriver_len :: "('m, 't, 'd) kdf_api \<Rightarrow> 'd \<Rightarrow> ('s, nat) eff" where
  "deriver_len K d = ecvt (\<lambda>s q. case EVP_PKEY_derive_len K d q of (r, q') \<Rightarrow> (r, s, q'))"

definition derive :: "('m, 't, 'd) kdf_api \<Rightarrow> 'd \<Rightarrow> nat filling" where
  "derive K d = ebind (eget (\<lambda>s. length (fst s))) (\<lambda>n. efill (EVP_PKEY_derive K d n))"

definition derive_to_vec :: "('m, 't, 'd) kdf_api \<Rightarrow> 'd \<Rightarrow> err_queue \<Rightarrow> (byte list \<times> bool) eresult \<times> err_queue" where
  "derive_to_vec K d q =
     (case deriver_len K d () q of
        (Ok n, _, q1) \<Rightarrow>
          (case own_slice n (derive K d) q1 of
             (Ok (len, buf, over), q2) \<Rightarrow> (Ok (take len buf, over), q2)
           | (Err es, q2) \<Rightarrow> (Err es, q2)
           | (Panicked p, q2) \<Rightarrow> (Panicked p, q2))
      | (Err es, _, q1) \<Rightarrow> (Err es, q1)
      | (Panicked p, _, q1) \<Rightarrow> (Panicked p, q1))"

section \<open>What BoringSSL promises\<close>

text \<open>
  No function writes more than it is given room for: \<open>HKDF_extract\<close> a digest's output, which is at most
  \<open>EVP_MAX_MD_SIZE\<close>; \<open>EVP_BytesToKey\<close> the key length it announces and the iv length of the cipher; the
  others the length they are passed. \<open>CRYPTO_memcmp\<close> returns 0 exactly for equal bytes.
\<close>

definition kdf_spec :: "('m, 't, 'd) kdf_api \<Rightarrow> bool" where
  "kdf_spec K \<longleftrightarrow>
     (\<forall>m. EVP_MD_size K m \<le> EVP_MAX_MD_SIZE K) \<and>
     (\<forall>m ikm salt q. length (snd (fst (HKDF_extract K m ikm salt q))) \<le> EVP_MD_size K m) \<and>
     (\<forall>n m prk info q. length (snd (fst (HKDF_expand K n m prk info q))) \<le> n) \<and>
     (\<forall>m n secret label seed q. length (snd (fst (CRYPTO_tls1_prf K m n secret label seed q))) \<le> n) \<and>
     (\<forall>pass salt iter m n q. length (snd (fst (PKCS5_PBKDF2_HMAC K pass salt iter m n q))) \<le> n) \<and>
     (\<forall>pass salt n r p mx len q. length (snd (fst (EVP_PBE_scrypt K pass salt n r p mx len q))) \<le> len) \<and>
     (\<forall>n q. length (snd (fst (RAND_bytes K n q))) \<le> n) \<and>
     (\<forall>d n q. length (snd (fst (EVP_PKEY_derive K d n q))) \<le> n) \<and>
     (\<forall>t m salt data count q q'. int (length (fst (snd (fst (EVP_BytesToKey K t m salt data count q)))))
         \<le> max 0 (fst (EVP_BytesToKey_len K t m salt (length data) count q'))) \<and>
     (\<forall>t m salt data count q n. cipher_iv_len K t = Some n \<longrightarrow>
         length (snd (snd (fst (EVP_BytesToKey K t m salt data count q)))) \<le> n) \<and>
     (\<forall>a b. length a = length b \<longrightarrow> (CRYPTO_memcmp K a b = 0 \<longleftrightarrow> a = b))"

text \<open>An operation that keeps the length of the slice and writes nothing beyond it.\<close>

definition in_bounds :: "'a filling \<Rightarrow> bool" where
  "in_bounds f \<longleftrightarrow>
     (\<forall>out q r out' over q'. f (out, False) q = (r, (out', over), q') \<longrightarrow> \<not> over \<and> length out' = length out)"

lemma efill_bounds:
  assumes "\<And>q. length (snd (fst (f q))) \<le> length out" "efill f (out, False) q = (r, (out', over), q')"
  shows "\<not> over \<and> length out' = length out"
  using assms(2) assms(1)[of q]
  by (auto simp: efill_def ecvt_def written_to_def split: prod.splits sum.splits)

lemma in_bounds_pure [intro]: "in_bounds (eret x)" "in_bounds (efail es)" "in_bounds (epanic p)"
  "in_bounds (etry_int mx e n)" "in_bounds (eassert b p)"
  by (auto simp: in_bounds_def etry_int_def eassert_def split: if_splits)

lemma in_bounds_bind [intro]:
  assumes "in_bounds m" "\<And>x. in_bounds (f x)"
  shows "in_bounds (ebind m f)"
  unfolding in_bounds_def
proof (intro allI impI)
  fix out q r out' over q'
  assume run: "ebind m f (out, False) q = (r, (out', over), q')"
  obtain r1 out1 over1 q1 where m: "m (out, False) q = (r1, (out1, over1), q1)" by (metis prod.collapse)
  have ok: "\<not> over1 \<and> length out1 = length out" using assms(1)[unfolded in_bounds_def] m by blast
  show "\<not> over \<and> length out' = length out"
  proof (cases r1)
    case (Ok x)
    then have "f x (out1, False) q1 = (r, (out', over), q')" using run m ok by (simp add: ebind_def)
    then show ?thesis using assms(2)[of x, unfolded in_bounds_def] ok by metis
  qed (use run m ok in \<open>auto simp: ebind_def\<close>)
qed

lemma in_bounds_then [intro]: "in_bounds m \<Longrightarrow> in_bounds n \<Longrightarrow> in_bounds (ethen m n)"
  unfolding ethen_def by (rule in_bounds_bind)

text \<open>Reading the length first and filling at most that much.\<close>

lemma in_bounds_sized:
  assumes "\<And>n q. length (snd (fst (f n q))) \<le> n" "\<And>k. in_bounds (g k)"
  shows "in_bounds (ebind (eget (\<lambda>s. length (fst s))) (\<lambda>n. ebind (efill (f n)) g))"
    "in_bounds (ebind (eget (\<lambda>s. length (fst s))) (\<lambda>n. efill (f n)))"
proof -
  have fill: "efill (f (length out)) (out, False) q = (r, (out', over), q') \<Longrightarrow> \<not> over \<and> length out' = length out"
    for out q r out' over q'
    using efill_bounds assms(1) by blast
  show "in_bounds (ebind (eget (\<lambda>s. length (fst s))) (\<lambda>n. efill (f n)))"
    unfolding in_bounds_def by (intro allI impI) (rule fill, simp add: ebind_def)
  show "in_bounds (ebind (eget (\<lambda>s. length (fst s))) (\<lambda>n. ebind (efill (f n)) g))"
    unfolding in_bounds_def
  proof (intro allI impI)
    fix out q r out' over q'
    assume run: "ebind (eget (\<lambda>s. length (fst s))) (\<lambda>n. ebind (efill (f n)) g) (out, False) q = (r, (out', over), q')"
    obtain r1 out1 over1 q1 where m: "efill (f (length out)) (out, False) q = (r1, (out1, over1), q1)"
      by (metis prod.collapse)
    note ok = fill[OF m]
    show "\<not> over \<and> length out' = length out"
    proof (cases r1)
      case (Ok k)
      then have "g k (out1, False) q1 = (r, (out', over), q')" using run m ok by (simp add: ebind_def)
      then show ?thesis using assms(2)[of k, unfolded in_bounds_def] ok by metis
    qed (use run m ok in \<open>auto simp: ebind_def\<close>)
  qed
qed

section \<open>Properties\<close>

lemma kdf_specD:
  assumes "kdf_spec K"
  shows "EVP_MD_size K m \<le> EVP_MAX_MD_SIZE K"
    "length (snd (fst (HKDF_extract K m ikm salt q))) \<le> EVP_MD_size K m"
    "length (snd (fst (HKDF_expand K n m prk info q))) \<le> n"
    "length (snd (fst (CRYPTO_tls1_prf K m n secret label seed q))) \<le> n"
    "length (snd (fst (PKCS5_PBKDF2_HMAC K pass salt iter m n q))) \<le> n"
    "length (snd (fst (EVP_PBE_scrypt K pass salt n' r p mx n q))) \<le> n"
    "length (snd (fst (RAND_bytes K n q))) \<le> n"
    "length (snd (fst (EVP_PKEY_derive K d n q))) \<le> n"
    "length a = length b \<Longrightarrow> CRYPTO_memcmp K a b = 0 \<longleftrightarrow> a = b"
  using assms by (simp_all add: kdf_spec_def)

lemma fill_bytes:
  assumes "HKDF_extract K m ikm salt q = ((r, bs), q1)" "length bs \<le> n"
    "own_slice n (ebind (efill (HKDF_extract K m ikm salt)) (\<lambda>len. ethen (eassert (A len) p) (eret len))) q
       = (Ok (len, buf, over), q')"
  shows "\<not> over \<and> take len buf = bs"
  using assms
  by (auto simp: own_slice_def ebind_def ethen_def efill_def ecvt_def written_to_def eassert_def
      split: prod.splits eresult.splits sum.splits if_splits)

lemma own_slice_bounds:
  assumes "in_bounds f" "own_slice n f q = (Ok (k, out, over), q')"
  shows "\<not> over \<and> length out = n"
proof -
  obtain r out' over' q1 where run: "f (replicate n 0, False) q = (r, (out', over'), q1)" by (metis prod.collapse)
  then have "\<not> over' \<and> length out' = n" using assms(1)[unfolded in_bounds_def] by (metis length_replicate)
  then show ?thesis using assms(2) run by (auto simp: own_slice_def split: eresult.splits)
qed

lemma in_bounds_fillers:
  assumes "kdf_spec K"
  shows "in_bounds (hkdf_expand K m prk info)" "in_bounds (tls1_prf K m secret label seed)"
    "in_bounds (pbkdf2_hmac K pass salt iter m)" "in_bounds (scrypt K pass salt n r p mx)" "in_bounds (derive K d)"
proof -
  note api = kdf_specD[OF assms]
  show "in_bounds (hkdf_expand K m prk info)" unfolding hkdf_expand_def ethen_def by (auto intro!: in_bounds_sized api)
  show "in_bounds (tls1_prf K m secret label seed)" unfolding tls1_prf_def ethen_def by (auto intro!: in_bounds_sized api)
  show "in_bounds (pbkdf2_hmac K pass salt iter m)"
    unfolding pbkdf2_hmac_def ethen_def by (rule in_bounds_bind) (auto intro!: in_bounds_sized api)
  show "in_bounds (scrypt K pass salt n r p mx)" unfolding scrypt_def ethen_def by (auto intro!: in_bounds_sized api)
  show "in_bounds (derive K d)" unfolding derive_def by (auto intro!: in_bounds_sized api)
qed

lemma in_bounds_extract_into:
  assumes "kdf_spec K"
  shows "in_bounds (hkdf_extract_into K m salt ikm)"
  unfolding in_bounds_def
proof (intro allI impI)
  fix out q r out' over q'
  assume run: "hkdf_extract_into K m salt ikm (out, False) q = (r, (out', over), q')"
  show "\<not> over \<and> length out' = length out"
  proof (cases "length out < prk_size K m")
    case True
    then show ?thesis using run by (simp add: hkdf_extract_into_def ebind_def)
  next
    case False
    have "length (snd (fst (HKDF_extract K m ikm salt q))) \<le> length out" for q
      using kdf_specD(2)[OF assms, of m ikm salt q] False by (simp add: prk_size_def)
    then show ?thesis
      using efill_bounds[of "HKDF_extract K m ikm salt" out q r out' over q'] run False
      by (simp add: hkdf_extract_into_def ebind_def)
  qed
qed

lemma in_bounds_rand:
  assumes "kdf_spec K"
  shows "in_bounds (rand_bytes K)"
  unfolding in_bounds_def
proof (intro allI impI)
  fix out q r out' over q'
  assume run: "rand_bytes K (out, False) q = (r, (out', over), q')"
  show "\<not> over \<and> length out' = length out"
  proof (cases "length out \<le> c_int_max")
    case True
    with run have "ebind (eget (\<lambda>s. length (fst s))) (\<lambda>n. ebind (efill (RAND_bytes K n)) (\<lambda>_. eret ()))
        (out, False) q = (r, (out', over), q')"
      by (simp add: rand_bytes_def ebind_def ethen_def eassert_def)
    moreover have "in_bounds (ebind (eget (\<lambda>s. length (fst s))) (\<lambda>n. ebind (efill (RAND_bytes K n)) (\<lambda>_. eret ())))"
      by (intro in_bounds_sized kdf_specD[OF assms] in_bounds_pure)
    ultimately show ?thesis unfolding in_bounds_def by metis
  next
    case False
    with run show ?thesis by (simp add: rand_bytes_def ebind_def ethen_def eassert_def)
  qed
qed

lemma bytes_to_key_bounds:
  assumes "kdf_spec K" "bytes_to_key K t m data salt count q = (Ok (key, iv, over), q')"
  shows "\<not> over \<and> map_option length iv = cipher_iv_len K t"
proof -
  obtain r q1 where l: "EVP_BytesToKey_len K t m salt (length data) count q = (r, q1)" by (metis prod.collapse)
  from assms(2) l have r: "0 < r" by (auto simp: bytes_to_key_def cvt_nz_def fail_stack_def split: if_splits prod.splits)
  obtain r' kb vb q3 where b: "EVP_BytesToKey K t m salt data count q1 = ((r', kb, vb), q3)" by (metis prod.collapse)
  have "int (length kb) \<le> r"
    using assms(1)[unfolded kdf_spec_def] l b r by (metis fst_conv snd_conv max.absorb2 order.strict_implies_order)
  moreover have "\<And>n. cipher_iv_len K t = Some n \<Longrightarrow> length vb \<le> n"
    using assms(1)[unfolded kdf_spec_def] b by (metis fst_conv snd_conv)
  ultimately show ?thesis
    using assms(2) r
    by (auto simp: bytes_to_key_def l b cvt_nz_def cvt_def fail_stack_def written_to_def Let_def
        split: if_splits prod.splits sum.splits option.splits)
qed

lemma derive_to_vec_bounds:
  assumes "kdf_spec K" "derive_to_vec K d q = (Ok (v, over), q')"
  shows "\<not> over"
  using assms(2) by (auto simp: derive_to_vec_def dest: own_slice_bounds[OF in_bounds_fillers(5)[OF assms(1), of d]]
      split: prod.splits eresult.splits)

text \<open>
  The functions that fill a caller's buffer keep its length and write nothing beyond it, whatever its
  length, and whether they succeed or fail. Those that return buffers of their own do not overrun them:
  \<open>extract\<close> gives exactly the bytes the library computed, and \<open>bytes_to_key\<close> an iv of the cipher's length.
\<close>

lemma outputs_stay_in_slices:
  assumes "kdf_spec K"
  shows "in_bounds (hkdf_extract_into K m salt ikm) \<and> in_bounds (hkdf_expand K m prk info) \<and>
    in_bounds (tls1_prf K m secret label seed) \<and> in_bounds (pbkdf2_hmac K pass salt iter m) \<and>
    in_bounds (scrypt K pass salt n r p mx) \<and> in_bounds (rand_bytes K) \<and> in_bounds (derive K d) \<and>
    (\<forall>len buf over q'. hkdf_extract dbg K m salt ikm q = (Ok (len, buf, over), q') \<longrightarrow>
       \<not> over \<and> take len buf = snd (fst (HKDF_extract K m ikm salt q))) \<and>
    (\<forall>key iv over q'. bytes_to_key K t m pass os count q = (Ok (key, iv, over), q') \<longrightarrow>
       \<not> over \<and> map_option length iv = cipher_iv_len K t) \<and>
    (\<forall>v over q'. derive_to_vec K d q = (Ok (v, over), q') \<longrightarrow> \<not> over)"
proof -
  obtain r' bs q1 where h: "HKDF_extract K m ikm salt q = ((r', bs), q1)" by (metis prod.collapse)
  have "length bs \<le> EVP_MAX_MD_SIZE K" using kdf_specD(1,2)[OF assms, of m] h by (metis fst_conv snd_conv le_trans)
  then have "\<not> over \<and> take len buf = snd (fst (HKDF_extract K m ikm salt q))"
    if "hkdf_extract dbg K m salt ikm q = (Ok (len, buf, over), q')" for len buf over q'
    using fill_bytes[OF h _ that[unfolded hkdf_extract_def]] h by simp
  then show ?thesis
    using derive_to_vec_bounds[OF assms] bytes_to_key_bounds[OF assms]
    by (intro conjI in_bounds_fillers[OF assms] in_bounds_extract_into[OF assms] in_bounds_rand[OF assms]) blast+
qed

text \<open>A library that writes zeros: 2 bytes for a digest, 4 for a key, and what is asked for otherwise.\<close>

definition zero_kdf :: "(unit, unit, unit) kdf_api" where
  "zero_kdf =
     \<lparr>kdf_err_lib_none = 1, iterations_max = 9, EVP_MD_size = (\<lambda>m. 2), EVP_MAX_MD_SIZE = 8,
      HKDF_extract = (\<lambda>m ikm salt q. ((1, [0, 0]), q)), HKDF_expand = (\<lambda>n m prk info q. ((1, replicate n 0), q)),
      CRYPTO_tls1_prf = (\<lambda>m n secret label seed q. ((1, replicate n 0), q)),
      PKCS5_PBKDF2_HMAC = (\<lambda>pass salt iter m n q. ((1, replicate n 0), q)),
      EVP_PBE_scrypt = (\<lambda>pass salt n r p mx len q. ((1, replicate len 0), q)),
      RAND_bytes = (\<lambda>n q. ((1, replicate n 0), q)), CRYPTO_memcmp = (\<lambda>a b. if a = b then 0 else 1),
      cipher_iv_len = (\<lambda>t. Some 3), EVP_BytesToKey_len = (\<lambda>t m salt n count q. (4, q)),
      EVP_BytesToKey = (\<lambda>t m salt data count q. ((1, [0, 0, 0, 0], [0, 0, 0]), q)),
      EVP_PKEY_derive_len = (\<lambda>d q. ((1, 5), q)), EVP_PKEY_derive = (\<lambda>d n q. ((1, replicate n 0), q))\<rparr>"

text \<open>Comparing panics for different lengths and is equality otherwise.\<close>

lemma memcmp_is_equality:
  assumes "kdf_spec K"
  shows "memcmp_eq K a b = (if length a = length b then Ret (a = b) else Panic ''assertion `left == right` failed'')"
  using kdf_specD(9)[OF assms, of a b] by (simp add: memcmp_eq_def)

end
