(* ===== verification/Asn1.thy ===== *)
theory Asn1
  imports Effects
begin

text \<open>
  \<open>btls/src/asn1.rs\<close> and \<open>btls/src/string.rs\<close>: times and their order, strings, integers and the text of object
  identifiers. What BoringSSL computes is a parameter: \<open>A\<close> for times of type \<open>'t\<close>, \<open>G\<close> for the rest.
\<close>

section \<open>Times\<close>

datatype ordering = Less | Equal | Greater

text \<open>\<open>c_int::cmp(&0)\<close>.\<close>

definition cmp_zero :: "int \<Rightarrow> ordering" where
  "cmp_zero r = (if r < 0 then Less else if r = 0 then Equal else Greater)"

text \<open>\<open>ASN1_TIME_diff\<close> returns its result and what it writes: days and seconds.\<close>

record 't time_api =
  time_err_lib_none :: "32 word"
  ASN1_TIME_new :: "err_queue \<Rightarrow> 't option \<times> err_queue"
  ASN1_TIME_diff :: "'t \<Rightarrow> 't \<Rightarrow> err_queue \<Rightarrow> (int \<times> int \<times> int) \<times> err_queue"
  X509_gmtime_adj :: "int \<Rightarrow> err_queue \<Rightarrow> 't option \<times> err_queue"
  ASN1_TIME_set :: "int \<Rightarrow> err_queue \<Rightarrow> 't option \<times> err_queue"
  ASN1_TIME_set_string :: "string \<Rightarrow> 't \<Rightarrow> err_queue \<Rightarrow> (int \<times> unit) \<times> 't \<times> err_queue"
  ASN1_TIME_set_string_X509 :: "string \<Rightarrow> 't \<Rightarrow> err_queue \<Rightarrow> (int \<times> unit) \<times> 't \<times> err_queue"
  time_BIO_new :: "err_queue \<Rightarrow> unit option \<times> err_queue"
  ASN1_TIME_print :: "'t \<Rightarrow> err_queue \<Rightarrow> (int \<times> string) \<times> err_queue"

record time_diff =
  td_days :: int
  td_secs :: int

definition diff :: "'t time_api \<Rightarrow> 't \<Rightarrow> 't \<Rightarrow> err_queue \<Rightarrow> (error_stack + time_diff) \<times> err_queue" where
  "diff A a b q =
     (case ASN1_TIME_diff A a b q of ((err, days, secs), q1) \<Rightarrow>
        if err = 0 then fail_stack q1 else (Inr \<lparr>td_days = days, td_secs = secs\<rparr>, q1))"

definition compare :: "'t time_api \<Rightarrow> 't \<Rightarrow> 't \<Rightarrow> err_queue \<Rightarrow> (error_stack + ordering) \<times> err_queue" where
  "compare A a b q =
     (case diff A a b q of
        (Inl es, q1) \<Rightarrow> (Inl es, q1)
      | (Inr d, q1) \<Rightarrow>
          (Inr (if td_days d > 0 \<or> td_secs d > 0 then Less
                else if td_days d < 0 \<or> td_secs d < 0 then Greater
                else Equal), q1))"

text \<open>\<open>PartialEq\<close> and \<open>PartialOrd\<close>, the same for every mix of owned and borrowed times.\<close>

definition time_eq :: "'t time_api \<Rightarrow> 't \<Rightarrow> 't \<Rightarrow> err_queue \<Rightarrow> bool \<times> err_queue" where
  "time_eq A a b q =
     (case diff A a b q of
        (Inl es, q1) \<Rightarrow> (False, q1)
      | (Inr t, q1) \<Rightarrow> (td_days t = 0 \<and> td_secs t = 0, q1))"

definition time_partial_cmp :: "'t time_api \<Rightarrow> 't \<Rightarrow> 't \<Rightarrow> err_queue \<Rightarrow> ordering option \<times> err_queue" where
  "time_partial_cmp A a b q =
     (case compare A a b q of (Inl es, q1) \<Rightarrow> (None, q1) | (Inr c, q1) \<Rightarrow> (Some c, q1))"

definition time_display :: "'t time_api \<Rightarrow> 't \<Rightarrow> err_queue \<Rightarrow> string \<times> err_queue" where
  "time_display A t q =
     (case time_BIO_new A q of (p, q1) \<Rightarrow>
        (case cvt_p p q1 of
           (Inl es, q2) \<Rightarrow> (''error'', q2)
         | (Inr _, q2) \<Rightarrow>
             (case ASN1_TIME_print A t q2 of ((r, text), q3) \<Rightarrow>
                (case cvt r q3 of (Inl es, q4) \<Rightarrow> (''error'', q4) | (Inr _, q4) \<Rightarrow> (text, q4)))))"

text \<open>An object that is made, then set by an effect on it, and returned if that succeeds.\<close>

definition made_with :: "(err_queue \<Rightarrow> 't option \<times> err_queue) \<Rightarrow> ('t, 'a) eff \<Rightarrow> err_queue \<Rightarrow> 't eresult \<times> err_queue" where
  "made_with new m q =
     (case new q of (p, q1) \<Rightarrow>
        (case cvt_p p q1 of
           (Inl es, q2) \<Rightarrow> (Err es, q2)
         | (Inr t, q2) \<Rightarrow>
             (case m t q2 of
                (Ok _, t', q3) \<Rightarrow> (Ok t', q3)
              | (Err es, _, q3) \<Rightarrow> (Err es, q3)
              | (Panicked p, _, q3) \<Rightarrow> (Panicked p, q3))))"

definition time_from_str :: "'t time_api \<Rightarrow> string \<Rightarrow> err_queue \<Rightarrow> 't eresult \<times> err_queue" where
  "time_from_str A s =
     made_with (ASN1_TIME_new A) (ebind (ecstring (time_err_lib_none A) s) (\<lambda>c. ecvt (ASN1_TIME_set_string A c)))"

definition time_from_str_x509 :: "'t time_api \<Rightarrow> string \<Rightarrow> err_queue \<Rightarrow> 't eresult \<times> err_queue" where
  "time_from_str_x509 A s =
     made_with (ASN1_TIME_new A)
       (ebind (ecstring (time_err_lib_none A) s) (\<lambda>c. ecvt (ASN1_TIME_set_string_X509 A c)))"

definition from_unix :: "'t time_api \<Rightarrow> int \<Rightarrow> ('s, 't) eff" where
  "from_unix A time = ecvt_p (ASN1_TIME_set A time)"




section \<open>Strings, integers and objects\<close>

text \<open>
  \<open>'x\<close> is \<open>ASN1_STRING\<close>, \<open>'n\<close> \<open>ASN1_INTEGER\<close>, \<open>'o\<close> \<open>ASN1_OBJECT\<close>. \<open>ASN1_STRING_to_UTF8\<close> gives the length and the
  text it allocates, without the final NUL; \<open>OBJ_obj2txt\<close> what it writes into a buffer of the given size.
\<close>

record ('x, 'n, 'o) asn1_api =
  asn1_err_lib_none :: "32 word"
  utf8 :: "byte list \<Rightarrow> string option"
  ASN1_STRING_to_UTF8 :: "'x \<Rightarrow> err_queue \<Rightarrow> (int \<times> byte list) \<times> err_queue"
  ASN1_STRING_get0_data :: "'x \<Rightarrow> byte list option"
  ASN1_STRING_length :: "'x \<Rightarrow> nat"
  ASN1_INTEGER_cmp :: "'n \<Rightarrow> 'n \<Rightarrow> int"
  ASN1_INTEGER_set :: "int \<Rightarrow> 'n \<Rightarrow> err_queue \<Rightarrow> (int \<times> unit) \<times> 'n \<times> err_queue"
  OBJ_txt2obj :: "string \<Rightarrow> err_queue \<Rightarrow> 'o option \<times> err_queue"
  OBJ_obj2txt :: "nat \<Rightarrow> 'o \<Rightarrow> int \<times> byte list"

text \<open>\<open>Deref for OpensslStringRef\<close>: a C string ends at its first NUL.\<close>

definition openssl_string :: "byte list \<Rightarrow> byte list" where
  "openssl_string bs = takeWhile (\<lambda>b. b \<noteq> 0) bs"

definition as_utf8 :: "('x, 'n, 'o) asn1_api \<Rightarrow> 'x \<Rightarrow> err_queue \<Rightarrow> (error_stack + byte list) \<times> err_queue" where
  "as_utf8 G s q =
     (case ASN1_STRING_to_UTF8 G s q of ((len, bs), q1) \<Rightarrow>
        if len < 0 then fail_stack q1 else (Inr (openssl_string bs), q1))"

definition string_len :: "('x, 'n, 'o) asn1_api \<Rightarrow> 'x \<Rightarrow> nat" where
  "string_len G s = ASN1_STRING_length G s"

definition as_slice :: "('x, 'n, 'o) asn1_api \<Rightarrow> 'x \<Rightarrow> byte list" where
  "as_slice G s = (case ASN1_STRING_get0_data G s of None \<Rightarrow> [] | Some data \<Rightarrow> take (string_len G s) data)"

definition to_str :: "('x, 'n, 'o) asn1_api \<Rightarrow> 'x \<Rightarrow> string option" where
  "to_str G s = utf8 G (as_slice G s)"

definition integer_cmp :: "('x, 'n, 'o) asn1_api \<Rightarrow> 'n \<Rightarrow> 'n \<Rightarrow> ordering" where
  "integer_cmp G a b = cmp_zero (ASN1_INTEGER_cmp G a b)"

definition integer_eq :: "('x, 'n, 'o) asn1_api \<Rightarrow> 'n \<Rightarrow> 'n \<Rightarrow> bool" where
  "integer_eq G a b \<longleftrightarrow> integer_cmp G a b = Equal"

definition integer_set :: "('x, 'n, 'o) asn1_api \<Rightarrow> 32 word \<Rightarrow> ('n, unit) eff" where
  "integer_set G v = ecvt (ASN1_INTEGER_set G (sint v))"

definition object_from_str :: "('x, 'n, 'o) asn1_api \<Rightarrow> string \<Rightarrow> ('s, 'o) eff" where
  "object_from_str G txt = ebind (ecstring (asn1_err_lib_none G) txt) (\<lambda>c. ecvt_p (OBJ_txt2obj G c))"

text \<open>\<open>Display for Asn1ObjectRef\<close>; a negative length becomes a \<open>usize\<close> beyond the buffer.\<close>

definition object_display :: "('x, 'n, 'o) asn1_api \<Rightarrow> 'o \<Rightarrow> string" where
  "object_display G x =
     (case OBJ_obj2txt G 80 x of (len, bs) \<Rightarrow>
        let buf = overwrite bs (replicate 80 0) in
        case (if 0 \<le> len \<and> nat len \<le> length buf then utf8 G (take (nat len) buf) else None) of
          None \<Rightarrow> ''error''
        | Some s \<Rightarrow> s)"

section \<open>What BoringSSL promises\<close>

text \<open>
  \<open>\<tau>\<close> is the second that a time denotes, if it is a valid time. \<open>ASN1_TIME_diff\<close> fails for others, and else
  splits the difference into days and seconds of the same sign, less than a day of seconds.
\<close>

definition time_spec :: "'t time_api \<Rightarrow> ('t \<Rightarrow> int option) \<Rightarrow> bool" where
  "time_spec A \<tau> \<longleftrightarrow>
     (\<forall>a b q. case (\<tau> a, \<tau> b) of
        (Some x, Some y) \<Rightarrow>
          (\<exists>r d s. ASN1_TIME_diff A a b q = ((r, d, s), q) \<and> r \<noteq> 0 \<and> y - x = 86400 * d + s \<and> \<bar>s\<bar> < 86400 \<and>
             (0 \<le> d \<and> 0 \<le> s \<or> d \<le> 0 \<and> s \<le> 0))
      | _ \<Rightarrow> fst (fst (ASN1_TIME_diff A a b q)) = 0)"

definition text_of_object :: "('x, 'n, 'o) asn1_api \<Rightarrow> ('o \<Rightarrow> byte list) \<Rightarrow> bool" where
  "text_of_object G text \<longleftrightarrow>
     (\<forall>n x. 0 < n \<longrightarrow> OBJ_obj2txt G n x = (int (length (text x)), take (n - 1) (text x) @ [0]))"

section \<open>Properties\<close>

lemma diff_valid:
  assumes "time_spec A \<tau>" "\<tau> a = Some x" "\<tau> b = Some y"
  obtains d s where "diff A a b q = (Inr \<lparr>td_days = d, td_secs = s\<rparr>, q)"
    "x < y \<longleftrightarrow> d > 0 \<or> s > 0" "y < x \<longleftrightarrow> d < 0 \<or> s < 0"
proof -
  obtain r d s where d: "ASN1_TIME_diff A a b q = ((r, d, s), q)" "r \<noteq> 0" "y - x = 86400 * d + s" "\<bar>s\<bar> < 86400"
    "0 \<le> d \<and> 0 \<le> s \<or> d \<le> 0 \<and> s \<le> 0"
    using assms(1)[unfolded time_spec_def, rule_format, of a b q] assms(2,3) by auto
  have "diff A a b q = (Inr \<lparr>td_days = d, td_secs = s\<rparr>, q)" using d(1,2) by (simp add: diff_def)
  moreover have "x < y \<longleftrightarrow> d > 0 \<or> s > 0" "y < x \<longleftrightarrow> d < 0 \<or> s < 0" using d(3,4,5) by auto
  ultimately show thesis by (rule that)
qed

lemma diff_invalid:
  assumes "time_spec A \<tau>" "\<tau> a = None \<or> \<tau> b = None"
  shows "\<exists>es q'. diff A a b q = (Inl es, q')"
proof -
  have "fst (fst (ASN1_TIME_diff A a b q)) = 0"
    using assms(1)[unfolded time_spec_def, rule_format, of a b q] assms(2) by (auto split: option.splits)
  then show ?thesis
    by (cases "ASN1_TIME_diff A a b q") (auto simp: diff_def fail_stack_def split: prod.splits)
qed

text \<open>
  C27: Times compare as the seconds they denote: \<open>partial_cmp\<close> is their order and \<open>==\<close> their equality, and valid
  times are always comparable. A time that is not valid compares with nothing, not even itself, and
  \<open>==\<close> holds exactly if \<open>partial_cmp\<close> says \<open>Equal\<close>.
\<close>

theorem times_compare_as_seconds:
  assumes "time_spec A \<tau>"
  shows "fst (time_partial_cmp A a b q) =
           (case (\<tau> a, \<tau> b) of
              (Some x, Some y) \<Rightarrow> Some (if x < y then Less else if x = y then Equal else Greater)
            | _ \<Rightarrow> None) \<and>
         (fst (time_eq A a b q) \<longleftrightarrow> fst (time_partial_cmp A a b q) = Some Equal)"
proof (cases "\<tau> a = None \<or> \<tau> b = None")
  case True
  then obtain es q' where "diff A a b q = (Inl es, q')" using diff_invalid[OF assms] by blast
  then show ?thesis
    using True by (auto simp: time_partial_cmp_def compare_def time_eq_def split: option.splits)
next
  case False
  then obtain x y where xy: "\<tau> a = Some x" "\<tau> b = Some y" by auto
  from diff_valid[OF assms xy, of q] obtain d s where d: "diff A a b q = (Inr \<lparr>td_days = d, td_secs = s\<rparr>, q)"
    "x < y \<longleftrightarrow> d > 0 \<or> s > 0" "y < x \<longleftrightarrow> d < 0 \<or> s < 0" by blast
  then have "x = y \<longleftrightarrow> d = 0 \<and> s = 0" by linarith
  with d xy show ?thesis by (auto simp: time_partial_cmp_def compare_def time_eq_def)
qed

text \<open>A clock whose times are seconds, with one invalid time.\<close>

definition second_clock :: "int option time_api" where
  "second_clock =
     \<lparr>time_err_lib_none = 1, ASN1_TIME_new = (\<lambda>q. (Some None, q)),
      ASN1_TIME_diff = (\<lambda>a b q. case (a, b) of
          (Some x, Some y) \<Rightarrow>
            if x \<le> y then ((1, (y - x) div 86400, (y - x) mod 86400), q)
            else ((1, - ((x - y) div 86400), - ((x - y) mod 86400)), q)
        | _ \<Rightarrow> ((0, 0, 0), q)),
      X509_gmtime_adj = (\<lambda>p q. (Some (Some p), q)), ASN1_TIME_set = (\<lambda>t q. (Some (Some t), q)),
      ASN1_TIME_set_string = (\<lambda>c t q. ((0, ()), t, q)), ASN1_TIME_set_string_X509 = (\<lambda>c t q. ((0, ()), t, q)),
      time_BIO_new = (\<lambda>q. (None, q)), ASN1_TIME_print = (\<lambda>t q. ((0, []), q))\<rparr>"

lemma second_clock_ok: "time_spec second_clock (\<lambda>t. t)"
  unfolding time_spec_def
proof (intro allI)
  fix a b :: "int option" and q
  have split: "- (86400 * (z div 86400)) - z mod 86400 = - z" for z :: int
    using mult_div_mod_eq[of 86400 z] by linarith
  show "case (a, b) of
      (Some x, Some y) \<Rightarrow>
        (\<exists>r d s. ASN1_TIME_diff second_clock a b q = ((r, d, s), q) \<and> r \<noteq> 0 \<and> y - x = 86400 * d + s \<and> \<bar>s\<bar> < 86400 \<and>
           (0 \<le> d \<and> 0 \<le> s \<or> d \<le> 0 \<and> s \<le> 0))
    | _ \<Rightarrow> fst (fst (ASN1_TIME_diff second_clock a b q)) = 0"
    by (cases a; cases b) (auto simp: second_clock_def pos_imp_zdiv_nonneg_iff split split: if_splits)
qed

theorem times_compare_as_seconds_witness:
  "fst (time_partial_cmp second_clock (Some 5) (Some 100000) []) = Some Less \<and>
   fst (time_eq second_clock (Some 5) (Some 100000) []) = False \<and>
   fst (time_partial_cmp second_clock None None []) = None \<and> fst (time_eq second_clock None None []) = False"
  using times_compare_as_seconds[OF second_clock_ok, of "Some 5" "Some 100000" "[]"]
    times_compare_as_seconds[OF second_clock_ok, of None None "[]"]
  by simp





section \<open>Text\<close>

text \<open>
  The text of an object is shown whole if it is shorter than 80 bytes, and replaced by \<open>error\<close> if it is longer.
  With exactly 80 bytes its last byte is shown as the NUL that ends the buffer.
\<close>

lemma object_display_text:
  assumes "text_of_object G text"
  shows "object_display G x =
    (case (if length (text x) < 80 then utf8 G (text x)
           else if length (text x) = 80 then utf8 G (take 79 (text x) @ [0]) else None) of
       None \<Rightarrow> ''error''
     | Some s \<Rightarrow> s)"
proof -
  have "OBJ_obj2txt G 80 x = (int (length (text x)), take 79 (text x) @ [0])"
    using assms by (simp add: text_of_object_def)
  then show ?thesis by (simp add: object_display_def overwrite_def Let_def)
qed

text \<open>\<open>as_utf8\<close> gives the text up to its first NUL, so all of it only if there is none.\<close>

lemma as_utf8_whole_iff_no_nul:
  assumes "ASN1_STRING_to_UTF8 G s q = ((len, bs), q')" "0 \<le> len"
  shows "as_utf8 G s q = (Inr bs, q') \<longleftrightarrow> 0 \<notin> set bs"
proof -
  have "takeWhile (\<lambda>b. b \<noteq> 0) bs = bs \<longleftrightarrow> 0 \<notin> set bs" by (auto simp: takeWhile_eq_all_conv)
  with assms show ?thesis by (simp add: as_utf8_def openssl_string_def)
qed

text \<open>Equality of integers is that of their comparison.\<close>

lemma integer_eq_iff: "integer_eq G a b \<longleftrightarrow> ASN1_INTEGER_cmp G a b = 0"
  by (simp add: integer_eq_def integer_cmp_def cmp_zero_def)

end
