(* ===== verification/X509_Ext.thy ===== *)
theory X509_Ext
  imports Asn1 Stack "HOL-Library.Multiset"
begin

text \<open>
  X.509 extensions and general names: \<open>btls/src/x509/extension.rs\<close>, and from \<open>btls/src/x509/mod.rs\<close> the constructors of
  \<open>X509Extension\<close> and \<open>GeneralName\<close> and the accessors of \<open>GeneralNameRef\<close>. The builders print their settings as text
  that BoringSSL parses, or hand it a stack of objects.
\<close>

section \<open>The text of extensions\<close>

text \<open>\<open>append\<close>, with the text so far and whether it is still empty.\<close>

definition append_part :: "string \<times> bool \<Rightarrow> bool \<Rightarrow> string \<Rightarrow> string \<times> bool" where
  "append_part st should element =
     (if \<not> should then st
      else ((if \<not> snd st then fst st @ '','' else fst st) @ element, False))"

text \<open>A sequence of calls of \<open>append\<close> on a new string.\<close>

definition append_all :: "(bool \<times> string) list \<Rightarrow> string" where
  "append_all parts = fst (foldl (\<lambda>st (should, element). append_part st should element) ([], True) parts)"

record basic_constraints =
  bc_critical :: bool
  bc_ca :: bool
  bc_pathlen :: "32 word option"

definition bc_new :: basic_constraints where
  "bc_new = \<lparr>bc_critical = False, bc_ca = False, bc_pathlen = None\<rparr>"

definition bc_set_critical :: "basic_constraints \<Rightarrow> basic_constraints" where
  "bc_set_critical b = b\<lparr>bc_critical := True\<rparr>"

definition bc_set_ca :: "basic_constraints \<Rightarrow> basic_constraints" where
  "bc_set_ca b = b\<lparr>bc_ca := True\<rparr>"

definition bc_set_pathlen :: "32 word \<Rightarrow> basic_constraints \<Rightarrow> basic_constraints" where
  "bc_set_pathlen n b = b\<lparr>bc_pathlen := Some n\<rparr>"

definition bc_value :: "basic_constraints \<Rightarrow> string" where
  "bc_value b =
     (if bc_critical b then ''critical,'' else []) @ ''CA:'' @ (if bc_ca b then ''TRUE'' else ''FALSE'') @
     (case bc_pathlen b of None \<Rightarrow> [] | Some n \<Rightarrow> '',pathlen:'' @ show_nat (unat n))"

record key_usage =
  ku_critical :: bool
  ku_digital_signature :: bool
  ku_non_repudiation :: bool
  ku_key_encipherment :: bool
  ku_data_encipherment :: bool
  ku_key_agreement :: bool
  ku_key_cert_sign :: bool
  ku_crl_sign :: bool
  ku_encipher_only :: bool
  ku_decipher_only :: bool

definition ku_new :: key_usage where
  "ku_new = \<lparr>ku_critical = False, ku_digital_signature = False, ku_non_repudiation = False, ku_key_encipherment = False,
     ku_data_encipherment = False, ku_key_agreement = False, ku_key_cert_sign = False, ku_crl_sign = False,
     ku_encipher_only = False, ku_decipher_only = False\<rparr>"

definition ku_set_critical :: "key_usage \<Rightarrow> key_usage" where
  "ku_set_critical r = r\<lparr>ku_critical := True\<rparr>"

definition ku_set_digital_signature :: "key_usage \<Rightarrow> key_usage" where
  "ku_set_digital_signature r = r\<lparr>ku_digital_signature := True\<rparr>"

definition ku_set_non_repudiation :: "key_usage \<Rightarrow> key_usage" where
  "ku_set_non_repudiation r = r\<lparr>ku_non_repudiation := True\<rparr>"

definition ku_set_key_encipherment :: "key_usage \<Rightarrow> key_usage" where
  "ku_set_key_encipherment r = r\<lparr>ku_key_encipherment := True\<rparr>"

definition ku_set_data_encipherment :: "key_usage \<Rightarrow> key_usage" where
  "ku_set_data_encipherment r = r\<lparr>ku_data_encipherment := True\<rparr>"

definition ku_set_key_agreement :: "key_usage \<Rightarrow> key_usage" where
  "ku_set_key_agreement r = r\<lparr>ku_key_agreement := True\<rparr>"

definition ku_set_key_cert_sign :: "key_usage \<Rightarrow> key_usage" where
  "ku_set_key_cert_sign r = r\<lparr>ku_key_cert_sign := True\<rparr>"

definition ku_set_crl_sign :: "key_usage \<Rightarrow> key_usage" where
  "ku_set_crl_sign r = r\<lparr>ku_crl_sign := True\<rparr>"

definition ku_set_encipher_only :: "key_usage \<Rightarrow> key_usage" where
  "ku_set_encipher_only r = r\<lparr>ku_encipher_only := True\<rparr>"

definition ku_set_decipher_only :: "key_usage \<Rightarrow> key_usage" where
  "ku_set_decipher_only r = r\<lparr>ku_decipher_only := True\<rparr>"

definition ku_value :: "key_usage \<Rightarrow> string" where
  "ku_value k = append_all
     [(ku_critical k, ''critical''), (ku_digital_signature k, ''digitalSignature''),
      (ku_non_repudiation k, ''nonRepudiation''), (ku_key_encipherment k, ''keyEncipherment''),
      (ku_data_encipherment k, ''dataEncipherment''), (ku_key_agreement k, ''keyAgreement''),
      (ku_key_cert_sign k, ''keyCertSign''), (ku_crl_sign k, ''cRLSign''), (ku_encipher_only k, ''encipherOnly''),
      (ku_decipher_only k, ''decipherOnly'')]"

record authority_key_identifier =
  ak_critical :: bool
  ak_keyid :: "bool option"
  ak_issuer :: "bool option"

definition ak_new :: authority_key_identifier where
  "ak_new = \<lparr>ak_critical = False, ak_keyid = None, ak_issuer = None\<rparr>"

definition ak_set_critical :: "authority_key_identifier \<Rightarrow> authority_key_identifier" where
  "ak_set_critical r = r\<lparr>ak_critical := True\<rparr>"

definition ak_set_keyid :: "bool \<Rightarrow> authority_key_identifier \<Rightarrow> authority_key_identifier" where
  "ak_set_keyid always r = r\<lparr>ak_keyid := Some always\<rparr>"

definition ak_set_issuer :: "bool \<Rightarrow> authority_key_identifier \<Rightarrow> authority_key_identifier" where
  "ak_set_issuer always r = r\<lparr>ak_issuer := Some always\<rparr>"

definition ak_value :: "authority_key_identifier \<Rightarrow> string" where
  "ak_value a = append_all
     [(ak_critical a, ''critical''),
      (ak_keyid a \<noteq> None, if ak_keyid a = Some True then ''keyid:always'' else ''keyid''),
      (ak_issuer a \<noteq> None, if ak_issuer a = Some True then ''issuer:always'' else ''issuer'')]"

definition sk_ident_value :: "bool \<Rightarrow> string" where
  "sk_ident_value critical = append_all [(critical, ''critical''), (True, ''hash'')]"

section \<open>Reading the text back\<close>

fun split_on :: "'a \<Rightarrow> 'a list \<Rightarrow> 'a list list" where
  "split_on c [] = [[]]"
| "split_on c (x # xs) =
     (if x = c then [] # split_on c xs
      else (case split_on c xs of [] \<Rightarrow> [[x]] | w # ws \<Rightarrow> (x # w) # ws))"

definition parse_nat :: "string \<Rightarrow> nat" where
  "parse_nat s = foldl (\<lambda>n c. 10 * n + (of_char c - 48)) 0 s"

fun intercalate :: "'a \<Rightarrow> 'a list list \<Rightarrow> 'a list" where
  "intercalate c [] = []"
| "intercalate c [w] = w"
| "intercalate c (w # v # ws) = w @ c # intercalate c (v # ws)"

text \<open>A setting is on if its word is there.\<close>

definition parse_key_usage :: "string \<Rightarrow> key_usage" where
  "parse_key_usage s = (let ws = set (split_on CHR '','' s) in
     \<lparr>ku_critical = ''critical'' \<in> ws, ku_digital_signature = ''digitalSignature'' \<in> ws,
      ku_non_repudiation = ''nonRepudiation'' \<in> ws, ku_key_encipherment = ''keyEncipherment'' \<in> ws,
      ku_data_encipherment = ''dataEncipherment'' \<in> ws, ku_key_agreement = ''keyAgreement'' \<in> ws,
      ku_key_cert_sign = ''keyCertSign'' \<in> ws, ku_crl_sign = ''cRLSign'' \<in> ws,
      ku_encipher_only = ''encipherOnly'' \<in> ws, ku_decipher_only = ''decipherOnly'' \<in> ws\<rparr>)"

definition parse_basic_constraints :: "string \<Rightarrow> basic_constraints" where
  "parse_basic_constraints s = (let ws = split_on CHR '','' s in
     \<lparr>bc_critical = ''critical'' \<in> set ws, bc_ca = ''CA:TRUE'' \<in> set ws,
      bc_pathlen = (case filter (\<lambda>w. take 8 w = ''pathlen:'') ws of [] \<Rightarrow> None | w # _ \<Rightarrow> Some (of_nat (parse_nat (drop 8 w))))\<rparr>)"

definition parse_authority_key_identifier :: "string \<Rightarrow> authority_key_identifier" where
  "parse_authority_key_identifier s = (let ws = set (split_on CHR '','' s) in
     \<lparr>ak_critical = ''critical'' \<in> ws,
      ak_keyid = (if ''keyid:always'' \<in> ws then Some True else if ''keyid'' \<in> ws then Some False else None),
      ak_issuer = (if ''issuer:always'' \<in> ws then Some True else if ''issuer'' \<in> ws then Some False else None)\<rparr>)"

lemma split_on_nonempty [simp]: "split_on c s \<noteq> []"
  by (cases s) (auto split: list.split)

lemma split_on_word: "c \<notin> set w \<Longrightarrow> split_on c (w @ c # s) = w # split_on c s"
  by (induction w) auto

lemma split_on_last: "c \<notin> set w \<Longrightarrow> split_on c w = [w]"
  by (induction w) auto

lemma split_intercalate:
  "ws \<noteq> [] \<Longrightarrow> \<forall>w\<in>set ws. c \<notin> set w \<Longrightarrow> split_on c (intercalate c ws) = ws"
  by (induction c ws rule: intercalate.induct) (simp_all add: split_on_word split_on_last)

lemma intercalate_snoc: "ws \<noteq> [] \<Longrightarrow> intercalate c (ws @ [w]) = intercalate c ws @ c # w"
  by (induction c ws rule: intercalate.induct) auto

text \<open>The calls of \<open>append\<close> join the elements that are wanted.\<close>

lemma append_fold:
  "foldl (\<lambda>st (should, element). append_part st should element) (intercalate CHR '','' ws, ws = []) parts =
     (intercalate CHR '','' (ws @ map snd (filter fst parts)), ws @ map snd (filter fst parts) = [])"
proof (induction parts arbitrary: ws)
  case (Cons p parts)
  obtain b e where p: "p = (b, e)" by (cases p)
  have "append_part (intercalate CHR '','' ws, ws = []) True e = (intercalate CHR '','' (ws @ [e]), ws @ [e] = [])"
    by (cases "ws = []") (simp_all add: append_part_def intercalate_snoc)
  moreover have "append_part st False e = st" for st by (simp add: append_part_def)
  ultimately show ?case using Cons.IH[of ws] Cons.IH[of "ws @ [e]"] by (cases b) (simp_all add: p)
qed simp

lemma append_all_joins: "append_all parts = intercalate CHR '','' (map snd (filter fst parts))"
  using append_fold[of "[]" parts] by (simp add: append_all_def)

text \<open>So splitting the text gives them back.\<close>

lemma words_of_append_all:
  assumes "\<forall>p\<in>set parts. CHR '','' \<notin> set (snd p) \<and> snd p \<noteq> []" "w \<noteq> []"
  shows "w \<in> set (split_on CHR '','' (append_all parts)) \<longleftrightarrow> (\<exists>p\<in>set parts. fst p \<and> snd p = w)"
proof (cases "filter fst parts = []")
  case True
  then show ?thesis using assms(2) by (auto simp: append_all_joins filter_empty_conv)
next
  case False
  have "split_on CHR '','' (append_all parts) = map snd (filter fst parts)"
    unfolding append_all_joins using False assms(1) by (intro split_intercalate) auto
  then show ?thesis by auto
qed

lemma key_usage_round_trip: "parse_key_usage (ku_value k) = k"
proof -
  have ws: "w \<noteq> [] \<Longrightarrow> w \<in> set (split_on CHR '','' (ku_value k)) \<longleftrightarrow> (\<exists>p\<in>set
     [(ku_critical k, ''critical''), (ku_digital_signature k, ''digitalSignature''),
      (ku_non_repudiation k, ''nonRepudiation''), (ku_key_encipherment k, ''keyEncipherment''),
      (ku_data_encipherment k, ''dataEncipherment''), (ku_key_agreement k, ''keyAgreement''),
      (ku_key_cert_sign k, ''keyCertSign''), (ku_crl_sign k, ''cRLSign''), (ku_encipher_only k, ''encipherOnly''),
      (ku_decipher_only k, ''decipherOnly'')]. fst p \<and> snd p = w)" for w
    unfolding ku_value_def by (rule words_of_append_all) auto
  show ?thesis by (rule key_usage.equality) (simp_all add: parse_key_usage_def Let_def ws)
qed

lemma authority_key_identifier_round_trip: "parse_authority_key_identifier (ak_value a) = a"
proof -
  have ws: "w \<noteq> [] \<Longrightarrow> w \<in> set (split_on CHR '','' (ak_value a)) \<longleftrightarrow> (\<exists>p\<in>set
     [(ak_critical a, ''critical''),
      (ak_keyid a \<noteq> None, if ak_keyid a = Some True then ''keyid:always'' else ''keyid''),
      (ak_issuer a \<noteq> None, if ak_issuer a = Some True then ''issuer:always'' else ''issuer'')]. fst p \<and> snd p = w)" for w
    unfolding ak_value_def by (rule words_of_append_all) auto
  show ?thesis by (rule authority_key_identifier.equality) (auto simp: parse_authority_key_identifier_def Let_def ws)
qed

lemma parse_show_nat: "parse_nat (show_nat n) = n"
proof (induction n rule: show_nat.induct)
  case (1 n)
  have digit: "of_char (char_of (48 + m) :: char) - 48 = m" if "m < 10" for m :: nat
    using that by (simp add: of_char_of)
  show ?case
  proof (cases "n < 10")
    case True
    then show ?thesis by (subst show_nat.simps) (simp add: parse_nat_def digit)
  next
    case False
    then have "parse_nat (show_nat n) = 10 * parse_nat (show_nat (n div 10)) + n mod 10"
      by (subst show_nat.simps) (simp add: parse_nat_def digit)
    then show ?thesis using 1 False by simp
  qed
qed

lemma show_nat_no_comma: "CHR '','' \<notin> set (show_nat n)"
proof (induction n rule: show_nat.induct)
  case (1 n)
  have "CHR '','' \<noteq> char_of (48 + m)" if "m < 10" for m :: nat
  proof
    assume "CHR '','' = char_of (48 + m)"
    then have "of_char (char_of (48 + m) :: char) = (of_char CHR '','' :: nat)" by simp
    then show False using that by (simp add: of_char_of)
  qed
  then show ?case using 1 by (subst show_nat.simps) auto
qed

lemma basic_constraints_round_trip: "parse_basic_constraints (bc_value b) = b"
proof -
  have ws: "split_on CHR '','' (bc_value b) =
      (if bc_critical b then [''critical''] else []) @ [''CA:'' @ (if bc_ca b then ''TRUE'' else ''FALSE'')] @
      (case bc_pathlen b of None \<Rightarrow> [] | Some n \<Rightarrow> [''pathlen:'' @ show_nat (unat n)])"
    by (cases "bc_pathlen b") (simp_all add: bc_value_def split_on_last[OF show_nat_no_comma])
  show ?thesis
    by (rule basic_constraints.equality)
      (auto simp: parse_basic_constraints_def Let_def ws parse_show_nat split: option.split)
qed

text \<open>
  C29: The text of an extension says exactly what was set: reading back the words between its commas gives
  the constraints, usages and identifiers that the builder held, for every combination of settings.
\<close>

theorem extension_text_round_trip:
  "parse_basic_constraints (bc_value b) = b \<and> parse_key_usage (ku_value k) = k \<and>
   parse_authority_key_identifier (ak_value a) = a"
  by (simp only: basic_constraints_round_trip key_usage_round_trip authority_key_identifier_round_trip)

section \<open>General names\<close>

text \<open>
  \<open>GENERAL_NAME\<close> of the C library: a type, and a union whose member the type selects. \<open>'o\<close> is \<open>ASN1_OBJECT\<close>.
\<close>

datatype gen_type = GEN_EMAIL | GEN_DNS | GEN_URI | GEN_IPADD | GEN_RID | Gen_Other int

datatype asn1_string_type = IA5STRING | OCTET_STRING

datatype 'o gn_union = Gn_String asn1_string_type "byte list" | Gn_Object 'o | Gn_Null

record 'o general_name =
  gn_type :: gen_type
  gn_d :: "'o gn_union"

text \<open>
  The functions of the library. \<open>'e\<close> is \<open>X509_EXTENSION\<close>, \<open>'v\<close> a context, \<open>'f\<close> a configuration; stacks of elements
  \<open>'g\<close> are of type \<open>'s\<close>. \<open>ASN1_STRING_set\<close> gives its return value, which the code ignores, and what
  the new string holds afterwards.
\<close>

record ('e, 'v, 'f, 's) x509_api =
  x_err_lib_none :: "32 word"
  empty_context :: 'v
  X509V3_EXT_nconf :: "'f option \<Rightarrow> 'v \<Rightarrow> string \<Rightarrow> string \<Rightarrow> err_queue \<Rightarrow> 'e option \<times> err_queue"
  X509V3_EXT_nconf_nid :: "'f option \<Rightarrow> 'v \<Rightarrow> int \<Rightarrow> string \<Rightarrow> err_queue \<Rightarrow> 'e option \<times> err_queue"
  X509V3_EXT_i2d :: "int \<Rightarrow> bool \<Rightarrow> 's \<Rightarrow> err_queue \<Rightarrow> 'e option \<times> err_queue"
  GENERAL_NAME_new :: "err_queue \<Rightarrow> unit option \<times> err_queue"
  ASN1_STRING_type_new :: "asn1_string_type \<Rightarrow> err_queue \<Rightarrow> unit option \<times> err_queue"
  ASN1_STRING_set :: "byte list \<Rightarrow> err_queue \<Rightarrow> (int \<times> byte list) \<times> err_queue"
  string_set_len_max :: nat
  x_utf8 :: "byte list \<Rightarrow> string option"
  x_utf8_lossy :: "byte list \<Rightarrow> string"

definition gn_make ::
    "('e, 'v, 'f, 's) x509_api \<Rightarrow> gen_type \<Rightarrow> asn1_string_type \<Rightarrow> byte list \<Rightarrow> ('u, 'o general_name) eff" where
  "gn_make X ty st value =
     ethen (ecvt_p (GENERAL_NAME_new X))
       (ethen (ecvt_p (ASN1_STRING_type_new X st))
         (ethen (eassert (length value \<le> string_set_len_max X) ''called `Result::unwrap()` on an `Err` value'')
           (\<lambda>u q. case ASN1_STRING_set X value q of
              ((_, content), q') \<Rightarrow> (Ok \<lparr>gn_type = ty, gn_d = Gn_String st content\<rparr>, u, q'))))"

definition new_email :: "('e, 'v, 'f, 's) x509_api \<Rightarrow> byte list \<Rightarrow> ('u, 'o general_name) eff" where
  "new_email X email = gn_make X GEN_EMAIL IA5STRING email"

definition new_dns :: "('e, 'v, 'f, 's) x509_api \<Rightarrow> byte list \<Rightarrow> ('u, 'o general_name) eff" where
  "new_dns X dns = gn_make X GEN_DNS IA5STRING dns"

definition new_uri :: "('e, 'v, 'f, 's) x509_api \<Rightarrow> byte list \<Rightarrow> ('u, 'o general_name) eff" where
  "new_uri X uri = gn_make X GEN_URI IA5STRING uri"

definition new_ip :: "('e, 'v, 'f, 's) x509_api \<Rightarrow> ip_addr \<Rightarrow> ('u, 'o general_name) eff" where
  "new_ip X ip =
     (case ip of
        V4 os \<Rightarrow> gn_make X GEN_IPADD OCTET_STRING os
      | V6 os \<Rightarrow> gn_make X GEN_IPADD OCTET_STRING os)"

definition new_rid :: "('e, 'v, 'f, 's) x509_api \<Rightarrow> 'o \<Rightarrow> ('u, 'o general_name) eff" where
  "new_rid X oid = ethen (ecvt_p (GENERAL_NAME_new X)) (eret \<lparr>gn_type = GEN_RID, gn_d = Gn_Object oid\<rparr>)"

text \<open>
  Reading \<open>d.ia5\<close> or \<open>d.ip\<close>, an \<open>ASN1_STRING\<close>; \<open>Panic\<close> stands for reading a union member that was not set, which
  in C is undefined.
\<close>

definition union_string :: "'o gn_union \<Rightarrow> byte list outcome" where
  "union_string d = (case d of Gn_String _ bs \<Rightarrow> Ret bs | _ \<Rightarrow> Panic ''another member of the union'')"

definition ia5_string :: "('e, 'v, 'f, 's) x509_api \<Rightarrow> 'o general_name \<Rightarrow> gen_type \<Rightarrow> string option outcome" where
  "ia5_string X g ty =
     (if gn_type g \<noteq> ty then Ret None
      else case union_string (gn_d g) of Ret bs \<Rightarrow> Ret (x_utf8 X bs) | Panic p \<Rightarrow> Panic p)"

definition gn_email :: "('e, 'v, 'f, 's) x509_api \<Rightarrow> 'o general_name \<Rightarrow> string option outcome" where
  "gn_email X g = ia5_string X g GEN_EMAIL"

definition gn_dnsname :: "('e, 'v, 'f, 's) x509_api \<Rightarrow> 'o general_name \<Rightarrow> string option outcome" where
  "gn_dnsname X g = ia5_string X g GEN_DNS"

definition gn_uri :: "('e, 'v, 'f, 's) x509_api \<Rightarrow> 'o general_name \<Rightarrow> string option outcome" where
  "gn_uri X g = ia5_string X g GEN_URI"

definition gn_ipaddress :: "'o general_name \<Rightarrow> byte list option outcome" where
  "gn_ipaddress g =
     (if gn_type g \<noteq> GEN_IPADD then Ret None
      else case union_string (gn_d g) of Ret bs \<Rightarrow> Ret (Some bs) | Panic p \<Rightarrow> Panic p)"

text \<open>\<open>Debug for GeneralNameRef\<close>.\<close>

definition gn_debug :: "('e, 'v, 'f, 's) x509_api \<Rightarrow> 'o general_name \<Rightarrow> string outcome" where
  "gn_debug X g =
     (case gn_email X g of Panic p \<Rightarrow> Panic p | Ret (Some email) \<Rightarrow> Ret email | Ret None \<Rightarrow>
     (case gn_dnsname X g of Panic p \<Rightarrow> Panic p | Ret (Some dnsname) \<Rightarrow> Ret dnsname | Ret None \<Rightarrow>
     (case gn_uri X g of Panic p \<Rightarrow> Panic p | Ret (Some uri) \<Rightarrow> Ret uri | Ret None \<Rightarrow>
     (case gn_ipaddress g of Panic p \<Rightarrow> Panic p | Ret (Some ip) \<Rightarrow> Ret (x_utf8_lossy X ip) | Ret None \<Rightarrow>
        Ret ''(empty)''))))"

section \<open>Extensions\<close>

text \<open>\<open>X509Extension::new\<close>, \<open>new_nid\<close> and \<open>new_internal\<close>.\<close>

definition extension_new ::
    "('e, 'v, 'f, 's) x509_api \<Rightarrow> 'f option \<Rightarrow> 'v option \<Rightarrow> string \<Rightarrow> string \<Rightarrow> ('u, 'e) eff" where
  "extension_new X conf context name value =
     ebind (ecstring (x_err_lib_none X) name) (\<lambda>name.
       ebind (ecstring (x_err_lib_none X) value) (\<lambda>value.
         ecvt_p (X509V3_EXT_nconf X conf (case context of Some c \<Rightarrow> c | None \<Rightarrow> empty_context X) name value)))"

definition extension_new_nid ::
    "('e, 'v, 'f, 's) x509_api \<Rightarrow> 'f option \<Rightarrow> 'v option \<Rightarrow> int \<Rightarrow> string \<Rightarrow> ('u, 'e) eff" where
  "extension_new_nid X conf context name value =
     ebind (ecstring (x_err_lib_none X) value) (\<lambda>value.
       ecvt_p (X509V3_EXT_nconf_nid X conf (case context of Some c \<Rightarrow> c | None \<Rightarrow> empty_context X) name value))"

definition extension_new_internal :: "('e, 'v, 'f, 's) x509_api \<Rightarrow> int \<Rightarrow> bool \<Rightarrow> 's \<Rightarrow> ('u, 'e) eff" where
  "extension_new_internal X nid critical value = ecvt_p (X509V3_EXT_i2d X nid critical value)"

text \<open>The numbers of the extensions.\<close>

record ext_nids =
  NID_basic_constraints :: int
  NID_key_usage :: int
  NID_ext_key_usage :: int
  NID_subject_key_identifier :: int
  NID_authority_key_identifier :: int
  NID_subject_alt_name :: int

definition bc_build :: "('e, 'v, 'f, 's) x509_api \<Rightarrow> ext_nids \<Rightarrow> basic_constraints \<Rightarrow> ('u, 'e) eff" where
  "bc_build X N b = extension_new_nid X None None (NID_basic_constraints N) (bc_value b)"

definition ku_build :: "('e, 'v, 'f, 's) x509_api \<Rightarrow> ext_nids \<Rightarrow> key_usage \<Rightarrow> ('u, 'e) eff" where
  "ku_build X N k = extension_new_nid X None None (NID_key_usage N) (ku_value k)"

definition sk_ident_build :: "('e, 'v, 'f, 's) x509_api \<Rightarrow> ext_nids \<Rightarrow> bool \<Rightarrow> 'v \<Rightarrow> ('u, 'e) eff" where
  "sk_ident_build X N critical ctx =
     extension_new_nid X None (Some ctx) (NID_subject_key_identifier N) (sk_ident_value critical)"

definition ak_build :: "('e, 'v, 'f, 's) x509_api \<Rightarrow> ext_nids \<Rightarrow> authority_key_identifier \<Rightarrow> 'v \<Rightarrow> ('u, 'e) eff" where
  "ak_build X N a ctx = extension_new_nid X None (Some ctx) (NID_authority_key_identifier N) (ak_value a)"

text \<open>
  The loop that makes an object for each item and pushes it, with the objects freed so far; the result is
  that of the function, and the stack and what was freed at its early or normal end.
\<close>

fun push_all ::
    "('s, 'g) sk_api \<Rightarrow> ('i \<Rightarrow> (unit, 'g) eff) \<Rightarrow> 'i list \<Rightarrow> 's \<times> 'g list \<times> err_queue
     \<Rightarrow> unit eresult \<times> 's \<times> 'g list \<times> err_queue" where
  "push_all K mk [] (s, freed, q) = (Ok (), s, freed, q)"
| "push_all K mk (item # items) (s, freed, q) =
     (case mk item () q of
        (Ok g, _, q1) \<Rightarrow>
          (case stack_push K g (s, freed, q1) of
             (Inr _, st) \<Rightarrow> push_all K mk items st
           | (Inl es, st) \<Rightarrow> (Err es, st))
      | (Err es, _, q1) \<Rightarrow> (Err es, s, freed, q1)
      | (Panicked p, _, q1) \<Rightarrow> (Panicked p, s, freed, q1))"

text \<open>The whole of \<open>build\<close>: at its end the stack is dropped; the second result is what was freed in all.\<close>

definition build_from ::
    "('e, 'v, 'f, 's) x509_api \<Rightarrow> ('s, 'g) sk_api \<Rightarrow> ('i \<Rightarrow> (unit, 'g) eff) \<Rightarrow> int \<Rightarrow> bool \<Rightarrow> 'i list \<Rightarrow> err_queue
     \<Rightarrow> 'e eresult \<times> 'g list option \<times> err_queue" where
  "build_from X K mk nid critical items q =
     (case stack_new K q of
        (Inl es, q1) \<Rightarrow> (Err es, Some [], q1)
      | (Inr s, q1) \<Rightarrow>
          (case push_all K mk items (s, [], q1) of
             (Ok _, s', freed, q2) \<Rightarrow>
               (case extension_new_internal X nid critical s' () q2 of (r, _, q3) \<Rightarrow> (r, stack_drop K s' freed, q3))
           | (Err es, s', freed, q2) \<Rightarrow> (Err es, stack_drop K s' freed, q2)
           | (Panicked p, s', freed, q2) \<Rightarrow> (Panicked p, stack_drop K s' freed, q2)))"

record extended_key_usage =
  eku_critical :: bool
  eku_items :: "string list"

definition eku_new :: extended_key_usage where
  "eku_new = \<lparr>eku_critical = False, eku_items = []\<rparr>"

definition eku_other :: "string \<Rightarrow> extended_key_usage \<Rightarrow> extended_key_usage" where
  "eku_other other u = u\<lparr>eku_items := eku_items u @ [other]\<rparr>"

definition eku_set_critical :: "extended_key_usage \<Rightarrow> extended_key_usage" where
  "eku_set_critical u = u\<lparr>eku_critical := True\<rparr>"

definition eku_server_auth :: "extended_key_usage \<Rightarrow> extended_key_usage" where
  "eku_server_auth = eku_other ''serverAuth''"

definition eku_client_auth :: "extended_key_usage \<Rightarrow> extended_key_usage" where
  "eku_client_auth = eku_other ''clientAuth''"

definition eku_code_signing :: "extended_key_usage \<Rightarrow> extended_key_usage" where
  "eku_code_signing = eku_other ''codeSigning''"

definition eku_time_stamping :: "extended_key_usage \<Rightarrow> extended_key_usage" where
  "eku_time_stamping = eku_other ''timeStamping''"

definition eku_ms_code_ind :: "extended_key_usage \<Rightarrow> extended_key_usage" where
  "eku_ms_code_ind = eku_other ''msCodeInd''"

definition eku_ms_code_com :: "extended_key_usage \<Rightarrow> extended_key_usage" where
  "eku_ms_code_com = eku_other ''msCodeCom''"

definition eku_ms_ctl_sign :: "extended_key_usage \<Rightarrow> extended_key_usage" where
  "eku_ms_ctl_sign = eku_other ''msCTLSign''"

definition eku_ms_sgc :: "extended_key_usage \<Rightarrow> extended_key_usage" where
  "eku_ms_sgc = eku_other ''msSGC''"

definition eku_ms_efs :: "extended_key_usage \<Rightarrow> extended_key_usage" where
  "eku_ms_efs = eku_other ''msEFS''"

definition eku_ns_sgc :: "extended_key_usage \<Rightarrow> extended_key_usage" where
  "eku_ns_sgc = eku_other ''nsSGC''"

definition eku_build ::
    "('e, 'v, 'f, 's) x509_api \<Rightarrow> ext_nids \<Rightarrow> ('x, 'n, 'o) asn1_api \<Rightarrow> ('s, 'o) sk_api \<Rightarrow> extended_key_usage \<Rightarrow> err_queue
     \<Rightarrow> 'e eresult \<times> 'o list option \<times> err_queue" where
  "eku_build X N G K u q = build_from X K (object_from_str G) (NID_ext_key_usage N) (eku_critical u) (eku_items u) q"

datatype rust_general_name = Dns string | Email string | Uri string | Ip string | Rid string

record subject_alternative_name =
  san_critical :: bool
  san_items :: "rust_general_name list"

definition san_new :: subject_alternative_name where
  "san_new = \<lparr>san_critical = False, san_items = []\<rparr>"

definition san_set_critical :: "subject_alternative_name \<Rightarrow> subject_alternative_name" where
  "san_set_critical n = n\<lparr>san_critical := True\<rparr>"

definition san_email :: "string \<Rightarrow> subject_alternative_name \<Rightarrow> subject_alternative_name" where
  "san_email s n = n\<lparr>san_items := san_items n @ [Email s]\<rparr>"

definition san_uri :: "string \<Rightarrow> subject_alternative_name \<Rightarrow> subject_alternative_name" where
  "san_uri s n = n\<lparr>san_items := san_items n @ [Uri s]\<rparr>"

definition san_dns :: "string \<Rightarrow> subject_alternative_name \<Rightarrow> subject_alternative_name" where
  "san_dns s n = n\<lparr>san_items := san_items n @ [Dns s]\<rparr>"

definition san_rid :: "string \<Rightarrow> subject_alternative_name \<Rightarrow> subject_alternative_name" where
  "san_rid s n = n\<lparr>san_items := san_items n @ [Rid s]\<rparr>"

definition san_ip :: "string \<Rightarrow> subject_alternative_name \<Rightarrow> subject_alternative_name" where
  "san_ip s n = n\<lparr>san_items := san_items n @ [Ip s]\<rparr>"

text \<open>
  A string is the list of its UTF-8 bytes, read as characters. \<open>parse\<close> is \<open>str::parse::<IpAddr>\<close>; an address that
  does not parse gives \<open>ErrorStack::get()\<close>.
\<close>

definition san_name ::
    "('e, 'v, 'f, 's) x509_api \<Rightarrow> ('x, 'n, 'o) asn1_api \<Rightarrow> (string \<Rightarrow> ip_addr option) \<Rightarrow> rust_general_name
     \<Rightarrow> ('u, 'o general_name) eff" where
  "san_name X G parse item =
     (case item of
        Dns s \<Rightarrow> new_dns X (map of_char s)
      | Email s \<Rightarrow> new_email X (map of_char s)
      | Uri s \<Rightarrow> new_uri X (map of_char s)
      | Ip s \<Rightarrow>
          (case parse s of
             Some ip \<Rightarrow> new_ip X ip
           | None \<Rightarrow> (\<lambda>u q. case error_stack_get q of (es, q') \<Rightarrow> (Err es, u, q')))
      | Rid s \<Rightarrow> ebind (object_from_str G s) (new_rid X))"

definition san_build ::
    "('e, 'v, 'f, 's) x509_api \<Rightarrow> ext_nids \<Rightarrow> ('x, 'n, 'o) asn1_api \<Rightarrow> (string \<Rightarrow> ip_addr option)
     \<Rightarrow> ('s, 'o general_name) sk_api \<Rightarrow> subject_alternative_name \<Rightarrow> err_queue
     \<Rightarrow> 'e eresult \<times> 'o general_name list option \<times> err_queue" where
  "san_build X N G parse K n q =
     build_from X K (san_name X G parse) (NID_subject_alt_name N) (san_critical n) (san_items n) q"

section \<open>Names are well typed\<close>

definition gn_typed :: "'o general_name \<Rightarrow> bool" where
  "gn_typed g \<longleftrightarrow>
     (case gn_type g of
        GEN_RID \<Rightarrow> (\<exists>x. gn_d g = Gn_Object x)
      | GEN_IPADD \<Rightarrow> (\<exists>bs. gn_d g = Gn_String OCTET_STRING bs)
      | Gen_Other _ \<Rightarrow> False
      | _ \<Rightarrow> (\<exists>bs. gn_d g = Gn_String IA5STRING bs))"

text \<open>The call of \<open>ASN1_STRING_set\<close> that \<open>gn_make\<close> makes, after the two allocations.\<close>

definition gn_copy ::
    "('e, 'v, 'f, 's) x509_api \<Rightarrow> asn1_string_type \<Rightarrow> byte list \<Rightarrow> err_queue \<Rightarrow> (int \<times> byte list) \<times> err_queue" where
  "gn_copy X st value q =
     ASN1_STRING_set X value (snd (ASN1_STRING_type_new X st (snd (GENERAL_NAME_new X q))))"

lemma gn_make_typed:
  assumes "gn_make X ty st value u q = (Ok g, u', q')"
  shows "\<exists>rc content. gn_copy X st value q = ((rc, content), q') \<and> g = \<lparr>gn_type = ty, gn_d = Gn_String st content\<rparr>"
proof -
  obtain rc content q1 where "gn_copy X st value q = ((rc, content), q1)" by (metis prod.collapse)
  with assms show ?thesis
    by (auto simp: gn_make_def gn_copy_def eff_ok ecvt_p_def cvt_p_def fail_stack_def eassert_def split_beta
        split: option.splits if_splits)
qed

text \<open>The result of copying the value is ignored: when it fails, the name is made with what the string holds.\<close>

lemma gn_make_ignores_failed_copy:
  assumes "gn_make X ty st value u q = (Ok g, u', q')" "gn_copy X st value q = ((0, []), q'')"
  shows "gn_d g = Gn_String st []"
  using gn_make_typed[OF assms(1)] assms(2) by auto

text \<open>An address that does not parse is reported by whatever errors the queue holds, so usually by none.\<close>

lemma bad_address_has_no_reason:
  "parse s = None \<Longrightarrow> san_name X G parse (Ip s) u [] = (Err [], u, [])"
  by (simp add: san_name_def error_stack_get.simps[of "[]"])

text \<open>What is read from a name made for an item.\<close>

definition gn_reads :: "('e, 'v, 'f, 's) x509_api \<Rightarrow> 'o general_name \<Rightarrow> string option list \<times> byte list option \<Rightarrow> bool" where
  "gn_reads X g r \<longleftrightarrow>
     map Ret (fst r) = [gn_email X g, gn_dnsname X g, gn_uri X g] \<and> Ret (snd r) = gn_ipaddress g"

lemma gn_reads_string:
  "gn_reads X \<lparr>gn_type = GEN_EMAIL, gn_d = Gn_String st bs\<rparr> ([x_utf8 X bs, None, None], None)"
  "gn_reads X \<lparr>gn_type = GEN_DNS, gn_d = Gn_String st bs\<rparr> ([None, x_utf8 X bs, None], None)"
  "gn_reads X \<lparr>gn_type = GEN_URI, gn_d = Gn_String st bs\<rparr> ([None, None, x_utf8 X bs], None)"
  "gn_reads X \<lparr>gn_type = GEN_IPADD, gn_d = Gn_String st bs\<rparr> ([None, None, None], Some bs)"
  "gn_reads X \<lparr>gn_type = GEN_RID, gn_d = Gn_Object x\<rparr> ([None, None, None], None)"
  by (simp_all add: gn_reads_def gn_email_def gn_dnsname_def gn_uri_def gn_ipaddress_def ia5_string_def union_string_def)

text \<open>The kind of an item, the bytes it stands for, and what the accessors return if its string holds \<open>content\<close>.\<close>

definition item_kind :: "rust_general_name \<Rightarrow> gen_type" where
  "item_kind item =
     (case item of Email _ \<Rightarrow> GEN_EMAIL | Dns _ \<Rightarrow> GEN_DNS | Uri _ \<Rightarrow> GEN_URI | Ip _ \<Rightarrow> GEN_IPADD | Rid _ \<Rightarrow> GEN_RID)"

definition item_bytes :: "(string \<Rightarrow> ip_addr option) \<Rightarrow> rust_general_name \<Rightarrow> (asn1_string_type \<times> byte list) option" where
  "item_bytes parse item =
     (case item of
        Email s \<Rightarrow> Some (IA5STRING, map of_char s)
      | Dns s \<Rightarrow> Some (IA5STRING, map of_char s)
      | Uri s \<Rightarrow> Some (IA5STRING, map of_char s)
      | Ip s \<Rightarrow> map_option (\<lambda>ip. (OCTET_STRING, octets ip)) (parse s)
      | Rid _ \<Rightarrow> None)"

definition item_reads ::
    "('e, 'v, 'f, 's) x509_api \<Rightarrow> rust_general_name \<Rightarrow> byte list \<Rightarrow> string option list \<times> byte list option" where
  "item_reads X item content =
     (case item of
        Email _ \<Rightarrow> ([x_utf8 X content, None, None], None)
      | Dns _ \<Rightarrow> ([None, x_utf8 X content, None], None)
      | Uri _ \<Rightarrow> ([None, None, x_utf8 X content], None)
      | Ip _ \<Rightarrow> ([None, None, None], Some content)
      | Rid _ \<Rightarrow> ([None, None, None], None))"

text \<open>
  C15: A general name made for an item of a subject alternative name has the item's kind and selects the member
  of its union that was set, so no accessor ever reads another. Exactly the accessor of the kind returns
  something: what the name's string holds after the one call of \<open>ASN1_STRING_set\<close> that was made, which is
  the item's value if that call returned 1. A call that fails goes unnoticed: the name is made all the same.
\<close>

theorem general_names_well_typed:
  assumes "\<forall>bs q. fst (fst (ASN1_STRING_set X bs q)) = 1 \<longrightarrow> snd (fst (ASN1_STRING_set X bs q)) = bs"
    and "san_name X G parse item u q = (Ok g, u', q')"
  shows "gn_typed g \<and> gn_type g = item_kind item \<and>
    (case item_bytes parse item of
       None \<Rightarrow> \<exists>s x. item = Rid s \<and> gn_d g = Gn_Object x \<and> gn_reads X g (item_reads X item [])
     | Some (st, value) \<Rightarrow>
         \<exists>rc content. gn_copy X st value q = ((rc, content), q') \<and> gn_d g = Gn_String st content \<and>
           gn_reads X g (item_reads X item content) \<and> (rc = 1 \<longrightarrow> content = value))"
proof -
  have copied: "\<exists>rc content. gn_copy X st v q = ((rc, content), q') \<and> (rc = 1 \<longrightarrow> content = v) \<and>
      g = \<lparr>gn_type = ty, gn_d = Gn_String st content\<rparr>"
    if "gn_make X ty st v u q = (Ok g, u', q')" for ty st v
    using gn_make_typed[OF that] assms(1) unfolding gn_copy_def by (metis fst_conv snd_conv)
  show ?thesis
  proof (cases item)
    case (Rid s)
    then obtain x where "g = \<lparr>gn_type = GEN_RID, gn_d = Gn_Object x\<rparr>"
      using assms(2) by (auto simp: san_name_def new_rid_def eff_ok)
    with Rid show ?thesis by (simp add: gn_typed_def gn_reads_string item_kind_def item_bytes_def item_reads_def)
  next
    case (Ip s)
    with assms(2) obtain ip where p: "parse s = Some ip" "new_ip X ip u q = (Ok g, u', q')"
      by (auto simp: san_name_def split: option.splits prod.splits)
    then have "gn_make X GEN_IPADD OCTET_STRING (octets ip) u q = (Ok g, u', q')"
      by (cases ip) (auto simp: new_ip_def octets_def)
    from copied[OF this] Ip p(1) show ?thesis
      by (auto simp: gn_typed_def gn_reads_string item_kind_def item_bytes_def item_reads_def)
  qed (use assms(2) in \<open>auto simp: san_name_def new_dns_def new_email_def new_uri_def gn_typed_def gn_reads_string
      item_kind_def item_bytes_def item_reads_def dest!: copied\<close>)
qed

text \<open>The union type-checks against a library that copies, for one item of each kind.\<close>

definition plain_x509 :: "(nat \<times> bool \<times> nat list, unit, unit, nat list) x509_api" where
  "plain_x509 =
     \<lparr>x_err_lib_none = 1, empty_context = (), X509V3_EXT_nconf = (\<lambda>f v n s q. (None, q)),
      X509V3_EXT_nconf_nid = (\<lambda>f v n s q. (None, q)), X509V3_EXT_i2d = (\<lambda>n c s q. (Some (nat n, c, s), q)),
      GENERAL_NAME_new = (\<lambda>q. (Some (), q)), ASN1_STRING_type_new = (\<lambda>t q. (Some (), q)),
      ASN1_STRING_set = (\<lambda>bs q. ((1, bs), q)), string_set_len_max = 1000, x_utf8 = (\<lambda>bs. Some (map (char_of o unat) bs)),
      x_utf8_lossy = (\<lambda>bs. [])\<rparr>"

definition plain_asn1 :: "(unit, unit, nat) asn1_api" where
  "plain_asn1 =
     \<lparr>asn1_err_lib_none = 1, utf8 = (\<lambda>bs. None), ASN1_STRING_to_UTF8 = (\<lambda>x q. ((-1, []), q)),
      ASN1_STRING_get0_data = (\<lambda>x. None), ASN1_STRING_length = (\<lambda>x. 0), ASN1_INTEGER_cmp = (\<lambda>a b. 0),
      ASN1_INTEGER_set = (\<lambda>v n q. ((0, ()), n, q)), OBJ_txt2obj = (\<lambda>s q. (if s = [] then None else Some (length s), q)),
      OBJ_obj2txt = (\<lambda>n x. (-1, []))\<rparr>"

theorem general_names_well_typed_witness:
  "\<exists>g u' q'. san_name plain_x509 plain_asn1 (\<lambda>s. None) (Dns ''a.b'') () [] = (Ok (g :: nat general_name), u', q') \<and>
     gn_typed g \<and> gn_reads plain_x509 g ([None, Some ''a.b'', None], None)"
proof -
  have copies: "\<forall>bs q. fst (fst (ASN1_STRING_set plain_x509 bs q)) = 1 \<longrightarrow>
      snd (fst (ASN1_STRING_set plain_x509 bs q)) = bs" by (simp add: plain_x509_def)
  have run: "san_name plain_x509 plain_asn1 (\<lambda>s. None) (Dns ''a.b'') () [] =
      (Ok (\<lparr>gn_type = GEN_DNS, gn_d = Gn_String IA5STRING (map of_char ''a.b'')\<rparr> :: nat general_name), (), [])"
    by (simp add: san_name_def new_dns_def gn_make_def ethen_def ebind_def ecvt_p_def cvt_p_def eassert_def plain_x509_def)
  have decoded: "x_utf8 plain_x509 (map of_char ''a.b'') = Some ''a.b''"
    by (simp add: plain_x509_def) code_simp
  have call: "gn_copy plain_x509 IA5STRING (map of_char ''a.b'') [] = ((1, map of_char ''a.b''), [])"
    by (simp add: gn_copy_def plain_x509_def)
  from general_names_well_typed[OF copies run] call decoded show ?thesis
    unfolding run by (auto simp: item_bytes_def item_reads_def)
qed

section \<open>Names and objects are handed over and freed\<close>

text \<open>
  Every object that is made on the way, in order: one for each item until making one fails or the library
  fails to push one, which was made all the same; and whether the end of the items was reached.
\<close>

fun objects_made :: "('s, 'g) sk_api \<Rightarrow> ('i \<Rightarrow> (unit, 'g) eff) \<Rightarrow> 'i list \<Rightarrow> 's \<Rightarrow> err_queue \<Rightarrow> 'g list \<times> bool" where
  "objects_made K mk [] s q = ([], True)"
| "objects_made K mk (item # items) s q =
     (case mk item () q of
        (Ok g, _, q1) \<Rightarrow>
          (case sk_push K s g of (n, s1) \<Rightarrow>
             if n = 0 then ([g], False)
             else (case objects_made K mk items s1 q1 of (gs, reached) \<Rightarrow> (g # gs, reached)))
      | _ \<Rightarrow> ([], False))"

lemma push_all_made:
  assumes "sk_ok K elems" "push_all K mk items (s, freed, q) = (r, s', freed', q')"
  shows "mset (elems s') + mset freed' = mset (elems s) + mset freed + mset (fst (objects_made K mk items s q)) \<and>
    (r = Ok () \<longleftrightarrow> snd (objects_made K mk items s q)) \<and>
    (r = Ok () \<longrightarrow> length (fst (objects_made K mk items s q)) = length items \<and>
       elems s' = elems s @ fst (objects_made K mk items s q) \<and> freed' = freed)"
  using assms(2)
proof (induction items arbitrary: s freed q)
  case Nil
  then show ?case by auto
next
  case (Cons item items)
  obtain r1 q1 where mk: "mk item () q = (r1, (), q1)" by (metis prod.collapse old.unit.exhaust)
  show ?case
  proof (cases r1)
    case (Ok g)
    obtain n s1 where push: "sk_push K s g = (n, s1)" by (cases "sk_push K s g")
    note p = sk_okD(3)[OF assms(1) push]
    show ?thesis
    proof (cases "n = 0")
      case True
      then have "elems s1 = elems s" using p by auto
      moreover from True Cons.prems mk Ok push have "r \<noteq> Ok ()" "s' = s1" "freed' = freed @ [g]"
        by (auto simp: stack_push_def cvt_0_def fail_stack_def split: prod.splits)
      ultimately show ?thesis using True mk Ok push by simp
    next
      case False
      then have e: "elems s1 = elems s @ [g]" using p by auto
      from False Cons.prems mk Ok push have "push_all K mk items (s1, freed, q1) = (r, s', freed', q')"
        by (simp add: stack_push_def cvt_0_def)
      from Cons.IH[OF this] e False mk Ok push show ?thesis by (auto split: prod.splits)
    qed
  qed (use Cons.prems mk in auto)
qed

text \<open>How building from items ends: with what, and with which objects freed.\<close>

definition builds ::
    "('e, 'v, 'f, 's) x509_api \<Rightarrow> ('s, 'g) sk_api \<Rightarrow> ('s \<Rightarrow> 'g list) \<Rightarrow> ('i \<Rightarrow> (unit, 'g) eff) \<Rightarrow> int \<Rightarrow> bool
     \<Rightarrow> 'i list \<Rightarrow> err_queue \<Rightarrow> 'e eresult \<times> 'g list option \<times> err_queue \<Rightarrow> bool" where
  "builds X K elems mk nid critical items q out \<longleftrightarrow>
     (case out of (r, freed, q') \<Rightarrow>
        (case sk_new_null K of
           None \<Rightarrow> (\<exists>es. r = Err es) \<and> freed = Some []
         | Some s \<Rightarrow>
             (case objects_made K mk items s q of (gs, reached) \<Rightarrow>
                (\<exists>fs. freed = Some fs \<and> mset fs = mset gs) \<and>
                (if reached
                 then length gs = length items \<and>
                   (\<exists>s' q1. elems s' = gs \<and>
                      (case X509V3_EXT_i2d X nid critical s' q1 of
                         (Some e, q2) \<Rightarrow> r = Ok e \<and> q' = q2
                       | (None, _) \<Rightarrow> \<exists>es. r = Err es))
                 else \<forall>e. r \<noteq> Ok e))))"

lemma build_from_made:
  assumes "sk_ok K elems"
  shows "builds X K elems mk nid critical items q (build_from X K mk nid critical items q)"
proof (cases "sk_new_null K")
  case None
  then show ?thesis
    by (auto simp: builds_def build_from_def stack_new_def cvt_p_def fail_stack_def split: prod.splits)
next
  case (Some s)
  then have e: "elems s = []" using assms by (simp add: sk_ok_def)
  obtain r1 s1 freed1 q1 where p: "push_all K mk items (s, [], q) = (r1, s1, freed1, q1)" by (metis prod.collapse)
  obtain gs reached where o: "objects_made K mk items s q = (gs, reached)" by (cases "objects_made K mk items s q")
  from push_all_made[OF assms p] e o have gs: "mset (elems s1) + mset freed1 = mset gs" "r1 = Ok () \<longleftrightarrow> reached"
    "r1 = Ok () \<longrightarrow> length gs = length items \<and> elems s1 = gs" by auto
  have freed: "stack_drop K s1 freed1 = Some (freed1 @ rev (elems s1))" by (rule stack_drop_frees_all[OF assms])
  have all: "mset (freed1 @ rev (elems s1)) = mset gs" using gs(1) by (simp add: add.commute)
  obtain r freed q' where out: "build_from X K mk nid critical items q = (r, freed, q')"
    by (cases "build_from X K mk nid critical items q")
  have f: "freed = Some (freed1 @ rev (elems s1))"
    using out p freed
    by (auto simp: build_from_def stack_new_def Some cvt_p_def split: prod.splits eresult.splits)
  show ?thesis
  proof (cases reached)
    case True
    then have ok: "r1 = Ok ()" using gs(2) by simp
    then have "case X509V3_EXT_i2d X nid critical s1 q1 of
        (Some e, q2) \<Rightarrow> r = Ok e \<and> q' = q2 | (None, _) \<Rightarrow> \<exists>es. r = Err es"
      using out p by (auto simp: build_from_def stack_new_def Some cvt_p_def fail_stack_def
          extension_new_internal_def ecvt_p_def split: prod.splits option.splits)
    with True gs(3) ok f all o show ?thesis by (auto simp: builds_def out Some intro!: exI[of _ s1] exI[of _ q1])
  next
    case False
    then have "r1 \<noteq> Ok ()" using gs(2) by simp
    then have "r \<noteq> Ok ext" for ext
      using out p by (cases r1) (auto simp: build_from_def stack_new_def Some cvt_p_def)
    with False f all o show ?thesis by (simp add: builds_def out Some)
  qed
qed

text \<open>
  C30: Building a subject alternative name or an extended key usage frees every name or object it made exactly
  once, however it ends: also the one that the library failed to push, and the ones on the stack when a later
  item, BoringSSL or a panic stops it. Once one was made and pushed for each item, BoringSSL is asked to encode
  exactly those, in order, and its answer is the result; otherwise building fails.
\<close>

theorem builders_hand_over_and_free:
  assumes "sk_ok K elems" "sk_ok L elems'"
  shows "builds X K elems (san_name X G parse) (NID_subject_alt_name N) (san_critical n) (san_items n) q
      (san_build X N G parse K n q) \<and>
    builds Y L elems' (object_from_str G) (NID_ext_key_usage N) (eku_critical u) (eku_items u) q
      (eku_build Y N G L u q)"
  unfolding san_build_def eku_build_def using assms by (intro conjI build_from_made)

definition sample_nids :: ext_nids where
  "sample_nids = \<lparr>NID_basic_constraints = 1, NID_key_usage = 2, NID_ext_key_usage = 3, NID_subject_key_identifier = 4,
     NID_authority_key_identifier = 5, NID_subject_alt_name = 6\<rparr>"

text \<open>A stack with room for one element: the second push fails, and both objects are freed.\<close>

definition small_stack :: "(nat list, nat) sk_api" where
  "small_stack = list_stack\<lparr>sk_push := (\<lambda>s e. if length s < 1 then (length s + 1, s @ [e]) else (0, s))\<rparr>"

lemma small_stack_ok: "sk_ok small_stack id"
  using list_stack_ok by (auto simp: sk_ok_def small_stack_def list_stack_def)

theorem builders_hand_over_and_free_witness:
  "\<exists>es fs q'. eku_build plain_x509 sample_nids plain_asn1 small_stack (eku_other ''two'' (eku_other ''o'' eku_new)) [] =
     (Err es, Some fs, q') \<and> mset fs = {#1, 3#}"
proof -
  let ?u = "eku_other ''two'' (eku_other ''o'' eku_new)"
  obtain r freed q' where out: "eku_build plain_x509 sample_nids plain_asn1 small_stack ?u [] = (r, freed, q')"
    by (cases "eku_build plain_x509 sample_nids plain_asn1 small_stack ?u []")
  note new = small_stack_def list_stack_def object_from_str_def ebind_def ecvt_p_def cvt_p_def ecstring_def plain_asn1_def
    eku_other_def eku_new_def
  have gs: "sk_new_null small_stack = Some []" "eku_items ?u = [''o'', ''two'']"
    "objects_made small_stack (object_from_str plain_asn1) [''o'', ''two''] [] [] = ([1, 3], False)"
    by (simp_all add: new numeral_3_eq_3)
  obtain fs where fs: "freed = Some fs" "mset fs = {#1, 3#}" "\<forall>e. r \<noteq> Ok e"
    using builders_hand_over_and_free[OF list_stack_ok small_stack_ok, where Y = plain_x509 and N = sample_nids and
      G = plain_asn1 and u = ?u and q = "[]", THEN conjunct2]
    by (auto simp: out gs builds_def simp del: objects_made.simps)
  moreover have "r \<noteq> Panicked m" for m
    using out by (auto simp: eku_build_def build_from_def stack_new_def gs new stack_push_def cvt_0_def fail_stack_def
        split: prod.splits)
  ultimately show ?thesis using out by (cases r) auto
qed

end
