(* ===== verification/X509.thy ===== *)
theory X509
  imports Pem Asn1
begin

text \<open>
  Parts of \<open>btls/src/x509/mod.rs\<close>: reading certificates from PEM, the entries of a name, its builder and comparison,
  and the results of verification.
\<close>

section \<open>Certificates from PEM\<close>

text \<open>\<open>PEM_read_bio_X509\<close> reads the next certificate and moves on; \<open>'b\<close> is \<open>BIO\<close>, \<open>'x\<close> \<open>X509\<close>.\<close>

record ('b, 'x) x509_pem_api =
  xp_mem_bio :: "string \<Rightarrow> err_queue \<Rightarrow> (error_stack + 'b) \<times> err_queue"
  PEM_read_bio_X509 :: "'b \<Rightarrow> err_queue \<Rightarrow> 'x option \<times> 'b \<times> err_queue"
  ERR_LIB_PEM :: "32 word"
  PEM_R_NO_START_LINE :: "32 word"

text \<open>\<open>ERR_peek_last_error\<close> and \<open>ErrorStack::clear\<close>.\<close>

definition ERR_peek_last_error :: "err_queue \<Rightarrow> 32 word" where
  "ERR_peek_last_error q = (if q = [] then 0 else q_code (last q))"

definition error_stack_clear :: "err_queue \<Rightarrow> err_queue" where
  "error_stack_clear q = []"

text \<open>The loop of \<open>stack_from_pem\<close>; \<open>None\<close> is no end.\<close>

partial_function (option) read_certs ::
    "('b, 'x) x509_pem_api \<Rightarrow> 'b \<Rightarrow> 'x list \<Rightarrow> err_queue \<Rightarrow> ((error_stack + 'x list) \<times> err_queue) option" where
  "read_certs P bio certs q =
     (case PEM_read_bio_X509 P bio q of
        (None, bio', q1) \<Rightarrow>
          Some (let err = ERR_peek_last_error q1 in
            if ERR_GET_LIB err = ERR_LIB_PEM P \<and> ERR_GET_REASON err = PEM_R_NO_START_LINE P
            then (Inr certs, error_stack_clear q1)
            else fail_stack q1)
      | (Some r, bio', q1) \<Rightarrow> read_certs P bio' (certs @ [r]) q1)"

definition stack_from_pem ::
    "('b, 'x) x509_pem_api \<Rightarrow> string \<Rightarrow> err_queue \<Rightarrow> ((error_stack + 'x list) \<times> err_queue) option" where
  "stack_from_pem P pem q =
     (case xp_mem_bio P pem q of
        (Inl es, q1) \<Rightarrow> Some (Inl es, q1)
      | (Inr bio, q1) \<Rightarrow> read_certs P bio [] q1)"

section \<open>Names\<close>

text \<open>\<open>'n\<close> is \<open>X509_NAME\<close>, \<open>'e\<close> \<open>X509_NAME_ENTRY\<close>; a field is named by its text or number, a type by its number.\<close>

record ('n, 'e) name_api =
  n_err_lib_none :: "32 word"
  MBSTRING_UTF8 :: int
  X509_NAME_get_index_by_NID :: "'n \<Rightarrow> int \<Rightarrow> int \<Rightarrow> int"
  X509_NAME_entry_count :: "'n \<Rightarrow> int"
  X509_NAME_get_entry :: "'n \<Rightarrow> int \<Rightarrow> 'e option"
  X509_NAME_add_entry_by_txt :: "string \<Rightarrow> int \<Rightarrow> string \<Rightarrow> nat \<Rightarrow> 'n \<Rightarrow> err_queue \<Rightarrow> (int \<times> unit) \<times> 'n \<times> err_queue"
  X509_NAME_add_entry_by_NID :: "int \<Rightarrow> int \<Rightarrow> string \<Rightarrow> nat \<Rightarrow> 'n \<Rightarrow> err_queue \<Rightarrow> (int \<times> unit) \<times> 'n \<times> err_queue"
  n_len_max :: nat
  name_to_der :: "'n \<Rightarrow> err_queue \<Rightarrow> (error_stack + string) \<times> err_queue"
  name_from_der :: "string \<Rightarrow> err_queue \<Rightarrow> (error_stack + 'n) \<times> err_queue"
  X509_NAME_cmp :: "'n \<Rightarrow> 'n \<Rightarrow> err_queue \<Rightarrow> int \<times> err_queue"

text \<open>\<open>X509NameEntries\<close>, \<open>entries_by_nid\<close>, \<open>entries\<close> and \<open>next\<close>.\<close>

record name_entries =
  ne_nid :: "int option"
  ne_loc :: int

definition entries_by_nid :: "int \<Rightarrow> name_entries" where
  "entries_by_nid nid = \<lparr>ne_nid = Some nid, ne_loc = -1\<rparr>"

definition entries :: name_entries where
  "entries = \<lparr>ne_nid = None, ne_loc = -1\<rparr>"

definition entry_at :: "('n, 'e) name_api \<Rightarrow> 'n \<Rightarrow> name_entries \<Rightarrow> 'e option outcome \<times> name_entries" where
  "entry_at A n it =
     (case X509_NAME_get_entry A n (ne_loc it) of
        None \<Rightarrow> (Panic ''assertion failed: !entry.is_null()'', it)
      | Some e \<Rightarrow> (Ret (Some e), it))"

definition entries_next :: "('n, 'e) name_api \<Rightarrow> 'n \<Rightarrow> name_entries \<Rightarrow> 'e option outcome \<times> name_entries" where
  "entries_next A n it =
     (case ne_nid it of
        Some nid \<Rightarrow>
          (let it' = it\<lparr>ne_loc := X509_NAME_get_index_by_NID A n nid (ne_loc it)\<rparr>
           in if ne_loc it' = -1 then (Ret None, it') else entry_at A n it')
      | None \<Rightarrow>
          (let it' = it\<lparr>ne_loc := ne_loc it + 1\<rparr>
           in if ne_loc it' \<ge> X509_NAME_entry_count A n then (Ret None, it') else entry_at A n it'))"

text \<open>A \<open>for\<close> loop over an iterator that collects what it yields.\<close>

partial_function (option) collect_entries ::
    "('n, 'e) name_api \<Rightarrow> 'n \<Rightarrow> 'e list \<Rightarrow> name_entries \<Rightarrow> ('e list \<times> name_entries) comp" where
  "collect_entries A n acc it =
     (case entries_next A n it of
        (Panic p, it') \<Rightarrow> panic p
      | (Ret None, it') \<Rightarrow> ret (acc, it')
      | (Ret (Some e), it') \<Rightarrow> collect_entries A n (acc @ [e]) it')"

text \<open>\<open>X509NameBuilder\<close>.\<close>

definition append_entry_by_text_with_type ::
    "('n, 'e) name_api \<Rightarrow> string \<Rightarrow> string \<Rightarrow> int \<Rightarrow> ('n, unit) eff" where
  "append_entry_by_text_with_type A field value ty =
     ebind (ecstring (n_err_lib_none A) field) (\<lambda>field.
       ebind (etry_int (n_len_max A) (n_err_lib_none A) (length value)) (\<lambda>len.
         ecvt (X509_NAME_add_entry_by_txt A field ty value len)))"

definition append_entry_by_text :: "('n, 'e) name_api \<Rightarrow> string \<Rightarrow> string \<Rightarrow> ('n, unit) eff" where
  "append_entry_by_text A field value =
     ebind (ecstring (n_err_lib_none A) field) (\<lambda>field.
       ebind (etry_int (n_len_max A) (n_err_lib_none A) (length value)) (\<lambda>len.
         ecvt (X509_NAME_add_entry_by_txt A field (MBSTRING_UTF8 A) value len)))"

definition append_entry_by_nid_with_type ::
    "('n, 'e) name_api \<Rightarrow> int \<Rightarrow> string \<Rightarrow> int \<Rightarrow> ('n, unit) eff" where
  "append_entry_by_nid_with_type A field value ty =
     ebind (etry_int (n_len_max A) (n_err_lib_none A) (length value)) (\<lambda>len.
       ecvt (X509_NAME_add_entry_by_NID A field ty value len))"

definition append_entry_by_nid :: "('n, 'e) name_api \<Rightarrow> int \<Rightarrow> string \<Rightarrow> ('n, unit) eff" where
  "append_entry_by_nid A field value =
     ebind (etry_int (n_len_max A) (n_err_lib_none A) (length value)) (\<lambda>len.
       ecvt (X509_NAME_add_entry_by_NID A field (MBSTRING_UTF8 A) value len))"

definition name_build :: "('n, 'e) name_api \<Rightarrow> 'n \<Rightarrow> err_queue \<Rightarrow> 'n outcome \<times> err_queue" where
  "name_build A n q =
     (case name_to_der A n q of
        (Inl es, q1) \<Rightarrow> (Panic ''called `Result::unwrap()` on an `Err` value'', q1)
      | (Inr der, q1) \<Rightarrow>
          (case name_from_der A der q1 of
             (Inl es, q2) \<Rightarrow> (Panic ''called `Result::unwrap()` on an `Err` value'', q2)
           | (Inr n', q2) \<Rightarrow> (Ret n', q2)))"

definition name_try_cmp ::
    "('n, 'e) name_api \<Rightarrow> 'n \<Rightarrow> 'n \<Rightarrow> err_queue \<Rightarrow> (error_stack + ordering) \<times> err_queue" where
  "name_try_cmp A a b q =
     (case X509_NAME_cmp A a b q of (r, q1) \<Rightarrow> if r = -2 then fail_stack q1 else (Inr (cmp_zero r), q1))"

section \<open>What BoringSSL promises\<close>

text \<open>
  A text BIO holds blocks, each a certificate or unreadable. Reading yields the next certificate; at the end,
  and on an unreadable block, it fails and its last error says which it was.
\<close>

definition no_start_line :: "('b, 'x) x509_pem_api \<Rightarrow> err_queue \<Rightarrow> bool" where
  "no_start_line P q \<longleftrightarrow>
     (let err = ERR_peek_last_error q in ERR_GET_LIB err = ERR_LIB_PEM P \<and> ERR_GET_REASON err = PEM_R_NO_START_LINE P)"

definition pem_spec :: "('b, 'x) x509_pem_api \<Rightarrow> ('b \<Rightarrow> 'x option list) \<Rightarrow> bool" where
  "pem_spec P blocks \<longleftrightarrow>
     (\<forall>b q. case PEM_read_bio_X509 P b q of (r, b', q') \<Rightarrow>
        (case blocks b of
           [] \<Rightarrow> r = None \<and> no_start_line P q'
         | None # _ \<Rightarrow> r = None \<and> q' \<noteq> [] \<and> \<not> no_start_line P q'
         | Some x # bs \<Rightarrow> r = Some x \<and> blocks b' = bs \<and> q' = q))"

text \<open>
  A name is a list of entries. The search for a number that is known goes on after the given index, and gives
  -1 if there is no further entry.
\<close>

definition name_spec :: "('n, 'e) name_api \<Rightarrow> ('n \<Rightarrow> 'e list) \<Rightarrow> ('e \<Rightarrow> int) \<Rightarrow> int set \<Rightarrow> bool" where
  "name_spec A es nid_of known \<longleftrightarrow>
     (\<forall>n. X509_NAME_entry_count A n = int (length (es n))) \<and>
     (\<forall>n i. X509_NAME_get_entry A n i = (if 0 \<le> i \<and> nat i < length (es n) then Some (es n ! nat i) else None)) \<and>
     (\<forall>n nid loc. nid \<in> known \<longrightarrow> -1 \<le> loc \<longrightarrow>
        (let rest = drop (nat (loc + 1)) (es n);
             k = length (takeWhile (\<lambda>e. nid_of e \<noteq> nid) rest)
         in X509_NAME_get_index_by_NID A n nid loc = (if k < length rest then loc + 1 + int k else -1)))"

section \<open>Properties\<close>

lemma pem_specD:
  assumes "pem_spec P blocks" "PEM_read_bio_X509 P b q = (r, b', q')"
  shows "case blocks b of
      [] \<Rightarrow> r = None \<and> no_start_line P q'
    | None # _ \<Rightarrow> r = None \<and> q' \<noteq> [] \<and> \<not> no_start_line P q'
    | Some x # bs \<Rightarrow> r = Some x \<and> blocks b' = bs \<and> q' = q"
  using spec[OF spec[OF assms(1)[unfolded pem_spec_def], of b], of q] unfolding assms(2) by simp

lemma read_certs_returns:
  assumes "pem_spec P blocks"
  shows "\<exists>r q'. read_certs P bio certs q = Some (r, q') \<and>
    (case r of
       Inr xs \<Rightarrow> q' = [] \<and> map Some xs = map Some certs @ blocks bio
     | Inl _ \<Rightarrow> None \<in> set (blocks bio))"
proof (induction "blocks bio" arbitrary: bio certs q)
  case Nil
  obtain r b' q1 where read: "PEM_read_bio_X509 P bio q = (r, b', q1)" by (metis prod.collapse)
  then have "r = None" "no_start_line P q1"
    using pem_specD[OF assms read] Nil by (auto split: list.splits)
  then show ?case
    using read Nil by (subst read_certs.simps) (auto simp: no_start_line_def Let_def error_stack_clear_def)
next
  case (Cons b bs)
  obtain r b' q1 where read: "PEM_read_bio_X509 P bio q = (r, b', q1)" by (metis prod.collapse)
  note spec = pem_specD[OF assms read, folded Cons.hyps(2)]
  show ?case
  proof (cases b)
    case None
    then have "r = None" "\<not> no_start_line P q1" using spec by auto
    then show ?thesis
      using read Cons.hyps(2)[symmetric] None
      by (subst read_certs.simps)
        (auto simp: no_start_line_def Let_def fail_stack_def split: prod.splits)
  next
    case (Some x)
    then have s: "r = Some x" "blocks b' = bs" using spec by auto
    have step: "read_certs P bio certs q = read_certs P b' (certs @ [x]) q1"
      using read s(1) by (subst read_certs.simps) simp
    have rest: "blocks bio = Some x # blocks b'" using Cons.hyps(2) Some s(2) by simp
    show ?thesis
      using Cons.hyps(1)[OF s(2)[symmetric], of "certs @ [x]" q1] unfolding step rest
      by (fastforce split: sum.splits)
  qed
qed

text \<open>
  C32: \<open>stack_from_pem\<close> always ends. It succeeds exactly if every block of its input is a certificate, and then
  returns all of them, in order, with an empty error queue.
\<close>

theorem stack_from_pem_ends:
  assumes "pem_spec P blocks" "xp_mem_bio P pem q = (Inr bio, q1)"
  shows "\<exists>r q'. stack_from_pem P pem q = Some (r, q') \<and>
    (case r of
       Inr xs \<Rightarrow> q' = [] \<and> blocks bio = map Some xs
     | Inl _ \<Rightarrow> None \<in> set (blocks bio))"
proof -
  from read_certs_returns[OF assms(1), of bio "[]" q1] obtain r q' where
    "read_certs P bio [] q1 = Some (r, q')"
    "case r of Inr xs \<Rightarrow> q' = [] \<and> map Some xs = map Some [] @ blocks bio | Inl _ \<Rightarrow> None \<in> set (blocks bio)"
    by blast
  then show ?thesis
    using assms(2) by (intro exI[of _ r] exI[of _ q']) (auto simp: stack_from_pem_def split: sum.splits)
qed

text \<open>A library whose input is a line of letters, each a certificate, with question marks for what is unreadable.\<close>

definition letter_pem :: "(string, char) x509_pem_api" where
  "letter_pem =
     \<lparr>xp_mem_bio = (\<lambda>s q. (Inr s, q)),
      PEM_read_bio_X509 = (\<lambda>b q. case b of
          [] \<Rightarrow> (None, [], q @ [\<lparr>q_code = ucast (ERR_PACK 9 0 110), q_file = Null_File, q_line = 0, q_data = None\<rparr>])
        | c # cs \<Rightarrow>
            if c = CHR ''?'' then (None, cs, q @ [\<lparr>q_code = ucast (ERR_PACK 9 0 102), q_file = Null_File, q_line = 0, q_data = None\<rparr>])
            else (Some c, cs, q)),
      ERR_LIB_PEM = 9, PEM_R_NO_START_LINE = 110\<rparr>"

lemma letter_pem_ok: "pem_spec letter_pem (map (\<lambda>c. if c = CHR ''?'' then None else Some c))"
  by (auto simp: pem_spec_def letter_pem_def no_start_line_def ERR_peek_last_error_def ERR_PACK_def ERR_GET_LIB_def
      ERR_GET_REASON_def split: list.split)

theorem stack_from_pem_ends_witness:
  "\<exists>r q'. stack_from_pem letter_pem ''ab'' [] = Some (r, q') \<and>
     (case r of Inr xs \<Rightarrow> q' = [] \<and> [Some CHR ''a'', Some CHR ''b''] = map Some xs | Inl _ \<Rightarrow> False)"
proof -
  have "xp_mem_bio letter_pem ''ab'' [] = (Inr ''ab'', [])" by (simp add: letter_pem_def)
  from stack_from_pem_ends[OF letter_pem_ok this] show ?thesis by (auto split: sum.splits)
qed

section \<open>The entries of a name\<close>

lemma filter_from_first:
  assumes "length (takeWhile (\<lambda>e. \<not> P e) xs) < length xs"
  shows "filter P xs =
    xs ! length (takeWhile (\<lambda>e. \<not> P e) xs) # filter P (drop (Suc (length (takeWhile (\<lambda>e. \<not> P e) xs))) xs)"
  using assms by (induction xs) auto

lemma filter_none_left: "\<not> length (takeWhile (\<lambda>e. \<not> P e) xs) < length xs \<Longrightarrow> filter P xs = []"
  by (induction xs) (auto split: if_splits)

lemma name_specD:
  assumes "name_spec A es nid_of known"
  shows "X509_NAME_entry_count A n = int (length (es n))"
    "X509_NAME_get_entry A n i = (if 0 \<le> i \<and> nat i < length (es n) then Some (es n ! nat i) else None)"
    "nid \<in> known \<Longrightarrow> X509_NAME_get_index_by_NID A n nid (int k - 1) =
       (let j = length (takeWhile (\<lambda>e. nid_of e \<noteq> nid) (drop k (es n)))
        in if j < length (es n) - k then int (k + j) else -1)"
proof -
  note laws = assms[unfolded name_spec_def]
  show "X509_NAME_entry_count A n = int (length (es n))" using laws by blast
  show "X509_NAME_get_entry A n i = (if 0 \<le> i \<and> nat i < length (es n) then Some (es n ! nat i) else None)"
    using laws by blast
  show "X509_NAME_get_index_by_NID A n nid (int k - 1) =
       (let j = length (takeWhile (\<lambda>e. nid_of e \<noteq> nid) (drop k (es n)))
        in if j < length (es n) - k then int (k + j) else -1)" if "nid \<in> known"
    using spec[OF spec[OF spec[OF conjunct2[OF conjunct2[OF laws]], of n], of nid], of "int k - 1"] that
    by (simp add: Let_def)
qed

lemma collect_all_from:
  assumes "name_spec A es nid_of known" "k \<le> length (es n)"
  shows "collect_entries A n acc \<lparr>ne_nid = None, ne_loc = int k - 1\<rparr> =
    ret (acc @ drop k (es n), \<lparr>ne_nid = None, ne_loc = int (length (es n))\<rparr>)"
  using assms(2)
proof (induction "length (es n) - k" arbitrary: k acc)
  case 0
  then show ?case
    by (subst collect_entries.simps) (simp add: entries_next_def name_specD[OF assms(1)])
next
  case (Suc d)
  then have k: "k < length (es n)" by simp
  have "collect_entries A n (acc @ [es n ! k]) \<lparr>ne_nid = None, ne_loc = int (Suc k) - 1\<rparr> =
      ret ((acc @ [es n ! k]) @ drop (Suc k) (es n), \<lparr>ne_nid = None, ne_loc = int (length (es n))\<rparr>)"
    using Suc.hyps(2) k by (intro Suc.hyps(1)) auto
  then show ?case
    using k by (subst collect_entries.simps)
      (simp add: entries_next_def entry_at_def name_specD[OF assms(1)] Cons_nth_drop_Suc)
qed

lemma collect_nid_from:
  assumes "name_spec A es nid_of known" "nid \<in> known" "k \<le> length (es n)"
  shows "collect_entries A n acc \<lparr>ne_nid = Some nid, ne_loc = int k - 1\<rparr> =
    ret (acc @ filter (\<lambda>e. nid_of e = nid) (drop k (es n)), \<lparr>ne_nid = Some nid, ne_loc = -1\<rparr>)"
  using assms(3)
proof (induction "length (es n) - k" arbitrary: k acc rule: less_induct)
  case less
  define j where "j = length (takeWhile (\<lambda>e. nid_of e \<noteq> nid) (drop k (es n)))"
  note idx = name_specD(3)[OF assms(1,2), of n k, folded j_def, unfolded Let_def]
  show ?case
  proof (cases "j < length (es n) - k")
    case False
    then have "filter (\<lambda>e. nid_of e = nid) (drop k (es n)) = []"
      using filter_none_left[of "\<lambda>e. nid_of e = nid" "drop k (es n)"] by (simp add: j_def)
    then show ?thesis
      using False idx by (subst collect_entries.simps) (simp add: entries_next_def)
  next
    case True
    let ?e = "es n ! (k + j)"
    have f: "filter (\<lambda>e. nid_of e = nid) (drop k (es n)) = ?e # filter (\<lambda>e. nid_of e = nid) (drop (Suc (k + j)) (es n))"
      using filter_from_first[of "\<lambda>e. nid_of e = nid" "drop k (es n)"] True less.prems
      by (simp add: j_def[symmetric] add.commute)
    have "collect_entries A n (acc @ [?e]) \<lparr>ne_nid = Some nid, ne_loc = int (Suc (k + j)) - 1\<rparr> =
        ret ((acc @ [?e]) @ filter (\<lambda>e. nid_of e = nid) (drop (Suc (k + j)) (es n)), \<lparr>ne_nid = Some nid, ne_loc = -1\<rparr>)"
      using True less.prems by (intro less.hyps) auto
    moreover have "entries_next A n \<lparr>ne_nid = Some nid, ne_loc = int k - 1\<rparr> =
        (Ret (Some ?e), \<lparr>ne_nid = Some nid, ne_loc = int (k + j)\<rparr>)"
      using True idx by (simp add: entries_next_def entry_at_def name_specD(2)[OF assms(1)] nat_add_distrib)
    ultimately show ?thesis
      by (subst collect_entries.simps) (simp add: f)
  qed
qed

text \<open>
  Iterating over a name yields all its entries in order, and over the entries with a number exactly those with that
  number, in order; neither loop panics.
\<close>

lemma names_iterate:
  assumes "name_spec A es nid_of known" "nid \<in> known"
  shows "collect_entries A n [] entries = ret (es n, \<lparr>ne_nid = None, ne_loc = int (length (es n))\<rparr>) \<and>
    collect_entries A n [] (entries_by_nid nid) =
      ret (filter (\<lambda>e. nid_of e = nid) (es n), \<lparr>ne_nid = Some nid, ne_loc = -1\<rparr>)"
  using collect_all_from[OF assms(1), of 0 n "[]"] collect_nid_from[OF assms, of 0 n "[]"]
  by (simp add: entries_def entries_by_nid_def)

text \<open>Names as lists of type and value; a type number below 100 is known.\<close>

definition list_names :: "((int \<times> string) list, int \<times> string) name_api" where
  "list_names =
     \<lparr>n_err_lib_none = 1, MBSTRING_UTF8 = 4096,
      X509_NAME_get_index_by_NID = (\<lambda>n nid loc.
        if nid \<ge> 100 then -2
        else let rest = drop (nat (loc + 1)) n; k = length (takeWhile (\<lambda>e. fst e \<noteq> nid) rest)
             in if k < length rest then loc + 1 + int k else -1),
      X509_NAME_entry_count = (\<lambda>n. int (length n)),
      X509_NAME_get_entry = (\<lambda>n i. if 0 \<le> i \<and> nat i < length n then Some (n ! nat i) else None),
      X509_NAME_add_entry_by_txt = (\<lambda>f ty v len n q. ((1, ()), n @ [(if f = ''CN'' then 13 else 99, take len v)], q)),
      X509_NAME_add_entry_by_NID = (\<lambda>f ty v len n q. ((1, ()), n @ [(f, take len v)], q)),
      n_len_max = 100,
      name_to_der = (\<lambda>n q. (Inr '''', q)), name_from_der = (\<lambda>d q. (Inr [], q)), X509_NAME_cmp = (\<lambda>a b q. (0, q))\<rparr>"

lemma list_names_ok: "name_spec list_names id fst {0..<100}"
  by (auto simp: name_spec_def list_names_def Let_def)

end
