(* ===== verification/Verify_Store.thy ===== *)
theory Verify_Store
  imports Effects
begin

text \<open>
  The certificate stores of contexts and connections (\<open>btls/src/ssl/mod.rs\<close>): which store a connection verifies with,
  and who may change a store. BoringSSL keeps the stores; the library keeps in its extra data what BoringSSL cannot
  return. Pointers are numbers. A context is configured by its builder, then built, then used by connections; Rust's
  ownership enforces that order, and the steps below follow it.
\<close>

section \<open>State\<close>

text \<open>BoringSSL's calls; \<open>'l\<close> is its memory. A call that returns a pointer returns \<open>None\<close> for null.\<close>

record 'l store_api =
  SSL_CTX_new :: "'l \<Rightarrow> err_queue \<Rightarrow> nat option \<times> 'l \<times> err_queue"
  SSL_CTX_set1_verify_cert_store :: "nat \<Rightarrow> nat \<Rightarrow> 'l \<Rightarrow> err_queue \<Rightarrow> (int \<times> unit) \<times> 'l \<times> err_queue"
  SSL_CTX_set_cert_store :: "nat \<Rightarrow> nat \<Rightarrow> 'l \<Rightarrow> 'l"
  SSL_CTX_get_cert_store :: "'l \<Rightarrow> nat \<Rightarrow> nat"
  X509_STORE_new :: "'l \<Rightarrow> err_queue \<Rightarrow> nat option \<times> 'l \<times> err_queue"
  SSL_new :: "nat \<Rightarrow> 'l \<Rightarrow> err_queue \<Rightarrow> nat option \<times> 'l \<times> err_queue"
  SSL_set1_verify_cert_store :: "nat \<Rightarrow> nat \<Rightarrow> 'l \<Rightarrow> err_queue \<Rightarrow> (int \<times> unit) \<times> 'l \<times> err_queue"
  SSL_set_SSL_CTX :: "nat \<Rightarrow> nat \<Rightarrow> 'l \<Rightarrow> err_queue \<Rightarrow> nat option \<times> 'l \<times> err_queue"
  SSL_get_SSL_CTX :: "'l \<Rightarrow> nat \<Rightarrow> nat"

text \<open>
  The extra data at \<open>X509_FLAG_INDEX\<close> and \<open>VERIFY_STORE_INDEX\<close> of each context and at \<open>SSL_VERIFY_STORE_INDEX\<close>
  of each connection, and the field \<open>has_shared_cert_store\<close> of each context's builder.
\<close>

record 'l store_world =
  w_lib :: 'l
  w_x509_flag :: "nat \<Rightarrow> bool option"
  w_verify_store :: "nat \<Rightarrow> nat option"
  w_ssl_verify_store :: "nat \<Rightarrow> nat option option"
  w_has_shared :: "nat \<Rightarrow> bool"

definition on_lib ::
    "('l \<Rightarrow> err_queue \<Rightarrow> 'r \<times> 'l \<times> err_queue) \<Rightarrow> 'l store_world \<Rightarrow> err_queue \<Rightarrow> 'r \<times> 'l store_world \<times> err_queue" where
  "on_lib f w q = (case f (w_lib w) q of (r, l, q') \<Rightarrow> (r, w\<lparr>w_lib := l\<rparr>, q'))"

text \<open>A call that returns a pointer and changes BoringSSL's memory, checked by \<open>cvt_p\<close>.\<close>

definition ecvt_new :: "('s \<Rightarrow> err_queue \<Rightarrow> 'p option \<times> 's \<times> err_queue) \<Rightarrow> ('s, 'p) eff" where
  "ecvt_new f s q =
     (case f s q of (p, s', q1) \<Rightarrow>
        case cvt_p p q1 of (Inl es, q') \<Rightarrow> (Err es, s', q') | (Inr x, q') \<Rightarrow> (Ok x, s', q'))"

section \<open>Contexts\<close>

text \<open>\<open>has_x509_support\<close> and \<open>check_x509\<close>, by the context's pointer.\<close>

definition has_x509_support :: "nat \<Rightarrow> 'l store_world \<Rightarrow> bool" where
  "has_x509_support c w = (case w_x509_flag w c of None \<Rightarrow> False | Some b \<Rightarrow> b)"

definition ctx_check_x509 :: "nat \<Rightarrow> ('l store_world, unit) eff" where
  "ctx_check_x509 c =
     ebind (eget (has_x509_support c)) (\<lambda>b. eassert b ''This context is not configured for X.509 certificates'')"

definition assume_x509 :: "nat \<Rightarrow> 'l store_world \<Rightarrow> 'l store_world" where
  "assume_x509 c w = w\<lparr>w_x509_flag := (w_x509_flag w)(c := Some True)\<rparr>"

text \<open>\<open>from_ptr\<close> of the builder; a new object has no extra data.\<close>

definition builder_from_ptr :: "nat \<Rightarrow> 'l store_world \<Rightarrow> 'l store_world" where
  "builder_from_ptr c w =
     w\<lparr>w_x509_flag := (w_x509_flag w)(c := None), w_verify_store := (w_verify_store w)(c := None),
       w_has_shared := (w_has_shared w)(c := False)\<rparr>"

definition context_builder_new :: "'l store_api \<Rightarrow> bool \<Rightarrow> ('l store_world, nat) eff" where
  "context_builder_new A is_x509_method =
     ebind (ecvt_new (on_lib (SSL_CTX_new A))) (\<lambda>c.
       ebind (eput (builder_from_ptr c)) (\<lambda>_.
         ebind (if is_x509_method then eput (assume_x509 c) else eret ()) (\<lambda>_. eret c)))"

definition ctx_set_verify_cert_store :: "'l store_api \<Rightarrow> nat \<Rightarrow> nat \<Rightarrow> ('l store_world, unit) eff" where
  "ctx_set_verify_cert_store A c cert_store =
     ethen (ctx_check_x509 c)
       (ethen (ecvt (on_lib (SSL_CTX_set1_verify_cert_store A c cert_store)))
         (eput (\<lambda>w. w\<lparr>w_verify_store := (w_verify_store w)(c := Some cert_store)\<rparr>)))"

definition set_cert_store :: "'l store_api \<Rightarrow> nat \<Rightarrow> nat \<Rightarrow> ('l store_world, unit) eff" where
  "set_cert_store A c cert_store =
     ethen (ctx_check_x509 c)
       (ethen (eput (\<lambda>w. w\<lparr>w_has_shared := (w_has_shared w)(c := True)\<rparr>))
         (eput (\<lambda>w. w\<lparr>w_lib := SSL_CTX_set_cert_store A c cert_store (w_lib w)\<rparr>)))"

definition set_cert_store_builder :: "'l store_api \<Rightarrow> nat \<Rightarrow> nat \<Rightarrow> ('l store_world, unit) eff" where
  "set_cert_store_builder A c cert_store =
     ethen (ctx_check_x509 c)
       (ethen (eput (\<lambda>w. w\<lparr>w_has_shared := (w_has_shared w)(c := False)\<rparr>))
         (eput (\<lambda>w. w\<lparr>w_lib := SSL_CTX_set_cert_store A c cert_store (w_lib w)\<rparr>)))"

definition ctx_cert_store :: "'l store_api \<Rightarrow> nat \<Rightarrow> ('l store_world, nat) eff" where
  "ctx_cert_store A c =
     ethen (ctx_check_x509 c) (eget (\<lambda>w. SSL_CTX_get_cert_store A (w_lib w) c))"

definition cert_store_mut :: "'l store_api \<Rightarrow> nat \<Rightarrow> ('l store_world, nat) eff" where
  "cert_store_mut A c =
     ethen (ctx_check_x509 c)
       (ebind (eget (\<lambda>w. w_has_shared w c)) (\<lambda>shared.
         ethen (eassert (\<not> shared) ''Shared X509Store can't be mutated.'')
           (eget (\<lambda>w. SSL_CTX_get_cert_store A (w_lib w) c))))"

definition store_builder_new :: "'l store_api \<Rightarrow> ('l store_world, nat) eff" where
  "store_builder_new A = ecvt_new (on_lib (X509_STORE_new A))"

section \<open>Connections\<close>

definition ssl_context :: "'l store_api \<Rightarrow> nat \<Rightarrow> 'l store_world \<Rightarrow> nat" where
  "ssl_context A s w = SSL_get_SSL_CTX A (w_lib w) s"

definition ssl_create :: "'l store_api \<Rightarrow> nat \<Rightarrow> ('l store_world, nat) eff" where
  "ssl_create A c =
     ebind (ecvt_new (on_lib (SSL_new A c))) (\<lambda>s.
       ethen (eput (\<lambda>w. w\<lparr>w_ssl_verify_store := (w_ssl_verify_store w)(s := None)\<rparr>)) (eret s))"

definition ssl_set_verify_cert_store :: "'l store_api \<Rightarrow> nat \<Rightarrow> nat \<Rightarrow> ('l store_world, unit) eff" where
  "ssl_set_verify_cert_store A s cert_store =
     ebind (eget (ssl_context A s)) (\<lambda>c.
       ethen (ctx_check_x509 c)
         (ethen (ecvt (on_lib (SSL_set1_verify_cert_store A s cert_store)))
           (eput (\<lambda>w. w\<lparr>w_ssl_verify_store := (w_ssl_verify_store w)(s := Some (Some cert_store))\<rparr>))))"

definition set_ssl_context :: "'l store_api \<Rightarrow> nat \<Rightarrow> nat \<Rightarrow> ('l store_world, unit) eff" where
  "set_ssl_context A s c =
     ebind (eget (\<lambda>w. has_x509_support (ssl_context A s w) w = has_x509_support c w)) (\<lambda>same.
       ethen (eassert same ''X.509 certificate support in old and new contexts doesn't match'')
         (ebind (eget (\<lambda>w. ssl_context A s w \<noteq> c)) (\<lambda>changed.
           ebind (ecvt_new (on_lib (SSL_set_SSL_CTX A s c))) (\<lambda>_.
             if changed
             then eput (\<lambda>w. case w_ssl_verify_store w s of
                    Some _ \<Rightarrow> w\<lparr>w_ssl_verify_store := (w_ssl_verify_store w)(s := Some None)\<rparr>
                  | None \<Rightarrow> w)
             else eret ()))))"

text \<open>The store of \<open>verify_peer_cert_chain\<close>.\<close>

definition chosen_store :: "'l store_api \<Rightarrow> nat \<Rightarrow> ('l store_world, nat) eff" where
  "chosen_store A s =
     ebind (eget (ssl_context A s)) (\<lambda>c.
       ebind (eget (\<lambda>w. (w_ssl_verify_store w s, w_verify_store w c))) (\<lambda>stores.
         case stores of
           (Some (Some store), _) \<Rightarrow> eret store
         | (_, Some store) \<Rightarrow> eret store
         | _ \<Rightarrow> ctx_cert_store A c))"

section \<open>What BoringSSL promises\<close>

text \<open>
  What BoringSSL holds: for a live context its store and its verify store, for a live connection its context and its
  verify store, and the live stores.
\<close>

record 'l store_view =
  ctx_of :: "'l \<Rightarrow> nat \<Rightarrow> (nat \<times> nat option) option"
  ssl_of :: "'l \<Rightarrow> nat \<Rightarrow> (nat \<times> nat option) option"
  stores_of :: "'l \<Rightarrow> nat set"

definition same_view :: "'l store_view \<Rightarrow> 'l \<Rightarrow> 'l \<Rightarrow> bool" where
  "same_view V l l' \<longleftrightarrow> ctx_of V l' = ctx_of V l \<and> ssl_of V l' = ssl_of V l \<and> stores_of V l' = stores_of V l"

text \<open>
  A new object has a new address; a new context has a new store and no verify store; a new connection takes over its
  context's verify store, and so does one whose context is replaced by another; a failed call changes nothing.
\<close>

definition ctx_new_ok :: "'l store_api \<Rightarrow> 'l store_view \<Rightarrow> bool" where
  "ctx_new_ok A V \<longleftrightarrow>
     (\<forall>l q r l' q'. SSL_CTX_new A l q = (r, l', q') \<longrightarrow>
        (case r of None \<Rightarrow> same_view V l l'
         | Some c \<Rightarrow> ctx_of V l c = None \<and> ssl_of V l' = ssl_of V l \<and>
             (\<exists>st. st \<notin> stores_of V l \<and> stores_of V l' = insert st (stores_of V l) \<and>
                   ctx_of V l' = (ctx_of V l)(c := Some (st, None)))))"

definition store_new_ok :: "'l store_api \<Rightarrow> 'l store_view \<Rightarrow> bool" where
  "store_new_ok A V \<longleftrightarrow>
     (\<forall>l q r l' q'. X509_STORE_new A l q = (r, l', q') \<longrightarrow>
        (case r of None \<Rightarrow> same_view V l l'
         | Some st \<Rightarrow> st \<notin> stores_of V l \<and> stores_of V l' = insert st (stores_of V l) \<and>
             ctx_of V l' = ctx_of V l \<and> ssl_of V l' = ssl_of V l))"

definition ctx_stores_ok :: "'l store_api \<Rightarrow> 'l store_view \<Rightarrow> bool" where
  "ctx_stores_ok A V \<longleftrightarrow>
     (\<forall>c st l q r u l' q'. SSL_CTX_set1_verify_cert_store A c st l q = ((r, u), l', q') \<longrightarrow>
        (if r > 0 then stores_of V l' = stores_of V l \<and> ssl_of V l' = ssl_of V l \<and>
           ctx_of V l' = (ctx_of V l)(c := map_option (\<lambda>(cs, _). (cs, Some st)) (ctx_of V l c))
         else same_view V l l')) \<and>
     (\<forall>c st l. stores_of V (SSL_CTX_set_cert_store A c st l) = stores_of V l \<and>
        ssl_of V (SSL_CTX_set_cert_store A c st l) = ssl_of V l \<and>
        ctx_of V (SSL_CTX_set_cert_store A c st l) = (ctx_of V l)(c := map_option (\<lambda>(_, vs). (st, vs)) (ctx_of V l c))) \<and>
     (\<forall>l c cs vs. ctx_of V l c = Some (cs, vs) \<longrightarrow> SSL_CTX_get_cert_store A l c = cs)"

definition ssl_new_ok :: "'l store_api \<Rightarrow> 'l store_view \<Rightarrow> bool" where
  "ssl_new_ok A V \<longleftrightarrow>
     (\<forall>c l q r l' q' cs vs. SSL_new A c l q = (r, l', q') \<longrightarrow> ctx_of V l c = Some (cs, vs) \<longrightarrow>
        (case r of None \<Rightarrow> same_view V l l'
         | Some s \<Rightarrow> ssl_of V l s = None \<and> ctx_of V l' = ctx_of V l \<and> stores_of V l' = stores_of V l \<and>
             ssl_of V l' = (ssl_of V l)(s := Some (c, vs))))"

definition ssl_stores_ok :: "'l store_api \<Rightarrow> 'l store_view \<Rightarrow> bool" where
  "ssl_stores_ok A V \<longleftrightarrow>
     (\<forall>s st l q r u l' q'. SSL_set1_verify_cert_store A s st l q = ((r, u), l', q') \<longrightarrow>
        (if r > 0 then stores_of V l' = stores_of V l \<and> ctx_of V l' = ctx_of V l \<and>
           ssl_of V l' = (ssl_of V l)(s := map_option (\<lambda>(c, _). (c, Some st)) (ssl_of V l s))
         else same_view V l l')) \<and>
     (\<forall>l s c vs. ssl_of V l s = Some (c, vs) \<longrightarrow> SSL_get_SSL_CTX A l s = c)"

definition ssl_ctx_ok :: "'l store_api \<Rightarrow> 'l store_view \<Rightarrow> bool" where
  "ssl_ctx_ok A V \<longleftrightarrow>
     (\<forall>s c l q r l' q' c0 vs0 cs vs. SSL_set_SSL_CTX A s c l q = (r, l', q') \<longrightarrow>
        ssl_of V l s = Some (c0, vs0) \<longrightarrow> ctx_of V l c = Some (cs, vs) \<longrightarrow>
        (if r = None \<or> c0 = c then same_view V l l'
         else stores_of V l' = stores_of V l \<and> ctx_of V l' = ctx_of V l \<and> ssl_of V l' = (ssl_of V l)(s := Some (c, vs))))"

definition stores_ok :: "'l store_api \<Rightarrow> 'l store_view \<Rightarrow> bool" where
  "stores_ok A V \<longleftrightarrow>
     ctx_new_ok A V \<and> store_new_ok A V \<and> ctx_stores_ok A V \<and> ssl_new_ok A V \<and> ssl_stores_ok A V \<and> ssl_ctx_ok A V"

text \<open>The store of BoringSSL's own verifier.\<close>

definition builtin_store :: "'l store_view \<Rightarrow> 'l \<Rightarrow> nat \<Rightarrow> nat option" where
  "builtin_store V l s =
     (case ssl_of V l s of
        None \<Rightarrow> None
      | Some (c, Some st) \<Rightarrow> Some st
      | Some (c, None) \<Rightarrow> map_option fst (ctx_of V l c))"


section \<open>What a program can do\<close>

text \<open>
  The contexts that have a builder, the built ones, the connections, and the stores that are owned by an
  \<open>X509StoreBuilder\<close> and those that are an \<open>X509Store\<close>, which can be cloned.
\<close>

record 'l store_state =
  vs_world :: "'l store_world"
  vs_building :: "nat set"
  vs_built :: "nat set"
  vs_ssls :: "nat set"
  vs_builders :: "nat set"
  vs_frozen :: "nat set"

fun new_in :: "nat eresult \<Rightarrow> nat set \<Rightarrow> nat set" where
  "new_in (Ok x) X = insert x X"
| "new_in _ X = X"

inductive store_step :: "'l store_api \<Rightarrow> 'l store_state \<Rightarrow> 'l store_state \<Rightarrow> bool" for A where
  new_context: "context_builder_new A x509 (vs_world S) q = (r, w', q') \<Longrightarrow>
    store_step A S (S\<lparr>vs_world := w', vs_building := new_in r (vs_building S)\<rparr>)"
| new_store: "store_builder_new A (vs_world S) q = (r, w', q') \<Longrightarrow>
    store_step A S (S\<lparr>vs_world := w', vs_builders := new_in r (vs_builders S)\<rparr>)"
| build_store: "st \<in> vs_builders S \<Longrightarrow>
    store_step A S (S\<lparr>vs_builders := vs_builders S - {st}, vs_frozen := insert st (vs_frozen S)\<rparr>)"
| context_verify_store: "c \<in> vs_building S \<Longrightarrow> st \<in> vs_frozen S \<Longrightarrow>
    ctx_set_verify_cert_store A c st (vs_world S) q = (r, w', q') \<Longrightarrow> store_step A S (S\<lparr>vs_world := w'\<rparr>)"
| shared_store: "c \<in> vs_building S \<Longrightarrow> st \<in> vs_frozen S \<Longrightarrow>
    set_cert_store A c st (vs_world S) q = (r, w', q') \<Longrightarrow> store_step A S (S\<lparr>vs_world := w'\<rparr>)"
| exclusive_store: "c \<in> vs_building S \<Longrightarrow> st \<in> vs_builders S \<Longrightarrow>
    set_cert_store_builder A c st (vs_world S) q = (r, w', q') \<Longrightarrow>
    store_step A S (S\<lparr>vs_world := w', vs_builders := vs_builders S - {st}\<rparr>)"
| build: "c \<in> vs_building S \<Longrightarrow> ctx_cert_store A c (vs_world S) q = (r, w', q') \<Longrightarrow>
    store_step A S (S\<lparr>vs_building := vs_building S - {c}, vs_built := insert c (vs_built S),
      vs_frozen := new_in r (vs_frozen S)\<rparr>)"
| new_connection: "c \<in> vs_built S \<Longrightarrow> ssl_create A c (vs_world S) q = (r, w', q') \<Longrightarrow>
    store_step A S (S\<lparr>vs_world := w', vs_ssls := new_in r (vs_ssls S)\<rparr>)"
| connection_store: "s \<in> vs_ssls S \<Longrightarrow> st \<in> vs_frozen S \<Longrightarrow>
    ssl_set_verify_cert_store A s st (vs_world S) q = (r, w', q') \<Longrightarrow> store_step A S (S\<lparr>vs_world := w'\<rparr>)"
| change_context: "s \<in> vs_ssls S \<Longrightarrow> c \<in> vs_built S \<Longrightarrow>
    set_ssl_context A s c (vs_world S) q = (r, w', q') \<Longrightarrow> store_step A S (S\<lparr>vs_world := w'\<rparr>)"

definition fresh_state :: "'l \<Rightarrow> 'l store_state" where
  "fresh_state l =
     \<lparr>vs_world = \<lparr>w_lib = l, w_x509_flag = Map.empty, w_verify_store = Map.empty, w_ssl_verify_store = Map.empty,
        w_has_shared = (\<lambda>_. False)\<rparr>,
      vs_building = {}, vs_built = {}, vs_ssls = {}, vs_builders = {}, vs_frozen = {}\<rparr>"

definition store_reachable :: "'l store_api \<Rightarrow> 'l \<Rightarrow> 'l store_state \<Rightarrow> bool" where
  "store_reachable A l S \<longleftrightarrow> (store_step A)\<^sup>*\<^sup>* (fresh_state l) S"

section \<open>Invariants\<close>

text \<open>
  The invariants, over what BoringSSL holds (\<open>ctx\<close>, \<open>ssl\<close>, \<open>stores\<close>), the extra data and the builder's flag
  (\<open>vstore\<close>, \<open>sstore\<close>, \<open>shared\<close>), the contexts that are being built or are built, the connections, and the owned and
  the frozen stores.
\<close>

definition own_store :: "(nat \<Rightarrow> nat option option) \<Rightarrow> (nat \<Rightarrow> nat option) \<Rightarrow> nat \<Rightarrow> nat \<Rightarrow> nat option" where
  "own_store sstore vstore s c = (case sstore s of Some (Some st) \<Rightarrow> Some st | _ \<Rightarrow> vstore c)"

definition sets_inv :: "nat set \<Rightarrow> nat set \<Rightarrow> nat set \<Rightarrow> nat set \<Rightarrow> nat set \<Rightarrow> bool" where
  "sets_inv stores building built builders frozen \<longleftrightarrow>
     building \<inter> built = {} \<and> builders \<inter> frozen = {} \<and> builders \<union> frozen \<subseteq> stores"

definition ctxs_inv :: "(nat \<Rightarrow> (nat \<times> nat option) option) \<Rightarrow> (nat \<Rightarrow> nat option) \<Rightarrow> nat set \<Rightarrow> nat set \<Rightarrow> bool" where
  "ctxs_inv ctx vstore live ready \<longleftrightarrow> (\<forall>c\<in>live. \<exists>cs\<in>ready. ctx c = Some (cs, vstore c))"

definition store_at :: "(nat \<Rightarrow> (nat \<times> nat option) option) \<Rightarrow> nat \<Rightarrow> nat option" where
  "store_at ctx c = map_option fst (ctx c)"

definition own_inv ::
    "(nat \<Rightarrow> nat option) \<Rightarrow> (nat \<Rightarrow> bool) \<Rightarrow> nat set \<Rightarrow> nat set \<Rightarrow> nat set \<Rightarrow> bool" where
  "own_inv cs shared building live frozen \<longleftrightarrow>
     (\<forall>c\<in>building. \<not> shared c \<longrightarrow> cs c \<notin> Some ` frozen \<and> (\<forall>c'\<in>live. c' \<noteq> c \<longrightarrow> cs c' \<noteq> cs c))"

definition ssls_inv ::
    "(nat \<Rightarrow> (nat \<times> nat option) option) \<Rightarrow> (nat \<Rightarrow> nat option option) \<Rightarrow> (nat \<Rightarrow> nat option) \<Rightarrow> nat set \<Rightarrow> nat set
     \<Rightarrow> bool" where
  "ssls_inv ssl sstore vstore built ssls \<longleftrightarrow> (\<forall>s\<in>ssls. \<exists>c\<in>built. ssl s = Some (c, own_store sstore vstore s c))"

definition store_inv :: "'l store_view \<Rightarrow> 'l store_state \<Rightarrow> bool" where
  "store_inv V S \<longleftrightarrow>
     (let w = vs_world S; l = w_lib w in
      sets_inv (stores_of V l) (vs_building S) (vs_built S) (vs_builders S) (vs_frozen S) \<and>
      ctxs_inv (ctx_of V l) (w_verify_store w) (vs_building S \<union> vs_built S) (stores_of V l - vs_builders S) \<and>
      own_inv (store_at (ctx_of V l)) (w_has_shared w) (vs_building S) (vs_building S \<union> vs_built S) (vs_frozen S) \<and>
      ssls_inv (ssl_of V l) (w_ssl_verify_store w) (w_verify_store w) (vs_built S) (vs_ssls S))"

text \<open>How each part changes.\<close>

lemma store_at_upd:
  "store_at (ctx(c := Some (st, vs))) = (store_at ctx)(c := Some st)"
  "store_at (ctx(c := map_option (\<lambda>(cs, _). (cs, vs)) (ctx c))) = store_at ctx"
  "store_at (ctx(c := map_option (\<lambda>(_, vs). (st, vs)) (ctx c))) = (store_at ctx)(c := map_option (\<lambda>_. st) (ctx c))"
  by (auto simp: store_at_def map_option_case split: option.split)

lemma ctxs_inv_store: "ctxs_inv ctx vstore live ready \<Longrightarrow> c \<in> live \<Longrightarrow> \<exists>st\<in>ready. store_at ctx c = Some st"
  by (fastforce simp: ctxs_inv_def store_at_def)

lemma ctxs_inv_new:
  assumes "ctxs_inv ctx vstore live ready" "st \<in> ready'" "ready \<subseteq> ready'"
  shows "ctxs_inv (ctx(c := Some (st, None))) (vstore(c := None)) (insert c live) ready'"
  using assms by (auto simp: ctxs_inv_def)

lemma ctxs_inv_verify:
  assumes "ctxs_inv ctx vstore live ready"
  shows "ctxs_inv (ctx(c := map_option (\<lambda>(cs, _). (cs, Some st)) (ctx c))) (vstore(c := Some st)) live ready"
  using assms by (force simp: ctxs_inv_def)

lemma ctxs_inv_set:
  assumes "ctxs_inv ctx vstore live ready" "st \<in> ready'" "ready \<subseteq> ready'"
  shows "ctxs_inv (ctx(c := map_option (\<lambda>(_, vs). (st, vs)) (ctx c))) vstore live ready'"
  using assms by (force simp: ctxs_inv_def)

lemma ctxs_inv_mono: "ctxs_inv ctx vstore live ready \<Longrightarrow> ready \<subseteq> ready' \<Longrightarrow> live' \<subseteq> live \<Longrightarrow> ctxs_inv ctx vstore live' ready'"
  by (fastforce simp: ctxs_inv_def)

lemma own_inv_fresh:
  assumes "own_inv cs shared building live frozen" "building \<subseteq> live" "st \<notin> frozen" "\<forall>c'\<in>live. c' \<noteq> c \<longrightarrow> cs c' \<noteq> Some st"
  shows "own_inv (cs(c := Some st)) (shared(c := False)) (insert c building) (insert c live) frozen"
  using assms by (auto simp: own_inv_def)

lemma own_inv_shared:
  assumes "own_inv cs shared building live frozen" "st \<in> frozen"
  shows "own_inv (cs(c := Some st)) (shared(c := True)) building live frozen"
  using assms by (auto simp: own_inv_def) (metis imageI)

lemma own_inv_freeze:
  assumes "own_inv cs shared building live frozen" "\<forall>c\<in>building. \<not> shared c \<longrightarrow> cs c \<noteq> Some st"
  shows "own_inv cs shared building live (insert st frozen)"
  using assms by (auto simp: own_inv_def)

lemma own_inv_mono: "own_inv cs shared building live frozen \<Longrightarrow> building' \<subseteq> building \<Longrightarrow> own_inv cs shared building' live frozen"
  by (auto simp: own_inv_def)

lemma ssls_inv_new:
  assumes "ssls_inv ssl sstore vstore built ssls" "ssl s = None" "c \<in> built"
  shows "ssls_inv (ssl(s := Some (c, vstore c))) (sstore(s := None)) vstore built (insert s ssls)"
  using assms by (fastforce simp: ssls_inv_def own_store_def)

lemma ssls_inv_set:
  assumes "ssls_inv ssl sstore vstore built ssls" "ssl s = Some (c, vs)"
  shows "ssls_inv (ssl(s := Some (c, Some st))) (sstore(s := Some (Some st))) vstore built ssls"
  using assms by (fastforce simp: ssls_inv_def own_store_def)

lemma ssls_inv_change:
  assumes "ssls_inv ssl sstore vstore built ssls" "c \<in> built"
  shows "ssls_inv (ssl(s := Some (c, vstore c)))
    (case sstore s of Some _ \<Rightarrow> sstore(s := Some None) | None \<Rightarrow> sstore) vstore built ssls"
  using assms by (fastforce simp: ssls_inv_def own_store_def split: option.splits)

lemma ssls_inv_other:
  assumes "ssls_inv ssl sstore vstore built ssls" "c \<notin> built"
  shows "ssls_inv ssl sstore (vstore(c := x)) built ssls"
proof -
  have "own_store sstore (vstore(c := x)) s c' = own_store sstore vstore s c'" if "c' \<in> built" for s c'
    using that assms(2) by (auto simp: own_store_def split: option.splits)
  then show ?thesis using assms(1) unfolding ssls_inv_def by metis
qed

lemma ssls_inv_mono: "ssls_inv ssl sstore vstore built ssls \<Longrightarrow> built \<subseteq> built' \<Longrightarrow> ssls_inv ssl sstore vstore built' ssls"
  by (fastforce simp: ssls_inv_def)


section \<open>What the operations do\<close>

text \<open>A failed operation leaves everything that is held as it was.\<close>

definition same_world :: "'l store_view \<Rightarrow> 'l store_world \<Rightarrow> 'l store_world \<Rightarrow> bool" where
  "same_world V w w' \<longleftrightarrow> same_view V (w_lib w) (w_lib w') \<and> w_x509_flag w' = w_x509_flag w \<and>
     w_verify_store w' = w_verify_store w \<and>
     w_ssl_verify_store w' = w_ssl_verify_store w \<and> w_has_shared w' = w_has_shared w"

lemma same_world_refl [simp]: "same_world V w w"
  by (simp add: same_world_def same_view_def)

lemma store_inv_same: "store_inv V S \<Longrightarrow> same_world V (vs_world S) w' \<Longrightarrow> store_inv V (S\<lparr>vs_world := w'\<rparr>)"
  by (simp add: store_inv_def same_world_def same_view_def Let_def)

lemma ecvt_apply:
  "ecvt f s q = (case f s q of ((r, x), s', q1) \<Rightarrow>
     if r > 0 then (Ok x, s', q1) else (Err (fst (error_stack_get q1)), s', snd (error_stack_get q1)))"
  by (simp add: ecvt_def cvt_def fail_stack_def split: prod.split)

lemma ecvt_new_apply:
  "ecvt_new f s q = (case f s q of (p, s', q1) \<Rightarrow>
     (case p of Some x \<Rightarrow> (Ok x, s', q1) | None \<Rightarrow> (Err (fst (error_stack_get q1)), s', snd (error_stack_get q1))))"
  by (simp add: ecvt_new_def cvt_p_def fail_stack_def split: prod.split option.split)

lemma ctx_check_x509_apply:
  "ctx_check_x509 c w q =
    (if has_x509_support c w then (Ok (), w, q)
     else (Panicked ''This context is not configured for X.509 certificates'', w, q))"
  by (simp add: ctx_check_x509_def eassert_def ebind_def)

lemmas op_apply = ethen_def ebind_def ctx_check_x509_apply ecvt_apply ecvt_new_apply on_lib_def eassert_def

lemma same_world_lib: "same_view V (w_lib w) l \<Longrightarrow> same_world V w (w\<lparr>w_lib := l\<rparr>)"
  by (simp add: same_world_def)

lemma ctx_set_verify_cert_store_effect:
  assumes "stores_ok A V" "ctx_set_verify_cert_store A c st w q = (r, w', q')"
  shows "same_world V w w' \<or>
    (\<exists>l. w' = w\<lparr>w_lib := l, w_verify_store := (w_verify_store w)(c := Some st)\<rparr> \<and>
      stores_of V l = stores_of V (w_lib w) \<and> ssl_of V l = ssl_of V (w_lib w) \<and>
      ctx_of V l = (ctx_of V (w_lib w))(c := map_option (\<lambda>(cs, _). (cs, Some st)) (ctx_of V (w_lib w) c)))"
proof -
  obtain n u l q1 where call: "SSL_CTX_set1_verify_cert_store A c st (w_lib w) q = ((n, u), l, q1)"
    by (metis prod.collapse)
  have laws: "if n > 0 then stores_of V l = stores_of V (w_lib w) \<and> ssl_of V l = ssl_of V (w_lib w) \<and>
      ctx_of V l = (ctx_of V (w_lib w))(c := map_option (\<lambda>(cs, _). (cs, Some st)) (ctx_of V (w_lib w) c))
    else same_view V (w_lib w) l"
    using assms(1) call unfolding stores_ok_def ctx_stores_ok_def by meson
  have "w' = (if \<not> has_x509_support c w then w else if n > 0
      then w\<lparr>w_lib := l, w_verify_store := (w_verify_store w)(c := Some st)\<rparr> else w\<lparr>w_lib := l\<rparr>)"
    using assms(2) call by (auto simp: ctx_set_verify_cert_store_def op_apply split: if_splits)
  then show ?thesis
    using laws same_world_lib[of V w l] by (auto split: if_splits)
qed

lemma set_cert_store_effect:
  assumes "stores_ok A V"
    "set_cert_store A c st w q = (r, w', q') \<and> b \<or> set_cert_store_builder A c st w q = (r, w', q') \<and> \<not> b"
  shows "w' = w \<or>
    (\<exists>l. w' = w\<lparr>w_lib := l, w_has_shared := (w_has_shared w)(c := b)\<rparr> \<and>
      stores_of V l = stores_of V (w_lib w) \<and> ssl_of V l = ssl_of V (w_lib w) \<and>
      ctx_of V l = (ctx_of V (w_lib w))(c := map_option (\<lambda>(_, vs). (st, vs)) (ctx_of V (w_lib w) c)))"
proof -
  let ?l = "SSL_CTX_set_cert_store A c st (w_lib w)"
  have laws: "stores_of V ?l = stores_of V (w_lib w)" "ssl_of V ?l = ssl_of V (w_lib w)"
      "ctx_of V ?l = (ctx_of V (w_lib w))(c := map_option (\<lambda>(_, vs). (st, vs)) (ctx_of V (w_lib w) c))"
    using assms(1) unfolding stores_ok_def ctx_stores_ok_def by blast+
  have "w' = w \<or> w' = w\<lparr>w_lib := ?l, w_has_shared := (w_has_shared w)(c := b)\<rparr>"
    using assms(2) by (cases b) (auto simp: set_cert_store_def set_cert_store_builder_def op_apply split: if_splits)
  then show ?thesis using laws by blast
qed

lemma context_builder_new_effect:
  assumes "stores_ok A V" "context_builder_new A x509 w q = (r, w', q')"
  shows "(case r of
       Ok c \<Rightarrow> ctx_of V (w_lib w) c = None \<and> ssl_of V (w_lib w') = ssl_of V (w_lib w) \<and>
         w_ssl_verify_store w' = w_ssl_verify_store w \<and> w_verify_store w' = (w_verify_store w)(c := None) \<and>
         w_has_shared w' = (w_has_shared w)(c := False) \<and>
         (\<exists>st. st \<notin> stores_of V (w_lib w) \<and> stores_of V (w_lib w') = insert st (stores_of V (w_lib w)) \<and>
            ctx_of V (w_lib w') = (ctx_of V (w_lib w))(c := Some (st, None)))
     | _ \<Rightarrow> same_world V w w')"
proof -
  obtain p l q1 where call: "SSL_CTX_new A (w_lib w) q = (p, l, q1)" by (metis prod.collapse)
  have laws: "case p of None \<Rightarrow> same_view V (w_lib w) l
      | Some c \<Rightarrow> ctx_of V (w_lib w) c = None \<and> ssl_of V l = ssl_of V (w_lib w) \<and>
          (\<exists>st. st \<notin> stores_of V (w_lib w) \<and> stores_of V l = insert st (stores_of V (w_lib w)) \<and>
                ctx_of V l = (ctx_of V (w_lib w))(c := Some (st, None)))"
    using assms(1) call unfolding stores_ok_def ctx_new_ok_def by blast
  show ?thesis
    using assms(2) call laws same_world_lib[of V w l]
    by (cases p) (auto simp: context_builder_new_def op_apply builder_from_ptr_def assume_x509_def split: if_splits)
qed

lemma store_builder_new_effect:
  assumes "stores_ok A V" "store_builder_new A w q = (r, w', q')"
  shows "(case r of
       Ok st \<Rightarrow> (\<exists>l. w' = w\<lparr>w_lib := l\<rparr> \<and> st \<notin> stores_of V (w_lib w) \<and> stores_of V l = insert st (stores_of V (w_lib w)) \<and>
         ctx_of V l = ctx_of V (w_lib w) \<and> ssl_of V l = ssl_of V (w_lib w))
     | _ \<Rightarrow> same_world V w w')"
proof -
  obtain p l q1 where call: "X509_STORE_new A (w_lib w) q = (p, l, q1)" by (metis prod.collapse)
  have laws: "case p of None \<Rightarrow> same_view V (w_lib w) l
      | Some st \<Rightarrow> st \<notin> stores_of V (w_lib w) \<and> stores_of V l = insert st (stores_of V (w_lib w)) \<and>
          ctx_of V l = ctx_of V (w_lib w) \<and> ssl_of V l = ssl_of V (w_lib w)"
    using assms(1) call unfolding stores_ok_def store_new_ok_def by blast
  show ?thesis
    using assms(2) call laws same_world_lib[of V w l]
    by (cases p) (auto simp: store_builder_new_def op_apply)
qed

lemma ssl_create_effect:
  assumes "stores_ok A V" "ctx_of V (w_lib w) c = Some (cs, vs)" "ssl_create A c w q = (r, w', q')"
  shows "(case r of
       Ok s \<Rightarrow> (\<exists>l. w' = w\<lparr>w_lib := l, w_ssl_verify_store := (w_ssl_verify_store w)(s := None)\<rparr> \<and>
         ssl_of V (w_lib w) s = None \<and> ctx_of V l = ctx_of V (w_lib w) \<and> stores_of V l = stores_of V (w_lib w) \<and>
         ssl_of V l = (ssl_of V (w_lib w))(s := Some (c, vs)))
     | _ \<Rightarrow> same_world V w w')"
proof -
  obtain p l q1 where call: "SSL_new A c (w_lib w) q = (p, l, q1)" by (metis prod.collapse)
  have laws: "case p of None \<Rightarrow> same_view V (w_lib w) l
      | Some s \<Rightarrow> ssl_of V (w_lib w) s = None \<and> ctx_of V l = ctx_of V (w_lib w) \<and> stores_of V l = stores_of V (w_lib w) \<and>
          ssl_of V l = (ssl_of V (w_lib w))(s := Some (c, vs))"
    using assms(1,2) call unfolding stores_ok_def ssl_new_ok_def by blast
  show ?thesis
    using assms(3) call laws same_world_lib[of V w l]
    by (cases p) (auto simp: ssl_create_def op_apply)
qed

lemma ssl_set_verify_cert_store_effect:
  assumes "stores_ok A V" "ssl_of V (w_lib w) s = Some (c, vs)" "ssl_set_verify_cert_store A s st w q = (r, w', q')"
  shows "same_world V w w' \<or>
    (\<exists>l. w' = w\<lparr>w_lib := l, w_ssl_verify_store := (w_ssl_verify_store w)(s := Some (Some st))\<rparr> \<and>
      stores_of V l = stores_of V (w_lib w) \<and> ctx_of V l = ctx_of V (w_lib w) \<and>
      ssl_of V l = (ssl_of V (w_lib w))(s := Some (c, Some st)))"
proof -
  obtain n u l q1 where call: "SSL_set1_verify_cert_store A s st (w_lib w) q = ((n, u), l, q1)"
    by (metis prod.collapse)
  have laws: "if n > 0 then stores_of V l = stores_of V (w_lib w) \<and> ctx_of V l = ctx_of V (w_lib w) \<and>
      ssl_of V l = (ssl_of V (w_lib w))(s := map_option (\<lambda>(c, _). (c, Some st)) (ssl_of V (w_lib w) s))
    else same_view V (w_lib w) l"
    using assms(1) call unfolding stores_ok_def ssl_stores_ok_def by meson
  let ?c = "ssl_context A s w"
  have "w' = (if \<not> has_x509_support ?c w then w else if n > 0
      then w\<lparr>w_lib := l, w_ssl_verify_store := (w_ssl_verify_store w)(s := Some (Some st))\<rparr> else w\<lparr>w_lib := l\<rparr>)"
    using assms(3) call by (auto simp: ssl_set_verify_cert_store_def op_apply split: if_splits)
  then show ?thesis
    using laws assms(2) same_world_lib[of V w l] by (auto split: if_splits)
qed

lemma set_ssl_context_effect:
  assumes "stores_ok A V" "ssl_of V (w_lib w) s = Some (c0, vs0)" "ctx_of V (w_lib w) c = Some (cs, vs)"
    "set_ssl_context A s c w q = (r, w', q')"
  shows "same_world V w w' \<or>
    (\<exists>l. w' = w\<lparr>w_lib := l, w_ssl_verify_store :=
        (case w_ssl_verify_store w s of Some _ \<Rightarrow> (w_ssl_verify_store w)(s := Some None) | None \<Rightarrow> w_ssl_verify_store w)\<rparr> \<and>
      stores_of V l = stores_of V (w_lib w) \<and> ctx_of V l = ctx_of V (w_lib w) \<and>
      ssl_of V l = (ssl_of V (w_lib w))(s := Some (c, vs)))"
proof -
  obtain p l q1 where call: "SSL_set_SSL_CTX A s c (w_lib w) q = (p, l, q1)" by (metis prod.collapse)
  have laws: "if p = None \<or> c0 = c then same_view V (w_lib w) l
      else stores_of V l = stores_of V (w_lib w) \<and> ctx_of V l = ctx_of V (w_lib w) \<and>
        ssl_of V l = (ssl_of V (w_lib w))(s := Some (c, vs))"
    using assms(1-3) call unfolding stores_ok_def ssl_ctx_ok_def by meson
  have c0: "ssl_context A s w = c0"
    using assms(1,2) unfolding stores_ok_def ssl_stores_ok_def ssl_context_def by blast
  have "w' = w \<or> (p = None \<or> c0 = c) \<and> w' = w\<lparr>w_lib := l\<rparr> \<or> p \<noteq> None \<and> c0 \<noteq> c \<and>
      w' = w\<lparr>w_lib := l, w_ssl_verify_store :=
        (case w_ssl_verify_store w s of Some _ \<Rightarrow> (w_ssl_verify_store w)(s := Some None) | None \<Rightarrow> w_ssl_verify_store w)\<rparr>"
    using assms(4) call c0
    by (cases p; cases "w_ssl_verify_store w s") (auto simp: set_ssl_context_def op_apply split: if_splits)
  then show ?thesis
    using laws same_world_lib[of V w l] by auto
qed

section \<open>Every step keeps the invariants\<close>

lemma store_inv_parts:
  assumes "store_inv V S"
  shows "sets_inv (stores_of V (w_lib (vs_world S))) (vs_building S) (vs_built S) (vs_builders S) (vs_frozen S)"
    "ctxs_inv (ctx_of V (w_lib (vs_world S))) (w_verify_store (vs_world S)) (vs_building S \<union> vs_built S)
       (stores_of V (w_lib (vs_world S)) - vs_builders S)"
    "own_inv (store_at (ctx_of V (w_lib (vs_world S)))) (w_has_shared (vs_world S)) (vs_building S)
       (vs_building S \<union> vs_built S) (vs_frozen S)"
    "ssls_inv (ssl_of V (w_lib (vs_world S))) (w_ssl_verify_store (vs_world S)) (w_verify_store (vs_world S))
       (vs_built S) (vs_ssls S)"
  using assms by (simp_all add: store_inv_def Let_def)

lemma store_inv_ctx:
  assumes "store_inv V S" "c \<in> vs_building S \<union> vs_built S"
  obtains cs where "ctx_of V (w_lib (vs_world S)) c = Some (cs, w_verify_store (vs_world S) c)"
    "cs \<in> stores_of V (w_lib (vs_world S))" "cs \<notin> vs_builders S"
  using store_inv_parts(2)[OF assms(1)] assms(2) unfolding ctxs_inv_def by blast

lemma store_inv_ssl:
  assumes "store_inv V S" "s \<in> vs_ssls S"
  obtains c where "c \<in> vs_built S"
    "ssl_of V (w_lib (vs_world S)) s = Some (c, own_store (w_ssl_verify_store (vs_world S)) (w_verify_store (vs_world S)) s c)"
  using store_inv_parts(4)[OF assms(1)] assms(2) unfolding ssls_inv_def by blast

lemma step_new_context:
  assumes "stores_ok A V" "store_inv V S" "context_builder_new A x509 (vs_world S) q = (r, w', q')"
  shows "store_inv V (S\<lparr>vs_world := w', vs_building := new_in r (vs_building S)\<rparr>)"
proof (cases r)
  case (Ok c)
  note parts = store_inv_parts[OF assms(2)]
  from context_builder_new_effect[OF assms(1,3)] Ok obtain st where eff:
    "ctx_of V (w_lib (vs_world S)) c = None" "ssl_of V (w_lib w') = ssl_of V (w_lib (vs_world S))"
    "w_ssl_verify_store w' = w_ssl_verify_store (vs_world S)" "w_verify_store w' = (w_verify_store (vs_world S))(c := None)"
    "w_has_shared w' = (w_has_shared (vs_world S))(c := False)" "st \<notin> stores_of V (w_lib (vs_world S))"
    "stores_of V (w_lib w') = insert st (stores_of V (w_lib (vs_world S)))"
    "ctx_of V (w_lib w') = (ctx_of V (w_lib (vs_world S)))(c := Some (st, None))" by auto
  have c: "c \<notin> vs_building S \<union> vs_built S" using store_inv_ctx[OF assms(2), of c] eff(1) by auto
  have st: "st \<notin> vs_builders S" "st \<notin> vs_frozen S" using parts(1) eff(6) by (auto simp: sets_inv_def)
  have other: "\<forall>c'\<in>vs_building S \<union> vs_built S. c' \<noteq> c \<longrightarrow> store_at (ctx_of V (w_lib (vs_world S))) c' \<noteq> Some st"
    using ctxs_inv_store[OF parts(2)] eff(6) by fastforce
  have "sets_inv (stores_of V (w_lib w')) (insert c (vs_building S)) (vs_built S) (vs_builders S) (vs_frozen S)"
    using parts(1) c eff(7) by (auto simp: sets_inv_def)
  moreover have "ctxs_inv (ctx_of V (w_lib w')) (w_verify_store w') (insert c (vs_building S \<union> vs_built S))
      (stores_of V (w_lib w') - vs_builders S)"
    unfolding eff by (rule ctxs_inv_new[OF parts(2)]) (use st in auto)
  moreover have "own_inv (store_at (ctx_of V (w_lib w'))) (w_has_shared w') (insert c (vs_building S))
      (insert c (vs_building S \<union> vs_built S)) (vs_frozen S)"
    unfolding eff store_at_upd by (rule own_inv_fresh[OF parts(3) _ st(2) other]) auto
  moreover have "ssls_inv (ssl_of V (w_lib w')) (w_ssl_verify_store w') (w_verify_store w') (vs_built S) (vs_ssls S)"
    unfolding eff by (rule ssls_inv_other[OF parts(4)]) (use c in auto)
  ultimately show ?thesis using Ok by (simp add: store_inv_def Let_def)
qed (use context_builder_new_effect[OF assms(1,3)] store_inv_same[OF assms(2)] in auto)

lemma step_new_store:
  assumes "stores_ok A V" "store_inv V S" "store_builder_new A (vs_world S) q = (r, w', q')"
  shows "store_inv V (S\<lparr>vs_world := w', vs_builders := new_in r (vs_builders S)\<rparr>)"
proof (cases r)
  case (Ok st)
  note parts = store_inv_parts[OF assms(2)]
  from store_builder_new_effect[OF assms(1,3)] Ok obtain l where eff:
    "w' = vs_world S\<lparr>w_lib := l\<rparr>" "st \<notin> stores_of V (w_lib (vs_world S))"
    "stores_of V l = insert st (stores_of V (w_lib (vs_world S)))"
    "ctx_of V l = ctx_of V (w_lib (vs_world S))" "ssl_of V l = ssl_of V (w_lib (vs_world S))" by auto
  have "sets_inv (stores_of V l) (vs_building S) (vs_built S) (insert st (vs_builders S)) (vs_frozen S)"
    using parts(1) eff(2,3) by (auto simp: sets_inv_def)
  moreover have "ctxs_inv (ctx_of V l) (w_verify_store (vs_world S)) (vs_building S \<union> vs_built S)
      (stores_of V l - insert st (vs_builders S))"
    unfolding eff by (rule ctxs_inv_mono[OF parts(2)]) (use eff(2) in auto)
  ultimately show ?thesis using Ok eff(1,4,5) parts(3,4) by (simp add: store_inv_def Let_def)
qed (use store_builder_new_effect[OF assms(1,3)] store_inv_same[OF assms(2)] in auto)

lemma step_build_store:
  assumes "store_inv V S" "st \<in> vs_builders S"
  shows "store_inv V (S\<lparr>vs_builders := vs_builders S - {st}, vs_frozen := insert st (vs_frozen S)\<rparr>)"
proof -
  note parts = store_inv_parts[OF assms(1)]
  have "sets_inv (stores_of V (w_lib (vs_world S))) (vs_building S) (vs_built S) (vs_builders S - {st}) (insert st (vs_frozen S))"
    using parts(1) assms(2) by (auto simp: sets_inv_def)
  moreover have "ctxs_inv (ctx_of V (w_lib (vs_world S))) (w_verify_store (vs_world S)) (vs_building S \<union> vs_built S)
      (stores_of V (w_lib (vs_world S)) - (vs_builders S - {st}))"
    by (rule ctxs_inv_mono[OF parts(2)]) auto
  moreover have "own_inv (store_at (ctx_of V (w_lib (vs_world S)))) (w_has_shared (vs_world S)) (vs_building S)
      (vs_building S \<union> vs_built S) (insert st (vs_frozen S))"
    by (rule own_inv_freeze[OF parts(3)]) (use ctxs_inv_store[OF parts(2)] assms(2) in fastforce)
  ultimately show ?thesis using parts(4) by (simp add: store_inv_def Let_def)
qed

lemma step_context_verify_store:
  assumes "stores_ok A V" "store_inv V S" "c \<in> vs_building S"
    "ctx_set_verify_cert_store A c st (vs_world S) q = (r, w', q')"
  shows "store_inv V (S\<lparr>vs_world := w'\<rparr>)"
  using ctx_set_verify_cert_store_effect[OF assms(1,4)]
proof
  assume "\<exists>l. w' = vs_world S\<lparr>w_lib := l, w_verify_store := (w_verify_store (vs_world S))(c := Some st)\<rparr> \<and>
      stores_of V l = stores_of V (w_lib (vs_world S)) \<and> ssl_of V l = ssl_of V (w_lib (vs_world S)) \<and>
      ctx_of V l = (ctx_of V (w_lib (vs_world S)))(c := map_option (\<lambda>(cs, _). (cs, Some st)) (ctx_of V (w_lib (vs_world S)) c))"
  then obtain l where eff: "w' = vs_world S\<lparr>w_lib := l, w_verify_store := (w_verify_store (vs_world S))(c := Some st)\<rparr>"
    "stores_of V l = stores_of V (w_lib (vs_world S))" "ssl_of V l = ssl_of V (w_lib (vs_world S))"
    "ctx_of V l = (ctx_of V (w_lib (vs_world S)))(c := map_option (\<lambda>(cs, _). (cs, Some st)) (ctx_of V (w_lib (vs_world S)) c))"
    by blast
  note parts = store_inv_parts[OF assms(2)]
  have c: "c \<notin> vs_built S" using assms(3) parts(1) by (auto simp: sets_inv_def)
  show ?thesis
    using parts(1,3) ctxs_inv_verify[OF parts(2), of c st] ssls_inv_other[OF parts(4) c, of "Some st"]
    unfolding eff(1) store_inv_def Let_def by (simp add: eff(2-4) store_at_upd)
qed (rule store_inv_same[OF assms(2)])

lemma step_shared_store:
  assumes "stores_ok A V" "store_inv V S" "c \<in> vs_building S" "st \<in> vs_frozen S"
    "set_cert_store A c st (vs_world S) q = (r, w', q')"
  shows "store_inv V (S\<lparr>vs_world := w'\<rparr>)"
proof -
  from set_cert_store_effect[OF assms(1), of c st "vs_world S" q r w' q' True] assms(5)
  consider "w' = vs_world S" | l where "w' = vs_world S\<lparr>w_lib := l, w_has_shared := (w_has_shared (vs_world S))(c := True)\<rparr>"
    "stores_of V l = stores_of V (w_lib (vs_world S))" "ssl_of V l = ssl_of V (w_lib (vs_world S))"
    "ctx_of V l = (ctx_of V (w_lib (vs_world S)))(c := map_option (\<lambda>(_, vs). (st, vs)) (ctx_of V (w_lib (vs_world S)) c))"
    by blast
  then show ?thesis
  proof cases
    case 1
    then show ?thesis using assms(2) by simp
  next
    case (2 l)
    note parts = store_inv_parts[OF assms(2)]
    have st: "st \<in> stores_of V (w_lib (vs_world S)) - vs_builders S"
      using parts(1) assms(4) by (auto simp: sets_inv_def)
    obtain cs vs where ctx: "ctx_of V (w_lib (vs_world S)) c = Some (cs, vs)"
      using store_inv_ctx[OF assms(2), of c] assms(3) by blast
    show ?thesis
      using parts(1,4) ctxs_inv_set[OF parts(2) st order_refl, of c] own_inv_shared[OF parts(3) assms(4), of c] ctx
      unfolding 2(1) store_inv_def Let_def by (simp add: 2(2-4) store_at_upd)
  qed
qed

lemma step_own_store:
  assumes "stores_ok A V" "store_inv V S" "c \<in> vs_building S" "st \<in> vs_builders S"
    "set_cert_store_builder A c st (vs_world S) q = (r, w', q')"
  shows "store_inv V (S\<lparr>vs_world := w', vs_builders := vs_builders S - {st}\<rparr>)"
proof -
  note parts = store_inv_parts[OF assms(2)]
  have st: "st \<in> stores_of V (w_lib (vs_world S)) - (vs_builders S - {st})" "st \<notin> vs_frozen S"
    using parts(1) assms(4) by (auto simp: sets_inv_def)
  have sets: "sets_inv (stores_of V (w_lib (vs_world S))) (vs_building S) (vs_built S) (vs_builders S - {st}) (vs_frozen S)"
    using parts(1) by (auto simp: sets_inv_def)
  have ctxs: "ctxs_inv (ctx_of V (w_lib (vs_world S))) (w_verify_store (vs_world S)) (vs_building S \<union> vs_built S)
      (stores_of V (w_lib (vs_world S)) - (vs_builders S - {st}))"
    by (rule ctxs_inv_mono[OF parts(2)]) auto
  from set_cert_store_effect[OF assms(1), of c st "vs_world S" q r w' q' False] assms(5)
  consider "w' = vs_world S" | l where
    "w' = vs_world S\<lparr>w_lib := l, w_has_shared := (w_has_shared (vs_world S))(c := False)\<rparr>"
    "stores_of V l = stores_of V (w_lib (vs_world S))" "ssl_of V l = ssl_of V (w_lib (vs_world S))"
    "ctx_of V l = (ctx_of V (w_lib (vs_world S)))(c := map_option (\<lambda>(_, vs). (st, vs)) (ctx_of V (w_lib (vs_world S)) c))"
    by blast
  then show ?thesis
  proof cases
    case 1
    then show ?thesis using sets ctxs parts(3,4) by (simp add: store_inv_def Let_def)
  next
    case (2 l)
    obtain cs vs where ctx: "ctx_of V (w_lib (vs_world S)) c = Some (cs, vs)"
      using store_inv_ctx[OF assms(2), of c] assms(3) by blast
    have other: "\<forall>c'\<in>vs_building S \<union> vs_built S. c' \<noteq> c \<longrightarrow> store_at (ctx_of V (w_lib (vs_world S))) c' \<noteq> Some st"
      using ctxs_inv_store[OF parts(2)] assms(4) by fastforce
    have "own_inv ((store_at (ctx_of V (w_lib (vs_world S))))(c := Some st)) ((w_has_shared (vs_world S))(c := False))
        (vs_building S) (vs_building S \<union> vs_built S) (vs_frozen S)"
      using own_inv_fresh[OF parts(3) _ st(2) other] assms(3) by (simp add: insert_absorb)
    then show ?thesis
      using sets parts(4) ctxs_inv_set[OF ctxs st(1) order_refl, of c] ctx
      unfolding 2(1) store_inv_def Let_def by (simp add: 2(2-4) store_at_upd)
  qed
qed


lemma step_build:
  assumes "stores_ok A V" "store_inv V S" "c \<in> vs_building S" "ctx_cert_store A c (vs_world S) q = (r, w', q')"
  shows "store_inv V (S\<lparr>vs_building := vs_building S - {c}, vs_built := insert c (vs_built S),
    vs_frozen := new_in r (vs_frozen S)\<rparr>)"
proof -
  note parts = store_inv_parts[OF assms(2)]
  let ?l = "w_lib (vs_world S)" and ?ws = "vs_world S"
  obtain cs where ctx: "ctx_of V ?l c = Some (cs, w_verify_store ?ws c)" "cs \<in> stores_of V ?l" "cs \<notin> vs_builders S"
    using store_inv_ctx[OF assms(2), of c] assms(3) by blast
  have "SSL_CTX_get_cert_store A ?l c = cs"
    using assms(1) ctx(1) unfolding stores_ok_def ctx_stores_ok_def by blast
  then have r: "new_in r (vs_frozen S) = vs_frozen S \<or> new_in r (vs_frozen S) = insert cs (vs_frozen S)"
    using assms(4) by (auto simp: ctx_cert_store_def op_apply split: if_splits)
  have live: "insert c (vs_building S - {c} \<union> vs_built S) = vs_building S \<union> vs_built S" using assms(3) by auto
  have "sets_inv (stores_of V ?l) (vs_building S - {c}) (insert c (vs_built S)) (vs_builders S) (new_in r (vs_frozen S))"
    using parts(1) r ctx(2,3) by (auto simp: sets_inv_def)
  moreover have "own_inv (store_at (ctx_of V ?l)) (w_has_shared ?ws) (vs_building S - {c}) (vs_building S \<union> vs_built S)
      (new_in r (vs_frozen S))"
  proof -
    have own: "own_inv (store_at (ctx_of V ?l)) (w_has_shared ?ws) (vs_building S - {c}) (vs_building S \<union> vs_built S) (vs_frozen S)"
      by (rule own_inv_mono[OF parts(3)]) auto
    have "store_at (ctx_of V ?l) c' \<noteq> Some cs" if "c' \<in> vs_building S - {c}" "\<not> w_has_shared ?ws c'" for c'
      using parts(3) that assms(3) ctx(1) by (auto simp: own_inv_def store_at_def)
    then have "own_inv (store_at (ctx_of V ?l)) (w_has_shared ?ws) (vs_building S - {c}) (vs_building S \<union> vs_built S)
        (insert cs (vs_frozen S))"
      by (intro own_inv_freeze[OF own]) auto
    then show ?thesis using r own by metis
  qed
  ultimately show ?thesis
    using parts(2) ssls_inv_mono[OF parts(4) subset_insertI] by (simp add: store_inv_def Let_def live)
qed

lemma step_new_connection:
  assumes "stores_ok A V" "store_inv V S" "c \<in> vs_built S" "ssl_create A c (vs_world S) q = (r, w', q')"
  shows "store_inv V (S\<lparr>vs_world := w', vs_ssls := new_in r (vs_ssls S)\<rparr>)"
proof -
  note parts = store_inv_parts[OF assms(2)]
  obtain cs where ctx: "ctx_of V (w_lib (vs_world S)) c = Some (cs, w_verify_store (vs_world S) c)"
    using store_inv_ctx[OF assms(2), of c] assms(3) by blast
  note eff = ssl_create_effect[OF assms(1) ctx assms(4)]
  show ?thesis
  proof (cases r)
    case (Ok s)
    with eff obtain l where l:
      "w' = vs_world S\<lparr>w_lib := l, w_ssl_verify_store := (w_ssl_verify_store (vs_world S))(s := None)\<rparr>"
      "ssl_of V (w_lib (vs_world S)) s = None" "ctx_of V l = ctx_of V (w_lib (vs_world S))"
      "stores_of V l = stores_of V (w_lib (vs_world S))"
      "ssl_of V l = (ssl_of V (w_lib (vs_world S)))(s := Some (c, w_verify_store (vs_world S) c))" by auto
    show ?thesis
      using Ok parts(1-3) ssls_inv_new[OF parts(4) l(2) assms(3)]
      unfolding l(1) store_inv_def Let_def by (simp add: l(3-5))
  qed (use eff store_inv_same[OF assms(2)] in auto)
qed

lemma step_connection_store:
  assumes "stores_ok A V" "store_inv V S" "s \<in> vs_ssls S" "ssl_set_verify_cert_store A s st (vs_world S) q = (r, w', q')"
  shows "store_inv V (S\<lparr>vs_world := w'\<rparr>)"
proof -
  note parts = store_inv_parts[OF assms(2)]
  obtain c vs where ssl: "ssl_of V (w_lib (vs_world S)) s = Some (c, vs)" using store_inv_ssl[OF assms(2,3)] by blast
  from ssl_set_verify_cert_store_effect[OF assms(1) ssl assms(4)] show ?thesis
  proof
    assume "\<exists>l. w' = vs_world S\<lparr>w_lib := l, w_ssl_verify_store := (w_ssl_verify_store (vs_world S))(s := Some (Some st))\<rparr> \<and>
      stores_of V l = stores_of V (w_lib (vs_world S)) \<and> ctx_of V l = ctx_of V (w_lib (vs_world S)) \<and>
      ssl_of V l = (ssl_of V (w_lib (vs_world S)))(s := Some (c, Some st))"
    then obtain l where l: "w' = vs_world S\<lparr>w_lib := l, w_ssl_verify_store := (w_ssl_verify_store (vs_world S))(s := Some (Some st))\<rparr>"
      "stores_of V l = stores_of V (w_lib (vs_world S))" "ctx_of V l = ctx_of V (w_lib (vs_world S))"
      "ssl_of V l = (ssl_of V (w_lib (vs_world S)))(s := Some (c, Some st))" by blast
    show ?thesis
      using parts(1-3) ssls_inv_set[OF parts(4) ssl, of st] unfolding l(1) store_inv_def Let_def by (simp add: l(2-4))
  qed (rule store_inv_same[OF assms(2)])
qed

lemma step_change_context:
  assumes "stores_ok A V" "store_inv V S" "s \<in> vs_ssls S" "c \<in> vs_built S" "set_ssl_context A s c (vs_world S) q = (r, w', q')"
  shows "store_inv V (S\<lparr>vs_world := w'\<rparr>)"
proof -
  note parts = store_inv_parts[OF assms(2)]
  let ?ss = "w_ssl_verify_store (vs_world S)"
  obtain c0 vs where ssl: "ssl_of V (w_lib (vs_world S)) s = Some (c0, vs)" using store_inv_ssl[OF assms(2,3)] by blast
  obtain cs where ctx: "ctx_of V (w_lib (vs_world S)) c = Some (cs, w_verify_store (vs_world S) c)"
    using store_inv_ctx[OF assms(2), of c] assms(4) by blast
  from set_ssl_context_effect[OF assms(1) ssl ctx assms(5)] show ?thesis
  proof
    assume "\<exists>l. w' = vs_world S\<lparr>w_lib := l, w_ssl_verify_store := (case ?ss s of Some _ \<Rightarrow> ?ss(s := Some None) | None \<Rightarrow> ?ss)\<rparr> \<and>
      stores_of V l = stores_of V (w_lib (vs_world S)) \<and> ctx_of V l = ctx_of V (w_lib (vs_world S)) \<and>
      ssl_of V l = (ssl_of V (w_lib (vs_world S)))(s := Some (c, w_verify_store (vs_world S) c))"
    then obtain l where l: "w' = vs_world S\<lparr>w_lib := l, w_ssl_verify_store := (case ?ss s of Some _ \<Rightarrow> ?ss(s := Some None) | None \<Rightarrow> ?ss)\<rparr>"
      "stores_of V l = stores_of V (w_lib (vs_world S))" "ctx_of V l = ctx_of V (w_lib (vs_world S))"
      "ssl_of V l = (ssl_of V (w_lib (vs_world S)))(s := Some (c, w_verify_store (vs_world S) c))" by blast
    show ?thesis
      using parts(1-3) ssls_inv_change[OF parts(4) assms(4), of s] unfolding l(1) store_inv_def Let_def by (simp add: l(2-4))
  qed (rule store_inv_same[OF assms(2)])
qed

lemma store_step_inv: "store_step A S S' \<Longrightarrow> stores_ok A V \<Longrightarrow> store_inv V S \<Longrightarrow> store_inv V S'"
proof (induction rule: store_step.induct)
  case (new_context x509 S q r w' q') then show ?case by (metis step_new_context)
next
  case (new_store S q r w' q') then show ?case by (metis step_new_store)
next
  case (build_store st S) then show ?case by (metis step_build_store)
next
  case (context_verify_store c S st q r w' q') then show ?case by (metis step_context_verify_store)
next
  case (shared_store c S st q r w' q') then show ?case by (metis step_shared_store)
next
  case (exclusive_store c S st q r w' q') then show ?case by (metis step_own_store)
next
  case (build c S q r w' q') then show ?case by (metis step_build)
next
  case (new_connection c S q r w' q') then show ?case by (metis step_new_connection)
next
  case (connection_store s S st q r w' q') then show ?case by (metis step_connection_store)
next
  case (change_context s S c q r w' q') then show ?case by (metis step_change_context)
qed

lemma store_reachable_inv:
  assumes "stores_ok A V" "store_reachable A l S"
  shows "store_inv V S"
proof -
  have "store_inv V (fresh_state l)"
    by (simp add: store_inv_def fresh_state_def sets_inv_def ctxs_inv_def own_inv_def ssls_inv_def Let_def)
  with assms(2)[unfolded store_reachable_def] show ?thesis
    by (induction rule: rtranclp_induct) (use store_step_inv[OF _ assms(1)] in auto)
qed

section \<open>Properties\<close>

text \<open>
  However contexts and connections were configured, and whichever calls failed, the store that
  \<open>verify_peer_cert_chain\<close> takes is the one that BoringSSL's own verifier would take for the connection.
\<close>

lemma chosen_store_ok:
  assumes "stores_ok A V" "store_reachable A l S" "s \<in> vs_ssls S"
    "has_x509_support (ssl_context A s (vs_world S)) (vs_world S)"
  shows "\<exists>st. chosen_store A s (vs_world S) q = (Ok st, vs_world S, q) \<and> builtin_store V (w_lib (vs_world S)) s = Some st"
proof -
  let ?w = "vs_world S"
  note inv = store_reachable_inv[OF assms(1,2)]
  obtain c where c: "c \<in> vs_built S"
    "ssl_of V (w_lib ?w) s = Some (c, own_store (w_ssl_verify_store ?w) (w_verify_store ?w) s c)"
    using store_inv_ssl[OF inv assms(3)] by blast
  obtain cs where ctx: "ctx_of V (w_lib ?w) c = Some (cs, w_verify_store ?w c)"
    using store_inv_ctx[OF inv, of c] c(1) by blast
  have get: "ssl_context A s ?w = c" "SSL_CTX_get_cert_store A (w_lib ?w) c = cs"
    using assms(1) c(2) ctx unfolding stores_ok_def ssl_stores_ok_def ctx_stores_ok_def ssl_context_def by blast+
  show ?thesis
    using c(2) ctx get assms(4)
    by (auto simp: chosen_store_def ctx_cert_store_def op_apply builtin_store_def own_store_def split: option.splits)
qed

text \<open>
  C10: A store that \<open>cert_store_mut\<close> hands out is exclusive: it is no \<open>X509Store\<close>, which could be cloned and shared, it
  is in no other builder, and no other context has it.
\<close>

theorem mutable_store_is_exclusive:
  assumes "stores_ok A V" "store_reachable A l S" "c \<in> vs_building S"
    "cert_store_mut A c (vs_world S) q = (Ok st, w', q')"
  shows "st \<notin> vs_frozen S \<and> st \<notin> vs_builders S \<and>
    (\<forall>c'\<in>vs_building S \<union> vs_built S - {c}. SSL_CTX_get_cert_store A (w_lib (vs_world S)) c' \<noteq> st)"
proof -
  let ?w = "vs_world S"
  note inv = store_reachable_inv[OF assms(1,2)]
  have get: "SSL_CTX_get_cert_store A (w_lib ?w) c' = cs" if "ctx_of V (w_lib ?w) c' = Some (cs, vs)" for c' cs vs
    using assms(1) that unfolding stores_ok_def ctx_stores_ok_def by blast
  obtain cs where ctx: "ctx_of V (w_lib ?w) c = Some (cs, w_verify_store ?w c)" "cs \<notin> vs_builders S"
    using store_inv_ctx[OF inv, of c] assms(3) by blast
  have st: "st = cs" "\<not> w_has_shared ?w c"
    using assms(4) get[OF ctx(1)] by (auto simp: cert_store_mut_def op_apply split: if_splits)
  have own: "Some cs \<notin> Some ` vs_frozen S" "\<forall>c'\<in>vs_building S \<union> vs_built S. c' \<noteq> c \<longrightarrow> store_at (ctx_of V (w_lib ?w)) c' \<noteq> Some cs"
    using store_inv_parts(3)[OF inv] assms(3) st(2) ctx(1) by (auto simp: own_inv_def store_at_def)
  have "SSL_CTX_get_cert_store A (w_lib ?w) c' \<noteq> cs" if c': "c' \<in> vs_building S \<union> vs_built S" "c' \<noteq> c" for c'
  proof -
    obtain cs' where "ctx_of V (w_lib ?w) c' = Some (cs', w_verify_store ?w c')"
      using store_inv_ctx[OF inv, of c'] c'(1) by blast
    then show ?thesis using get own(2) c' by (fastforce simp: store_at_def)
  qed
  then show ?thesis using st(1) ctx(2) own(1) by auto
qed

section \<open>A library that keeps its objects in tables\<close>

record table_mem =
  tm_ctx :: "nat \<Rightarrow> (nat \<times> nat option) option"
  tm_ssl :: "nat \<Rightarrow> (nat \<times> nat option) option"
  tm_stores :: "nat list"
  tm_next :: nat

definition table_lib :: "table_mem store_api" where
  "table_lib =
     \<lparr>SSL_CTX_new = (\<lambda>l q.
        if tm_ctx l (tm_next l) = None \<and> tm_next l \<notin> set (tm_stores l)
        then (Some (tm_next l), l\<lparr>tm_ctx := (tm_ctx l)(tm_next l := Some (tm_next l, None)),
          tm_stores := tm_next l # tm_stores l, tm_next := tm_next l + 1\<rparr>, q)
        else (None, l, q)),
      SSL_CTX_set1_verify_cert_store = (\<lambda>c st l q.
        ((1, ()), l\<lparr>tm_ctx := (tm_ctx l)(c := map_option (\<lambda>(cs, _). (cs, Some st)) (tm_ctx l c))\<rparr>, q)),
      SSL_CTX_set_cert_store = (\<lambda>c st l. l\<lparr>tm_ctx := (tm_ctx l)(c := map_option (\<lambda>(_, vs). (st, vs)) (tm_ctx l c))\<rparr>),
      SSL_CTX_get_cert_store = (\<lambda>l c. case tm_ctx l c of Some (cs, _) \<Rightarrow> cs | None \<Rightarrow> 0),
      X509_STORE_new = (\<lambda>l q.
        if tm_next l \<notin> set (tm_stores l)
        then (Some (tm_next l), l\<lparr>tm_stores := tm_next l # tm_stores l, tm_next := tm_next l + 1\<rparr>, q) else (None, l, q)),
      SSL_new = (\<lambda>c l q.
        case tm_ctx l c of
          None \<Rightarrow> (None, l, q)
        | Some (cs, vs) \<Rightarrow>
            if tm_ssl l (tm_next l) = None
            then (Some (tm_next l), l\<lparr>tm_ssl := (tm_ssl l)(tm_next l := Some (c, vs)), tm_next := tm_next l + 1\<rparr>, q)
            else (None, l, q)),
      SSL_set1_verify_cert_store = (\<lambda>s st l q.
        ((1, ()), l\<lparr>tm_ssl := (tm_ssl l)(s := map_option (\<lambda>(c, _). (c, Some st)) (tm_ssl l s))\<rparr>, q)),
      SSL_set_SSL_CTX = (\<lambda>s c l q.
        case (tm_ssl l s, tm_ctx l c) of
          (Some (c0, _), Some (cs, vs)) \<Rightarrow>
            (Some c, if c0 = c then l else l\<lparr>tm_ssl := (tm_ssl l)(s := Some (c, vs))\<rparr>, q)
        | _ \<Rightarrow> (None, l, q)),
      SSL_get_SSL_CTX = (\<lambda>l s. case tm_ssl l s of Some (c, _) \<Rightarrow> c | None \<Rightarrow> 0)\<rparr>"

definition table_view :: "table_mem store_view" where
  "table_view = \<lparr>ctx_of = tm_ctx, ssl_of = tm_ssl, stores_of = (\<lambda>l. set (tm_stores l))\<rparr>"

lemma table_lib_ok: "stores_ok table_lib table_view"
proof -
  note defs = table_lib_def table_view_def same_view_def
  have "ctx_new_ok table_lib table_view" by (auto simp: ctx_new_ok_def defs split: if_splits)
  moreover have "store_new_ok table_lib table_view" by (auto simp: store_new_ok_def defs split: if_splits)
  moreover have "ctx_stores_ok table_lib table_view" by (auto simp: ctx_stores_ok_def defs)
  moreover have "ssl_new_ok table_lib table_view" by (auto simp: ssl_new_ok_def defs split: if_splits)
  moreover have "ssl_stores_ok table_lib table_view" by (auto simp: ssl_stores_ok_def defs)
  moreover have "ssl_ctx_ok table_lib table_view" by (auto simp: ssl_ctx_ok_def defs split: if_splits)
  ultimately show ?thesis by (simp add: stores_ok_def)
qed

definition table_start :: table_mem where
  "table_start = \<lparr>tm_ctx = Map.empty, tm_ssl = Map.empty, tm_stores = [], tm_next = 0\<rparr>"

text \<open>A context 0, a store 1 that becomes its verify store, and a connection 2.\<close>

definition world_with ::
    "(nat \<times> nat option) option \<Rightarrow> (nat \<times> nat option) option \<Rightarrow> nat list \<Rightarrow> nat \<Rightarrow> table_mem store_world" where
  "world_with ctx ssl stores next =
     \<lparr>w_lib = \<lparr>tm_ctx = Map.empty(0 := ctx), tm_ssl = Map.empty(2 := ssl), tm_stores = stores, tm_next = next\<rparr>,
      w_x509_flag = Map.empty(0 := (if ctx = None then None else Some True)),
      w_verify_store = Map.empty(0 := (case ctx of Some (_, vs) \<Rightarrow> vs | None \<Rightarrow> None)),
      w_ssl_verify_store = Map.empty, w_has_shared = (\<lambda>_. False)\<rparr>"

definition sample_state ::
    "table_mem store_world \<Rightarrow> nat set \<Rightarrow> nat set \<Rightarrow> nat set \<Rightarrow> nat set \<Rightarrow> nat set \<Rightarrow> table_mem store_state" where
  "sample_state w building built ssls builders frozen =
     \<lparr>vs_world = w, vs_building = building, vs_built = built, vs_ssls = ssls, vs_builders = builders, vs_frozen = frozen\<rparr>"

lemmas sample_simps = world_with_def op_apply table_lib_def has_x509_support_def

lemma sample_ops:
  "context_builder_new table_lib True (world_with None None [] 0) [] = (Ok 0, world_with (Some (0, None)) None [0] 1, [])"
  "store_builder_new table_lib (world_with (Some (0, None)) None [0] 1) [] =
     (Ok 1, world_with (Some (0, None)) None [1, 0] 2, [])"
  "ctx_set_verify_cert_store table_lib 0 1 (world_with (Some (0, None)) None [1, 0] 2) [] =
     (Ok (), world_with (Some (0, Some 1)) None [1, 0] 2, [])"
  "ctx_cert_store table_lib 0 (world_with (Some (0, Some 1)) None [1, 0] 2) [] =
     (Ok 0, world_with (Some (0, Some 1)) None [1, 0] 2, [])"
  "ssl_create table_lib 0 (world_with (Some (0, Some 1)) None [1, 0] 2) [] =
     (Ok 2, world_with (Some (0, Some 1)) (Some (0, Some 1)) [1, 0] 3, [])"
  "cert_store_mut table_lib 0 (world_with (Some (0, None)) None [0] 1) [] =
     (Ok 0, world_with (Some (0, None)) None [0] 1, [])"
  by (simp_all add: sample_simps context_builder_new_def builder_from_ptr_def assume_x509_def store_builder_new_def
      ctx_set_verify_cert_store_def ctx_cert_store_def ssl_create_def cert_store_mut_def fun_eq_iff)

lemma sample_steps:
  "store_step table_lib (fresh_state table_start) (sample_state (world_with (Some (0, None)) None [0] 1) {0} {} {} {} {})"
  "store_step table_lib (sample_state (world_with (Some (0, None)) None [0] 1) {0} {} {} {} {})
     (sample_state (world_with (Some (0, None)) None [1, 0] 2) {0} {} {} {1} {})"
  "store_step table_lib (sample_state (world_with (Some (0, None)) None [1, 0] 2) {0} {} {} {1} {})
     (sample_state (world_with (Some (0, None)) None [1, 0] 2) {0} {} {} {} {1})"
  "store_step table_lib (sample_state (world_with (Some (0, None)) None [1, 0] 2) {0} {} {} {} {1})
     (sample_state (world_with (Some (0, Some 1)) None [1, 0] 2) {0} {} {} {} {1})"
  "store_step table_lib (sample_state (world_with (Some (0, Some 1)) None [1, 0] 2) {0} {} {} {} {1})
     (sample_state (world_with (Some (0, Some 1)) None [1, 0] 2) {} {0} {} {} {0, 1})"
  "store_step table_lib (sample_state (world_with (Some (0, Some 1)) None [1, 0] 2) {} {0} {} {} {0, 1})
     (sample_state (world_with (Some (0, Some 1)) (Some (0, Some 1)) [1, 0] 3) {} {0} {2} {} {0, 1})"
proof -
  have start: "fresh_state table_start = sample_state (world_with None None [] 0) {} {} {} {} {}"
    by (simp add: fresh_state_def table_start_def sample_state_def world_with_def)
  show "store_step table_lib (fresh_state table_start) (sample_state (world_with (Some (0, None)) None [0] 1) {0} {} {} {} {})"
    using store_step.new_context[of table_lib True "sample_state (world_with None None [] 0) {} {} {} {} {}" "[]"] sample_ops(1)
    unfolding start by (simp add: sample_state_def)
  show "store_step table_lib (sample_state (world_with (Some (0, None)) None [0] 1) {0} {} {} {} {})
     (sample_state (world_with (Some (0, None)) None [1, 0] 2) {0} {} {} {1} {})"
    using store_step.new_store[of table_lib "sample_state (world_with (Some (0, None)) None [0] 1) {0} {} {} {} {}" "[]"]
      sample_ops(2) by (simp add: sample_state_def)
  show "store_step table_lib (sample_state (world_with (Some (0, None)) None [1, 0] 2) {0} {} {} {1} {})
     (sample_state (world_with (Some (0, None)) None [1, 0] 2) {0} {} {} {} {1})"
    using store_step.build_store[of 1 "sample_state (world_with (Some (0, None)) None [1, 0] 2) {0} {} {} {1} {}" table_lib]
    by (simp add: sample_state_def)
  show "store_step table_lib (sample_state (world_with (Some (0, None)) None [1, 0] 2) {0} {} {} {} {1})
     (sample_state (world_with (Some (0, Some 1)) None [1, 0] 2) {0} {} {} {} {1})"
    using store_step.context_verify_store[of 0 "sample_state (world_with (Some (0, None)) None [1, 0] 2) {0} {} {} {} {1}" 1
        table_lib "[]"] sample_ops(3) by (simp add: sample_state_def)
  show "store_step table_lib (sample_state (world_with (Some (0, Some 1)) None [1, 0] 2) {0} {} {} {} {1})
     (sample_state (world_with (Some (0, Some 1)) None [1, 0] 2) {} {0} {} {} {0, 1})"
    using store_step.build[of 0 "sample_state (world_with (Some (0, Some 1)) None [1, 0] 2) {0} {} {} {} {1}" table_lib "[]"]
      sample_ops(4) by (simp add: sample_state_def)
  show "store_step table_lib (sample_state (world_with (Some (0, Some 1)) None [1, 0] 2) {} {0} {} {} {0, 1})
     (sample_state (world_with (Some (0, Some 1)) (Some (0, Some 1)) [1, 0] 3) {} {0} {2} {} {0, 1})"
    using store_step.new_connection[of 0 "sample_state (world_with (Some (0, Some 1)) None [1, 0] 2) {} {0} {} {} {0, 1}"
        table_lib "[]"] sample_ops(5) by (simp add: sample_state_def)
qed

lemma sample_reachable:
  "store_reachable table_lib table_start (sample_state (world_with (Some (0, None)) None [0] 1) {0} {} {} {} {})"
  "store_reachable table_lib table_start
     (sample_state (world_with (Some (0, Some 1)) (Some (0, Some 1)) [1, 0] 3) {} {0} {2} {} {0, 1})"
  unfolding store_reachable_def using sample_steps by (meson rtranclp.intros)+

theorem mutable_store_is_exclusive_witness:
  "0 \<notin> vs_frozen (sample_state (world_with (Some (0, None)) None [0] 1) {0} {} {} {} {})"
  using mutable_store_is_exclusive[OF table_lib_ok sample_reachable(1), of 0 "[]" 0] sample_ops(6)
  by (simp add: sample_state_def)

end
