(* ===== verification/Peer_Verify.thy ===== *)
theory Peer_Verify
  imports Verify_Store X509
begin

text \<open>
  \<open>SslRef::verify_peer_cert_chain\<close> (\<open>btls/src/ssl/mod.rs\<close>) and the store contexts it uses
  (\<open>X509StoreContextRef\<close>, \<open>btls/src/x509/mod.rs\<close>). What BoringSSL does with a store context may depend on all calls
  made with it, so its state is the list of these calls. Certificates are numbers.
\<close>

section \<open>Store contexts\<close>

datatype vcall =
    Init nat nat "nat list"
  | Set_Ex_Data int nat
  | Set_Default string
  | Set_Param nat
  | Set_Host string
  | Set_Verify_Cb nat
  | Run_Cert_Verify nat
  | Verify_Cert
  | Set_Error int
  | Cleanup
  | Free

text \<open>
  BoringSSL: the answer to a call after others, the error it has recorded, what a connection was configured with (by
  its pointer), the callback at \<open>CERT_VERIFY_INDEX\<close> of a context, and the codes.
\<close>

record peer_api =
  pv_answer :: "vcall list \<Rightarrow> vcall \<Rightarrow> err_queue \<Rightarrow> int \<times> err_queue"
  X509_STORE_CTX_get_error :: "vcall list \<Rightarrow> int"
  X509_STORE_CTX_new :: "err_queue \<Rightarrow> unit option \<times> err_queue"
  SSL_get_ex_data_X509_STORE_CTX_idx :: int
  SSL_get_peer_full_cert_chain :: "nat \<Rightarrow> nat list option"
  SSL_is_server :: "nat \<Rightarrow> bool"
  SSL_get0_param :: "nat \<Rightarrow> nat"
  SSL_get0_ech_name_override :: "nat \<Rightarrow> string option"
  SSL_get_verify_callback :: "nat \<Rightarrow> nat option"
  pv_cert_verify :: "nat \<Rightarrow> nat option"
  X509_V_OK :: int
  X509_V_ERR_INVALID_CALL :: int
  X509_V_ERR_OUT_OF_MEM :: int
  X509_V_ERR_UNSPECIFIED :: int

text \<open>\<open>X509VerifyError::from_raw\<close>; an error is its code.\<close>

definition verify_from_raw :: "peer_api \<Rightarrow> int \<Rightarrow> int + unit" where
  "verify_from_raw P err = (if err = X509_V_OK P then Inr () else Inl err)"

definition store_call :: "peer_api \<Rightarrow> vcall \<Rightarrow> vcall list \<Rightarrow> err_queue \<Rightarrow> (int \<times> unit) \<times> vcall list \<times> err_queue" where
  "store_call P c h q = (case pv_answer P h c q of (r, q') \<Rightarrow> ((r, ()), h @ [c], q'))"

definition store_run :: "peer_api \<Rightarrow> vcall \<Rightarrow> (vcall list, int) eff" where
  "store_run P c h q = (case pv_answer P h c q of (r, q') \<Rightarrow> (Ok r, h @ [c], q'))"

definition store_context_new :: "peer_api \<Rightarrow> err_queue \<Rightarrow> (error_stack + unit) \<times> err_queue" where
  "store_context_new P q = (case X509_STORE_CTX_new P q of (p, q1) \<Rightarrow> cvt_p p q1)"

text \<open>\<open>init\<close>: \<open>Cleanup\<close> is dropped however the closure ends.\<close>

definition store_init :: "peer_api \<Rightarrow> nat \<Rightarrow> nat \<Rightarrow> nat list \<Rightarrow> (vcall list, 'a) eff \<Rightarrow> (vcall list, 'a) eff" where
  "store_init P trust cert cert_chain with_context h q =
     (case ethen (ecvt (store_call P (Init trust cert cert_chain))) with_context h q of
        (r, h', q') \<Rightarrow> (r, h' @ [Cleanup], q'))"

definition store_verify_cert :: "peer_api \<Rightarrow> (vcall list, bool) eff" where
  "store_verify_cert P h q =
     (case store_run P Verify_Cert h q of
        (Ok n, h', q1) \<Rightarrow> (case cvt_n n q1 of (Inl es, q2) \<Rightarrow> (Err es, h', q2) | (Inr n, q2) \<Rightarrow> (Ok (n \<noteq> 0), h', q2))
      | (Err es, h', q1) \<Rightarrow> (Err es, h', q1)
      | (Panicked p, h', q1) \<Rightarrow> (Panicked p, h', q1))"

definition store_set_error :: "peer_api \<Rightarrow> int + unit \<Rightarrow> vcall list \<Rightarrow> vcall list" where
  "store_set_error P result h = h @ [Set_Error (case result of Inl e \<Rightarrow> e | Inr _ \<Rightarrow> X509_V_OK P)]"

definition store_verify_result :: "peer_api \<Rightarrow> vcall list \<Rightarrow> int + unit" where
  "store_verify_result P h = verify_from_raw P (X509_STORE_CTX_get_error P h)"

text \<open>A store context with its extra data at \<open>STORE_INDEX\<close>, \<open>CERT_INDEX\<close> and \<open>CERT_CHAIN_INDEX\<close>.\<close>

record store_context =
  sc_calls :: "vcall list"
  sc_store :: "nat option"
  sc_cert :: "nat option"
  sc_chain :: "nat list option"

definition reset_with_context_data :: "peer_api \<Rightarrow> nat \<Rightarrow> nat \<Rightarrow> nat list \<Rightarrow> (store_context, unit) eff" where
  "reset_with_context_data P trust cert cert_chain sc q =
     (case ecvt (store_call P (Init trust cert cert_chain)) (sc_calls sc) q of
        (Ok _, h, q1) \<Rightarrow>
          (Ok (), sc\<lparr>sc_calls := h, sc_store := Some trust, sc_cert := Some cert, sc_chain := Some cert_chain\<rparr>, q1)
      | (Err e, h, q1) \<Rightarrow> (Err e, sc\<lparr>sc_calls := h @ [Cleanup]\<rparr>, q1)
      | (Panicked p, h, q1) \<Rightarrow> (Panicked p, sc\<lparr>sc_calls := h\<rparr>, q1))"

section \<open>Verifying the peer\<close>

definition verify_purpose :: "peer_api \<Rightarrow> nat \<Rightarrow> string" where
  "verify_purpose P s = (if SSL_is_server P s then ''ssl_client'' else ''ssl_server'')"

definition host_override :: "peer_api \<Rightarrow> nat \<Rightarrow> string option" where
  "host_override P s =
     (case SSL_get0_ech_name_override P s of
        None \<Rightarrow> None
      | Some name \<Rightarrow> if name \<noteq> [] then Some name else None)"

definition verify_in_context :: "peer_api \<Rightarrow> nat \<Rightarrow> nat \<Rightarrow> (vcall list, int + unit) eff" where
  "verify_in_context P s c =
     ethen (ecvt (store_call P (Set_Ex_Data (SSL_get_ex_data_X509_STORE_CTX_idx P) s)))
     (ethen (ecvt (store_call P (Set_Default (verify_purpose P s))))
     (ethen (ecvt (store_call P (Set_Param (SSL_get0_param P s))))
     (ethen (case host_override P s of Some name \<Rightarrow> ecvt (store_call P (Set_Host name)) | None \<Rightarrow> eret ())
     (ethen (case SSL_get_verify_callback P s of Some callback \<Rightarrow> eput (\<lambda>h. h @ [Set_Verify_Cb callback]) | None \<Rightarrow> eret ())
     (ebind (case pv_cert_verify P c of Some callback \<Rightarrow> store_run P (Run_Cert_Verify callback) | None \<Rightarrow> store_run P Verify_Cert)
       (\<lambda>ret h q.
         if ret > 0 then (Ok (Inr ()), h, error_stack_clear q)
         else (Ok (Inl (case store_verify_result P h of Inl e \<Rightarrow> e | Inr _ \<Rightarrow> X509_V_ERR_UNSPECIFIED P)), h, q)))))))"

definition verify_peer_cert_chain ::
    "peer_api \<Rightarrow> 'l store_api \<Rightarrow> nat \<Rightarrow> 'l store_world \<Rightarrow> err_queue \<Rightarrow> (int + unit) outcome \<times> vcall list \<times> err_queue" where
  "verify_peer_cert_chain P A s w q =
     (let c = ssl_context A s w in
      if \<not> has_x509_support c w then (Ret (Inl (X509_V_ERR_INVALID_CALL P)), [], q)
      else
        (case SSL_get_peer_full_cert_chain P s of
           None \<Rightarrow> (Ret (Inl (X509_V_ERR_INVALID_CALL P)), [], q)
         | Some [] \<Rightarrow> (Ret (Inl (X509_V_ERR_INVALID_CALL P)), [], q)
         | Some (leaf # rest) \<Rightarrow>
             (case chosen_store A s w q of
                (Ok store, _, q1) \<Rightarrow>
                  (case store_context_new P q1 of
                     (Inl _, q2) \<Rightarrow> (Ret (Inl (X509_V_ERR_OUT_OF_MEM P)), [], q2)
                   | (Inr _, q2) \<Rightarrow>
                       (case store_init P store leaf (leaf # rest) (verify_in_context P s c) [] q2 of
                          (Ok r, h, q3) \<Rightarrow> (Ret r, h @ [Free], q3)
                        | (Err _, h, q3) \<Rightarrow> (Ret (Inl (X509_V_ERR_UNSPECIFIED P)), h @ [Free], q3)
                        | (Panicked p, h, q3) \<Rightarrow> (Panic p, h @ [Free], q3)))
              | (Err _, _, q1) \<Rightarrow> (Ret (Inl (X509_V_ERR_UNSPECIFIED P)), [], q1)
              | (Panicked p, _, q1) \<Rightarrow> (Panic p, [], q1))))"

section \<open>The calls of BoringSSL's own verifier\<close>

text \<open>
  The calls that verify a chain as BoringSSL does by itself, in order; all but the setting of the callback must
  succeed. A server takes the peer for a client, and a client for a server; the name is overridden only by the
  public name of a rejected ECH.
\<close>

definition builtin_script :: "peer_api \<Rightarrow> nat \<Rightarrow> nat \<Rightarrow> nat \<Rightarrow> nat \<Rightarrow> nat list \<Rightarrow> vcall list" where
  "builtin_script P s c store leaf chain =
     [Init store leaf chain, Set_Ex_Data (SSL_get_ex_data_X509_STORE_CTX_idx P) s,
      Set_Default (if SSL_is_server P s then ''ssl_client'' else ''ssl_server''),
      Set_Param (SSL_get0_param P s)] @
     (case SSL_get0_ech_name_override P s of Some (c # name) \<Rightarrow> [Set_Host (c # name)] | _ \<Rightarrow> []) @
     (case SSL_get_verify_callback P s of Some callback \<Rightarrow> [Set_Verify_Cb callback] | None \<Rightarrow> []) @
     [case pv_cert_verify P c of Some callback \<Rightarrow> Run_Cert_Verify callback | None \<Rightarrow> Verify_Cert]"

primrec run_script :: "peer_api \<Rightarrow> vcall list \<Rightarrow> vcall list \<Rightarrow> err_queue \<Rightarrow> bool \<times> vcall list" where
  "run_script P [] h q = (True, h)"
| "run_script P (c # cs) h q =
     (case c of
        Set_Verify_Cb _ \<Rightarrow> run_script P cs (h @ [c]) q
      | _ \<Rightarrow> (case pv_answer P h c q of (r, q') \<Rightarrow> if r > 0 then run_script P cs (h @ [c]) q' else (False, h @ [c])))"

lemma host_override_call:
  "(case SSL_get0_ech_name_override P s of Some (c # name) \<Rightarrow> [Set_Host (c # name)] | _ \<Rightarrow> []) =
     (case host_override P s of Some name \<Rightarrow> [Set_Host name] | None \<Rightarrow> [])"
  by (simp add: host_override_def split: option.split list.split)

lemma verify_in_script:
  "\<exists>r calls q'. store_init P store leaf chain (verify_in_context P s c) [] q = (r, calls @ [Cleanup], q') \<and>
     run_script P (builtin_script P s c store leaf chain) [] q = (r = Ok (Inr ()), calls) \<and>
     (r = Ok (Inr ()) \<longrightarrow> q' = []) \<and> (\<forall>p. r \<noteq> Panicked p)"
proof -
  note defs = store_init_def verify_in_context_def builtin_script_def
    host_override_call verify_purpose_def ethen_def ebind_def ecvt_apply store_call_def
    store_run_def error_stack_clear_def
  show ?thesis
    by (cases "host_override P s"; cases "SSL_get_verify_callback P s"; cases "pv_cert_verify P c")
      (simp_all add: defs split: prod.split)
qed

text \<open>The connection can be verified: X.509 is supported, the peer sent a chain, there is memory.\<close>

definition verifiable :: "peer_api \<Rightarrow> 'l store_api \<Rightarrow> nat \<Rightarrow> 'l store_world \<Rightarrow> err_queue \<Rightarrow> nat \<Rightarrow> nat list \<Rightarrow> err_queue \<Rightarrow> bool" where
  "verifiable P A s w q leaf rest q' \<longleftrightarrow>
     has_x509_support (ssl_context A s w) w \<and> SSL_get_peer_full_cert_chain P s = Some (leaf # rest) \<and>
     X509_STORE_CTX_new P q = (Some (), q')"

lemma verify_peer_of_script:
  assumes "verifiable P A s w q leaf rest q1" "chosen_store A s w q = (Ok st, w, q)"
  shows "\<exists>v calls q'. verify_peer_cert_chain P A s w q = (v, calls @ [Cleanup, Free], q') \<and>
    run_script P (builtin_script P s (ssl_context A s w) st leaf (leaf # rest)) [] q1 = (v = Ret (Inr ()), calls) \<and>
    (v = Ret (Inr ()) \<longrightarrow> q' = []) \<and> (\<forall>p. v \<noteq> Panic p)"
proof -
  obtain r calls q' where init:
    "store_init P st leaf (leaf # rest) (verify_in_context P s (ssl_context A s w)) [] q1 = (r, calls @ [Cleanup], q')"
    and run: "run_script P (builtin_script P s (ssl_context A s w) st leaf (leaf # rest)) [] q1 = (r = Ok (Inr ()), calls)"
      "r = Ok (Inr ()) \<longrightarrow> q' = []" "\<forall>p. r \<noteq> Panicked p"
    using verify_in_script by blast
  have "verify_peer_cert_chain P A s w q =
      (case r of Ok x \<Rightarrow> Ret x | Err _ \<Rightarrow> Ret (Inl (X509_V_ERR_UNSPECIFIED P)) | Panicked p \<Rightarrow> Panic p,
       calls @ [Cleanup, Free], q')"
    using assms init
    by (simp add: verify_peer_cert_chain_def verifiable_def store_context_new_def cvt_p_def split: eresult.split)
  then show ?thesis using run by (cases r) auto
qed

lemma not_verifiable:
  assumes "\<nexists>leaf rest q1. verifiable P A s w q leaf rest q1" "has_x509_support (ssl_context A s w) w \<Longrightarrow> \<exists>st. chosen_store A s w q = (Ok st, w, q)"
  shows "\<exists>e q'. verify_peer_cert_chain P A s w q = (Ret (Inl e), [], q')"
  using assms
  by (cases "X509_STORE_CTX_new P q")
    (auto simp: verify_peer_cert_chain_def verifiable_def store_context_new_def cvt_p_def fail_stack_def Let_def
      split: option.splits list.splits prod.splits)

section \<open>Properties\<close>

text \<open>
  C4: A peer is accepted exactly if every call of BoringSSL's own verifier, with the store that it would use for the
  connection, succeeds. Nothing panics; a store context that was made is cleaned up and freed after these calls, and an
  accepted peer leaves no error behind.
\<close>

theorem peer_accepted_iff_builtin_accepts:
  assumes "stores_ok A V" "store_reachable A l S" "s \<in> vs_ssls S"
    and "verify_peer_cert_chain P A s (vs_world S) q = (v, h, q')"
  shows "(\<forall>p. v \<noteq> Panic p) \<and>
    (v = Ret (Inr ()) \<longleftrightarrow> (\<exists>leaf rest q1 st calls. verifiable P A s (vs_world S) q leaf rest q1 \<and>
       builtin_store V (w_lib (vs_world S)) s = Some st \<and>
       run_script P (builtin_script P s (ssl_context A s (vs_world S)) st leaf (leaf # rest)) [] q1 = (True, calls) \<and>
       h = calls @ [Cleanup, Free])) \<and>
    (h = [] \<or> (\<exists>calls. h = calls @ [Cleanup, Free])) \<and> (v = Ret (Inr ()) \<longrightarrow> q' = [])"
proof (cases "\<exists>leaf rest q1. verifiable P A s (vs_world S) q leaf rest q1")
  case True
  then obtain leaf rest q1 where vf: "verifiable P A s (vs_world S) q leaf rest q1" by blast
  then have "has_x509_support (ssl_context A s (vs_world S)) (vs_world S)" by (simp add: verifiable_def)
  then obtain st where st: "chosen_store A s (vs_world S) q = (Ok st, vs_world S, q)"
      "builtin_store V (w_lib (vs_world S)) s = Some st"
    using chosen_store_ok[OF assms(1-3)] by blast
  from verify_peer_of_script[OF vf st(1)] assms(4) obtain calls where
    script: "h = calls @ [Cleanup, Free]" "v = Ret (Inr ()) \<longrightarrow> q' = []" "\<forall>p. v \<noteq> Panic p"
      "run_script P (builtin_script P s (ssl_context A s (vs_world S)) st leaf (leaf # rest)) [] q1 = (v = Ret (Inr ()), calls)"
    by auto
  have uniq: "leaf' = leaf \<and> rest' = rest \<and> q1' = q1"
    if "verifiable P A s (vs_world S) q leaf' rest' q1'" for leaf' rest' q1'
    using that vf by (simp add: verifiable_def)
  have "v = Ret (Inr ()) \<longleftrightarrow> (\<exists>leaf rest q1 st calls. verifiable P A s (vs_world S) q leaf rest q1 \<and>
       builtin_store V (w_lib (vs_world S)) s = Some st \<and>
       run_script P (builtin_script P s (ssl_context A s (vs_world S)) st leaf (leaf # rest)) [] q1 = (True, calls) \<and>
       h = calls @ [Cleanup, Free])" (is "_ \<longleftrightarrow> ?R")
  proof
    assume "v = Ret (Inr ())"
    then show ?R using vf st(2) script(1,4) by auto
  next
    assume ?R
    then obtain leaf' rest' q1' st' calls' where r: "verifiable P A s (vs_world S) q leaf' rest' q1'"
      "builtin_store V (w_lib (vs_world S)) s = Some st'"
      "run_script P (builtin_script P s (ssl_context A s (vs_world S)) st' leaf' (leaf' # rest')) [] q1' = (True, calls')"
      by blast
    then show "v = Ret (Inr ())" using uniq[OF r(1)] st(2) script(4) by simp
  qed
  then show ?thesis using script(1-3) by blast
next
  case False
  then obtain e q2 where "verify_peer_cert_chain P A s (vs_world S) q = (Ret (Inl e), [], q2)"
    using not_verifiable chosen_store_ok[OF assms(1-3)] by meson
  then show ?thesis using False assms(4) by auto
qed

text \<open>A library in which every call succeeds and the peer has a chain of two certificates.\<close>

definition content_peer :: peer_api where
  "content_peer =
     \<lparr>pv_answer = (\<lambda>h c q. (1, q)), X509_STORE_CTX_get_error = (\<lambda>_. 0), X509_STORE_CTX_new = (\<lambda>q. (Some (), q)),
      SSL_get_ex_data_X509_STORE_CTX_idx = 0, SSL_get_peer_full_cert_chain = (\<lambda>_. Some [7, 8]),
      SSL_is_server = (\<lambda>_. False), SSL_get0_param = (\<lambda>_. 5), SSL_get0_ech_name_override = (\<lambda>_. Some ''a.b''),
      SSL_get_verify_callback = (\<lambda>_. None), pv_cert_verify = (\<lambda>_. None),
      X509_V_OK = 0, X509_V_ERR_INVALID_CALL = 69, X509_V_ERR_OUT_OF_MEM = 17, X509_V_ERR_UNSPECIFIED = 1\<rparr>"

theorem peer_accepted_iff_builtin_accepts_witness:
  "\<exists>leaf rest q1 st calls.
     verifiable content_peer table_lib 2 (world_with (Some (0, Some 1)) (Some (0, Some 1)) [1, 0] 3) [] leaf rest q1 \<and>
     builtin_store table_view (w_lib (world_with (Some (0, Some 1)) (Some (0, Some 1)) [1, 0] 3)) 2 = Some st \<and>
     run_script content_peer (builtin_script content_peer 2 0 st leaf (leaf # rest)) [] q1 = (True, calls)"
proof -
  let ?w = "world_with (Some (0, Some 1)) (Some (0, Some 1)) [1, 0] 3"
  let ?S = "sample_state ?w {} {0} {2} {} {0, 1}"
  have ctx: "ssl_context table_lib 2 (world_with c (Some (0, vs)) ss n) = 0" for c vs ss n by (simp add: ssl_context_def world_with_def table_lib_def)
  have x509: "has_x509_support 0 (world_with (Some x) s ss n)" for x s ss n by (simp add: has_x509_support_def world_with_def)
  have v: "verifiable content_peer table_lib 2 ?w [] 7 [8] []"
    by (simp add: verifiable_def ctx x509) (simp add: content_peer_def)
  have chosen: "chosen_store table_lib 2 ?w [] = (Ok 1, ?w, [])"
    by (simp add: chosen_store_def op_apply ctx) (simp add: world_with_def)
  have "fst (run_script content_peer (builtin_script content_peer 2 0 1 7 [7, 8]) [] [])"
    by (simp add: builtin_script_def content_peer_def)
  then obtain h q' where run: "verify_peer_cert_chain content_peer table_lib 2 (vs_world ?S) [] = (Ret (Inr ()), h, q')"
    using verify_peer_of_script[OF v chosen] by (auto simp: sample_state_def ctx)
  have "2 \<in> vs_ssls ?S" by (simp add: sample_state_def)
  from peer_accepted_iff_builtin_accepts[OF table_lib_ok sample_reachable(2) this run]
  show ?thesis unfolding sample_state_def by (simp add: ctx) blast
qed

end
