(* ===== verification/Hoare.thy ===== *)
theory Hoare
  imports Effects
begin

text \<open>
  Assertions about effects: a small Hoare logic with one postcondition for a return and one for an error. Proofs that
  every operation keeps an invariant apply its rules step by step.
\<close>

text \<open>Partial correctness of effects: after a return \<open>Q\<close> holds, after an error \<open>E\<close>.\<close>

definition result_ok :: "('a \<Rightarrow> 's \<Rightarrow> bool) \<Rightarrow> ('s \<Rightarrow> bool) \<Rightarrow> 'a eresult \<times> 's \<times> err_queue \<Rightarrow> bool" where
  "result_ok Q E x = (case fst x of Ok v \<Rightarrow> Q v (fst (snd x)) | Err _ \<Rightarrow> E (fst (snd x)) | Panicked _ \<Rightarrow> True)"

definition hoare :: "('s \<Rightarrow> bool) \<Rightarrow> ('s, 'a) eff \<Rightarrow> ('a \<Rightarrow> 's \<Rightarrow> bool) \<Rightarrow> ('s \<Rightarrow> bool) \<Rightarrow> bool" where
  "hoare P m Q E \<longleftrightarrow> (\<forall>s q. P s \<longrightarrow> result_ok Q E (m s q))"

lemma result_ok_simps [simp]:
  "result_ok Q E (Ok v, s, q) = Q v s" "result_ok Q E (Err es, s, q) = E s" "result_ok Q E (Panicked p, s, q)"
  by (simp_all add: result_ok_def)

named_theorems hoare_rules

lemma hoareD: "hoare P m Q E \<Longrightarrow> P s \<Longrightarrow> result_ok Q E (m s q)"
  unfolding hoare_def by blast

lemma hoareI: "(\<And>s q. P s \<Longrightarrow> result_ok Q E (m s q)) \<Longrightarrow> hoare P m Q E"
  unfolding hoare_def by blast

lemma hoare_ebind [hoare_rules]:
  assumes "hoare P m R E" "\<And>x. hoare (R x) (f x) Q E"
  shows "hoare P (ebind m f) Q E"
proof (rule hoareI)
  fix s and q :: err_queue assume "P s"
  note first = hoareD[OF assms(1) \<open>P s\<close>, of q]
  obtain r s1 q1 where m: "m s q = (r, s1, q1)" by (metis prod.collapse)
  then show "result_ok Q E (ebind m f s q)"
    using first hoareD[OF assms(2), of _ s1 q1] by (cases r) (auto simp: ebind_def)
qed

lemma hoare_ethen [hoare_rules]: "hoare P m (\<lambda>_. R) E \<Longrightarrow> hoare R n Q E \<Longrightarrow> hoare P (ethen m n) Q E"
  unfolding ethen_def by (rule hoare_ebind)

lemma hoare_basic [hoare_rules]:
  "(\<And>s. P s \<Longrightarrow> Q () (f s)) \<Longrightarrow> hoare P (eput f) Q E"
  "(\<And>s. P s \<Longrightarrow> Q (g s) s) \<Longrightarrow> hoare P (eget g) Q E"
  "(\<And>s. P s \<Longrightarrow> Q x s) \<Longrightarrow> hoare P (eret x) Q E"
  "(\<And>s. P s \<Longrightarrow> b \<Longrightarrow> Q () s) \<Longrightarrow> hoare P (eassert b p) Q E"
  by (auto intro!: hoareI simp: eassert_def)

lemma hoare_conseq:
  assumes "hoare P m Q E" "\<And>s. P' s \<Longrightarrow> P s" "\<And>x s. Q x s \<Longrightarrow> Q' x s" "\<And>s. E s \<Longrightarrow> E' s"
  shows "hoare P' m Q' E'"
proof (rule hoareI)
  fix s and q :: err_queue assume "P' s"
  then have "result_ok Q E (m s q)" by (intro hoareD[OF assms(1)] assms(2))
  then show "result_ok Q' E' (m s q)" using assms(3,4) by (auto simp: result_ok_def split: eresult.splits)
qed

end
