(* ===== verification/Registry.thy ===== *)
theory Registry
  imports Ex_Data Hoare Callbacks
begin

text \<open>
  How callbacks are registered on contexts (\<open>btls/src/ssl/mod.rs\<close>, \<open>ssl/quic.rs\<close>): one index of extra data per
  callback type, kept in the global table \<open>INDEXES\<close>; a setter stores the boxed callback there and gives BoringSSL a C
  function that is made for the callback's type and that looks it up again, casting what it finds to that type.
  Types and contexts are numbers, and \<open>ty\<close> gives the type of a callback.
\<close>

section \<open>State\<close>

text \<open>What extra data hold: callbacks, and the C function of \<open>set_cert_verify_callback\<close>, by its type argument.\<close>

datatype 'c boxed = Callback 'c | Cert_Verify_Fn nat

text \<open>The C functions that BoringSSL is given.\<close>

datatype trampoline =
    Raw_Verify | Raw_Cert_Verify | Raw_Custom_Verify | Raw_Sni | Raw_Ticket_Key | Raw_Alpn_Select | Raw_Select_Cert
  | Raw_Tlsext_Status | Raw_Client_Psk | Raw_Server_Psk | Raw_New_Session | Raw_Remove_Session | Raw_Get_Session
  | Raw_Keylog | Raw_Info | Raw_Private_Key | Raw_Cert_Compression | Raw_Quic

text \<open>
  \<open>INDEXES\<close>, the lazy \<open>CERT_VERIFY_INDEX\<close>, the extra data of each context, whether it is for X.509, and the C
  functions with their types that BoringSSL was given for it; \<open>'l\<close> is BoringSSL's memory.
\<close>

datatype lazy_index = Unforced | Forced nat | Poisoned

record ('l, 'c) registry =
  rg_lib :: 'l
  rg_indexes :: "nat \<Rightarrow> nat option"
  rg_cert_verify_index :: lazy_index
  rg_ex :: "nat \<Rightarrow> 'c boxed ex_data"
  rg_x509 :: "nat \<Rightarrow> bool"
  rg_given :: "nat \<Rightarrow> (trampoline \<times> nat) list"

text \<open>BoringSSL: a new index, and the setters that can fail.\<close>

record 'l registry_api =
  SSL_CTX_get_ex_new_index :: "'l \<Rightarrow> err_queue \<Rightarrow> int \<times> 'l \<times> err_queue"
  SSL_CTX_set_tlsext_status_cb :: "nat \<Rightarrow> 'l \<Rightarrow> err_queue \<Rightarrow> (int \<times> unit) \<times> 'l \<times> err_queue"
  SSL_CTX_set_quic_method :: "nat \<Rightarrow> 'l \<Rightarrow> err_queue \<Rightarrow> (int \<times> unit) \<times> 'l \<times> err_queue"
  SSL_CTX_add_cert_compression_alg :: "nat \<Rightarrow> nat \<Rightarrow> 'l \<Rightarrow> err_queue \<Rightarrow> int \<times> 'l \<times> err_queue"

section \<open>Indexes\<close>

definition on_rg_lib ::
    "('l \<Rightarrow> err_queue \<Rightarrow> 'r \<times> 'l \<times> err_queue) \<Rightarrow> ('l, 'c) registry \<Rightarrow> err_queue \<Rightarrow> 'r \<times> ('l, 'c) registry \<times> err_queue" where
  "on_rg_lib f s q = (case f (rg_lib s) q of (r, l, q') \<Rightarrow> (r, s\<lparr>rg_lib := l\<rparr>, q'))"

text \<open>\<open>SslContext::new_ex_index\<close>, unwrapped.\<close>

definition new_ex_index :: "'l registry_api \<Rightarrow> (('l, 'c) registry, nat) eff" where
  "new_ex_index G s q =
     (case on_rg_lib (SSL_CTX_get_ex_new_index G) s q of
        (r, s1, q1) \<Rightarrow>
          (case cvt_n r q1 of
             (Inl es, q2) \<Rightarrow> (Panicked ''called `Result::unwrap()` on an `Err` value'', s1, q2)
           | (Inr idx, q2) \<Rightarrow> (Ok (nat idx), s1, q2)))"

definition cached_ex_index :: "'l registry_api \<Rightarrow> nat \<Rightarrow> (('l, 'c) registry, nat) eff" where
  "cached_ex_index G t =
     ebind (eget (\<lambda>s. rg_indexes s t)) (\<lambda>known.
       case known of
         Some i \<Rightarrow> eret i
       | None \<Rightarrow>
           ebind (new_ex_index G) (\<lambda>i.
             ethen (eput (\<lambda>s. s\<lparr>rg_indexes := (rg_indexes s)(t := Some i)\<rparr>)) (eret i)))"

text \<open>Forcing \<open>*CERT_VERIFY_INDEX\<close>; a panic on the way poisons it.\<close>

definition cert_verify_index :: "'l registry_api \<Rightarrow> (('l, 'c) registry, nat) eff" where
  "cert_verify_index G s q =
     (case rg_cert_verify_index s of
        Forced i \<Rightarrow> (Ok i, s, q)
      | Poisoned \<Rightarrow> (Panicked ''LazyLock instance has previously been poisoned'', s, q)
      | Unforced \<Rightarrow>
          (case new_ex_index G s q of
             (Ok i, s1, q1) \<Rightarrow> (Ok i, s1\<lparr>rg_cert_verify_index := Forced i\<rparr>, q1)
           | (Err es, s1, q1) \<Rightarrow> (Err es, s1\<lparr>rg_cert_verify_index := Poisoned\<rparr>, q1)
           | (Panicked p, s1, q1) \<Rightarrow> (Panicked p, s1\<lparr>rg_cert_verify_index := Poisoned\<rparr>, q1)))"

section \<open>Setters\<close>

definition store_boxed :: "nat \<Rightarrow> nat \<Rightarrow> 'c boxed \<Rightarrow> ('l, 'c) registry \<Rightarrow> ('l, 'c) registry" where
  "store_boxed c i v s = s\<lparr>rg_ex := (rg_ex s)(c := fst (ctx_replace_ex_data (rg_ex s c) i v))\<rparr>"

definition give :: "nat \<Rightarrow> trampoline \<Rightarrow> nat \<Rightarrow> ('l, 'c) registry \<Rightarrow> ('l, 'c) registry" where
  "give c k t s = s\<lparr>rg_given := (rg_given s)(c := rg_given s c @ [(k, t)])\<rparr>"

definition rg_check_x509 :: "nat \<Rightarrow> (('l, 'c) registry, unit) eff" where
  "rg_check_x509 c =
     ebind (eget (\<lambda>s. rg_x509 s c)) (\<lambda>b. eassert b ''This context is not configured for X.509 certificates'')"

text \<open>The two steps of most setters.\<close>

definition store_and_give :: "'l registry_api \<Rightarrow> ('c \<Rightarrow> nat) \<Rightarrow> trampoline \<Rightarrow> nat \<Rightarrow> 'c \<Rightarrow> (('l, 'c) registry, unit) eff" where
  "store_and_give G ty k c callback =
     ebind (cached_ex_index G (ty callback)) (\<lambda>i.
       ethen (eput (store_boxed c i (Callback callback)))
         (eput (give c k (ty callback))))"

definition set_verify_callback :: "'l registry_api \<Rightarrow> ('c \<Rightarrow> nat) \<Rightarrow> nat \<Rightarrow> 'c \<Rightarrow> (('l, 'c) registry, unit) eff" where
  "set_verify_callback G ty c callback = ethen (rg_check_x509 c) (store_and_give G ty Raw_Verify c callback)"

definition set_cert_verify_callback :: "'l registry_api \<Rightarrow> ('c \<Rightarrow> nat) \<Rightarrow> nat \<Rightarrow> 'c \<Rightarrow> (('l, 'c) registry, unit) eff" where
  "set_cert_verify_callback G ty c callback =
     ethen (rg_check_x509 c)
       (ebind (cached_ex_index G (ty callback)) (\<lambda>i.
         ethen (eput (store_boxed c i (Callback callback)))
           (ebind (cert_verify_index G) (\<lambda>j.
             ethen (eput (store_boxed c j (Cert_Verify_Fn (ty callback))))
               (eput (give c Raw_Cert_Verify (ty callback)))))))"

definition set_custom_verify_callback :: "'l registry_api \<Rightarrow> ('c \<Rightarrow> nat) \<Rightarrow> nat \<Rightarrow> 'c \<Rightarrow> (('l, 'c) registry, unit) eff" where
  "set_custom_verify_callback G ty c callback = store_and_give G ty Raw_Custom_Verify c callback"

definition set_servername_callback :: "'l registry_api \<Rightarrow> ('c \<Rightarrow> nat) \<Rightarrow> nat \<Rightarrow> 'c \<Rightarrow> (('l, 'c) registry, unit) eff" where
  "set_servername_callback G ty c callback =
     ebind (cached_ex_index G (ty callback)) (\<lambda>callback_index.
       ethen (eput (store_boxed c callback_index (Callback callback)))
         (ebind (eget (\<lambda>s. ex_get (rg_ex s c) callback_index)) (\<lambda>found.
           ethen (eassert (found \<noteq> None) ''called `Option::unwrap()` on a `None` value'')
             (eput (give c Raw_Sni (ty callback))))))"

definition set_ticket_key_callback :: "'l registry_api \<Rightarrow> ('c \<Rightarrow> nat) \<Rightarrow> nat \<Rightarrow> 'c \<Rightarrow> (('l, 'c) registry, unit) eff" where
  "set_ticket_key_callback G ty c callback = ethen (rg_check_x509 c) (store_and_give G ty Raw_Ticket_Key c callback)"

definition set_alpn_select_callback :: "'l registry_api \<Rightarrow> ('c \<Rightarrow> nat) \<Rightarrow> nat \<Rightarrow> 'c \<Rightarrow> (('l, 'c) registry, unit) eff" where
  "set_alpn_select_callback G ty c callback = store_and_give G ty Raw_Alpn_Select c callback"

definition set_select_certificate_callback_with_action ::
    "'l registry_api \<Rightarrow> ('c \<Rightarrow> nat) \<Rightarrow> nat \<Rightarrow> 'c \<Rightarrow> (('l, 'c) registry, unit) eff" where
  "set_select_certificate_callback_with_action G ty c callback = store_and_give G ty Raw_Select_Cert c callback"

definition set_status_callback :: "'l registry_api \<Rightarrow> ('c \<Rightarrow> nat) \<Rightarrow> nat \<Rightarrow> 'c \<Rightarrow> (('l, 'c) registry, unit) eff" where
  "set_status_callback G ty c callback =
     ebind (cached_ex_index G (ty callback)) (\<lambda>i.
       ethen (eput (store_boxed c i (Callback callback)))
         (ethen (eput (give c Raw_Tlsext_Status (ty callback)))
           (ecvt (on_rg_lib (SSL_CTX_set_tlsext_status_cb G c)))))"

definition set_psk_client_callback :: "'l registry_api \<Rightarrow> ('c \<Rightarrow> nat) \<Rightarrow> nat \<Rightarrow> 'c \<Rightarrow> (('l, 'c) registry, unit) eff" where
  "set_psk_client_callback G ty c callback = store_and_give G ty Raw_Client_Psk c callback"

definition set_psk_server_callback :: "'l registry_api \<Rightarrow> ('c \<Rightarrow> nat) \<Rightarrow> nat \<Rightarrow> 'c \<Rightarrow> (('l, 'c) registry, unit) eff" where
  "set_psk_server_callback G ty c callback = store_and_give G ty Raw_Server_Psk c callback"

definition set_new_session_callback :: "'l registry_api \<Rightarrow> ('c \<Rightarrow> nat) \<Rightarrow> nat \<Rightarrow> 'c \<Rightarrow> (('l, 'c) registry, unit) eff" where
  "set_new_session_callback G ty c callback = store_and_give G ty Raw_New_Session c callback"

definition set_remove_session_callback :: "'l registry_api \<Rightarrow> ('c \<Rightarrow> nat) \<Rightarrow> nat \<Rightarrow> 'c \<Rightarrow> (('l, 'c) registry, unit) eff" where
  "set_remove_session_callback G ty c callback = store_and_give G ty Raw_Remove_Session c callback"

definition set_get_session_callback :: "'l registry_api \<Rightarrow> ('c \<Rightarrow> nat) \<Rightarrow> nat \<Rightarrow> 'c \<Rightarrow> (('l, 'c) registry, unit) eff" where
  "set_get_session_callback G ty c callback = store_and_give G ty Raw_Get_Session c callback"

definition set_keylog_callback :: "'l registry_api \<Rightarrow> ('c \<Rightarrow> nat) \<Rightarrow> nat \<Rightarrow> 'c \<Rightarrow> (('l, 'c) registry, unit) eff" where
  "set_keylog_callback G ty c callback = store_and_give G ty Raw_Keylog c callback"

definition set_info_callback :: "'l registry_api \<Rightarrow> ('c \<Rightarrow> nat) \<Rightarrow> nat \<Rightarrow> 'c \<Rightarrow> (('l, 'c) registry, unit) eff" where
  "set_info_callback G ty c callback = store_and_give G ty Raw_Info c callback"

definition set_private_key_method :: "'l registry_api \<Rightarrow> ('c \<Rightarrow> nat) \<Rightarrow> nat \<Rightarrow> 'c \<Rightarrow> (('l, 'c) registry, unit) eff" where
  "set_private_key_method G ty c method' = store_and_give G ty Raw_Private_Key c method'"

definition set_quic_method :: "'l registry_api \<Rightarrow> ('c \<Rightarrow> nat) \<Rightarrow> nat \<Rightarrow> 'c \<Rightarrow> (('l, 'c) registry, unit) eff" where
  "set_quic_method G ty c method' =
     ebind (cached_ex_index G (ty method')) (\<lambda>i.
       ethen (eput (store_boxed c i (Callback method')))
         (ethen (eput (give c Raw_Quic (ty method')))
           (ecvt (on_rg_lib (SSL_CTX_set_quic_method G c)))))"

text \<open>The only setter that stores after the call, and only if that succeeded.\<close>

definition add_certificate_compression_algorithm ::
    "'l registry_api \<Rightarrow> ('c \<Rightarrow> nat) \<Rightarrow> nat \<Rightarrow> 'c \<Rightarrow> (('l, 'c) registry, unit) eff" where
  "add_certificate_compression_algorithm G ty c compressor s q =
     (case on_rg_lib (SSL_CTX_add_cert_compression_alg G c (ty compressor)) s q of
        (r, s1, q1) \<Rightarrow>
          if r \<noteq> 1 then (case error_stack_get q1 of (es, q2) \<Rightarrow> (Err es, s1, q2))
          else
            ebind (cached_ex_index G (ty compressor)) (\<lambda>i. eput (store_boxed c i (Callback compressor)))
              (give c Raw_Cert_Compression (ty compressor) s1) q1)"

section \<open>Looking up\<close>

text \<open>\<open>ssl_context.ex_data(SslContext::cached_ex_index::<F>())\<close>, in every trampoline for the type.\<close>

definition find_callback :: "'l registry_api \<Rightarrow> nat \<Rightarrow> nat \<Rightarrow> (('l, 'c) registry, 'c boxed option) eff" where
  "find_callback G c t = ebind (cached_ex_index G t) (\<lambda>i. eget (\<lambda>s. ex_get (rg_ex s c) i))"

text \<open>The callback of a trampoline for the type, in the current context \<open>ctx_of\<close> of a connection; \<open>run\<close> calls it.\<close>

definition looked_up ::
    "'l registry_api \<Rightarrow> ('l, 'c) registry \<Rightarrow> nat \<Rightarrow> ('x \<Rightarrow> nat) \<Rightarrow> ('c \<Rightarrow> 'f) \<Rightarrow> 'x \<Rightarrow> 'f option" where
  "looked_up G s t ctx_of run conn =
     (case fst (find_callback G (ctx_of conn) t s []) of Ok (Some (Callback cb)) \<Rightarrow> Some (run cb) | _ \<Rightarrow> None)"

section \<open>Sequences of registrations\<close>

datatype 'c registration = Register trampoline nat 'c

primrec register_one :: "'l registry_api \<Rightarrow> ('c \<Rightarrow> nat) \<Rightarrow> 'c registration \<Rightarrow> (('l, 'c) registry, unit) eff" where
  "register_one G ty (Register k c callback) =
     (case k of
        Raw_Verify \<Rightarrow> set_verify_callback G ty c callback
      | Raw_Cert_Verify \<Rightarrow> set_cert_verify_callback G ty c callback
      | Raw_Custom_Verify \<Rightarrow> set_custom_verify_callback G ty c callback
      | Raw_Sni \<Rightarrow> set_servername_callback G ty c callback
      | Raw_Ticket_Key \<Rightarrow> set_ticket_key_callback G ty c callback
      | Raw_Alpn_Select \<Rightarrow> set_alpn_select_callback G ty c callback
      | Raw_Select_Cert \<Rightarrow> set_select_certificate_callback_with_action G ty c callback
      | Raw_Tlsext_Status \<Rightarrow> set_status_callback G ty c callback
      | Raw_Client_Psk \<Rightarrow> set_psk_client_callback G ty c callback
      | Raw_Server_Psk \<Rightarrow> set_psk_server_callback G ty c callback
      | Raw_New_Session \<Rightarrow> set_new_session_callback G ty c callback
      | Raw_Remove_Session \<Rightarrow> set_remove_session_callback G ty c callback
      | Raw_Get_Session \<Rightarrow> set_get_session_callback G ty c callback
      | Raw_Keylog \<Rightarrow> set_keylog_callback G ty c callback
      | Raw_Info \<Rightarrow> set_info_callback G ty c callback
      | Raw_Private_Key \<Rightarrow> set_private_key_method G ty c callback
      | Raw_Cert_Compression \<Rightarrow> add_certificate_compression_algorithm G ty c callback
      | Raw_Quic \<Rightarrow> set_quic_method G ty c callback)"

text \<open>A program goes on after an error, and ends with a panic.\<close>

primrec register_all ::
    "'l registry_api \<Rightarrow> ('c \<Rightarrow> nat) \<Rightarrow> 'c registration list \<Rightarrow> ('l, 'c) registry \<Rightarrow> err_queue
     \<Rightarrow> unit eresult list \<times> ('l, 'c) registry \<times> err_queue" where
  "register_all G ty [] s q = ([], s, q)"
| "register_all G ty (reg # regs) s q =
     (case register_one G ty reg s q of
        (Panicked p, s1, q1) \<Rightarrow> ([Panicked p], s1, q1)
      | (Ok u, s1, q1) \<Rightarrow> (case register_all G ty regs s1 q1 of (rs, s2, q2) \<Rightarrow> (Ok u # rs, s2, q2))
      | (Err es, s1, q1) \<Rightarrow> (case register_all G ty regs s1 q1 of (rs, s2, q2) \<Rightarrow> (Err es # rs, s2, q2)))"

text \<open>The specification: the last callback of a type that was registered for a context. Only compressors are not kept after an error.\<close>

fun remember ::
    "('c \<Rightarrow> nat) \<Rightarrow> 'c registration \<Rightarrow> unit eresult \<Rightarrow> (nat \<Rightarrow> nat \<Rightarrow> 'c option) \<Rightarrow> nat \<Rightarrow> nat \<Rightarrow> 'c option" where
  "remember ty (Register k c callback) r latest =
     (if \<exists>es. r = Err es \<and> k = Raw_Cert_Compression then latest
      else latest(c := (latest c)(ty callback := Some callback)))"

primrec latest_registered ::
    "('c \<Rightarrow> nat) \<Rightarrow> ('c registration \<times> unit eresult) list \<Rightarrow> (nat \<Rightarrow> nat \<Rightarrow> 'c option) \<Rightarrow> nat \<Rightarrow> nat \<Rightarrow> 'c option" where
  "latest_registered ty [] latest = latest"
| "latest_registered ty (x # xs) latest = latest_registered ty xs (remember ty (fst x) (snd x) latest)"

definition registry_fresh :: "'l \<Rightarrow> (nat \<Rightarrow> bool) \<Rightarrow> ('l, 'c) registry" where
  "registry_fresh l x509 =
     \<lparr>rg_lib = l, rg_indexes = Map.empty, rg_cert_verify_index = Unforced, rg_ex = (\<lambda>_. ex_empty), rg_x509 = x509,
      rg_given = (\<lambda>_. [])\<rparr>"

text \<open>BoringSSL hands out every index once; the other calls do not touch the indexes. \<open>used\<close> are those handed out.\<close>

definition index_spec :: "'l registry_api \<Rightarrow> ('l \<Rightarrow> nat set) \<Rightarrow> bool" where
  "index_spec G used \<longleftrightarrow>
     (\<forall>l q r l' q'. SSL_CTX_get_ex_new_index G l q = (r, l', q') \<longrightarrow>
        (if r < 0 then used l' = used l else nat r \<notin> used l \<and> used l' = insert (nat r) (used l))) \<and>
     (\<forall>c l q x l' q'. SSL_CTX_set_tlsext_status_cb G c l q = (x, l', q') \<longrightarrow> used l' = used l) \<and>
     (\<forall>c l q x l' q'. SSL_CTX_set_quic_method G c l q = (x, l', q') \<longrightarrow> used l' = used l) \<and>
     (\<forall>c a l q r l' q'. SSL_CTX_add_cert_compression_alg G c a l q = (r, l', q') \<longrightarrow> used l' = used l)"

section \<open>The invariant\<close>

text \<open>
  Types have different indexes, also different from the one of the C function; a slot with a type's index holds the
  latest callback of that type; and every C function that BoringSSL was given will find one.
\<close>

definition indexes_inv :: "('l \<Rightarrow> nat set) \<Rightarrow> ('l, 'c) registry \<Rightarrow> bool" where
  "indexes_inv used s \<longleftrightarrow>
     inj_on (rg_indexes s) (dom (rg_indexes s)) \<and> ran (rg_indexes s) \<subseteq> used (rg_lib s) \<and>
     (\<forall>j. rg_cert_verify_index s = Forced j \<longrightarrow> j \<in> used (rg_lib s) \<and> j \<notin> ran (rg_indexes s))"

definition slots_inv :: "('l \<Rightarrow> nat set) \<Rightarrow> ('l, 'c) registry \<Rightarrow> (nat \<Rightarrow> nat \<Rightarrow> 'c option) \<Rightarrow> bool" where
  "slots_inv used s latest \<longleftrightarrow>
     (\<forall>c i. ex_get (rg_ex s c) i \<noteq> None \<longrightarrow> i \<in> used (rg_lib s)) \<and>
     (\<forall>c t i. rg_indexes s t = Some i \<longrightarrow> ex_get (rg_ex s c) i = map_option Callback (latest c t)) \<and>
     (\<forall>c t. rg_indexes s t = None \<longrightarrow> latest c t = None)"

definition given_inv :: "('l, 'c) registry \<Rightarrow> (nat \<Rightarrow> nat \<Rightarrow> 'c option) \<Rightarrow> bool" where
  "given_inv s latest \<longleftrightarrow> (\<forall>c. \<forall>(k, t)\<in>set (rg_given s c). latest c t \<noteq> None)"

definition registry_inv :: "('l \<Rightarrow> nat set) \<Rightarrow> (nat \<Rightarrow> nat \<Rightarrow> 'c option) \<Rightarrow> ('l, 'c) registry \<Rightarrow> bool" where
  "registry_inv used latest s \<longleftrightarrow> indexes_inv used s \<and> slots_inv used s latest \<and> given_inv s latest"

section \<open>Every setter keeps the invariant\<close>

lemma registry_inv_lib:
  "registry_inv used latest s \<Longrightarrow> used l = used (rg_lib s) \<Longrightarrow> registry_inv used latest (s\<lparr>rg_lib := l\<rparr>)"
  by (simp add: registry_inv_def indexes_inv_def slots_inv_def given_inv_def)

lemma registry_inv_give:
  "registry_inv used latest s \<Longrightarrow> latest c t \<noteq> None \<Longrightarrow> registry_inv used latest (give c k t s)"
  by (auto simp: registry_inv_def indexes_inv_def slots_inv_def given_inv_def give_def)

lemma registry_inv_index:
  assumes "registry_inv used latest s" "i \<notin> used (rg_lib s)" "used l = insert i (used (rg_lib s))" "rg_indexes s t = None"
  shows "registry_inv used latest (s\<lparr>rg_lib := l, rg_indexes := (rg_indexes s)(t := Some i)\<rparr>)"
proof -
  let ?s = "s\<lparr>rg_lib := l, rg_indexes := (rg_indexes s)(t := Some i)\<rparr>"
  have i: "i \<notin> ran (rg_indexes s)" using assms(1,2) by (auto simp: registry_inv_def indexes_inv_def)
  have "indexes_inv used ?s"
    using assms i
    by (auto simp: registry_inv_def indexes_inv_def inj_on_def ran_def dom_def)
  moreover have "ex_get (rg_ex s c) i = None" for c using assms(1,2) by (fastforce simp: registry_inv_def slots_inv_def)
  then have "slots_inv used ?s latest"
    using assms by (auto simp: registry_inv_def slots_inv_def)
  moreover have "given_inv ?s latest" using assms(1) by (auto simp: registry_inv_def given_inv_def)
  ultimately show ?thesis by (simp add: registry_inv_def)
qed

lemma registry_inv_store:
  assumes "registry_inv used latest s" "rg_indexes s (ty callback) = Some i"
  shows "registry_inv used (latest(c := (latest c)(ty callback := Some callback))) (store_boxed c i (Callback callback) s)"
proof -
  let ?s = "store_boxed c i (Callback callback) s" and ?l = "latest(c := (latest c)(ty callback := Some callback))"
  have i: "i \<in> used (rg_lib s)" using assms by (auto simp: registry_inv_def indexes_inv_def intro: ranI)
  have other: "rg_indexes s t \<noteq> Some i" if "t \<noteq> ty callback" for t
    using assms that by (auto simp: registry_inv_def indexes_inv_def inj_on_def dom_def)
  have "indexes_inv used ?s" using assms(1) by (simp add: registry_inv_def indexes_inv_def store_boxed_def)
  moreover have "slots_inv used ?s ?l"
    using assms i other by (auto simp: registry_inv_def slots_inv_def store_boxed_def)
  moreover have "given_inv ?s ?l" using assms(1) by (force simp: registry_inv_def given_inv_def store_boxed_def)
  ultimately show ?thesis by (simp add: registry_inv_def)
qed

lemma registry_inv_store_fn:
  assumes "registry_inv used latest s" "rg_cert_verify_index s = Forced j"
  shows "registry_inv used latest (store_boxed c j (Cert_Verify_Fn t) s)"
proof -
  have j: "j \<in> used (rg_lib s)" "\<forall>t. rg_indexes s t \<noteq> Some j"
    using assms by (auto simp: registry_inv_def indexes_inv_def ran_def)
  then show ?thesis
    using assms(1) by (auto simp: registry_inv_def indexes_inv_def slots_inv_def given_inv_def store_boxed_def)
qed


text \<open>What holds between the calls of a setter that changes what is registered for \<open>c\<close> and a type.\<close>

lemma new_ex_index_cases:
  assumes "index_spec G used" "new_ex_index G s q = (r, s', q')"
  shows "(\<exists>l i. r = Ok i \<and> s' = s\<lparr>rg_lib := l\<rparr> \<and> i \<notin> used (rg_lib s) \<and> used l = insert i (used (rg_lib s))) \<or>
    (\<exists>p. r = Panicked p)"
proof -
  obtain n l q1 where call: "SSL_CTX_get_ex_new_index G (rg_lib s) q = (n, l, q1)" by (metis prod.collapse)
  have "if n < 0 then used l = used (rg_lib s) else nat n \<notin> used (rg_lib s) \<and> used l = insert (nat n) (used (rg_lib s))"
    using assms(1) call unfolding index_spec_def by meson
  then show ?thesis
    using assms(2) call by (auto simp: new_ex_index_def on_rg_lib_def cvt_n_def fail_stack_def split: prod.splits if_splits)
qed

lemma cached_ex_index_hoare:
  assumes "index_spec G used"
  shows "hoare (registry_inv used latest) (cached_ex_index G t)
    (\<lambda>i s. registry_inv used latest s \<and> rg_indexes s t = Some i) E"
proof (rule hoareI)
  fix s :: "('a, 'b) registry" and q assume inv: "registry_inv used latest s"
  show "result_ok (\<lambda>i s. registry_inv used latest s \<and> rg_indexes s t = Some i) E (cached_ex_index G t s q)"
  proof (cases "rg_indexes s t")
    case None
    obtain r s1 q1 where new: "new_ex_index G s q = (r, s1, q1)" by (metis prod.collapse)
    show ?thesis
      using new_ex_index_cases[OF assms new] None new registry_inv_index[OF inv _ _ None]
      by (auto simp: cached_ex_index_def ethen_def)
  qed (simp add: cached_ex_index_def inv ebind_def)
qed

lemma cert_verify_index_hoare:
  assumes "index_spec G used"
  shows "hoare (registry_inv used latest) (cert_verify_index G)
    (\<lambda>j s. registry_inv used latest s \<and> rg_cert_verify_index s = Forced j) E"
proof (rule hoareI)
  fix s :: "('a, 'b) registry" and q assume inv: "registry_inv used latest s"
  have forced: "registry_inv used latest (s\<lparr>rg_lib := l, rg_cert_verify_index := Forced i\<rparr>)"
    if "i \<notin> used (rg_lib s)" "used l = insert i (used (rg_lib s))" for l i
    using inv that by (auto simp: registry_inv_def indexes_inv_def slots_inv_def given_inv_def)
  show "result_ok (\<lambda>j s. registry_inv used latest s \<and> rg_cert_verify_index s = Forced j) E (cert_verify_index G s q)"
  proof (cases "rg_cert_verify_index s")
    case Unforced
    obtain r s1 q1 where new: "new_ex_index G s q = (r, s1, q1)" by (metis prod.collapse)
    show ?thesis
      using new_ex_index_cases[OF assms new] Unforced new forced by (auto simp: cert_verify_index_def)
  qed (simp_all add: cert_verify_index_def inv)
qed

definition registered :: "('c \<Rightarrow> nat) \<Rightarrow> nat \<Rightarrow> 'c \<Rightarrow> (nat \<Rightarrow> nat \<Rightarrow> 'c option) \<Rightarrow> nat \<Rightarrow> nat \<Rightarrow> 'c option" where
  "registered ty c callback latest = latest(c := (latest c)(ty callback := Some callback))"

lemma registered_same [simp]: "registered ty c callback latest c (ty callback) = Some callback"
  by (simp add: registered_def)

lemma store_callback_hoare:
  assumes "index_spec G used"
    and "\<And>i. hoare (\<lambda>s. registry_inv used (registered ty c callback latest) s \<and> ex_get (rg_ex s c) i \<noteq> None) (rest i) Q E"
  shows "hoare (registry_inv used latest)
    (ebind (cached_ex_index G (ty callback)) (\<lambda>i. ethen (eput (store_boxed c i (Callback callback))) (rest i))) Q E"
proof (rule hoare_ebind[OF cached_ex_index_hoare[OF assms(1)]], rule hoare_ethen[OF hoare_basic(1) assms(2)])
  fix i and s :: "('a, 'b) registry" assume "registry_inv used latest s \<and> rg_indexes s (ty callback) = Some i"
  then show "registry_inv used (registered ty c callback latest) (store_boxed c i (Callback callback) s) \<and>
      ex_get (rg_ex (store_boxed c i (Callback callback) s) c) i \<noteq> None"
    using registry_inv_store[of used latest s ty callback i c] by (simp add: registered_def) (simp add: store_boxed_def)
qed

lemma give_hoare:
  "hoare (\<lambda>s. registry_inv used (registered ty c callback latest) s \<and> R s) (eput (give c k (ty callback)))
    (\<lambda>_. registry_inv used (registered ty c callback latest)) E"
  by (rule hoare_basic) (simp add: registry_inv_give)

lemma check_x509_hoare: "hoare P (rg_check_x509 c) (\<lambda>_. P) E"
  unfolding rg_check_x509_def
  by (rule hoareI) (simp add: ebind_def eassert_def)

lemma ecvt_hoare:
  assumes "\<And>l q x l' q'. f l q = (x, l', q') \<Longrightarrow> used l' = used l"
  shows "hoare (registry_inv used latest) (ecvt (on_rg_lib f)) (\<lambda>_. registry_inv used latest) (registry_inv used latest)"
proof (rule hoareI)
  fix s and q :: err_queue assume inv: "registry_inv used latest s"
  obtain r x l q1 where call: "f (rg_lib s) q = ((r, x), l, q1)" by (metis prod.collapse)
  then show "result_ok (\<lambda>_. registry_inv used latest) (registry_inv used latest) (ecvt (on_rg_lib f) s q)"
    using registry_inv_lib[OF inv assms[OF call]] by (simp add: ecvt_def cvt_def on_rg_lib_def fail_stack_def split: prod.split)
qed

lemma store_and_give_hoare:
  assumes "index_spec G used"
  shows "hoare (registry_inv used latest) (store_and_give G ty k c callback)
    (\<lambda>_. registry_inv used (registered ty c callback latest)) E"
  unfolding store_and_give_def by (rule store_callback_hoare[OF assms give_hoare])

lemma index_spec_calls:
  assumes "index_spec G used"
  shows "SSL_CTX_set_tlsext_status_cb G c l q = (x, l', q') \<Longrightarrow> used l' = used l"
    "SSL_CTX_set_quic_method G c l q = (x, l', q') \<Longrightarrow> used l' = used l"
    "SSL_CTX_add_cert_compression_alg G c a l q = (r, l', q') \<Longrightarrow> used l' = used l"
  using assms unfolding index_spec_def by blast+

lemma failing_setter_hoare:
  assumes "index_spec G used" "\<And>l q x l' q'. f l q = (x, l', q') \<Longrightarrow> used l' = used l"
  shows "hoare (registry_inv used latest)
    (ebind (cached_ex_index G (ty callback)) (\<lambda>i.
       ethen (eput (store_boxed c i (Callback callback))) (ethen (eput (give c k (ty callback))) (ecvt (on_rg_lib f)))))
    (\<lambda>_. registry_inv used (registered ty c callback latest)) (registry_inv used (registered ty c callback latest))"
  by (rule store_callback_hoare[OF assms(1)], rule hoare_ethen[OF give_hoare], rule ecvt_hoare) (rule assms(2))

lemma cert_verify_hoare:
  assumes "index_spec G used"
  shows "hoare (registry_inv used latest) (set_cert_verify_callback G ty c callback)
    (\<lambda>_. registry_inv used (registered ty c callback latest)) E"
  unfolding set_cert_verify_callback_def
proof (rule hoare_ethen[OF check_x509_hoare], rule store_callback_hoare[OF assms])
  fix i
  show "hoare (\<lambda>s. registry_inv used (registered ty c callback latest) s \<and> ex_get (rg_ex s c) i \<noteq> None)
     (ebind (cert_verify_index G) (\<lambda>j. ethen (eput (store_boxed c j (Cert_Verify_Fn (ty callback))))
       (eput (give c Raw_Cert_Verify (ty callback)))))
     (\<lambda>_. registry_inv used (registered ty c callback latest)) E"
    by (rule hoare_conseq[of "registry_inv used (registered ty c callback latest)"],
        rule hoare_ebind[OF cert_verify_index_hoare[OF assms]], rule hoare_ethen[OF hoare_basic(1) hoare_basic(1)])
      (auto simp: registry_inv_store_fn registry_inv_give)
qed

lemma servername_hoare:
  assumes "index_spec G used"
  shows "hoare (registry_inv used latest) (set_servername_callback G ty c callback)
    (\<lambda>_. registry_inv used (registered ty c callback latest)) E"
  unfolding set_servername_callback_def
proof (rule store_callback_hoare[OF assms])
  fix i
  show "hoare (\<lambda>s. registry_inv used (registered ty c callback latest) s \<and> ex_get (rg_ex s c) i \<noteq> None)
     (ebind (eget (\<lambda>s. ex_get (rg_ex s c) i)) (\<lambda>found.
       ethen (eassert (found \<noteq> None) ''called `Option::unwrap()` on a `None` value'') (eput (give c Raw_Sni (ty callback)))))
     (\<lambda>_. registry_inv used (registered ty c callback latest)) E"
    by (rule hoareI) (auto simp: ebind_def ethen_def eassert_def registry_inv_give)
qed

lemma compression_hoare:
  assumes "index_spec G used"
  shows "hoare (registry_inv used latest) (add_certificate_compression_algorithm G ty c compressor)
    (\<lambda>_. registry_inv used (registered ty c compressor latest)) (registry_inv used latest)"
proof (rule hoareI)
  fix s and q :: err_queue assume inv: "registry_inv used latest s"
  obtain r l q1 where call: "SSL_CTX_add_cert_compression_alg G c (ty compressor) (rg_lib s) q = (r, l, q1)"
    by (metis prod.collapse)
  note inv1 = registry_inv_lib[OF inv index_spec_calls(3)[OF assms call]]
  let ?s = "s\<lparr>rg_lib := l\<rparr>"
  obtain i s2 q2 r2 where idx: "cached_ex_index G (ty compressor) ?s q1 = (r2, s2, q2)" by (metis prod.collapse)
  have given: "cached_ex_index G t (give c k t' s) q = (case cached_ex_index G t s q of (r, s', q') \<Rightarrow> (r, give c k t' s', q'))"
    for t k t' and s :: "('a, 'b) registry" and q
    by (auto simp: cached_ex_index_def ebind_def ethen_def new_ex_index_def on_rg_lib_def give_def cvt_n_def fail_stack_def
        split: option.splits prod.splits)
  have swap: "store_boxed c i v (give c k t s) = give c k t (store_boxed c i v s)" for i v k t and s :: "('a, 'b) registry"
    by (simp add: store_boxed_def give_def)
  have "registry_inv used (registered ty c compressor latest) (give c k (ty compressor) (store_boxed c i (Callback compressor) s2))"
    if "r2 = Ok i" for i k
  proof -
    have "registry_inv used latest s2 \<and> rg_indexes s2 (ty compressor) = Some i"
      using hoareD[OF cached_ex_index_hoare[OF assms] inv1, of "ty compressor" _ q1] that by (simp add: idx)
    then show ?thesis
      unfolding registered_def by (intro registry_inv_give registry_inv_store) auto
  qed
  moreover have "r2 \<noteq> Err es" for es
    using hoareD[OF cached_ex_index_hoare[OF assms, where E = "\<lambda>_. False"] inv1, of "ty compressor" q1] by (auto simp: idx)
  ultimately show "result_ok (\<lambda>_. registry_inv used (registered ty c compressor latest)) (registry_inv used latest)
      (add_certificate_compression_algorithm G ty c compressor s q)"
    using inv1 call
    by (cases r2) (auto simp: add_certificate_compression_algorithm_def on_rg_lib_def ebind_def given idx swap split: prod.split)
qed

lemma register_one_hoare:
  assumes "index_spec G used"
  shows "hoare (registry_inv used latest) (register_one G ty (Register k c callback))
    (\<lambda>_. registry_inv used (registered ty c callback latest))
    (registry_inv used (if k = Raw_Cert_Compression then latest else registered ty c callback latest))"
  by (cases k)
    (simp_all add: set_verify_callback_def set_custom_verify_callback_def set_ticket_key_callback_def
      set_alpn_select_callback_def set_select_certificate_callback_with_action_def set_status_callback_def
      set_psk_client_callback_def set_psk_server_callback_def set_new_session_callback_def
      set_remove_session_callback_def set_get_session_callback_def set_keylog_callback_def set_info_callback_def
      set_private_key_method_def set_quic_method_def store_and_give_hoare[OF assms]
      hoare_ethen[OF check_x509_hoare store_and_give_hoare[OF assms]] cert_verify_hoare[OF assms]
      servername_hoare[OF assms] compression_hoare[OF assms]
      failing_setter_hoare[OF assms index_spec_calls(1)[OF assms]] failing_setter_hoare[OF assms index_spec_calls(2)[OF assms]])

lemma register_all_inv:
  assumes "index_spec G used"
  shows "register_all G ty regs s q = (rs, s', q') \<Longrightarrow> (\<forall>p. Panicked p \<notin> set rs) \<Longrightarrow> registry_inv used latest s \<Longrightarrow>
    registry_inv used (latest_registered ty (zip regs rs) latest) s'"
proof (induction regs arbitrary: s q rs latest s' q')
  case (Cons reg regs)
  obtain k c callback where reg: "reg = Register k c callback" by (cases reg)
  obtain r s1 q1 where one: "register_one G ty reg s q = (r, s1, q1)" by (metis prod.collapse)
  have inv: "registry_inv used (remember ty reg r latest) s1" if "\<forall>p. r \<noteq> Panicked p"
    using hoareD[OF register_one_hoare[OF assms, of latest ty k c callback] Cons.prems(3), of q] one that
    unfolding reg by (cases r) (auto simp: registered_def split: if_splits)
  obtain rs2 s2 q2 where rest: "register_all G ty regs s1 q1 = (rs2, s2, q2)" by (metis prod.collapse)
  show ?case
  proof (cases r)
    case (Panicked p)
    then have "Panicked p \<in> set rs" using Cons.prems(1) one by auto
    then show ?thesis using Cons.prems(2) by blast
  next
    case (Ok u)
    then have "rs = Ok u # rs2" "s' = s2" using Cons.prems(1) one rest by simp_all
    then show ?thesis using Cons.IH[OF rest, of "remember ty reg r latest"] inv Ok Cons.prems(2) by simp
  next
    case (Err es)
    then have "rs = Err es # rs2" "s' = s2" using Cons.prems(1) one rest by simp_all
    then show ?thesis using Cons.IH[OF rest, of "remember ty reg r latest"] inv Err Cons.prems(2) by simp
  qed
qed simp

lemma latest_well_typed:
  "(\<forall>c t cb. latest c t = Some cb \<longrightarrow> ty cb = t) \<Longrightarrow> latest_registered ty xs latest c t = Some cb \<Longrightarrow> ty cb = t"
proof (induction xs arbitrary: latest)
  case (Cons x xs)
  have "\<forall>c t cb. remember ty (fst x) (snd x) latest c t = Some cb \<longrightarrow> ty cb = t"
    using Cons.prems(1) by (cases "fst x") (auto split: if_splits)
  then show ?case using Cons.IH Cons.prems(2) by simp
qed simp

lemma registered_inv:
  assumes "index_spec G used"
    and "register_all G ty regs (registry_fresh l x509) q = (rs, s, q')" and "\<forall>p. Panicked p \<notin> set rs"
  shows "registry_inv used (latest_registered ty (zip regs rs) (\<lambda>_ _. None)) s"
proof (rule register_all_inv[OF assms])
  show "registry_inv used (\<lambda>_ _. None) (registry_fresh l x509)"
    by (simp add: registry_inv_def indexes_inv_def slots_inv_def given_inv_def registry_fresh_def)
qed

lemma find_registered:
  assumes "registry_inv used latest s" "rg_indexes s t \<noteq> None"
  shows "find_callback G c t s q = (Ok (map_option Callback (latest c t)), s, q)"
  using assms by (auto simp: find_callback_def cached_ex_index_def ebind_def registry_inv_def slots_inv_def)

lemma given_latest:
  assumes "registry_inv used latest s" "(k, t) \<in> set (rg_given s c)"
  shows "latest c t \<noteq> None" "rg_indexes s t \<noteq> None"
proof -
  have "\<forall>(k, t)\<in>set (rg_given s c). latest c t \<noteq> None"
    using assms(1) unfolding registry_inv_def given_inv_def by blast
  then show latest: "latest c t \<noteq> None" using assms(2) by blast
  have "rg_indexes s t = None \<longrightarrow> latest c t = None"
    using assms(1) unfolding registry_inv_def slots_inv_def by blast
  then show "rg_indexes s t \<noteq> None" using latest by blast
qed

section \<open>Properties\<close>

text \<open>
  C5: However callbacks are registered on contexts, in any order and with any errors, a lookup for a known type on a
  context finds the callback of that type that was registered last on it, and nothing if there was none. Each C
  function that BoringSSL was given for a context finds a callback of the very type it casts to there.
\<close>

theorem callbacks_found_with_their_type:
  assumes "index_spec G used"
    and "register_all G ty regs (registry_fresh l x509) q = (rs, s, q')" and "\<forall>p. Panicked p \<notin> set rs"
  shows "(rg_indexes s t \<noteq> None \<longrightarrow> find_callback G c t s q1 =
      (Ok (map_option Callback (latest_registered ty (zip regs rs) (\<lambda>_ _. None) c t)), s, q1)) \<and>
    ((k, t) \<in> set (rg_given s c) \<longrightarrow> (\<exists>cb. ty cb = t \<and> find_callback G c t s q1 = (Ok (Some (Callback cb)), s, q1)))"
proof -
  let ?latest = "latest_registered ty (zip regs rs) (\<lambda>_ _. None)"
  note inv = registered_inv[OF assms]
  have find: "find_callback G c t s q1 = (Ok (map_option Callback (?latest c t)), s, q1)" if "rg_indexes s t \<noteq> None"
    by (rule find_registered[OF inv that])
  show ?thesis using find given_latest[OF inv, of k t c] latest_well_typed[of "\<lambda>_ _. None" ty "zip regs rs" c t] by auto
qed

text \<open>
  BoringSSL calls the verification function of the context that a connection was made for, also after the
  connection has changed its context; the function looks the callback up in the current context. So it runs the last
  callback of its type that was registered there, and panics if there is none.
\<close>

lemma verification_after_context_change:
  assumes "index_spec G used"
    and "register_all G ty regs (registry_fresh l x509) q = (rs, s, q')" and "\<forall>p. Panicked p \<notin> set rs"
    and "(Raw_Custom_Verify, t) \<in> set (rg_given s made_for)"
  shows "raw_custom_verify (looked_up G s t ctx_of run) (out_alert, conn) =
    (case latest_registered ty (zip regs rs) (\<lambda>_ _. None) (ctx_of conn) t of
       None \<Rightarrow> (Panic ''BUG: custom verify callback missing'', out_alert, conn)
     | Some cb \<Rightarrow> raw_custom_verify_callback (run cb) (out_alert, conn)) \<and>
    latest_registered ty (zip regs rs) (\<lambda>_ _. None) made_for t \<noteq> None"
proof -
  note inv = registered_inv[OF assms(1-3)]
  have known: "latest_registered ty (zip regs rs) (\<lambda>_ _. None) made_for t \<noteq> None" "rg_indexes s t \<noteq> None"
    by (rule given_latest[OF inv assms(4)])+
  have "looked_up G s t ctx_of run conn =
      map_option run (latest_registered ty (zip regs rs) (\<lambda>_ _. None) (ctx_of conn) t)"
    unfolding looked_up_def find_registered[OF inv known(2)] by (simp split: option.split)
  then show ?thesis
    using known(1)
    by (cases "latest_registered ty (zip regs rs) (\<lambda>_ _. None) (ctx_of conn) t")
      (simp_all add: raw_custom_verify_def raw_custom_verify_callback_def with_callback_def)
qed

section \<open>Indexes that are counted\<close>

definition counted :: "nat registry_api" where
  "counted =
     \<lparr>SSL_CTX_get_ex_new_index = (\<lambda>l q. (int l, l + 1, q)),
      SSL_CTX_set_tlsext_status_cb = (\<lambda>c l q. ((1, ()), l, q)),
      SSL_CTX_set_quic_method = (\<lambda>c l q. ((1, ()), l, q)),
      SSL_CTX_add_cert_compression_alg = (\<lambda>c a l q. (1, l, q))\<rparr>"

lemma counted_ok: "index_spec counted (\<lambda>l. {..<l})"
  by (auto simp: index_spec_def counted_def)

text \<open>Callbacks are numbers, their type is the tens digit; contexts 0 and 1.\<close>

definition sample_regs :: "nat registration list" where
  "sample_regs = [Register Raw_Custom_Verify 0 31, Register Raw_Alpn_Select 0 42, Register Raw_Custom_Verify 0 35]"

lemma cached_ex_index_known: "rg_indexes s t = Some i \<Longrightarrow> cached_ex_index G t s q = (Ok i, s, q)"
  by (simp add: cached_ex_index_def ebind_def)

lemma cached_ex_index_counted:
  "rg_indexes s t = None \<Longrightarrow> cached_ex_index counted t s q =
     (Ok (rg_lib s), s\<lparr>rg_lib := rg_lib s + 1, rg_indexes := (rg_indexes s)(t := Some (rg_lib s))\<rparr>, q)"
  by (simp add: cached_ex_index_def ebind_def ethen_def new_ex_index_def on_rg_lib_def counted_def cvt_n_def)

lemma store_and_give_apply:
  "cached_ex_index G (ty cb) s q = (Ok i, s1, q1) \<Longrightarrow>
     store_and_give G ty k c cb s q = (Ok (), give c k (ty cb) (store_boxed c i (Callback cb) s1), q1)"
  by (simp add: store_and_give_def ebind_def ethen_def)

definition sample_registry :: "(nat, nat) registry" where
  "sample_registry =
     give 0 Raw_Custom_Verify 3 (store_boxed 0 5 (Callback 35)
       (give 0 Raw_Alpn_Select 4 (store_boxed 0 6 (Callback 42)
         (give 0 Raw_Custom_Verify 3 (store_boxed 0 5 (Callback 31)
           ((registry_fresh 5 (\<lambda>_. True))\<lparr>rg_lib := 6, rg_indexes := Map.empty(3 := Some 5)\<rparr>))
          \<lparr>rg_lib := 7, rg_indexes := Map.empty(3 := Some 5, 4 := Some 6)\<rparr>))))"

lemma kept_simps [simp]:
  "rg_indexes (give c k t s) = rg_indexes s" "rg_indexes (store_boxed c i v s) = rg_indexes s"
  "rg_lib (give c k t s) = rg_lib s" "rg_lib (store_boxed c i v s) = rg_lib s"
  "rg_given (store_boxed c i v s) = rg_given s"
  "rg_given (give c k t s) = (rg_given s)(c := rg_given s c @ [(k, t)])"
  by (simp_all add: give_def store_boxed_def)

lemma sample_run:
  "register_all counted (\<lambda>cb. cb div 10) sample_regs (registry_fresh 5 (\<lambda>_. True)) [] =
     ([Ok (), Ok (), Ok ()], sample_registry, [])"
proof -
  let ?S0 = "registry_fresh 5 (\<lambda>_. True) :: (nat, nat) registry"
  let ?S1 = "give 0 Raw_Custom_Verify 3 (store_boxed 0 5 (Callback 31) (?S0\<lparr>rg_lib := 6, rg_indexes := Map.empty(3 := Some 5)\<rparr>))"
  let ?S2 = "give 0 Raw_Alpn_Select 4 (store_boxed 0 6 (Callback 42)
      (?S1\<lparr>rg_lib := 7, rg_indexes := Map.empty(3 := Some 5, 4 := Some 6)\<rparr>))"
  have 1: "register_one counted (\<lambda>cb. cb div 10) (Register Raw_Custom_Verify 0 31) ?S0 [] = (Ok (), ?S1, [])"
    by (simp add: set_custom_verify_callback_def store_and_give_apply cached_ex_index_counted registry_fresh_def)
  have 2: "register_one counted (\<lambda>cb. cb div 10) (Register Raw_Alpn_Select 0 42) ?S1 [] = (Ok (), ?S2, [])"
    by (simp add: set_alpn_select_callback_def store_and_give_apply cached_ex_index_counted)
  have 3: "register_one counted (\<lambda>cb. cb div 10) (Register Raw_Custom_Verify 0 35) ?S2 [] = (Ok (), sample_registry, [])"
    by (simp add: set_custom_verify_callback_def store_and_give_apply cached_ex_index_known sample_registry_def)
  show ?thesis unfolding sample_regs_def register_all.simps 1 2 3 prod.case eresult.case by simp
qed

lemma sample_given: "(Raw_Custom_Verify, 3) \<in> set (rg_given sample_registry 0)"
  by (simp add: sample_registry_def)

lemma sample_latest:
  "latest_registered (\<lambda>cb. cb div 10) (zip sample_regs [Ok (), Ok (), Ok ()]) (\<lambda>_ _. None) 0 3 = Some 35"
  "latest_registered (\<lambda>cb. cb div 10) (zip sample_regs [Ok (), Ok (), Ok ()]) (\<lambda>_ _. None) 1 3 = None"
  by (simp_all add: sample_regs_def)

theorem callbacks_found_with_their_type_witness:
  "\<exists>cb. cb div 10 = 3 \<and>
     find_callback counted 0 3 sample_registry [] = (Ok (Some (Callback cb)), sample_registry, [])"
  using callbacks_found_with_their_type[OF counted_ok sample_run, of 3 0 "[]" Raw_Custom_Verify] sample_given by auto

end
