(* ===== verification/Ssl_Config.thy ===== *)
theory Ssl_Config
  imports Effects Ech_Grease Callbacks
begin

text \<open>
  Small types and settings of \<open>btls/src/ssl/mod.rs\<close>: protocol versions and their text, GREASE values, the choice of
  an application protocol, and the setters of versions, protocols and lists on contexts and connections. BoringSSL's
  constants are a record of parameters; \<open>'s\<close> is its object, an \<open>SSL_CTX\<close> or an \<open>SSL\<close>.
\<close>

section \<open>Protocol versions\<close>

type_synonym ssl_version = "16 word"

record version_codes =
  SSL3_VERSION :: ssl_version
  TLS1_VERSION :: ssl_version
  TLS1_1_VERSION :: ssl_version
  TLS1_2_VERSION :: ssl_version
  TLS1_3_VERSION :: ssl_version
  DTLS1_VERSION :: ssl_version
  DTLS1_2_VERSION :: ssl_version
  DTLS1_3_VERSION :: ssl_version

definition known_versions :: "version_codes \<Rightarrow> ssl_version list" where
  "known_versions K =
     [SSL3_VERSION K, TLS1_VERSION K, TLS1_1_VERSION K, TLS1_2_VERSION K, TLS1_3_VERSION K,
      DTLS1_VERSION K, DTLS1_2_VERSION K, DTLS1_3_VERSION K]"

definition version_try_from :: "version_codes \<Rightarrow> 16 word \<Rightarrow> string + ssl_version" where
  "version_try_from K value =
     (if value \<in> {SSL3_VERSION K, TLS1_VERSION K, TLS1_1_VERSION K, TLS1_2_VERSION K, TLS1_3_VERSION K,
         DTLS1_VERSION K, DTLS1_2_VERSION K, DTLS1_3_VERSION K}
      then Inr value else Inl ''Unknown SslVersion'')"

text \<open>\<open>{:#06x}\<close> of a \<open>u16\<close>.\<close>

definition hex_digit :: "nat \<Rightarrow> char" where
  "hex_digit n = (if n < 10 then char_of (48 + n) else char_of (87 + n))"

definition hex_06 :: "16 word \<Rightarrow> string" where
  "hex_06 w =
     ''0x'' @ map (\<lambda>k. hex_digit (unat w div k mod 16)) [4096, 256, 16, 1]"

definition version_debug :: "version_codes \<Rightarrow> ssl_version \<Rightarrow> string" where
  "version_debug K v =
     (if v = SSL3_VERSION K then ''SSL3''
      else if v = TLS1_VERSION K then ''TLS1''
      else if v = TLS1_1_VERSION K then ''TLS1_1''
      else if v = TLS1_2_VERSION K then ''TLS1_2''
      else if v = TLS1_3_VERSION K then ''TLS1_3''
      else if v = DTLS1_VERSION K then ''DTLS1''
      else if v = DTLS1_2_VERSION K then ''DTLS1_2''
      else if v = DTLS1_3_VERSION K then ''DTLS1_3''
      else hex_06 v)"

definition version_display :: "version_codes \<Rightarrow> ssl_version \<Rightarrow> string" where
  "version_display K v =
     (if v = SSL3_VERSION K then ''SSLv3''
      else if v = TLS1_VERSION K then ''TLSv1''
      else if v = TLS1_1_VERSION K then ''TLSv1.1''
      else if v = TLS1_2_VERSION K then ''TLSv1.2''
      else if v = TLS1_3_VERSION K then ''TLSv1.3''
      else if v = DTLS1_VERSION K then ''DTLSv1.0''
      else if v = DTLS1_2_VERSION K then ''DTLSv1.2''
      else if v = DTLS1_3_VERSION K then ''DTLSv1.3''
      else ''unknown ('' @ hex_06 v @ '')'')"

text \<open>\<open>SslSignatureAlgorithm\<close>: its name, if BoringSSL has one that is UTF-8, and its text.\<close>

definition sigalg_name :: "(16 word \<Rightarrow> string option) \<Rightarrow> (string \<Rightarrow> string option) \<Rightarrow> 16 word \<Rightarrow> string option" where
  "sigalg_name alg_name utf8 a = (case alg_name a of None \<Rightarrow> None | Some s \<Rightarrow> utf8 s)"

definition sigalg_display :: "(16 word \<Rightarrow> string option) \<Rightarrow> (string \<Rightarrow> string option) \<Rightarrow> 16 word \<Rightarrow> string" where
  "sigalg_display alg_name utf8 a =
     (case sigalg_name alg_name utf8 a of Some name \<Rightarrow> name | None \<Rightarrow> ''unknown ('' @ hex_06 a @ '')'')"

section \<open>The order of info callback values\<close>

text \<open>The order that \<open>SslInfoCallbackValue\<close> derives: by variant, and alerts by their \<open>c_int\<close>.\<close>

instantiation ssl_info_callback_value :: linorder
begin

definition less_eq_ssl_info_callback_value :: "ssl_info_callback_value \<Rightarrow> ssl_info_callback_value \<Rightarrow> bool" where
  "less_eq_ssl_info_callback_value v w =
     (case (v, w) of
        (Info_Unit, _) \<Rightarrow> True
      | (Info_Alert _, Info_Unit) \<Rightarrow> False
      | (Info_Alert a, Info_Alert b) \<Rightarrow> sint a \<le> sint b)"

definition less_ssl_info_callback_value :: "ssl_info_callback_value \<Rightarrow> ssl_info_callback_value \<Rightarrow> bool" where
  "less_ssl_info_callback_value v w \<longleftrightarrow> v \<le> w \<and> \<not> w \<le> v"

instance
proof
  fix v w :: ssl_info_callback_value
  show "v \<le> w \<Longrightarrow> w \<le> v \<Longrightarrow> v = w"
    by (auto simp: less_eq_ssl_info_callback_value_def word_eq_iff_signed[where 'a = int]
        split: ssl_info_callback_value.splits)
qed (auto simp: less_eq_ssl_info_callback_value_def less_ssl_info_callback_value_def
    split: ssl_info_callback_value.splits)

end

section \<open>Settings\<close>

text \<open>What the setters call.\<close>

record 's config_api =
  cf_err_lib_none :: "32 word"
  cf_uint_max :: nat
  cf_set_min_proto_version :: "16 word \<Rightarrow> 's \<Rightarrow> err_queue \<Rightarrow> (int \<times> unit) \<times> 's \<times> err_queue"
  cf_set_max_proto_version :: "16 word \<Rightarrow> 's \<Rightarrow> err_queue \<Rightarrow> (int \<times> unit) \<times> 's \<times> err_queue"
  cf_get_min_proto_version :: "'s \<Rightarrow> 16 word"
  cf_get_max_proto_version :: "'s \<Rightarrow> 16 word"
  cf_set_alpn_protos :: "byte list \<Rightarrow> nat \<Rightarrow> 's \<Rightarrow> err_queue \<Rightarrow> int \<times> 's \<times> err_queue"
  cf_set_tlsext_use_srtp :: "string \<Rightarrow> 's \<Rightarrow> err_queue \<Rightarrow> int \<times> 's \<times> err_queue"
  cf_set_session_id_context :: "byte list \<Rightarrow> nat \<Rightarrow> 's \<Rightarrow> err_queue \<Rightarrow> (int \<times> unit) \<times> 's \<times> err_queue"
  cf_set_sigalgs_list :: "string \<Rightarrow> 's \<Rightarrow> err_queue \<Rightarrow> (int \<times> unit) \<times> 's \<times> err_queue"
  cf_set_curves_list :: "string \<Rightarrow> 's \<Rightarrow> err_queue \<Rightarrow> int \<times> 's \<times> err_queue"

definition set_min_proto_version :: "'s config_api \<Rightarrow> ssl_version option \<Rightarrow> ('s, unit) eff" where
  "set_min_proto_version A version = ecvt (cf_set_min_proto_version A (case version of None \<Rightarrow> 0 | Some v \<Rightarrow> v))"

definition set_max_proto_version :: "'s config_api \<Rightarrow> ssl_version option \<Rightarrow> ('s, unit) eff" where
  "set_max_proto_version A version = ecvt (cf_set_max_proto_version A (case version of None \<Rightarrow> 0 | Some v \<Rightarrow> v))"

definition min_proto_version :: "'s config_api \<Rightarrow> 's \<Rightarrow> ssl_version option" where
  "min_proto_version A s = (let r = cf_get_min_proto_version A s in if r = 0 then None else Some r)"

definition max_proto_version :: "'s config_api \<Rightarrow> 's \<Rightarrow> ssl_version option" where
  "max_proto_version A s = (let r = cf_get_max_proto_version A s in if r = 0 then None else Some r)"

text \<open>Two calls with reversed return codes: \<open>0\<close> is success.\<close>

definition reversed_cvt :: "('s \<Rightarrow> err_queue \<Rightarrow> int \<times> 's \<times> err_queue) \<Rightarrow> ('s, unit) eff" where
  "reversed_cvt f s q =
     (case f s q of
        (r, s', q1) \<Rightarrow>
          if r = 0 then (Ok (), s', q1) else (case error_stack_get q1 of (es, q2) \<Rightarrow> (Err es, s', q2)))"

definition set_alpn_protos :: "'s config_api \<Rightarrow> byte list \<Rightarrow> ('s, unit) eff" where
  "set_alpn_protos A protocols =
     ebind (etry_int (cf_uint_max A) (cf_err_lib_none A) (length protocols)) (\<lambda>len.
       reversed_cvt (cf_set_alpn_protos A protocols len))"

definition set_tlsext_use_srtp :: "'s config_api \<Rightarrow> string \<Rightarrow> ('s, unit) eff" where
  "set_tlsext_use_srtp A protocols =
     ebind (ecstring (cf_err_lib_none A) protocols) (\<lambda>cstr. reversed_cvt (cf_set_tlsext_use_srtp A cstr))"

definition set_session_id_context :: "'s config_api \<Rightarrow> byte list \<Rightarrow> ('s, unit) eff" where
  "set_session_id_context A sid_ctx =
     ethen (eassert (length sid_ctx \<le> cf_uint_max A) ''assertion failed: sid_ctx.len() <= c_uint::MAX as usize'')
       (ecvt (cf_set_session_id_context A sid_ctx (length sid_ctx)))"

definition set_sigalgs_list :: "'s config_api \<Rightarrow> string \<Rightarrow> ('s, unit) eff" where
  "set_sigalgs_list A sigalgs =
     ebind (ecstring (cf_err_lib_none A) sigalgs) (\<lambda>sigalgs. ecvt (cf_set_sigalgs_list A sigalgs))"

definition ecvt_0i :: "('s \<Rightarrow> err_queue \<Rightarrow> int \<times> 's \<times> err_queue) \<Rightarrow> ('s, unit) eff" where
  "ecvt_0i f s q =
     (case f s q of
        (r, s', q1) \<Rightarrow> (case cvt_0i r q1 of (Inl es, q2) \<Rightarrow> (Err es, s', q2) | (Inr _, q2) \<Rightarrow> (Ok (), s', q2)))"

definition set_curves_list :: "'s config_api \<Rightarrow> string \<Rightarrow> ('s, unit) eff" where
  "set_curves_list A curves =
     ebind (ecstring (cf_err_lib_none A) curves) (\<lambda>curves. ecvt_0i (cf_set_curves_list A curves))"

text \<open>
  \<open>select_next_proto\<close>: BoringSSL's choice and whether it was negotiated; lengths that do not fit \<open>c_uint\<close> give no
  protocol.
\<close>

definition select_next_proto ::
    "nat \<Rightarrow> int \<Rightarrow> (byte list \<Rightarrow> nat \<Rightarrow> byte list \<Rightarrow> nat \<Rightarrow> int \<times> byte list) \<Rightarrow> byte list \<Rightarrow> byte list \<Rightarrow> byte list option" where
  "select_next_proto uint_max NPN_NEGOTIATED select server client =
     (if server = [] \<or> client = [] then None
      else if length server > uint_max \<or> length client > uint_max then None
      else (case select server (length server) client (length client) of
              (r, out) \<Rightarrow> if r = NPN_NEGOTIATED then Some out else None))"

section \<open>Properties\<close>

lemma hex_digit_inj: "m < 16 \<Longrightarrow> n < 16 \<Longrightarrow> hex_digit m = hex_digit n \<Longrightarrow> m = n"
  by (auto simp: hex_digit_def split: if_splits)

lemma nibbles:
  fixes n :: nat
  assumes "n < 65536"
  shows "n = (n div 4096 mod 16) * 4096 + (n div 256 mod 16) * 256 + (n div 16 mod 16) * 16 + n mod 16"
proof -
  have "n = n div 16 * 16 + n mod 16" by simp
  moreover have "n div 16 = n div 256 * 16 + n div 16 mod 16"
    using div_mult_mod_eq[of "n div 16" 16] by (simp flip: div_mult2_eq)
  moreover have "n div 256 = n div 4096 * 16 + n div 256 mod 16"
    using div_mult_mod_eq[of "n div 256" 16] by (simp flip: div_mult2_eq)
  moreover have "n div 4096 mod 16 = n div 4096" using assms by simp
  ultimately show ?thesis by linarith
qed

lemma hex_06_inj: "hex_06 v = hex_06 w \<Longrightarrow> v = w"
proof -
  assume "hex_06 v = hex_06 w"
  then have "unat v div 4096 mod 16 = unat w div 4096 mod 16" "unat v div 256 mod 16 = unat w div 256 mod 16"
    "unat v div 16 mod 16 = unat w div 16 mod 16" "unat v mod 16 = unat w mod 16"
    by (auto simp: hex_06_def intro!: hex_digit_inj)
  moreover have "unat v < 65536" "unat w < 65536" using unsigned_less[of v] unsigned_less[of w] by simp_all
  ultimately have "unat v = unat w" using nibbles[of "unat v"] nibbles[of "unat w"] by metis
  then show "v = w" by (simp add: word_unat_eq_iff)
qed

lemma hex_06_not_name [simp]:
  "CHR ''S'' # xs \<noteq> hex_06 v" "CHR ''T'' # xs \<noteq> hex_06 v" "CHR ''D'' # xs \<noteq> hex_06 v"
  "hex_06 v \<noteq> CHR ''S'' # xs" "hex_06 v \<noteq> CHR ''T'' # xs" "hex_06 v \<noteq> CHR ''D'' # xs"
  by (simp_all add: hex_06_def)

text \<open>
  A known protocol version is accepted and named, an unknown one is refused; and both texts of a version, known or
  not, identify it.
\<close>

lemma version_text_identifies:
  assumes "distinct (known_versions K)"
  shows "(version_try_from K v = Inr v \<longleftrightarrow> v \<in> set (known_versions K)) \<and>
    (version_display K v = version_display K w \<longrightarrow> v = w) \<and> (version_debug K v = version_debug K w \<longrightarrow> v = w)"
proof (intro conjI impI)
  show "version_try_from K v = Inr v \<longleftrightarrow> v \<in> set (known_versions K)"
    by (auto simp: version_try_from_def known_versions_def)
  show "v = w" if "version_display K v = version_display K w"
    using that hex_06_inj[of v w] by (auto simp: version_display_def split: if_splits)
  show "v = w" if "version_debug K v = version_debug K w"
    using that hex_06_inj[of v w]
    by (auto simp: version_debug_def split: if_splits)
qed

text \<open>The codes of the protocols.\<close>

definition wire_versions :: version_codes where
  "wire_versions =
     \<lparr>SSL3_VERSION = 0x300, TLS1_VERSION = 0x301, TLS1_1_VERSION = 0x302, TLS1_2_VERSION = 0x303, TLS1_3_VERSION = 0x304,
      DTLS1_VERSION = 0xfeff, DTLS1_2_VERSION = 0xfefd, DTLS1_3_VERSION = 0xfefc\<rparr>"

lemma version_texts_differ: "version_display wire_versions 0x7f1c \<noteq> version_display wire_versions 0x304"
proof -
  have "distinct (known_versions wire_versions)" by (simp add: wire_versions_def known_versions_def)
  from version_text_identifies[OF this, of "0x7f1c" "0x304"] show ?thesis by auto
qed

lemma low_nibble: "e AND 0x0f0f = 0x0a0a \<Longrightarrow> unat e mod 16 = 10" for e :: "16 word"
proof -
  assume "e AND 0x0f0f = 0x0a0a"
  then have "(e AND 0x0f0f) AND 0xf = 0x0a0a AND 0xf" by simp
  then have "e AND mask 4 = 10" by (simp add: and.assoc mask_eq_exp_minus_1)
  then have "unat (take_bit 4 e) = 10" by (simp flip: take_bit_eq_mask)
  then show ?thesis by (simp add: unsigned_take_bit_eq take_bit_eq_mod unat_mod_distrib)
qed

lemma same_bytes: "drop_bit 8 e = e AND 0xff \<longleftrightarrow> unat e div 256 = unat e mod 256" for e :: "16 word"
proof -
  have "e AND 0xff = take_bit 8 e" by (simp add: take_bit_eq_mask mask_eq_exp_minus_1)
  then have "drop_bit 8 e = e AND 0xff \<longleftrightarrow> unat (drop_bit 8 e) = unat (take_bit 8 e)" by (simp add: word_unat_eq_iff)
  then show ?thesis by (simp add: unsigned_take_bit_eq take_bit_eq_mod unsigned_drop_bit_eq drop_bit_eq_div unat_mod_distrib unat_div_distrib)
qed

text \<open>
  \<open>is_grease\<close> recognises exactly the sixteen values that RFC 8701 reserves, 0x0a0a, 0x1a1a, up to 0xfafa.
\<close>

lemma grease_values: "is_grease e \<longleftrightarrow> (\<exists>n<16. e = word_of_nat (0x1010 * n + 0x0a0a))"
proof
  assume g: "is_grease e"
  define b where "b = unat e mod 256"
  have e: "unat e = 257 * b" using g div_mult_mod_eq[of "unat e" 256] by (simp add: is_grease_def same_bytes b_def)
  have "b mod 16 = 10"
    using low_nibble[of e] g mod_mod_cancel[of 16 256 "unat e"] by (simp add: is_grease_def b_def)
  then have "b = 16 * (b div 16) + 10" using div_mult_mod_eq[of b 16] by simp
  then have "unat e = 0x1010 * (b div 16) + 0x0a0a" using e by simp
  then have "e = word_of_nat (0x1010 * (b div 16) + 0x0a0a)" by (metis of_nat_unat ucast_id)
  moreover have "b div 16 < 16" by (simp add: b_def)
  ultimately show "\<exists>n<16. e = word_of_nat (0x1010 * n + 0x0a0a)" by blast
next
  assume "\<exists>n<16. e = word_of_nat (0x1010 * n + 0x0a0a)"
  moreover have "list_all (\<lambda>n. is_grease (word_of_nat (0x1010 * n + 0x0a0a))) [0..<16]"
    by (simp add: is_grease_def upt_conv_Cons)
  ultimately show "is_grease e" by (auto simp: list_all_iff)
qed

lemma versions_read_back:
  assumes "\<And>v s q r u s' q'. cf_set_min_proto_version A v s q = ((r, u), s', q') \<Longrightarrow> r > 0 \<Longrightarrow> cf_get_min_proto_version A s' = v"
    "set_min_proto_version A version s q = (Ok x, s', q')" "version \<noteq> Some 0"
  shows "min_proto_version A s' = version"
proof -
  obtain r u s1 q1 where call: "cf_set_min_proto_version A (case version of None \<Rightarrow> 0 | Some v \<Rightarrow> v) s q = ((r, u), s1, q1)"
    by (metis prod.collapse)
  then have "s' = s1" "r > 0"
    using assms(2) by (auto simp: set_min_proto_version_def ecvt_def cvt_def fail_stack_def split: prod.splits if_splits)
  then show ?thesis
    using assms(1)[OF call] assms(3) by (auto simp: min_proto_version_def split: option.splits)
qed

end
