(* ===== verification/Mlkem.thy ===== *)
theory Mlkem
  imports Effects
begin

text \<open>
  \<open>btls/src/mlkem.rs\<close>: key encapsulation with ML-KEM-768 and ML-KEM-1024. What BoringSSL computes for one set of
  parameters is a \<open>kem_set\<close>, with parsed public keys of type \<open>'p\<close> and expanded private keys of type \<open>'s\<close>; the two sets are
  the fields of \<open>kem_api\<close>. The state of an operation is the random generator, of type \<open>'r\<close>.

  The types of the two sets have the same code up to names. It is given once, and each type is an instance.
\<close>

section \<open>The library\<close>

record ('p, 's, 'r) kem_set =
  PUBLIC_KEY_BYTES :: nat
  CIPHERTEXT_BYTES :: nat
  MLKEM_generate_key :: "'r \<Rightarrow> (byte list \<times> byte list \<times> 's) \<times> 'r"
  MLKEM_private_key_from_seed :: "byte list \<Rightarrow> err_queue \<Rightarrow> (int \<times> 's) \<times> err_queue"
  MLKEM_parse_public_key :: "byte list \<Rightarrow> err_queue \<Rightarrow> (int \<times> 'p \<times> byte list) \<times> err_queue"
  MLKEM_encap :: "'p \<Rightarrow> 'r \<Rightarrow> (byte list \<times> byte list) \<times> 'r"
  MLKEM_decap :: "byte list \<Rightarrow> 's \<Rightarrow> byte list"

text \<open>\<open>MLKEM_parse_public_key\<close> also returns what it leaves of its \<open>CBS\<close>.\<close>

record ('p7, 's7, 'p10, 's10, 'r) kem_api =
  kem768 :: "('p7, 's7, 'r) kem_set"
  kem1024 :: "('p10, 's10, 'r) kem_set"
  kem_err_lib_none :: "32 word"
  SHARED_SECRET_BYTES :: nat

section \<open>Keys of one set of parameters\<close>

record 's kem_private =
  kem_seed :: "byte list"
  kem_expanded :: 's

record 'p kem_public =
  kem_bytes :: "byte list"
  kem_parsed :: 'p

definition set_from_slice ::
    "('p, 's, 'r) kem_set \<Rightarrow> 32 word \<Rightarrow> byte list \<Rightarrow> ('r, 'p kem_public) eff" where
  "set_from_slice S e sl =
     (if length sl \<noteq> PUBLIC_KEY_BYTES S then efail (internal_error_str e ''invalid public key length'')
      else ebind (ecvt (\<lambda>r q. case MLKEM_parse_public_key S sl q of (res, q') \<Rightarrow> (res, r, q')))
        (\<lambda>(parsed, rest).
          if length rest \<noteq> 0 then efail (internal_error_str e ''trailing bytes after public key'')
          else eret \<lparr>kem_bytes = sl, kem_parsed = parsed\<rparr>))"

definition set_generate ::
    "('p, 's, 'r) kem_set \<Rightarrow> 32 word \<Rightarrow> ('r, 'p kem_public \<times> 's kem_private) eff" where
  "set_generate S e r q =
     (case MLKEM_generate_key S r of
        ((bytes, seed, expanded), r') \<Rightarrow>
          ebind (set_from_slice S e bytes)
            (\<lambda>pk. eret (pk, \<lparr>kem_seed = seed, kem_expanded = expanded\<rparr>)) r' q)"

definition set_from_seed :: "('p, 's, 'r) kem_set \<Rightarrow> byte list \<Rightarrow> ('r, 's kem_private) eff" where
  "set_from_seed S seed =
     ebind (ecvt (\<lambda>r q. case MLKEM_private_key_from_seed S seed q of (res, q') \<Rightarrow> (res, r, q')))
       (\<lambda>expanded. eret \<lparr>kem_seed = seed, kem_expanded = expanded\<rparr>)"

definition set_clone :: "('p, 's, 'r) kem_set \<Rightarrow> 's kem_private \<Rightarrow> ('r, 's kem_private) eff" where
  "set_clone S sk = eunwrap (set_from_seed S (kem_seed sk))"

definition set_encapsulate :: "('p, 's, 'r) kem_set \<Rightarrow> 'p kem_public \<Rightarrow> ('r, byte list \<times> byte list) eff" where
  "set_encapsulate S pk r q = (case MLKEM_encap S (kem_parsed pk) r of (res, r') \<Rightarrow> (Ok res, r', q))"

definition set_decapsulate :: "('p, 's, 'r) kem_set \<Rightarrow> nat \<Rightarrow> 's kem_private \<Rightarrow> byte list \<Rightarrow> byte list" where
  "set_decapsulate S n sk ciphertext =
     overwrite (MLKEM_decap S ciphertext (kem_expanded sk)) (replicate n 0)"

text \<open>The types of ML-KEM-1024.\<close>

definition from_slice_1024 :: "('p7, 's7, 'p, 's, 'r) kem_api \<Rightarrow> byte list \<Rightarrow> ('r, 'p kem_public) eff" where
  "from_slice_1024 K = set_from_slice (kem1024 K) (kem_err_lib_none K)"

definition generate_1024 :: "('p7, 's7, 'p, 's, 'r) kem_api \<Rightarrow> ('r, 'p kem_public \<times> 's kem_private) eff" where
  "generate_1024 K = set_generate (kem1024 K) (kem_err_lib_none K)"

definition from_seed_1024 :: "('p7, 's7, 'p, 's, 'r) kem_api \<Rightarrow> byte list \<Rightarrow> ('r, 's kem_private) eff" where
  "from_seed_1024 K = set_from_seed (kem1024 K)"

definition clone_1024 :: "('p7, 's7, 'p, 's, 'r) kem_api \<Rightarrow> 's kem_private \<Rightarrow> ('r, 's kem_private) eff" where
  "clone_1024 K = set_clone (kem1024 K)"

definition encapsulate_1024 :: "('p7, 's7, 'p, 's, 'r) kem_api \<Rightarrow> 'p kem_public \<Rightarrow> ('r, byte list \<times> byte list) eff" where
  "encapsulate_1024 K = set_encapsulate (kem1024 K)"

definition decapsulate_1024 :: "('p7, 's7, 'p, 's, 'r) kem_api \<Rightarrow> 's kem_private \<Rightarrow> byte list \<Rightarrow> byte list" where
  "decapsulate_1024 K = set_decapsulate (kem1024 K) (SHARED_SECRET_BYTES K)"

section \<open>Keys of either set\<close>

datatype kem_algorithm = MlKem768 | MlKem1024

datatype ('a, 'b) kem_either = Either768 'a | Either1024 'b

type_synonym ('p7, 'p10) mlkem_public = "('p7 kem_public, 'p10 kem_public) kem_either"
type_synonym ('s7, 's10) mlkem_private = "('s7 kem_private, 's10 kem_private) kem_either"

definition public_key_bytes :: "('p7, 's7, 'p, 's, 'r) kem_api \<Rightarrow> kem_algorithm \<Rightarrow> nat" where
  "public_key_bytes K alg =
     (case alg of MlKem768 \<Rightarrow> PUBLIC_KEY_BYTES (kem768 K) | MlKem1024 \<Rightarrow> PUBLIC_KEY_BYTES (kem1024 K))"

definition ciphertext_bytes :: "('p7, 's7, 'p, 's, 'r) kem_api \<Rightarrow> kem_algorithm \<Rightarrow> nat" where
  "ciphertext_bytes K alg =
     (case alg of MlKem768 \<Rightarrow> CIPHERTEXT_BYTES (kem768 K) | MlKem1024 \<Rightarrow> CIPHERTEXT_BYTES (kem1024 K))"

definition mlkem_generate ::
    "('p7, 's7, 'p, 's, 'r) kem_api \<Rightarrow> kem_algorithm
     \<Rightarrow> ('r, ('p7, 'p) mlkem_public \<times> ('s7, 's) mlkem_private) eff" where
  "mlkem_generate K alg =
     (case alg of
        MlKem768 \<Rightarrow>
          ebind (set_generate (kem768 K) (kem_err_lib_none K)) (\<lambda>(pk, sk). eret (Either768 pk, Either768 sk))
      | MlKem1024 \<Rightarrow> ebind (generate_1024 K) (\<lambda>(pk, sk). eret (Either1024 pk, Either1024 sk)))"

definition public_from_slice ::
    "('p7, 's7, 'p, 's, 'r) kem_api \<Rightarrow> kem_algorithm \<Rightarrow> byte list \<Rightarrow> ('r, ('p7, 'p) mlkem_public) eff" where
  "public_from_slice K alg public_key =
     (case alg of
        MlKem768 \<Rightarrow> ebind (set_from_slice (kem768 K) (kem_err_lib_none K) public_key) (\<lambda>pk. eret (Either768 pk))
      | MlKem1024 \<Rightarrow> ebind (from_slice_1024 K public_key) (\<lambda>pk. eret (Either1024 pk)))"

definition as_bytes :: "('p7, 'p10) mlkem_public \<Rightarrow> byte list" where
  "as_bytes pk = (case pk of Either768 pk \<Rightarrow> kem_bytes pk | Either1024 pk \<Rightarrow> kem_bytes pk)"

definition encapsulate ::
    "('p7, 's7, 'p, 's, 'r) kem_api \<Rightarrow> ('p7, 'p) mlkem_public \<Rightarrow> ('r, byte list \<times> byte list) eff" where
  "encapsulate K pk =
     (case pk of Either768 pk \<Rightarrow> set_encapsulate (kem768 K) pk | Either1024 pk \<Rightarrow> encapsulate_1024 K pk)"

definition public_algorithm :: "('p7, 'p10) mlkem_public \<Rightarrow> kem_algorithm" where
  "public_algorithm pk = (case pk of Either768 _ \<Rightarrow> MlKem768 | Either1024 _ \<Rightarrow> MlKem1024)"

definition private_from_seed ::
    "('p7, 's7, 'p, 's, 'r) kem_api \<Rightarrow> kem_algorithm \<Rightarrow> byte list \<Rightarrow> ('r, ('s7, 's) mlkem_private) eff" where
  "private_from_seed K alg private_seed =
     (case alg of
        MlKem768 \<Rightarrow> ebind (set_from_seed (kem768 K) private_seed) (\<lambda>sk. eret (Either768 sk))
      | MlKem1024 \<Rightarrow> ebind (from_seed_1024 K private_seed) (\<lambda>sk. eret (Either1024 sk)))"

definition seed_bytes :: "('s7, 's10) mlkem_private \<Rightarrow> byte list" where
  "seed_bytes sk = (case sk of Either768 sk \<Rightarrow> kem_seed sk | Either1024 sk \<Rightarrow> kem_seed sk)"

definition decapsulate ::
    "('p7, 's7, 'p, 's, 'r) kem_api \<Rightarrow> ('s7, 's) mlkem_private \<Rightarrow> byte list \<Rightarrow> ('r, byte list) eff" where
  "decapsulate K sk ciphertext =
     (case sk of
        Either768 sk \<Rightarrow>
          if length ciphertext \<noteq> CIPHERTEXT_BYTES (kem768 K)
          then efail (internal_error_str (kem_err_lib_none K) ''invalid ciphertext length'')
          else eret (set_decapsulate (kem768 K) (SHARED_SECRET_BYTES K) sk ciphertext)
      | Either1024 sk \<Rightarrow>
          if length ciphertext \<noteq> CIPHERTEXT_BYTES (kem1024 K)
          then efail (internal_error_str (kem_err_lib_none K) ''invalid ciphertext length'')
          else eret (decapsulate_1024 K sk ciphertext))"

definition private_algorithm :: "('s7, 's10) mlkem_private \<Rightarrow> kem_algorithm" where
  "private_algorithm sk = (case sk of Either768 _ \<Rightarrow> MlKem768 | Either1024 _ \<Rightarrow> MlKem1024)"

text \<open>The derived \<open>Clone\<close> of a private key clones what it holds.\<close>

definition private_clone ::
    "('p7, 's7, 'p, 's, 'r) kem_api \<Rightarrow> ('s7, 's) mlkem_private \<Rightarrow> ('r, ('s7, 's) mlkem_private) eff" where
  "private_clone K sk =
     (case sk of
        Either768 sk \<Rightarrow> ebind (set_clone (kem768 K) sk) (\<lambda>sk. eret (Either768 sk))
      | Either1024 sk \<Rightarrow> ebind (clone_1024 K sk) (\<lambda>sk. eret (Either1024 sk)))"

section \<open>Round trips\<close>

text \<open>
  What the functions of one set promise: a generated key pair is \<open>pair\<close>ed, its public bytes parse as a whole and its
  seed expands to the same key; for paired keys, decapsulation gives the secret that encapsulation gave.
\<close>

definition generates_pairs :: "('p, 's, 'r) kem_set \<Rightarrow> ('p \<Rightarrow> 's \<Rightarrow> bool) \<Rightarrow> bool" where
  "generates_pairs S pair \<longleftrightarrow>
     (\<forall>r bytes seed s r'. MLKEM_generate_key S r = ((bytes, seed, s), r') \<longrightarrow>
        length bytes = PUBLIC_KEY_BYTES S \<and>
        (\<exists>p. pair p s \<and> (\<forall>q. \<exists>i q'. 0 < i \<and> MLKEM_parse_public_key S bytes q = ((i, p, []), q'))) \<and>
        (\<forall>q. \<exists>i q'. 0 < i \<and> MLKEM_private_key_from_seed S seed q = ((i, s), q')))"

definition shares_secrets :: "('p, 's, 'r) kem_set \<Rightarrow> nat \<Rightarrow> ('p \<Rightarrow> 's \<Rightarrow> bool) \<Rightarrow> bool" where
  "shares_secrets S n pair \<longleftrightarrow>
     (\<forall>p s r ct ss r'. pair p s \<longrightarrow> MLKEM_encap S p r = ((ct, ss), r') \<longrightarrow>
        length ct = CIPHERTEXT_BYTES S \<and> length ss = n \<and> MLKEM_decap S ct s = ss)"

definition kem_spec ::
    "('p7, 's7, 'p, 's, 'r) kem_api \<Rightarrow> ('p7 \<Rightarrow> 's7 \<Rightarrow> bool) \<Rightarrow> ('p \<Rightarrow> 's \<Rightarrow> bool) \<Rightarrow> bool" where
  "kem_spec K pair7 pair10 \<longleftrightarrow>
     generates_pairs (kem768 K) pair7 \<and> shares_secrets (kem768 K) (SHARED_SECRET_BYTES K) pair7 \<and>
     generates_pairs (kem1024 K) pair10 \<and> shares_secrets (kem1024 K) (SHARED_SECRET_BYTES K) pair10"

lemma checked_call:
  "0 < i \<Longrightarrow> f q = ((i, x), q') \<Longrightarrow> ecvt (\<lambda>r q. case f q of (res, q') \<Rightarrow> (res, r, q')) r q = (Ok x, r, q')"
  by (simp add: ecvt_def cvt_def)

lemma set_from_slice_ok:
  assumes "length sl = PUBLIC_KEY_BYTES S" "0 < i" "MLKEM_parse_public_key S sl q = ((i, p, []), q')"
  shows "set_from_slice S e sl r q = (Ok \<lparr>kem_bytes = sl, kem_parsed = p\<rparr>, r, q')"
  using checked_call[of i "MLKEM_parse_public_key S sl" q "(p, [])" q' r] assms by (simp add: set_from_slice_def)

lemma set_from_seed_ok:
  assumes "0 < i" "MLKEM_private_key_from_seed S seed q = ((i, s), q')"
  shows "set_from_seed S seed r q = (Ok \<lparr>kem_seed = seed, kem_expanded = s\<rparr>, r, q')"
  using checked_call[where f = "MLKEM_private_key_from_seed S seed", OF assms, of r] by (simp add: set_from_seed_def)

lemma set_generate_ok:
  assumes "generates_pairs S pair"
  obtains pk sk r' q' where "set_generate S e r q = (Ok (pk, sk), r', q')" "pair (kem_parsed pk) (kem_expanded sk)"
    "\<And>r q. \<exists>q'. set_from_slice S e (kem_bytes pk) r q = (Ok pk, r, q')"
    "\<And>r q. \<exists>q'. set_from_seed S (kem_seed sk) r q = (Ok sk, r, q')"
proof -
  obtain bytes seed s r' where call: "MLKEM_generate_key S r = ((bytes, seed, s), r')" by (metis prod.collapse)
  with assms obtain p where p: "length bytes = PUBLIC_KEY_BYTES S" "pair p s"
      "\<And>q. \<exists>i q'. 0 < i \<and> MLKEM_parse_public_key S bytes q = ((i, p, []), q')"
      "\<And>q. \<exists>i q'. 0 < i \<and> MLKEM_private_key_from_seed S seed q = ((i, s), q')"
    unfolding generates_pairs_def by meson
  have sl: "\<exists>q'. set_from_slice S e bytes r q = (Ok \<lparr>kem_bytes = bytes, kem_parsed = p\<rparr>, r, q')" for r q
    using p(3)[of q] set_from_slice_ok[OF p(1)] by metis
  then obtain q' where "set_from_slice S e bytes r' q = (Ok \<lparr>kem_bytes = bytes, kem_parsed = p\<rparr>, r', q')" by blast
  then have gen: "set_generate S e r q =
      (Ok (\<lparr>kem_bytes = bytes, kem_parsed = p\<rparr>, \<lparr>kem_seed = seed, kem_expanded = s\<rparr>), r', q')"
    by (simp add: set_generate_def call)
  have seed: "\<exists>q'. set_from_seed S seed r q = (Ok \<lparr>kem_seed = seed, kem_expanded = s\<rparr>, r, q')" for r q
    using p(4)[of q] set_from_seed_ok[of _ S seed q s _ r] by metis
  show ?thesis by (rule that[OF gen]) (simp_all add: p(2) sl seed)
qed

lemma set_agree:
  assumes "shares_secrets S n pair" "pair (kem_parsed pk) (kem_expanded sk)"
    "set_encapsulate S pk r q = (Ok (ct, ss), r', q')"
  shows "length ct = CIPHERTEXT_BYTES S" "set_decapsulate S n sk ct = ss"
proof -
  have "MLKEM_encap S (kem_parsed pk) r = ((ct, ss), r')"
    using assms(3) by (simp add: set_encapsulate_def split: prod.splits)
  with assms(1,2) have "length ct = CIPHERTEXT_BYTES S" "length ss = n" "MLKEM_decap S ct (kem_expanded sk) = ss"
    unfolding shares_secrets_def by meson+
  then show "length ct = CIPHERTEXT_BYTES S" "set_decapsulate S n sk ct = ss"
    by (auto simp: set_decapsulate_def overwrite_def)
qed

lemma set_encapsulate_returns: "\<exists>ct ss r'. set_encapsulate S pk r q = (Ok (ct, ss), r', q)"
  by (auto simp: set_encapsulate_def split: prod.splits)

lemmas in_set_1024 = from_slice_1024_def generate_1024_def from_seed_1024_def clone_1024_def encapsulate_1024_def
  decapsulate_1024_def
lemmas of_either = mlkem_generate_def public_from_slice_def as_bytes_def encapsulate_def public_algorithm_def
  private_from_seed_def seed_bytes_def decapsulate_def private_algorithm_def private_clone_def ciphertext_bytes_def

lemma set_clone_ok: "set_from_seed S (kem_seed sk) r q = (Ok sk, r, q') \<Longrightarrow> set_clone S sk r q = (Ok sk, r, q')"
  by (simp add: set_clone_def eunwrap_def)

text \<open>Keys that belong together and are restored from what they are stored as.\<close>

definition key_pair :: "('p, 's, 'r) kem_set \<Rightarrow> 32 word \<Rightarrow> nat \<Rightarrow> 'p kem_public \<Rightarrow> 's kem_private \<Rightarrow> bool" where
  "key_pair S e n pk sk \<longleftrightarrow>
     (\<forall>r q. \<exists>ct ss r'. set_encapsulate S pk r q = (Ok (ct, ss), r', q) \<and> length ct = CIPHERTEXT_BYTES S \<and>
        set_decapsulate S n sk ct = ss) \<and>
     (\<forall>r q. \<exists>q'. set_from_slice S e (kem_bytes pk) r q = (Ok pk, r, q')) \<and>
     (\<forall>r q. \<exists>q'. set_from_seed S (kem_seed sk) r q = (Ok sk, r, q')) \<and>
     (\<forall>r q. \<exists>q'. set_clone S sk r q = (Ok sk, r, q'))"

lemma set_round_trip:
  assumes "generates_pairs S pair" "shares_secrets S n pair"
  shows "\<exists>pk sk r' q'. set_generate S e r q = (Ok (pk, sk), r', q') \<and> key_pair S e n pk sk"
proof -
  obtain pk sk r' q' where g: "set_generate S e r q = (Ok (pk, sk), r', q')" "pair (kem_parsed pk) (kem_expanded sk)"
    "\<And>r q. \<exists>q'. set_from_slice S e (kem_bytes pk) r q = (Ok pk, r, q')"
    "\<And>r q. \<exists>q'. set_from_seed S (kem_seed sk) r q = (Ok sk, r, q')"
    using set_generate_ok[OF assms(1), of e r q] by metis
  have "\<exists>ct ss r'. set_encapsulate S pk r q = (Ok (ct, ss), r', q) \<and> length ct = CIPHERTEXT_BYTES S \<and>
      set_decapsulate S n sk ct = ss" for r q
    using set_encapsulate_returns[of S pk r q] set_agree[OF assms(2) g(2)] by metis
  moreover have "\<exists>q'. set_clone S sk r q = (Ok sk, r, q')" for r q using g(4)[of r q] set_clone_ok by metis
  ultimately have "key_pair S e n pk sk" unfolding key_pair_def using g(3,4) by simp
  with g(1) show ?thesis by blast
qed

lemma ebind_ret:
  "\<exists>q'. m r q = (Ok x, r, q') \<Longrightarrow> \<exists>q'. ebind m (\<lambda>x. eret (f x)) r q = (Ok (f x), r, q')"
  by auto

text \<open>
  C35: Generating a key pair never fails, and both keys have the algorithm asked for. Whatever secret \<open>encapsulate\<close> makes
  with the public key, \<open>decapsulate\<close> with the private key returns, from a ciphertext of the announced length. The public
  key is restored from its bytes and the private key from its seed, and cloning the private key, which expands the
  seed again and unwraps, does not panic and gives the same key.
\<close>

theorem mlkem_keys_round_trip:
  assumes "kem_spec K pair7 pair10"
  shows "\<exists>pk sk r1 q1. mlkem_generate K alg r q = (Ok (pk, sk), r1, q1) \<and>
     public_algorithm pk = alg \<and> private_algorithm sk = alg \<and>
     (\<forall>r q. \<exists>ct ss r'. encapsulate K pk r q = (Ok (ct, ss), r', q) \<and> length ct = ciphertext_bytes K alg \<and>
        (\<forall>r q. decapsulate K sk ct r q = (Ok ss, r, q))) \<and>
     (\<forall>r q. \<exists>q'. public_from_slice K alg (as_bytes pk) r q = (Ok pk, r, q')) \<and>
     (\<forall>r q. \<exists>q'. private_from_seed K alg (seed_bytes sk) r q = (Ok sk, r, q')) \<and>
     (\<forall>r q. \<exists>q'. private_clone K sk r q = (Ok sk, r, q'))"
proof (cases alg)
  case MlKem768
  have laws: "generates_pairs (kem768 K) pair7" "shares_secrets (kem768 K) (SHARED_SECRET_BYTES K) pair7"
    using assms by (simp_all add: kem_spec_def)
  from set_round_trip[OF laws, of "kem_err_lib_none K" r q] obtain pk sk r' q' where
    g: "set_generate (kem768 K) (kem_err_lib_none K) r q = (Ok (pk, sk), r', q')" and
    k: "key_pair (kem768 K) (kem_err_lib_none K) (SHARED_SECRET_BYTES K) pk sk" by blast
  have "mlkem_generate K alg r q = (Ok (Either768 pk, Either768 sk), r', q')"
    using g by (simp add: MlKem768 mlkem_generate_def)
  moreover have "\<exists>ct ss r'. encapsulate K (Either768 pk) r q = (Ok (ct, ss), r', q) \<and>
      length ct = ciphertext_bytes K alg \<and> (\<forall>r q. decapsulate K (Either768 sk) ct r q = (Ok ss, r, q))" for r q
    using k[unfolded key_pair_def, THEN conjunct1, THEN spec, THEN spec, of r q]
    by (auto simp: MlKem768 of_either)
  moreover have "\<exists>q'. public_from_slice K alg (as_bytes (Either768 pk)) r q = (Ok (Either768 pk), r, q')"
      "\<exists>q'. private_from_seed K alg (seed_bytes (Either768 sk)) r q = (Ok (Either768 sk), r, q')"
      "\<exists>q'. private_clone K (Either768 sk) r q = (Ok (Either768 sk), r, q')" for r q
    using k by (simp_all add: key_pair_def MlKem768 of_either ebind_ret)
  ultimately show ?thesis by (auto simp: MlKem768 public_algorithm_def private_algorithm_def)
next
  case MlKem1024
  have laws: "generates_pairs (kem1024 K) pair10" "shares_secrets (kem1024 K) (SHARED_SECRET_BYTES K) pair10"
    using assms by (simp_all add: kem_spec_def)
  from set_round_trip[OF laws, of "kem_err_lib_none K" r q] obtain pk sk r' q' where
    g: "set_generate (kem1024 K) (kem_err_lib_none K) r q = (Ok (pk, sk), r', q')" and
    k: "key_pair (kem1024 K) (kem_err_lib_none K) (SHARED_SECRET_BYTES K) pk sk" by blast
  have "mlkem_generate K alg r q = (Ok (Either1024 pk, Either1024 sk), r', q')"
    using g by (simp add: MlKem1024 mlkem_generate_def in_set_1024)
  moreover have "\<exists>ct ss r'. encapsulate K (Either1024 pk) r q = (Ok (ct, ss), r', q) \<and>
      length ct = ciphertext_bytes K alg \<and> (\<forall>r q. decapsulate K (Either1024 sk) ct r q = (Ok ss, r, q))" for r q
    using k[unfolded key_pair_def, THEN conjunct1, THEN spec, THEN spec, of r q]
    by (auto simp: MlKem1024 of_either in_set_1024)
  moreover have "\<exists>q'. public_from_slice K alg (as_bytes (Either1024 pk)) r q = (Ok (Either1024 pk), r, q')"
      "\<exists>q'. private_from_seed K alg (seed_bytes (Either1024 sk)) r q = (Ok (Either1024 sk), r, q')"
      "\<exists>q'. private_clone K (Either1024 sk) r q = (Ok (Either1024 sk), r, q')" for r q
    using k by (simp_all add: key_pair_def MlKem1024 of_either in_set_1024 ebind_ret)
  ultimately show ?thesis by (auto simp: MlKem1024 public_algorithm_def private_algorithm_def)
qed

text \<open>Keys of one byte: the ciphertext is the secret plus the key, repeated.\<close>

definition byte_kem :: "nat \<Rightarrow> nat \<Rightarrow> (byte, byte, nat) kem_set" where
  "byte_kem pub ct =
     \<lparr>PUBLIC_KEY_BYTES = pub, CIPHERTEXT_BYTES = ct,
      MLKEM_generate_key = (\<lambda>r. ((replicate pub (word_of_nat r), replicate 64 (word_of_nat r), word_of_nat r), r + 1)),
      MLKEM_private_key_from_seed = (\<lambda>seed q. ((1, hd seed), q)),
      MLKEM_parse_public_key = (\<lambda>bs q. ((1, hd bs, []), q)),
      MLKEM_encap = (\<lambda>p r. ((replicate ct (p + word_of_nat r), replicate 32 (word_of_nat r)), r + 1)),
      MLKEM_decap = (\<lambda>bs s. replicate 32 (hd bs - s))\<rparr>"

definition sample_kem :: "(byte, byte, byte, byte, nat) kem_api" where
  "sample_kem =
     \<lparr>kem768 = byte_kem 1184 1088, kem1024 = byte_kem 1568 1568, kem_err_lib_none = 1, SHARED_SECRET_BYTES = 32\<rparr>"

lemma byte_kem_ok:
  assumes "0 < pub" "0 < ct"
  shows "generates_pairs (byte_kem pub ct) (=)" "shares_secrets (byte_kem pub ct) 32 (=)"
  using assms by (auto simp: generates_pairs_def shares_secrets_def byte_kem_def)

lemma sample_kem_ok: "kem_spec sample_kem (=) (=)"
  by (simp add: kem_spec_def sample_kem_def byte_kem_ok)

theorem mlkem_keys_round_trip_witness:
  "\<exists>pk sk r1 q1. mlkem_generate sample_kem MlKem1024 7 [] = (Ok (pk, sk), r1, q1) \<and>
     public_algorithm pk = MlKem1024 \<and> private_algorithm sk = MlKem1024 \<and>
     (\<forall>r q. \<exists>ct ss r'. encapsulate sample_kem pk r q = (Ok (ct, ss), r', q) \<and>
        length ct = ciphertext_bytes sample_kem MlKem1024 \<and>
        (\<forall>r q. decapsulate sample_kem sk ct r q = (Ok ss, r, q))) \<and>
     (\<forall>r q. \<exists>q'. public_from_slice sample_kem MlKem1024 (as_bytes pk) r q = (Ok pk, r, q')) \<and>
     (\<forall>r q. \<exists>q'. private_from_seed sample_kem MlKem1024 (seed_bytes sk) r q = (Ok sk, r, q')) \<and>
     (\<forall>r q. \<exists>q'. private_clone sample_kem sk r q = (Ok sk, r, q'))"
  by (rule mlkem_keys_round_trip [OF sample_kem_ok])

text \<open>A ciphertext or public key of another length is refused before BoringSSL sees it.\<close>

lemma wrong_lengths_refused:
  "length ct \<noteq> ciphertext_bytes K (private_algorithm sk) \<Longrightarrow>
     decapsulate K sk ct r q = (Err (internal_error_str (kem_err_lib_none K) ''invalid ciphertext length''), r, q)"
  "length bs \<noteq> public_key_bytes K alg \<Longrightarrow>
     public_from_slice K alg bs r q = (Err (internal_error_str (kem_err_lib_none K) ''invalid public key length''), r, q)"
  by (auto simp: of_either in_set_1024 public_key_bytes_def set_from_slice_def ebind_def
      split: kem_either.splits kem_algorithm.splits)

end
