(* ===== verification/Mldsa.thy ===== *)
theory Mldsa
  imports Mlkem
begin

text \<open>
  \<open>btls/src/mldsa.rs\<close>: signatures with ML-DSA-44, ML-DSA-65 and ML-DSA-87. What BoringSSL computes for one set of
  parameters is a \<open>dsa_set\<close>, with public keys of type \<open>'p\<close> and private keys of type \<open>'s\<close>, which an enum tags with their set.
  A \<open>match\<close> whose three arms differ in nothing but the set is a choice of the set. The state of an operation is the random
  generator, of type \<open>'r\<close>.
\<close>

section \<open>The library\<close>

record ('p, 's, 'r) dsa_set =
  DSA_PUBLIC_KEY_BYTES :: nat
  DSA_SIGNATURE_BYTES :: nat
  MLDSA_generate_key :: "'r \<Rightarrow> err_queue \<Rightarrow> (int \<times> byte list \<times> byte list \<times> 's) \<times> 'r \<times> err_queue"
  MLDSA_private_key_from_seed :: "byte list \<Rightarrow> err_queue \<Rightarrow> (int \<times> 's) \<times> err_queue"
  MLDSA_public_from_private :: "'s \<Rightarrow> err_queue \<Rightarrow> (int \<times> 'p) \<times> err_queue"
  MLDSA_sign :: "'s \<Rightarrow> byte list \<Rightarrow> 'r \<Rightarrow> err_queue \<Rightarrow> (int \<times> byte list) \<times> 'r \<times> err_queue"
  MLDSA_parse_public_key :: "byte list \<Rightarrow> err_queue \<Rightarrow> (int \<times> 'p \<times> byte list) \<times> err_queue"
  MLDSA_marshal_public_key :: "'p \<Rightarrow> err_queue \<Rightarrow> (int \<times> byte list) \<times> err_queue"
  MLDSA_verify :: "'p \<Rightarrow> byte list \<Rightarrow> byte list \<Rightarrow> err_queue \<Rightarrow> int \<times> err_queue"

record ('p, 's, 'r) dsa_api =
  dsa44 :: "('p, 's, 'r) dsa_set"
  dsa65 :: "('p, 's, 'r) dsa_set"
  dsa87 :: "('p, 's, 'r) dsa_set"
  dsa_err_lib_none :: "32 word"
  CBB_init_fixed :: "nat \<Rightarrow> err_queue \<Rightarrow> int \<times> err_queue"

section \<open>Algorithms and keys\<close>

datatype dsa_algorithm = MlDsa44 | MlDsa65 | MlDsa87

definition dsa_public_key_bytes :: "('p, 's, 'r) dsa_api \<Rightarrow> dsa_algorithm \<Rightarrow> nat" where
  "dsa_public_key_bytes A alg =
     (case alg of
        MlDsa44 \<Rightarrow> DSA_PUBLIC_KEY_BYTES (dsa44 A)
      | MlDsa65 \<Rightarrow> DSA_PUBLIC_KEY_BYTES (dsa65 A)
      | MlDsa87 \<Rightarrow> DSA_PUBLIC_KEY_BYTES (dsa87 A))"

definition dsa_signature_bytes :: "('p, 's, 'r) dsa_api \<Rightarrow> dsa_algorithm \<Rightarrow> nat" where
  "dsa_signature_bytes A alg =
     (case alg of
        MlDsa44 \<Rightarrow> DSA_SIGNATURE_BYTES (dsa44 A)
      | MlDsa65 \<Rightarrow> DSA_SIGNATURE_BYTES (dsa65 A)
      | MlDsa87 \<Rightarrow> DSA_SIGNATURE_BYTES (dsa87 A))"

text \<open>\<open>PublicKeyInner\<close> and \<open>PrivateKeyInner\<close>.\<close>

datatype 'k dsa_inner = Inner44 'k | Inner65 'k | Inner87 'k

record 'p dsa_public =
  dp_algorithm :: dsa_algorithm
  dp_inner :: "'p dsa_inner"

record 's dsa_private =
  ds_algorithm :: dsa_algorithm
  ds_seed :: "byte list"
  ds_inner :: "'s dsa_inner"

text \<open>What the arms of a \<open>match\<close> differ in: by the algorithm, or by the tag of a key.\<close>

definition set_of :: "('p, 's, 'r) dsa_api \<Rightarrow> dsa_algorithm \<Rightarrow> ('p, 's, 'r) dsa_set" where
  "set_of A alg = (case alg of MlDsa44 \<Rightarrow> dsa44 A | MlDsa65 \<Rightarrow> dsa65 A | MlDsa87 \<Rightarrow> dsa87 A)"

definition tag_inner :: "dsa_algorithm \<Rightarrow> 'k \<Rightarrow> 'k dsa_inner" where
  "tag_inner alg k = (case alg of MlDsa44 \<Rightarrow> Inner44 k | MlDsa65 \<Rightarrow> Inner65 k | MlDsa87 \<Rightarrow> Inner87 k)"

definition inner_algorithm :: "'k dsa_inner \<Rightarrow> dsa_algorithm" where
  "inner_algorithm i = (case i of Inner44 _ \<Rightarrow> MlDsa44 | Inner65 _ \<Rightarrow> MlDsa65 | Inner87 _ \<Rightarrow> MlDsa87)"

definition inner_key :: "'k dsa_inner \<Rightarrow> 'k" where
  "inner_key i = (case i of Inner44 k \<Rightarrow> k | Inner65 k \<Rightarrow> k | Inner87 k \<Rightarrow> k)"

text \<open>A call that uses neither the key's owner nor the generator.\<close>

definition plain_call :: "(err_queue \<Rightarrow> (int \<times> 'a) \<times> err_queue) \<Rightarrow> ('r, 'a) eff" where
  "plain_call f = ecvt (\<lambda>r q. case f q of (res, q') \<Rightarrow> (res, r, q'))"

definition plain_check :: "(err_queue \<Rightarrow> int \<times> err_queue) \<Rightarrow> ('r, unit) eff" where
  "plain_check f = plain_call (\<lambda>q. case f q of (i, q') \<Rightarrow> ((i, ()), q'))"

section \<open>Operations\<close>

definition trailing_bytes :: "dsa_algorithm \<Rightarrow> string" where
  "trailing_bytes alg =
     (case alg of
        MlDsa44 \<Rightarrow> ''trailing bytes after ML-DSA-44 public key''
      | MlDsa65 \<Rightarrow> ''trailing bytes after ML-DSA-65 public key''
      | MlDsa87 \<Rightarrow> ''trailing bytes after ML-DSA-87 public key'')"

definition dsa_from_slice ::
    "('p, 's, 'r) dsa_api \<Rightarrow> dsa_algorithm \<Rightarrow> byte list \<Rightarrow> ('r, 'p dsa_public) eff" where
  "dsa_from_slice A alg serialized =
     (if length serialized \<noteq> dsa_public_key_bytes A alg
      then efail (internal_error_str (dsa_err_lib_none A) ''invalid public key length'')
      else ebind (plain_call (MLDSA_parse_public_key (set_of A alg) serialized)) (\<lambda>(key, rest).
        if length rest \<noteq> 0 then efail (internal_error_str (dsa_err_lib_none A) (trailing_bytes alg))
        else eret \<lparr>dp_algorithm = alg, dp_inner = tag_inner alg key\<rparr>))"

definition dsa_generate ::
    "('p, 's, 'r) dsa_api \<Rightarrow> dsa_algorithm \<Rightarrow> ('r, 'p dsa_public \<times> 's dsa_private) eff" where
  "dsa_generate A alg =
     ebind (ecvt (MLDSA_generate_key (set_of A alg))) (\<lambda>(pub_bytes, seed, priv_key).
       ebind (dsa_from_slice A alg pub_bytes) (\<lambda>public_key.
         eret (public_key, \<lparr>ds_algorithm = alg, ds_seed = seed, ds_inner = tag_inner alg priv_key\<rparr>)))"

definition dsa_from_seed ::
    "('p, 's, 'r) dsa_api \<Rightarrow> dsa_algorithm \<Rightarrow> byte list \<Rightarrow> ('r, 's dsa_private) eff" where
  "dsa_from_seed A alg seed =
     ebind (plain_call (MLDSA_private_key_from_seed (set_of A alg) seed)) (\<lambda>priv_key.
       eret \<lparr>ds_algorithm = alg, ds_seed = seed, ds_inner = tag_inner alg priv_key\<rparr>)"

definition dsa_clone :: "('p, 's, 'r) dsa_api \<Rightarrow> 's dsa_private \<Rightarrow> ('r, 's dsa_private) eff" where
  "dsa_clone A sk = eunwrap (dsa_from_seed A (ds_algorithm sk) (ds_seed sk))"

definition dsa_public_key :: "('p, 's, 'r) dsa_api \<Rightarrow> 's dsa_private \<Rightarrow> ('r, 'p dsa_public) eff" where
  "dsa_public_key A sk =
     (let alg = inner_algorithm (ds_inner sk)
      in ebind (plain_call (MLDSA_public_from_private (set_of A alg) (inner_key (ds_inner sk)))) (\<lambda>pub_key.
           eret \<lparr>dp_algorithm = ds_algorithm sk, dp_inner = tag_inner alg pub_key\<rparr>))"

definition dsa_sign :: "('p, 's, 'r) dsa_api \<Rightarrow> 's dsa_private \<Rightarrow> byte list \<Rightarrow> ('r, byte list) eff" where
  "dsa_sign A sk msg =
     (let S = set_of A (inner_algorithm (ds_inner sk))
      in ebind (ecvt (MLDSA_sign S (inner_key (ds_inner sk)) msg)) (\<lambda>sig.
           eret (overwrite sig (replicate (DSA_SIGNATURE_BYTES S) 0))))"

definition dsa_to_bytes :: "('p, 's, 'r) dsa_api \<Rightarrow> 'p dsa_public \<Rightarrow> ('r, byte list) eff" where
  "dsa_to_bytes A pk =
     (let n = dsa_public_key_bytes A (dp_algorithm pk)
      in ethen (plain_check (CBB_init_fixed A n))
           (ebind (plain_call (MLDSA_marshal_public_key (set_of A (inner_algorithm (dp_inner pk))) (inner_key (dp_inner pk))))
             (\<lambda>bs. eret (overwrite bs (replicate n 0)))))"

definition dsa_verify ::
    "('p, 's, 'r) dsa_api \<Rightarrow> 'p dsa_public \<Rightarrow> byte list \<Rightarrow> byte list \<Rightarrow> ('r, unit) eff" where
  "dsa_verify A pk msg signature =
     ethen (plain_check (MLDSA_verify (set_of A (inner_algorithm (dp_inner pk))) (inner_key (dp_inner pk)) signature msg))
       (eret ())"

section \<open>Signatures verify\<close>

text \<open>
  The promises of one set: generated keys are \<open>pair\<close>ed, as are a private key and the public key derived from it; a seed
  expands to the generated key; marshalled keys are parsed again; what a private key signs its public key verifies.
\<close>

definition dsa_generates :: "('p, 's, 'r) dsa_set \<Rightarrow> ('p \<Rightarrow> 's \<Rightarrow> bool) \<Rightarrow> bool" where
  "dsa_generates S pair \<longleftrightarrow>
     (\<forall>r q i bytes seed s r' q'. MLDSA_generate_key S r q = ((i, bytes, seed, s), r', q') \<longrightarrow> 0 < i \<longrightarrow>
        (\<forall>q. \<exists>i q'. 0 < i \<and> MLDSA_private_key_from_seed S seed q = ((i, s), q')) \<and>
        (\<forall>q j p rest q'. MLDSA_parse_public_key S bytes q = ((j, p, rest), q') \<longrightarrow> 0 < j \<longrightarrow> pair p s))"

definition dsa_derives :: "('p, 's, 'r) dsa_set \<Rightarrow> ('p \<Rightarrow> 's \<Rightarrow> bool) \<Rightarrow> bool" where
  "dsa_derives S pair \<longleftrightarrow>
     (\<forall>p s q i p' q'. pair p s \<longrightarrow> MLDSA_public_from_private S s q = ((i, p'), q') \<longrightarrow> 0 < i \<longrightarrow> pair p' s)"

definition dsa_marshals :: "('p, 's, 'r) dsa_set \<Rightarrow> bool" where
  "dsa_marshals S \<longleftrightarrow>
     (\<forall>p q i bs q'. MLDSA_marshal_public_key S p q = ((i, bs), q') \<longrightarrow> 0 < i \<longrightarrow>
        length bs = DSA_PUBLIC_KEY_BYTES S \<and>
        (\<forall>q. \<exists>j q'. 0 < j \<and> MLDSA_parse_public_key S bs q = ((j, p, []), q')))"

definition dsa_verifies :: "('p, 's, 'r) dsa_set \<Rightarrow> ('p \<Rightarrow> 's \<Rightarrow> bool) \<Rightarrow> bool" where
  "dsa_verifies S pair \<longleftrightarrow>
     (\<forall>p s msg r q i sig r' q'. pair p s \<longrightarrow> MLDSA_sign S s msg r q = ((i, sig), r', q') \<longrightarrow> 0 < i \<longrightarrow>
        length sig = DSA_SIGNATURE_BYTES S \<and> (\<forall>q. \<exists>j q'. 0 < j \<and> MLDSA_verify S p sig msg q = (j, q')))"

definition dsa_spec :: "('p, 's, 'r) dsa_api \<Rightarrow> (dsa_algorithm \<Rightarrow> 'p \<Rightarrow> 's \<Rightarrow> bool) \<Rightarrow> bool" where
  "dsa_spec A pair \<longleftrightarrow>
     (\<forall>alg. dsa_generates (set_of A alg) (pair alg) \<and> dsa_derives (set_of A alg) (pair alg) \<and>
        dsa_marshals (set_of A alg) \<and> dsa_verifies (set_of A alg) (pair alg))"

lemma tags [simp]:
  "inner_algorithm (tag_inner alg k) = alg" "inner_key (tag_inner alg k) = k"
  "tag_inner (inner_algorithm i) (inner_key i) = i"
  by (simp_all add: tag_inner_def inner_algorithm_def inner_key_def split: dsa_algorithm.splits dsa_inner.splits)

lemma set_sizes:
  "dsa_public_key_bytes A alg = DSA_PUBLIC_KEY_BYTES (set_of A alg)"
  "dsa_signature_bytes A alg = DSA_SIGNATURE_BYTES (set_of A alg)"
  by (simp_all add: dsa_public_key_bytes_def dsa_signature_bytes_def set_of_def split: dsa_algorithm.split)

lemma plain_call_eq_ok: "plain_call f r q = (Ok x, r', q') \<longleftrightarrow> r' = r \<and> (\<exists>i. 0 < i \<and> f q = ((i, x), q'))"
  by (auto simp: plain_call_def ecvt_eq_ok split: prod.splits)

lemma plain_check_eq_ok: "plain_check f r q = (Ok x, r', q') \<longleftrightarrow> r' = r \<and> (\<exists>i. 0 < i \<and> f q = (i, q'))"
  by (auto simp: plain_check_def plain_call_eq_ok split: prod.splits)

lemma plain_check_returns: "\<exists>i q'. 0 < i \<and> f q = (i, q') \<Longrightarrow> \<exists>q'. plain_check f r q = (Ok (), r, q')"
  by (simp add: plain_check_eq_ok) blast

text \<open>
  A public key that belongs to a private key: it was generated with it, derived from it, or restored from the bytes of
  such a key; and a private key may be restored from its seed.
\<close>

inductive belongs :: "('p, 's, 'r) dsa_api \<Rightarrow> 'p dsa_public \<Rightarrow> 's dsa_private \<Rightarrow> bool" for A where
  generated: "dsa_generate A alg r q = (Ok (pk, sk), r', q') \<Longrightarrow> belongs A pk sk"
| derived: "belongs A pk sk \<Longrightarrow> dsa_public_key A sk r q = (Ok pk', r', q') \<Longrightarrow> belongs A pk' sk"
| restored: "belongs A pk sk \<Longrightarrow> dsa_to_bytes A pk r1 q1 = (Ok bs, r2, q2) \<Longrightarrow>
    dsa_from_slice A (dp_algorithm pk) bs r q = (Ok pk', r', q') \<Longrightarrow> belongs A pk' sk"
| reseeded: "belongs A pk sk \<Longrightarrow> dsa_from_seed A (ds_algorithm sk) (ds_seed sk) r q = (Ok sk', r', q') \<Longrightarrow>
    belongs A pk sk'"

text \<open>The invariant: both keys carry their set, consistently, and are paired; the seed is that of the private key.\<close>

definition dsa_inv ::
    "('p, 's, 'r) dsa_api \<Rightarrow> (dsa_algorithm \<Rightarrow> 'p \<Rightarrow> 's \<Rightarrow> bool) \<Rightarrow> 'p dsa_public \<Rightarrow> 's dsa_private \<Rightarrow> bool" where
  "dsa_inv A pair pk sk \<longleftrightarrow>
     (\<exists>alg p s. pair alg p s \<and>
        pk = \<lparr>dp_algorithm = alg, dp_inner = tag_inner alg p\<rparr> \<and>
        ds_algorithm sk = alg \<and> ds_inner sk = tag_inner alg s \<and>
        (\<forall>q. \<exists>i q'. 0 < i \<and> MLDSA_private_key_from_seed (set_of A alg) (ds_seed sk) q = ((i, s), q')))"

lemma dsa_from_slice_eq_ok:
  "dsa_from_slice A alg bs r q = (Ok pk, r', q') \<longleftrightarrow>
     length bs = dsa_public_key_bytes A alg \<and> r' = r \<and>
     (\<exists>i p. 0 < i \<and> MLDSA_parse_public_key (set_of A alg) bs q = ((i, p, []), q') \<and>
        pk = \<lparr>dp_algorithm = alg, dp_inner = tag_inner alg p\<rparr>)"
  by (auto simp: dsa_from_slice_def eff_ok plain_call_eq_ok)

lemma generated_inv:
  assumes "dsa_spec A pair" "dsa_generate A alg r q = (Ok (pk, sk), r', q')"
  shows "dsa_inv A pair pk sk"
proof -
  from assms(2) obtain i bytes seed s r1 q1 j p where
    g: "0 < i" "MLDSA_generate_key (set_of A alg) r q = ((i, bytes, seed, s), r1, q1)" and
    p: "0 < j" "MLDSA_parse_public_key (set_of A alg) bytes q1 = ((j, p, []), q')"
       "pk = \<lparr>dp_algorithm = alg, dp_inner = tag_inner alg p\<rparr>"
       "sk = \<lparr>ds_algorithm = alg, ds_seed = seed, ds_inner = tag_inner alg s\<rparr>"
    by (auto simp: dsa_generate_def eff_ok dsa_from_slice_eq_ok)
  have "dsa_generates (set_of A alg) (pair alg)" using assms(1) by (simp add: dsa_spec_def)
  with g p(1,2) have "pair alg p s"
      "\<forall>q. \<exists>i q'. 0 < i \<and> MLDSA_private_key_from_seed (set_of A alg) seed q = ((i, s), q')"
    unfolding dsa_generates_def by metis+
  then show ?thesis unfolding dsa_inv_def using p(3,4) by auto
qed

lemma belongs_inv:
  assumes "belongs A pk sk" "dsa_spec A pair"
  shows "dsa_inv A pair pk sk"
  using assms(1)
proof induction
  case (generated alg r q pk sk r' q')
  then show ?case by (rule generated_inv[OF assms(2)])
next
  case (derived pk sk r q pk' r' q')
  then obtain alg p s where a: "pair alg p s" "ds_algorithm sk = alg" "ds_inner sk = tag_inner alg s"
      "\<forall>q. \<exists>i q'. 0 < i \<and> MLDSA_private_key_from_seed (set_of A alg) (ds_seed sk) q = ((i, s), q')"
    unfolding dsa_inv_def by auto
  from derived(2) a obtain i p' where "0 < i" "MLDSA_public_from_private (set_of A alg) s q = ((i, p'), q')"
      "pk' = \<lparr>dp_algorithm = alg, dp_inner = tag_inner alg p'\<rparr>"
    by (auto simp: dsa_public_key_def eff_ok plain_call_eq_ok)
  moreover have "dsa_derives (set_of A alg) (pair alg)" using assms(2) by (simp add: dsa_spec_def)
  ultimately have "pair alg p' s" "pk' = \<lparr>dp_algorithm = alg, dp_inner = tag_inner alg p'\<rparr>"
    using a(1) unfolding dsa_derives_def by metis+
  then show ?case unfolding dsa_inv_def using a by blast
next
  case (restored pk sk r1 q1 bs r2 q2 r q pk' r' q')
  then obtain alg p where pk: "pk = \<lparr>dp_algorithm = alg, dp_inner = tag_inner alg p\<rparr>" unfolding dsa_inv_def by auto
  from restored(2) pk obtain i bs' q0 where m: "0 < i"
      "MLDSA_marshal_public_key (set_of A alg) p q0 = ((i, bs'), q2)"
      "bs = overwrite bs' (replicate (dsa_public_key_bytes A alg) 0)"
    by (auto simp: dsa_to_bytes_def Let_def eff_ok plain_call_eq_ok plain_check_eq_ok)
  have "dsa_marshals (set_of A alg)" using assms(2) by (simp add: dsa_spec_def)
  with m have parsed: "length bs' = DSA_PUBLIC_KEY_BYTES (set_of A alg)"
      "\<exists>j q'. 0 < j \<and> MLDSA_parse_public_key (set_of A alg) bs' q = ((j, p, []), q')"
    unfolding dsa_marshals_def by metis+
  then have "bs = bs'" using m(3) by (simp add: overwrite_def set_sizes)
  with restored(3) parsed(2) pk have "pk' = pk" by (auto simp: dsa_from_slice_eq_ok)
  with restored(4) show ?case by simp
next
  case (reseeded pk sk r q sk' r' q')
  then obtain alg s where a: "ds_algorithm sk = alg" "ds_inner sk = tag_inner alg s"
      "\<exists>i q'. 0 < i \<and> MLDSA_private_key_from_seed (set_of A alg) (ds_seed sk) q = ((i, s), q')"
    unfolding dsa_inv_def by blast
  with reseeded(2) have "sk' = \<lparr>ds_algorithm = alg, ds_seed = ds_seed sk, ds_inner = tag_inner alg s\<rparr>"
    by (auto simp: dsa_from_seed_def eff_ok plain_call_eq_ok)
  then have "sk' = sk" using a by (cases sk) simp
  with reseeded(3) show ?case by simp
qed

text \<open>
  C36: A signature verifies with every public key that belongs to the private key, however both were restored since they
  were generated, and has the length of the algorithm. Both keys are of one algorithm, which is also the tag of what they
  hold, so that the functions of one set never see a key of another.
\<close>

theorem mldsa_signatures_verify:
  assumes "dsa_spec A pair" "belongs A pk sk" "dsa_sign A sk msg r q = (Ok signature, r', q')"
  shows "dp_algorithm pk = ds_algorithm sk \<and> inner_algorithm (dp_inner pk) = ds_algorithm sk \<and>
     inner_algorithm (ds_inner sk) = ds_algorithm sk \<and>
     length signature = dsa_signature_bytes A (ds_algorithm sk) \<and>
     (\<forall>r q. \<exists>q'. dsa_verify A pk msg signature r q = (Ok (), r, q'))"
proof -
  from belongs_inv[OF assms(2,1)] obtain alg p s where a: "pair alg p s"
      "pk = \<lparr>dp_algorithm = alg, dp_inner = tag_inner alg p\<rparr>" "ds_algorithm sk = alg" "ds_inner sk = tag_inner alg s"
    unfolding dsa_inv_def by blast
  from assms(3) a obtain i sig where s: "0 < i" "MLDSA_sign (set_of A alg) s msg r q = ((i, sig), r', q')"
      "signature = overwrite sig (replicate (dsa_signature_bytes A alg) 0)"
    by (auto simp: dsa_sign_def Let_def eff_ok set_sizes)
  have "dsa_verifies (set_of A alg) (pair alg)" using assms(1) by (simp add: dsa_spec_def)
  with a(1) s have v: "length sig = DSA_SIGNATURE_BYTES (set_of A alg)"
      "\<exists>j q'. 0 < j \<and> MLDSA_verify (set_of A alg) p sig msg q = (j, q')" for q
    unfolding dsa_verifies_def by metis+
  have "signature = sig" using s(3) v(1) by (simp add: overwrite_def set_sizes)
  moreover have "\<exists>q'. dsa_verify A pk msg sig r q = (Ok (), r, q')" for r q
    using plain_check_returns[of "MLDSA_verify (set_of A alg) p sig msg" q r] v(2)[of q] a(2)
    by (auto simp: dsa_verify_def)
  ultimately show ?thesis using a v(1) by (simp add: set_sizes)
qed

text \<open>Keys of one byte: a signature repeats the key and does not depend on the message.\<close>

definition byte_dsa :: "nat \<Rightarrow> nat \<Rightarrow> (byte, byte, nat) dsa_set" where
  "byte_dsa pub n =
     \<lparr>DSA_PUBLIC_KEY_BYTES = pub, DSA_SIGNATURE_BYTES = n,
      MLDSA_generate_key =
        (\<lambda>r q. ((1, replicate pub (word_of_nat r), replicate 32 (word_of_nat r), word_of_nat r), r + 1, q)),
      MLDSA_private_key_from_seed = (\<lambda>seed q. ((1, hd seed), q)),
      MLDSA_public_from_private = (\<lambda>s q. ((1, s), q)),
      MLDSA_sign = (\<lambda>s msg r q. ((1, replicate n s), r + 1, q)),
      MLDSA_parse_public_key = (\<lambda>bs q. ((1, hd bs, []), q)),
      MLDSA_marshal_public_key = (\<lambda>p q. ((1, replicate pub p), q)),
      MLDSA_verify = (\<lambda>p sig msg q. (if sig = replicate n p then 1 else 0, q))\<rparr>"

definition sample_dsa :: "(byte, byte, nat) dsa_api" where
  "sample_dsa =
     \<lparr>dsa44 = byte_dsa 1312 2420, dsa65 = byte_dsa 1952 3309, dsa87 = byte_dsa 2592 4627, dsa_err_lib_none = 1,
      CBB_init_fixed = (\<lambda>n q. (1, q))\<rparr>"

lemma byte_dsa_ok:
  assumes "0 < pub"
  shows "dsa_generates (byte_dsa pub n) (=)" "dsa_derives (byte_dsa pub n) (=)"
    "dsa_marshals (byte_dsa pub n)" "dsa_verifies (byte_dsa pub n) (=)"
  using assms by (auto simp: dsa_generates_def dsa_derives_def dsa_marshals_def dsa_verifies_def byte_dsa_def)

lemma sample_dsa_ok: "dsa_spec sample_dsa (\<lambda>_. (=))"
  by (auto simp: dsa_spec_def set_of_def sample_dsa_def byte_dsa_ok split: dsa_algorithm.split)

definition sample_public :: "byte dsa_public" where
  "sample_public = \<lparr>dp_algorithm = MlDsa65, dp_inner = Inner65 7\<rparr>"

definition sample_private :: "byte dsa_private" where
  "sample_private = \<lparr>ds_algorithm = MlDsa65, ds_seed = replicate 32 7, ds_inner = Inner65 7\<rparr>"

lemma sample_dsa_generated: "dsa_generate sample_dsa MlDsa65 7 [] = (Ok (sample_public, sample_private), 8, [])"
  by (simp add: dsa_generate_def dsa_from_slice_def set_sizes ecvt_def cvt_def plain_call_def tag_inner_def
      set_of_def sample_dsa_def byte_dsa_def sample_public_def sample_private_def)

theorem mldsa_signatures_verify_witness:
  "dp_algorithm sample_public = ds_algorithm sample_private \<and>
     inner_algorithm (dp_inner sample_public) = ds_algorithm sample_private \<and>
     inner_algorithm (ds_inner sample_private) = ds_algorithm sample_private \<and>
     length (replicate 3309 (7 :: byte)) = dsa_signature_bytes sample_dsa (ds_algorithm sample_private) \<and>
     (\<forall>r q. \<exists>q'. dsa_verify sample_dsa sample_public [1, 2] (replicate 3309 7) r q = (Ok (), r, q'))"
proof (rule mldsa_signatures_verify [OF sample_dsa_ok generated [OF sample_dsa_generated]])
  show "dsa_sign sample_dsa sample_private [1, 2] 8 [] = (Ok (replicate 3309 7), 9, [])"
    by (simp add: dsa_sign_def Let_def ecvt_def cvt_def set_of_def inner_algorithm_def inner_key_def overwrite_def
        sample_dsa_def byte_dsa_def sample_private_def)
qed

end
