(* ===== verification/Key_Parts.thy ===== *)
theory Key_Parts
  imports Hoare
begin

text \<open>
  Keys made of parts: the constructors of \<open>btls/src/rsa.rs\<close>, \<open>dsa.rs\<close>, \<open>dh.rs\<close>, \<open>ecdsa.rs\<close>, \<open>ec.rs\<close>, \<open>pkey.rs\<close> and
  \<open>pkcs12.rs\<close>. They take numbers and keys by value and hand them to an object of BoringSSL, which then frees them; what
  they do not hand over Rust drops, unless it was forgotten or was only a raw pointer.

  The state of an operation is the heap of foreign objects, which are numbers. An object has slots for the objects it
  frees with itself. Whether a call of BoringSSL succeeds is a parameter.
\<close>

section \<open>The heap\<close>

datatype slot =
  Slot_n | Slot_e | Slot_d | Slot_p | Slot_q | Slot_dmp1 | Slot_dmq1 | Slot_iqmp | Slot_g | Slot_pub | Slot_priv
| Slot_r | Slot_s | Slot_key

definition slots :: "slot list" where
  "slots = [Slot_n, Slot_e, Slot_d, Slot_p, Slot_q, Slot_dmp1, Slot_dmq1, Slot_iqmp, Slot_g, Slot_pub, Slot_priv,
     Slot_r, Slot_s, Slot_key]"

text \<open>\<open>hp_part h k s\<close>: what freeing the object in slot \<open>s\<close> of \<open>k\<close> frees. \<open>hp_bad\<close>: something was freed that was not live.\<close>

record heap =
  hp_next :: nat
  hp_live :: "nat set"
  hp_part :: "nat \<Rightarrow> slot \<Rightarrow> nat set"
  hp_bad :: bool

definition own :: "heap \<Rightarrow> nat \<Rightarrow> nat set" where
  "own h k = insert k (\<Union>s\<in>set slots. hp_part h k s)"

definition free_set :: "nat set \<Rightarrow> heap \<Rightarrow> heap" where
  "free_set X h = h\<lparr>hp_live := hp_live h - X, hp_bad := (hp_bad h \<or> \<not> X \<subseteq> hp_live h)\<rparr>"

definition drop_obj :: "nat \<Rightarrow> heap \<Rightarrow> heap" where
  "drop_obj k h = free_set (own h k) h"

definition drop_all :: "nat list \<Rightarrow> heap \<Rightarrow> heap" where
  "drop_all xs h = fold drop_obj xs h"

text \<open>An object is put into a slot; what was there is freed.\<close>

definition put_part :: "nat \<Rightarrow> slot \<times> nat \<Rightarrow> heap \<Rightarrow> heap" where
  "put_part k sx h =
     (case sx of (s, x) \<Rightarrow>
        (free_set (hp_part h k s) h)\<lparr>hp_part := (hp_part h)(k := (hp_part h k)(s := own h x))\<rparr>)"

section \<open>Calls\<close>

text \<open>\<open>cvt_p\<close> of a function that makes an object, and \<open>cvt\<close> of one that takes objects over if it succeeds.\<close>

definition fresh_obj :: "heap \<Rightarrow> heap" where
  "fresh_obj h =
     h\<lparr>hp_next := hp_next h + 1, hp_live := insert (hp_next h) (hp_live h), hp_part := (hp_part h)(hp_next h := \<lambda>_. {})\<rparr>"

definition new_obj :: "(err_queue \<Rightarrow> bool \<times> err_queue) \<Rightarrow> (heap, nat) eff" where
  "new_obj f h q =
     (case f q of
        (True, q') \<Rightarrow> (Ok (hp_next h), fresh_obj h, q')
      | (False, q') \<Rightarrow> (case error_stack_get q' of (es, q2) \<Rightarrow> (Err es, h, q2)))"

definition set0 :: "(heap \<Rightarrow> nat \<Rightarrow> err_queue \<Rightarrow> int \<times> err_queue) \<Rightarrow> nat \<Rightarrow> (slot \<times> nat) list \<Rightarrow> (heap, unit) eff" where
  "set0 f k sxs =
     ecvt (\<lambda>h q. case f h k q of (r, q') \<Rightarrow> ((r, ()), if 0 < r then fold (put_part k) sxs h else h, q'))"

text \<open>The \<open>?\<close> operator where Rust owns the objects \<open>xs\<close>, which an early return drops.\<close>

definition etry :: "nat list \<Rightarrow> (heap, 'a) eff \<Rightarrow> ('a \<Rightarrow> (heap, 'b) eff) \<Rightarrow> (heap, 'b) eff" where
  "etry xs m f h q =
     (case m h q of
        (Ok x, h', q') \<Rightarrow> f x h' q'
      | (Err es, h', q') \<Rightarrow> (Err es, drop_all xs h', q')
      | (Panicked p, h', q') \<Rightarrow> (Panicked p, drop_all xs h', q'))"

record key_api =
  BN_new :: "err_queue \<Rightarrow> bool \<times> err_queue"
  BN_set_word :: "int \<Rightarrow> heap \<Rightarrow> nat \<Rightarrow> err_queue \<Rightarrow> int \<times> err_queue"
  RSA_new :: "err_queue \<Rightarrow> bool \<times> err_queue"
  DSA_new :: "err_queue \<Rightarrow> bool \<times> err_queue"
  DH_new :: "err_queue \<Rightarrow> bool \<times> err_queue"
  ECDSA_SIG_new :: "err_queue \<Rightarrow> bool \<times> err_queue"
  EC_KEY_new :: "err_queue \<Rightarrow> bool \<times> err_queue"
  EC_KEY_new_by_curve_name :: "int \<Rightarrow> err_queue \<Rightarrow> bool \<times> err_queue"
  EVP_PKEY_new :: "err_queue \<Rightarrow> bool \<times> err_queue"
  EVP_PKEY_CTX_new_id :: "int \<Rightarrow> err_queue \<Rightarrow> bool \<times> err_queue"
  RSA_set0_key :: "heap \<Rightarrow> nat \<Rightarrow> err_queue \<Rightarrow> int \<times> err_queue"
  RSA_set0_factors :: "heap \<Rightarrow> nat \<Rightarrow> err_queue \<Rightarrow> int \<times> err_queue"
  RSA_set0_crt_params :: "heap \<Rightarrow> nat \<Rightarrow> err_queue \<Rightarrow> int \<times> err_queue"
  DSA_set0_pqg :: "heap \<Rightarrow> nat \<Rightarrow> err_queue \<Rightarrow> int \<times> err_queue"
  DSA_set0_key :: "heap \<Rightarrow> nat \<Rightarrow> err_queue \<Rightarrow> int \<times> err_queue"
  DH_set0_pqg :: "heap \<Rightarrow> nat \<Rightarrow> err_queue \<Rightarrow> int \<times> err_queue"
  ECDSA_SIG_set0 :: "heap \<Rightarrow> nat \<Rightarrow> err_queue \<Rightarrow> int \<times> err_queue"
  EVP_PKEY_assign :: "heap \<Rightarrow> nat \<Rightarrow> err_queue \<Rightarrow> int \<times> err_queue"
  RSA_generate_key_ex :: "int \<Rightarrow> nat \<Rightarrow> heap \<Rightarrow> nat \<Rightarrow> err_queue \<Rightarrow> int \<times> err_queue"
  DSA_generate_parameters_ex :: "32 word \<Rightarrow> heap \<Rightarrow> nat \<Rightarrow> err_queue \<Rightarrow> int \<times> err_queue"
  DSA_generate_key :: "heap \<Rightarrow> nat \<Rightarrow> err_queue \<Rightarrow> int \<times> err_queue"
  EC_KEY_set_group :: "nat \<Rightarrow> heap \<Rightarrow> nat \<Rightarrow> err_queue \<Rightarrow> int \<times> err_queue"
  EC_KEY_set_public_key :: "nat \<Rightarrow> heap \<Rightarrow> nat \<Rightarrow> err_queue \<Rightarrow> int \<times> err_queue"
  EC_KEY_set_private_key :: "nat \<Rightarrow> heap \<Rightarrow> nat \<Rightarrow> err_queue \<Rightarrow> int \<times> err_queue"
  EC_KEY_set_public_key_affine_coordinates :: "nat \<Rightarrow> nat \<Rightarrow> heap \<Rightarrow> nat \<Rightarrow> err_queue \<Rightarrow> int \<times> err_queue"
  EC_KEY_generate_key :: "heap \<Rightarrow> nat \<Rightarrow> err_queue \<Rightarrow> int \<times> err_queue"
  EVP_PKEY_keygen_init :: "heap \<Rightarrow> nat \<Rightarrow> err_queue \<Rightarrow> int \<times> err_queue"
  EVP_PKEY_keygen :: "heap \<Rightarrow> nat \<Rightarrow> err_queue \<Rightarrow> int \<times> err_queue"
  PKCS12_parse :: "nat \<Rightarrow> string \<Rightarrow> err_queue \<Rightarrow> (int \<times> bool \<times> bool \<times> bool) \<times> err_queue"
  PKCS12_create :: "string \<Rightarrow> string \<Rightarrow> nat \<Rightarrow> nat \<Rightarrow> nat option \<Rightarrow> int \<Rightarrow> int \<Rightarrow> int \<Rightarrow> int \<Rightarrow> int \<Rightarrow>
    err_queue \<Rightarrow> bool \<times> err_queue"
  kp_err_lib_none :: "32 word"

section \<open>RSA\<close>

text \<open>Between the two calls \<open>rsa\<close> is a raw pointer, which an early return does not free.\<close>

definition rsa_from_public_components :: "key_api \<Rightarrow> nat \<Rightarrow> nat \<Rightarrow> (heap, nat) eff" where
  "rsa_from_public_components A n e =
     etry [n, e] (new_obj (RSA_new A)) (\<lambda>rsa.
       etry [n, e] (set0 (RSA_set0_key A) rsa [(Slot_n, n), (Slot_e, e)]) (\<lambda>_. eret rsa))"

definition rsa_builder_new :: "key_api \<Rightarrow> nat \<Rightarrow> nat \<Rightarrow> nat \<Rightarrow> (heap, nat) eff" where
  "rsa_builder_new A n e d =
     etry [n, e, d] (new_obj (RSA_new A)) (\<lambda>rsa.
       etry [n, e, d] (set0 (RSA_set0_key A) rsa [(Slot_n, n), (Slot_e, e), (Slot_d, d)]) (\<lambda>_. eret rsa))"

definition rsa_set_factors :: "key_api \<Rightarrow> nat \<Rightarrow> nat \<Rightarrow> nat \<Rightarrow> (heap, nat) eff" where
  "rsa_set_factors A rsa p q =
     etry [q, p, rsa] (set0 (RSA_set0_factors A) rsa [(Slot_p, p), (Slot_q, q)]) (\<lambda>_. eret rsa)"

definition rsa_set_crt_params :: "key_api \<Rightarrow> nat \<Rightarrow> nat \<Rightarrow> nat \<Rightarrow> nat \<Rightarrow> (heap, nat) eff" where
  "rsa_set_crt_params A rsa dmp1 dmq1 iqmp =
     etry [iqmp, dmq1, dmp1, rsa]
       (set0 (RSA_set0_crt_params A) rsa [(Slot_dmp1, dmp1), (Slot_dmq1, dmq1), (Slot_iqmp, iqmp)]) (\<lambda>_. eret rsa)"

definition rsa_from_private_components ::
    "key_api \<Rightarrow> nat \<Rightarrow> nat \<Rightarrow> nat \<Rightarrow> nat \<Rightarrow> nat \<Rightarrow> nat \<Rightarrow> nat \<Rightarrow> nat \<Rightarrow> (heap, nat) eff" where
  "rsa_from_private_components A n e d p q dmp1 dmq1 iqmp =
     etry [iqmp, dmq1, dmp1, q, p] (rsa_builder_new A n e d) (\<lambda>rsa.
       etry [iqmp, dmq1, dmp1] (rsa_set_factors A rsa p q) (\<lambda>rsa.
         rsa_set_crt_params A rsa dmp1 dmq1 iqmp))"

text \<open>\<open>bits as c_int\<close> wraps; the exponent of \<open>generate\<close> is dropped when it returns.\<close>

definition rsa_generate_with_e :: "key_api \<Rightarrow> 32 word \<Rightarrow> nat \<Rightarrow> (heap, nat) eff" where
  "rsa_generate_with_e A bits e =
     ebind (new_obj (RSA_new A)) (\<lambda>rsa. etry [rsa] (set0 (RSA_generate_key_ex A (sint bits) e) rsa []) (\<lambda>_. eret rsa))"

definition bn_from_u32 :: "key_api \<Rightarrow> int \<Rightarrow> (heap, nat) eff" where
  "bn_from_u32 A n = ebind (new_obj (BN_new A)) (\<lambda>v. etry [v] (set0 (BN_set_word A n) v []) (\<lambda>_. eret v))"

definition rsa_generate :: "key_api \<Rightarrow> 32 word \<Rightarrow> (heap, nat) eff" where
  "rsa_generate A bits =
     ebind (bn_from_u32 A 65537) (\<lambda>e h q.
       case rsa_generate_with_e A bits e h q of (result, h', q') \<Rightarrow> (result, drop_obj e h', q'))"

section \<open>DSA, DH and ECDSA signatures\<close>

definition dsa_generate_key :: "key_api \<Rightarrow> 32 word \<Rightarrow> (heap, nat) eff" where
  "dsa_generate_key A bits =
     ebind (new_obj (DSA_new A)) (\<lambda>dsa.
       etry [dsa] (set0 (DSA_generate_parameters_ex A bits) dsa []) (\<lambda>_.
         etry [dsa] (set0 (DSA_generate_key A) dsa []) (\<lambda>_. eret dsa)))"

definition dsa_from_private_components :: "key_api \<Rightarrow> nat \<Rightarrow> nat \<Rightarrow> nat \<Rightarrow> nat \<Rightarrow> nat \<Rightarrow> (heap, nat) eff" where
  "dsa_from_private_components A p q g priv_key pub_key =
     etry [pub_key, priv_key, g, q, p] (new_obj (DSA_new A)) (\<lambda>dsa.
       etry [dsa, pub_key, priv_key, g, q, p] (set0 (DSA_set0_pqg A) dsa [(Slot_p, p), (Slot_q, q), (Slot_g, g)]) (\<lambda>_.
         etry [dsa, pub_key, priv_key] (set0 (DSA_set0_key A) dsa [(Slot_pub, pub_key), (Slot_priv, priv_key)]) (\<lambda>_.
           eret dsa)))"

text \<open>\<open>pub_key.into_ptr()\<close> gives up the number before the call is known to succeed.\<close>

definition dsa_from_public_components :: "key_api \<Rightarrow> nat \<Rightarrow> nat \<Rightarrow> nat \<Rightarrow> nat \<Rightarrow> (heap, nat) eff" where
  "dsa_from_public_components A p q g pub_key =
     etry [pub_key, g, q, p] (new_obj (DSA_new A)) (\<lambda>dsa.
       etry [dsa, pub_key, g, q, p] (set0 (DSA_set0_pqg A) dsa [(Slot_p, p), (Slot_q, q), (Slot_g, g)]) (\<lambda>_.
         etry [dsa] (set0 (DSA_set0_key A) dsa [(Slot_pub, pub_key)]) (\<lambda>_. eret dsa)))"

definition dh_from_params :: "key_api \<Rightarrow> nat \<Rightarrow> nat \<Rightarrow> nat \<Rightarrow> (heap, nat) eff" where
  "dh_from_params A p g q =
     etry [q, g, p] (new_obj (DH_new A)) (\<lambda>dh.
       etry [dh, q, g, p] (set0 (DH_set0_pqg A) dh [(Slot_p, p), (Slot_q, q), (Slot_g, g)]) (\<lambda>_. eret dh))"

text \<open>The result of \<open>ECDSA_SIG_set0\<close> is ignored.\<close>

definition ecdsa_from_private_components :: "key_api \<Rightarrow> nat \<Rightarrow> nat \<Rightarrow> (heap, nat) eff" where
  "ecdsa_from_private_components A r s =
     etry [s, r] (new_obj (ECDSA_SIG_new A)) (\<lambda>sig h q.
       case ECDSA_SIG_set0 A h sig q of (i, q') \<Rightarrow>
         (Ok sig, if 0 < i then fold (put_part sig) [(Slot_r, r), (Slot_s, s)] h else h, q'))"

section \<open>Elliptic curve keys\<close>

text \<open>The setters copy their arguments; a key whose setter fails is dropped.\<close>

definition ec_from_curve_name :: "key_api \<Rightarrow> int \<Rightarrow> (heap, nat) eff" where
  "ec_from_curve_name A nid = new_obj (EC_KEY_new_by_curve_name A nid)"

definition ec_from_group :: "key_api \<Rightarrow> nat \<Rightarrow> (heap, nat) eff" where
  "ec_from_group A grp =
     ebind (new_obj (EC_KEY_new A)) (\<lambda>key. etry [key] (set0 (EC_KEY_set_group A grp) key []) (\<lambda>_. eret key))"

definition ec_from_public_key :: "key_api \<Rightarrow> nat \<Rightarrow> nat \<Rightarrow> (heap, nat) eff" where
  "ec_from_public_key A grp public_key =
     ebind (new_obj (EC_KEY_new A)) (\<lambda>key.
       etry [key] (set0 (EC_KEY_set_group A grp) key []) (\<lambda>_.
         etry [key] (set0 (EC_KEY_set_public_key A public_key) key []) (\<lambda>_. eret key)))"

definition ec_from_affine_coordinates :: "key_api \<Rightarrow> nat \<Rightarrow> nat \<Rightarrow> nat \<Rightarrow> (heap, nat) eff" where
  "ec_from_affine_coordinates A grp x y =
     ebind (new_obj (EC_KEY_new A)) (\<lambda>key.
       etry [key] (set0 (EC_KEY_set_group A grp) key []) (\<lambda>_.
         etry [key] (set0 (EC_KEY_set_public_key_affine_coordinates A x y) key []) (\<lambda>_. eret key)))"

definition ec_generate :: "key_api \<Rightarrow> nat \<Rightarrow> (heap, nat) eff" where
  "ec_generate A grp =
     ebind (new_obj (EC_KEY_new A)) (\<lambda>key.
       etry [key] (set0 (EC_KEY_set_group A grp) key []) (\<lambda>_.
         etry [key] (set0 (EC_KEY_generate_key A) key []) (\<lambda>_. eret key)))"

definition ec_from_private_components :: "key_api \<Rightarrow> nat \<Rightarrow> nat \<Rightarrow> nat \<Rightarrow> (heap, nat) eff" where
  "ec_from_private_components A grp private_number public_key =
     ebind (new_obj (EC_KEY_new A)) (\<lambda>key.
       etry [key] (set0 (EC_KEY_set_group A grp) key []) (\<lambda>_.
         etry [key] (set0 (EC_KEY_set_private_key A private_number) key []) (\<lambda>_.
           etry [key] (set0 (EC_KEY_set_public_key A public_key) key []) (\<lambda>_. eret key))))"

section \<open>Keys of any type\<close>

definition pkey_from_rsa :: "key_api \<Rightarrow> nat \<Rightarrow> (heap, nat) eff" where
  "pkey_from_rsa A rsa =
     etry [rsa] (new_obj (EVP_PKEY_new A)) (\<lambda>pkey.
       etry [pkey, rsa] (set0 (EVP_PKEY_assign A) pkey [(Slot_key, rsa)]) (\<lambda>_. eret pkey))"

definition pkey_from_ec_key :: "key_api \<Rightarrow> nat \<Rightarrow> (heap, nat) eff" where
  "pkey_from_ec_key A ec_key =
     etry [ec_key] (new_obj (EVP_PKEY_new A)) (\<lambda>pkey.
       etry [pkey, ec_key] (set0 (EVP_PKEY_assign A) pkey [(Slot_key, ec_key)]) (\<lambda>_. eret pkey))"

text \<open>A call that succeeds with a new object.\<close>

definition make_obj :: "(heap \<Rightarrow> nat \<Rightarrow> err_queue \<Rightarrow> int \<times> err_queue) \<Rightarrow> nat \<Rightarrow> (heap, nat) eff" where
  "make_obj f k =
     ecvt (\<lambda>h q. case f h k q of (r, q') \<Rightarrow> ((r, hp_next h), if 0 < r then fresh_obj h else h, q'))"

text \<open>The context is freed however the closure ends.\<close>

definition pkey_generate :: "key_api \<Rightarrow> int \<Rightarrow> (heap, nat) eff" where
  "pkey_generate A ident =
     ebind (new_obj (EVP_PKEY_CTX_new_id A ident)) (\<lambda>ctx h q.
       case ethen (set0 (EVP_PKEY_keygen_init A) ctx []) (make_obj (EVP_PKEY_keygen A) ctx) h q of
         (result, h', q') \<Rightarrow> (result, drop_obj ctx h', q'))"

section \<open>PKCS#12 archives\<close>

record parsed_pkcs12 =
  p12_pkey :: "nat option"
  p12_cert :: "nat option"
  p12_ca :: "nat option"

definition out_obj :: "bool \<Rightarrow> heap \<Rightarrow> nat option \<times> heap" where
  "out_obj b h = (if b then (Some (hp_next h), fresh_obj h) else (None, h))"

text \<open>\<open>PKCS12_parse\<close> tells which of its outputs it sets; it sets none if it fails.\<close>

definition pkcs12_parse2 :: "key_api \<Rightarrow> nat \<Rightarrow> string \<Rightarrow> (heap, parsed_pkcs12) eff" where
  "pkcs12_parse2 A archive pass =
     ebind (ecstring (kp_err_lib_none A) pass) (\<lambda>pass h q.
       case PKCS12_parse A archive pass q of ((r, has_pkey, has_cert, has_ca), q') \<Rightarrow>
         (case cvt_0i r q' of
            (Inl es, q2) \<Rightarrow> (Err es, h, q2)
          | (Inr _, q2) \<Rightarrow>
              (case out_obj has_pkey h of (pkey, h1) \<Rightarrow>
                (case out_obj has_cert h1 of (cert, h2) \<Rightarrow>
                  (case out_obj has_ca h2 of (ca, h3) \<Rightarrow>
                     (Ok \<lparr>p12_pkey = pkey, p12_cert = cert, p12_ca = ca\<rparr>, h3, q2))))))"

definition opt_list :: "'a option \<Rightarrow> 'a list" where
  "opt_list x = (case x of None \<Rightarrow> [] | Some y \<Rightarrow> [y])"

definition ok_or_else :: "'a option \<Rightarrow> error_stack \<Rightarrow> (heap, 'a) eff" where
  "ok_or_else x es = (case x of None \<Rightarrow> efail es | Some y \<Rightarrow> eret y)"

definition pkcs12_parse :: "key_api \<Rightarrow> nat \<Rightarrow> string \<Rightarrow> (heap, nat \<times> nat \<times> nat option) eff" where
  "pkcs12_parse A archive pass =
     ebind (pkcs12_parse2 A archive pass) (\<lambda>p2.
       etry (opt_list (p12_cert p2) @ opt_list (p12_ca p2))
         (ok_or_else (p12_pkey p2) (internal_error_str (kp_err_lib_none A) ''missing pkey'')) (\<lambda>pkey.
           etry (pkey # opt_list (p12_ca p2))
             (ok_or_else (p12_cert p2) (internal_error_str (kp_err_lib_none A) ''missing cert'')) (\<lambda>cert.
               eret (pkey, cert, p12_ca p2))))"

record pkcs12_builder =
  p12_nid_key :: int
  p12_nid_cert :: int
  p12_iter :: int
  p12_mac_iter :: int
  p12_extra :: "nat option"

text \<open>\<open>builder\<close> and its setters: \<open>as c_int\<close> wraps, and \<open>ca\<close> drops the stack it replaces.\<close>

definition pkcs12_builder_new :: pkcs12_builder where
  "pkcs12_builder_new =
     \<lparr>p12_nid_key = 0, p12_nid_cert = 0, p12_iter = 2048, p12_mac_iter = 2048, p12_extra = None\<rparr>"

definition pkcs12_key_algorithm :: "int \<Rightarrow> pkcs12_builder \<Rightarrow> pkcs12_builder" where
  "pkcs12_key_algorithm nid b = b\<lparr>p12_nid_key := nid\<rparr>"

definition pkcs12_cert_algorithm :: "int \<Rightarrow> pkcs12_builder \<Rightarrow> pkcs12_builder" where
  "pkcs12_cert_algorithm nid b = b\<lparr>p12_nid_cert := nid\<rparr>"

definition pkcs12_key_iter :: "32 word \<Rightarrow> pkcs12_builder \<Rightarrow> pkcs12_builder" where
  "pkcs12_key_iter n b = b\<lparr>p12_iter := sint n\<rparr>"

definition pkcs12_set_mac_iter :: "32 word \<Rightarrow> pkcs12_builder \<Rightarrow> pkcs12_builder" where
  "pkcs12_set_mac_iter n b = b\<lparr>p12_mac_iter := sint n\<rparr>"

definition pkcs12_ca :: "nat \<Rightarrow> pkcs12_builder \<Rightarrow> heap \<Rightarrow> pkcs12_builder \<times> heap" where
  "pkcs12_ca ca b h = (b\<lparr>p12_extra := Some ca\<rparr>, drop_all (opt_list (p12_extra b)) h)"

text \<open>\<open>build\<close> takes the builder, so its stack is dropped when it returns; the archive has copies.\<close>

definition pkcs12_build :: "key_api \<Rightarrow> pkcs12_builder \<Rightarrow> string \<Rightarrow> string \<Rightarrow> nat \<Rightarrow> nat \<Rightarrow> (heap, nat) eff" where
  "pkcs12_build A b password friendly_name pkey cert h q =
     (case ebind (ecstring (kp_err_lib_none A) password) (\<lambda>pass.
             ebind (ecstring (kp_err_lib_none A) friendly_name) (\<lambda>name.
               new_obj (PKCS12_create A pass name pkey cert (p12_extra b) (p12_nid_key b) (p12_nid_cert b)
                 (p12_iter b) (p12_mac_iter b) 0))) h q of
        (result, h', q') \<Rightarrow> (result, drop_all (opt_list (p12_extra b)) h', q'))"

section \<open>Nothing is lost or freed twice\<close>

text \<open>New objects are not yet live and own nothing.\<close>

definition heap_ok :: "heap \<Rightarrow> bool" where
  "heap_ok h \<longleftrightarrow> (\<forall>x\<in>hp_live h. x < hp_next h) \<and> (\<forall>x\<ge>hp_next h. \<forall>s. hp_part h x s = {})"

definition owned :: "heap \<Rightarrow> nat set \<Rightarrow> nat set" where
  "owned h X = (\<Union>x\<in>X. own h x)"

text \<open>
  The call holds the objects \<open>X\<close>: they are live with all they own, and no two own the same object. \<open>F\<close> are the other
  live objects, \<open>T\<close> all live objects; the slots \<open>N\<close> are empty.
\<close>

definition holds :: "nat set \<Rightarrow> nat set \<Rightarrow> nat set \<Rightarrow> (nat \<times> slot) set \<Rightarrow> heap \<Rightarrow> bool" where
  "holds F X T N h \<longleftrightarrow>
     heap_ok h \<and> \<not> hp_bad h \<and> hp_live h = T \<and> T = F \<union> owned h X \<and> F \<inter> owned h X = {} \<and>
     (\<forall>x\<in>X. \<forall>y\<in>X. x \<noteq> y \<longrightarrow> own h x \<inter> own h y = {}) \<and> (\<forall>(k, s)\<in>N. hp_part h k s = {})"

lemma own_self [simp]: "k \<in> own h k"
  by (simp add: own_def)

lemma slot_in_slots [simp]: "s \<in> set slots"
  by (cases s) (simp_all add: slots_def)

lemma heap_parts:
  "hp_next (fresh_obj h) = hp_next h + 1" "hp_live (fresh_obj h) = insert (hp_next h) (hp_live h)"
  "hp_bad (fresh_obj h) = hp_bad h"
  "hp_next (drop_obj k h) = hp_next h" "hp_live (drop_obj k h) = hp_live h - own h k"
  "hp_part (drop_obj k h) = hp_part h" "hp_bad (drop_obj k h) \<longleftrightarrow> hp_bad h \<or> \<not> own h k \<subseteq> hp_live h"
  by (simp_all add: fresh_obj_def drop_obj_def free_set_def)

lemma own_drop [simp]: "own (drop_obj k h) x = own h x"
  by (simp add: own_def heap_parts)

lemma owned_drop [simp]: "owned (drop_obj k h) X = owned h X"
  by (simp add: owned_def)

lemma owned_remove:
  assumes "holds F X T N h" "x \<in> X"
  shows "owned h (X - {x}) = owned h X - own h x" "own h x \<subseteq> T" "own h x \<inter> F = {}"
  using assms unfolding holds_def owned_def by blast+

lemma holds_drop:
  assumes "holds F X T N h" "x \<in> X"
  shows "holds F (X - {x}) (T - own h x) N (drop_obj x h)"
  using assms(1) owned_remove[OF assms] unfolding holds_def
  by (auto simp: heap_parts heap_ok_def)

lemma holds_drop_all:
  assumes "holds F X T N h" "distinct xs" "set xs \<subseteq> X"
  shows "\<exists>T'. holds F (X - set xs) T' N (drop_all xs h)"
  using assms
proof (induction xs arbitrary: h X T)
  case (Cons x xs)
  have "holds F (X - {x}) (T - own h x) N (drop_obj x h)"
    using Cons.prems by (intro holds_drop) simp_all
  moreover have "distinct xs" "set xs \<subseteq> X - {x}" using Cons.prems by auto
  ultimately have "\<exists>T'. holds F (X - {x} - set xs) T' N (drop_all xs (drop_obj x h))" by (rule Cons.IH)
  moreover have "X - {x} - set xs = X - set (x # xs)" by auto
  ultimately show ?case by (simp add: drop_all_def)
qed (auto simp: drop_all_def)

lemma holds_disjoint: "holds F X T N h \<Longrightarrow> x \<in> X \<Longrightarrow> y \<in> X \<Longrightarrow> x \<noteq> y \<Longrightarrow> own h x \<inter> own h y = {}"
  unfolding holds_def by (elim conjE) (drule (1) bspec, drule (1) bspec, erule (1) mp)

lemma holds_less:
  assumes "holds F X T N h" "x \<in> X"
  shows "x < hp_next h"
proof -
  have "x \<in> owned h X" using assms(2) own_self[of x h] unfolding owned_def by blast
  then have "x \<in> hp_live h" using assms(1) by (auto simp: holds_def)
  then show ?thesis using assms(1) by (simp add: holds_def heap_ok_def)
qed

lemma holds_fresh:
  assumes "holds F X T N h"
  shows "holds F (insert (hp_next h) X) (insert (hp_next h) T) (N \<union> {hp_next h} \<times> UNIV) (fresh_obj h)"
proof -
  have *: "own (fresh_obj h) x = (if x = hp_next h then {x} else own h x)" for x
    by (auto simp: own_def fresh_obj_def)
  have live: "y < hp_next h" if "y \<in> T" for y using assms that by (auto simp: holds_def heap_ok_def)
  have "hp_next h \<notin> X" using holds_less[OF assms] by blast
  then have "owned (fresh_obj h) (insert (hp_next h) X) = insert (hp_next h) (owned h X)"
    by (auto simp: owned_def *)
  moreover have "hp_next h \<notin> own h x" if "x \<in> X" for x using assms that live by (auto simp: holds_def owned_def)
  moreover have "own (fresh_obj h) x \<inter> own (fresh_obj h) y = {}"
    if "x \<in> insert (hp_next h) X" "y \<in> insert (hp_next h) X" "x \<noteq> y" for x y
    using that calculation(2) holds_disjoint[OF assms, of x y] by (auto simp: *)
  moreover have "hp_part (fresh_obj h) y t = {}" if "(y, t) \<in> N \<union> {hp_next h} \<times> UNIV \<or> hp_next h + 1 \<le> y" for y t
    using that assms by (auto simp: fresh_obj_def holds_def heap_ok_def)
  moreover have "F \<inter> insert (hp_next h) (owned h X) = {}" using assms live by (auto simp: holds_def)
  ultimately show ?thesis
    using assms live unfolding holds_def heap_ok_def by (auto simp: heap_parts less_SucI)
qed

lemma holds_put:
  assumes "holds F X T N h" "k \<in> X" "x \<in> X" "x \<noteq> k" "(k, s) \<in> N"
  shows "holds F (X - {x}) T (N - {(k, s)}) (put_part k (s, x) h)"
proof -
  let ?h = "put_part k (s, x) h"
  have empty: "hp_part h k s = {}" using assms by (auto simp: holds_def)
  then have h': "?h = h\<lparr>hp_part := (hp_part h)(k := (hp_part h k)(s := own h x))\<rparr>"
    by (simp add: put_part_def free_set_def)
  have own': "own ?h y = (if y = k then own h k \<union> own h x else own h y)" for y
    using empty by (auto simp: own_def h' split: if_splits)
  have "owned ?h (X - {x}) = owned h X"
    using assms(2-4) by (auto simp: owned_def own' split: if_splits)
  moreover have "k < hp_next h" using assms(1,2) by (rule holds_less)
  moreover have "hp_next ?h = hp_next h" "hp_live ?h = hp_live h" "hp_bad ?h = hp_bad h" by (simp_all add: h')
  moreover have "own ?h y \<inter> own ?h z = {}" if "y \<in> X - {x}" "z \<in> X - {x}" "y \<noteq> z" for y z
    using holds_disjoint[OF assms(1), of y z] holds_disjoint[OF assms(1), of k z] holds_disjoint[OF assms(1), of x z]
      holds_disjoint[OF assms(1), of y k] holds_disjoint[OF assms(1), of y x] that assms(2-4)
    by (auto simp: own' Int_Un_distrib Int_Un_distrib2)
  moreover have "hp_part ?h y t = {}" if "(y, t) \<in> N - {(k, s)}" for y t
    using assms(1) that by (auto simp: holds_def h')
  moreover have "hp_part ?h y t = {}" if "hp_next h \<le> y" for y t
    using assms(1) that \<open>k < hp_next h\<close> by (auto simp: holds_def heap_ok_def h')
  ultimately show ?thesis
    using assms(1) unfolding holds_def heap_ok_def by auto
qed

lemma holds_put_all:
  assumes "holds F X T N h" "k \<in> X" "distinct (map snd sxs)" "distinct (map fst sxs)"
    "snd ` set sxs \<subseteq> X - {k}" "{k} \<times> fst ` set sxs \<subseteq> N"
  shows "holds F (X - snd ` set sxs) T (N - {k} \<times> fst ` set sxs) (fold (put_part k) sxs h)"
  using assms
proof (induction sxs arbitrary: h X N)
  case (Cons sx sxs)
  obtain s x where sx: "sx = (s, x)" by fastforce
  have put: "holds F (X - {x}) T (N - {(k, s)}) (put_part k (s, x) h)"
    using Cons.prems by (intro holds_put) (auto simp: sx)
  have "holds F (X - {x} - snd ` set sxs) T (N - {(k, s)} - {k} \<times> fst ` set sxs)
      (fold (put_part k) sxs (put_part k (s, x) h))"
    using Cons.prems by (intro Cons.IH[OF put]) (auto simp: sx)
  moreover have "X - {x} - snd ` set sxs = X - snd ` set (sx # sxs)"
    "N - {(k, s)} - {k} \<times> fst ` set sxs = N - {k} \<times> fst ` set (sx # sxs)" by (auto simp: sx)
  ultimately show ?case by (simp add: sx)
qed simp

text \<open>After an error the call holds the objects \<open>X\<close>; after success also the new object \<open>k\<close>.\<close>

definition lost :: "nat set \<Rightarrow> nat set \<Rightarrow> heap \<Rightarrow> bool" where
  "lost F X h \<longleftrightarrow> (\<exists>T N. holds F X T N h)"

definition made :: "nat set \<Rightarrow> nat set \<Rightarrow> nat set \<Rightarrow> nat \<Rightarrow> heap \<Rightarrow> bool" where
  "made F X T k h \<longleftrightarrow> k \<notin> T \<and> (\<exists>N. holds F (insert k X) (insert k T) N h)"

lemma hoare_etry_new:
  assumes "distinct ys" "set ys \<subseteq> X" "Y = X - set ys"
    and "\<And>k. k \<notin> T \<Longrightarrow> k \<notin> X \<Longrightarrow> hoare (holds F (insert k X) (insert k T) (N \<union> {k} \<times> UNIV)) (g k) Q (lost F Y)"
  shows "hoare (holds F X T N) (etry ys (new_obj f) g) Q (lost F Y)"
proof (rule hoareI)
  fix h q assume h: "holds F X T N h"
  have new: "hp_next h \<notin> T" "hp_next h \<notin> X"
    using h holds_less[OF h] by (auto simp: holds_def heap_ok_def)
  obtain b q' where f: "f q = (b, q')" by fastforce
  show "result_ok Q (lost F Y) (etry ys (new_obj f) g h q)"
  proof (cases b)
    case True
    then show ?thesis
      using hoareD[OF assms(4)[OF new] holds_fresh[OF h]] f by (simp add: etry_def new_obj_def)
  next
    case False
    then show ?thesis
      using holds_drop_all[OF h assms(1,2)] f assms(3)
      by (auto simp: etry_def new_obj_def lost_def split: prod.splits)
  qed
qed

lemma hoare_etry_set0:
  assumes "k \<in> X" "distinct (map snd sxs)" "distinct (map fst sxs)"
    "snd ` set sxs \<subseteq> X - {k}" "{k} \<times> fst ` set sxs \<subseteq> N"
    and "(\<forall>h q. 0 < fst (f h k q)) \<or> distinct ys \<and> set ys \<subseteq> X \<and> Y = X - set ys"
    and "hoare (holds F (X - snd ` set sxs) T (N - {k} \<times> fst ` set sxs)) (g ()) Q (lost F Y)"
  shows "hoare (holds F X T N) (etry ys (set0 f k sxs) g) Q (lost F Y)"
proof (rule hoareI)
  fix h q assume h: "holds F X T N h"
  obtain r q' where f: "f h k q = (r, q')" by fastforce
  show "result_ok Q (lost F Y) (etry ys (set0 f k sxs) g h q)"
  proof (cases "0 < r")
    case True
    then show ?thesis
      using hoareD[OF assms(7) holds_put_all[OF h assms(1-5)]] f
      by (simp add: etry_def set0_def ecvt_def cvt_def)
  next
    case False
    then have "\<not> (\<forall>h q. 0 < fst (f h k q))" by (metis f fst_conv)
    then have ys: "distinct ys" "set ys \<subseteq> X" "Y = X - set ys" using assms(6) by blast+
    show ?thesis
      using holds_drop_all[OF h ys(1,2)] f False ys(3)
      by (auto simp: etry_def set0_def ecvt_def cvt_def fail_stack_def lost_def split: prod.splits)
  qed
qed

lemma hoare_made: "k \<notin> T \<Longrightarrow> X' = insert k X \<Longrightarrow> hoare (holds F X' (insert k T) N) (eret k) (made F X T) E"
  by (rule hoareI) (auto simp: made_def)

lemma hoare_new_set0:
  assumes "k \<notin> X" "distinct (map snd sxs)" "distinct (map fst sxs)" "snd ` set sxs \<subseteq> X" "{k} \<times> fst ` set sxs \<subseteq> N"
    and "(\<forall>h q. 0 < fst (f h k q)) \<or> distinct ys \<and> set ys \<subseteq> insert k X \<and> Y = insert k X - set ys"
    and "hoare (holds F (insert k (X - snd ` set sxs)) T (N - {k} \<times> fst ` set sxs)) (g ()) Q (lost F Y)"
  shows "hoare (holds F (insert k X) T N) (etry ys (set0 f k sxs) g) Q (lost F Y)"
proof -
  have "insert k X - snd ` set sxs = insert k (X - snd ` set sxs)" using assms(1,4) by auto
  then show ?thesis using assms by (intro hoare_etry_set0) auto
qed

lemma hoare_etry:
  assumes "hoare P m R (lost F Z)" "\<And>x. hoare (R x) (f x) Q (lost F Y)"
    "distinct ys" "set ys \<subseteq> Z" "Y = Z - set ys"
  shows "hoare P (etry ys m f) Q (lost F Y)"
proof (rule hoareI)
  fix h q assume "P h"
  note first = hoareD[OF assms(1) this, of q]
  have lose: "lost F Y (drop_all ys h')" if "lost F Z h'" for h'
    using that holds_drop_all[OF _ assms(3,4)] assms(5) unfolding lost_def by blast
  obtain r h1 q1 where m: "m h q = (r, h1, q1)" by (metis prod.collapse)
  then show "result_ok Q (lost F Y) (etry ys m f h q)"
    using first hoareD[OF assms(2), of _ h1 q1] lose by (cases r) (auto simp: etry_def)
qed

lemma hoare_eret: "hoare P (eret x) Q E \<longleftrightarrow> (\<forall>s. P s \<longrightarrow> Q x s)"
  by (simp add: hoare_def)

lemma hoare_pure: "(a \<Longrightarrow> hoare P m Q E) \<Longrightarrow> hoare (\<lambda>s. a \<and> P s) m Q E"
  by (auto simp: hoare_def)

section \<open>The constructors\<close>

text \<open>
  What the constructors rely on: these setters fail only for a null argument. DSA's and DH's other setters may fail.
\<close>

definition set0_spec :: "key_api \<Rightarrow> bool" where
  "set0_spec A \<longleftrightarrow>
     (\<forall>h k q. 0 < fst (RSA_set0_key A h k q)) \<and> (\<forall>h k q. 0 < fst (DSA_set0_key A h k q)) \<and>
     (\<forall>h k q. 0 < fst (ECDSA_SIG_set0 A h k q))"

lemma rsa_public_hoare:
  assumes "set0_spec A" "n \<in> X" "e \<in> X" "n \<noteq> e"
  shows "hoare (holds F X T N) (rsa_from_public_components A n e) (made F (X - {n, e}) T) (lost F (X - {n, e}))"
  unfolding rsa_from_public_components_def
proof (rule hoare_etry_new)
  fix k assume "k \<notin> T" "k \<notin> X"
  then show "hoare (holds F (insert k X) (insert k T) (N \<union> {k} \<times> UNIV))
     (etry [n, e] (set0 (RSA_set0_key A) k [(Slot_n, n), (Slot_e, e)]) (\<lambda>_. eret k))
     (made F (X - {n, e}) T) (lost F (X - {n, e}))"
    by (intro hoare_new_set0 hoare_made) (use assms in \<open>simp_all add: set0_spec_def\<close>)
qed (use assms in simp_all)

lemma rsa_builder_hoare:
  assumes "set0_spec A" "distinct [n, e, d]" "n \<in> X" "e \<in> X" "d \<in> X"
  shows "hoare (holds F X T N) (rsa_builder_new A n e d) 
     (\<lambda>k h. k \<notin> T \<and> k \<notin> X \<and> 
        holds F (insert k (X - {n, e, d})) (insert k T) (N \<union> {k} \<times> UNIV - {k} \<times> {Slot_n, Slot_e, Slot_d}) h)
     (lost F (X - {n, e, d}))"
  unfolding rsa_builder_new_def
proof (rule hoare_etry_new)
  fix k assume k: "k \<notin> T" "k \<notin> X"
  then show "hoare (holds F (insert k X) (insert k T) (N \<union> {k} \<times> UNIV))
     (etry [n, e, d] (set0 (RSA_set0_key A) k [(Slot_n, n), (Slot_e, e), (Slot_d, d)]) (\<lambda>_. eret k))
     (\<lambda>k h. k \<notin> T \<and> k \<notin> X \<and> 
        holds F (insert k (X - {n, e, d})) (insert k T) (N \<union> {k} \<times> UNIV - {k} \<times> {Slot_n, Slot_e, Slot_d}) h)
     (lost F (X - {n, e, d}))"
    by (intro hoare_new_set0) (use assms in \<open>simp_all add: set0_spec_def hoare_eret\<close>)
qed (use assms in simp_all)

lemma rsa_set_factors_hoare:
  assumes "distinct [k, p, q]" "k \<in> X" "p \<in> X" "q \<in> X" "{k} \<times> {Slot_p, Slot_q} \<subseteq> N"
  shows "hoare (holds F X T N) (rsa_set_factors A k p q)
     (\<lambda>r h. r = k \<and> holds F (X - {p, q}) T (N - {k} \<times> {Slot_p, Slot_q}) h) (lost F (X - {q, p, k}))"
  unfolding rsa_set_factors_def
  by (rule hoare_etry_set0) (use assms in \<open>simp_all add: hoare_eret\<close>)

lemma rsa_set_crt_params_hoare:
  assumes "distinct [k, d1, d2, i]" "k \<in> X" "d1 \<in> X" "d2 \<in> X" "i \<in> X"
    "{k} \<times> {Slot_dmp1, Slot_dmq1, Slot_iqmp} \<subseteq> N"
  shows "hoare (holds F X T N) (rsa_set_crt_params A k d1 d2 i)
     (\<lambda>r h. r = k \<and> holds F (X - {d1, d2, i}) T (N - {k} \<times> {Slot_dmp1, Slot_dmq1, Slot_iqmp}) h)
     (lost F (X - {i, d2, d1, k}))"
  unfolding rsa_set_crt_params_def
  by (rule hoare_etry_set0) (use assms in \<open>simp_all add: hoare_eret\<close>)

lemma hoare_made_conseq:
  assumes "hoare P m (\<lambda>r h. r = k \<and> holds F X' (insert k T) N h) E" "k \<notin> T" "X' = insert k X"
  shows "hoare P m (made F X T) E"
  by (rule hoare_conseq[OF assms(1)]) (use assms(2,3) in \<open>auto simp: made_def\<close>)

lemma rsa_private_hoare:
  assumes "set0_spec A" "distinct [n, e, d, p, q, d1, d2, i]" "{n, e, d, p, q, d1, d2, i} \<subseteq> X"
  shows "hoare (holds F X T N) (rsa_from_private_components A n e d p q d1 d2 i)
     (made F (X - {n, e, d, p, q, d1, d2, i}) T) (lost F (X - {n, e, d, p, q, d1, d2, i}))"
  unfolding rsa_from_private_components_def
proof (rule hoare_etry[OF rsa_builder_hoare], goal_cases)
  case (6 k)
  show ?case
  proof (rule hoare_pure, rule hoare_pure, rule hoare_etry[OF rsa_set_factors_hoare], goal_cases)
    case (6 r)
    then have k: "insert k (X - {n, e, d}) - {p, q} - {d1, d2, i} = insert k (X - {n, e, d, p, q, d1, d2, i})"
      "insert k (X - {n, e, d}) - {p, q} - {i, d2, d1, k} = X - {n, e, d, p, q, d1, d2, i}" "k \<notin> T"
      using assms(3) by auto
    show ?case
      using 6 assms by (intro hoare_pure hoare_made_conseq[OF hoare_conseq[OF rsa_set_crt_params_hoare]] k)
        (auto simp: k)
  qed (use assms in auto)
qed (use assms in auto)

lemma dsa_private_hoare:
  assumes "set0_spec A" "distinct [p, q, g, priv, pub]" "p \<in> X" "q \<in> X" "g \<in> X" "priv \<in> X" "pub \<in> X"
  shows "hoare (holds F X T N) (dsa_from_private_components A p q g priv pub)
     (made F (X - {p, q, g, priv, pub}) T) (lost F (X - {p, q, g, priv, pub}))"
  unfolding dsa_from_private_components_def
proof (rule hoare_etry_new, goal_cases)
  case (4 k)
  have X: "X - {p, q, g} - {pub, priv} = X - {p, q, g, priv, pub}" by auto
  show ?case
    by (intro hoare_new_set0 hoare_made) (use assms 4 X in \<open>auto simp: set0_spec_def\<close>)
qed (use assms in auto)

lemma dsa_public_hoare:
  assumes "set0_spec A" "distinct [p, q, g, pub]" "p \<in> X" "q \<in> X" "g \<in> X" "pub \<in> X"
  shows "hoare (holds F X T N) (dsa_from_public_components A p q g pub)
     (made F (X - {p, q, g, pub}) T) (lost F (X - {p, q, g, pub}))"
  unfolding dsa_from_public_components_def
proof (rule hoare_etry_new, goal_cases)
  case (4 k)
  have X: "X - {p, q, g} - {pub} = X - {p, q, g, pub}" by auto
  show ?case
    by (intro hoare_new_set0 hoare_made) (use assms 4 X in \<open>auto simp: set0_spec_def\<close>)
qed (use assms in auto)

lemma dh_params_hoare:
  assumes "distinct [p, g, q]" "p \<in> X" "g \<in> X" "q \<in> X"
  shows "hoare (holds F X T N) (dh_from_params A p g q) (made F (X - {p, g, q}) T) (lost F (X - {p, g, q}))"
  unfolding dh_from_params_def
proof (rule hoare_etry_new, goal_cases)
  case (4 k)
  then show ?case by (intro hoare_new_set0 hoare_made) (use assms in auto)
qed (use assms in auto)

lemma pkey_from_hoare:
  assumes "x \<in> X"
  shows "hoare (holds F X T N) (pkey_from_rsa A x) (made F (X - {x}) T) (lost F (X - {x}))"
    "hoare (holds F X T N) (pkey_from_ec_key A x) (made F (X - {x}) T) (lost F (X - {x}))"
proof -
  have "hoare (holds F X T N)
     (etry [x] (new_obj f) (\<lambda>k. etry [k, x] (set0 g k [(Slot_key, x)]) (\<lambda>_. eret k)))
     (made F (X - {x}) T) (lost F (X - {x}))" for f g
  proof (rule hoare_etry_new, goal_cases)
    case (4 k)
    then show ?case by (intro hoare_new_set0 hoare_made) (use assms in auto)
  qed (use assms in auto)
  then show "hoare (holds F X T N) (pkey_from_rsa A x) (made F (X - {x}) T) (lost F (X - {x}))"
    "hoare (holds F X T N) (pkey_from_ec_key A x) (made F (X - {x}) T) (lost F (X - {x}))"
    unfolding pkey_from_rsa_def pkey_from_ec_key_def by blast+
qed

lemma etry_Nil: "ebind m f = etry [] m f"
  by (rule ext)+ (simp add: ebind_def etry_def drop_all_def split: prod.splits eresult.splits)

lemma ecdsa_hoare:
  assumes "set0_spec A" "r \<noteq> s" "r \<in> X" "s \<in> X"
  shows "hoare (holds F X T N) (ecdsa_from_private_components A r s) (made F (X - {r, s}) T) (lost F (X - {r, s}))"
  unfolding ecdsa_from_private_components_def
proof (rule hoare_etry_new, goal_cases)
  case (4 k)
  show ?case
  proof (rule hoareI)
    fix h q assume h: "holds F (insert k X) (insert k T) (N \<union> {k} \<times> UNIV) h"
    obtain i q' where i: "ECDSA_SIG_set0 A h k q = (i, q')" by fastforce
    have pos: "0 < i" using assms(1) i unfolding set0_spec_def by (metis fst_conv)
    have "insert k X - snd ` set [(Slot_r, r), (Slot_s, s)] = insert k (X - {r, s})" using assms 4 by auto
    moreover have "holds F (insert k X - snd ` set [(Slot_r, r), (Slot_s, s)]) (insert k T)
        (N \<union> {k} \<times> UNIV - {k} \<times> fst ` set [(Slot_r, r), (Slot_s, s)]) (fold (put_part k) [(Slot_r, r), (Slot_s, s)] h)"
      by (rule holds_put_all[OF h]) (use assms 4 in auto)
    ultimately have "made F (X - {r, s}) T k (fold (put_part k) [(Slot_r, r), (Slot_s, s)] h)"
      using 4 unfolding made_def by metis
    then show "result_ok (made F (X - {r, s}) T) (lost F (X - {r, s}))
       (case ECDSA_SIG_set0 A h k q of (i, q') \<Rightarrow>
          (Ok k, if 0 < i then fold (put_part k) [(Slot_r, r), (Slot_s, s)] h else h, q'))"
      using pos by (simp add: i)
  qed
qed (use assms in auto)

text \<open>The setters that copy: the new key is returned or freed.\<close>

lemma hoare_own_set0:
  assumes "k \<notin> X" "hoare (holds F (insert k X) T N) (g ()) Q (lost F X)"
  shows "hoare (holds F (insert k X) T N) (etry [k] (set0 f k []) g) Q (lost F X)"
  by (rule hoare_new_set0) (use assms in simp_all)

lemma hoare_only_new:
  assumes "\<And>k. k \<notin> T \<Longrightarrow> k \<notin> X \<Longrightarrow>
    hoare (holds F (insert k X) (insert k T) (N \<union> {k} \<times> UNIV)) (g k) (made F X T) (lost F X)"
  shows "hoare (holds F X T N) (ebind (new_obj f) g) (made F X T) (lost F X)"
  unfolding etry_Nil by (rule hoare_etry_new) (use assms in simp_all)

lemma generators_hoare:
  "hoare (holds F X T N) (rsa_generate_with_e A bits e) (made F X T) (lost F X)"
  "hoare (holds F X T N) (dsa_generate_key A bits) (made F X T) (lost F X)"
  "hoare (holds F X T N) (ec_from_group A grp) (made F X T) (lost F X)"
  "hoare (holds F X T N) (ec_from_public_key A grp pub) (made F X T) (lost F X)"
  "hoare (holds F X T N) (ec_from_affine_coordinates A grp x y) (made F X T) (lost F X)"
  "hoare (holds F X T N) (ec_generate A grp) (made F X T) (lost F X)"
  "hoare (holds F X T N) (ec_from_private_components A grp num pub) (made F X T) (lost F X)"
  unfolding rsa_generate_with_e_def dsa_generate_key_def ec_from_group_def ec_from_public_key_def
    ec_from_affine_coordinates_def ec_generate_def ec_from_private_components_def
  by (intro hoare_only_new hoare_own_set0 hoare_made; simp)+

lemma curve_name_hoare: "hoare (holds F X T N) (ec_from_curve_name A nid) (made F X T) (lost F X)"
proof (rule hoareI)
  fix h q assume h: "holds F X T N h"
  have "hp_next h \<notin> T" using h by (auto simp: holds_def heap_ok_def)
  then show "result_ok (made F X T) (lost F X) (ec_from_curve_name A nid h q)"
    using holds_fresh[OF h] h
    by (auto simp: ec_from_curve_name_def new_obj_def made_def lost_def split: prod.splits bool.splits)
qed

lemma keygen_hoare:
  "hoare (holds F X T N) (ethen (set0 f c []) (make_obj g c))
     (\<lambda>k h. k \<notin> T \<and> k \<notin> X \<and> holds F (insert k X) (insert k T) (N \<union> {k} \<times> UNIV) h) (holds F X T N)"
proof (rule hoareI)
  fix h q assume h: "holds F X T N h"
  have "hp_next h \<notin> T" "hp_next h \<notin> X" using h holds_less[OF h] by (auto simp: holds_def heap_ok_def)
  then show "result_ok (\<lambda>k h. k \<notin> T \<and> k \<notin> X \<and> holds F (insert k X) (insert k T) (N \<union> {k} \<times> UNIV) h) (holds F X T N)
      (ethen (set0 f c []) (make_obj g c) h q)"
    using h holds_fresh[OF h]
    by (auto simp: ethen_def ebind_def set0_def make_obj_def ecvt_def cvt_def fail_stack_def result_ok_def
        split: prod.splits eresult.splits if_splits sum.splits)
qed

lemma own_bare:
  assumes "holds F X T N h" "{c} \<times> UNIV \<subseteq> N"
  shows "own h c = {c}"
proof -
  have "hp_part h c s = {}" for s
  proof -
    have "(c, s) \<in> N" using assms(2) by blast
    then show ?thesis using assms(1) by (auto simp: holds_def)
  qed
  then show ?thesis by (simp add: own_def)
qed

lemma holds_drop_bare:
  assumes "holds F (insert c X) (insert c T) N h" "c \<notin> X" "c \<notin> T" "{c} \<times> UNIV \<subseteq> N"
  shows "holds F X T N (drop_obj c h)"
proof -
  have "own h c = {c}" using assms(1,4) by (rule own_bare)
  moreover have "insert c X - {c} = X" "insert c T - {c} = T" using assms(2,3) by auto
  ultimately show ?thesis using holds_drop[OF assms(1), of c] by simp
qed

lemma pkey_generate_hoare: "hoare (holds F X T N) (pkey_generate A i) (made F X T) (lost F X)"
  unfolding pkey_generate_def
proof (rule hoare_only_new, rule hoareI)
  fix c h q assume c: "c \<notin> T" "c \<notin> X" and h: "holds F (insert c X) (insert c T) (N \<union> {c} \<times> UNIV) h"
  let ?m = "ethen (set0 (EVP_PKEY_keygen_init A) c []) (make_obj (EVP_PKEY_keygen A) c)"
  obtain r h1 q1 where m: "?m h q = (r, h1, q1)" by (metis prod.collapse)
  note step = hoareD[OF keygen_hoare[of F "insert c X" "insert c T" "N \<union> {c} \<times> UNIV" "EVP_PKEY_keygen_init A" c
      "EVP_PKEY_keygen A"] h, of q, unfolded m]
  show "result_ok (made F X T) (lost F X) (case ?m h q of (result, h', q') \<Rightarrow> (result, drop_obj c h', q'))"
  proof (cases r)
    case (Ok k)
    have k: "k \<notin> insert c T" "k \<notin> insert c X"
      and h1: "holds F (insert k (insert c X)) (insert k (insert c T)) (N \<union> {c} \<times> UNIV \<union> {k} \<times> UNIV) h1"
      using step unfolding Ok result_ok_simps by blast+
    have "holds F (insert k X) (insert k T) (N \<union> {c} \<times> UNIV \<union> {k} \<times> UNIV) (drop_obj c h1)"
      by (rule holds_drop_bare) (use h1 k c in \<open>auto simp: insert_commute\<close>)
    then show ?thesis using k by (auto simp: m Ok made_def)
  next
    case (Err es)
    have "holds F X T (N \<union> {c} \<times> UNIV) (drop_obj c h1)"
      by (rule holds_drop_bare) (use step c in \<open>auto simp: Err\<close>)
    then show ?thesis by (auto simp: m Err lost_def)
  qed (simp add: m)
qed

text \<open>A number of its own: the new object is bare, and an error leaves everything as it was.\<close>

lemma bare_hoare:
  assumes "m = ebind (new_obj f) (\<lambda>k. etry [k] (set0 g k []) (\<lambda>_. eret k))"
  shows "hoare (holds F X T N) m
     (\<lambda>k h. k \<notin> T \<and> k \<notin> X \<and> holds F (insert k X) (insert k T) (N \<union> {k} \<times> UNIV) h)
     (\<lambda>h. \<exists>N'. N \<subseteq> N' \<and> holds F X T N' h)"
proof (rule hoareI)
  fix h q assume h: "holds F X T N h"
  let ?k = "hp_next h"
  have k: "?k \<notin> T" "?k \<notin> X" using h holds_less[OF h] by (auto simp: holds_def heap_ok_def)
  have "holds F X T (N \<union> {?k} \<times> UNIV) (drop_obj ?k (fresh_obj h))"
    by (rule holds_drop_bare[OF holds_fresh[OF h] k(2,1)]) simp
  then have "\<exists>N'. N \<subseteq> N' \<and> holds F X T N' (drop_obj ?k (fresh_obj h))" by blast
  then show "result_ok (\<lambda>k h. k \<notin> T \<and> k \<notin> X \<and> holds F (insert k X) (insert k T) (N \<union> {k} \<times> UNIV) h)
      (\<lambda>h. \<exists>N'. N \<subseteq> N' \<and> holds F X T N' h) (m h q)"
    using k h holds_fresh[OF h]
    by (auto simp: assms ebind_def new_obj_def etry_def set0_def ecvt_def cvt_def fail_stack_def drop_all_def
        split: prod.splits bool.splits eresult.splits if_splits sum.splits)
qed

lemma rsa_generate_hoare: "hoare (holds F X T N) (rsa_generate A bits) (made F X T) (lost F X)"
  unfolding rsa_generate_def
proof (rule hoare_ebind[where R = "\<lambda>e h. e \<notin> T \<and> e \<notin> X \<and> holds F (insert e X) (insert e T) (N \<union> {e} \<times> UNIV) h"])
  show "hoare (holds F X T N) (bn_from_u32 A 65537)
      (\<lambda>e h. e \<notin> T \<and> e \<notin> X \<and> holds F (insert e X) (insert e T) (N \<union> {e} \<times> UNIV) h) (lost F X)"
    by (rule hoare_conseq[OF bare_hoare[OF bn_from_u32_def]]) (auto simp: lost_def)
next
  fix e
  show "hoare (\<lambda>h. e \<notin> T \<and> e \<notin> X \<and> holds F (insert e X) (insert e T) (N \<union> {e} \<times> UNIV) h)
      (\<lambda>h q. case rsa_generate_with_e A bits e h q of (result, h', q') \<Rightarrow> (result, drop_obj e h', q'))
      (made F X T) (lost F X)"
  proof (rule hoare_pure, rule hoare_pure, rule hoareI)
    fix h q assume e: "e \<notin> T" "e \<notin> X" and h: "holds F (insert e X) (insert e T) (N \<union> {e} \<times> UNIV) h"
    obtain r h1 q1 where m: "rsa_generate_with_e A bits e h q = (r, h1, q1)" by (metis prod.collapse)
    note step = hoareD[OF bare_hoare[OF rsa_generate_with_e_def[of A bits e]] h, of q, unfolded m]
    show "result_ok (made F X T) (lost F X)
       (case rsa_generate_with_e A bits e h q of (result, h', q') \<Rightarrow> (result, drop_obj e h', q'))"
    proof (cases r)
      case (Ok k)
      have k: "k \<notin> insert e T" "k \<notin> insert e X"
        and h1: "holds F (insert k (insert e X)) (insert k (insert e T)) (N \<union> {e} \<times> UNIV \<union> {k} \<times> UNIV) h1"
        using step unfolding Ok result_ok_simps by blast+
      have "holds F (insert k X) (insert k T) (N \<union> {e} \<times> UNIV \<union> {k} \<times> UNIV) (drop_obj e h1)"
        by (rule holds_drop_bare) (use h1 k e in \<open>auto simp: insert_commute\<close>)
      then show ?thesis using k by (auto simp: m Ok made_def)
    next
      case (Err es)
      then obtain N' where N': "N \<union> {e} \<times> UNIV \<subseteq> N'" "holds F (insert e X) (insert e T) N' h1"
        using step by auto
      have "holds F X T N' (drop_obj e h1)"
        by (rule holds_drop_bare[OF N'(2) e(2,1)]) (use N'(1) in blast)
      then show ?thesis by (auto simp: m Err lost_def)
    qed (simp add: m)
  qed
qed

section \<open>Every constructor\<close>

datatype key_call =
  Rsa_Public nat nat | Rsa_Private nat nat nat nat nat nat nat nat | Rsa_Generate "32 word" | Rsa_Generate_E "32 word" nat
| Dsa_Private nat nat nat nat nat | Dsa_Public nat nat nat nat | Dsa_Generate "32 word"
| Dh_Params nat nat nat | Ecdsa_Sig nat nat
| Ec_Curve int | Ec_Group nat | Ec_Public nat nat | Ec_Affine nat nat nat | Ec_Generate nat | Ec_Private nat nat nat
| Pkey_Rsa nat | Pkey_Ec nat | Pkey_Generate int

fun run_key_call :: "key_api \<Rightarrow> key_call \<Rightarrow> (heap, nat) eff" where
  "run_key_call A (Rsa_Public n e) = rsa_from_public_components A n e"
| "run_key_call A (Rsa_Private n e d p q d1 d2 i) = rsa_from_private_components A n e d p q d1 d2 i"
| "run_key_call A (Rsa_Generate bits) = rsa_generate A bits"
| "run_key_call A (Rsa_Generate_E bits e) = rsa_generate_with_e A bits e"
| "run_key_call A (Dsa_Private p q g priv pub) = dsa_from_private_components A p q g priv pub"
| "run_key_call A (Dsa_Public p q g pub) = dsa_from_public_components A p q g pub"
| "run_key_call A (Dsa_Generate bits) = dsa_generate_key A bits"
| "run_key_call A (Dh_Params p g q) = dh_from_params A p g q"
| "run_key_call A (Ecdsa_Sig r s) = ecdsa_from_private_components A r s"
| "run_key_call A (Ec_Curve nid) = ec_from_curve_name A nid"
| "run_key_call A (Ec_Group grp) = ec_from_group A grp"
| "run_key_call A (Ec_Public grp pub) = ec_from_public_key A grp pub"
| "run_key_call A (Ec_Affine grp x y) = ec_from_affine_coordinates A grp x y"
| "run_key_call A (Ec_Generate grp) = ec_generate A grp"
| "run_key_call A (Ec_Private grp num pub) = ec_from_private_components A grp num pub"
| "run_key_call A (Pkey_Rsa x) = pkey_from_rsa A x"
| "run_key_call A (Pkey_Ec x) = pkey_from_ec_key A x"
| "run_key_call A (Pkey_Generate i) = pkey_generate A i"

fun key_args :: "key_call \<Rightarrow> nat list" where
  "key_args (Rsa_Public n e) = [n, e]"
| "key_args (Rsa_Private n e d p q d1 d2 i) = [n, e, d, p, q, d1, d2, i]"
| "key_args (Dsa_Private p q g priv pub) = [p, q, g, priv, pub]"
| "key_args (Dsa_Public p q g pub) = [p, q, g, pub]"
| "key_args (Dh_Params p g q) = [p, g, q]"
| "key_args (Ecdsa_Sig r s) = [r, s]"
| "key_args (Pkey_Rsa x) = [x]"
| "key_args (Pkey_Ec x) = [x]"
| "key_args _ = []"

lemma key_call_hoare:
  assumes "set0_spec A" "distinct (key_args c)"
  shows "hoare (holds F (set (key_args c)) T N) (run_key_call A c) (made F {} T) (lost F {})"
proof -
  have "hoare (holds F (set (key_args c)) T N) (run_key_call A c) (made F (set (key_args c) - set (key_args c)) T)
      (lost F (set (key_args c) - set (key_args c)))"
  proof (cases c)
    case (Rsa_Public n e)
    then show ?thesis using rsa_public_hoare[OF assms(1), of n "{n, e}" e] assms(2) by simp
  next
    case (Rsa_Private n e d p q d1 d2 i)
    then show ?thesis
      using rsa_private_hoare[OF assms(1), of n e d p q d1 d2 i "{n, e, d, p, q, d1, d2, i}"] assms(2) by simp
  next
    case (Dsa_Private p q g priv pub)
    then show ?thesis
      using dsa_private_hoare[OF assms(1), of p q g priv pub "{p, q, g, priv, pub}"] assms(2) by simp
  next
    case (Dsa_Public p q g pub)
    then show ?thesis using dsa_public_hoare[OF assms(1), of p q g pub "{p, q, g, pub}"] assms(2) by simp
  next
    case (Dh_Params p g q)
    then show ?thesis using dh_params_hoare[of p g q "{p, g, q}"] assms(2) by simp
  next
    case (Ecdsa_Sig r s)
    then show ?thesis using ecdsa_hoare[OF assms(1), of r s "{r, s}"] assms(2) by simp
  next
    case (Pkey_Rsa x)
    then show ?thesis using pkey_from_hoare(1)[of x "{x}"] by simp
  next
    case (Pkey_Ec x)
    then show ?thesis using pkey_from_hoare(2)[of x "{x}"] by simp
  qed (simp_all add: generators_hoare rsa_generate_hoare curve_name_hoare pkey_generate_hoare)
  then show ?thesis by simp
qed

text \<open>The arguments of a call: live with all they own, and different objects.\<close>

definition given_to :: "heap \<Rightarrow> nat list \<Rightarrow> bool" where
  "given_to h xs \<longleftrightarrow>
     heap_ok h \<and> \<not> hp_bad h \<and> distinct xs \<and> (\<forall>x\<in>set xs. own h x \<subseteq> hp_live h) \<and>
     (\<forall>x\<in>set xs. \<forall>y\<in>set xs. x \<noteq> y \<longrightarrow> own h x \<inter> own h y = {})"

lemma given_holds: "given_to h xs \<Longrightarrow> holds (hp_live h - owned h (set xs)) (set xs) (hp_live h) {} h"
  unfolding given_to_def holds_def owned_def by (simp, blast)

lemma new_obj_panic: "new_obj f h q \<noteq> (Panicked p, h', q')"
  by (auto simp: new_obj_def split: prod.splits bool.splits)

lemma etry_eq_panic:
  "etry xs m f h q = (Panicked p, h', q') \<Longrightarrow>
     (\<exists>h1. m h q = (Panicked p, h1, q')) \<or> (\<exists>x h1 q1. m h q = (Ok x, h1, q1) \<and> f x h1 q1 = (Panicked p, h', q'))"
  by (auto simp: etry_def split: prod.splits eresult.splits)

lemma key_call_no_panic: "run_key_call A c h q \<noteq> (Panicked p, h', q')"
  by (cases c)
    (auto simp: rsa_from_public_components_def rsa_from_private_components_def rsa_builder_new_def rsa_set_factors_def
      rsa_set_crt_params_def rsa_generate_with_e_def rsa_generate_def bn_from_u32_def dsa_generate_key_def dsa_from_private_components_def
      dsa_from_public_components_def dh_from_params_def ecdsa_from_private_components_def ec_from_curve_name_def
      ec_from_group_def ec_from_public_key_def ec_from_affine_coordinates_def ec_generate_def
      ec_from_private_components_def pkey_from_rsa_def pkey_from_ec_key_def pkey_generate_def new_obj_panic set0_def
      make_obj_def eff_panic split: prod.splits dest!: etry_eq_panic)

text \<open>
  C38: A constructor of an RSA, DSA, DH, EC or generic key or an ECDSA signature is called with objects that it takes by
  value. If it succeeds then the only new object is the key, which owns exactly itself and the arguments with all their
  parts, so dropping the key frees each of them once. If it fails then the arguments have been freed and nothing else
  has changed. Nothing is freed twice and it does not panic. This relies on BoringSSL's setters of RSA's and DSA's keys
  and of signatures, which fail only for null arguments: the code does not free what it took if they fail.
\<close>

theorem keys_own_their_parts:
  assumes "set0_spec A" "given_to h (key_args c)" "run_key_call A c h q = (r, h', q')"
  shows "\<not> hp_bad h' \<and>
    (case r of
       Ok k \<Rightarrow> k \<notin> hp_live h \<and> hp_live h' = insert k (hp_live h) \<and> own h' k = insert k (owned h (set (key_args c)))
     | Err _ \<Rightarrow> hp_live h' = hp_live h - owned h (set (key_args c))
     | Panicked _ \<Rightarrow> False)"
proof -
  let ?F = "hp_live h - owned h (set (key_args c))"
  have held: "owned h (set (key_args c)) \<subseteq> hp_live h" using assms(2) by (auto simp: given_to_def owned_def)
  have "distinct (key_args c)" using assms(2) by (simp add: given_to_def)
  note result = hoareD[OF key_call_hoare[OF assms(1) this] given_holds[OF assms(2)], of q, unfolded assms(3)]
  show ?thesis
  proof (cases r)
    case (Ok k)
    then have k: "k \<notin> hp_live h" "\<not> hp_bad h'" "hp_live h' = insert k (hp_live h)"
      "insert k (hp_live h) = ?F \<union> own h' k" "?F \<inter> own h' k = {}"
      using result by (auto simp: made_def holds_def owned_def)
    then have "own h' k = insert k (owned h (set (key_args c)))" using held own_self[of k h'] by blast
    then show ?thesis using k Ok by simp
  next
    case (Err es)
    then show ?thesis using result by (auto simp: lost_def holds_def owned_def)
  next
    case (Panicked p)
    then show ?thesis using assms(3) key_call_no_panic by blast
  qed
qed

text \<open>A library whose calls succeed, and two live numbers.\<close>

definition sample_key_api :: key_api where
  "sample_key_api =
    \<lparr>BN_new = \<lambda>q. (True, q), BN_set_word = \<lambda>_ _ _ q. (1, q),
     RSA_new = \<lambda>q. (True, q),
     DSA_new = \<lambda>q. (True, q),
     DH_new = \<lambda>q. (True, q),
     ECDSA_SIG_new = \<lambda>q. (True, q),
     EC_KEY_new = \<lambda>q. (True, q),
     EC_KEY_new_by_curve_name = \<lambda>_ q. (True, q),
     EVP_PKEY_new = \<lambda>q. (True, q),
     EVP_PKEY_CTX_new_id = \<lambda>_ q. (True, q),
     RSA_set0_key = \<lambda>_ _ q. (1, q),
     RSA_set0_factors = \<lambda>_ _ q. (1, q),
     RSA_set0_crt_params = \<lambda>_ _ q. (1, q),
     DSA_set0_pqg = \<lambda>_ _ q. (1, q),
     DSA_set0_key = \<lambda>_ _ q. (1, q),
     DH_set0_pqg = \<lambda>_ _ q. (1, q),
     ECDSA_SIG_set0 = \<lambda>_ _ q. (1, q),
     EVP_PKEY_assign = \<lambda>_ _ q. (1, q),
     RSA_generate_key_ex = \<lambda>_ _ _ _ q. (1, q),
     DSA_generate_parameters_ex = \<lambda>_ _ _ q. (1, q),
     DSA_generate_key = \<lambda>_ _ q. (1, q),
     EC_KEY_set_group = \<lambda>_ _ _ q. (1, q),
     EC_KEY_set_public_key = \<lambda>_ _ _ q. (1, q),
     EC_KEY_set_private_key = \<lambda>_ _ _ q. (1, q),
     EC_KEY_set_public_key_affine_coordinates = \<lambda>_ _ _ _ q. (1, q),
     EC_KEY_generate_key = \<lambda>_ _ q. (1, q),
     EVP_PKEY_keygen_init = \<lambda>_ _ q. (1, q),
     EVP_PKEY_keygen = \<lambda>_ _ q. (1, q),
     PKCS12_parse = \<lambda>_ _ q. ((1, True, True, False), q),
     PKCS12_create = \<lambda>_ _ _ _ _ _ _ _ _ _ q. (True, q),
     kp_err_lib_none = 1\<rparr>"

definition two_numbers :: heap where
  "two_numbers = \<lparr>hp_next = 2, hp_live = {0, 1}, hp_part = \<lambda>_ _. {}, hp_bad = False\<rparr>"

theorem keys_own_their_parts_witness:
  "\<exists>h' q'. run_key_call sample_key_api (Rsa_Public 0 1) two_numbers [] = (Ok 2, h', q') \<and>
     \<not> hp_bad h' \<and> hp_live h' = {0, 1, 2} \<and> own h' 2 = {0, 1, 2}"
proof -
  have sp: "set0_spec sample_key_api" by (simp add: set0_spec_def sample_key_api_def)
  have own2: "own two_numbers x = {x}" for x by (simp add: own_def two_numbers_def)
  have g: "given_to two_numbers (key_args (Rsa_Public 0 1))"
    by (simp add: given_to_def own2) (auto simp: two_numbers_def heap_ok_def)
  obtain h' q' where run: "run_key_call sample_key_api (Rsa_Public 0 1) two_numbers [] = (Ok 2, h', q')"
    by (simp add: rsa_from_public_components_def etry_def new_obj_def set0_def ecvt_def cvt_def sample_key_api_def
        two_numbers_def)
  show ?thesis
    using keys_own_their_parts[OF sp g run] run
    by (auto simp: owned_def own2) (auto simp: two_numbers_def)
qed

text \<open>If a setter failed that the code relies on, the new object or the number would be lost.\<close>

lemma rsa_leaks_if_set0_fails:
  assumes "given_to h [n, e]" "RSA_new A q = (True, q1)" "fst (RSA_set0_key A (fresh_obj h) (hp_next h) q1) \<le> 0"
    "rsa_from_public_components A n e h q = (r, h', q')"
  shows "(\<exists>es. r = Err es) \<and> hp_next h \<in> hp_live h'"
proof -
  have "hp_next h \<notin> own (fresh_obj h) n" "hp_next h \<notin> own (fresh_obj h) e"
    using assms(1) by (auto simp: given_to_def own_def fresh_obj_def heap_ok_def)
  then show ?thesis
    using assms(2-4)
    by (auto simp: rsa_from_public_components_def etry_def new_obj_def set0_def ecvt_def cvt_def fail_stack_def
        drop_all_def heap_parts split: prod.splits if_splits)
qed

section \<open>Archives\<close>

definition parsed_objs :: "parsed_pkcs12 \<Rightarrow> nat list" where
  "parsed_objs p = opt_list (p12_pkey p) @ opt_list (p12_cert p) @ opt_list (p12_ca p)"

lemma opt_list_simps [simp]: "opt_list None = []" "opt_list (Some x) = [x]"
  by (simp_all add: opt_list_def)

text \<open>The objects \<open>xs\<close> are new, and the call holds them.\<close>

definition news :: "nat set \<Rightarrow> nat list \<Rightarrow> heap \<Rightarrow> bool" where
  "news T xs h \<longleftrightarrow> distinct xs \<and> set xs \<inter> T = {} \<and> (\<exists>N. holds T (set xs) (T \<union> set xs) N h)"

lemma news_out_obj:
  assumes "news T xs h" "out_obj b h = (x, h')"
  shows "news T (xs @ opt_list x) h'"
proof (cases b)
  case True
  obtain N where N: "holds T (set xs) (T \<union> set xs) N h" using assms(1) by (auto simp: news_def)
  then have "hp_next h \<notin> T \<union> set xs" by (auto simp: holds_def heap_ok_def)
  moreover have "insert (hp_next h) (T \<union> set xs) = T \<union> set (xs @ [hp_next h])" "insert (hp_next h) (set xs) = set (xs @ [hp_next h])"
    by auto
  ultimately show ?thesis
    using True assms holds_fresh[OF N] unfolding news_def out_obj_def by (metis Int_insert_left Un_iff Pair_inject
      distinct_append disjoint_insert(1) distinct_singleton empty_set inf_bot_right list.simps(15) opt_list_simps(2) set_append
      inf_commute)
qed (use assms in \<open>simp add: out_obj_def\<close>)

lemma pkcs12_parse2_hoare:
  "hoare (news T []) (pkcs12_parse2 A archive pass) (\<lambda>p. news T (parsed_objs p)) (news T [])"
proof (rule hoareI)
  fix h q assume h: "news T [] h"
  obtain r b1 b2 b3 q1 where p: "PKCS12_parse A archive pass q = ((r, b1, b2, b3), q1)" by (metis prod.collapse)
  obtain x1 h1 where o1: "out_obj b1 h = (x1, h1)" by fastforce
  obtain x2 h2 where o2: "out_obj b2 h1 = (x2, h2)" by fastforce
  obtain x3 h3 where o3: "out_obj b3 h2 = (x3, h3)" by fastforce
  have "news T (opt_list x1 @ opt_list x2 @ opt_list x3) h3"
    using news_out_obj[OF news_out_obj[OF news_out_obj[OF h o1] o2] o3] by simp
  then show "result_ok (\<lambda>p. news T (parsed_objs p)) (news T []) (pkcs12_parse2 A archive pass h q)"
    using h by (auto simp: pkcs12_parse2_def ebind_def ecstring_def p o1 o2 o3 parsed_objs_def
        split: prod.splits sum.splits)
qed

lemma news_drop_all:
  assumes "news T xs h" "distinct ys" "set ys = set xs"
  shows "news T [] (drop_all ys h)"
proof -
  obtain N where N: "holds T (set xs) (T \<union> set xs) N h" using assms(1) by (auto simp: news_def)
  from holds_drop_all[OF this assms(2)] obtain T' where T': "holds T {} T' N (drop_all ys h)" using assms(3) by auto
  then have "T' = T" by (simp add: holds_def owned_def)
  then show ?thesis using T' by (auto simp: news_def)
qed

text \<open>What \<open>parse\<close> returns is all that it leaves behind: a missing key or certificate frees the rest.\<close>

lemma pkcs12_parse_hoare:
  "hoare (news T []) (pkcs12_parse A archive pass) (\<lambda>(k, c, ca). news T (k # c # opt_list ca)) (news T [])"
  unfolding pkcs12_parse_def
proof (rule hoare_ebind[OF pkcs12_parse2_hoare], rule hoareI)
  fix p h q assume h: "news T (parsed_objs p) h"
  then have d: "distinct (parsed_objs p)" by (simp add: news_def)
  have lose: "news T [] (drop_all ys h)" if "distinct ys" "set ys = set (parsed_objs p)" for ys
    using news_drop_all[OF h that] .
  show "result_ok (\<lambda>(k, c, ca). news T (k # c # opt_list ca)) (news T [])
     (etry (opt_list (p12_cert p) @ opt_list (p12_ca p))
         (ok_or_else (p12_pkey p) (internal_error_str (kp_err_lib_none A) ''missing pkey'')) (\<lambda>pkey.
           etry (pkey # opt_list (p12_ca p))
             (ok_or_else (p12_cert p) (internal_error_str (kp_err_lib_none A) ''missing cert'')) (\<lambda>cert.
               eret (pkey, cert, p12_ca p))) h q)"
    using h d lose[of "opt_list (p12_cert p) @ opt_list (p12_ca p)"] 
      lose[of "the (p12_pkey p) # opt_list (p12_ca p)"]
    by (cases "p12_pkey p"; cases "p12_cert p") (auto simp: etry_def ok_or_else_def parsed_objs_def)
qed

text \<open>\<open>build\<close> frees the builder's stack whether it succeeds or not, and makes one object if it succeeds.\<close>

lemma pkcs12_build_hoare:
  assumes "distinct (opt_list (p12_extra b))"
  shows "hoare (holds F (set (opt_list (p12_extra b))) T N) (pkcs12_build A b password name pkey cert) (made F {} F)
     (lost F {})"
proof (rule hoareI)
  let ?X = "set (opt_list (p12_extra b))"
    fix h q assume h: "holds F ?X T N h"
    have new: "hp_next h \<notin> T" "hp_next h \<notin> ?X" "F \<subseteq> T"
      using h holds_less[OF h] by (auto simp: holds_def heap_ok_def)
    have err: "lost F {} (drop_all (opt_list (p12_extra b)) h)"
      using holds_drop_all[OF h assms] by (auto simp: lost_def)
    obtain T2 where T2: "holds F (insert (hp_next h) ?X - ?X) T2 (N \<union> {hp_next h} \<times> UNIV)
        (drop_all (opt_list (p12_extra b)) (fresh_obj h))"
      using holds_drop_all[OF holds_fresh[OF h] assms] by auto
    have x: "insert (hp_next h) ?X - ?X = {hp_next h}" using new by auto
    have "T2 = insert (hp_next h) F"
      using T2[unfolded x] own_bare[OF T2] unfolding holds_def owned_def by auto
    then have made: "made F {} F (hp_next h) (drop_all (opt_list (p12_extra b)) (fresh_obj h))"
      using T2[unfolded x] new by (auto simp: made_def)
    show "result_ok (made F {} F) (lost F {}) (pkcs12_build A b password name pkey cert h q)"
      using err made
      by (auto simp: pkcs12_build_def ebind_def ecstring_def new_obj_def split: prod.splits bool.splits eresult.splits)
qed

end
