(* ===== verification/Bn.thy ===== *)
theory Bn
  imports Asn1 "HOL-Library.Signed_Division"
begin

text \<open>
  Numbers of \<open>btls/src/bn.rs\<close>. A \<open>BIGNUM\<close> is an integer. A method on \<open>&mut self\<close> is an effect on the number that it
  changes; a call of BoringSSL gets its arguments and returns its result with the number that it wrote. The operators
  make their result and unwrap every error.
\<close>

type_synonym bn_call = "err_queue \<Rightarrow> (int \<times> int) \<times> err_queue"

record bn_api =
  bn_err_lib_none :: "32 word"
  BN_CTX_new :: "err_queue \<Rightarrow> unit option \<times> err_queue"
  BN_new :: "err_queue \<Rightarrow> int option \<times> err_queue"
  BN_dup :: "int \<Rightarrow> err_queue \<Rightarrow> int option \<times> err_queue"
  BN_clear :: "int \<Rightarrow> int"
  BN_set_word :: "64 word \<Rightarrow> bn_call"
  BN_add_word :: "int \<Rightarrow> 64 word \<Rightarrow> bn_call"
  BN_sub_word :: "int \<Rightarrow> 64 word \<Rightarrow> bn_call"
  BN_mul_word :: "int \<Rightarrow> 64 word \<Rightarrow> bn_call"
  BN_div_word :: "int \<Rightarrow> 64 word \<Rightarrow> err_queue \<Rightarrow> (64 word \<times> int) \<times> err_queue"
  BN_mod_word :: "int \<Rightarrow> 64 word \<Rightarrow> err_queue \<Rightarrow> 64 word \<times> err_queue"
  BN_rand_range :: "int \<Rightarrow> bn_call"
  BN_pseudo_rand_range :: "int \<Rightarrow> bn_call"
  BN_rand :: "int \<Rightarrow> int \<Rightarrow> int \<Rightarrow> bn_call"
  BN_pseudo_rand :: "int \<Rightarrow> int \<Rightarrow> int \<Rightarrow> bn_call"
  BN_generate_prime_ex :: "int \<Rightarrow> int \<Rightarrow> int option \<Rightarrow> int option \<Rightarrow> bn_call"
  BN_set_bit :: "int \<Rightarrow> int \<Rightarrow> bn_call"
  BN_clear_bit :: "int \<Rightarrow> int \<Rightarrow> bn_call"
  BN_mask_bits :: "int \<Rightarrow> int \<Rightarrow> bn_call"
  BN_is_bit_set :: "int \<Rightarrow> int \<Rightarrow> int"
  BN_lshift1 :: "int \<Rightarrow> bn_call"
  BN_rshift1 :: "int \<Rightarrow> bn_call"
  BN_lshift :: "int \<Rightarrow> int \<Rightarrow> bn_call"
  BN_rshift :: "int \<Rightarrow> int \<Rightarrow> bn_call"
  BN_add :: "int \<Rightarrow> int \<Rightarrow> bn_call"
  BN_sub :: "int \<Rightarrow> int \<Rightarrow> bn_call"
  BN_mul :: "int \<Rightarrow> int \<Rightarrow> bn_call"
  BN_div :: "int \<Rightarrow> int \<Rightarrow> err_queue \<Rightarrow> (int \<times> int \<times> int) \<times> err_queue"
  BN_sqr :: "int \<Rightarrow> bn_call"
  BN_nnmod :: "int \<Rightarrow> int \<Rightarrow> bn_call"
  BN_mod_add :: "int \<Rightarrow> int \<Rightarrow> int \<Rightarrow> bn_call"
  BN_mod_sub :: "int \<Rightarrow> int \<Rightarrow> int \<Rightarrow> bn_call"
  BN_mod_mul :: "int \<Rightarrow> int \<Rightarrow> int \<Rightarrow> bn_call"
  BN_mod_sqr :: "int \<Rightarrow> int \<Rightarrow> bn_call"
  BN_exp :: "int \<Rightarrow> int \<Rightarrow> bn_call"
  BN_mod_exp :: "int \<Rightarrow> int \<Rightarrow> int \<Rightarrow> bn_call"
  BN_gcd :: "int \<Rightarrow> int \<Rightarrow> bn_call"
  BN_mod_inverse :: "int \<Rightarrow> int \<Rightarrow> err_queue \<Rightarrow> int option \<times> err_queue"
  BN_mod_sqrt :: "int \<Rightarrow> int \<Rightarrow> err_queue \<Rightarrow> int option \<times> err_queue"
  BN_is_prime_ex :: "int \<Rightarrow> int \<Rightarrow> err_queue \<Rightarrow> int \<times> err_queue"
  BN_is_prime_fasttest_ex :: "int \<Rightarrow> int \<Rightarrow> int \<Rightarrow> err_queue \<Rightarrow> int \<times> err_queue"
  BN_set_negative :: "int \<Rightarrow> int \<Rightarrow> int"
  BN_is_negative :: "int \<Rightarrow> int"
  BN_is_odd :: "int \<Rightarrow> int"
  BN_cmp :: "int \<Rightarrow> int \<Rightarrow> int"
  BN_ucmp :: "int \<Rightarrow> int \<Rightarrow> int"
  BN_num_bits :: "int \<Rightarrow> 32 word"
  BN_bn2bin :: "int \<Rightarrow> byte list"
  BN_bn2bin_padded :: "nat \<Rightarrow> int \<Rightarrow> err_queue \<Rightarrow> (int \<times> byte list) \<times> err_queue"
  BN_bin2bn :: "byte list \<Rightarrow> err_queue \<Rightarrow> int option \<times> err_queue"
  BN_bn2dec :: "int \<Rightarrow> err_queue \<Rightarrow> string option \<times> err_queue"
  BN_bn2hex :: "int \<Rightarrow> err_queue \<Rightarrow> string option \<times> err_queue"
  BN_dec2bn :: "string \<Rightarrow> bn_call"
  BN_hex2bn :: "string \<Rightarrow> bn_call"
  BN_to_ASN1_INTEGER :: "int \<Rightarrow> err_queue \<Rightarrow> int option \<times> err_queue"

section \<open>Calls\<close>

text \<open>\<open>cvt\<close> of a call that writes \<open>self\<close>, and \<open>cvt_p\<close> of one that returns \<open>self\<close>.\<close>

definition bn_cvt :: "bn_call \<Rightarrow> (int, unit) eff" where
  "bn_cvt f = ecvt (\<lambda>s q. case f q of ((r, v), q') \<Rightarrow> ((r, ()), v, q'))"

definition bn_cvt_p :: "(err_queue \<Rightarrow> int option \<times> err_queue) \<Rightarrow> (int, unit) eff" where
  "bn_cvt_p f = ebind (ecvt_p f) (\<lambda>v. eput (\<lambda>_. v))"

definition of_bool_c :: "bool \<Rightarrow> int" where
  "of_bool_c b = (if b then 1 else 0)"

definition bn_ctx_new :: "bn_api \<Rightarrow> ('u, unit) eff" where
  "bn_ctx_new B = ecvt_p (BN_CTX_new B)"

section \<open>Methods\<close>

definition bn_clear :: "bn_api \<Rightarrow> int \<Rightarrow> int" where
  "bn_clear B n = BN_clear B n"

definition bn_add_word :: "bn_api \<Rightarrow> 32 word \<Rightarrow> (int, unit) eff" where
  "bn_add_word B w = ebind (eget id) (\<lambda>s. bn_cvt (BN_add_word B s (ucast w)))"

definition bn_sub_word :: "bn_api \<Rightarrow> 32 word \<Rightarrow> (int, unit) eff" where
  "bn_sub_word B w = ebind (eget id) (\<lambda>s. bn_cvt (BN_sub_word B s (ucast w)))"

definition bn_mul_word :: "bn_api \<Rightarrow> 32 word \<Rightarrow> (int, unit) eff" where
  "bn_mul_word B w = ebind (eget id) (\<lambda>s. bn_cvt (BN_mul_word B s (ucast w)))"

text \<open>The largest word is the error of division.\<close>

definition bn_div_word :: "bn_api \<Rightarrow> 32 word \<Rightarrow> (int, 64 word) eff" where
  "bn_div_word B w s q =
     (case BN_div_word B s (ucast w) q of ((r, v), q') \<Rightarrow>
        if r = - 1 then (case error_stack_get q' of (es, q2) \<Rightarrow> (Err es, v, q2)) else (Ok r, v, q'))"

definition bn_mod_word :: "bn_api \<Rightarrow> 32 word \<Rightarrow> (int, 64 word) eff" where
  "bn_mod_word B w s q =
     (case BN_mod_word B s (ucast w) q of (r, q') \<Rightarrow>
        if r = - 1 then (case error_stack_get q' of (es, q2) \<Rightarrow> (Err es, s, q2)) else (Ok r, s, q'))"

text \<open>The state is the number that receives the result, not \<open>self\<close>.\<close>

definition bn_rand_range :: "bn_api \<Rightarrow> int \<Rightarrow> (int, unit) eff" where
  "bn_rand_range B n = bn_cvt (BN_rand_range B n)"

definition bn_pseudo_rand_range :: "bn_api \<Rightarrow> int \<Rightarrow> (int, unit) eff" where
  "bn_pseudo_rand_range B n = bn_cvt (BN_pseudo_rand_range B n)"

definition bn_set_bit :: "bn_api \<Rightarrow> int \<Rightarrow> (int, unit) eff" where
  "bn_set_bit B n = ebind (eget id) (\<lambda>s. bn_cvt (BN_set_bit B s n))"

definition bn_clear_bit :: "bn_api \<Rightarrow> int \<Rightarrow> (int, unit) eff" where
  "bn_clear_bit B n = ebind (eget id) (\<lambda>s. bn_cvt (BN_clear_bit B s n))"

definition bn_is_bit_set :: "bn_api \<Rightarrow> int \<Rightarrow> int \<Rightarrow> bool" where
  "bn_is_bit_set B s n \<longleftrightarrow> BN_is_bit_set B s n = 1"

definition bn_mask_bits :: "bn_api \<Rightarrow> int \<Rightarrow> (int, unit) eff" where
  "bn_mask_bits B n = ebind (eget id) (\<lambda>s. bn_cvt (BN_mask_bits B s n))"

definition bn_lshift1 :: "bn_api \<Rightarrow> int \<Rightarrow> (int, unit) eff" where
  "bn_lshift1 B a = bn_cvt (BN_lshift1 B a)"

definition bn_rshift1 :: "bn_api \<Rightarrow> int \<Rightarrow> (int, unit) eff" where
  "bn_rshift1 B a = bn_cvt (BN_rshift1 B a)"

definition bn_checked_add :: "bn_api \<Rightarrow> int \<Rightarrow> int \<Rightarrow> (int, unit) eff" where
  "bn_checked_add B a b = bn_cvt (BN_add B a b)"

definition bn_checked_sub :: "bn_api \<Rightarrow> int \<Rightarrow> int \<Rightarrow> (int, unit) eff" where
  "bn_checked_sub B a b = bn_cvt (BN_sub B a b)"

definition bn_lshift :: "bn_api \<Rightarrow> int \<Rightarrow> int \<Rightarrow> (int, unit) eff" where
  "bn_lshift B a n = bn_cvt (BN_lshift B a n)"

definition bn_rshift :: "bn_api \<Rightarrow> int \<Rightarrow> int \<Rightarrow> (int, unit) eff" where
  "bn_rshift B a n = bn_cvt (BN_rshift B a n)"

definition bn_to_owned :: "bn_api \<Rightarrow> int \<Rightarrow> ('u, int) eff" where
  "bn_to_owned B n = ecvt_p (BN_dup B n)"

definition bn_set_negative :: "bn_api \<Rightarrow> bool \<Rightarrow> int \<Rightarrow> int" where
  "bn_set_negative B negative n = BN_set_negative B n (of_bool_c negative)"

definition bn_ucmp :: "bn_api \<Rightarrow> int \<Rightarrow> int \<Rightarrow> ordering" where
  "bn_ucmp B a b = cmp_zero (BN_ucmp B a b)"

definition bn_is_negative :: "bn_api \<Rightarrow> int \<Rightarrow> bool" where
  "bn_is_negative B n \<longleftrightarrow> BN_is_negative B n = 1"

definition bn_is_odd :: "bn_api \<Rightarrow> int \<Rightarrow> bool" where
  "bn_is_odd B n \<longleftrightarrow> BN_is_odd B n = 1"

definition bn_is_even :: "bn_api \<Rightarrow> int \<Rightarrow> bool" where
  "bn_is_even B n \<longleftrightarrow> \<not> bn_is_odd B n"

text \<open>An unsigned count of bits becomes an \<open>i32\<close>; division is that of \<open>i32\<close>.\<close>

definition bn_num_bits :: "bn_api \<Rightarrow> int \<Rightarrow> 32 word" where
  "bn_num_bits B n = BN_num_bits B n"

definition bn_num_bytes :: "bn_api \<Rightarrow> int \<Rightarrow> int" where
  "bn_num_bytes B n = sint (bn_num_bits B n + 7) sdiv 8"

definition msb_maybe_zero :: int where "msb_maybe_zero = -1"

definition msb_one :: int where "msb_one = 0"

definition msb_two_ones :: int where "msb_two_ones = 1"

definition bn_rand :: "bn_api \<Rightarrow> int \<Rightarrow> int \<Rightarrow> bool \<Rightarrow> (int, unit) eff" where
  "bn_rand B bits msb od = bn_cvt (BN_rand B bits msb (of_bool_c od))"

definition bn_pseudo_rand :: "bn_api \<Rightarrow> int \<Rightarrow> int \<Rightarrow> bool \<Rightarrow> (int, unit) eff" where
  "bn_pseudo_rand B bits msb od = bn_cvt (BN_pseudo_rand B bits msb (of_bool_c od))"

definition bn_generate_prime :: "bn_api \<Rightarrow> int \<Rightarrow> bool \<Rightarrow> int option \<Rightarrow> int option \<Rightarrow> (int, unit) eff" where
  "bn_generate_prime B bits safe ad rm = bn_cvt (BN_generate_prime_ex B bits (of_bool_c safe) ad rm)"

text \<open>A null pointer stands for the part of a division that is not wanted.\<close>

definition bn_checked_div :: "bn_api \<Rightarrow> int \<Rightarrow> int \<Rightarrow> (int, unit) eff" where
  "bn_checked_div B a b = bn_cvt (\<lambda>q. case BN_div B a b q of ((r, d, m), q') \<Rightarrow> ((r, d), q'))"

definition bn_checked_rem :: "bn_api \<Rightarrow> int \<Rightarrow> int \<Rightarrow> (int, unit) eff" where
  "bn_checked_rem B a b = bn_cvt (\<lambda>q. case BN_div B a b q of ((r, d, m), q') \<Rightarrow> ((r, m), q'))"

definition bn_div_rem :: "bn_api \<Rightarrow> int \<Rightarrow> int \<Rightarrow> (int \<times> int, unit) eff" where
  "bn_div_rem B a b = ecvt (\<lambda>s q. case BN_div B a b q of ((r, d, m), q') \<Rightarrow> ((r, ()), (d, m), q'))"

definition bn_checked_mul :: "bn_api \<Rightarrow> int \<Rightarrow> int \<Rightarrow> (int, unit) eff" where
  "bn_checked_mul B a b = bn_cvt (BN_mul B a b)"

definition bn_sqr :: "bn_api \<Rightarrow> int \<Rightarrow> (int, unit) eff" where
  "bn_sqr B a = bn_cvt (BN_sqr B a)"

definition bn_nnmod :: "bn_api \<Rightarrow> int \<Rightarrow> int \<Rightarrow> (int, unit) eff" where
  "bn_nnmod B a m = bn_cvt (BN_nnmod B a m)"

definition bn_mod_add :: "bn_api \<Rightarrow> int \<Rightarrow> int \<Rightarrow> int \<Rightarrow> (int, unit) eff" where
  "bn_mod_add B a b m = bn_cvt (BN_mod_add B a b m)"

definition bn_mod_sub :: "bn_api \<Rightarrow> int \<Rightarrow> int \<Rightarrow> int \<Rightarrow> (int, unit) eff" where
  "bn_mod_sub B a b m = bn_cvt (BN_mod_sub B a b m)"

definition bn_mod_mul :: "bn_api \<Rightarrow> int \<Rightarrow> int \<Rightarrow> int \<Rightarrow> (int, unit) eff" where
  "bn_mod_mul B a b m = bn_cvt (BN_mod_mul B a b m)"

definition bn_mod_sqr :: "bn_api \<Rightarrow> int \<Rightarrow> int \<Rightarrow> (int, unit) eff" where
  "bn_mod_sqr B a m = bn_cvt (BN_mod_sqr B a m)"

definition bn_exp :: "bn_api \<Rightarrow> int \<Rightarrow> int \<Rightarrow> (int, unit) eff" where
  "bn_exp B a p = bn_cvt (BN_exp B a p)"

definition bn_mod_exp :: "bn_api \<Rightarrow> int \<Rightarrow> int \<Rightarrow> int \<Rightarrow> (int, unit) eff" where
  "bn_mod_exp B a p m = bn_cvt (BN_mod_exp B a p m)"

definition bn_gcd :: "bn_api \<Rightarrow> int \<Rightarrow> int \<Rightarrow> (int, unit) eff" where
  "bn_gcd B a b = bn_cvt (BN_gcd B a b)"

definition bn_mod_inverse :: "bn_api \<Rightarrow> int \<Rightarrow> int \<Rightarrow> (int, unit) eff" where
  "bn_mod_inverse B a n = bn_cvt_p (BN_mod_inverse B a n)"

definition bn_mod_sqrt :: "bn_api \<Rightarrow> int \<Rightarrow> int \<Rightarrow> (int, unit) eff" where
  "bn_mod_sqrt B a p = bn_cvt_p (BN_mod_sqrt B a p)"

definition ecvt_n :: "(err_queue \<Rightarrow> int \<times> err_queue) \<Rightarrow> ('u, int) eff" where
  "ecvt_n f s q =
     (case f q of (r, q1) \<Rightarrow> (case cvt_n r q1 of (Inl es, q2) \<Rightarrow> (Err es, s, q2) | (Inr x, q2) \<Rightarrow> (Ok x, s, q2)))"

definition bn_is_prime :: "bn_api \<Rightarrow> int \<Rightarrow> int \<Rightarrow> ('u, bool) eff" where
  "bn_is_prime B n checks = ebind (ecvt_n (BN_is_prime_ex B n checks)) (\<lambda>r. eret (r \<noteq> 0))"

definition bn_is_prime_fasttest :: "bn_api \<Rightarrow> int \<Rightarrow> int \<Rightarrow> bool \<Rightarrow> ('u, bool) eff" where
  "bn_is_prime_fasttest B n checks do_trial_division =
     ebind (ecvt_n (BN_is_prime_fasttest_ex B n checks (of_bool_c do_trial_division))) (\<lambda>r. eret (r \<noteq> 0))"

section \<open>Bytes and text\<close>

text \<open>
  A vector with capacity \<open>n\<close> whose length is set to \<open>n\<close> after BoringSSL wrote \<open>bs\<close> at its start: \<open>None\<close> if the write
  overruns it; a byte that was not written is \<open>None\<close>.
\<close>

definition set_len_after :: "nat \<Rightarrow> byte list \<Rightarrow> byte option list option" where
  "set_len_after n bs =
     (if n < length bs then None else Some (map Some bs @ replicate (n - length bs) None))"

definition bn_to_vec :: "bn_api \<Rightarrow> int \<Rightarrow> byte option list option" where
  "bn_to_vec B n = set_len_after (nat (bn_num_bytes B n)) (BN_bn2bin B n)"

definition bn_to_vec_padded :: "bn_api \<Rightarrow> int \<Rightarrow> nat \<Rightarrow> ('u, byte option list option) eff" where
  "bn_to_vec_padded B n pad_to s q =
     (case BN_bn2bin_padded B pad_to n q of ((r, bs), q1) \<Rightarrow>
       (case cvt r q1 of (Inl es, q2) \<Rightarrow> (Err es, s, q2) | (Inr _, q2) \<Rightarrow> (Ok (set_len_after pad_to bs), s, q2)))"

definition bn_to_dec_str :: "bn_api \<Rightarrow> int \<Rightarrow> ('u, string) eff" where
  "bn_to_dec_str B n = ecvt_p (BN_bn2dec B n)"

definition bn_to_hex_str :: "bn_api \<Rightarrow> int \<Rightarrow> ('u, string) eff" where
  "bn_to_hex_str B n = ecvt_p (BN_bn2hex B n)"

definition bn_to_asn1_integer :: "bn_api \<Rightarrow> int \<Rightarrow> ('u, int) eff" where
  "bn_to_asn1_integer B n = ecvt_p (BN_to_ASN1_INTEGER B n)"

definition bn_new :: "bn_api \<Rightarrow> ('u, int) eff" where
  "bn_new B = ecvt_p (BN_new B)"

text \<open>A method on a number that is created on the way and then returned or dropped.\<close>

definition bn_local :: "int \<Rightarrow> (int, unit) eff \<Rightarrow> ('u, int) eff" where
  "bn_local v m s q =
     (case m v q of
        (Ok _, v', q') \<Rightarrow> (Ok v', s, q') | (Err es, _, q') \<Rightarrow> (Err es, s, q') | (Panicked p, _, q') \<Rightarrow> (Panicked p, s, q'))"

definition bn_of_u32 :: "bn_api \<Rightarrow> 32 word \<Rightarrow> ('u, int) eff" where
  "bn_of_u32 B n = ebind (bn_new B) (\<lambda>v. bn_local v (bn_cvt (BN_set_word B (ucast n))))"

text \<open>The number is made by the call.\<close>

definition bn_from_dec_str :: "bn_api \<Rightarrow> string \<Rightarrow> ('u, int) eff" where
  "bn_from_dec_str B s = ebind (ecstring (bn_err_lib_none B) s) (\<lambda>c_str. bn_local 0 (bn_cvt (BN_dec2bn B c_str)))"

definition bn_from_hex_str :: "bn_api \<Rightarrow> string \<Rightarrow> ('u, int) eff" where
  "bn_from_hex_str B s = ebind (ecstring (bn_err_lib_none B) s) (\<lambda>c_str. bn_local 0 (bn_cvt (BN_hex2bn B c_str)))"

definition bn_from_slice :: "bn_api \<Rightarrow> byte list \<Rightarrow> ('u, int) eff" where
  "bn_from_slice B n =
     ethen (eassert (length n \<le> c_int_max) ''assertion failed: n.len() <= c_int::MAX as usize'') (ecvt_p (BN_bin2bn B n))"

definition bn_copy_from_slice :: "bn_api \<Rightarrow> byte list \<Rightarrow> (int, unit) eff" where
  "bn_copy_from_slice B n = bn_cvt_p (BN_bin2bn B n)"

text \<open>\<open>Debug\<close> and \<open>Display\<close>: \<open>None\<close> is \<open>fmt::Error\<close>.\<close>

definition bn_fmt :: "bn_api \<Rightarrow> int \<Rightarrow> err_queue \<Rightarrow> string option \<times> err_queue" where
  "bn_fmt B n q = (case bn_to_dec_str B n () q of (Ok s, _, q') \<Rightarrow> (Some s, q') | (_, _, q') \<Rightarrow> (None, q'))"

section \<open>Operators\<close>

definition bn_compare :: "bn_api \<Rightarrow> int \<Rightarrow> int \<Rightarrow> ordering" where
  "bn_compare B a b = cmp_zero (BN_cmp B a b)"

definition bn_eq :: "bn_api \<Rightarrow> int \<Rightarrow> int \<Rightarrow> bool" where
  "bn_eq B a b \<longleftrightarrow> bn_compare B a b = Equal"

definition bn_partial_cmp :: "bn_api \<Rightarrow> int \<Rightarrow> int \<Rightarrow> ordering option" where
  "bn_partial_cmp B a b = Some (bn_compare B a b)"

definition bn_op_add :: "bn_api \<Rightarrow> int \<Rightarrow> int \<Rightarrow> ('u, int) eff" where
  "bn_op_add B a b =
     ebind (eunwrap (bn_new B)) (\<lambda>r. bn_local r (eunwrap (bn_checked_add B a b)))"

definition bn_op_sub :: "bn_api \<Rightarrow> int \<Rightarrow> int \<Rightarrow> ('u, int) eff" where
  "bn_op_sub B a b =
     ebind (eunwrap (bn_new B)) (\<lambda>r. bn_local r (eunwrap (bn_checked_sub B a b)))"

definition bn_op_mul :: "bn_api \<Rightarrow> int \<Rightarrow> int \<Rightarrow> ('u, int) eff" where
  "bn_op_mul B a b =
     ethen (eunwrap (bn_ctx_new B))
       (ebind (eunwrap (bn_new B)) (\<lambda>r. bn_local r (eunwrap (bn_checked_mul B a b))))"

definition bn_op_div :: "bn_api \<Rightarrow> int \<Rightarrow> int \<Rightarrow> ('u, int) eff" where
  "bn_op_div B a b =
     ethen (eunwrap (bn_ctx_new B))
       (ebind (eunwrap (bn_new B)) (\<lambda>r. bn_local r (eunwrap (bn_checked_div B a b))))"

definition bn_op_rem :: "bn_api \<Rightarrow> int \<Rightarrow> int \<Rightarrow> ('u, int) eff" where
  "bn_op_rem B a b =
     ethen (eunwrap (bn_ctx_new B))
       (ebind (eunwrap (bn_new B)) (\<lambda>r. bn_local r (eunwrap (bn_checked_rem B a b))))"

definition bn_op_shl :: "bn_api \<Rightarrow> int \<Rightarrow> int \<Rightarrow> ('u, int) eff" where
  "bn_op_shl B a n =
     ebind (eunwrap (bn_new B)) (\<lambda>r. bn_local r (eunwrap (bn_lshift B a n)))"

definition bn_op_shr :: "bn_api \<Rightarrow> int \<Rightarrow> int \<Rightarrow> ('u, int) eff" where
  "bn_op_shr B a n =
     ebind (eunwrap (bn_new B)) (\<lambda>r. bn_local r (eunwrap (bn_rshift B a n)))"

definition bn_op_neg :: "bn_api \<Rightarrow> int \<Rightarrow> int" where
  "bn_op_neg B n = bn_set_negative B (\<not> bn_is_negative B n) n"

definition bn_op_neg_ref :: "bn_api \<Rightarrow> int \<Rightarrow> ('u, int) eff" where
  "bn_op_neg_ref B n = ebind (eunwrap (bn_to_owned B n)) (\<lambda>m. eret (bn_op_neg B m))"

section \<open>What BoringSSL documents\<close>

text \<open>
  Arithmetic is that of the integers; a quotient is rounded toward zero, and the remainder has the sign of the
  numerator. A call fails only for a zero divisor, a negative shift, or if no memory is left.
\<close>

definition bn_sums :: "bn_api \<Rightarrow> bool" where
  "bn_sums B \<longleftrightarrow>
     (\<forall>a b q. 0 < fst (fst (BN_add B a b q)) \<longrightarrow> snd (fst (BN_add B a b q)) = a + b) \<and>
     (\<forall>a b q. 0 < fst (fst (BN_sub B a b q)) \<longrightarrow> snd (fst (BN_sub B a b q)) = a - b) \<and>
     (\<forall>a b q. 0 < fst (fst (BN_mul B a b q)) \<longrightarrow> snd (fst (BN_mul B a b q)) = a * b)"

definition bn_divides :: "bn_api \<Rightarrow> bool" where
  "bn_divides B \<longleftrightarrow>
     (\<forall>a b q. 0 < fst (fst (BN_div B a b q)) \<longrightarrow>
        b \<noteq> 0 \<and> snd (fst (BN_div B a b q)) = (a sdiv b, a smod b))"

definition bn_shifts :: "bn_api \<Rightarrow> bool" where
  "bn_shifts B \<longleftrightarrow>
     (\<forall>a n q. 0 < fst (fst (BN_lshift B a n q)) \<longrightarrow> 0 \<le> n \<and> snd (fst (BN_lshift B a n q)) = a * 2 ^ nat n) \<and>
     (\<forall>a n q. 0 < fst (fst (BN_rshift B a n q)) \<longrightarrow> 0 \<le> n \<and> snd (fst (BN_rshift B a n q)) = a sdiv 2 ^ nat n)"

definition bn_signs :: "bn_api \<Rightarrow> bool" where
  "bn_signs B \<longleftrightarrow>
     (\<forall>n. BN_is_negative B n = of_bool_c (n < 0)) \<and>
     (\<forall>n s. BN_set_negative B n s = (if s \<noteq> 0 then - \<bar>n\<bar> else \<bar>n\<bar>)) \<and>
     (\<forall>n q m q'. BN_dup B n q = (Some m, q') \<longrightarrow> m = n)"

definition bn_memory :: "bn_api \<Rightarrow> bool" where
  "bn_memory B \<longleftrightarrow>
     (\<forall>q. fst (BN_new B q) \<noteq> None) \<and> (\<forall>q. fst (BN_CTX_new B q) \<noteq> None) \<and> (\<forall>n q. fst (BN_dup B n q) \<noteq> None) \<and>
     (\<forall>a b q. 0 < fst (fst (BN_add B a b q))) \<and> (\<forall>a b q. 0 < fst (fst (BN_sub B a b q))) \<and>
     (\<forall>a b q. 0 < fst (fst (BN_mul B a b q))) \<and> (\<forall>a b q. b \<noteq> 0 \<longrightarrow> 0 < fst (fst (BN_div B a b q))) \<and>
     (\<forall>a n q. 0 \<le> n \<longrightarrow> 0 < fst (fst (BN_lshift B a n q))) \<and> (\<forall>a n q. 0 \<le> n \<longrightarrow> 0 < fst (fst (BN_rshift B a n q)))"

definition bn_arith :: "bn_api \<Rightarrow> bool" where
  "bn_arith B \<longleftrightarrow> bn_sums B \<and> bn_divides B \<and> bn_shifts B \<and> bn_signs B"

section \<open>Expressions over numbers\<close>

datatype bn_expr =
  Number int | Sum bn_expr bn_expr | Difference bn_expr bn_expr | Product bn_expr bn_expr
| Quotient bn_expr bn_expr | Remainder bn_expr bn_expr | Shifted_Left bn_expr int | Shifted_Right bn_expr int
| Negated bn_expr

text \<open>The operators, applied to owned operands from left to right.\<close>

fun bn_run :: "bn_api \<Rightarrow> bn_expr \<Rightarrow> ('u, int) eff" where
  "bn_run B (Number n) = eret n"
| "bn_run B (Sum x y) = ebind (bn_run B x) (\<lambda>a. ebind (bn_run B y) (\<lambda>b. bn_op_add B a b))"
| "bn_run B (Difference x y) = ebind (bn_run B x) (\<lambda>a. ebind (bn_run B y) (\<lambda>b. bn_op_sub B a b))"
| "bn_run B (Product x y) = ebind (bn_run B x) (\<lambda>a. ebind (bn_run B y) (\<lambda>b. bn_op_mul B a b))"
| "bn_run B (Quotient x y) = ebind (bn_run B x) (\<lambda>a. ebind (bn_run B y) (\<lambda>b. bn_op_div B a b))"
| "bn_run B (Remainder x y) = ebind (bn_run B x) (\<lambda>a. ebind (bn_run B y) (\<lambda>b. bn_op_rem B a b))"
| "bn_run B (Shifted_Left x n) = ebind (bn_run B x) (\<lambda>a. bn_op_shl B a n)"
| "bn_run B (Shifted_Right x n) = ebind (bn_run B x) (\<lambda>a. bn_op_shr B a n)"
| "bn_run B (Negated x) = ebind (bn_run B x) (\<lambda>a. bn_op_neg_ref B a)"

text \<open>What they should compute, if it is defined.\<close>

definition value2 :: "(int \<Rightarrow> int \<Rightarrow> int option) \<Rightarrow> int option \<Rightarrow> int option \<Rightarrow> int option" where
  "value2 f x y = (case (x, y) of (Some a, Some b) \<Rightarrow> f a b | _ \<Rightarrow> None)"

fun bn_value :: "bn_expr \<Rightarrow> int option" where
  "bn_value (Number n) = Some n"
| "bn_value (Sum x y) = value2 (\<lambda>a b. Some (a + b)) (bn_value x) (bn_value y)"
| "bn_value (Difference x y) = value2 (\<lambda>a b. Some (a - b)) (bn_value x) (bn_value y)"
| "bn_value (Product x y) = value2 (\<lambda>a b. Some (a * b)) (bn_value x) (bn_value y)"
| "bn_value (Quotient x y) = value2 (\<lambda>a b. if b = 0 then None else Some (a sdiv b)) (bn_value x) (bn_value y)"
| "bn_value (Remainder x y) = value2 (\<lambda>a b. if b = 0 then None else Some (a smod b)) (bn_value x) (bn_value y)"
| "bn_value (Shifted_Left x n) = value2 (\<lambda>a m. if m < 0 then None else Some (a * 2 ^ nat m)) (bn_value x) (Some n)"
| "bn_value (Shifted_Right x n) = value2 (\<lambda>a m. if m < 0 then None else Some (a sdiv 2 ^ nat m)) (bn_value x) (Some n)"
| "bn_value (Negated x) = map_option uminus (bn_value x)"

text \<open>An effect computes \<open>v\<close>: it returns it or panics; it returns it if there is memory, and panics if \<open>v\<close> is undefined.\<close>

definition computes :: "bn_api \<Rightarrow> ('u, int) eff \<Rightarrow> int option \<Rightarrow> bool" where
  "computes B m v \<longleftrightarrow>
     (\<forall>s q. (\<exists>q' x. m s q = (Ok x, s, q') \<and> v = Some x) \<or> (\<exists>p q'. m s q = (Panicked p, s, q') \<and> (bn_memory B \<longrightarrow> v = None)))"

lemma computesD:
  "computes B m v \<Longrightarrow>
     (\<exists>q' x. m s q = (Ok x, s, q') \<and> v = Some x) \<or> (\<exists>p q'. m s q = (Panicked p, s, q') \<and> (bn_memory B \<longrightarrow> v = None))"
  unfolding computes_def by (drule spec, drule spec, assumption)

lemma computes_bind:
  assumes "computes B m v" "\<And>x. v = Some x \<Longrightarrow> computes B (f x) (g x)"
  shows "computes B (ebind m f) (case v of None \<Rightarrow> None | Some x \<Rightarrow> g x)"
  unfolding computes_def
proof (intro allI)
  fix s q
  from assms(1) consider (ok) q' x where "m s q = (Ok x, s, q')" "v = Some x"
    | (panic) p q' where "m s q = (Panicked p, s, q')" "bn_memory B \<longrightarrow> v = None"
    unfolding computes_def by blast
  then show "(\<exists>q' x. ebind m f s q = (Ok x, s, q') \<and> (case v of None \<Rightarrow> None | Some x \<Rightarrow> g x) = Some x) \<or>
     (\<exists>p q'. ebind m f s q = (Panicked p, s, q') \<and> (bn_memory B \<longrightarrow> (case v of None \<Rightarrow> None | Some x \<Rightarrow> g x) = None))"
  proof cases
    case ok
    then show ?thesis using assms(2)[of x] unfolding computes_def by simp
  qed simp
qed

lemma computes2:
  assumes "computes B m v" "computes B n w" "\<And>a b. computes B (f a b) (g a b)"
  shows "computes B (ebind m (\<lambda>a. ebind n (f a))) (value2 g v w)"
proof -
  have "computes B (ebind m (\<lambda>a. ebind n (f a)))
     (case v of None \<Rightarrow> None | Some a \<Rightarrow> (case w of None \<Rightarrow> None | Some b \<Rightarrow> g a b))"
    by (intro computes_bind assms)
  moreover have "(case v of None \<Rightarrow> None | Some a \<Rightarrow> (case w of None \<Rightarrow> None | Some b \<Rightarrow> g a b)) = value2 g v w"
    by (auto simp: value2_def split: option.splits)
  ultimately show ?thesis by simp
qed

lemma computes_new:
  assumes "\<And>s q. 0 < fst (fst (f q)) \<longrightarrow> v = Some (snd (fst (f q)))" "bn_memory B \<and> v \<noteq> None \<longrightarrow> (\<forall>q. 0 < fst (fst (f q)))"
  shows "computes B (ebind (eunwrap (bn_new B)) (\<lambda>r. bn_local r (eunwrap (bn_cvt f)))) v"
  unfolding computes_def
proof (intro allI)
  fix s q
  obtain x q1 where new: "BN_new B q = (x, q1)" by fastforce
  have mem: "bn_memory B \<Longrightarrow> x \<noteq> None" using new unfolding bn_memory_def by (metis fst_conv)
  show "(\<exists>q' y. ebind (eunwrap (bn_new B)) (\<lambda>r. bn_local r (eunwrap (bn_cvt f))) s q = (Ok y, s, q') \<and> v = Some y) \<or>
     (\<exists>p q'. ebind (eunwrap (bn_new B)) (\<lambda>r. bn_local r (eunwrap (bn_cvt f))) s q = (Panicked p, s, q') \<and> (bn_memory B \<longrightarrow> v = None))"
  proof (cases x)
    case None
    then show ?thesis
      using mem by (auto simp: ebind_def eunwrap_def bn_new_def ecvt_p_def new cvt_p_def fail_stack_def split: prod.splits)
  next
    case (Some n)
    obtain r y q2 where f: "f q1 = ((r, y), q2)" by (metis prod.collapse)
    have "0 < r \<Longrightarrow> v = Some y" "bn_memory B \<Longrightarrow> \<not> 0 < r \<Longrightarrow> v = None"
      using assms f by (metis fst_conv snd_conv)+
    then show ?thesis
      using Some by (cases "0 < r")
        (auto simp: ebind_def eunwrap_def bn_new_def ecvt_p_def new cvt_p_def bn_local_def bn_cvt_def ecvt_def cvt_def f
          fail_stack_def split: prod.splits)
  qed
qed

lemma computes_ctx:
  assumes "computes B m v"
  shows "computes B (ethen (eunwrap (bn_ctx_new B)) m) v"
  unfolding computes_def
proof (intro allI)
  fix s q
  obtain x q1 where new: "BN_CTX_new B q = (x, q1)" by fastforce
  have mem: "bn_memory B \<Longrightarrow> x \<noteq> None" using new unfolding bn_memory_def by (metis fst_conv)
  show "(\<exists>q' y. ethen (eunwrap (bn_ctx_new B)) m s q = (Ok y, s, q') \<and> v = Some y) \<or>
     (\<exists>p q'. ethen (eunwrap (bn_ctx_new B)) m s q = (Panicked p, s, q') \<and> (bn_memory B \<longrightarrow> v = None))"
  proof (cases x)
    case None
    then show ?thesis
      using mem by (auto simp: ethen_def ebind_def eunwrap_def bn_ctx_new_def ecvt_p_def new cvt_p_def fail_stack_def
          split: prod.splits)
  next
    case (Some n)
    then have "ethen (eunwrap (bn_ctx_new B)) m s q = m s q1"
      by (simp add: ethen_def ebind_def eunwrap_def bn_ctx_new_def ecvt_p_def new cvt_p_def)
    then show ?thesis using assms unfolding computes_def by simp
  qed
qed

named_theorems computed

lemma computes_add [computed]: "bn_arith B \<Longrightarrow> computes B (bn_op_add B a b) (Some (a + b))"
  unfolding bn_op_add_def bn_checked_add_def by (rule computes_new) (simp_all add: bn_arith_def bn_sums_def bn_memory_def)

lemma computes_sub [computed]: "bn_arith B \<Longrightarrow> computes B (bn_op_sub B a b) (Some (a - b))"
  unfolding bn_op_sub_def bn_checked_sub_def by (rule computes_new) (simp_all add: bn_arith_def bn_sums_def bn_memory_def)

lemma computes_mul [computed]: "bn_arith B \<Longrightarrow> computes B (bn_op_mul B a b) (Some (a * b))"
  unfolding bn_op_mul_def bn_checked_mul_def
  by (rule computes_ctx, rule computes_new) (simp_all add: bn_arith_def bn_sums_def bn_memory_def)

lemma division_law:
  "bn_arith B \<Longrightarrow> 0 < fst (fst (BN_div B a b q)) \<Longrightarrow> b \<noteq> 0 \<and> snd (fst (BN_div B a b q)) = (a sdiv b, a smod b)"
  "bn_memory B \<Longrightarrow> b \<noteq> 0 \<Longrightarrow> 0 < fst (fst (BN_div B a b q))"
  unfolding bn_arith_def bn_divides_def bn_memory_def by blast+

lemma shift_law:
  "bn_arith B \<Longrightarrow> 0 < fst (fst (BN_lshift B a n q)) \<Longrightarrow> 0 \<le> n \<and> snd (fst (BN_lshift B a n q)) = a * 2 ^ nat n"
  "bn_arith B \<Longrightarrow> 0 < fst (fst (BN_rshift B a n q)) \<Longrightarrow> 0 \<le> n \<and> snd (fst (BN_rshift B a n q)) = a sdiv 2 ^ nat n"
  "bn_memory B \<Longrightarrow> 0 \<le> n \<Longrightarrow> 0 < fst (fst (BN_lshift B a n q))"
  "bn_memory B \<Longrightarrow> 0 \<le> n \<Longrightarrow> 0 < fst (fst (BN_rshift B a n q))"
  unfolding bn_arith_def bn_shifts_def bn_memory_def by blast+

lemma division_simps:
  "bn_arith B \<Longrightarrow> fst (fst (BN_div B a 0 q)) \<le> 0"
  "bn_arith B \<Longrightarrow> 0 < fst (fst (BN_div B a b q)) \<Longrightarrow> snd (fst (BN_div B a b q)) = (a sdiv b, a smod b)"
  using division_law(1)[of B a 0 q] division_law(1)[of B a b q] by linarith+

lemma negative_shift:
  "bn_arith B \<Longrightarrow> n < 0 \<Longrightarrow> fst (fst (BN_lshift B a n q)) \<le> 0"
  "bn_arith B \<Longrightarrow> n < 0 \<Longrightarrow> fst (fst (BN_rshift B a n q)) \<le> 0"
  using shift_law(1)[of B a n q] shift_law(2)[of B a n q] by linarith+

lemma division_parts:
  "fst (case x of ((r, d, m), q') \<Rightarrow> ((r, d), q')) = (fst (fst x), fst (snd (fst x)))"
  "fst (case x of ((r, d, m), q') \<Rightarrow> ((r, m), q')) = (fst (fst x), snd (snd (fst x)))"
  by (simp_all split: prod.splits)

lemma computes_div [computed]: "bn_arith B \<Longrightarrow> computes B (bn_op_div B a b) (if b = 0 then None else Some (a sdiv b))"
  unfolding bn_op_div_def bn_checked_div_def
  by (intro computes_ctx computes_new; unfold division_parts) (auto simp: division_law(2) division_simps not_less)

lemma computes_rem [computed]: "bn_arith B \<Longrightarrow> computes B (bn_op_rem B a b) (if b = 0 then None else Some (a smod b))"
  unfolding bn_op_rem_def bn_checked_rem_def
  by (intro computes_ctx computes_new; unfold division_parts) (auto simp: division_law(2) division_simps not_less)

lemma computes_shl: "bn_arith B \<Longrightarrow> computes B (bn_op_shl B a n) (if n < 0 then None else Some (a * 2 ^ nat n))"
  unfolding bn_op_shl_def bn_lshift_def
  by (intro computes_new) (use shift_law(1)[of B a n] shift_law(3)[of B n a] in \<open>simp_all add: not_less negative_shift\<close>)

lemma computes_shr: "bn_arith B \<Longrightarrow> computes B (bn_op_shr B a n) (if n < 0 then None else Some (a sdiv 2 ^ nat n))"
  unfolding bn_op_shr_def bn_rshift_def
  by (intro computes_new) (use shift_law(2)[of B a n] shift_law(4)[of B n a] in \<open>simp_all add: not_less negative_shift\<close>)

lemma op_neg: "bn_arith B \<Longrightarrow> bn_op_neg B n = - n"
  by (auto simp: bn_op_neg_def bn_set_negative_def bn_is_negative_def bn_arith_def bn_signs_def of_bool_c_def)

lemma computes_neg: "bn_arith B \<Longrightarrow> computes B (bn_op_neg_ref B a) (Some (- a))"
  unfolding computes_def
proof (intro allI)
  fix s q assume B: "bn_arith B"
  obtain x q1 where dup: "BN_dup B a q = (x, q1)" by fastforce
  have mem: "bn_memory B \<Longrightarrow> x \<noteq> None" using dup unfolding bn_memory_def by (metis fst_conv)
  have "x = Some m \<Longrightarrow> m = a" for m using B dup unfolding bn_arith_def bn_signs_def by blast
  then show "(\<exists>q' y. bn_op_neg_ref B a s q = (Ok y, s, q') \<and> Some (- a) = Some y) \<or>
     (\<exists>p q'. bn_op_neg_ref B a s q = (Panicked p, s, q') \<and> (bn_memory B \<longrightarrow> Some (- a) = None))"
    using mem B by (cases x)
      (auto simp: bn_op_neg_ref_def ebind_def eunwrap_def bn_to_owned_def ecvt_p_def dup cvt_p_def fail_stack_def op_neg
        split: prod.splits)
qed

lemma computes1:
  assumes "computes B m v" "\<And>a. computes B (f a) (g a n)"
  shows "computes B (ebind m f) (value2 g v (Some n))"
proof -
  have "computes B (ebind m f) (case v of None \<Rightarrow> None | Some a \<Rightarrow> g a n)" by (intro computes_bind assms)
  then show ?thesis by (cases v) (simp_all add: value2_def)
qed

lemma computes_map:
  assumes "computes B m v" "\<And>a. computes B (f a) (Some (g a))"
  shows "computes B (ebind m f) (map_option g v)"
proof -
  have "computes B (ebind m f) (case v of None \<Rightarrow> None | Some a \<Rightarrow> Some (g a))" by (intro computes_bind assms)
  then show ?thesis by (cases v) simp_all
qed

lemma bn_run_computes: "bn_arith B \<Longrightarrow> computes B (bn_run B e) (bn_value e)"
proof (induction e)
  case (Number n)
  then show ?case by (simp add: computes_def)
next
  case (Negated x)
  show ?case unfolding bn_run.simps bn_value.simps by (intro computes_map computes_neg Negated.IH Negated.prems)
next
  case (Shifted_Left x n)
  show ?case unfolding bn_run.simps bn_value.simps
    by (intro computes1 computes_shl Shifted_Left.IH Shifted_Left.prems)
next
  case (Shifted_Right x n)
  show ?case unfolding bn_run.simps bn_value.simps
    by (intro computes1 computes_shr Shifted_Right.IH Shifted_Right.prems)
qed (unfold bn_run.simps bn_value.simps, (intro computes2 computed; simp)+)

text \<open>
  C37: An expression over numbers, evaluated with the operators \<open>+\<close>, \<open>-\<close>, \<open>*\<close>, \<open>/\<close>, \<open>%\<close>, \<open><<\<close>, \<open>>>\<close> and negation,
  returns the value that integer arithmetic gives it, with quotients rounded toward zero, or panics. It panics for a
  zero divisor and a negative shift; as long as there is memory it panics for nothing else.
\<close>

theorem operators_are_integer_arithmetic:
  assumes "bn_arith B" "bn_run B e s q = (r, s', q')"
  shows "(case r of
       Ok v \<Rightarrow> bn_value e = Some v
     | Err _ \<Rightarrow> False
     | Panicked _ \<Rightarrow> bn_memory B \<longrightarrow> bn_value e = None)"
proof -
  have "(\<exists>q' x. bn_run B e s q = (Ok x, s, q') \<and> bn_value e = Some x) \<or>
     (\<exists>p q'. bn_run B e s q = (Panicked p, s, q') \<and> (bn_memory B \<longrightarrow> bn_value e = None))"
    by (rule computesD[OF bn_run_computes[OF assms(1)]])
  then show ?thesis unfolding assms(2) by auto
qed

section \<open>Order\<close>

definition bn_compares :: "bn_api \<Rightarrow> bool" where
  "bn_compares B \<longleftrightarrow> (\<forall>a b. sgn (BN_cmp B a b) = sgn (a - b)) \<and> (\<forall>a b. sgn (BN_ucmp B a b) = sgn (\<bar>a\<bar> - \<bar>b\<bar>))"

lemma cmp_zero_sgn: "sgn r = sgn (a - b) \<Longrightarrow> cmp_zero r = (if a < b then Less else if a = b then Equal else Greater)"
  by (auto simp: cmp_zero_def sgn_if split: if_splits)

lemma bn_order:
  assumes "bn_compares B"
  shows "bn_compare B a b = (if a < b then Less else if a = b then Equal else Greater)"
    "bn_eq B a b \<longleftrightarrow> a = b" "bn_ucmp B a b = Equal \<longleftrightarrow> \<bar>a\<bar> = \<bar>b\<bar>"
  using assms cmp_zero_sgn[of "BN_cmp B a b" a b] cmp_zero_sgn[of "BN_ucmp B a b" "\<bar>a\<bar>" "\<bar>b\<bar>"]
  by (simp_all add: bn_compares_def bn_compare_def bn_eq_def bn_ucmp_def)

section \<open>Bytes\<close>

fun of_be :: "byte list \<Rightarrow> int" where
  "of_be [] = 0"
| "of_be (b # bs) = uint b * 256 ^ length bs + of_be bs"

text \<open>
  What BoringSSL documents of bytes, for numbers below its limit of \<open>2 ^ 29\<close> bits: the number of bits is least, and the
  bytes of a number are as many as its bits need.
\<close>

definition bn_fits :: "int \<Rightarrow> bool" where
  "bn_fits n \<longleftrightarrow> \<bar>n\<bar> < 2 ^ (2 ^ 29)"

definition bn_counts :: "bn_api \<Rightarrow> bool" where
  "bn_counts B \<longleftrightarrow>
     (\<forall>n. bn_fits n \<longrightarrow> unat (BN_num_bits B n) \<le> 2 ^ 29 \<and>
        length (BN_bn2bin B n) = (unat (BN_num_bits B n) + 7) div 8 \<and> of_be (BN_bn2bin B n) = \<bar>n\<bar>)"

definition bn_reads :: "bn_api \<Rightarrow> bool" where
  "bn_reads B \<longleftrightarrow> (\<forall>bs q v q'. BN_bin2bn B bs q = (Some v, q') \<longrightarrow> v = of_be bs)"

definition bn_pads :: "bn_api \<Rightarrow> bool" where
  "bn_pads B \<longleftrightarrow>
     (\<forall>k n q r bs q'. bn_fits n \<longrightarrow> BN_bn2bin_padded B k n q = ((r, bs), q') \<longrightarrow> 0 < r \<longrightarrow>
        bs = replicate (k - length (BN_bn2bin B n)) 0 @ BN_bn2bin B n \<and> length (BN_bn2bin B n) \<le> k)"

lemma of_be_zeros: "of_be (replicate k 0 @ bs) = of_be bs"
  by (induction k) simp_all

lemma num_bytes_exact:
  assumes "bn_counts B" "bn_fits n"
  shows "nat (bn_num_bytes B n) = length (BN_bn2bin B n)"
proof -
  let ?b = "BN_num_bits B n"
  have b: "unat ?b \<le> 2 ^ 29" using assms by (simp add: bn_counts_def)
  have "?b + 7 = of_nat (unat ?b + 7)" by simp
  then have "sint (?b + 7) = as_c_int (unat ?b + 7)" by (simp add: as_c_int_def)
  then have "sint (?b + 7) = int (unat ?b + 7)" using b by (simp add: as_c_int_small c_int_max_def)
  moreover have "nat (int m sdiv 8) = m div 8" for m
    by (cases "m = 0") (simp_all add: signed_divide_int_def nat_div_distrib)
  ultimately have "nat (bn_num_bytes B n) = (unat ?b + 7) div 8"
    unfolding bn_num_bytes_def bn_num_bits_def by metis
  then show ?thesis using assms by (simp add: bn_counts_def)
qed

text \<open>
  \<open>to_vec\<close> writes within its vector and leaves no byte of it unwritten, and so does \<open>to_vec_padded\<close>; what \<open>from_slice\<close> makes of
  the bytes is the absolute value.
\<close>

lemma bytes_round_trip:
  assumes "bn_counts B" "bn_reads B" "bn_fits n"
  shows "bn_to_vec B n = Some (map Some (BN_bn2bin B n))"
    "bn_from_slice B (BN_bn2bin B n) s q = (Ok v, s', q') \<Longrightarrow> v = \<bar>n\<bar>"
    "bn_from_slice B (BN_bn2bin B n) s q \<noteq> (Panicked p, s', q')"
proof -
  show "bn_to_vec B n = Some (map Some (BN_bn2bin B n))"
    using num_bytes_exact[OF assms(1,3)] by (simp add: bn_to_vec_def set_len_after_def)
  have len: "length (BN_bn2bin B n) \<le> c_int_max" and be: "of_be (BN_bn2bin B n) = \<bar>n\<bar>"
    using assms(1,3) unfolding bn_counts_def c_int_max_def by fastforce+
  show "v = \<bar>n\<bar>" if "bn_from_slice B (BN_bn2bin B n) s q = (Ok v, s', q')"
    using that be assms(2) unfolding bn_reads_def
    by (auto simp: bn_from_slice_def eff_ok ecvt_p_def cvt_p_def fail_stack_def split: prod.splits option.splits sum.splits)
  show "bn_from_slice B (BN_bn2bin B n) s q \<noteq> (Panicked p, s', q')"
    using len by (auto simp: bn_from_slice_def eff_panic eassert_def)
qed

lemma padded_bytes:
  assumes "bn_counts B" "bn_pads B" "bn_fits n" "bn_to_vec_padded B n k s q = (Ok w, s', q')"
  shows "\<exists>bs. w = Some (map Some bs) \<and> length bs = k \<and> of_be bs = \<bar>n\<bar>"
proof -
  obtain r bs q1 where call: "BN_bn2bin_padded B k n q = ((r, bs), q1)" by (metis prod.collapse)
  then have r: "0 < r" and w: "w = set_len_after k bs"
    using assms(4) by (auto simp: bn_to_vec_padded_def cvt_def fail_stack_def split: prod.splits if_splits)
  then have "bs = replicate (k - length (BN_bn2bin B n)) 0 @ BN_bn2bin B n" "length (BN_bn2bin B n) \<le> k"
    using assms(2,3) call unfolding bn_pads_def by blast+
  then have "length bs = k" "of_be bs = \<bar>n\<bar>"
    using assms(1,3) by (simp_all add: of_be_zeros bn_counts_def)
  then show ?thesis using w by (simp add: set_len_after_def)
qed

section \<open>Decimal text\<close>

text \<open>\<open>BN_dec2bn\<close> reads the leading decimal number and returns how many characters it read, which is all that is checked.\<close>

definition leading_digits :: "string \<Rightarrow> string" where
  "leading_digits s = takeWhile (\<lambda>c. c \<in> set ''0123456789'') s"

definition dec_spec :: "bn_api \<Rightarrow> bool" where
  "dec_spec B \<longleftrightarrow>
     (\<forall>s t q. leading_digits s = leading_digits t \<longrightarrow> leading_digits s \<noteq> [] \<longrightarrow> BN_dec2bn B s q = BN_dec2bn B t q)"

lemma dec_str_ignores_rest:
  assumes "dec_spec B" "set digits \<subseteq> set ''0123456789''" "digits \<noteq> []" "c \<notin> set ''0123456789''"
    "CHR 0x00 \<notin> set (c # rest)"
  shows "bn_from_dec_str B (digits @ c # rest) s q = bn_from_dec_str B digits s q"
proof -
  have lead: "leading_digits (digits @ c # rest) = digits" "leading_digits digits = digits"
    using assms(2,4) unfolding leading_digits_def by (simp_all add: takeWhile_eq_all_conv takeWhile_append subset_iff)
  have "CHR 0x00 \<notin> set digits" using assms(2) by auto
  moreover have "BN_dec2bn B (digits @ c # rest) = BN_dec2bn B digits"
    using assms(1,3) lead unfolding dec_spec_def by (intro ext) metis
  ultimately show ?thesis using assms(5) by (simp add: bn_from_dec_str_def ecstring_def)
qed

section \<open>An instance\<close>

definition ok_bn :: "int \<Rightarrow> bn_call" where
  "ok_bn v q = ((1, v), q)"

definition sample_bn :: bn_api where
  "sample_bn = 
    \<lparr>bn_err_lib_none = 1,
     BN_CTX_new = \<lambda>q. (Some (), q),
     BN_new = \<lambda>q. (Some 0, q),
     BN_dup = \<lambda>n q. (Some n, q),
     BN_clear = \<lambda>_. 0,
     BN_set_word = \<lambda>w. ok_bn (uint w),
     BN_add_word = \<lambda>s w. ok_bn (s + uint w),
     BN_sub_word = \<lambda>s w. ok_bn (s - uint w),
     BN_mul_word = \<lambda>s w. ok_bn (s * uint w),
     BN_div_word = \<lambda>s w q. ((word_of_int (s mod uint w), s div uint w), q),
     BN_mod_word = \<lambda>s w q. (word_of_int (s mod uint w), q),
     BN_rand_range = \<lambda>_. ok_bn 0,
     BN_pseudo_rand_range = \<lambda>_. ok_bn 0,
     BN_rand = \<lambda>_ _ _. ok_bn 0,
     BN_pseudo_rand = \<lambda>_ _ _. ok_bn 0,
     BN_generate_prime_ex = \<lambda>_ _ _ _. ok_bn 0,
     BN_set_bit = \<lambda>_ _. ok_bn 0,
     BN_clear_bit = \<lambda>_ _. ok_bn 0,
     BN_mask_bits = \<lambda>_ _. ok_bn 0,
     BN_is_bit_set = \<lambda>s n. of_bool_c (bit s (nat n)),
     BN_lshift1 = \<lambda>a. ok_bn (2 * a),
     BN_rshift1 = \<lambda>a. ok_bn (a sdiv 2),
     BN_lshift = \<lambda>a n q. ((of_bool_c (0 \<le> n), a * 2 ^ nat n), q),
     BN_rshift = \<lambda>a n q. ((of_bool_c (0 \<le> n), a sdiv 2 ^ nat n), q),
     BN_add = \<lambda>a b. ok_bn (a + b),
     BN_sub = \<lambda>a b. ok_bn (a - b),
     BN_mul = \<lambda>a b. ok_bn (a * b),
     BN_div = \<lambda>a b q. ((of_bool_c (b \<noteq> 0), a sdiv b, a smod b), q),
     BN_sqr = \<lambda>a. ok_bn (a * a),
     BN_nnmod = \<lambda>a m. ok_bn (a mod m),
     BN_mod_add = \<lambda>a b m. ok_bn ((a + b) mod m),
     BN_mod_sub = \<lambda>a b m. ok_bn ((a - b) mod m),
     BN_mod_mul = \<lambda>a b m. ok_bn (a * b mod m),
     BN_mod_sqr = \<lambda>a m. ok_bn (a * a mod m),
     BN_exp = \<lambda>a p. ok_bn (a ^ nat p),
     BN_mod_exp = \<lambda>a p m. ok_bn (a ^ nat p mod m),
     BN_gcd = \<lambda>a b. ok_bn (gcd a b),
     BN_mod_inverse = \<lambda>_ _ q. (None, q),
     BN_mod_sqrt = \<lambda>_ _ q. (None, q),
     BN_is_prime_ex = \<lambda>_ _ q. (0, q),
     BN_is_prime_fasttest_ex = \<lambda>_ _ _ q. (0, q),
     BN_set_negative = \<lambda>n s. if s \<noteq> 0 then - \<bar>n\<bar> else \<bar>n\<bar>,
     BN_is_negative = \<lambda>n. of_bool_c (n < 0),
     BN_is_odd = \<lambda>n. of_bool_c (n mod 2 = 1),
     BN_cmp = \<lambda>a b. sgn (a - b),
     BN_ucmp = \<lambda>a b. sgn (\<bar>a\<bar> - \<bar>b\<bar>),
     BN_num_bits = \<lambda>_. 0,
     BN_bn2bin = \<lambda>_. [],
     BN_bn2bin_padded = \<lambda>_ _ q. ((0, []), q),
     BN_bin2bn = \<lambda>bs q. (Some (of_be bs), q),
     BN_bn2dec = \<lambda>_ q. (None, q),
     BN_bn2hex = \<lambda>_ q. (None, q),
     BN_dec2bn = \<lambda>_. ok_bn 0,
     BN_hex2bn = \<lambda>_. ok_bn 0,
     BN_to_ASN1_INTEGER = \<lambda>n q. (Some n, q)\<rparr>"

lemma sample_bn_ok: "bn_arith sample_bn" "bn_memory sample_bn"
  by (simp_all add: bn_arith_def bn_sums_def bn_divides_def bn_shifts_def bn_signs_def bn_memory_def sample_bn_def
      ok_bn_def of_bool_c_def)

theorem operators_are_integer_arithmetic_witness:
  "\<exists>q'. bn_run sample_bn (Sum (Product (Quotient (Number (-7)) (Number 2)) (Number 2)) (Negated (Number 1))) () [] =
     (Ok (-7), (), q') \<and>
   (\<exists>p q'. bn_run sample_bn (Remainder (Number 1) (Number 0)) () [] = (Panicked p, (), q'))"
proof -
  let ?e = "Sum (Product (Quotient (Number (-7)) (Number 2)) (Number 2)) (Negated (Number 1))"
  obtain r q1 where r: "bn_run sample_bn ?e () [] = (r, (), q1)" by (metis (full_types) old.unit.exhaust prod.collapse)
  obtain r2 q2 where r2: "bn_run sample_bn (Remainder (Number 1) (Number 0)) () [] = (r2, (), q2)"
    by (metis (full_types) old.unit.exhaust prod.collapse)
  have "r = Ok (-7)"
    using operators_are_integer_arithmetic[OF sample_bn_ok(1) r] sample_bn_ok(2) by (cases r) (simp_all add: value2_def)
  moreover have "\<exists>p. r2 = Panicked p"
    using operators_are_integer_arithmetic[OF sample_bn_ok(1) r2] by (cases r2) (simp_all add: value2_def)
  ultimately show ?thesis using r r2 by auto
qed

end
