(* ===== verification/Key_Ops.thy ===== *)
theory Key_Ops
  imports Bn Kdf
begin

text \<open>
  Operations of keys: \<open>btls/src/rsa.rs\<close>, \<open>dsa.rs\<close>, \<open>pkey.rs\<close>, \<open>ec.rs\<close> and \<open>ecdsa.rs\<close>. The keys, groups and points of
  BoringSSL are values of parameter types. A function that gets a pointer to a slice says what it writes there, and a
  slice is a pair with whether something wrote beyond it, as in \<open>Kdf\<close>.
\<close>

text \<open>\<open>cvt_n\<close> of a call that fills a slice, and \<open>cvt\<close> of one that writes the object behind \<open>&mut self\<close>.\<close>

definition efill_n :: "(err_queue \<Rightarrow> (int \<times> byte list) \<times> err_queue) \<Rightarrow> nat filling" where
  "efill_n f = (\<lambda>(out, over) q.
     (case f q of ((r, bs), q1) \<Rightarrow>
        (case cvt_n r q1 of
           (Inl es, q2) \<Rightarrow> (Err es, (fst (written_to out bs), over \<or> snd (written_to out bs)), q2)
         | (Inr n, q2) \<Rightarrow> (Ok (nat n), (fst (written_to out bs), over \<or> snd (written_to out bs)), q2))))"

definition out_cvt :: "(err_queue \<Rightarrow> (int \<times> 's) \<times> err_queue) \<Rightarrow> ('s, unit) eff" where
  "out_cvt f = ecvt (\<lambda>s q. case f q of ((r, v), q') \<Rightarrow> ((r, ()), v, q'))"

section \<open>RSA and DSA\<close>

type_synonym 'r rsa_call = "'r \<Rightarrow> byte list \<Rightarrow> int \<Rightarrow> err_queue \<Rightarrow> (int \<times> byte list) \<times> err_queue"

record 'r rsa_api =
  RSA_size :: "'r \<Rightarrow> 32 word"
  RSA_private_decrypt :: "'r rsa_call"
  RSA_private_encrypt :: "'r rsa_call"
  RSA_public_decrypt :: "'r rsa_call"
  RSA_public_encrypt :: "'r rsa_call"
  RSA_get0_key :: "'r \<Rightarrow> int option \<times> int option \<times> int option"
  RSA_get0_factors :: "'r \<Rightarrow> int option \<times> int option"
  RSA_get0_crt_params :: "'r \<Rightarrow> int option \<times> int option \<times> int option"
  RSA_check_key :: "'r \<Rightarrow> err_queue \<Rightarrow> int \<times> err_queue"

definition rsa_size :: "'r rsa_api \<Rightarrow> 'r \<Rightarrow> nat" where
  "rsa_size R k = unat (RSA_size R k)"

text \<open>The assertions before each call.\<close>

definition rsa_asserts :: "'r rsa_api \<Rightarrow> 'r \<Rightarrow> byte list \<Rightarrow> unit filling" where
  "rsa_asserts R k inp =
     ethen (eassert (length inp \<le> c_int_max) ''assertion failed: i32::try_from(from.len()).is_ok()'')
       (ebind (eget (\<lambda>s. length (fst s))) (\<lambda>n.
          eassert (rsa_size R k \<le> n) ''assertion failed: to.len() >= self.size() as usize''))"

definition private_decrypt :: "'r rsa_api \<Rightarrow> 'r \<Rightarrow> byte list \<Rightarrow> int \<Rightarrow> nat filling" where
  "private_decrypt R k inp padding = ethen (rsa_asserts R k inp) (efill_n (RSA_private_decrypt R k inp padding))"

definition private_encrypt :: "'r rsa_api \<Rightarrow> 'r \<Rightarrow> byte list \<Rightarrow> int \<Rightarrow> nat filling" where
  "private_encrypt R k inp padding = ethen (rsa_asserts R k inp) (efill_n (RSA_private_encrypt R k inp padding))"

definition public_decrypt :: "'r rsa_api \<Rightarrow> 'r \<Rightarrow> byte list \<Rightarrow> int \<Rightarrow> nat filling" where
  "public_decrypt R k inp padding = ethen (rsa_asserts R k inp) (efill_n (RSA_public_decrypt R k inp padding))"

definition public_encrypt :: "'r rsa_api \<Rightarrow> 'r \<Rightarrow> byte list \<Rightarrow> int \<Rightarrow> nat filling" where
  "public_encrypt R k inp padding = ethen (rsa_asserts R k inp) (efill_n (RSA_public_encrypt R k inp padding))"

text \<open>The parts of a key; \<open>None\<close> is a null pointer.\<close>

definition rsa_n :: "'r rsa_api \<Rightarrow> 'r \<Rightarrow> int option" where
  "rsa_n R k = fst (RSA_get0_key R k)"

definition rsa_e :: "'r rsa_api \<Rightarrow> 'r \<Rightarrow> int option" where
  "rsa_e R k = fst (snd (RSA_get0_key R k))"

definition rsa_d :: "'r rsa_api \<Rightarrow> 'r \<Rightarrow> int option" where
  "rsa_d R k = snd (snd (RSA_get0_key R k))"

definition rsa_p :: "'r rsa_api \<Rightarrow> 'r \<Rightarrow> int option" where
  "rsa_p R k = fst (RSA_get0_factors R k)"

definition rsa_q :: "'r rsa_api \<Rightarrow> 'r \<Rightarrow> int option" where
  "rsa_q R k = snd (RSA_get0_factors R k)"

definition rsa_dmp1 :: "'r rsa_api \<Rightarrow> 'r \<Rightarrow> int option" where
  "rsa_dmp1 R k = fst (RSA_get0_crt_params R k)"

definition rsa_dmq1 :: "'r rsa_api \<Rightarrow> 'r \<Rightarrow> int option" where
  "rsa_dmq1 R k = fst (snd (RSA_get0_crt_params R k))"

definition rsa_iqmp :: "'r rsa_api \<Rightarrow> 'r \<Rightarrow> int option" where
  "rsa_iqmp R k = snd (snd (RSA_get0_crt_params R k))"

text \<open>Only -1 is an error here.\<close>

definition rsa_check_key :: "'r rsa_api \<Rightarrow> 'r \<Rightarrow> ('u, bool) eff" where
  "rsa_check_key R k s q =
     (case RSA_check_key R k q of (result, q1) \<Rightarrow>
        if result = -1 then (case error_stack_get q1 of (es, q2) \<Rightarrow> (Err es, s, q2)) else (Ok (result = 1), s, q1))"

record 'd dsa_key_api =
  DSA_size :: "'d \<Rightarrow> 32 word"
  DSA_get0_key :: "'d \<Rightarrow> int option \<times> int option"
  DSA_get0_pqg :: "'d \<Rightarrow> int option \<times> int option \<times> int option"

definition dsa_key_size :: "'d dsa_key_api \<Rightarrow> 'd \<Rightarrow> nat" where
  "dsa_key_size D k = unat (DSA_size D k)"

definition dsa_pub_key :: "'d dsa_key_api \<Rightarrow> 'd \<Rightarrow> int option" where
  "dsa_pub_key D k = fst (DSA_get0_key D k)"

definition dsa_priv_key :: "'d dsa_key_api \<Rightarrow> 'd \<Rightarrow> int option" where
  "dsa_priv_key D k = snd (DSA_get0_key D k)"

definition dsa_p :: "'d dsa_key_api \<Rightarrow> 'd \<Rightarrow> int option" where
  "dsa_p D k = fst (DSA_get0_pqg D k)"

definition dsa_q :: "'d dsa_key_api \<Rightarrow> 'd \<Rightarrow> int option" where
  "dsa_q D k = fst (snd (DSA_get0_pqg D k))"

definition dsa_g :: "'d dsa_key_api \<Rightarrow> 'd \<Rightarrow> int option" where
  "dsa_g D k = snd (snd (DSA_get0_pqg D k))"

section \<open>Keys of any type\<close>

text \<open>\<open>EVP_PKEY_get_raw_*\<close> gets a buffer with its size, or neither, and returns the size with what it wrote.\<close>

record ('k, 'x) pkey_api =
  EVP_PKEY_RSA :: int
  EVP_PKEY_RSA_PSS :: int
  EVP_PKEY_DSA :: int
  EVP_PKEY_DH :: int
  EVP_PKEY_EC :: int
  EVP_PKEY_ED25519 :: int
  EVP_PKEY_ED448 :: int
  EVP_PKEY_id :: "'k \<Rightarrow> int"
  EVP_PKEY_size :: "'k \<Rightarrow> 32 word"
  EVP_PKEY_bits :: "'k \<Rightarrow> 32 word"
  EVP_PKEY_cmp :: "'k \<Rightarrow> 'k \<Rightarrow> int"
  EVP_PKEY_get1_RSA :: "'k \<Rightarrow> err_queue \<Rightarrow> 'x option \<times> err_queue"
  EVP_PKEY_get1_DSA :: "'k \<Rightarrow> err_queue \<Rightarrow> 'x option \<times> err_queue"
  EVP_PKEY_get1_DH :: "'k \<Rightarrow> err_queue \<Rightarrow> 'x option \<times> err_queue"
  EVP_PKEY_get1_EC_KEY :: "'k \<Rightarrow> err_queue \<Rightarrow> 'x option \<times> err_queue"
  EVP_PKEY_get_raw_public_key :: "'k \<Rightarrow> nat option \<Rightarrow> err_queue \<Rightarrow> (int \<times> nat \<times> byte list) \<times> err_queue"
  EVP_PKEY_get_raw_private_key :: "'k \<Rightarrow> nat option \<Rightarrow> err_queue \<Rightarrow> (int \<times> nat \<times> byte list) \<times> err_queue"

definition pkey_rsa :: "('k, 'x) pkey_api \<Rightarrow> 'k \<Rightarrow> ('u, 'x) eff" where
  "pkey_rsa K k = ecvt_p (EVP_PKEY_get1_RSA K k)"

definition pkey_dsa :: "('k, 'x) pkey_api \<Rightarrow> 'k \<Rightarrow> ('u, 'x) eff" where
  "pkey_dsa K k = ecvt_p (EVP_PKEY_get1_DSA K k)"

definition pkey_dh :: "('k, 'x) pkey_api \<Rightarrow> 'k \<Rightarrow> ('u, 'x) eff" where
  "pkey_dh K k = ecvt_p (EVP_PKEY_get1_DH K k)"

definition pkey_ec_key :: "('k, 'x) pkey_api \<Rightarrow> 'k \<Rightarrow> ('u, 'x) eff" where
  "pkey_ec_key K k = ecvt_p (EVP_PKEY_get1_EC_KEY K k)"

definition pkey_id :: "('k, 'x) pkey_api \<Rightarrow> 'k \<Rightarrow> int" where
  "pkey_id K k = EVP_PKEY_id K k"

definition pkey_size :: "('k, 'x) pkey_api \<Rightarrow> 'k \<Rightarrow> nat" where
  "pkey_size K k = nat (sint (EVP_PKEY_size K k) mod 2 ^ 64)"

definition pkey_bits :: "('k, 'x) pkey_api \<Rightarrow> 'k \<Rightarrow> nat" where
  "pkey_bits K k = unat (EVP_PKEY_bits K k)"

definition pkey_public_eq :: "('k, 'x) pkey_api \<Rightarrow> 'k \<Rightarrow> 'k \<Rightarrow> bool" where
  "pkey_public_eq K k other \<longleftrightarrow> EVP_PKEY_cmp K k other = 1"

text \<open>The name that \<open>Debug\<close> prints; an arm of the \<open>match\<close> is taken in order.\<close>

definition pkey_debug :: "('k, 'x) pkey_api \<Rightarrow> 'k \<Rightarrow> string" where
  "pkey_debug K k =
     (let i = pkey_id K k in
      if i = EVP_PKEY_RSA K then ''RSA''
      else if i = EVP_PKEY_RSA_PSS K then ''RSAPSS''
      else if i = EVP_PKEY_DSA K then ''DSA''
      else if i = EVP_PKEY_DH K then ''DH''
      else if i = EVP_PKEY_EC K then ''EC''
      else if i = EVP_PKEY_ED25519 K then ''Ed25519''
      else if i = EVP_PKEY_ED448 K then ''Ed448''
      else ''unknown'')"

definition raw_len :: "(nat option \<Rightarrow> err_queue \<Rightarrow> (int \<times> nat \<times> byte list) \<times> err_queue) \<Rightarrow> ('u, nat) eff" where
  "raw_len f s q =
     (case f None q of ((r, n, _), q1) \<Rightarrow>
       (case cvt_0i r q1 of (Inl es, q2) \<Rightarrow> (Err es, s, q2) | (Inr _, q2) \<Rightarrow> (Ok n, s, q2)))"

text \<open>\<open>&out[..size]\<close> panics if the size is too large.\<close>

definition raw_key :: "(nat option \<Rightarrow> err_queue \<Rightarrow> (int \<times> nat \<times> byte list) \<times> err_queue) \<Rightarrow> byte list filling" where
  "raw_key f = (\<lambda>(out, over) q.
     (case f (Some (length out)) q of ((r, n, bs), q1) \<Rightarrow>
       (case written_to out bs of (out', ovr) \<Rightarrow>
         (case cvt_0i r q1 of
            (Inl es, q2) \<Rightarrow> (Err es, (out', over \<or> ovr), q2)
          | (Inr _, q2) \<Rightarrow>
              (if n \<le> length out' then (Ok (take n out'), (out', over \<or> ovr), q2)
               else (Panicked ''range end index out of range'', (out', over \<or> ovr), q2))))))"

definition raw_public_key_len :: "('k, 'x) pkey_api \<Rightarrow> 'k \<Rightarrow> ('u, nat) eff" where
  "raw_public_key_len K k = raw_len (EVP_PKEY_get_raw_public_key K k)"

definition raw_public_key :: "('k, 'x) pkey_api \<Rightarrow> 'k \<Rightarrow> byte list filling" where
  "raw_public_key K k = raw_key (EVP_PKEY_get_raw_public_key K k)"

definition raw_private_key_len :: "('k, 'x) pkey_api \<Rightarrow> 'k \<Rightarrow> ('u, nat) eff" where
  "raw_private_key_len K k = raw_len (EVP_PKEY_get_raw_private_key K k)"

definition raw_private_key :: "('k, 'x) pkey_api \<Rightarrow> 'k \<Rightarrow> byte list filling" where
  "raw_private_key K k = raw_key (EVP_PKEY_get_raw_private_key K k)"

section \<open>Curves, points and their keys\<close>

type_synonym 'p point_call = "err_queue \<Rightarrow> (int \<times> 'p) \<times> err_queue"

record ('g, 'p, 'e, 's) ec_api =
  EC_GROUP_new_by_curve_name :: "int \<Rightarrow> err_queue \<Rightarrow> 'g option \<times> err_queue"
  EC_GROUP_get_curve_GFp :: "'g \<Rightarrow> (int \<times> int \<times> int) point_call"
  EC_GROUP_get_cofactor :: "'g \<Rightarrow> int point_call"
  EC_GROUP_get_order :: "'g \<Rightarrow> int point_call"
  EC_GROUP_get_degree :: "'g \<Rightarrow> 32 word"
  EC_GROUP_order_bits :: "'g \<Rightarrow> 32 word"
  EC_GROUP_get0_generator :: "'g \<Rightarrow> 'p option"
  EC_GROUP_get_asn1_flag :: "'g \<Rightarrow> int"
  EC_GROUP_get_curve_name :: "'g \<Rightarrow> int"
  EC_POINT_new :: "'g \<Rightarrow> err_queue \<Rightarrow> 'p option \<times> err_queue"
  EC_POINT_dup :: "'p \<Rightarrow> 'g \<Rightarrow> err_queue \<Rightarrow> 'p option \<times> err_queue"
  EC_POINT_add :: "'g \<Rightarrow> 'p \<Rightarrow> 'p \<Rightarrow> 'p point_call"
  EC_POINT_mul :: "'g \<Rightarrow> int option \<Rightarrow> 'p option \<Rightarrow> int option \<Rightarrow> 'p point_call"
  EC_POINT_invert :: "'g \<Rightarrow> 'p \<Rightarrow> 'p point_call"
  EC_POINT_point2oct :: "'g \<Rightarrow> 'p \<Rightarrow> int \<Rightarrow> nat option \<Rightarrow> err_queue \<Rightarrow> (nat \<times> byte list) \<times> err_queue"
  EC_POINT_oct2point :: "'g \<Rightarrow> byte list \<Rightarrow> 'p \<Rightarrow> 'p point_call"
  EC_POINT_cmp :: "'g \<Rightarrow> 'p \<Rightarrow> 'p \<Rightarrow> err_queue \<Rightarrow> int \<times> err_queue"
  EC_POINT_get_affine_coordinates_GFp :: "'g \<Rightarrow> 'p \<Rightarrow> (int \<times> int) point_call"
  EC_POINT_get_affine_coordinates :: "'g \<Rightarrow> 'p \<Rightarrow> (int \<times> int) point_call"
  EC_POINT_is_at_infinity :: "'g \<Rightarrow> 'p \<Rightarrow> int"
  EC_POINT_is_on_curve :: "'g \<Rightarrow> 'p \<Rightarrow> err_queue \<Rightarrow> int \<times> err_queue"
  EC_KEY_get0_private_key :: "'e \<Rightarrow> int option"
  EC_KEY_get0_public_key :: "'e \<Rightarrow> 'p option"
  EC_KEY_get0_group :: "'e \<Rightarrow> 'g option"
  EC_KEY_check_key :: "'e \<Rightarrow> err_queue \<Rightarrow> int \<times> err_queue"
  ECDSA_do_sign :: "byte list \<Rightarrow> 'e \<Rightarrow> err_queue \<Rightarrow> 's option \<times> err_queue"
  ECDSA_do_verify :: "byte list \<Rightarrow> 's \<Rightarrow> 'e \<Rightarrow> err_queue \<Rightarrow> int \<times> err_queue"
  ECDSA_SIG_get0 :: "'s \<Rightarrow> int option \<times> int option"

definition group_from_curve_name :: "('g, 'p, 'e, 's) ec_api \<Rightarrow> int \<Rightarrow> ('u, 'g) eff" where
  "group_from_curve_name E nid = ecvt_p (EC_GROUP_new_by_curve_name E nid)"

definition components_gfp :: "('g, 'p, 'e, 's) ec_api \<Rightarrow> 'g \<Rightarrow> (int \<times> int \<times> int, unit) eff" where
  "components_gfp E g = out_cvt (EC_GROUP_get_curve_GFp E g)"

definition group_cofactor :: "('g, 'p, 'e, 's) ec_api \<Rightarrow> 'g \<Rightarrow> (int, unit) eff" where
  "group_cofactor E g = out_cvt (EC_GROUP_get_cofactor E g)"

definition group_degree :: "('g, 'p, 'e, 's) ec_api \<Rightarrow> 'g \<Rightarrow> nat" where
  "group_degree E g = unat (EC_GROUP_get_degree E g)"

definition group_order_bits :: "('g, 'p, 'e, 's) ec_api \<Rightarrow> 'g \<Rightarrow> nat" where
  "group_order_bits E g = unat (EC_GROUP_order_bits E g)"

definition group_generator :: "('g, 'p, 'e, 's) ec_api \<Rightarrow> 'g \<Rightarrow> 'p option" where
  "group_generator E g = EC_GROUP_get0_generator E g"

definition group_order :: "('g, 'p, 'e, 's) ec_api \<Rightarrow> 'g \<Rightarrow> (int, unit) eff" where
  "group_order E g = out_cvt (EC_GROUP_get_order E g)"

definition group_asn1_flag :: "('g, 'p, 'e, 's) ec_api \<Rightarrow> 'g \<Rightarrow> int" where
  "group_asn1_flag E g = EC_GROUP_get_asn1_flag E g"

definition group_curve_name :: "('g, 'p, 'e, 's) ec_api \<Rightarrow> 'g \<Rightarrow> int option" where
  "group_curve_name E g = (let nid = EC_GROUP_get_curve_name E g in if 0 < nid then Some nid else None)"

text \<open>A null pointer stands for a product that is not wanted.\<close>

definition point_add :: "('g, 'p, 'e, 's) ec_api \<Rightarrow> 'g \<Rightarrow> 'p \<Rightarrow> 'p \<Rightarrow> ('p, unit) eff" where
  "point_add E g a b = out_cvt (EC_POINT_add E g a b)"

definition point_mul :: "('g, 'p, 'e, 's) ec_api \<Rightarrow> 'g \<Rightarrow> 'p \<Rightarrow> int \<Rightarrow> ('p, unit) eff" where
  "point_mul E g p m = out_cvt (EC_POINT_mul E g None (Some p) (Some m))"

definition point_mul_generator :: "('g, 'p, 'e, 's) ec_api \<Rightarrow> 'g \<Rightarrow> int \<Rightarrow> ('p, unit) eff" where
  "point_mul_generator E g n = out_cvt (EC_POINT_mul E g (Some n) None None)"

definition point_mul_full :: "('g, 'p, 'e, 's) ec_api \<Rightarrow> 'g \<Rightarrow> int \<Rightarrow> 'p \<Rightarrow> int \<Rightarrow> ('p, unit) eff" where
  "point_mul_full E g n p m = out_cvt (EC_POINT_mul E g (Some n) (Some p) (Some m))"

definition point_invert :: "('g, 'p, 'e, 's) ec_api \<Rightarrow> 'g \<Rightarrow> ('p, unit) eff" where
  "point_invert E g = ebind (eget id) (\<lambda>p. out_cvt (EC_POINT_invert E g p))"

text \<open>The first call asks for the length, the second fills a vector of that length; 0 is an error of either.\<close>

definition fail_now :: "('u, 'a) eff" where
  "fail_now s q = (case error_stack_get q of (es, q') \<Rightarrow> (Err es, s, q'))"

definition point_to_bytes :: "('g, 'p, 'e, 's) ec_api \<Rightarrow> 'g \<Rightarrow> 'p \<Rightarrow> int \<Rightarrow> ('u, byte list \<times> bool) eff" where
  "point_to_bytes E g p form s q =
     (case EC_POINT_point2oct E g p form None q of ((len, _), q1) \<Rightarrow>
        if len = 0 then fail_now s q1
        else
          (case EC_POINT_point2oct E g p form (Some len) q1 of ((len', bs), q2) \<Rightarrow>
             if len' = 0 then fail_now s q2 else (Ok (written_to (replicate len 0) bs), s, q2)))"

definition point_to_owned :: "('g, 'p, 'e, 's) ec_api \<Rightarrow> 'p \<Rightarrow> 'g \<Rightarrow> ('u, 'p) eff" where
  "point_to_owned E p g = ecvt_p (EC_POINT_dup E p g)"

definition point_eq :: "('g, 'p, 'e, 's) ec_api \<Rightarrow> 'g \<Rightarrow> 'p \<Rightarrow> 'p \<Rightarrow> ('u, bool) eff" where
  "point_eq E g p other = ebind (ecvt_n (EC_POINT_cmp E g p other)) (\<lambda>res. eret (res = 0))"

definition affine_coordinates_gfp :: "('g, 'p, 'e, 's) ec_api \<Rightarrow> 'g \<Rightarrow> 'p \<Rightarrow> (int \<times> int, unit) eff" where
  "affine_coordinates_gfp E g p = out_cvt (EC_POINT_get_affine_coordinates_GFp E g p)"

definition affine_coordinates :: "('g, 'p, 'e, 's) ec_api \<Rightarrow> 'g \<Rightarrow> 'p \<Rightarrow> (int \<times> int, unit) eff" where
  "affine_coordinates E g p = out_cvt (EC_POINT_get_affine_coordinates E g p)"

definition is_infinity :: "('g, 'p, 'e, 's) ec_api \<Rightarrow> 'g \<Rightarrow> 'p \<Rightarrow> bool" where
  "is_infinity E g p \<longleftrightarrow> EC_POINT_is_at_infinity E g p = 1"

definition is_on_curve :: "('g, 'p, 'e, 's) ec_api \<Rightarrow> 'g \<Rightarrow> 'p \<Rightarrow> ('u, bool) eff" where
  "is_on_curve E g p = ebind (ecvt_n (EC_POINT_is_on_curve E g p)) (\<lambda>res. eret (res = 1))"

definition point_new :: "('g, 'p, 'e, 's) ec_api \<Rightarrow> 'g \<Rightarrow> ('u, 'p) eff" where
  "point_new E g = ecvt_p (EC_POINT_new E g)"

definition point_from_bytes :: "('g, 'p, 'e, 's) ec_api \<Rightarrow> 'g \<Rightarrow> byte list \<Rightarrow> ('u, 'p) eff" where
  "point_from_bytes E g buf =
     ebind (point_new E g) (\<lambda>point s q.
       case out_cvt (EC_POINT_oct2point E g buf point) point q of
         (Ok _, p, q') \<Rightarrow> (Ok p, s, q') | (Err es, _, q') \<Rightarrow> (Err es, s, q') | (Panicked x, _, q') \<Rightarrow> (Panicked x, s, q'))"

definition ec_private_key :: "('g, 'p, 'e, 's) ec_api \<Rightarrow> 'e \<Rightarrow> int option" where
  "ec_private_key E k = EC_KEY_get0_private_key E k"

definition ec_public_key :: "('g, 'p, 'e, 's) ec_api \<Rightarrow> 'e \<Rightarrow> 'p option" where
  "ec_public_key E k = EC_KEY_get0_public_key E k"

definition ec_group :: "('g, 'p, 'e, 's) ec_api \<Rightarrow> 'e \<Rightarrow> 'g option" where
  "ec_group E k = EC_KEY_get0_group E k"

definition ec_check_key :: "('g, 'p, 'e, 's) ec_api \<Rightarrow> 'e \<Rightarrow> ('u, unit) eff" where
  "ec_check_key E k = ecvt (\<lambda>s q. case EC_KEY_check_key E k q of (r, q') \<Rightarrow> ((r, ()), s, q'))"

definition ecdsa_assert :: "byte list \<Rightarrow> ('u, unit) eff" where
  "ecdsa_assert data = eassert (length data \<le> c_int_max) ''assertion failed: data.len() <= c_int::MAX as usize''"

definition ecdsa_sign :: "('g, 'p, 'e, 's) ec_api \<Rightarrow> byte list \<Rightarrow> 'e \<Rightarrow> ('u, 's) eff" where
  "ecdsa_sign E data k = ethen (ecdsa_assert data) (ecvt_p (ECDSA_do_sign E data k))"

definition ecdsa_verify :: "('g, 'p, 'e, 's) ec_api \<Rightarrow> 's \<Rightarrow> byte list \<Rightarrow> 'e \<Rightarrow> ('u, bool) eff" where
  "ecdsa_verify E sig data k =
     ethen (ecdsa_assert data) (ebind (ecvt_n (ECDSA_do_verify E data sig k)) (\<lambda>x. eret (x = 1)))"

definition ecdsa_r :: "('g, 'p, 'e, 's) ec_api \<Rightarrow> 's \<Rightarrow> int option" where
  "ecdsa_r E sig = fst (ECDSA_SIG_get0 E sig)"

definition ecdsa_s :: "('g, 'p, 'e, 's) ec_api \<Rightarrow> 's \<Rightarrow> int option" where
  "ecdsa_s E sig = snd (ECDSA_SIG_get0 E sig)"

section \<open>RSA writes within its slices and decrypts what it encrypted\<close>

text \<open>
  \<open>openssl/rsa.h\<close>: each function writes at most \<open>RSA_size\<close> bytes, returns how many or -1, and one of a pair undoes the
  other with the same padding.
\<close>

definition rsa_writes :: "'r rsa_api \<Rightarrow> 'r rsa_call \<Rightarrow> bool" where
  "rsa_writes R f \<longleftrightarrow>
     (\<forall>k m pad q n bs q'. f k m pad q = ((n, bs), q') \<longrightarrow> length bs \<le> rsa_size R k \<and> n \<le> int (length bs))"

definition rsa_undoes :: "'r rsa_call \<Rightarrow> 'r rsa_call \<Rightarrow> bool" where
  "rsa_undoes f g \<longleftrightarrow>
     (\<forall>k m pad q n c q1 q2 n' m' q3. f k m pad q = ((n, c), q1) \<longrightarrow> 0 \<le> n \<longrightarrow>
        g k (take (nat n) c) pad q2 = ((n', m'), q3) \<longrightarrow> 0 \<le> n' \<longrightarrow> take (nat n') m' = m)"

definition rsa_spec :: "'r rsa_api \<Rightarrow> bool" where
  "rsa_spec R \<longleftrightarrow>
     rsa_writes R (RSA_public_encrypt R) \<and> rsa_writes R (RSA_private_decrypt R) \<and>
     rsa_writes R (RSA_private_encrypt R) \<and> rsa_writes R (RSA_public_decrypt R) \<and>
     rsa_undoes (RSA_public_encrypt R) (RSA_private_decrypt R) \<and>
     rsa_undoes (RSA_private_encrypt R) (RSA_public_decrypt R)"

lemma efill_n_ok:
  assumes "efill_n f (out, over) q = (Ok n, (out', over'), q')"
  obtains bs where "f q = ((int n, bs), q')" "out' = fst (written_to out bs)" "over' = (over \<or> snd (written_to out bs))"
proof -
  obtain r bs q1 where f: "f q = ((r, bs), q1)" by (metis prod.collapse)
  show ?thesis
    by (rule that[of bs]) (use assms f in \<open>auto simp: efill_n_def cvt_n_def fail_stack_def split: prod.splits if_splits\<close>)
qed

lemma rsa_asserts_ok:
  "rsa_asserts R k inp s q = (Ok u, s', q') \<longleftrightarrow>
     length inp \<le> c_int_max \<and> rsa_size R k \<le> length (fst s) \<and> s' = s \<and> q' = q"
  by (auto simp: rsa_asserts_def eff_ok)

text \<open>A return of one of the four functions.\<close>

lemma rsa_call_ok:
  assumes "rsa_writes R f" "ethen (rsa_asserts R k inp) (efill_n (f k inp pad)) (out, False) q = (Ok n, (out', over), q')"
  obtains bs where "f k inp pad q = ((int n, bs), q')" "take n out' = take n bs" "n \<le> length out" "length out' = length out"
    "\<not> over"
proof -
  have size: "rsa_size R k \<le> length out" and fill: "efill_n (f k inp pad) (out, False) q = (Ok n, (out', over), q')"
    using assms(2) by (auto simp: ethen_eq_ok rsa_asserts_ok)
  from fill obtain bs where bs: "f k inp pad q = ((int n, bs), q')" "out' = fst (written_to out bs)"
    "over = snd (written_to out bs)" by (rule efill_n_ok) simp
  have "length bs \<le> rsa_size R k" "n \<le> length bs" using assms(1) bs(1) unfolding rsa_writes_def by fastforce+
  then show ?thesis using bs size by (intro that[of bs]) (auto simp: written_to_def)
qed

text \<open>
  Data encrypted with one half of an RSA key is what decryption with the other half returns, in both directions and
  for every slice long enough for the assertions; neither writes beyond its slice, and what is said to have been
  written is part of it.
\<close>

lemma rsa_round_trip:
  assumes "rsa_spec R"
    and "enc = public_encrypt R \<and> dec = private_decrypt R \<or> enc = private_encrypt R \<and> dec = public_decrypt R"
    and "enc k m pad (out, False) q = (Ok n, (out1, over1), q1)"
    and "dec k (take n out1) pad (buf, False) q2 = (Ok n', (buf1, over2), q3)"
  shows "take n' buf1 = m \<and> n \<le> length out \<and> length out1 = length out \<and> n' \<le> length buf \<and> length buf1 = length buf \<and>
    \<not> over1 \<and> \<not> over2"
proof -
  have "\<exists>f g. rsa_writes R f \<and> rsa_writes R g \<and> rsa_undoes f g \<and>
      enc k m pad = ethen (rsa_asserts R k m) (efill_n (f k m pad)) \<and>
      dec k (take n out1) pad = ethen (rsa_asserts R k (take n out1)) (efill_n (g k (take n out1) pad))"
    using assms(2)
  proof
    assume "enc = public_encrypt R \<and> dec = private_decrypt R"
    then show ?thesis using assms(1)
      by (intro exI[of _ "RSA_public_encrypt R"] exI[of _ "RSA_private_decrypt R"])
        (simp add: rsa_spec_def public_encrypt_def private_decrypt_def)
  next
    assume "enc = private_encrypt R \<and> dec = public_decrypt R"
    then show ?thesis using assms(1)
      by (intro exI[of _ "RSA_private_encrypt R"] exI[of _ "RSA_public_decrypt R"])
        (simp add: rsa_spec_def private_encrypt_def public_decrypt_def)
  qed
  then obtain f g where w: "rsa_writes R f" "rsa_writes R g" and u: "rsa_undoes f g"
    and e: "enc k m pad = ethen (rsa_asserts R k m) (efill_n (f k m pad))"
    and d: "dec k (take n out1) pad = ethen (rsa_asserts R k (take n out1)) (efill_n (g k (take n out1) pad))"
    by metis
  from w(1) assms(3)[unfolded e] obtain c where c: "f k m pad q = ((int n, c), q1)" "take n out1 = take n c" "n \<le> length out"
    "length out1 = length out" "\<not> over1" by (rule rsa_call_ok)
  from w(2) assms(4)[unfolded d] obtain p where p: "g k (take n out1) pad q2 = ((int n', p), q3)" "take n' buf1 = take n' p"
    "n' \<le> length buf" "length buf1 = length buf" "\<not> over2" by (rule rsa_call_ok)
  have "take n' p = m" using u c(1,2) p(1) unfolding rsa_undoes_def by (metis nat_int of_nat_0_le_iff)
  then show ?thesis using c p by simp
qed

text \<open>A library for keys of four bytes that pads three bytes with a zero.\<close>

definition zero_pad :: "unit rsa_call" where
  "zero_pad _ m _ q = (if length m = 3 then ((4, 0 # m), q) else ((-1, []), q))"

definition zero_unpad :: "unit rsa_call" where
  "zero_unpad _ c _ q = (if length c = 4 then ((3, tl c), q) else ((-1, []), q))"

definition sample_rsa :: "unit rsa_api" where
  "sample_rsa =
    \<lparr>RSA_size = \<lambda>_. 4, RSA_private_decrypt = zero_unpad, RSA_private_encrypt = zero_pad, RSA_public_decrypt = zero_unpad,
     RSA_public_encrypt = zero_pad, RSA_get0_key = \<lambda>_. (None, None, None), RSA_get0_factors = \<lambda>_. (None, None),
     RSA_get0_crt_params = \<lambda>_. (None, None, None), RSA_check_key = \<lambda>_ q. (1, q)\<rparr>"

lemma zero_pad_cases:
  "zero_pad u m pad q = ((n, c), q') \<Longrightarrow> (n, c) = (4, 0 # m) \<and> length m = 3 \<or> (n, c) = (-1, [])"
  "zero_unpad u m pad q = ((n, c), q') \<Longrightarrow> (n, c) = (3, tl m) \<and> length m = 4 \<or> (n, c) = (-1, [])"
  by (simp_all add: zero_pad_def zero_unpad_def split: if_split_asm)

lemma sample_rsa_ok: "rsa_spec sample_rsa"
proof -
  have size: "rsa_size sample_rsa k = 4" for k by (simp add: rsa_size_def sample_rsa_def)
  have "rsa_writes sample_rsa zero_pad" "rsa_writes sample_rsa zero_unpad"
    unfolding rsa_writes_def size by (intro allI impI, drule zero_pad_cases, elim disjE conjE; simp)+
  moreover have "rsa_undoes zero_pad zero_unpad"
    unfolding rsa_undoes_def
    by (intro allI impI, drule zero_pad_cases(1), drule zero_pad_cases(2), elim disjE conjE; simp)
  ultimately show ?thesis by (simp add: rsa_spec_def sample_rsa_def)
qed

section \<open>Other operations\<close>

text \<open>An answer of 0 from \<open>RSA_check_key\<close>, with its reason on the queue, is not taken as an error.\<close>

lemma rsa_check_key_keeps_reason:
  "RSA_check_key R k q = (0, q1) \<Longrightarrow> rsa_check_key R k s q = (Ok False, s, q1)"
  by (simp add: rsa_check_key_def)

definition ecdsa_correct :: "('g, 'p, 'e, 's) ec_api \<Rightarrow> bool" where
  "ecdsa_correct E \<longleftrightarrow>
     (\<forall>data k q sig q' q2. ECDSA_do_sign E data k q = (Some sig, q') \<longrightarrow> fst (ECDSA_do_verify E data sig k q2) = 1)"

lemma ecdsa_round_trip:
  assumes "ecdsa_correct E" "ecdsa_sign E data k s q = (Ok sig, s', q')"
  shows "\<exists>q3. ecdsa_verify E sig data k u q2 = (Ok True, u, q3)"
proof -
  have len: "length data \<le> c_int_max" and call: "\<exists>q1. ECDSA_do_sign E data k q = (Some sig, q1)"
    using assms(2)
    by (auto simp: ecdsa_sign_def ecdsa_assert_def eff_ok ecvt_p_def cvt_p_def fail_stack_def
        split: prod.splits option.splits sum.splits)
  obtain q3 where "ECDSA_do_verify E data sig k q2 = (1, q3)"
    using call assms(1) unfolding ecdsa_correct_def by (metis prod.collapse)
  then show ?thesis
    using len by (simp add: ecdsa_verify_def ecdsa_assert_def ethen_def ebind_def eassert_def ecvt_n_def cvt_n_def)
qed

text \<open>The bytes of a point fill the vector, and reading them gives the point back.\<close>

definition octets_spec :: "('g, 'p, 'e, 's) ec_api \<Rightarrow> ('g \<Rightarrow> 'p \<Rightarrow> int \<Rightarrow> byte list) \<Rightarrow> bool" where
  "octets_spec E enc \<longleftrightarrow>
     (\<forall>g p form q n bs q'. EC_POINT_point2oct E g p form None q = ((n, bs), q') \<longrightarrow> n = 0 \<or> n = length (enc g p form)) \<and>
     (\<forall>g p form k q n bs q'. EC_POINT_point2oct E g p form (Some k) q = ((n, bs), q') \<longrightarrow> n \<noteq> 0 \<longrightarrow>
        bs = enc g p form \<and> length bs \<le> k) \<and>
     (\<forall>g p form p0 q r p' q'. EC_POINT_oct2point E g (enc g p form) p0 q = ((r, p'), q') \<longrightarrow> 0 < r \<longrightarrow> p' = p)"

lemma octets_specD:
  assumes "octets_spec E enc"
  shows "EC_POINT_point2oct E g p form None q = ((n, bs), q') \<Longrightarrow> n = 0 \<or> n = length (enc g p form)"
    "EC_POINT_point2oct E g p form (Some k) q = ((n, bs), q') \<Longrightarrow> n = 0 \<or> bs = enc g p form"
    "EC_POINT_oct2point E g (enc g p form) p0 q = ((r, p'), q') \<Longrightarrow> 0 < r \<Longrightarrow> p' = p"
  using assms unfolding octets_spec_def by metis+

lemma point_bytes_round_trip:
  assumes "octets_spec E enc" "point_to_bytes E g p form s q = (Ok (bs, over), s', q')"
  shows "\<not> over" "bs = enc g p form" "point_from_bytes E g bs u q2 = (Ok p', u', q3) \<Longrightarrow> p' = p"
proof -
  obtain n ds q1 where n: "EC_POINT_point2oct E g p form None q = ((n, ds), q1)" by (metis prod.collapse)
  obtain m cs q4 where m: "EC_POINT_point2oct E g p form (Some n) q1 = ((m, cs), q4)" by (metis prod.collapse)
  have "n \<noteq> 0" "m \<noteq> 0" and w: "(bs, over) = written_to (replicate n 0) cs"
    using assms(2) by (auto simp: point_to_bytes_def n m fail_now_def split: if_splits prod.splits)
  then have "n = length (enc g p form)" "cs = enc g p form"
    using octets_specD(1)[OF assms(1) n] octets_specD(2)[OF assms(1) m] by blast+
  then show *: "\<not> over" "bs = enc g p form" using w by (simp_all add: written_to_def)
  show "p' = p" if "point_from_bytes E g bs u q2 = (Ok p', u', q3)"
    using that octets_specD(3)[OF assms(1)] unfolding *(2)
    by (auto simp: point_from_bytes_def ebind_def out_cvt_def ecvt_def cvt_def fail_stack_def
        split: prod.splits eresult.splits if_splits sum.splits)
qed

text \<open>A slice as long as the raw key receives the whole key, and no length makes the function write beyond it.\<close>

definition raw_spec :: "(nat option \<Rightarrow> err_queue \<Rightarrow> (int \<times> nat \<times> byte list) \<times> err_queue) \<Rightarrow> byte list \<Rightarrow> bool" where
  "raw_spec f raw \<longleftrightarrow>
     (\<forall>q r n bs q'. f None q = ((r, n, bs), q') \<longrightarrow> r \<noteq> 0 \<longrightarrow> n = length raw) \<and>
     (\<forall>k q r n bs q'. f (Some k) q = ((r, n, bs), q') \<longrightarrow>
        length bs \<le> k \<and> (r \<noteq> 0 \<longrightarrow> n = length raw \<and> bs = raw \<and> length raw \<le> k))"

lemma raw_key_whole:
  assumes "raw_spec f raw" "raw_key f (out, False) q = (r, (out', over), q')"
  shows "\<not> over" "length out' = length out" "case r of Ok bs \<Rightarrow> bs = raw | Err _ \<Rightarrow> True | Panicked _ \<Rightarrow> False"
proof -
  obtain i n bs q1 where f: "f (Some (length out)) q = ((i, n, bs), q1)" by (metis prod.collapse)
  then have len: "length bs \<le> length out" and ok: "i \<noteq> 0 \<Longrightarrow> n = length raw \<and> bs = raw"
    using assms(1) unfolding raw_spec_def by blast+
  show "\<not> over" "length out' = length out" "case r of Ok bs \<Rightarrow> bs = raw | Err _ \<Rightarrow> True | Panicked _ \<Rightarrow> False"
    using assms(2) len ok
    by (auto simp: raw_key_def f written_to_def cvt_0i_def fail_stack_def split: if_splits prod.splits sum.splits)
qed

end
