(* ===== verification/X509_Gate.thy ===== *)
theory X509_Gate
  imports Effects
begin

text \<open>
  The methods of \<open>SslContextBuilder\<close>, \<open>SslContextRef\<close> and \<open>SslRef\<close> (\<open>btls/src/ssl/mod.rs\<close>) that make one call of
  BoringSSL: which call with which arguments, what becomes of its result, and which of them check first that the context
  was made for X.509 certificates. A context made by \<open>tls_with_buffer\<close> was not, and BoringSSL crashes in a function that
  uses certificates of such a context.

  A context and its connections have the same support (\<open>set_ssl_context\<close> asserts it), so one state serves both. BoringSSL
  is a function of the calls, by their names and arguments.
\<close>

section \<open>Calls\<close>

datatype c_arg = Num int | Null | Obj nat | Bytes "byte list" | Nums "nat list" | Str string

type_synonym c_call = "string \<times> c_arg list"

text \<open>
  An out-parameter or a buffer that a call fills is the value that it returns. \<open>valid_text\<close> is the test of
  \<open>CStr::to_str\<close>.
\<close>

record c_lib =
  ask :: "c_call \<Rightarrow> err_queue \<Rightarrow> c_arg \<times> err_queue"
  valid_text :: "string \<Rightarrow> bool"
  gt_err_lib_none :: "32 word"

text \<open>Whether BoringSSL's method supports X.509, the flag in the context's ex data, and the calls so far.\<close>

record gate =
  g_method_x509 :: bool
  g_flag :: bool
  g_calls :: "c_call list"

abbreviation Flag :: "bool \<Rightarrow> c_arg" where
  "Flag b \<equiv> Num (if b then 1 else 0)"

definition version_arg :: "nat option \<Rightarrow> c_arg" where
  "version_arg v = Num (case v of None \<Rightarrow> 0 | Some n \<Rightarrow> int n)"

definition c_ask :: "c_lib \<Rightarrow> string \<Rightarrow> c_arg list \<Rightarrow> (gate, c_arg) eff" where
  "c_ask L f args g q = (case ask L (f, args) q of (v, q') \<Rightarrow> (Ok v, g\<lparr>g_calls := g_calls g @ [(f, args)]\<rparr>, q'))"

definition c_int :: "c_arg \<Rightarrow> int" where
  "c_int v = (case v of Num i \<Rightarrow> i | _ \<Rightarrow> 0)"

definition c_object :: "c_arg \<Rightarrow> nat option" where
  "c_object v = (case v of Obj x \<Rightarrow> Some x | _ \<Rightarrow> None)"

definition c_bytes :: "c_arg \<Rightarrow> byte list option" where
  "c_bytes v = (case v of Bytes bs \<Rightarrow> Some bs | _ \<Rightarrow> None)"

definition c_string :: "c_arg \<Rightarrow> string option" where
  "c_string v = (case v of Str s \<Rightarrow> Some s | _ \<Rightarrow> None)"

definition checked :: "(int \<Rightarrow> err_queue \<Rightarrow> (error_stack + 'b) \<times> err_queue) \<Rightarrow> c_arg \<Rightarrow> (gate, unit) eff" where
  "checked c v g q = (case c (c_int v) q of (Inl es, q') \<Rightarrow> (Err es, g, q') | (Inr _, q') \<Rightarrow> (Ok (), g, q'))"

definition c_void :: "c_lib \<Rightarrow> string \<Rightarrow> c_arg list \<Rightarrow> (gate, unit) eff" where
  "c_void L f args = ebind (c_ask L f args) (\<lambda>_. eret ())"

definition c_cvt :: "c_lib \<Rightarrow> string \<Rightarrow> c_arg list \<Rightarrow> (gate, unit) eff" where
  "c_cvt L f args = ebind (c_ask L f args) (checked cvt)"

definition c_cvt_0i :: "c_lib \<Rightarrow> string \<Rightarrow> c_arg list \<Rightarrow> (gate, unit) eff" where
  "c_cvt_0i L f args = ebind (c_ask L f args) (checked cvt_0i)"

text \<open>A pointer that may be null, and one that is not tested.\<close>

definition c_opt :: "c_lib \<Rightarrow> string \<Rightarrow> c_arg list \<Rightarrow> (gate, nat option) eff" where
  "c_opt L f args = ebind (c_ask L f args) (\<lambda>v. eret (c_object v))"

definition c_obj :: "c_lib \<Rightarrow> string \<Rightarrow> c_arg list \<Rightarrow> (gate, nat option) eff" where
  "c_obj L f args = ebind (c_ask L f args) (\<lambda>v. eret (c_object v))"

definition c_bits :: "c_lib \<Rightarrow> string \<Rightarrow> c_arg list \<Rightarrow> (gate, int) eff" where
  "c_bits L f args = ebind (c_ask L f args) (\<lambda>v. eret (c_int v))"

definition c_nonzero :: "c_lib \<Rightarrow> string \<Rightarrow> c_arg list \<Rightarrow> (gate, bool) eff" where
  "c_nonzero L f args = ebind (c_ask L f args) (\<lambda>v. eret (c_int v \<noteq> 0))"

definition c_one :: "c_lib \<Rightarrow> string \<Rightarrow> c_arg list \<Rightarrow> (gate, bool) eff" where
  "c_one L f args = ebind (c_ask L f args) (\<lambda>v. eret (c_int v = 1))"

definition c_some :: "c_lib \<Rightarrow> string \<Rightarrow> c_arg list \<Rightarrow> (gate, int option) eff" where
  "c_some L f args = ebind (c_ask L f args) (\<lambda>v. eret (if c_int v = 0 then None else Some (c_int v)))"

text \<open>\<open>SslVerifyMode::from_bits\<close> knows the bits 1 and 2 and panics otherwise.\<close>

definition c_mode :: "c_lib \<Rightarrow> string \<Rightarrow> c_arg list \<Rightarrow> (gate, int) eff" where
  "c_mode L f args =
     ebind (c_ask L f args) (\<lambda>v.
       if c_int v \<in> {0..3} then eret (c_int v) else epanic (f @ '' returned invalid mode''))"

definition c_text :: "c_lib \<Rightarrow> string \<Rightarrow> c_arg list \<Rightarrow> (gate, string) eff" where
  "c_text L f args =
     ebind (c_ask L f args) (\<lambda>v.
       case c_string v of Some s \<Rightarrow> eret (if valid_text L s then s else '''') | None \<Rightarrow> eret '''')"

section \<open>Support of X.509\<close>

definition gate_new :: "bool \<Rightarrow> gate" where
  "gate_new is_x509_method = \<lparr>g_method_x509 = is_x509_method, g_flag = is_x509_method, g_calls = []\<rparr>"

definition method_tls :: bool where "method_tls = True"

definition method_tls_with_buffer :: bool where "method_tls_with_buffer = False"

definition method_dtls :: bool where "method_dtls = True"

definition require_x509 :: "c_lib \<Rightarrow> (gate, unit) eff" where
  "require_x509 L = ebind (eget g_flag) (\<lambda>b. eassert b ''This context is not configured for X.509 certificates'')"

section \<open>Methods\<close>

definition builder_set_verify :: "c_lib \<Rightarrow> int \<Rightarrow> (gate, unit) eff" where
  "builder_set_verify L mode =
     ethen (require_x509 L)
       (c_void L ''SSL_CTX_set_verify'' [Num mode, Null])"

definition ctx_verify_mode :: "c_lib \<Rightarrow> (gate, int) eff" where
  "ctx_verify_mode L =
     ethen (require_x509 L)
       (c_mode L ''SSL_CTX_get_verify_mode'' [])"

definition ctx_set_reverify_on_resume :: "c_lib \<Rightarrow> bool \<Rightarrow> (gate, unit) eff" where
  "ctx_set_reverify_on_resume L enabled =
     c_void L ''SSL_CTX_set_reverify_on_resume'' [Flag enabled]"

definition ctx_set_verify_depth :: "c_lib \<Rightarrow> 32 word \<Rightarrow> (gate, unit) eff" where
  "ctx_set_verify_depth L depth =
     ethen (require_x509 L)
       (c_void L ''SSL_CTX_set_verify_depth'' [Num (sint depth)])"

definition ctx_set_read_ahead :: "c_lib \<Rightarrow> bool \<Rightarrow> (gate, unit) eff" where
  "ctx_set_read_ahead L read_ahead =
     c_void L ''SSL_CTX_set_read_ahead'' [Flag read_ahead]"

definition ctx_set_tmp_ecdh :: "c_lib \<Rightarrow> nat \<Rightarrow> (gate, unit) eff" where
  "ctx_set_tmp_ecdh L key =
     c_cvt L ''SSL_CTX_set_tmp_ecdh'' [Obj key]"

definition ctx_set_client_ca_list :: "c_lib \<Rightarrow> nat \<Rightarrow> (gate, unit) eff" where
  "ctx_set_client_ca_list L names =
     ethen (require_x509 L)
       (c_void L ''SSL_CTX_set_client_CA_list'' [Obj names])"

definition ctx_add_client_ca :: "c_lib \<Rightarrow> nat \<Rightarrow> (gate, unit) eff" where
  "ctx_add_client_ca L cacert =
     ethen (require_x509 L)
       (c_cvt L ''SSL_CTX_add_client_CA'' [Obj cacert])"

definition ctx_set_certificate :: "c_lib \<Rightarrow> nat \<Rightarrow> (gate, unit) eff" where
  "ctx_set_certificate L cert =
     c_cvt L ''SSL_CTX_use_certificate'' [Obj cert]"

definition ctx_add_extra_chain_cert :: "c_lib \<Rightarrow> nat \<Rightarrow> (gate, unit) eff" where
  "ctx_add_extra_chain_cert L cert =
     ethen (require_x509 L)
       (c_cvt L ''SSL_CTX_add_extra_chain_cert'' [Obj cert])"

definition ctx_set_private_key :: "c_lib \<Rightarrow> nat \<Rightarrow> (gate, unit) eff" where
  "ctx_set_private_key L key =
     c_cvt L ''SSL_CTX_use_PrivateKey'' [Obj key]"

definition ctx_ciphers :: "c_lib \<Rightarrow> (gate, nat option) eff" where
  "ctx_ciphers L =
     c_opt L ''SSL_CTX_get_ciphers'' []"

definition ctx_options :: "c_lib \<Rightarrow> (gate, int) eff" where
  "ctx_options L =
     c_bits L ''SSL_CTX_get_options'' []"

definition ctx_clear_options :: "c_lib \<Rightarrow> int \<Rightarrow> (gate, int) eff" where
  "ctx_clear_options L option =
     c_bits L ''SSL_CTX_clear_options'' [Num option]"

definition ctx_check_private_key :: "c_lib \<Rightarrow> (gate, unit) eff" where
  "ctx_check_private_key L =
     c_cvt L ''SSL_CTX_check_private_key'' []"

definition ctx_builder_cert_store :: "c_lib \<Rightarrow> (gate, nat option) eff" where
  "ctx_builder_cert_store L =
     ethen (require_x509 L)
       (c_obj L ''SSL_CTX_get_cert_store'' [])"

definition ctx_set_session_cache_mode :: "c_lib \<Rightarrow> int \<Rightarrow> (gate, int) eff" where
  "ctx_set_session_cache_mode L mode =
     c_bits L ''SSL_CTX_set_session_cache_mode'' [Num mode]"

definition ctx_set_session_timeout :: "c_lib \<Rightarrow> 32 word \<Rightarrow> (gate, int) eff" where
  "ctx_set_session_timeout L timeout =
     c_bits L ''SSL_CTX_set_timeout'' [Num (uint timeout)]"

definition ctx_set_session_cache_size :: "c_lib \<Rightarrow> 32 word \<Rightarrow> (gate, int) eff" where
  "ctx_set_session_cache_size L bytes =
     c_bits L ''SSL_CTX_sess_set_cache_size'' [Num (uint bytes)]"

definition ctx_set_grease_enabled :: "c_lib \<Rightarrow> bool \<Rightarrow> (gate, unit) eff" where
  "ctx_set_grease_enabled L enabled =
     c_void L ''SSL_CTX_set_grease_enabled'' [Flag enabled]"

definition ctx_set_grease_sigalgs_enabled :: "c_lib \<Rightarrow> bool \<Rightarrow> (gate, unit) eff" where
  "ctx_set_grease_sigalgs_enabled L enabled =
     c_void L ''SSL_CTX_set_grease_sigalgs_enabled'' [Flag enabled]"

definition ctx_set_record_size_limit :: "c_lib \<Rightarrow> 16 word \<Rightarrow> (gate, unit) eff" where
  "ctx_set_record_size_limit L limit =
     c_void L ''SSL_CTX_set_record_size_limit'' [Num (uint limit)]"

definition ctx_set_tls13_ciphers :: "c_lib \<Rightarrow> nat list \<Rightarrow> (gate, unit) eff" where
  "ctx_set_tls13_ciphers L ciphers =
     c_cvt L ''SSL_CTX_set1_tls13_ciphers'' [Nums ciphers, Null, Num (int (length ciphers))]"

definition ctx_set_permute_extensions :: "c_lib \<Rightarrow> bool \<Rightarrow> (gate, unit) eff" where
  "ctx_set_permute_extensions L enabled =
     c_void L ''SSL_CTX_set_permute_extensions'' [Flag enabled]"

definition ctx_set_verify_algorithm_prefs :: "c_lib \<Rightarrow> nat list \<Rightarrow> (gate, unit) eff" where
  "ctx_set_verify_algorithm_prefs L prefs =
     c_cvt_0i L ''SSL_CTX_set_verify_algorithm_prefs'' [Nums prefs, Num (int (length prefs))]"

definition ctx_enable_signed_cert_timestamps :: "c_lib \<Rightarrow> (gate, unit) eff" where
  "ctx_enable_signed_cert_timestamps L =
     c_void L ''SSL_CTX_enable_signed_cert_timestamps'' []"

definition ctx_enable_ocsp_stapling :: "c_lib \<Rightarrow> (gate, unit) eff" where
  "ctx_enable_ocsp_stapling L =
     c_void L ''SSL_CTX_enable_ocsp_stapling'' []"

definition ctx_set_compliance_policy :: "c_lib \<Rightarrow> int \<Rightarrow> (gate, unit) eff" where
  "ctx_set_compliance_policy L policy =
     c_cvt_0i L ''SSL_CTX_set_compliance_policy'' [Num policy]"

definition ctx_set_requested_trust_anchors :: "c_lib \<Rightarrow> byte list \<Rightarrow> (gate, unit) eff" where
  "ctx_set_requested_trust_anchors L ids =
     c_cvt_0i L ''SSL_CTX_set1_requested_trust_anchors'' [Bytes ids, Num (int (length ids))]"

definition ctx_set_available_trust_anchors :: "c_lib \<Rightarrow> byte list \<Rightarrow> (gate, unit) eff" where
  "ctx_set_available_trust_anchors L ids =
     c_cvt_0i L ''SSL_CTX_set1_available_trust_anchors'' [Bytes ids, Num (int (length ids))]"

definition ctx_set_ech_keys :: "c_lib \<Rightarrow> nat \<Rightarrow> (gate, unit) eff" where
  "ctx_set_ech_keys L keys =
     c_cvt L ''SSL_CTX_set1_ech_keys'' [Obj keys]"

definition ctx_add_credential :: "c_lib \<Rightarrow> nat \<Rightarrow> (gate, unit) eff" where
  "ctx_add_credential L credential =
     c_cvt_0i L ''SSL_CTX_add1_credential'' [Obj credential]"

definition ctx_set_server_certificate_types :: "c_lib \<Rightarrow> nat list \<Rightarrow> (gate, unit) eff" where
  "ctx_set_server_certificate_types L types =
     c_cvt_0i L ''SSL_CTX_set1_accepted_peer_cert_types'' [Nums types, Num (int (length types))]"

definition ctx_certificate :: "c_lib \<Rightarrow> (gate, nat option) eff" where
  "ctx_certificate L =
     ethen (require_x509 L)
       (c_opt L ''SSL_CTX_get0_certificate'' [])"

definition ctx_private_key :: "c_lib \<Rightarrow> (gate, nat option) eff" where
  "ctx_private_key L =
     c_opt L ''SSL_CTX_get0_privatekey'' []"

definition ctx_ref_cert_store :: "c_lib \<Rightarrow> (gate, nat option) eff" where
  "ctx_ref_cert_store L =
     ethen (require_x509 L)
       (c_obj L ''SSL_CTX_get_cert_store'' [])"

definition ctx_add_session :: "c_lib \<Rightarrow> nat \<Rightarrow> (gate, bool) eff" where
  "ctx_add_session L session =
     c_nonzero L ''SSL_CTX_add_session'' [Obj session]"

definition ctx_remove_session :: "c_lib \<Rightarrow> nat \<Rightarrow> (gate, bool) eff" where
  "ctx_remove_session L session =
     c_nonzero L ''SSL_CTX_remove_session'' [Obj session]"

definition ctx_session_cache_size :: "c_lib \<Rightarrow> (gate, int) eff" where
  "ctx_session_cache_size L =
     c_bits L ''SSL_CTX_sess_get_cache_size'' []"

definition ctx_ref_set_ech_keys :: "c_lib \<Rightarrow> nat \<Rightarrow> (gate, unit) eff" where
  "ctx_ref_set_ech_keys L keys =
     c_cvt L ''SSL_CTX_set1_ech_keys'' [Obj keys]"

definition conn_set_options :: "c_lib \<Rightarrow> int \<Rightarrow> (gate, int) eff" where
  "conn_set_options L option =
     c_bits L ''SSL_set_options'' [Num option]"

definition conn_clear_options :: "c_lib \<Rightarrow> int \<Rightarrow> (gate, int) eff" where
  "conn_clear_options L option =
     c_bits L ''SSL_clear_options'' [Num option]"

definition conn_set_verify_algorithm_prefs :: "c_lib \<Rightarrow> nat list \<Rightarrow> (gate, unit) eff" where
  "conn_set_verify_algorithm_prefs L prefs =
     c_cvt_0i L ''SSL_set_verify_algorithm_prefs'' [Nums prefs, Num (int (length prefs))]"

definition conn_curve :: "c_lib \<Rightarrow> (gate, int option) eff" where
  "conn_curve L =
     c_some L ''SSL_get_curve_id'' []"

definition conn_used_hello_retry_request :: "c_lib \<Rightarrow> (gate, bool) eff" where
  "conn_used_hello_retry_request L =
     c_one L ''SSL_used_hello_retry_request'' []"

definition conn_set_verify :: "c_lib \<Rightarrow> int \<Rightarrow> (gate, unit) eff" where
  "conn_set_verify L mode =
     ethen (require_x509 L)
       (c_void L ''SSL_set_verify'' [Num mode, Null])"

definition conn_set_verify_depth :: "c_lib \<Rightarrow> 32 word \<Rightarrow> (gate, unit) eff" where
  "conn_set_verify_depth L depth =
     ethen (require_x509 L)
       (c_void L ''SSL_set_verify_depth'' [Num (sint depth)])"

definition conn_verify_mode :: "c_lib \<Rightarrow> (gate, int) eff" where
  "conn_verify_mode L =
     ethen (require_x509 L)
       (c_mode L ''SSL_get_verify_mode'' [])"

definition conn_set_tmp_dh :: "c_lib \<Rightarrow> nat \<Rightarrow> (gate, unit) eff" where
  "conn_set_tmp_dh L dh =
     c_cvt L ''SSL_set_tmp_dh'' [Obj dh]"

definition conn_set_tmp_ecdh :: "c_lib \<Rightarrow> nat \<Rightarrow> (gate, unit) eff" where
  "conn_set_tmp_ecdh L key =
     c_cvt L ''SSL_set_tmp_ecdh'' [Obj key]"

definition conn_set_permute_extensions :: "c_lib \<Rightarrow> bool \<Rightarrow> (gate, unit) eff" where
  "conn_set_permute_extensions L enabled =
     c_void L ''SSL_set_permute_extensions'' [Flag enabled]"

definition conn_set_record_size_limit :: "c_lib \<Rightarrow> 16 word \<Rightarrow> (gate, unit) eff" where
  "conn_set_record_size_limit L limit =
     c_void L ''SSL_set_record_size_limit'' [Num (uint limit)]"

definition conn_ciphers :: "c_lib \<Rightarrow> (gate, nat option) eff" where
  "conn_ciphers L =
     c_obj L ''SSL_get_ciphers'' []"

definition conn_current_cipher :: "c_lib \<Rightarrow> (gate, nat option) eff" where
  "conn_current_cipher L =
     c_opt L ''SSL_get_current_cipher'' []"

definition conn_peer_signature_algorithm :: "c_lib \<Rightarrow> (gate, int option) eff" where
  "conn_peer_signature_algorithm L =
     c_some L ''SSL_get_peer_signature_algorithm'' []"

definition conn_used_delegated_credential :: "c_lib \<Rightarrow> (gate, bool) eff" where
  "conn_used_delegated_credential L =
     c_nonzero L ''SSL_used_delegated_credential'' []"

definition conn_signature_algorithm_used :: "c_lib \<Rightarrow> (gate, int option) eff" where
  "conn_signature_algorithm_used L =
     c_some L ''SSL_get_signature_algorithm_used'' []"

definition conn_state_string :: "c_lib \<Rightarrow> (gate, string) eff" where
  "conn_state_string L =
     c_text L ''SSL_state_string'' []"

definition conn_state_string_long :: "c_lib \<Rightarrow> (gate, string) eff" where
  "conn_state_string_long L =
     c_text L ''SSL_state_string_long'' []"

definition conn_peer_certificate :: "c_lib \<Rightarrow> (gate, nat option) eff" where
  "conn_peer_certificate L =
     ethen (require_x509 L)
       (c_opt L ''SSL_get_peer_certificate'' [])"

definition conn_peer_cert_chain :: "c_lib \<Rightarrow> (gate, nat option) eff" where
  "conn_peer_cert_chain L =
     ethen (require_x509 L)
       (c_opt L ''SSL_get_peer_cert_chain'' [])"

definition conn_certificate :: "c_lib \<Rightarrow> (gate, nat option) eff" where
  "conn_certificate L =
     ethen (require_x509 L)
       (c_opt L ''SSL_get_certificate'' [])"

definition conn_private_key :: "c_lib \<Rightarrow> (gate, nat option) eff" where
  "conn_private_key L =
     c_opt L ''SSL_get_privatekey'' []"

definition conn_set_min_proto_version :: "c_lib \<Rightarrow> nat option \<Rightarrow> (gate, unit) eff" where
  "conn_set_min_proto_version L version =
     c_cvt L ''SSL_set_min_proto_version'' [version_arg version]"

definition conn_set_max_proto_version :: "c_lib \<Rightarrow> nat option \<Rightarrow> (gate, unit) eff" where
  "conn_set_max_proto_version L version =
     c_cvt L ''SSL_set_max_proto_version'' [version_arg version]"

definition conn_min_proto_version :: "c_lib \<Rightarrow> (gate, int option) eff" where
  "conn_min_proto_version L =
     c_some L ''SSL_get_min_proto_version'' []"

definition conn_max_proto_version :: "c_lib \<Rightarrow> (gate, int option) eff" where
  "conn_max_proto_version L =
     c_some L ''SSL_get_max_proto_version'' []"

definition conn_srtp_profiles :: "c_lib \<Rightarrow> (gate, nat option) eff" where
  "conn_srtp_profiles L =
     c_opt L ''SSL_get_srtp_profiles'' []"

definition conn_selected_srtp_profile :: "c_lib \<Rightarrow> (gate, nat option) eff" where
  "conn_selected_srtp_profile L =
     c_opt L ''SSL_get_selected_srtp_profile'' []"

definition conn_verify_param_mut :: "c_lib \<Rightarrow> (gate, nat option) eff" where
  "conn_verify_param_mut L =
     ethen (require_x509 L)
       (c_obj L ''SSL_get0_param'' [])"

definition conn_verify_result :: "c_lib \<Rightarrow> (gate, int) eff" where
  "conn_verify_result L =
     ethen (require_x509 L)
       (c_bits L ''SSL_get_verify_result'' [])"

definition conn_session :: "c_lib \<Rightarrow> (gate, nat option) eff" where
  "conn_session L =
     c_opt L ''SSL_get_session'' []"

definition conn_set_session :: "c_lib \<Rightarrow> nat \<Rightarrow> (gate, unit) eff" where
  "conn_set_session L session =
     c_cvt L ''SSL_set_session'' [Obj session]"

definition conn_session_reused :: "c_lib \<Rightarrow> (gate, bool) eff" where
  "conn_session_reused L =
     c_nonzero L ''SSL_session_reused'' []"

definition conn_set_status_type :: "c_lib \<Rightarrow> int \<Rightarrow> (gate, unit) eff" where
  "conn_set_status_type L ty =
     c_cvt L ''SSL_set_tlsext_status_type'' [Num ty]"

definition conn_is_server :: "c_lib \<Rightarrow> (gate, bool) eff" where
  "conn_is_server L =
     c_nonzero L ''SSL_is_server'' []"

definition conn_is_init_finished :: "c_lib \<Rightarrow> (gate, bool) eff" where
  "conn_is_init_finished L =
     c_nonzero L ''SSL_is_init_finished'' []"

definition conn_set_mtu :: "c_lib \<Rightarrow> 32 word \<Rightarrow> (gate, unit) eff" where
  "conn_set_mtu L mtu =
     c_cvt L ''SSL_set_mtu'' [Num (uint mtu)]"

definition conn_set_max_send_fragment :: "c_lib \<Rightarrow> nat \<Rightarrow> (gate, unit) eff" where
  "conn_set_max_send_fragment L max_send_fragment =
     c_cvt L ''SSL_set_max_send_fragment'' [Num (int max_send_fragment)]"

definition conn_set_certificate :: "c_lib \<Rightarrow> nat \<Rightarrow> (gate, unit) eff" where
  "conn_set_certificate L cert =
     c_cvt L ''SSL_use_certificate'' [Obj cert]"

definition conn_set_client_ca_list :: "c_lib \<Rightarrow> nat \<Rightarrow> (gate, unit) eff" where
  "conn_set_client_ca_list L names =
     ethen (require_x509 L)
       (c_void L ''SSL_set_client_CA_list'' [Obj names])"

definition conn_set_private_key :: "c_lib \<Rightarrow> nat \<Rightarrow> (gate, unit) eff" where
  "conn_set_private_key L key =
     c_cvt L ''SSL_use_PrivateKey'' [Obj key]"

definition conn_set_mode :: "c_lib \<Rightarrow> int \<Rightarrow> (gate, int) eff" where
  "conn_set_mode L mode =
     c_bits L ''SSL_set_mode'' [Num mode]"

definition conn_clear_mode :: "c_lib \<Rightarrow> int \<Rightarrow> (gate, int) eff" where
  "conn_clear_mode L mode =
     c_bits L ''SSL_clear_mode'' [Num mode]"

definition conn_add_chain_cert :: "c_lib \<Rightarrow> nat \<Rightarrow> (gate, unit) eff" where
  "conn_add_chain_cert L cert =
     c_cvt L ''SSL_add1_chain_cert'' [Obj cert]"

definition conn_set_ech_config_list :: "c_lib \<Rightarrow> byte list \<Rightarrow> (gate, unit) eff" where
  "conn_set_ech_config_list L configs =
     c_cvt_0i L ''SSL_set1_ech_config_list'' [Bytes configs, Num (int (length configs))]"

definition conn_ech_accepted :: "c_lib \<Rightarrow> (gate, bool) eff" where
  "conn_ech_accepted L =
     c_nonzero L ''SSL_ech_accepted'' []"

definition conn_set_enable_ech_grease :: "c_lib \<Rightarrow> bool \<Rightarrow> (gate, unit) eff" where
  "conn_set_enable_ech_grease L enable =
     c_void L ''SSL_set_enable_ech_grease'' [Flag enable]"

definition conn_set_compliance_policy :: "c_lib \<Rightarrow> int \<Rightarrow> (gate, unit) eff" where
  "conn_set_compliance_policy L policy =
     c_cvt_0i L ''SSL_set_compliance_policy'' [Num policy]"

definition conn_add_credential :: "c_lib \<Rightarrow> nat \<Rightarrow> (gate, unit) eff" where
  "conn_add_credential L credential =
     c_cvt_0i L ''SSL_add1_credential'' [Obj credential]"

definition conn_peer_pubkey :: "c_lib \<Rightarrow> (gate, nat option) eff" where
  "conn_peer_pubkey L =
     c_opt L ''SSL_get0_peer_pubkey'' []"

definition conn_set_client_key_shares :: "c_lib \<Rightarrow> nat list \<Rightarrow> (gate, unit) eff" where
  "conn_set_client_key_shares L key_shares =
     c_cvt L ''SSL_set1_client_key_shares'' [Nums key_shares, Num (int (length key_shares))]"

definition conn_set_requested_trust_anchors :: "c_lib \<Rightarrow> byte list \<Rightarrow> (gate, unit) eff" where
  "conn_set_requested_trust_anchors L ids =
     c_cvt_0i L ''SSL_set1_requested_trust_anchors'' [Bytes ids, Num (int (length ids))]"

definition conn_set_available_trust_anchors :: "c_lib \<Rightarrow> byte list \<Rightarrow> (gate, unit) eff" where
  "conn_set_available_trust_anchors L ids =
     c_cvt_0i L ''SSL_set1_available_trust_anchors'' [Bytes ids, Num (int (length ids))]"

definition conn_peer_matched_trust_anchor :: "c_lib \<Rightarrow> (gate, bool) eff" where
  "conn_peer_matched_trust_anchor L =
     c_one L ''SSL_peer_matched_trust_anchor'' []"

definition conn_set_alps_use_new_codepoint :: "c_lib \<Rightarrow> bool \<Rightarrow> (gate, unit) eff" where
  "conn_set_alps_use_new_codepoint L enable =
     c_void L ''SSL_set_alps_use_new_codepoint'' [Flag enable]"

definition conn_set_tls13_ciphers :: "c_lib \<Rightarrow> nat list \<Rightarrow> (gate, unit) eff" where
  "conn_set_tls13_ciphers L ciphers =
     c_cvt L ''SSL_set1_tls13_ciphers'' [Nums ciphers, Null, Num (int (length ciphers))]"

definition conn_set_server_padding_request :: "c_lib \<Rightarrow> 16 word \<Rightarrow> (gate, unit) eff" where
  "conn_set_server_padding_request L num_bytes =
     c_void L ''SSL_set_server_padding_request'' [Num (uint num_bytes)]"

definition conn_set_server_padding_enabled :: "c_lib \<Rightarrow> bool \<Rightarrow> (gate, unit) eff" where
  "conn_set_server_padding_enabled L enabled =
     c_void L ''SSL_set_server_padding_enabled'' [Flag enabled]"

definition conn_server_sent_requested_padding :: "c_lib \<Rightarrow> (gate, bool) eff" where
  "conn_server_sent_requested_padding L =
     c_one L ''SSL_server_sent_requested_padding'' []"

text \<open>Methods with texts, paths and lengths.\<close>

definition builder_default_verify_paths :: "c_lib \<Rightarrow> (gate, unit) eff" where
  "builder_default_verify_paths L = ethen (require_x509 L) (c_cvt L ''SSL_CTX_set_default_verify_paths'' [])"

definition path_to_cstring :: "c_lib \<Rightarrow> string \<Rightarrow> (gate, string) eff" where
  "path_to_cstring L path = ecstring (gt_err_lib_none L) path"

definition opt_path :: "c_lib \<Rightarrow> string option \<Rightarrow> (gate, c_arg) eff" where
  "opt_path L path = (case path of None \<Rightarrow> eret Null | Some p \<Rightarrow> ebind (path_to_cstring L p) (\<lambda>s. eret (Str s)))"

definition load_verify_locations :: "c_lib \<Rightarrow> string option \<Rightarrow> string option \<Rightarrow> (gate, unit) eff" where
  "load_verify_locations L ca_file ca_path =
     ethen (require_x509 L)
       (ebind (opt_path L ca_file) (\<lambda>a. ebind (opt_path L ca_path) (\<lambda>b.
          c_cvt L ''SSL_CTX_load_verify_locations'' [a, b])))"

definition set_ca_file :: "c_lib \<Rightarrow> string \<Rightarrow> (gate, unit) eff" where
  "set_ca_file L path = load_verify_locations L (Some path) None"

definition set_certificate_file :: "c_lib \<Rightarrow> string \<Rightarrow> int \<Rightarrow> (gate, unit) eff" where
  "set_certificate_file L path file_type =
     ethen (require_x509 L)
       (ebind (path_to_cstring L path) (\<lambda>s. c_cvt L ''SSL_CTX_use_certificate_file'' [Str s, Num file_type]))"

definition set_certificate_chain_file :: "c_lib \<Rightarrow> string \<Rightarrow> (gate, unit) eff" where
  "set_certificate_chain_file L path =
     ebind (path_to_cstring L path) (\<lambda>s. c_cvt L ''SSL_CTX_use_certificate_chain_file'' [Str s])"

definition set_private_key_file :: "c_lib \<Rightarrow> string \<Rightarrow> int \<Rightarrow> (gate, unit) eff" where
  "set_private_key_file L path file_type =
     ebind (path_to_cstring L path) (\<lambda>s. c_cvt L ''SSL_CTX_use_PrivateKey_file'' [Str s, Num file_type])"

definition set_strict_cipher_list :: "c_lib \<Rightarrow> string \<Rightarrow> (gate, unit) eff" where
  "set_strict_cipher_list L ciphers =
     ebind (ecstring (gt_err_lib_none L) ciphers) (\<lambda>s. c_cvt L ''SSL_CTX_set_strict_cipher_list'' [Str s])"

definition set_delegated_credentials :: "c_lib \<Rightarrow> string \<Rightarrow> (gate, unit) eff" where
  "set_delegated_credentials L sigalgs =
     ebind (ecstring (gt_err_lib_none L) sigalgs) (\<lambda>s. c_cvt L ''SSL_CTX_set_delegated_credentials'' [Str s])"

definition set_extension_permutation :: "c_lib \<Rightarrow> nat list \<Rightarrow> (gate, unit) eff" where
  "set_extension_permutation L indices =
     ebind (etry_int c_int_max (gt_err_lib_none L) (length indices)) (\<lambda>n.
       c_cvt L ''SSL_CTX_set_extension_order'' [Nums indices, Num (int n)])"

definition extra_chain_certs :: "c_lib \<Rightarrow> (gate, nat option) eff" where
  "extra_chain_certs L =
     ebind (c_obj L ''SSL_CTX_get_extra_chain_certs'' []) (\<lambda>chain.
       ethen (eassert (chain \<noteq> None) ''assertion failed: !chain.is_null()'') (eret chain))"

definition conn_set_curves_list :: "c_lib \<Rightarrow> string \<Rightarrow> (gate, unit) eff" where
  "conn_set_curves_list L curves =
     ebind (ecstring (gt_err_lib_none L) curves) (\<lambda>s. c_cvt_0i L ''SSL_set1_curves_list'' [Str s])"

text \<open>A name that is not valid text is as good as none here, but a panic for the version.\<close>

definition curve_name :: "c_lib \<Rightarrow> (gate, string option) eff" where
  "curve_name L =
     ebind (conn_curve L) (\<lambda>c.
       case c of
         None \<Rightarrow> eret None
       | Some i \<Rightarrow>
           ebind (c_ask L ''SSL_get_curve_name'' [Num i]) (\<lambda>v.
             eret (case c_string v of Some s \<Rightarrow> (if valid_text L s then Some s else None) | None \<Rightarrow> None)))"

definition version_str :: "c_lib \<Rightarrow> (gate, string) eff" where
  "version_str L =
     ebind (c_ask L ''SSL_get_version'' []) (\<lambda>v.
       case c_string v of
         Some s \<Rightarrow> if valid_text L s then eret s else epanic ''called `Result::unwrap()` on an `Err` value''
       | None \<Rightarrow> eret '''')"

text \<open>\<open>try_into\<close> from \<open>c_int\<close> to \<open>u16\<close>.\<close>

definition version2 :: "c_lib \<Rightarrow> (gate, nat option) eff" where
  "version2 L =
     ebind (c_bits L ''SSL_version'' []) (\<lambda>r.
       eret (if r = 0 then None else if 0 \<le> r \<and> r < 2 ^ 16 then Some (nat r) else None))"

text \<open>\<open>SSL_set_alpn_protos\<close> and \<open>SSL_set_tlsext_use_srtp\<close> return 0 on success.\<close>

definition zero_is_ok :: "c_arg \<Rightarrow> (gate, unit) eff" where
  "zero_is_ok v g q =
     (if c_int v = 0 then (Ok (), g, q) else (case error_stack_get q of (es, q') \<Rightarrow> (Err es, g, q')))"

definition conn_set_alpn_protos :: "c_lib \<Rightarrow> byte list \<Rightarrow> (gate, unit) eff" where
  "conn_set_alpn_protos L protocols =
     ebind (etry_int (2 ^ 32 - 1) (gt_err_lib_none L) (length protocols)) (\<lambda>n.
       ebind (c_ask L ''SSL_set_alpn_protos'' [Bytes protocols, Num (int n)]) zero_is_ok)"

definition conn_set_tlsext_use_srtp :: "c_lib \<Rightarrow> string \<Rightarrow> (gate, unit) eff" where
  "conn_set_tlsext_use_srtp L protocols =
     ebind (ecstring (gt_err_lib_none L) protocols) (\<lambda>s.
       ebind (c_ask L ''SSL_set_tlsext_use_srtp'' [Str s]) zero_is_ok)"

definition selected_alpn_protocol :: "c_lib \<Rightarrow> (gate, byte list option) eff" where
  "selected_alpn_protocol L = ebind (c_ask L ''SSL_get0_alpn_selected'' []) (\<lambda>v. eret (c_bytes v))"

definition peer_application_settings :: "c_lib \<Rightarrow> (gate, byte list option) eff" where
  "peer_application_settings L =
     ebind (c_nonzero L ''SSL_has_application_settings'' []) (\<lambda>has.
       if \<not> has then eret None
       else ebind (c_ask L ''SSL_get0_peer_application_settings'' []) (\<lambda>v.
              eret (Some (case c_bytes v of Some bs \<Rightarrow> bs | None \<Rightarrow> []))))"

definition servername_raw :: "c_lib \<Rightarrow> int \<Rightarrow> (gate, string option) eff" where
  "servername_raw L ty = ebind (c_ask L ''SSL_get_servername'' [Num ty]) (\<lambda>v. eret (c_string v))"

definition servername :: "c_lib \<Rightarrow> int \<Rightarrow> (gate, string option) eff" where
  "servername L ty =
     ebind (servername_raw L ty) (\<lambda>b.
       eret (case b of Some s \<Rightarrow> (if valid_text L s then Some s else None) | None \<Rightarrow> None))"

definition ocsp_status :: "c_lib \<Rightarrow> (gate, byte list option) eff" where
  "ocsp_status L =
     ebind (c_ask L ''SSL_get_tlsext_status_ocsp_resp'' []) (\<lambda>v.
       eret (case c_bytes v of Some bs \<Rightarrow> (if bs = [] then None else Some bs) | None \<Rightarrow> None))"

definition set_ocsp_status :: "c_lib \<Rightarrow> byte list \<Rightarrow> (gate, unit) eff" where
  "set_ocsp_status L response =
     ethen (eassert (length response \<le> c_int_max) ''assertion failed: response.len() <= c_int::MAX as usize'')
       (c_cvt L ''SSL_set_ocsp_response'' [Bytes response, Num (int (length response))])"

definition get_ech_retry_configs :: "c_lib \<Rightarrow> (gate, byte list option) eff" where
  "get_ech_retry_configs L = ebind (c_ask L ''SSL_get0_ech_retry_configs'' []) (\<lambda>v. eret (c_bytes v))"

definition peer_available_trust_anchors :: "c_lib \<Rightarrow> (gate, byte list) eff" where
  "peer_available_trust_anchors L =
     ebind (c_ask L ''SSL_get0_peer_available_trust_anchors'' []) (\<lambda>v.
       eret (case c_bytes v of Some bs \<Rightarrow> bs | None \<Rightarrow> []))"

definition add_application_settings :: "c_lib \<Rightarrow> byte list \<Rightarrow> byte list option \<Rightarrow> (gate, unit) eff" where
  "add_application_settings L proto settings =
     (let settings = (case settings of Some s \<Rightarrow> s | None \<Rightarrow> []) in
      c_cvt L ''SSL_add_application_settings''
        [Bytes proto, Num (int (length proto)), Bytes settings, Num (int (length settings))])"

text \<open>The output of the keying material is the value that the call returns with its result.\<close>

definition export_keying_material :: "c_lib \<Rightarrow> nat \<Rightarrow> string \<Rightarrow> byte list option \<Rightarrow> (gate, unit) eff" where
  "export_keying_material L n label ctx =
     c_cvt L ''SSL_export_keying_material''
       ([Num (int n), Str label, Num (int (length label))] @
        (case ctx of Some c \<Rightarrow> [Bytes c, Num (int (length c)), Num 1] | None \<Rightarrow> [Null, Num 0, Num 0]))"

definition some_types :: "c_arg \<Rightarrow> byte list option" where
  "some_types v = (case c_bytes v of Some bs \<Rightarrow> (if bs = [] then None else Some bs) | None \<Rightarrow> None)"

definition ctx_server_certificate_types :: "c_lib \<Rightarrow> (gate, byte list option) eff" where
  "ctx_server_certificate_types L =
     ebind (c_ask L ''SSL_CTX_get0_accepted_peer_cert_types'' []) (\<lambda>v. eret (some_types v))"

definition conn_set_server_certificate_types :: "c_lib \<Rightarrow> byte list \<Rightarrow> (gate, unit) eff" where
  "conn_set_server_certificate_types L types =
     ebind (conn_is_server L) (\<lambda>server.
       if server
       then efail (internal_error_str (gt_err_lib_none L) ''called set_server_certificate_types as server'')
       else c_cvt_0i L ''SSL_set1_accepted_peer_cert_types'' [Bytes types, Num (int (length types))])"

definition conn_server_certificate_types :: "c_lib \<Rightarrow> (gate, byte list option) eff" where
  "conn_server_certificate_types L =
     ebind (conn_is_server L) (\<lambda>server.
       if server then eret None
       else ebind (c_ask L ''SSL_get0_accepted_peer_cert_types'' []) (\<lambda>v. eret (some_types v)))"

definition selected_server_certificate_type :: "c_lib \<Rightarrow> (gate, 8 word option) eff" where
  "selected_server_certificate_type L =
     ebind (conn_is_server L) (\<lambda>server.
       if server then eret None
       else ebind (c_bits L ''SSL_get_peer_cert_type'' []) (\<lambda>i. eret (Some (word_of_int i))))"

text \<open>\<open>Debug\<close>: the state, the verification result if there is support, and the verification result.\<close>

definition conn_debug :: "c_lib \<Rightarrow> (gate, (string \<times> string + int) list) eff" where
  "conn_debug L =
     ebind (conn_state_string_long L) (\<lambda>state.
       ebind (eget g_flag) (\<lambda>x509.
         ebind (if x509 then ebind (conn_verify_result L) (\<lambda>v. eret [Inr v]) else eret []) (\<lambda>first.
           ebind (conn_verify_result L) (\<lambda>v.
             eret ([Inl (''state'', state)] @ first @ [Inr v])))))"

section \<open>No certificate function without support\<close>

text \<open>The functions of \<open>openssl/ssl.h\<close> among these calls that use X.509 objects or the verification by means of them.\<close>

definition certificate_functions :: "string list" where
  "certificate_functions =
    [''SSL_CTX_set_verify'', ''SSL_CTX_get_verify_mode'', ''SSL_CTX_set_verify_depth'',
     ''SSL_CTX_set_default_verify_paths'', ''SSL_CTX_load_verify_locations'', ''SSL_CTX_set_client_CA_list'',
     ''SSL_CTX_add_client_CA'', ''SSL_CTX_use_certificate'', ''SSL_CTX_use_certificate_file'',
     ''SSL_CTX_use_certificate_chain_file'', ''SSL_CTX_add_extra_chain_cert'', ''SSL_CTX_get_extra_chain_certs'',
     ''SSL_CTX_get_cert_store'', ''SSL_CTX_get0_certificate'', ''SSL_set_verify'',
     ''SSL_set_verify_depth'', ''SSL_get_verify_mode'', ''SSL_get_verify_result'',
     ''SSL_get_peer_certificate'', ''SSL_get_peer_cert_chain'', ''SSL_get_certificate'',
     ''SSL_get0_param'', ''SSL_use_certificate'', ''SSL_set_client_CA_list'',
     ''SSL_add1_chain_cert'']"

definition discard :: "(gate, 'a) eff \<Rightarrow> (gate, unit) eff" where
  "discard m = ebind m (\<lambda>_. eret ())"

text \<open>A safe method with its arguments: every one that is not named under the unchecked methods below.\<close>

inductive safe_call :: "c_lib \<Rightarrow> (gate, unit) eff \<Rightarrow> bool" for L where
  "safe_call L (discard (builder_set_verify L mode))"
| "safe_call L (discard (ctx_verify_mode L))"
| "safe_call L (discard (ctx_set_reverify_on_resume L enabled))"
| "safe_call L (discard (ctx_set_verify_depth L depth))"
| "safe_call L (discard (ctx_set_read_ahead L read_ahead))"
| "safe_call L (discard (ctx_set_tmp_ecdh L key))"
| "safe_call L (discard (ctx_set_client_ca_list L names))"
| "safe_call L (discard (ctx_add_client_ca L cacert))"
| "safe_call L (discard (ctx_add_extra_chain_cert L cert))"
| "safe_call L (discard (ctx_set_private_key L key))"
| "safe_call L (discard (ctx_ciphers L))"
| "safe_call L (discard (ctx_options L))"
| "safe_call L (discard (ctx_clear_options L option))"
| "safe_call L (discard (ctx_check_private_key L))"
| "safe_call L (discard (ctx_builder_cert_store L))"
| "safe_call L (discard (ctx_set_session_cache_mode L mode))"
| "safe_call L (discard (ctx_set_session_timeout L timeout))"
| "safe_call L (discard (ctx_set_session_cache_size L bytes))"
| "safe_call L (discard (ctx_set_grease_enabled L enabled))"
| "safe_call L (discard (ctx_set_grease_sigalgs_enabled L enabled))"
| "safe_call L (discard (ctx_set_record_size_limit L limit))"
| "safe_call L (discard (ctx_set_tls13_ciphers L ciphers))"
| "safe_call L (discard (ctx_set_permute_extensions L enabled))"
| "safe_call L (discard (ctx_set_verify_algorithm_prefs L prefs))"
| "safe_call L (discard (ctx_enable_signed_cert_timestamps L))"
| "safe_call L (discard (ctx_enable_ocsp_stapling L))"
| "safe_call L (discard (ctx_set_compliance_policy L policy))"
| "safe_call L (discard (ctx_set_requested_trust_anchors L ids))"
| "safe_call L (discard (ctx_set_available_trust_anchors L ids))"
| "safe_call L (discard (ctx_set_ech_keys L keys))"
| "safe_call L (discard (ctx_add_credential L credential))"
| "safe_call L (discard (ctx_set_server_certificate_types L types))"
| "safe_call L (discard (ctx_certificate L))"
| "safe_call L (discard (ctx_private_key L))"
| "safe_call L (discard (ctx_ref_cert_store L))"
| "safe_call L (discard (ctx_add_session L session))"
| "safe_call L (discard (ctx_remove_session L session))"
| "safe_call L (discard (ctx_session_cache_size L))"
| "safe_call L (discard (ctx_ref_set_ech_keys L keys))"
| "safe_call L (discard (conn_set_options L option))"
| "safe_call L (discard (conn_clear_options L option))"
| "safe_call L (discard (conn_set_verify_algorithm_prefs L prefs))"
| "safe_call L (discard (conn_curve L))"
| "safe_call L (discard (conn_used_hello_retry_request L))"
| "safe_call L (discard (conn_set_verify L mode))"
| "safe_call L (discard (conn_set_verify_depth L depth))"
| "safe_call L (discard (conn_verify_mode L))"
| "safe_call L (discard (conn_set_tmp_dh L dh))"
| "safe_call L (discard (conn_set_tmp_ecdh L key))"
| "safe_call L (discard (conn_set_permute_extensions L enabled))"
| "safe_call L (discard (conn_set_record_size_limit L limit))"
| "safe_call L (discard (conn_ciphers L))"
| "safe_call L (discard (conn_current_cipher L))"
| "safe_call L (discard (conn_peer_signature_algorithm L))"
| "safe_call L (discard (conn_used_delegated_credential L))"
| "safe_call L (discard (conn_signature_algorithm_used L))"
| "safe_call L (discard (conn_state_string L))"
| "safe_call L (discard (conn_state_string_long L))"
| "safe_call L (discard (conn_peer_certificate L))"
| "safe_call L (discard (conn_peer_cert_chain L))"
| "safe_call L (discard (conn_certificate L))"
| "safe_call L (discard (conn_private_key L))"
| "safe_call L (discard (conn_set_min_proto_version L version))"
| "safe_call L (discard (conn_set_max_proto_version L version))"
| "safe_call L (discard (conn_min_proto_version L))"
| "safe_call L (discard (conn_max_proto_version L))"
| "safe_call L (discard (conn_srtp_profiles L))"
| "safe_call L (discard (conn_selected_srtp_profile L))"
| "safe_call L (discard (conn_verify_param_mut L))"
| "safe_call L (discard (conn_verify_result L))"
| "safe_call L (discard (conn_session L))"
| "safe_call L (discard (conn_set_session L session))"
| "safe_call L (discard (conn_session_reused L))"
| "safe_call L (discard (conn_set_status_type L ty))"
| "safe_call L (discard (conn_is_server L))"
| "safe_call L (discard (conn_is_init_finished L))"
| "safe_call L (discard (conn_set_mtu L mtu))"
| "safe_call L (discard (conn_set_max_send_fragment L max_send_fragment))"
| "safe_call L (discard (conn_set_client_ca_list L names))"
| "safe_call L (discard (conn_set_private_key L key))"
| "safe_call L (discard (conn_set_mode L mode))"
| "safe_call L (discard (conn_clear_mode L mode))"
| "safe_call L (discard (conn_set_ech_config_list L configs))"
| "safe_call L (discard (conn_ech_accepted L))"
| "safe_call L (discard (conn_set_enable_ech_grease L enable))"
| "safe_call L (discard (conn_set_compliance_policy L policy))"
| "safe_call L (discard (conn_add_credential L credential))"
| "safe_call L (discard (conn_peer_pubkey L))"
| "safe_call L (discard (conn_set_client_key_shares L key_shares))"
| "safe_call L (discard (conn_set_requested_trust_anchors L ids))"
| "safe_call L (discard (conn_set_available_trust_anchors L ids))"
| "safe_call L (discard (conn_peer_matched_trust_anchor L))"
| "safe_call L (discard (conn_set_alps_use_new_codepoint L enable))"
| "safe_call L (discard (conn_set_tls13_ciphers L ciphers))"
| "safe_call L (discard (conn_set_server_padding_request L num_bytes))"
| "safe_call L (discard (conn_set_server_padding_enabled L enabled))"
| "safe_call L (discard (conn_server_sent_requested_padding L))"
| "safe_call L (discard (builder_default_verify_paths L))"
| "safe_call L (discard (load_verify_locations L ca_file ca_path))"
| "safe_call L (discard (set_ca_file L path))"
| "safe_call L (discard (set_certificate_file L path file_type))"
| "safe_call L (discard (set_private_key_file L path file_type))"
| "safe_call L (discard (set_strict_cipher_list L ciphers))"
| "safe_call L (discard (set_delegated_credentials L sigalgs))"
| "safe_call L (discard (set_extension_permutation L indices))"
| "safe_call L (discard (conn_set_curves_list L curves))"
| "safe_call L (discard (curve_name L))"
| "safe_call L (discard (version_str L))"
| "safe_call L (discard (version2 L))"
| "safe_call L (discard (conn_set_alpn_protos L protocols))"
| "safe_call L (discard (conn_set_tlsext_use_srtp L protocols))"
| "safe_call L (discard (selected_alpn_protocol L))"
| "safe_call L (discard (peer_application_settings L))"
| "safe_call L (discard (servername_raw L ty))"
| "safe_call L (discard (servername L ty))"
| "safe_call L (discard (ocsp_status L))"
| "safe_call L (discard (set_ocsp_status L response))"
| "safe_call L (discard (get_ech_retry_configs L))"
| "safe_call L (discard (peer_available_trust_anchors L))"
| "safe_call L (discard (add_application_settings L proto settings))"
| "safe_call L (discard (export_keying_material L n label ctx))"
| "safe_call L (discard (ctx_server_certificate_types L))"
| "safe_call L (discard (conn_set_server_certificate_types L types))"
| "safe_call L (discard (conn_server_certificate_types L))"
| "safe_call L (discard (selected_server_certificate_type L))"
| "safe_call L (discard (conn_debug L))"

text \<open>Methods are called one after the other, whatever they return.\<close>

fun run_calls :: "(gate, unit) eff list \<Rightarrow> gate \<Rightarrow> err_queue \<Rightarrow> gate \<times> err_queue" where
  "run_calls [] g q = (g, q)"
| "run_calls (m # ms) g q = (case m g q of (_, g', q') \<Rightarrow> run_calls ms g' q')"

text \<open>BoringSSL crashed: a function among \<open>X\<close> was called on a context whose method has no support.\<close>

definition crashed :: "string set \<Rightarrow> gate \<Rightarrow> bool" where
  "crashed X g \<longleftrightarrow> \<not> g_method_x509 g \<and> (\<exists>c\<in>set (g_calls g). fst c \<in> X)"

text \<open>With \<open>F\<close> the flag is known to be set.\<close>

definition gated :: "bool \<Rightarrow> (gate, 'a) eff \<Rightarrow> bool" where
  "gated F m \<longleftrightarrow>
     (\<forall>g q r g' q'. m g q = (r, g', q') \<longrightarrow> (F \<longrightarrow> g_flag g) \<longrightarrow>
        g_method_x509 g' = g_method_x509 g \<and> g_flag g' = g_flag g \<and>
        (\<exists>cs. g_calls g' = g_calls g @ cs \<and> (g_flag g \<or> fst ` set cs \<inter> set certificate_functions = {})))"

lemma gatedD:
  assumes "gated F m" "m g q = (r, g', q')" "F \<longrightarrow> g_flag g"
  shows "g_method_x509 g' = g_method_x509 g" "g_flag g' = g_flag g"
    "\<exists>cs. g_calls g' = g_calls g @ cs \<and> (g_flag g \<or> fst ` set cs \<inter> set certificate_functions = {})"
  using assms unfolding gated_def by blast+

named_theorems gated_intros

lemma gated_same:
  assumes "\<And>g q. fst (snd (m g q)) = g"
  shows "gated F m"
  unfolding gated_def using assms by (metis append_Nil2 empty_set fst_conv image_empty inf_bot_left snd_conv)

lemma gated_pure [gated_intros]:
  "gated F (eret x)" "gated F (efail es)" "gated F (epanic p)" "gated F (eget f)" "gated F (eassert b p)"
  "gated F (etry_int mx e n)" "gated F (ecstring e s)" "gated F (checked c v)" "gated F (zero_is_ok v)"
  by (rule gated_same; simp add: eassert_def etry_int_def ecstring_def checked_def zero_is_ok_def split: prod.splits sum.splits)+

lemma gated_ask [gated_intros]: "F \<or> f \<notin> set certificate_functions \<Longrightarrow> gated F (c_ask L f args)"
  unfolding gated_def c_ask_def by (auto split: prod.splits)

lemma gated_bind [gated_intros]:
  assumes "gated F m" "\<And>x. gated F (f x)"
  shows "gated F (ebind m f)"
  unfolding gated_def
proof (intro allI impI)
  fix g q r g' q' assume run: "ebind m f g q = (r, g', q')" and F: "F \<longrightarrow> g_flag g"
  obtain r1 g1 q1 where m: "m g q = (r1, g1, q1)" by (metis prod.collapse)
  from gatedD[OF assms(1) m F] obtain cs1 where first: "g_method_x509 g1 = g_method_x509 g" "g_flag g1 = g_flag g"
    "g_calls g1 = g_calls g @ cs1" "g_flag g \<or> fst ` set cs1 \<inter> set certificate_functions = {}" by blast
  show "g_method_x509 g' = g_method_x509 g \<and> g_flag g' = g_flag g \<and>
      (\<exists>cs. g_calls g' = g_calls g @ cs \<and> (g_flag g \<or> fst ` set cs \<inter> set certificate_functions = {}))"
  proof (cases r1)
    case (Ok x)
    have F1: "F \<longrightarrow> g_flag g1" using F first(2) by simp
    have "f x g1 q1 = (r, g', q')" using run m Ok by (simp add: ebind_def)
    from gatedD[OF assms(2) this F1] obtain cs2 where "g_method_x509 g' = g_method_x509 g1" "g_flag g' = g_flag g1"
      "g_calls g' = g_calls g1 @ cs2" "g_flag g1 \<or> fst ` set cs2 \<inter> set certificate_functions = {}" by blast
    then show ?thesis using first by (intro conjI exI[of _ "cs1 @ cs2"]) auto
  qed (use run m first in \<open>auto simp: ebind_def\<close>)
qed

lemma gated_then [gated_intros]:
  assumes "gated True m"
  shows "gated F (ethen (require_x509 L) m)"
  unfolding gated_def
proof (intro allI impI)
  fix g q r g' q' assume run: "ethen (require_x509 L) m g q = (r, g', q')"
  show "g_method_x509 g' = g_method_x509 g \<and> g_flag g' = g_flag g \<and>
      (\<exists>cs. g_calls g' = g_calls g @ cs \<and> (g_flag g \<or> fst ` set cs \<inter> set certificate_functions = {}))"
  proof (cases "g_flag g")
    case True
    then have "m g q = (r, g', q')" using run by (simp add: ethen_def ebind_def require_x509_def eassert_def)
    from gatedD[OF assms this] True show ?thesis by blast
  next
    case False
    then show ?thesis using run by (simp add: ethen_def ebind_def require_x509_def eassert_def)
  qed
qed

lemma gated_plain_then [gated_intros]: "gated F m \<Longrightarrow> gated F n \<Longrightarrow> gated F (ethen m n)"
  unfolding ethen_def by (rule gated_bind)

lemma gated_cases [gated_intros]:
  "gated F m \<Longrightarrow> gated F n \<Longrightarrow> gated F (if b then m else n)"
  "gated F m \<Longrightarrow> (\<And>x. gated F (f x)) \<Longrightarrow> gated F (case v of None \<Rightarrow> m | Some x \<Rightarrow> f x)"
  by (auto split: option.splits)

lemma gated_calls [gated_intros]:
  assumes "F \<or> f \<notin> set certificate_functions"
  shows "gated F (c_void L f args)" "gated F (c_cvt L f args)" "gated F (c_cvt_0i L f args)" "gated F (c_opt L f args)"
    "gated F (c_obj L f args)" "gated F (c_bits L f args)" "gated F (c_nonzero L f args)" "gated F (c_one L f args)"
    "gated F (c_some L f args)" "gated F (c_mode L f args)" "gated F (c_text L f args)"
  unfolding c_void_def c_cvt_def c_cvt_0i_def c_opt_def c_obj_def c_bits_def c_nonzero_def c_one_def c_some_def c_mode_def
    c_text_def
  by (intro gated_intros assms)+

lemmas safe_method_defs =
    builder_set_verify_def ctx_verify_mode_def ctx_set_reverify_on_resume_def ctx_set_verify_depth_def
    ctx_set_read_ahead_def ctx_set_tmp_ecdh_def ctx_set_client_ca_list_def ctx_add_client_ca_def
    ctx_add_extra_chain_cert_def ctx_set_private_key_def ctx_ciphers_def ctx_options_def ctx_clear_options_def
    ctx_check_private_key_def ctx_builder_cert_store_def ctx_set_session_cache_mode_def
    ctx_set_session_timeout_def ctx_set_session_cache_size_def ctx_set_grease_enabled_def
    ctx_set_grease_sigalgs_enabled_def ctx_set_record_size_limit_def ctx_set_tls13_ciphers_def
    ctx_set_permute_extensions_def ctx_set_verify_algorithm_prefs_def ctx_enable_signed_cert_timestamps_def
    ctx_enable_ocsp_stapling_def ctx_set_compliance_policy_def ctx_set_requested_trust_anchors_def
    ctx_set_available_trust_anchors_def ctx_set_ech_keys_def ctx_add_credential_def
    ctx_set_server_certificate_types_def ctx_certificate_def ctx_private_key_def ctx_ref_cert_store_def
    ctx_add_session_def ctx_remove_session_def ctx_session_cache_size_def ctx_ref_set_ech_keys_def
    conn_set_options_def conn_clear_options_def conn_set_verify_algorithm_prefs_def conn_curve_def
    conn_used_hello_retry_request_def conn_set_verify_def conn_set_verify_depth_def conn_verify_mode_def
    conn_set_tmp_dh_def conn_set_tmp_ecdh_def conn_set_permute_extensions_def conn_set_record_size_limit_def
    conn_ciphers_def conn_current_cipher_def conn_peer_signature_algorithm_def conn_used_delegated_credential_def
    conn_signature_algorithm_used_def conn_state_string_def conn_state_string_long_def conn_peer_certificate_def
    conn_peer_cert_chain_def conn_certificate_def conn_private_key_def conn_set_min_proto_version_def
    conn_set_max_proto_version_def conn_min_proto_version_def conn_max_proto_version_def conn_srtp_profiles_def
    conn_selected_srtp_profile_def conn_verify_param_mut_def conn_verify_result_def conn_session_def
    conn_set_session_def conn_session_reused_def conn_set_status_type_def conn_is_server_def
    conn_is_init_finished_def conn_set_mtu_def conn_set_max_send_fragment_def conn_set_client_ca_list_def
    conn_set_private_key_def conn_set_mode_def conn_clear_mode_def conn_set_ech_config_list_def
    conn_ech_accepted_def conn_set_enable_ech_grease_def conn_set_compliance_policy_def conn_add_credential_def
    conn_peer_pubkey_def conn_set_client_key_shares_def conn_set_requested_trust_anchors_def
    conn_set_available_trust_anchors_def conn_peer_matched_trust_anchor_def conn_set_alps_use_new_codepoint_def
    conn_set_tls13_ciphers_def conn_set_server_padding_request_def conn_set_server_padding_enabled_def
    conn_server_sent_requested_padding_def builder_default_verify_paths_def load_verify_locations_def
    set_ca_file_def set_certificate_file_def set_private_key_file_def set_strict_cipher_list_def
    set_delegated_credentials_def set_extension_permutation_def conn_set_curves_list_def curve_name_def
    version_str_def version2_def conn_set_alpn_protos_def conn_set_tlsext_use_srtp_def selected_alpn_protocol_def
    peer_application_settings_def servername_raw_def servername_def ocsp_status_def set_ocsp_status_def
    get_ech_retry_configs_def peer_available_trust_anchors_def add_application_settings_def
    export_keying_material_def ctx_server_certificate_types_def conn_set_server_certificate_types_def
    conn_server_certificate_types_def selected_server_certificate_type_def conn_debug_def

lemma check_gated: "gated True (require_x509 L)"
  unfolding require_x509_def by (intro gated_intros)

lemma safe_call_gated: "safe_call L m \<Longrightarrow> gated False m"
  by (induction rule: safe_call.induct; unfold safe_method_defs discard_def opt_path_def path_to_cstring_def Let_def;
      (rule gated_then | rule gated_calls | rule gated_intros | simp add: certificate_functions_def)+)

lemma run_calls_gated:
  assumes "\<forall>m\<in>set ms. safe_call L m" "run_calls ms g q = (g', q')"
  shows "g_method_x509 g' = g_method_x509 g \<and> g_flag g' = g_flag g \<and>
    (\<exists>cs. g_calls g' = g_calls g @ cs \<and> (g_flag g \<or> fst ` set cs \<inter> set certificate_functions = {}))"
  using assms
proof (induction ms arbitrary: g q)
  case (Cons m ms)
  obtain r g1 q1 where m: "m g q = (r, g1, q1)" by (metis prod.collapse)
  have "gated False m" using Cons.prems(1) by (simp add: safe_call_gated[of L m])
  from gatedD[OF this m] obtain cs1 where first: "g_method_x509 g1 = g_method_x509 g" "g_flag g1 = g_flag g"
    "g_calls g1 = g_calls g @ cs1" "g_flag g \<or> fst ` set cs1 \<inter> set certificate_functions = {}" by auto
  have "run_calls ms g1 q1 = (g', q')" using Cons.prems(2) m by simp
  then obtain cs2 where "g_method_x509 g' = g_method_x509 g1" "g_flag g' = g_flag g1" "g_calls g' = g_calls g1 @ cs2"
    "g_flag g1 \<or> fst ` set cs2 \<inter> set certificate_functions = {}" using Cons.IH Cons.prems(1) by fastforce
  then show ?case using first by (intro conjI exI[of _ "cs1 @ cs2"]) auto
qed (auto intro!: exI[of _ "[]"])

text \<open>
  C33: However many of the methods with a check, and of those that need none, are called on a context that was made by
  \<open>SslContextBuilder::new\<close>, and whatever they return: no function that uses certificates is called on a context whose
  method does not support X.509, so BoringSSL does not crash. This includes \<open>Debug\<close> of a connection.
\<close>

theorem no_certificate_call_without_support:
  assumes "X \<subseteq> set certificate_functions" "\<forall>m\<in>set ms. safe_call L m" "run_calls ms (gate_new is_x509_method) q = (g, q')"
  shows "\<not> crashed X g"
  using run_calls_gated[OF assms(2,3)] assms(1) by (auto simp: crashed_def gate_new_def)

definition plain_lib :: c_lib where
  "plain_lib = \<lparr>ask = \<lambda>_ q. (Num 1, q), valid_text = \<lambda>_. True, gt_err_lib_none = 1\<rparr>"

theorem no_certificate_call_without_support_witness:
  "\<exists>g q'. run_calls [discard (conn_peer_certificate plain_lib), discard (ctx_set_read_ahead plain_lib True)]
       (gate_new method_tls_with_buffer) [] = (g, q') \<and>
     \<not> crashed {''SSL_get_peer_certificate''} g \<and> g_calls g = [(''SSL_CTX_set_read_ahead'', [Num 1])]"
proof -
  let ?ms = "[discard (conn_peer_certificate plain_lib), discard (ctx_set_read_ahead plain_lib True)]"
  obtain g q' where run: "run_calls ?ms (gate_new method_tls_with_buffer) [] = (g, q')" by fastforce
  have safe: "\<forall>m\<in>set ?ms. safe_call plain_lib m" by (simp add: safe_call.intros)
  have "\<not> crashed {''SSL_get_peer_certificate''} g"
    by (rule no_certificate_call_without_support[OF _ safe run]) (simp add: certificate_functions_def)
  moreover have "g_calls g = [(''SSL_CTX_set_read_ahead'', [Num 1])]"
    using run by (auto simp: discard_def conn_peer_certificate_def ctx_set_read_ahead_def require_x509_def c_opt_def c_void_def
        c_ask_def ethen_def ebind_def eassert_def gate_new_def method_tls_with_buffer_def plain_lib_def)
  ultimately show ?thesis using run by blast
qed

text \<open>The unchecked methods: each reaches BoringSSL on any context.\<close>

lemma unchecked_methods_crash:
  "\<exists>r g q'. ctx_set_certificate L cert (gate_new False) q = (r, g, q') \<and> crashed {''SSL_CTX_use_certificate''} g"
  "\<exists>r g q'. conn_set_certificate L cert (gate_new False) q = (r, g, q') \<and> crashed {''SSL_use_certificate''} g"
  "\<exists>r g q'. conn_add_chain_cert L cert (gate_new False) q = (r, g, q') \<and> crashed {''SSL_add1_chain_cert''} g"
  "\<exists>r g q'. extra_chain_certs L (gate_new False) q = (r, g, q') \<and> crashed {''SSL_CTX_get_extra_chain_certs''} g"
  "CHR 0x00 \<notin> set path \<Longrightarrow> \<exists>r g q'. set_certificate_chain_file L path (gate_new False) q = (r, g, q') \<and>
     crashed {''SSL_CTX_use_certificate_chain_file''} g"
  by (auto simp: ctx_set_certificate_def conn_set_certificate_def conn_add_chain_cert_def extra_chain_certs_def
      set_certificate_chain_file_def path_to_cstring_def ecstring_def c_cvt_def c_obj_def c_ask_def ebind_def ethen_def
      checked_def eassert_def gate_new_def crashed_def split: prod.splits sum.splits)

text \<open>\<open>Debug\<close> tests for support, and then reads the verification result without it.\<close>

lemma debug_panics_without_support:
  "\<not> g_flag g \<Longrightarrow> \<exists>p g' q'. conn_debug L g q = (Panicked p, g', q')"
  by (auto simp: conn_debug_def conn_state_string_long_def conn_verify_result_def c_text_def c_ask_def ebind_def ethen_def
      require_x509_def eassert_def split: prod.splits option.splits)

end
