(* ===== verification/Digests.thy ===== *)
theory Digests
  imports Effects Key_Wrap
begin

unbundle bit_operations_syntax

text \<open>
  The SHA family (\<open>btls/src/sha.rs\<close>): one-shot functions and hashers without errors; message authentication
  (\<open>btls/src/hmac.rs\<close> and \<open>hmac\<close> of \<open>hash.rs\<close>), whose object owns a context of BoringSSL; and the stream cipher of
  \<open>btls/src/chacha.rs\<close>.
\<close>

section \<open>SHA\<close>

text \<open>
  The functions of one digest, such as \<open>SHA1_Init\<close>, \<open>SHA1_Update\<close>, \<open>SHA1_Final\<close> and \<open>SHA1\<close>; \<open>'c\<close> holds contexts of each
  digest. An \<open>Init\<close> that does not write the context is \<open>None\<close>.
\<close>

record 'c sha_fns =
  fn_Init :: "'c option"
  fn_Update :: "byte list \<Rightarrow> 'c \<Rightarrow> 'c"
  fn_Final :: "'c \<Rightarrow> byte list \<times> 'c"
  fn_once :: "byte list \<Rightarrow> byte list"

record 'c sha_api =
  SHA1_fns :: "'c sha_fns"
  SHA224_fns :: "'c sha_fns"
  SHA256_fns :: "'c sha_fns"
  SHA384_fns :: "'c sha_fns"
  SHA512_fns :: "'c sha_fns"
  SHA512_256_fns :: "'c sha_fns"

text \<open>
  \<open>MaybeUninit<[u8; N]>\<close> to which a call wrote \<open>out\<close>: \<open>assume_init\<close> is defined if the call wrote all of it, and nothing
  beyond.
\<close>

definition assume_init :: "nat \<Rightarrow> byte list \<Rightarrow> byte list option" where
  "assume_init n out = (if length out = n then Some out else None)"

definition sha1 :: "'c sha_api \<Rightarrow> byte list \<Rightarrow> byte list option" where
  "sha1 K data = assume_init 20 (fn_once (SHA1_fns K) data)"

definition sha1_new :: "'c sha_api \<Rightarrow> 'c option" where
  "sha1_new K = fn_Init (SHA1_fns K)"

definition sha1_update :: "'c sha_api \<Rightarrow> byte list \<Rightarrow> 'c \<Rightarrow> 'c" where
  "sha1_update K buf h = fn_Update (SHA1_fns K) buf h"

definition sha1_finish :: "'c sha_api \<Rightarrow> 'c \<Rightarrow> byte list option" where
  "sha1_finish K h = assume_init 20 (fst (fn_Final (SHA1_fns K) h))"

definition sha224 :: "'c sha_api \<Rightarrow> byte list \<Rightarrow> byte list option" where
  "sha224 K data = assume_init 28 (fn_once (SHA224_fns K) data)"

definition sha224_new :: "'c sha_api \<Rightarrow> 'c option" where
  "sha224_new K = fn_Init (SHA224_fns K)"

definition sha224_update :: "'c sha_api \<Rightarrow> byte list \<Rightarrow> 'c \<Rightarrow> 'c" where
  "sha224_update K buf h = fn_Update (SHA224_fns K) buf h"

definition sha224_finish :: "'c sha_api \<Rightarrow> 'c \<Rightarrow> byte list option" where
  "sha224_finish K h = assume_init 28 (fst (fn_Final (SHA224_fns K) h))"

definition sha256 :: "'c sha_api \<Rightarrow> byte list \<Rightarrow> byte list option" where
  "sha256 K data = assume_init 32 (fn_once (SHA256_fns K) data)"

definition sha256_new :: "'c sha_api \<Rightarrow> 'c option" where
  "sha256_new K = fn_Init (SHA256_fns K)"

definition sha256_update :: "'c sha_api \<Rightarrow> byte list \<Rightarrow> 'c \<Rightarrow> 'c" where
  "sha256_update K buf h = fn_Update (SHA256_fns K) buf h"

definition sha256_finish :: "'c sha_api \<Rightarrow> 'c \<Rightarrow> byte list option" where
  "sha256_finish K h = assume_init 32 (fst (fn_Final (SHA256_fns K) h))"

definition sha384 :: "'c sha_api \<Rightarrow> byte list \<Rightarrow> byte list option" where
  "sha384 K data = assume_init 48 (fn_once (SHA384_fns K) data)"

definition sha384_new :: "'c sha_api \<Rightarrow> 'c option" where
  "sha384_new K = fn_Init (SHA384_fns K)"

definition sha384_update :: "'c sha_api \<Rightarrow> byte list \<Rightarrow> 'c \<Rightarrow> 'c" where
  "sha384_update K buf h = fn_Update (SHA384_fns K) buf h"

definition sha384_finish :: "'c sha_api \<Rightarrow> 'c \<Rightarrow> byte list option" where
  "sha384_finish K h = assume_init 48 (fst (fn_Final (SHA384_fns K) h))"

definition sha512 :: "'c sha_api \<Rightarrow> byte list \<Rightarrow> byte list option" where
  "sha512 K data = assume_init 64 (fn_once (SHA512_fns K) data)"

definition sha512_new :: "'c sha_api \<Rightarrow> 'c option" where
  "sha512_new K = fn_Init (SHA512_fns K)"

definition sha512_update :: "'c sha_api \<Rightarrow> byte list \<Rightarrow> 'c \<Rightarrow> 'c" where
  "sha512_update K buf h = fn_Update (SHA512_fns K) buf h"

definition sha512_finish :: "'c sha_api \<Rightarrow> 'c \<Rightarrow> byte list option" where
  "sha512_finish K h = assume_init 64 (fst (fn_Final (SHA512_fns K) h))"

definition sha512_256 :: "'c sha_api \<Rightarrow> byte list \<Rightarrow> byte list option" where
  "sha512_256 K data = assume_init 32 (fn_once (SHA512_256_fns K) data)"

definition sha512_256_new :: "'c sha_api \<Rightarrow> 'c option" where
  "sha512_256_new K = fn_Init (SHA512_256_fns K)"

definition sha512_256_update :: "'c sha_api \<Rightarrow> byte list \<Rightarrow> 'c \<Rightarrow> 'c" where
  "sha512_256_update K buf h = fn_Update (SHA512_256_fns K) buf h"

definition sha512_256_finish :: "'c sha_api \<Rightarrow> 'c \<Rightarrow> byte list option" where
  "sha512_256_finish K h = assume_init 32 (fst (fn_Final (SHA512_256_fns K) h))"

lemmas sha_defs =
  sha1_def sha1_new_def sha1_update_def sha1_finish_def sha224_def sha224_new_def sha224_update_def
  sha224_finish_def sha256_def sha256_new_def sha256_update_def sha256_finish_def sha384_def sha384_new_def
  sha384_update_def sha384_finish_def sha512_def sha512_new_def sha512_update_def sha512_finish_def
  sha512_256_def sha512_256_new_def sha512_256_update_def sha512_256_finish_def

text \<open>A type of hashers, and the six there are. \<open>Clone\<close> is derived: it copies the context.\<close>

record 'c sha_type =
  ty_new :: "'c option"
  ty_update :: "byte list \<Rightarrow> 'c \<Rightarrow> 'c"
  ty_finish :: "'c \<Rightarrow> byte list option"
  ty_once :: "byte list \<Rightarrow> byte list option"
  ty_size :: nat

definition sha_types :: "'c sha_api \<Rightarrow> 'c sha_type list" where
  "sha_types K =
    [\<lparr>ty_new = sha1_new K, ty_update = sha1_update K, ty_finish = sha1_finish K, ty_once = sha1 K, ty_size = 20\<rparr>,
      \<lparr>ty_new = sha224_new K, ty_update = sha224_update K, ty_finish = sha224_finish K, ty_once = sha224 K, ty_size = 28\<rparr>,
      \<lparr>ty_new = sha256_new K, ty_update = sha256_update K, ty_finish = sha256_finish K, ty_once = sha256 K, ty_size = 32\<rparr>,
      \<lparr>ty_new = sha384_new K, ty_update = sha384_update K, ty_finish = sha384_finish K, ty_once = sha384 K, ty_size = 48\<rparr>,
      \<lparr>ty_new = sha512_new K, ty_update = sha512_update K, ty_finish = sha512_finish K, ty_once = sha512 K, ty_size = 64\<rparr>,
      \<lparr>ty_new = sha512_256_new K, ty_update = sha512_256_update K, ty_finish = sha512_256_finish K, ty_once = sha512_256 K, ty_size = 32\<rparr>]"
text \<open>What a program does with hashers: it feeds one, or clones it. They are numbered in the order of their creation.\<close>

datatype sha_op = Feed nat "byte list" | Fork nat

fun run_pool :: "(byte list \<Rightarrow> 'h \<Rightarrow> 'h) \<Rightarrow> sha_op list \<Rightarrow> 'h list \<Rightarrow> 'h list" where
  "run_pool upd [] hs = hs"
| "run_pool upd (Feed i d # ops) hs = run_pool upd ops (if i < length hs then hs[i := upd d (hs ! i)] else hs)"
| "run_pool upd (Fork i # ops) hs = run_pool upd ops (if i < length hs then hs @ [hs ! i] else hs)"

text \<open>\<open>openssl/sha.h\<close>: the hash of the bytes since \<open>Init\<close>, of the size of the digest.\<close>

definition fns_ok :: "'c sha_fns \<Rightarrow> ('c \<Rightarrow> byte list) \<Rightarrow> (byte list \<Rightarrow> byte list) \<Rightarrow> nat \<Rightarrow> bool" where
  "fns_ok F absorbed H n \<longleftrightarrow>
     (\<exists>c. fn_Init F = Some c \<and> absorbed c = []) \<and> (\<forall>d c. absorbed (fn_Update F d c) = absorbed c @ d) \<and>
     (\<forall>c. fst (fn_Final F c) = H (absorbed c)) \<and> (\<forall>d. fn_once F d = H d \<and> length (H d) = n)"

definition digest_fns :: "'c sha_api \<Rightarrow> ('c sha_fns \<times> nat) list" where
  "digest_fns K =
     [(SHA1_fns K, 20), (SHA224_fns K, 28), (SHA256_fns K, 32), (SHA384_fns K, 48), (SHA512_fns K, 64),
      (SHA512_256_fns K, 32)]"

definition sha_spec :: "'c sha_api \<Rightarrow> bool" where
  "sha_spec K \<longleftrightarrow> (\<forall>x\<in>set (digest_fns K). \<exists>absorbed H. fns_ok (fst x) absorbed H (snd x))"

lemma run_pool_map:
  assumes "\<And>d h. f (upd d h) = upd' d (f h)"
  shows "run_pool upd' ops (map f hs) = map f (run_pool upd ops hs)"
proof (induction ops arbitrary: hs)
  case (Cons op ops)
  show ?case
  proof (cases op)
    case (Feed i d)
    have "(map f hs)[i := upd' d (map f hs ! i)] = map f (hs[i := upd d (hs ! i)])" if "i < length hs"
      using that assms by (simp add: map_update)
    then show ?thesis using Feed Cons.IH by (simp split: if_split)
  next
    case (Fork i)
    have "map f hs @ [map f hs ! i] = map f (hs @ [hs ! i])" if "i < length hs" using that by simp
    then show ?thesis using Fork Cons.IH by (simp del: map_append split: if_split)
  qed
qed simp

text \<open>A hasher type whose functions are those of \<open>F\<close>.\<close>

definition wraps :: "'c sha_type \<Rightarrow> 'c sha_fns \<Rightarrow> nat \<Rightarrow> bool" where
  "wraps ty F n \<longleftrightarrow>
     ty_new ty = fn_Init F \<and> ty_update ty = fn_Update F \<and> ty_size ty = n \<and>
     ty_finish ty = (\<lambda>h. assume_init n (fst (fn_Final F h))) \<and> ty_once ty = (\<lambda>d. assume_init n (fn_once F d))"

lemma sha_types_wrap:
  assumes "sha_spec K" "ty \<in> set (sha_types K)"
  obtains F n absorbed H where "wraps ty F n" "fns_ok F absorbed H n"
proof -
  have all: "list_all2 (\<lambda>ty x. wraps ty (fst x) (snd x)) (sha_types K) (digest_fns K)"
    by (simp add: sha_types_def digest_fns_def wraps_def sha_defs fun_eq_iff)
  obtain i where i: "i < length (sha_types K)" "ty = sha_types K ! i"
    using assms(2) unfolding in_set_conv_nth by blast
  have "wraps ty (fst (digest_fns K ! i)) (snd (digest_fns K ! i))"
    using list_all2_nthD[OF all i(1)] i(2) by simp
  moreover have "digest_fns K ! i \<in> set (digest_fns K)" using i(1) list_all2_lengthD[OF all] by simp
  then obtain absorbed H where "fns_ok (fst (digest_fns K ! i)) absorbed H (snd (digest_fns K ! i))"
    using assms(1) unfolding sha_spec_def by blast
  ultimately show ?thesis by (rule that)
qed

text \<open>
  C39: However a hasher of any of the six types is fed and cloned, each of the hashers returns the array that the one-shot
  function returns for the bytes that were fed to it, of the size of its type, and no uninitialised memory is read.
\<close>

theorem hashers_agree_with_one_shot:
  assumes "sha_spec K" "ty \<in> set (sha_types K)"
  shows "\<exists>h. ty_new ty = Some h \<and>
    (let hs = run_pool (ty_update ty) ops [h]; fed = run_pool (\<lambda>d b. b @ d) ops [[]] in
     length hs = length fed \<and>
     (\<forall>j<length fed. \<exists>out. ty_finish ty (hs ! j) = Some out \<and> ty_once ty (fed ! j) = Some out \<and>
        length out = ty_size ty))"
proof -
  obtain F n absorbed H where w: "wraps ty F n" and ok: "fns_ok F absorbed H n"
    using sha_types_wrap[OF assms] .
  from ok obtain h where h: "fn_Init F = Some h" "absorbed h = []" unfolding fns_ok_def by blast
  let ?hs = "run_pool (ty_update ty) ops [h]"
  have upd: "absorbed (ty_update ty d c) = absorbed c @ d" for d c using w ok by (simp add: wraps_def fns_ok_def)
  have "run_pool (\<lambda>d b. b @ d) ops (map absorbed [h]) = map absorbed ?hs" by (rule run_pool_map) (rule upd)
  then have fed: "run_pool (\<lambda>d b. b @ d) ops [[]] = map absorbed ?hs" using h(2) by simp
  show ?thesis
    unfolding Let_def fed using w ok h(1)
    by (intro exI[of _ h]) (auto simp: wraps_def fns_ok_def assume_init_def)
qed

text \<open>A digest of the given size that repeats the first byte.\<close>

definition toy_digest :: "nat \<Rightarrow> byte list \<Rightarrow> byte list" where
  "toy_digest n d = replicate n (case d of [] \<Rightarrow> 0 | b # _ \<Rightarrow> b)"

definition toy_fns :: "nat \<Rightarrow> byte list sha_fns" where
  "toy_fns n =
     \<lparr>fn_Init = Some [], fn_Update = \<lambda>d c. c @ d, fn_Final = \<lambda>c. (toy_digest n c, []), fn_once = toy_digest n\<rparr>"

definition toy_sha :: "byte list sha_api" where
  "toy_sha = \<lparr>SHA1_fns = toy_fns 20, SHA224_fns = toy_fns 28, SHA256_fns = toy_fns 32, SHA384_fns = toy_fns 48,
     SHA512_fns = toy_fns 64, SHA512_256_fns = toy_fns 32\<rparr>"

lemma toy_sha_ok: "sha_spec toy_sha"
proof -
  have "fns_ok (toy_fns n) (\<lambda>c. c) (toy_digest n) n" for n
    by (simp add: fns_ok_def toy_fns_def toy_digest_def)
  then have "\<exists>absorbed H. fns_ok (toy_fns n) absorbed H n" for n by blast
  then show ?thesis by (simp add: sha_spec_def digest_fns_def toy_sha_def)
qed

theorem hashers_agree_with_one_shot_witness:
  "\<exists>h. ty_new (sha_types toy_sha ! 2) = Some h \<and>
    (let hs = run_pool (ty_update (sha_types toy_sha ! 2)) [Feed 0 [1, 2], Fork 0, Feed 1 [3]] [h];
         fed = run_pool (\<lambda>d b. b @ d) [Feed 0 [1, 2], Fork 0, Feed 1 [3]] [[]] in
     length hs = length fed \<and>
     (\<forall>j<length fed. \<exists>out. ty_finish (sha_types toy_sha ! 2) (hs ! j) = Some out \<and>
        ty_once (sha_types toy_sha ! 2) (fed ! j) = Some out \<and> length out = ty_size (sha_types toy_sha ! 2)))"
  by (rule hashers_agree_with_one_shot[OF toy_sha_ok]) (simp add: sha_types_def)

section \<open>Message authentication\<close>

record ('c, 'm) hmac_api =
  HMAC_CTX_new :: "err_queue \<Rightarrow> 'c option \<times> err_queue"
  HMAC_Init_ex :: "byte list \<Rightarrow> 'm \<Rightarrow> 'c \<Rightarrow> err_queue \<Rightarrow> int \<times> 'c \<times> err_queue"
  HMAC_Update :: "byte list \<Rightarrow> 'c \<Rightarrow> err_queue \<Rightarrow> int \<times> 'c \<times> err_queue"
  HMAC_size :: "'c \<Rightarrow> nat"
  HMAC_Final :: "'c \<Rightarrow> err_queue \<Rightarrow> (int \<times> byte list) \<times> 'c \<times> err_queue"
  HMAC_once :: "'m \<Rightarrow> byte list \<Rightarrow> byte list \<Rightarrow> err_queue \<Rightarrow> byte list option \<times> err_queue"

text \<open>
  The live contexts by address, the next address, and whether a context was freed twice or memory beyond a buffer was
  written.
\<close>

record 'c hmac_mem =
  hm_ctxs :: "nat \<Rightarrow> 'c option"
  hm_next :: nat
  hm_bad :: bool

definition hm_free :: "nat \<Rightarrow> 'c hmac_mem \<Rightarrow> 'c hmac_mem" where
  "hm_free p s = s\<lparr>hm_ctxs := (hm_ctxs s)(p := None), hm_bad := hm_bad s \<or> hm_ctxs s p = None\<rparr>"

definition hm_alloc :: "(err_queue \<Rightarrow> 'c option \<times> err_queue) \<Rightarrow> ('c hmac_mem, nat) eff" where
  "hm_alloc f =
     ebind (ecvt_p f) (\<lambda>c. ebind (eget hm_next) (\<lambda>p.
       ethen (eput (\<lambda>s. s\<lparr>hm_ctxs := (hm_ctxs s)(p \<mapsto> c), hm_next := Suc p\<rparr>)) (eret p)))"

text \<open>A call on the context at an address, checked by \<open>cvt\<close>.\<close>

definition on_hmac :: "nat \<Rightarrow> ('c \<Rightarrow> err_queue \<Rightarrow> (int \<times> 'a) \<times> 'c \<times> err_queue) \<Rightarrow> ('c hmac_mem, 'a) eff" where
  "on_hmac p f s q =
     (case hm_ctxs s p of
        None \<Rightarrow> (Panicked ''use after free'', s, q)
      | Some c \<Rightarrow>
          ecvt (\<lambda>s q. case f c q of (r, c', q') \<Rightarrow> (r, s\<lparr>hm_ctxs := (hm_ctxs s)(p \<mapsto> c')\<rparr>, q')) s q)"

definition no_output :: "(int \<times> 'c \<times> err_queue) \<Rightarrow> (int \<times> unit) \<times> 'c \<times> err_queue" where
  "no_output x = (case x of (r, c, q) \<Rightarrow> ((r, ()), c, q))"

text \<open>The \<open>Hmac\<close> is dropped whatever the effect returns, or unless it returns \<open>Ok\<close>.\<close>

definition then_drop :: "nat \<Rightarrow> ('c hmac_mem, 'a) eff \<Rightarrow> ('c hmac_mem, 'a) eff" where
  "then_drop p m s q = (case m s q of (r, s', q') \<Rightarrow> (r, hm_free p s', q'))"

definition drop_unless_ok :: "nat \<Rightarrow> ('c hmac_mem, 'a) eff \<Rightarrow> ('c hmac_mem, 'a) eff" where
  "drop_unless_ok p m s q =
     (case m s q of (Ok x, s', q') \<Rightarrow> (Ok x, s', q') | (r, s', q') \<Rightarrow> (r, hm_free p s', q'))"

text \<open>\<open>HmacCtxRef::init\<close>, on a context that the caller keeps.\<close>

definition ctx_ref_init :: "('c, 'm) hmac_api \<Rightarrow> nat \<Rightarrow> byte list \<Rightarrow> 'm \<Rightarrow> ('c hmac_mem, unit) eff" where
  "ctx_ref_init K p key md = on_hmac p (\<lambda>c q. no_output (HMAC_Init_ex K key md c q))"

definition hmac_init :: "('c, 'm) hmac_api \<Rightarrow> byte list \<Rightarrow> 'm \<Rightarrow> ('c hmac_mem, nat) eff" where
  "hmac_init K key md =
     ebind (hm_alloc (HMAC_CTX_new K)) (\<lambda>p.
       drop_unless_ok p (ethen (on_hmac p (\<lambda>c q. no_output (HMAC_Init_ex K key md c q))) (eret p)))"

definition hmac_update :: "('c, 'm) hmac_api \<Rightarrow> nat \<Rightarrow> byte list \<Rightarrow> ('c hmac_mem, unit) eff" where
  "hmac_update K p data = on_hmac p (\<lambda>c q. no_output (HMAC_Update K data c q))"

text \<open>\<open>HMAC_Final\<close> wrote \<open>bs\<close> into a vector of \<open>n\<close> zeros.\<close>

definition fill_vec :: "nat \<Rightarrow> byte list \<Rightarrow> ('c hmac_mem, byte list) eff" where
  "fill_vec n bs =
     ethen (eput (\<lambda>s. s\<lparr>hm_bad := hm_bad s \<or> snd (written_to (replicate n 0) bs)\<rparr>))
       (eret (fst (written_to (replicate n 0) bs)))"

definition hmac_finalize :: "('c, 'm) hmac_api \<Rightarrow> nat \<Rightarrow> ('c hmac_mem, byte list) eff" where
  "hmac_finalize K p =
     then_drop p
       (ebind (eget (\<lambda>s. case hm_ctxs s p of Some c \<Rightarrow> HMAC_size K c | None \<Rightarrow> 0)) (\<lambda>out_len.
          ebind (on_hmac p (HMAC_Final K)) (fill_vec out_len)))"

text \<open>The one-shot function of \<open>hash.rs\<close> for an array of \<open>n\<close> bytes.\<close>

definition hmac :: "('c, 'm) hmac_api \<Rightarrow> nat \<Rightarrow> 'm \<Rightarrow> byte list \<Rightarrow> byte list \<Rightarrow> ('c hmac_mem, byte list) eff" where
  "hmac K n digest key data =
     ebind (ecvt_p (HMAC_once K digest key data)) (\<lambda>bs.
       ebind (fill_vec n bs) (\<lambda>out.
         ethen (eassert (length bs = n) ''assertion `left == right` failed'') (eret out)))"

definition hmac_sha256 :: "('c, 'm) hmac_api \<Rightarrow> 'm \<Rightarrow> byte list \<Rightarrow> byte list \<Rightarrow> ('c hmac_mem, byte list) eff" where
  "hmac_sha256 K md_sha256 key data = hmac K 32 md_sha256 key data"

definition hmac_sha512 :: "('c, 'm) hmac_api \<Rightarrow> 'm \<Rightarrow> byte list \<Rightarrow> byte list \<Rightarrow> ('c hmac_mem, byte list) eff" where
  "hmac_sha512 K md_sha512 key data = hmac K 64 md_sha512 key data"

definition hmac_sha1 :: "('c, 'm) hmac_api \<Rightarrow> 'm \<Rightarrow> byte list \<Rightarrow> byte list \<Rightarrow> ('c hmac_mem, byte list) eff" where
  "hmac_sha1 K md_sha1 key data = hmac K 20 md_sha1 key data"

text \<open>A user of the object: it is fed with parts, and dropped by the first error.\<close>

fun hmac_feed :: "('c, 'm) hmac_api \<Rightarrow> nat \<Rightarrow> byte list list \<Rightarrow> ('c hmac_mem, unit) eff" where
  "hmac_feed K p [] = eret ()"
| "hmac_feed K p (d # ds) = ethen (hmac_update K p d) (hmac_feed K p ds)"

definition hmac_of_parts ::
    "('c, 'm) hmac_api \<Rightarrow> byte list \<Rightarrow> 'm \<Rightarrow> byte list list \<Rightarrow> ('c hmac_mem, byte list) eff" where
  "hmac_of_parts K key md parts =
     ebind (hmac_init K key md) (\<lambda>p. ethen (drop_unless_ok p (hmac_feed K p parts)) (hmac_finalize K p))"

text \<open>
  \<open>openssl/hmac.h\<close>: \<open>absorbed\<close> is the digest, the key and the data of a context that was initialised.
\<close>

definition hmac_spec ::
    "('c, 'm) hmac_api \<Rightarrow> ('c \<Rightarrow> 'm \<times> byte list \<times> byte list) \<Rightarrow> ('m \<Rightarrow> byte list \<Rightarrow> byte list \<Rightarrow> byte list)
     \<Rightarrow> ('m \<Rightarrow> nat) \<Rightarrow> bool" where
  "hmac_spec K absorbed mac md_size \<longleftrightarrow>
     (\<forall>key md c q r c' q'. HMAC_Init_ex K key md c q = (r, c', q') \<longrightarrow> 0 < r \<longrightarrow> absorbed c' = (md, key, [])) \<and>
     (\<forall>d c q r c' q'. HMAC_Update K d c q = (r, c', q') \<longrightarrow> 0 < r \<longrightarrow>
        absorbed c' = (fst (absorbed c), fst (snd (absorbed c)), snd (snd (absorbed c)) @ d)) \<and>
     (\<forall>c. HMAC_size K c = md_size (fst (absorbed c))) \<and>
     (\<forall>c q r bs c' q'. HMAC_Final K c q = ((r, bs), c', q') \<longrightarrow>
        0 < r \<longrightarrow> bs = mac (fst (absorbed c)) (fst (snd (absorbed c))) (snd (snd (absorbed c)))) \<and>
     (\<forall>md key d q bs q'. HMAC_once K md key d q = (Some bs, q') \<longrightarrow> bs = mac md key d) \<and>
     (\<forall>md key d. length (mac md key d) = md_size md)"

lemma hmac_specD:
  assumes "hmac_spec K absorbed mac md_size"
  shows "HMAC_Init_ex K key md c q = (r, c', q') \<Longrightarrow> 0 < r \<Longrightarrow> absorbed c' = (md, key, [])"
    "HMAC_Update K d c q = (r, c', q') \<Longrightarrow> 0 < r \<Longrightarrow> absorbed c = (md, key, b) \<Longrightarrow> absorbed c' = (md, key, b @ d)"
    "absorbed c = (md, key, b) \<Longrightarrow> HMAC_size K c = md_size md"
    "HMAC_Final K c q = ((r, bs), c', q') \<Longrightarrow> 0 < r \<Longrightarrow> absorbed c = (md, key, b) \<Longrightarrow> bs = mac md key b"
    "HMAC_once K md key d q = (Some bs, q') \<Longrightarrow> bs = mac md key d"
    "length (mac md key d) = md_size md"
  using assms unfolding hmac_spec_def by (metis fst_conv snd_conv)+

text \<open>The memory with the context \<open>c\<close> of an object at \<open>p\<close>.\<close>

definition mem_with :: "nat \<Rightarrow> 'c \<Rightarrow> 'c hmac_mem \<Rightarrow> 'c hmac_mem \<Rightarrow> bool" where
  "mem_with p c s0 s \<longleftrightarrow>
     hm_ctxs s = (hm_ctxs s0)(p \<mapsto> c) \<and> hm_bad s = hm_bad s0 \<and> hm_next s = Suc p \<and> p = hm_next s0"

definition mem_same :: "'c hmac_mem \<Rightarrow> 'c hmac_mem \<Rightarrow> bool" where
  "mem_same s0 s \<longleftrightarrow> hm_ctxs s = hm_ctxs s0 \<and> hm_bad s = hm_bad s0"

lemma on_hmac_at:
  assumes "mem_with p c s0 s" "f c q = ((r, x), c', q1)"
  shows "\<exists>s1 q2 es. mem_with p c' s0 s1 \<and> on_hmac p f s q = (if 0 < r then Ok x else Err es, s1, q2)"
  using assms unfolding on_hmac_def ecvt_def mem_with_def
  by (auto simp: cvt_def fail_stack_def split: prod.splits)

lemma on_hmac_no_output:
  assumes "mem_with p c s0 s" "g c q = (r, c', q1)"
  obtains s1 q2 es where "mem_with p c' s0 s1"
    "on_hmac p (\<lambda>c q. no_output (g c q)) s q = (if 0 < r then Ok () else Err es, s1, q2)"
  using on_hmac_at[of p c s0 s "\<lambda>c q. no_output (g c q)" q r "()" c' q1] assms by (force simp: no_output_def)

lemma mem_freed:
  assumes "mem_with p c s0 s" "hm_ctxs s0 (hm_next s0) = None"
  shows "mem_same s0 (hm_free p s)"
  using assms by (auto simp: mem_with_def mem_same_def hm_free_def)

lemma hmac_init_at:
  assumes "hmac_spec K absorbed mac md_size" "hm_ctxs s0 (hm_next s0) = None" "hmac_init K key md s0 q = (r, s, q')"
  shows "case r of Ok p \<Rightarrow> \<exists>c. mem_with p c s0 s \<and> absorbed c = (md, key, []) | Err _ \<Rightarrow> mem_same s0 s | Panicked _ \<Rightarrow> False"
proof -
  obtain oc q1 where new: "HMAC_CTX_new K q = (oc, q1)" by (metis prod.collapse)
  show ?thesis
  proof (cases oc)
    case None
    then show ?thesis using assms(3) new
      by (auto simp: hmac_init_def hm_alloc_def ebind_def ecvt_p_def cvt_p_def fail_stack_def mem_same_def split: prod.splits)
  next
    case (Some c)
    define s1 where "s1 = s0\<lparr>hm_ctxs := (hm_ctxs s0)(hm_next s0 \<mapsto> c), hm_next := Suc (hm_next s0)\<rparr>"
    have m: "mem_with (hm_next s0) c s0 s1" by (simp add: mem_with_def s1_def)
    obtain r2 c2 q2 where init: "HMAC_Init_ex K key md c q1 = (r2, c2, q2)" by (metis prod.collapse)
    obtain s2 q3 es where s2: "mem_with (hm_next s0) c2 s0 s2" and
      call: "on_hmac (hm_next s0) (\<lambda>c q. no_output (HMAC_Init_ex K key md c q)) s1 q1 =
        (if 0 < r2 then Ok () else Err es, s2, q3)" by (rule on_hmac_no_output[where g = "HMAC_Init_ex K key md", OF m init])
    have alloc: "hm_alloc (HMAC_CTX_new K) s0 q = (Ok (hm_next s0), s1, q1)"
      using new Some by (simp add: hm_alloc_def ebind_def ethen_def ecvt_p_def cvt_p_def s1_def)
    show ?thesis
      using assms(3) alloc call s2 mem_freed[OF s2 assms(2)] hmac_specD(1)[OF assms(1) init]
      by (auto simp: hmac_init_def ebind_def ethen_def drop_unless_ok_def split: if_splits)
  qed
qed

lemma hmac_feed_at:
  assumes "hmac_spec K absorbed mac md_size" "mem_with p c s0 s" "absorbed c = (md, key, b)"
    "hmac_feed K p parts s q = (r, s', q')"
  shows "\<exists>c'. mem_with p c' s0 s' \<and>
    (case r of Ok _ \<Rightarrow> absorbed c' = (md, key, b @ concat parts) | Err _ \<Rightarrow> True | Panicked _ \<Rightarrow> False)"
  using assms(2-4)
proof (induction parts arbitrary: c b s q)
  case (Cons d ds)
  obtain r1 c1 q1 where upd: "HMAC_Update K d c q = (r1, c1, q1)" by (metis prod.collapse)
  obtain s1 q2 es where s1: "mem_with p c1 s0 s1"
    and call: "hmac_update K p d s q = (if 0 < r1 then Ok () else Err es, s1, q2)"
    unfolding hmac_update_def by (rule on_hmac_no_output[where g = "HMAC_Update K d", OF Cons.prems(1) upd])
  show ?case
  proof (cases "0 < r1")
    case True
    have "hmac_feed K p ds s1 q2 = (r, s', q')" using Cons.prems(3) call True by simp
    from Cons.IH[OF s1 hmac_specD(2)[OF assms(1) upd True Cons.prems(2)] this] show ?thesis
      unfolding concat.simps append_assoc .
  next
    case False
    then show ?thesis using Cons.prems(3) call s1 by auto
  qed
qed auto

lemma hmac_finalize_at:
  assumes "hmac_spec K absorbed mac md_size" "mem_with p c s0 s" "absorbed c = (md, key, b)"
    "hm_ctxs s0 (hm_next s0) = None" "hmac_finalize K p s q = (r, s', q')"
  shows "mem_same s0 s' \<and> (case r of Ok out \<Rightarrow> out = mac md key b | Err _ \<Rightarrow> True | Panicked _ \<Rightarrow> False)"
proof -
  obtain r1 bs c1 q1 where fin: "HMAC_Final K c q = ((r1, bs), c1, q1)" by (metis prod.collapse)
  from on_hmac_at[where f = "HMAC_Final K", OF assms(2) fin] obtain s1 q2 es where
    s1: "mem_with p c1 s0 s1" and call: "on_hmac p (HMAC_Final K) s q = (if 0 < r1 then Ok bs else Err es, s1, q2)"
    by blast
  have size: "hm_ctxs s p = Some c" "HMAC_size K c = md_size md"
    using assms(2) hmac_specD(3)[OF assms(1,3)] by (auto simp: mem_with_def)
  show ?thesis
  proof (cases "0 < r1")
    case True
    have bs: "bs = mac md key b" "length bs = md_size md"
      using hmac_specD(4)[OF assms(1) fin True assms(3)] hmac_specD(6)[OF assms(1)] by auto
    have "fill_vec (md_size md) bs s1 q2 = (Ok bs, s1, q2)"
      using bs(2) by (simp add: fill_vec_def ethen_def ebind_def written_to_def)
    then show ?thesis using assms(5) call True size bs(1) mem_freed[OF s1 assms(4)]
      by (auto simp: hmac_finalize_def then_drop_def ebind_def)
  next
    case False
    then show ?thesis using assms(5) call size mem_freed[OF s1 assms(4)]
      by (auto simp: hmac_finalize_def then_drop_def ebind_def)
  qed
qed

text \<open>
  C40: A MAC that is computed in parts is that of the parts joined, which is what the one-shot function returns in an
  array of the size of the digest; neither panics or writes beyond its buffer, and whatever fails, the context is freed
  exactly once.
\<close>

theorem mac_in_parts_is_one_shot:
  assumes "hmac_spec K absorbed mac md_size" "hm_ctxs s0 (hm_next s0) = None" "\<not> hm_bad s0"
    "hmac_of_parts K key md parts s0 q = (r, s, q')" "hmac K (md_size md) md key (concat parts) s1 q1 = (r1, s2, q2)"
  shows "hm_ctxs s = hm_ctxs s0 \<and> \<not> hm_bad s \<and> s2 = s1 \<and>
    (case r of Ok out \<Rightarrow> out = mac md key (concat parts) | Err _ \<Rightarrow> True | Panicked _ \<Rightarrow> False) \<and>
    (case r1 of Ok out \<Rightarrow> out = mac md key (concat parts) | Err _ \<Rightarrow> True | Panicked _ \<Rightarrow> False)"
proof (intro conjI)
  have "mem_same s0 s \<and> (case r of Ok out \<Rightarrow> out = mac md key (concat parts) | Err _ \<Rightarrow> True | Panicked _ \<Rightarrow> False)"
  proof -
    obtain ri si qi where init: "hmac_init K key md s0 q = (ri, si, qi)" by (metis prod.collapse)
    note at = hmac_init_at[OF assms(1,2) init]
    show ?thesis
    proof (cases ri)
      case (Ok p)
      then obtain c where c: "mem_with p c s0 si" "absorbed c = (md, key, [])" using at by auto
      obtain rf sf qf where feed: "hmac_feed K p parts si qi = (rf, sf, qf)" by (metis prod.collapse)
      from hmac_feed_at[OF assms(1) c feed, unfolded append_Nil] obtain c' where c': "mem_with p c' s0 sf"
        "case rf of Ok _ \<Rightarrow> absorbed c' = (md, key, concat parts) | Err _ \<Rightarrow> True | Panicked _ \<Rightarrow> False" by blast
      show ?thesis
      proof (cases rf)
        case (Ok u)
        have "hmac_finalize K p sf qf = (r, s, q')"
          using assms(4) init feed \<open>ri = Ok p\<close> Ok by (simp add: hmac_of_parts_def ebind_def ethen_def drop_unless_ok_def)
        from hmac_finalize_at[OF assms(1) c'(1) _ assms(2) this] c'(2) Ok show ?thesis by simp
      qed (use assms(4) init feed \<open>ri = Ok p\<close> c' mem_freed[OF c'(1) assms(2)] in
          \<open>auto simp: hmac_of_parts_def ebind_def ethen_def drop_unless_ok_def\<close>)
    qed (use assms(4) init at in \<open>auto simp: hmac_of_parts_def ebind_def\<close>)
  qed
  then show "hm_ctxs s = hm_ctxs s0" "\<not> hm_bad s"
    "case r of Ok out \<Rightarrow> out = mac md key (concat parts) | Err _ \<Rightarrow> True | Panicked _ \<Rightarrow> False"
    using assms(3) by (auto simp: mem_same_def)
  obtain obs qo where once: "HMAC_once K md key (concat parts) q1 = (obs, qo)" by (metis prod.collapse)
  have one: "s2 = s1 \<and> (case r1 of Ok out \<Rightarrow> out = mac md key (concat parts) | Err _ \<Rightarrow> True | Panicked _ \<Rightarrow> False)"
  proof (cases obs)
    case None
    then show ?thesis using assms(5) once
      by (auto simp: hmac_def ebind_def ecvt_p_def cvt_p_def fail_stack_def split: prod.splits)
  next
    case (Some bs)
    have bs: "bs = mac md key (concat parts)" "length bs = md_size md"
      using hmac_specD(5)[OF assms(1)] once Some hmac_specD(6)[OF assms(1)] by metis+
    have "fill_vec (md_size md) bs s1 qo = (Ok bs, s1, qo)"
      using bs(2) by (simp add: fill_vec_def ethen_def ebind_def written_to_def)
    then show ?thesis using assms(5) once Some bs
      by (auto simp: hmac_def ebind_def ethen_def ecvt_p_def cvt_p_def eassert_def)
  qed
  then show "s2 = s1" "case r1 of Ok out \<Rightarrow> out = mac md key (concat parts) | Err _ \<Rightarrow> True | Panicked _ \<Rightarrow> False"
    by blast+
qed

text \<open>A library whose MAC is the toy digest of key and data, and whose contexts are their view.\<close>

definition toy_hmac :: "(nat \<times> byte list \<times> byte list, nat) hmac_api" where
  "toy_hmac = \<lparr>HMAC_CTX_new = \<lambda>q. (Some (0, [], []), q), HMAC_Init_ex = \<lambda>key md _ q. (1, (md, key, []), q),
     HMAC_Update = \<lambda>d (md, key, b) q. (1, (md, key, b @ d), q), HMAC_size = fst,
     HMAC_Final = \<lambda>(md, key, b) q. ((1, toy_digest md (key @ b)), (md, key, b), q),
     HMAC_once = \<lambda>md key d q. (Some (toy_digest md (key @ d)), q)\<rparr>"

lemma toy_hmac_ok: "hmac_spec toy_hmac (\<lambda>c. c) (\<lambda>md key d. toy_digest md (key @ d)) (\<lambda>md. md)"
  by (auto simp: hmac_spec_def toy_hmac_def toy_digest_def split: prod.splits)

definition no_ctxs :: "(nat \<times> byte list \<times> byte list) hmac_mem" where
  "no_ctxs = \<lparr>hm_ctxs = \<lambda>_. None, hm_next = 0, hm_bad = False\<rparr>"

theorem mac_in_parts_is_one_shot_witness:
  "\<exists>r s q' r1 s2 q2. hmac_of_parts toy_hmac [7] 20 [[1], [], [2, 3]] no_ctxs [] = (r, s, q') \<and>
     hmac toy_hmac 20 20 [7] (concat [[1], [], [2, 3]]) no_ctxs [] = (r1, s2, q2) \<and>
     hm_ctxs s = hm_ctxs no_ctxs \<and> \<not> hm_bad s \<and> s2 = no_ctxs \<and>
     (case r of Ok out \<Rightarrow> out = toy_digest 20 ([7] @ concat [[1], [], [2, 3]]) | Err _ \<Rightarrow> True | Panicked _ \<Rightarrow> False) \<and>
     (case r1 of Ok out \<Rightarrow> out = toy_digest 20 ([7] @ concat [[1], [], [2, 3]]) | Err _ \<Rightarrow> True | Panicked _ \<Rightarrow> False)"
proof -
  obtain r s q' where parts: "hmac_of_parts toy_hmac [7] 20 [[1], [], [2, 3]] no_ctxs [] = (r, s, q')"
    by (metis prod.collapse)
  obtain r1 s2 q2 where one: "hmac toy_hmac 20 20 [7] (concat [[1], [], [2, 3]]) no_ctxs [] = (r1, s2, q2)"
    by (metis prod.collapse)
  show ?thesis
    using parts one mac_in_parts_is_one_shot[OF toy_hmac_ok _ _ parts one]
    by (intro exI conjI) (auto simp: no_ctxs_def)
qed

section \<open>ChaCha20\<close>

text \<open>\<open>CRYPTO_chacha_20\<close> returns what it wrote to its output, which is here its input.\<close>

definition chacha20 ::
    "(byte list \<Rightarrow> byte list \<Rightarrow> byte list \<Rightarrow> 32 word \<Rightarrow> byte list) \<Rightarrow> byte list \<Rightarrow> byte list \<Rightarrow> 32 word \<Rightarrow> byte list
     \<Rightarrow> byte list \<times> bool" where
  "chacha20 CRYPTO_chacha_20 key nonce counter data =
     written_to data (CRYPTO_chacha_20 data key nonce counter)"

definition keystream_spec ::
    "(byte list \<Rightarrow> byte list \<Rightarrow> byte list \<Rightarrow> 32 word \<Rightarrow> byte list) \<Rightarrow> (byte list \<Rightarrow> byte list \<Rightarrow> 32 word \<Rightarrow> nat \<Rightarrow> byte list)
     \<Rightarrow> bool" where
  "keystream_spec f stream \<longleftrightarrow>
     (\<forall>key nonce counter data. f data key nonce counter = map2 (XOR) data (stream key nonce counter (length data))) \<and>
     (\<forall>key nonce counter n. length (stream key nonce counter n) = n)"

lemma xor_twice: "length k = length d \<Longrightarrow> map2 (XOR) (map2 (XOR) d k) k = (d :: byte list)"
  by (induction d k rule: list_induct2') (auto simp: xor.assoc)

lemma chacha20_twice:
  assumes "keystream_spec f stream"
  shows "chacha20 f key nonce counter (fst (chacha20 f key nonce counter data)) = (data, False)"
  using assms by (simp add: chacha20_def keystream_spec_def written_to_def xor_twice)

end
