(* ===== verification/X509_Cert.thy ===== *)
theory X509_Cert
  imports Effects Key_Wrap
begin

text \<open>
  Making and reading certificates and requests (\<open>btls/src/x509/mod.rs\<close>): \<open>X509Builder\<close>, \<open>X509Ref\<close>, \<open>X509ReqBuilder\<close> and
  \<open>X509ReqRef\<close>. A certificate of BoringSSL has a type of its own, and so have its times, names, serial numbers, keys,
  extensions and digests.
\<close>

section \<open>The functions of BoringSSL\<close>

type_synonym ('x, 'a) c_set = "'a \<Rightarrow> 'x \<Rightarrow> err_queue \<Rightarrow> int \<times> 'x \<times> err_queue"

text \<open>A function that returns an int is given here without the object if it does not change it; \<open>None\<close> is a null pointer.\<close>

record ('x, 't, 'n, 'i, 'k, 'e, 'm) cert_api =
  X509_new :: "err_queue \<Rightarrow> 'x option \<times> err_queue"
  X509_set1_notAfter :: "('x, 't) c_set"
  X509_set1_notBefore :: "('x, 't) c_set"
  X509_set_version :: "('x, int) c_set"
  X509_set_serialNumber :: "('x, 'i) c_set"
  X509_set_issuer_name :: "('x, 'n) c_set"
  X509_set_subject_name :: "('x, 'n) c_set"
  X509_set_pubkey :: "('x, 'k) c_set"
  X509_add_ext :: "int \<Rightarrow> ('x, 'e) c_set"
  X509_sign :: "'m \<Rightarrow> ('x, 'k) c_set"
  X509_get_subject_name :: "'x \<Rightarrow> 'n option"
  X509_get_issuer_name :: "'x \<Rightarrow> 'n option"
  X509_subject_name_hash :: "'x \<Rightarrow> 64 word"
  X509_get_pubkey :: "'x \<Rightarrow> err_queue \<Rightarrow> 'k option \<times> err_queue"
  X509_digest :: "'m \<Rightarrow> 'x \<Rightarrow> err_queue \<Rightarrow> (int \<times> byte list) \<times> err_queue"
  EVP_MAX_MD_SIZE :: nat
  X509_getm_notAfter :: "'x \<Rightarrow> 't option"
  X509_getm_notBefore :: "'x \<Rightarrow> 't option"
  X509_get_serialNumber :: "'x \<Rightarrow> 'i option"
  X509_check_issued :: "'x \<Rightarrow> 'x \<Rightarrow> int"
  X509_ok :: int
  X509_verify :: "'x \<Rightarrow> 'k \<Rightarrow> err_queue \<Rightarrow> int \<times> err_queue"
  X509_check_host :: "'x \<Rightarrow> string \<Rightarrow> 32 word \<Rightarrow> err_queue \<Rightarrow> int \<times> err_queue"
  X509_check_ip_asc :: "'x \<Rightarrow> string \<Rightarrow> err_queue \<Rightarrow> int \<times> err_queue"
  x_err_lib_none :: "32 word"

record ('r, 'n, 'k, 'e, 'm) req_api =
  X509_REQ_new :: "err_queue \<Rightarrow> 'r option \<times> err_queue"
  X509_REQ_set_version :: "('r, int) c_set"
  X509_REQ_set_subject_name :: "('r, 'n) c_set"
  X509_REQ_set_pubkey :: "('r, 'k) c_set"
  X509_REQ_add_extensions :: "('r, 'e list) c_set"
  X509_REQ_sign :: "'m \<Rightarrow> ('r, 'k) c_set"
  X509_REQ_get_version :: "'r \<Rightarrow> int"
  X509_REQ_get_subject_name :: "'r \<Rightarrow> 'n option"
  X509_REQ_get_pubkey :: "'r \<Rightarrow> err_queue \<Rightarrow> 'k option \<times> err_queue"
  X509_REQ_verify :: "'r \<Rightarrow> 'k \<Rightarrow> err_queue \<Rightarrow> int \<times> err_queue"
  X509_REQ_get_extensions :: "'r \<Rightarrow> err_queue \<Rightarrow> 'e list option \<times> err_queue"

definition set_cvt :: "('x \<Rightarrow> err_queue \<Rightarrow> int \<times> 'x \<times> err_queue) \<Rightarrow> ('x, unit) eff" where
  "set_cvt f = ecvt (\<lambda>x q. case f x q of (r, x', q') \<Rightarrow> ((r, ()), x', q'))"

text \<open>A call that does not change the object and returns a number that \<open>cvt_n\<close> checks.\<close>

definition ask_n :: "(err_queue \<Rightarrow> int \<times> err_queue) \<Rightarrow> (int \<Rightarrow> bool) \<Rightarrow> ('u, bool) eff" where
  "ask_n f answer s q =
     (case f q of (r, q1) \<Rightarrow>
        (case cvt_n r q1 of (Inl es, q2) \<Rightarrow> (Err es, s, q2) | (Inr n, q2) \<Rightarrow> (Ok (answer n), s, q2)))"

definition not_null :: "string \<Rightarrow> 'a option \<Rightarrow> 'a outcome" where
  "not_null p v = (case v of Some x \<Rightarrow> Ret x | None \<Rightarrow> Panic p)"

section \<open>The builder of certificates\<close>

definition cert_builder_new :: "('x, 't, 'n, 'i, 'k, 'e, 'm) cert_api \<Rightarrow> ('u, 'x) eff" where
  "cert_builder_new A = ecvt_p (X509_new A)"

definition cert_set_not_after :: "('x, 't, 'n, 'i, 'k, 'e, 'm) cert_api \<Rightarrow> 't \<Rightarrow> ('x, unit) eff" where
  "cert_set_not_after A not_after = set_cvt (X509_set1_notAfter A not_after)"

definition cert_set_not_before :: "('x, 't, 'n, 'i, 'k, 'e, 'm) cert_api \<Rightarrow> 't \<Rightarrow> ('x, unit) eff" where
  "cert_set_not_before A not_before = set_cvt (X509_set1_notBefore A not_before)"

definition cert_set_version :: "('x, 't, 'n, 'i, 'k, 'e, 'm) cert_api \<Rightarrow> 32 word \<Rightarrow> ('x, unit) eff" where
  "cert_set_version A version = set_cvt (X509_set_version A (sint version))"

definition cert_set_serial_number :: "('x, 't, 'n, 'i, 'k, 'e, 'm) cert_api \<Rightarrow> 'i \<Rightarrow> ('x, unit) eff" where
  "cert_set_serial_number A serial_number = set_cvt (X509_set_serialNumber A serial_number)"

definition cert_set_issuer_name :: "('x, 't, 'n, 'i, 'k, 'e, 'm) cert_api \<Rightarrow> 'n \<Rightarrow> ('x, unit) eff" where
  "cert_set_issuer_name A issuer_name = set_cvt (X509_set_issuer_name A issuer_name)"

definition cert_set_subject_name :: "('x, 't, 'n, 'i, 'k, 'e, 'm) cert_api \<Rightarrow> 'n \<Rightarrow> ('x, unit) eff" where
  "cert_set_subject_name A subject_name = set_cvt (X509_set_subject_name A subject_name)"

definition cert_set_pubkey :: "('x, 't, 'n, 'i, 'k, 'e, 'm) cert_api \<Rightarrow> 'k \<Rightarrow> ('x, unit) eff" where
  "cert_set_pubkey A key = set_cvt (X509_set_pubkey A key)"

definition cert_append_extension :: "('x, 't, 'n, 'i, 'k, 'e, 'm) cert_api \<Rightarrow> 'e \<Rightarrow> ('x, unit) eff" where
  "cert_append_extension A extension = set_cvt (X509_add_ext A (-1) extension)"

definition cert_sign :: "('x, 't, 'n, 'i, 'k, 'e, 'm) cert_api \<Rightarrow> 'k \<Rightarrow> 'm \<Rightarrow> ('x, unit) eff" where
  "cert_sign A key digest = set_cvt (X509_sign A digest key)"

text \<open>\<open>X509v3Context\<close>, by the arguments of \<open>X509V3_set_ctx\<close> and \<open>X509V3_set_nconf\<close>.\<close>

record ('x, 'r, 'f) v3_context =
  v3_issuer :: "'x option"
  v3_subject :: "'x option"
  v3_req :: "'r option"
  v3_nconf :: "'f option"

definition cert_v3_context :: "'x option \<Rightarrow> 'f option \<Rightarrow> 'x \<Rightarrow> ('x, 'r, 'f) v3_context" where
  "cert_v3_context issuer nconf x =
     \<lparr>v3_issuer = Some (case issuer of Some i \<Rightarrow> i | None \<Rightarrow> x), v3_subject = Some x, v3_req = None, v3_nconf = nconf\<rparr>"

section \<open>Reading certificates\<close>

definition cert_subject_name :: "('x, 't, 'n, 'i, 'k, 'e, 'm) cert_api \<Rightarrow> 'x \<Rightarrow> 'n outcome" where
  "cert_subject_name A x = not_null ''issuer name must not be null'' (X509_get_subject_name A x)"

definition cert_issuer_name :: "('x, 't, 'n, 'i, 'k, 'e, 'm) cert_api \<Rightarrow> 'x \<Rightarrow> 'n outcome" where
  "cert_issuer_name A x = not_null ''issuer name must not be null'' (X509_get_issuer_name A x)"

definition cert_subject_name_hash :: "('x, 't, 'n, 'i, 'k, 'e, 'm) cert_api \<Rightarrow> 'x \<Rightarrow> 32 word" where
  "cert_subject_name_hash A x = ucast (X509_subject_name_hash A x)"

definition cert_public_key :: "('x, 't, 'n, 'i, 'k, 'e, 'm) cert_api \<Rightarrow> 'x \<Rightarrow> ('u, 'k) eff" where
  "cert_public_key A x = ecvt_p (X509_get_pubkey A x)"

text \<open>A \<open>DigestBytes\<close> is its buffer and its length, and whether the call wrote beyond the buffer.\<close>

definition cert_digest ::
    "('x, 't, 'n, 'i, 'k, 'e, 'm) cert_api \<Rightarrow> 'm \<Rightarrow> 'x \<Rightarrow> ('u, byte list \<times> nat \<times> bool) eff" where
  "cert_digest A hash_type x =
     (let buf = replicate (EVP_MAX_MD_SIZE A) 0 in
      ebind (etry_int (2 ^ 32 - 1) (x_err_lib_none A) (EVP_MAX_MD_SIZE A)) (\<lambda>_.
        ebind (ecvt (\<lambda>u q. case X509_digest A hash_type x q of ((r, bs), q') \<Rightarrow> ((r, bs), u, q'))) (\<lambda>bs.
          eret (fst (written_to buf bs), length bs, snd (written_to buf bs)))))"

text \<open>\<open>&buf[..len]\<close>\<close>

definition digest_slice :: "byte list \<times> nat \<times> bool \<Rightarrow> byte list outcome" where
  "digest_slice d =
     (case d of (buf, n, _) \<Rightarrow> if n \<le> length buf then Ret (take n buf) else Panic ''range end index out of range'')"

definition cert_fingerprint :: "('x, 't, 'n, 'i, 'k, 'e, 'm) cert_api \<Rightarrow> 'm \<Rightarrow> 'x \<Rightarrow> ('u, byte list) eff" where
  "cert_fingerprint A hash_type x =
     ebind (cert_digest A hash_type x) (\<lambda>d. case digest_slice d of Ret bs \<Rightarrow> eret bs | Panic p \<Rightarrow> epanic p)"

definition cert_not_after :: "('x, 't, 'n, 'i, 'k, 'e, 'm) cert_api \<Rightarrow> 'x \<Rightarrow> 't outcome" where
  "cert_not_after A x = not_null ''assertion failed: !date.is_null()'' (X509_getm_notAfter A x)"

definition cert_not_before :: "('x, 't, 'n, 'i, 'k, 'e, 'm) cert_api \<Rightarrow> 'x \<Rightarrow> 't outcome" where
  "cert_not_before A x = not_null ''assertion failed: !date.is_null()'' (X509_getm_notBefore A x)"

definition cert_serial_number :: "('x, 't, 'n, 'i, 'k, 'e, 'm) cert_api \<Rightarrow> 'x \<Rightarrow> 'i outcome" where
  "cert_serial_number A x = not_null ''assertion failed: !r.is_null()'' (X509_get_serialNumber A x)"

definition cert_issued :: "('x, 't, 'n, 'i, 'k, 'e, 'm) cert_api \<Rightarrow> 'x \<Rightarrow> 'x \<Rightarrow> int + unit" where
  "cert_issued A x subject =
     (let r = X509_check_issued A x subject in if r = X509_ok A then Inr () else Inl r)"

definition cert_verify :: "('x, 't, 'n, 'i, 'k, 'e, 'm) cert_api \<Rightarrow> 'x \<Rightarrow> 'k \<Rightarrow> ('u, bool) eff" where
  "cert_verify A x key = ask_n (X509_verify A x key) (\<lambda>n. n \<noteq> 0)"

definition check_host_with_flags ::
    "('x, 't, 'n, 'i, 'k, 'e, 'm) cert_api \<Rightarrow> string \<Rightarrow> 32 word \<Rightarrow> 'x \<Rightarrow> ('u, bool) eff" where
  "check_host_with_flags A host flags x = ask_n (X509_check_host A x host flags) (\<lambda>n. n = 1)"

definition check_host :: "('x, 't, 'n, 'i, 'k, 'e, 'm) cert_api \<Rightarrow> string \<Rightarrow> 'x \<Rightarrow> ('u, bool) eff" where
  "check_host A host x = check_host_with_flags A host 0 x"

definition check_ip_asc :: "('x, 't, 'n, 'i, 'k, 'e, 'm) cert_api \<Rightarrow> string \<Rightarrow> 'x \<Rightarrow> ('u, bool) eff" where
  "check_ip_asc A address x =
     ebind (ecstring (x_err_lib_none A) address) (\<lambda>c_str. ask_n (X509_check_ip_asc A x c_str) (\<lambda>n. n = 1))"

section \<open>Requests\<close>

definition req_builder_new :: "('r, 'n, 'k, 'e, 'm) req_api \<Rightarrow> ('u, 'r) eff" where
  "req_builder_new R = ecvt_p (X509_REQ_new R)"

definition req_set_version :: "('r, 'n, 'k, 'e, 'm) req_api \<Rightarrow> 32 word \<Rightarrow> ('r, unit) eff" where
  "req_set_version R version = set_cvt (X509_REQ_set_version R (sint version))"

definition req_set_subject_name :: "('r, 'n, 'k, 'e, 'm) req_api \<Rightarrow> 'n \<Rightarrow> ('r, unit) eff" where
  "req_set_subject_name R subject_name = set_cvt (X509_REQ_set_subject_name R subject_name)"

definition req_set_pubkey :: "('r, 'n, 'k, 'e, 'm) req_api \<Rightarrow> 'k \<Rightarrow> ('r, unit) eff" where
  "req_set_pubkey R key = set_cvt (X509_REQ_set_pubkey R key)"

definition req_v3_context :: "'f option \<Rightarrow> 'r \<Rightarrow> ('x, 'r, 'f) v3_context" where
  "req_v3_context nconf r = \<lparr>v3_issuer = None, v3_subject = None, v3_req = Some r, v3_nconf = nconf\<rparr>"

definition req_add_extensions :: "('r, 'n, 'k, 'e, 'm) req_api \<Rightarrow> 'e list \<Rightarrow> ('r, unit) eff" where
  "req_add_extensions R extensions = set_cvt (X509_REQ_add_extensions R extensions)"

definition req_sign :: "('r, 'n, 'k, 'e, 'm) req_api \<Rightarrow> 'k \<Rightarrow> 'm \<Rightarrow> ('r, unit) eff" where
  "req_sign R key digest = set_cvt (X509_REQ_sign R digest key)"

definition req_version :: "('r, 'n, 'k, 'e, 'm) req_api \<Rightarrow> 'r \<Rightarrow> 32 word" where
  "req_version R r = word_of_int (X509_REQ_get_version R r)"

definition req_subject_name :: "('r, 'n, 'k, 'e, 'm) req_api \<Rightarrow> 'r \<Rightarrow> 'n outcome" where
  "req_subject_name R r = not_null ''assertion failed: !name.is_null()'' (X509_REQ_get_subject_name R r)"

definition req_public_key :: "('r, 'n, 'k, 'e, 'm) req_api \<Rightarrow> 'r \<Rightarrow> ('u, 'k) eff" where
  "req_public_key R r = ecvt_p (X509_REQ_get_pubkey R r)"

definition req_verify :: "('r, 'n, 'k, 'e, 'm) req_api \<Rightarrow> 'r \<Rightarrow> 'k \<Rightarrow> ('u, bool) eff" where
  "req_verify R r key = ask_n (X509_REQ_verify R r key) (\<lambda>n. n \<noteq> 0)"

definition req_extensions :: "('r, 'n, 'k, 'e, 'm) req_api \<Rightarrow> 'r \<Rightarrow> ('u, 'e list) eff" where
  "req_extensions R r = ecvt_p (X509_REQ_get_extensions R r)"

section \<open>What is built is read back\<close>

text \<open>
  What BoringSSL keeps of a certificate. \<open>vw_signed\<close> is the key that verifies the signature; a change of the certificate
  leaves it unspecified.
\<close>

record ('t, 'n, 'i, 'k, 'e) cert_view =
  vw_not_after :: 't
  vw_not_before :: 't
  vw_version :: int
  vw_serial :: 'i
  vw_issuer :: 'n
  vw_subject :: 'n
  vw_key :: "'k option"
  vw_exts :: "'e list"
  vw_signed :: "'k option"

datatype ('t, 'n, 'i, 'k, 'e, 'm) cert_step =
  Not_After 't | Not_Before 't | Version "32 word" | Serial 'i | Issuer 'n | Subject 'n | Pubkey 'k | Extension 'e
  | Signature 'k 'm

fun build_step ::
    "('x, 't, 'n, 'i, 'k, 'e, 'm) cert_api \<Rightarrow> ('t, 'n, 'i, 'k, 'e, 'm) cert_step \<Rightarrow> ('x, unit) eff" where
  "build_step A (Not_After t) = cert_set_not_after A t"
| "build_step A (Not_Before t) = cert_set_not_before A t"
| "build_step A (Version v) = cert_set_version A v"
| "build_step A (Serial i) = cert_set_serial_number A i"
| "build_step A (Issuer n) = cert_set_issuer_name A n"
| "build_step A (Subject n) = cert_set_subject_name A n"
| "build_step A (Pubkey k) = cert_set_pubkey A k"
| "build_step A (Extension e) = cert_append_extension A e"
| "build_step A (Signature k m) = cert_sign A k m"

fun build_steps ::
    "('x, 't, 'n, 'i, 'k, 'e, 'm) cert_api \<Rightarrow> ('t, 'n, 'i, 'k, 'e, 'm) cert_step list \<Rightarrow> ('x, unit) eff" where
  "build_steps A [] = eret ()"
| "build_steps A (st # sts) = ethen (build_step A st) (build_steps A sts)"

text \<open>The same on views. \<open>pub\<close> is the public half of a key.\<close>

fun view_step ::
    "('k \<Rightarrow> 'k) \<Rightarrow> ('t, 'n, 'i, 'k, 'e, 'm) cert_step \<Rightarrow> ('t, 'n, 'i, 'k, 'e) cert_view \<Rightarrow> ('t, 'n, 'i, 'k, 'e) cert_view"
where
  "view_step pub (Not_After t) w = w\<lparr>vw_not_after := t, vw_signed := None\<rparr>"
| "view_step pub (Not_Before t) w = w\<lparr>vw_not_before := t, vw_signed := None\<rparr>"
| "view_step pub (Version v) w = w\<lparr>vw_version := sint v, vw_signed := None\<rparr>"
| "view_step pub (Serial i) w = w\<lparr>vw_serial := i, vw_signed := None\<rparr>"
| "view_step pub (Issuer n) w = w\<lparr>vw_issuer := n, vw_signed := None\<rparr>"
| "view_step pub (Subject n) w = w\<lparr>vw_subject := n, vw_signed := None\<rparr>"
| "view_step pub (Pubkey k) w = w\<lparr>vw_key := Some (pub k), vw_signed := None\<rparr>"
| "view_step pub (Extension e) w = w\<lparr>vw_exts := vw_exts w @ [e], vw_signed := None\<rparr>"
| "view_step pub (Signature k m) w = w\<lparr>vw_signed := Some (pub k)\<rparr>"

text \<open>\<open>openssl/x509.h\<close>: a setter that succeeds copies its argument; it may fail at any time.\<close>

definition sets :: "('x \<Rightarrow> 'w) \<Rightarrow> ('x, 'a) c_set \<Rightarrow> ('a \<Rightarrow> 'w \<Rightarrow> 'w) \<Rightarrow> bool" where
  "sets view f upd \<longleftrightarrow> (\<forall>v x q r x' q'. f v x q = (r, x', q') \<longrightarrow> 0 < r \<longrightarrow> view x' = upd v (view x))"

definition cert_sets ::
    "('x, 't, 'n, 'i, 'k, 'e, 'm) cert_api \<Rightarrow> ('x \<Rightarrow> ('t, 'n, 'i, 'k, 'e) cert_view) \<Rightarrow> ('k \<Rightarrow> 'k) \<Rightarrow> bool" where
  "cert_sets A view pub \<longleftrightarrow>
     sets view (X509_set1_notAfter A) (\<lambda>t w. w\<lparr>vw_not_after := t, vw_signed := None\<rparr>) \<and>
     sets view (X509_set1_notBefore A) (\<lambda>t w. w\<lparr>vw_not_before := t, vw_signed := None\<rparr>) \<and>
     sets view (X509_set_version A) (\<lambda>v w. w\<lparr>vw_version := v, vw_signed := None\<rparr>) \<and>
     sets view (X509_set_serialNumber A) (\<lambda>i w. w\<lparr>vw_serial := i, vw_signed := None\<rparr>) \<and>
     sets view (X509_set_issuer_name A) (\<lambda>n w. w\<lparr>vw_issuer := n, vw_signed := None\<rparr>) \<and>
     sets view (X509_set_subject_name A) (\<lambda>n w. w\<lparr>vw_subject := n, vw_signed := None\<rparr>) \<and>
     sets view (X509_set_pubkey A) (\<lambda>k w. w\<lparr>vw_key := Some (pub k), vw_signed := None\<rparr>) \<and>
     sets view (X509_add_ext A (-1)) (\<lambda>e w. w\<lparr>vw_exts := vw_exts w @ [e], vw_signed := None\<rparr>) \<and>
     (\<forall>m. sets view (X509_sign A m) (\<lambda>k w. w\<lparr>vw_signed := Some (pub k)\<rparr>))"

definition cert_reads ::
    "('x, 't, 'n, 'i, 'k, 'e, 'm) cert_api \<Rightarrow> ('x \<Rightarrow> ('t, 'n, 'i, 'k, 'e) cert_view) \<Rightarrow> ('k \<Rightarrow> 'k) \<Rightarrow> bool" where
  "cert_reads A view pub \<longleftrightarrow>
     (\<forall>x. X509_getm_notAfter A x = Some (vw_not_after (view x)) \<and>
        X509_getm_notBefore A x = Some (vw_not_before (view x)) \<and>
        X509_get_serialNumber A x = Some (vw_serial (view x)) \<and>
        X509_get_issuer_name A x = Some (vw_issuer (view x)) \<and>
        X509_get_subject_name A x = Some (vw_subject (view x))) \<and>
     (\<forall>x k q. vw_key (view x) = Some k \<longrightarrow> fst (X509_get_pubkey A x q) = Some k) \<and>
     (\<forall>x k q. vw_signed (view x) = Some (pub k) \<longrightarrow> fst (X509_verify A x k q) = 1)"

lemma set_cvt_ok:
  assumes "sets view (f :: ('x, 'a) c_set) upd" "set_cvt (f v) x q = (Ok u, x', q')"
  shows "view x' = upd v (view x)"
proof -
  obtain r q1 where "f v x q = (r, x', q1)" "0 < r"
    using assms(2) unfolding set_cvt_def ecvt_eq_ok by (auto split: prod.splits)
  then show ?thesis using assms(1) unfolding sets_def by blast
qed

lemma cert_readsD:
  assumes "cert_reads A view pub"
  shows "X509_getm_notAfter A x = Some (vw_not_after (view x))" "X509_getm_notBefore A x = Some (vw_not_before (view x))"
    "X509_get_serialNumber A x = Some (vw_serial (view x))" "X509_get_issuer_name A x = Some (vw_issuer (view x))"
    "X509_get_subject_name A x = Some (vw_subject (view x))"
    "vw_key (view x) = Some k \<Longrightarrow> fst (X509_get_pubkey A x q) = Some k"
    "vw_signed (view x) = Some (pub k) \<Longrightarrow> fst (X509_verify A x k q) = 1"
  using assms unfolding cert_reads_def by simp_all

lemma build_step_ok:
  assumes "cert_sets A view pub" "build_step A st x q = (Ok u, x', q')"
  shows "view x' = view_step pub st (view x)"
proof -
  note spec = assms(1)[unfolded cert_sets_def]
  show ?thesis
    using assms(2) spec
    by (cases st) (auto simp: cert_set_not_after_def cert_set_not_before_def cert_set_version_def
        cert_set_serial_number_def cert_set_issuer_name_def cert_set_subject_name_def cert_set_pubkey_def
        cert_append_extension_def cert_sign_def dest: set_cvt_ok)
qed

lemma build_steps_ok:
  assumes "cert_sets A view pub" "build_steps A sts x q = (Ok u, x', q')"
  shows "view x' = fold (view_step pub) sts (view x)"
  using assms(2)
proof (induction sts arbitrary: x q)
  case (Cons st sts)
  then obtain u1 x1 q1 where "build_step A st x q = (Ok u1, x1, q1)" "build_steps A sts x1 q1 = (Ok u, x', q')"
    by (auto simp: ethen_eq_ok)
  then show ?case using Cons.IH build_step_ok[OF assms(1)] by simp
qed simp

text \<open>
  C31: If the steps of a builder succeed, in whatever order and however often, every accessor of the certificate returns
  what was given last, the extensions are kept in the order in which they were appended, no accessor panics, and the
  certificate verifies with the key that signed it last unless it was changed after that.
\<close>

theorem built_certificate_reads_back:
  assumes "cert_sets A view pub" "cert_reads A view pub"
    and "cert_builder_new A u q = (Ok x, u', q0)" "view x = fresh" "build_steps A sts x q0 = (Ok v, c, q1)"
    and "w = fold (view_step pub) sts fresh"
  shows "cert_not_after A c = Ret (vw_not_after w) \<and> cert_not_before A c = Ret (vw_not_before w) \<and>
    cert_serial_number A c = Ret (vw_serial w) \<and> cert_issuer_name A c = Ret (vw_issuer w) \<and>
    cert_subject_name A c = Ret (vw_subject w) \<and> vw_exts (view c) = vw_exts w \<and>
    (\<forall>k s q. vw_key w = Some k \<longrightarrow> fst (cert_public_key A c (s :: unit) q) = Ok k) \<and>
    (\<forall>k s q. vw_signed w = Some (pub k) \<longrightarrow> fst (cert_verify A c k (s :: unit) q) = Ok True)"
proof -
  have w: "view c = w" using build_steps_ok[OF assms(1,5)] assms(4,6) by simp
  have key: "fst (cert_public_key A c (s :: unit) q) = Ok k" if "vw_key w = Some k" for k s q
    using cert_readsD(6)[OF assms(2), of c k q] that w
    by (cases "X509_get_pubkey A c q") (simp add: cert_public_key_def ecvt_p_def cvt_p_def)
  have sig: "fst (cert_verify A c k (s :: unit) q) = Ok True" if "vw_signed w = Some (pub k)" for k s q
    using cert_readsD(7)[OF assms(2), of c k q] that w
    by (cases "X509_verify A c k q") (simp add: cert_verify_def ask_n_def cvt_n_def)
  show ?thesis
    using w key sig
    by (simp add: cert_readsD(1-5)[OF assms(2)] cert_not_after_def cert_not_before_def cert_serial_number_def cert_issuer_name_def
        cert_subject_name_def not_null_def)
qed

text \<open>A library that keeps the view itself, with keys from one number for both halves.\<close>

type_synonym view_cert = "(nat, string, nat, nat, string) cert_view"

definition always :: "('a \<Rightarrow> 'x \<Rightarrow> 'x) \<Rightarrow> ('x, 'a) c_set" where
  "always upd v x q = (1, upd v x, q)"

definition fresh_cert :: view_cert where
  "fresh_cert = \<lparr>vw_not_after = 0, vw_not_before = 0, vw_version = 0, vw_serial = 0, vw_issuer = [], vw_subject = [],
     vw_key = None, vw_exts = [], vw_signed = None\<rparr>"

definition view_api :: "(view_cert, nat, string, nat, nat, string, unit) cert_api" where
  "view_api = \<lparr>X509_new = \<lambda>q. (Some fresh_cert, q),
     X509_set1_notAfter = always (\<lambda>t w. w\<lparr>vw_not_after := t, vw_signed := None\<rparr>),
     X509_set1_notBefore = always (\<lambda>t w. w\<lparr>vw_not_before := t, vw_signed := None\<rparr>),
     X509_set_version = always (\<lambda>v w. w\<lparr>vw_version := v, vw_signed := None\<rparr>),
     X509_set_serialNumber = always (\<lambda>i w. w\<lparr>vw_serial := i, vw_signed := None\<rparr>),
     X509_set_issuer_name = always (\<lambda>n w. w\<lparr>vw_issuer := n, vw_signed := None\<rparr>),
     X509_set_subject_name = always (\<lambda>n w. w\<lparr>vw_subject := n, vw_signed := None\<rparr>),
     X509_set_pubkey = always (\<lambda>k w. w\<lparr>vw_key := Some k, vw_signed := None\<rparr>),
     X509_add_ext = \<lambda>_. always (\<lambda>e w. w\<lparr>vw_exts := vw_exts w @ [e], vw_signed := None\<rparr>),
     X509_sign = \<lambda>_. always (\<lambda>k w. w\<lparr>vw_signed := Some k\<rparr>),
     X509_get_subject_name = \<lambda>w. Some (vw_subject w), X509_get_issuer_name = \<lambda>w. Some (vw_issuer w),
     X509_subject_name_hash = \<lambda>_. 0, X509_get_pubkey = \<lambda>w q. (vw_key w, q),
     X509_digest = \<lambda>_ _ q. ((0, []), q), EVP_MAX_MD_SIZE = 64,
     X509_getm_notAfter = \<lambda>w. Some (vw_not_after w), X509_getm_notBefore = \<lambda>w. Some (vw_not_before w),
     X509_get_serialNumber = \<lambda>w. Some (vw_serial w), X509_check_issued = \<lambda>_ _. 0, X509_ok = 0,
     X509_verify = \<lambda>w k q. (if vw_signed w = Some k then 1 else 0, q), X509_check_host = \<lambda>_ _ _ q. (0, q),
     X509_check_ip_asc = \<lambda>_ _ q. (0, q), x_err_lib_none = 1\<rparr>"

lemma view_api_ok: "cert_sets view_api (\<lambda>w. w) (\<lambda>k. k)" "cert_reads view_api (\<lambda>w. w) (\<lambda>k. k)"
  by (simp_all add: cert_sets_def cert_reads_def sets_def always_def view_api_def)

theorem built_certificate_reads_back_witness:
  "\<exists>c. build_steps view_api [Not_After 9, Subject ''a'', Not_After 5, Pubkey 7, Extension ''e'', Signature 7 ()] fresh_cert []
       = (Ok (), c, []) \<and>
     cert_not_after view_api c = Ret 5 \<and> cert_subject_name view_api c = Ret ''a'' \<and>
     fst (cert_public_key view_api c () []) = Ok 7 \<and> fst (cert_verify view_api c 7 () []) = Ok True"
proof -
  let ?steps = "[Not_After 9, Subject ''a'', Not_After 5, Pubkey 7, Extension ''e'', Signature 7 ()]"
  let ?w = "fold (view_step (\<lambda>k. k)) ?steps fresh_cert"
  have new: "cert_builder_new view_api () [] = (Ok fresh_cert, (), [])"
    by (simp add: cert_builder_new_def view_api_def ecvt_p_def cvt_p_def)
  have built: "build_steps view_api ?steps fresh_cert [] = (Ok (), ?w, [])"
    by (simp add: cert_set_not_after_def cert_set_subject_name_def cert_set_pubkey_def cert_append_extension_def
        cert_sign_def set_cvt_def ecvt_def cvt_def view_api_def always_def ethen_def ebind_def)
  have "vw_not_after ?w = 5 \<and> vw_subject ?w = ''a'' \<and> vw_key ?w = Some 7 \<and> vw_signed ?w = Some 7" by simp
  then show ?thesis
    using built_certificate_reads_back[OF view_api_ok new refl built refl] built by (intro exI[of _ ?w]) simp
qed

text \<open>The same for requests, whose version and extensions can be read.\<close>

record ('n, 'k, 'e) req_view =
  rw_version :: int
  rw_subject :: 'n
  rw_key :: "'k option"
  rw_exts :: "'e list"
  rw_signed :: "'k option"

definition req_spec :: "('r, 'n, 'k, 'e, 'm) req_api \<Rightarrow> ('r \<Rightarrow> ('n, 'k, 'e) req_view) \<Rightarrow> ('k \<Rightarrow> 'k) \<Rightarrow> bool" where
  "req_spec R view pub \<longleftrightarrow>
     sets view (X509_REQ_set_version R) (\<lambda>v w. w\<lparr>rw_version := v, rw_signed := None\<rparr>) \<and>
     sets view (X509_REQ_set_subject_name R) (\<lambda>n w. w\<lparr>rw_subject := n, rw_signed := None\<rparr>) \<and>
     sets view (X509_REQ_set_pubkey R) (\<lambda>k w. w\<lparr>rw_key := Some (pub k), rw_signed := None\<rparr>) \<and>
     sets view (X509_REQ_add_extensions R) (\<lambda>es w. w\<lparr>rw_exts := es, rw_signed := None\<rparr>) \<and>
     (\<forall>m. sets view (X509_REQ_sign R m) (\<lambda>k w. w\<lparr>rw_signed := Some (pub k)\<rparr>)) \<and>
     (\<forall>r. X509_REQ_get_version R r = rw_version (view r) \<and> X509_REQ_get_subject_name R r = Some (rw_subject (view r))) \<and>
     (\<forall>r q. fst (X509_REQ_get_extensions R r q) = Some (rw_exts (view r))) \<and>
     (\<forall>r k q. rw_signed (view r) = Some (pub k) \<longrightarrow> fst (X509_REQ_verify R r k q) = 1)"

definition request ::
    "('r, 'n, 'k, 'e, 'm) req_api \<Rightarrow> 32 word \<Rightarrow> 'n \<Rightarrow> 'k \<Rightarrow> 'e list \<Rightarrow> 'm \<Rightarrow> ('r, unit) eff" where
  "request R version name key exts m =
     ethen (req_set_version R version) (ethen (req_set_subject_name R name) (ethen (req_set_pubkey R key)
       (ethen (req_add_extensions R exts) (req_sign R key m))))"

lemma req_specD:
  assumes "req_spec R view pub"
  shows "sets view (X509_REQ_set_version R) (\<lambda>v w. w\<lparr>rw_version := v, rw_signed := None\<rparr>)"
    "sets view (X509_REQ_set_subject_name R) (\<lambda>n w. w\<lparr>rw_subject := n, rw_signed := None\<rparr>)"
    "sets view (X509_REQ_set_pubkey R) (\<lambda>k w. w\<lparr>rw_key := Some (pub k), rw_signed := None\<rparr>)"
    "sets view (X509_REQ_add_extensions R) (\<lambda>es w. w\<lparr>rw_exts := es, rw_signed := None\<rparr>)"
    "sets view (X509_REQ_sign R m) (\<lambda>k w. w\<lparr>rw_signed := Some (pub k)\<rparr>)"
    "X509_REQ_get_version R r = rw_version (view r)" "X509_REQ_get_subject_name R r = Some (rw_subject (view r))"
    "fst (X509_REQ_get_extensions R r q) = Some (rw_exts (view r))"
    "rw_signed (view r) = Some (pub k) \<Longrightarrow> fst (X509_REQ_verify R r k q) = 1"
  using assms unfolding req_spec_def by blast+

lemma built_request_reads_back:
  assumes spec: "req_spec R view pub" and run: "request R version name key exts m r q = (Ok u, r', q')"
  shows "req_version R r' = version" "req_subject_name R r' = Ret name" "fst (req_extensions R r' s q1) = Ok exts"
    "fst (req_verify R r' key s q1) = Ok True"
proof -
  from run obtain r1 r2 r3 r4 u1 u2 u3 u4 p1 p2 p3 p4 where
    runs: "set_cvt (X509_REQ_set_version R (sint version)) r q = (Ok u1, r1, p1)"
      "set_cvt (X509_REQ_set_subject_name R name) r1 p1 = (Ok u2, r2, p2)"
      "set_cvt (X509_REQ_set_pubkey R key) r2 p2 = (Ok u3, r3, p3)"
      "set_cvt (X509_REQ_add_extensions R exts) r3 p3 = (Ok u4, r4, p4)"
      "set_cvt (X509_REQ_sign R m key) r4 p4 = (Ok u, r', q')"
    unfolding request_def ethen_eq_ok req_set_version_def req_set_subject_name_def req_set_pubkey_def
      req_add_extensions_def req_sign_def by blast
  note views =
    set_cvt_ok[where f = "X509_REQ_set_version R", OF req_specD(1)[OF spec] runs(1)]
    set_cvt_ok[where f = "X509_REQ_set_subject_name R", OF req_specD(2)[OF spec] runs(2)]
    set_cvt_ok[where f = "X509_REQ_set_pubkey R", OF req_specD(3)[OF spec] runs(3)]
    set_cvt_ok[where f = "X509_REQ_add_extensions R", OF req_specD(4)[OF spec] runs(4)]
    set_cvt_ok[where f = "X509_REQ_sign R m", OF req_specD(5)[OF spec] runs(5)]
  have w: "rw_version (view r') = sint version" "rw_subject (view r') = name" "rw_exts (view r') = exts"
    "rw_signed (view r') = Some (pub key)"
    by (simp_all add: views)
  show "req_version R r' = version" "req_subject_name R r' = Ret name"
    by (simp_all add: req_version_def req_subject_name_def not_null_def req_specD(6,7)[OF spec] w)
  have "fst (X509_REQ_get_extensions R r' q1) = Some exts" "fst (X509_REQ_verify R r' key q1) = 1"
    using req_specD(9)[OF spec w(4)] by (simp_all add: req_specD(8)[OF spec] w)
  then show "fst (req_extensions R r' s q1) = Ok exts" "fst (req_verify R r' key s q1) = Ok True"
    by (cases "X509_REQ_get_extensions R r' q1"; cases "X509_REQ_verify R r' key q1";
        simp add: req_extensions_def req_verify_def ecvt_p_def cvt_p_def ask_n_def cvt_n_def)+
qed

text \<open>A digest of at most \<open>EVP_MAX_MD_SIZE\<close> bytes is returned whole, and reading it does not panic.\<close>

lemma digest_is_whole:
  assumes "cert_digest A m x s q = (Ok d, s', q')" "\<And>q. length (snd (fst (X509_digest A m x q))) \<le> EVP_MAX_MD_SIZE A"
  obtains bs where "digest_slice d = Ret bs" "\<not> snd (snd d)" "snd (fst (X509_digest A m x q)) = bs"
proof -
  obtain r bs q1 where call: "X509_digest A m x q = ((r, bs), q1)" by (metis prod.collapse)
  have "length bs \<le> EVP_MAX_MD_SIZE A" using assms(2)[of q] call by simp
  then show ?thesis using that[of bs] assms(1) call
    by (auto simp: cert_digest_def Let_def ebind_eq_ok etry_int_eq_ok ecvt_eq_ok digest_slice_def written_to_def
        split: prod.splits)
qed

text \<open>\<open>check_ip_asc\<close> refuses text with a NUL before BoringSSL sees it; \<open>check_host\<close> does not, it passes the length.\<close>

lemma check_ip_asc_nul: "CHR 0x00 \<in> set address \<Longrightarrow> \<exists>es. check_ip_asc A address x s q = (Err es, s, q)"
  by (simp add: check_ip_asc_def ecstring_def ebind_def)

end
