(* ===== verification/Spec2Isabelle.thy ===== *)
theory Spec2Isabelle
  imports Tls_Run Ech_Grease Hash Symm Aead Connector Callbacks Stack Quic Base64 Pem Sign Key_Wrap Kdf Asn1 X509_Ext X509 Peer_Verify Registry Ssl_Config Mldsa Key_Parts Bn Key_Ops X509_Gate Digests X509_Cert
begin

text \<open>
  \<^bold>\<open>btls: BoringSSL for Rust, and TLS streams for tokio\<close>

  The repository has three crates. \<open>btls-sys\<close> builds BoringSSL with the patches of \<open>btls-sys/patches\<close> and generates its
  bindings. \<open>btls\<close> wraps BoringSSL: error handling, hashing, ciphers, keys, certificates, and in \<open>btls/src/ssl\<close>
  contexts, connections, their callbacks and a blocking-style stream. \<open>tokio-btls\<close> makes asynchronous streams of these
  connections. What is written in Rust is modelled; BoringSSL, the transports under a connection and the callbacks
  of applications are parameters.

  \<^bold>\<open>How the model is made\<close>

  A component is one theory: records and datatypes with the fields and cases of its Rust types, one definition per
  function, and the lemmas that make it correct. A foreign function is a field of a record of functions, and what its
  documentation promises is a definition with a name (\<open>engine_ok\<close>, \<open>md_ok\<close>, \<open>sk_ok\<close>, ...) that appears as a hypothesis
  where it is needed; each of them is shown to be satisfiable by an instance, as executable as the model. Laws of
  interfaces that several operations share are locales: \<open>async_writer\<close>, \<open>async_reader\<close> and \<open>async_duplex\<close> (a
  transport), \<open>bio_stream\<close> (a stream behind the BIO), \<open>future_callback\<close> (a callback that keeps a future).
  Effects are values: \<open>'e + 'a\<close> for \<open>Result\<close>, \<open>poll\<close> for \<open>Poll\<close>, \<open>outcome\<close> for a call that may panic, \<open>comp\<close> for a call
  that may also loop for ever, \<open>eresult\<close> for a method that changes its object, reads the error queue and may panic.
  Machine integers are words where their width matters; \<open>usize\<close> values are \<open>nat\<close> against the bound \<open>usize_max\<close>.

  \<^bold>\<open>The theories\<close>

  Foundations. \<open>Prelude\<close>: the vocabulary of Rust. \<open>Effects\<close>: fallible methods and their rules. \<open>Hoare\<close>:
  triples over them, with the outcome of a panic and of an error. \<open>Errors\<close>
  (\<open>btls/src/error.rs\<close>, \<open>ssl/error.rs\<close>, the \<open>cvt\<close> functions of \<open>lib.rs\<close>): the error queue and the stack popped from it, the
  codes of \<open>ssl::Error\<close>, its conversion to \<open>io::Error\<close>. \<open>Error_Put\<close>: putting errors back; put and get are inverse.

  The asynchronous stream (\<open>tokio-btls/src/lib.rs\<close>). A poll installs its task context in the \<open>StreamWrapper\<close>, calls
  BoringSSL, whose BIO callbacks read and write the wrapper, and removes the context. \<open>Transport\<close>: the transports and their
  laws. \<open>Buffers\<close>: \<open>ReadBuffer\<close> and \<open>WriteBuffer\<close>, which hold received and sealed bytes. \<open>Packer\<close>: cutting a vectored
  write into records. \<open>Bio\<close> (\<open>btls/src/ssl/bio.rs\<close>): the BIO callbacks; a call of BoringSSL is the tree of the BIO calls it
  makes. \<open>Ssl_Stream\<close> (\<open>SslStream\<close> and the handshakes of \<open>btls/src/ssl/mod.rs\<close>): the functions of BoringSSL as \<open>ssl_api\<close>, their
  contract \<open>engine_ok\<close> over four histories of a connection (plaintext taken and opened, bytes sealed and ingested).
  \<open>Wrapper\<close>: \<open>StreamWrapper\<close>. \<open>Tls_Stream\<close>: the polls. \<open>Tls_Write\<close>, \<open>Tls_Polls\<close>: each poll from a well-formed state to a
  well-formed state, with what it does to the histories; \<open>reads\<close> says which records a read goes through and what it
  meets, \<open>shutdown_called\<close> what a shutdown makes of the answer of \<open>SSL_shutdown\<close>. \<open>Tls_Run\<close>: sequences of polls and the reachable states.
  \<open>Null_Engine\<close>: a connection without encryption that satisfies \<open>engine_ok\<close>. The properties of this theory, below, compose
  them: no byte is lost, repeated or reordered between the application and the wire.

  Contexts and connections (\<open>btls/src/ssl\<close>). \<open>Connector\<close> (\<open>connector.rs\<close>): the contexts of \<open>SslConnector\<close> and \<open>SslAcceptor\<close>; who
  verifies what. \<open>Client_Session\<close> (\<open>connector.rs\<close>, \<open>x509/verify.rs\<close>): which session a connection is offered. \<open>Ex_Data\<close>: the typed
  user data of contexts and connections. \<open>Registry\<close>: the indexes under which callbacks are kept and every setter of a
  callback; the C functions find callbacks of the type they cast to. \<open>Callbacks\<close> (\<open>callbacks.rs\<close>): these C functions, their
  out parameters and failures. \<open>Async_Callbacks\<close> (\<open>async_callbacks.rs\<close>): callbacks that answer with a future. \<open>Verify_Store\<close>:
  the certificate stores of contexts and connections as a transition system. \<open>Peer_Verify\<close>: \<open>verify_peer_cert_chain\<close> and
  the store contexts. \<open>Ech_Grease\<close> (\<open>ech_grease.rs\<close>): the sizes of the fake extension, the policies, and what
  BoringSSL gets from them: the two built-in rules respect its budget, any other policy is passed on unchecked. \<open>Quic\<close>
  (\<open>quic.rs\<close>): connections whose messages the application carries; a method that fails ends the handshake. \<open>Ssl_Config\<close>: versions, application protocols, and
  the settings that do more than pass a value on. \<open>X509_Gate\<close>: the methods that are one call of BoringSSL, as a log of
  calls; those that check first never call a function of certificates on a context made without them, and the few that
  do not check are shown to.

  Cryptography and data. \<open>Hash\<close> (\<open>hash.rs\<close>), \<open>Symm\<close> (\<open>symm.rs\<close>), \<open>Aead\<close> (\<open>aead.rs\<close>), \<open>Sign\<close> (\<open>sign.rs\<close>), \<open>Key_Wrap\<close> (\<open>aes.rs\<close>), \<open>Kdf\<close>
  (\<open>hkdf.rs\<close>, \<open>derive.rs\<close>, \<open>pkcs5.rs\<close>, \<open>prf.rs\<close>, \<open>rand.rs\<close>, \<open>memcmp.rs\<close>), \<open>Base64\<close> (\<open>base64.rs\<close>): the buffers, states and
  length checks around BoringSSL's functions, and round trips that follow from theirs. \<open>Stack\<close> (\<open>stack.rs\<close>): owned stacks and
  what they free. \<open>Digests\<close> (\<open>sha.rs\<close>, \<open>hmac.rs\<close>, \<open>chacha.rs\<close>): the one-shot functions and the hashers, and HMAC with the
  life of its context. \<open>Pem\<close> (\<open>util.rs\<close>, \<open>bio.rs\<close>, \<open>macros.rs\<close>, \<open>pkey.rs\<close>): reading and writing keys, and the password
  callback. \<open>Asn1\<close> (\<open>asn1.rs\<close>, \<open>string.rs\<close>): times, strings, texts of objects. \<open>X509_Ext\<close> (\<open>x509/extension.rs\<close>): extensions
  and general names, what building them from items frees. \<open>X509\<close> (\<open>x509/mod.rs\<close>): lists of certificates and names.
  \<open>X509_Cert\<close> (the same file): the builders and accessors of certificates and requests.

  Keys and numbers. \<open>Bn\<close> (\<open>bn.rs\<close>): big numbers with the documented functions of BoringSSL over \<open>int\<close>; operators are integer
  arithmetic. \<open>Key_Parts\<close> (constructors in \<open>rsa.rs\<close>, \<open>dsa.rs\<close>, \<open>dh.rs\<close>, \<open>ecdsa.rs\<close>, \<open>ec.rs\<close>, \<open>pkey.rs\<close>, and \<open>pkcs12.rs\<close>): a heap of
  owned foreign objects; a constructor returns a key that owns its parts or frees them, once. \<open>Key_Ops\<close> (the other methods
  of these files): encryption, signatures, points and raw keys, with the slices they fill. \<open>Mlkem\<close> (\<open>mlkem.rs\<close>) and \<open>Mldsa\<close>
  (\<open>mldsa.rs\<close>): keys of several parameter sets, restored from bytes, seeds and by cloning.

  \<^bold>\<open>Loops and bounds\<close>

  Recursion over a slice or a counter is \<open>fun\<close> or \<open>function\<close> with a measure. Loops that go on until BoringSSL or a
  transport says so are \<open>partial_function\<close>, so that not to return is the value \<open>None\<close>: \<open>pack_all\<close>, \<open>read_uninit\<close>,
  \<open>ssl_stream_write\<close>, \<open>seal_records\<close>, \<open>read_records\<close>, \<open>stack_drop\<close>, \<open>read_certs\<close>, \<open>collect_entries\<close>. That they return is
  proved from the laws, never assumed; there is no fuel. The histories of a connection, the lists of freed objects and the
  flags for writes beyond a slice are ghost state: no definition decides on them.

  \<^bold>\<open>Not modelled\<close>

  Constants and tables (object identifiers, digests, ciphers, error codes of BoringSSL), types that only own a foreign
  object, and the getters and setters of sessions, ciphers and credentials that pass one value to one
  function of BoringSSL add nothing to a model in which that function is a parameter. Nor are modelled: the build of BoringSSL, benchmarks and tests; the memory of foreign objects
  beyond what is freed or written past its end; threads, except that a setting may be shared (\<open>Verify_Store\<close>); timing.
  The panics of a poll are shown not to happen, so the state one leaves behind is not kept.
\<close>

section \<open>The asynchronous stream\<close>

text \<open>
  C1: However a task polls a fresh stream, and whatever the transport answers, every poll returns and
  none panics. The plaintext that BoringSSL has taken is exactly, and in order, what the writes
  reported as written; the plaintext it has returned is exactly what the reads handed out; everything
  it has sealed is on the wire or still buffered, in order; and everything the transport has handed
  out is with BoringSSL or still unread. No task context is left behind.
\<close>

theorem stream_preserves_order:
  assumes "async_duplex T sent got" and "engine_ok E V"
    and "tls_new E alloc s t q = (Inr st0, q')" and "v_sealed V s = sent t" and "v_ingested V s = got t"
    and "list_all (\<lambda>op. op_context op \<noteq> 0) ops"
  shows "\<exists>st w r. exec_ops E T ops st0 = ret (st, w, r) \<and>
           v_taken V (ss_ssl st) = v_taken V s @ w \<and> v_opened V (ss_ssl st) = v_opened V s @ r \<and>
           v_sealed V (ss_ssl st) =
             sent (tr_stream (tls_transport st)) @ wb_buffered (tls_write_buf st) \<and>
           got (tr_stream (tls_transport st)) =
             v_ingested V (ss_ssl st) @ rb_unread (sw_read_buf (ss_get st)) \<and>
           tr_context (tls_transport st) = 0"
proof -
  note new = tls_new_idle [OF assms(3,2), of sent got, OF assms(4,5)]
  from async_duplex.exec_ops_ok [OF assms(1,2) new(1) assms(6)] obtain st w r where
    "exec_ops E T ops st0 = ret (st, w, r)" "tls_idle sent got V st"
    "v_taken V (ss_ssl st) = v_taken V s @ w" "v_opened V (ss_ssl st) = v_opened V s @ r"
    unfolding new(2,3) by blast
  with tls_idle_history [OF this(2)] show ?thesis by (auto simp: tls_idle_def)
qed

theorem stream_preserves_order_witness:
  "\<exists>st w r. exec_ops null_engine once_sink [Op_Write 1 [1, 2, 3], Op_Flush 1, Op_Read 1 8]
               (null_tls [7, 8] 2) = ret (st, w, r) \<and>
           v_taken null_view (ss_ssl st) = v_taken null_view null_start @ w \<and>
           v_opened null_view (ss_ssl st) = v_opened null_view null_start @ r \<and>
           v_sealed null_view (ss_ssl st) =
             sink_data (snd (tr_stream (tls_transport st))) @ wb_buffered (tls_write_buf st) \<and>
           once_log (fst (tr_stream (tls_transport st))) =
             v_ingested null_view (ss_ssl st) @ rb_unread (sw_read_buf (ss_get st)) \<and>
           tr_context (tls_transport st) = 0"
  by (rule stream_preserves_order [OF os.async_duplex_axioms null_engine_ok null_tls_new])
    (simp_all add: null_view_def null_start_def)

text \<open>
  C2: The contract of a write: \<open>poll_write_vectored\<close> always returns. If it reports \<open>n\<close> bytes, exactly
  the first \<open>n\<close> bytes of the slices were sealed, at least one unless the slices are empty. If it is
  pending or fails, no plaintext was taken, so that retrying with any data loses and repeats nothing.
\<close>

theorem write_reports_what_was_taken:
  assumes "async_duplex T sent got" and "engine_ok E V" and "tls_idle sent got V st" and "cx \<noteq> 0"
  shows "\<exists>st' r. poll_write_vectored E T cx bufs st = ret (st', r) \<and> tls_idle sent got V st' \<and>
           (case r of
              Ready (Inr n) \<Rightarrow>
                n \<le> length (concat bufs) \<and> (concat bufs \<noteq> [] \<longrightarrow> 0 < n) \<and>
                v_taken V (ss_ssl st') = v_taken V (ss_ssl st) @ take n (concat bufs)
            | _ \<Rightarrow> v_taken V (ss_ssl st') = v_taken V (ss_ssl st))"
  by (rule async_duplex.poll_write_vectored_ok [OF assms, of bufs]) blast

theorem write_reports_what_was_taken_witness:
  "\<exists>st' r. poll_write_vectored null_engine once_sink 1 [[1], [], [2, 3]] (null_tls [] 2) = ret (st', r) \<and>
           tls_idle (\<lambda>t. sink_data (snd t)) (\<lambda>t. once_log (fst t)) null_view st' \<and>
           (case r of
              Ready (Inr n) \<Rightarrow>
                n \<le> length (concat [[1], [], [2, 3 :: byte]]) \<and>
                (concat [[1], [], [2, 3 :: byte]] \<noteq> [] \<longrightarrow> 0 < n) \<and>
                v_taken null_view (ss_ssl st') =
                  v_taken null_view (ss_ssl (null_tls [] 2)) @ take n (concat [[1], [], [2, 3]])
            | _ \<Rightarrow> v_taken null_view (ss_ssl st') = v_taken null_view (ss_ssl (null_tls [] 2)))"
  by (rule write_reports_what_was_taken [OF os.async_duplex_axioms null_engine_ok null_tls_idle]) simp

text \<open>
  C3: The contract of a read: \<open>poll_read\<close> always returns, and hands out exactly the plaintext that
  BoringSSL returned meanwhile, at most what fits. An end or error kept by an earlier read is reported
  at once, without data and without asking BoringSSL. Otherwise the read goes through the records as
  \<open>reads\<close> says. If it got no data, it answers with the end or error it met, or waits. If it got data,
  it reports success and keeps the end or error it met, if any; then any next read with room reports
  exactly that, without data and without asking BoringSSL.
\<close>

theorem read_hands_out_what_was_opened:
  assumes "async_duplex T sent got" and "engine_ok E V" and "tls_idle sent got V st" and "cx \<noteq> 0"
  shows "\<exists>st' d r. poll_read E T cx cap st = ret (st', d, r) \<and> tls_idle sent got V st' \<and>
           length d \<le> cap \<and> v_opened V (ss_ssl st') = v_opened V (ss_ssl st) @ d \<and>
           (d \<noteq> [] \<longrightarrow> r = Ready (Inr ())) \<and>
           (0 < cap \<longrightarrow>
             (case sw_read_end (ss_get st) of
                Some e \<Rightarrow> d = [] \<and> r = Ready e \<and> ss_ssl st' = ss_ssl st \<and> sw_read_end (ss_get st') = None
              | None \<Rightarrow>
                  \<exists>e s1. reads E T False cap (set_context cx st) d e s1 \<and> ss_ssl st' = ss_ssl s1 \<and>
                    (d = [] \<longrightarrow> r = (case e of None \<Rightarrow> Pending | Some x \<Rightarrow> Ready x) \<and>
                               sw_read_end (ss_get st') = None) \<and>
                    (d \<noteq> [] \<longrightarrow> sw_read_end (ss_get st') = e \<and>
                       (\<forall>x cx2 cap2. e = Some x \<and> 0 < cap2 \<longrightarrow>
                          (\<exists>st2. poll_read E T cx2 cap2 st' = ret (st2, [], Ready x) \<and>
                                 ss_ssl st2 = ss_ssl st')))))"
proof -
  from async_duplex.poll_read_ok [OF assms, of cap] obtain st' d r where p:
    "poll_read E T cx cap st = ret (st', d, r)" "tls_idle sent got V st'"
    "v_opened V (ss_ssl st') = v_opened V (ss_ssl st) @ d" "length d \<le> cap"
    "d \<noteq> [] \<longrightarrow> r = Ready (Inr ())"
    "0 < cap \<longrightarrow>
       (case sw_read_end (ss_get st) of
          Some e \<Rightarrow> d = [] \<and> r = Ready e \<and> ss_ssl st' = ss_ssl st \<and> sw_read_end (ss_get st') = None
        | None \<Rightarrow>
            \<exists>e s1. reads E T False cap (set_context cx st) d e s1 \<and> ss_ssl st' = ss_ssl s1 \<and>
              (d = [] \<longrightarrow> r = (case e of None \<Rightarrow> Pending | Some x \<Rightarrow> Ready x) \<and>
                         sw_read_end (ss_get st') = None) \<and>
              (d \<noteq> [] \<longrightarrow> sw_read_end (ss_get st') = e))" .
  have "\<forall>x cx2 cap2. e = Some x \<and> 0 < cap2 \<longrightarrow>
      (\<exists>st2. poll_read E T cx2 cap2 st' = ret (st2, [], Ready x) \<and> ss_ssl st2 = ss_ssl st')"
    if "sw_read_end (ss_get st') = e" for e
    using that async_duplex.poll_read_kept [OF assms(1), of st'] by simp
  with p show ?thesis
    by (intro exI [of _ st'] exI [of _ d] exI [of _ r]) (cases "sw_read_end (ss_get st)"; simp; blast)
qed

theorem read_hands_out_what_was_opened_witness:
  "\<exists>st' d r. poll_read null_engine once_sink 1 8 (null_tls [7, 8] 0) = ret (st', d, r) \<and>
           tls_idle (\<lambda>t. sink_data (snd t)) (\<lambda>t. once_log (fst t)) null_view st' \<and>
           length d \<le> 8 \<and>
           v_opened null_view (ss_ssl st') = v_opened null_view (ss_ssl (null_tls [7, 8] 0)) @ d \<and>
           (d \<noteq> [] \<longrightarrow> r = Ready (Inr ())) \<and>
           ((0 :: nat) < 8 \<longrightarrow>
             (case sw_read_end (ss_get (null_tls [7, 8] 0)) of
                Some e \<Rightarrow> d = [] \<and> r = Ready e \<and> ss_ssl st' = ss_ssl (null_tls [7, 8] 0) \<and>
                          sw_read_end (ss_get st') = None
              | None \<Rightarrow>
                  \<exists>e s1. reads null_engine once_sink False 8 (set_context 1 (null_tls [7, 8] 0)) d e s1 \<and>
                    ss_ssl st' = ss_ssl s1 \<and>
                    (d = [] \<longrightarrow> r = (case e of None \<Rightarrow> Pending | Some x \<Rightarrow> Ready x) \<and>
                               sw_read_end (ss_get st') = None) \<and>
                    (d \<noteq> [] \<longrightarrow> sw_read_end (ss_get st') = e \<and>
                       (\<forall>x cx2 cap2. e = Some x \<and> 0 < cap2 \<longrightarrow>
                          (\<exists>st2. poll_read null_engine once_sink cx2 cap2 st' = ret (st2, [], Ready x) \<and>
                                 ss_ssl st2 = ss_ssl st')))))"
  by (rule read_hands_out_what_was_opened [OF os.async_duplex_axioms null_engine_ok null_tls_idle]) simp

text \<open>
  C8: A flush that is ready and successful has handed everything BoringSSL ever sealed to the
  transport, and it does not call BoringSSL at all.
\<close>

theorem flush_hands_over_everything:
  assumes "async_duplex T sent got" and "tls_idle sent got V st" and "cx \<noteq> 0"
  shows "\<exists>st' r. poll_flush T cx st = ret (st', r) \<and> tls_idle sent got V st' \<and> ss_ssl st' = ss_ssl st \<and>
           (r = Ready (Inr ()) \<longrightarrow> sent (tr_stream (tls_transport st')) = v_sealed V (ss_ssl st))"
  by (rule async_duplex.poll_flush_ok [OF assms])
    (use tls_idle_history in \<open>metis append_Nil2\<close>)

theorem flush_hands_over_everything_witness:
  "\<exists>st' r. poll_flush once_sink 1 (null_tls [] 2) = ret (st', r) \<and>
           tls_idle (\<lambda>t. sink_data (snd t)) (\<lambda>t. once_log (fst t)) null_view st' \<and>
           ss_ssl st' = ss_ssl (null_tls [] 2) \<and>
           (r = Ready (Inr ()) \<longrightarrow>
              sink_data (snd (tr_stream (tls_transport st'))) =
                v_sealed null_view (ss_ssl (null_tls [] 2)))"
  by (rule flush_hands_over_everything [OF os.async_duplex_axioms null_tls_idle]) simp

text \<open>
  C7: A shutdown calls \<open>SSL_shutdown\<close> unless its alert counts as sent already; then no poll calls it
  again. It counts as sent exactly if the call returns 0 or 1 or fails because the connection is closed;
  any other failure is the answer, and BoringSSL is left as the call left it. A shutdown that is ready
  and successful has sent the alert, handed everything sealed, the alert included, to the transport, and
  only then shut the transport down, successfully. No poll of it takes or returns plaintext.
\<close>

theorem shutdown_hands_over_everything:
  assumes "async_duplex T sent got" and "engine_ok E V" and "tls_idle sent got V st" and "cx \<noteq> 0"
  shows "\<exists>st' r. poll_shutdown E T cx st = ret (st', r) \<and> tls_idle sent got V st' \<and>
           v_taken V (ss_ssl st') = v_taken V (ss_ssl st) \<and>
           v_opened V (ss_ssl st') = v_opened V (ss_ssl st) \<and>
           (sw_shutdown_sent (ss_get st) \<longrightarrow> ss_ssl st' = ss_ssl st \<and> sw_shutdown_sent (ss_get st')) \<and>
           (\<not> sw_shutdown_sent (ss_get st) \<longrightarrow>
              shutdown_called E T (set_context cx st) (sw_shutdown_sent (ss_get st')) st' r) \<and>
           (r = Ready (Inr ()) \<longrightarrow> sw_shutdown_sent (ss_get st') \<and>
              sent (tr_stream (tls_transport st')) = v_sealed V (ss_ssl st') \<and>
              (\<exists>t. sent t = v_sealed V (ss_ssl st') \<and>
                   a_poll_shutdown T t cx = (tr_stream (tls_transport st'), Ready (Inr ()))))"
proof -
  from async_duplex.poll_shutdown_ok [OF assms] obtain st' r where p:
    "poll_shutdown E T cx st = ret (st', r)" "tls_idle sent got V st'"
    "no_plaintext V (ss_ssl st) 0 [] (ss_ssl st')"
    "sw_shutdown_sent (ss_get st) \<longrightarrow> ss_ssl st' = ss_ssl st \<and> sw_shutdown_sent (ss_get st')"
    "r = Ready (Inr ()) \<longrightarrow> sw_shutdown_sent (ss_get st') \<and> wb_buffered (tls_write_buf st') = [] \<and>
       (\<exists>t. sent t = sent (tr_stream (tls_transport st')) \<and>
            a_poll_shutdown T t cx = (tr_stream (tls_transport st'), Ready (Inr ())))"
    "\<not> sw_shutdown_sent (ss_get st) \<longrightarrow>
       shutdown_called E T (set_context cx st) (sw_shutdown_sent (ss_get st')) st' r" .
  with tls_idle_history(1) [OF p(2)] show ?thesis
    by (intro exI [of _ st'] exI [of _ r]) (simp add: no_plaintext_def)
qed

theorem shutdown_hands_over_everything_witness:
  "\<exists>st' r. poll_shutdown null_engine once_sink 1 (null_tls [] 2) = ret (st', r) \<and>
           tls_idle (\<lambda>t. sink_data (snd t)) (\<lambda>t. once_log (fst t)) null_view st' \<and>
           v_taken null_view (ss_ssl st') = v_taken null_view (ss_ssl (null_tls [] 2)) \<and>
           v_opened null_view (ss_ssl st') = v_opened null_view (ss_ssl (null_tls [] 2)) \<and>
           (sw_shutdown_sent (ss_get (null_tls [] 2)) \<longrightarrow>
              ss_ssl st' = ss_ssl (null_tls [] 2) \<and> sw_shutdown_sent (ss_get st')) \<and>
           (\<not> sw_shutdown_sent (ss_get (null_tls [] 2)) \<longrightarrow>
              shutdown_called null_engine once_sink (set_context 1 (null_tls [] 2))
                (sw_shutdown_sent (ss_get st')) st' r) \<and>
           (r = Ready (Inr ()) \<longrightarrow> sw_shutdown_sent (ss_get st') \<and>
              sink_data (snd (tr_stream (tls_transport st'))) = v_sealed null_view (ss_ssl st') \<and>
              (\<exists>t. sink_data (snd t) = v_sealed null_view (ss_ssl st') \<and>
                   a_poll_shutdown once_sink t 1 = (tr_stream (tls_transport st'), Ready (Inr ()))))"
  by (rule shutdown_hands_over_everything [OF os.async_duplex_axioms null_engine_ok null_tls_idle]) simp

end
